(* ===== verification/Prelude.thy ===== *)
theory Prelude
  imports Main "HOL-Library.Word" "HOL-Library.Monad_Syntax"
begin

text \<open>
  Shared vocabulary of the development: the C integer types of the ARM target (32-bit
  \<open>int\<close> and \<open>long\<close>, unsigned plain \<open>char\<close>), C strings as lists of characters, and
  the generic facts on lists and options that the component theories use.

  A pointer into an object is modelled by the list of the bytes from that pointer to the end
  of the object.  Every access is checked: a read or a write past the end of the list is the
  value \<^const>\<open>None\<close> of the \<^typ>\<open>'a option\<close> result, so a theorem whose conclusion is
  \<open>Some r\<close> says that the routine stays inside its objects, besides what it computes.
\<close>

type_synonym u8 = "8 word"
type_synonym u16 = "16 word"
type_synonym u32 = "32 word"
type_synonym buf = "char list"

named_theorems buffer_simps \<open>rewrite rules on buffers and C strings\<close>
named_theorems invariant_intros \<open>introduction rules for component invariants\<close>

section \<open>Characters and C strings\<close>

abbreviation NUL :: char where
  "NUL \<equiv> CHR 0x00"

abbreviation TAB :: char where
  "TAB \<equiv> CHR 0x09"

abbreviation code :: "char \<Rightarrow> nat" where
  "code c \<equiv> of_char c"

text \<open>The value of a \<open>char\<close> (unsigned on ARM) in an integer expression.\<close>

abbreviation ichar :: "char \<Rightarrow> int" where
  "ichar c \<equiv> of_char c"

text \<open>An \<open>int\<close> stored in a \<open>signed char\<close>.\<close>

definition schar :: "int \<Rightarrow> int" where
  "schar n = (n + 128) mod 256 - 128"

text \<open>The C string with the characters of \<open>s\<close>, and the strings that have one.\<close>

definition cstr :: "string \<Rightarrow> buf" where
  "cstr s = s @ [NUL]"

definition nonul :: "string \<Rightarrow> bool" where
  "nonul s \<longleftrightarrow> NUL \<notin> set s"

text \<open>The string at the start of a buffer: everything before the first NUL.\<close>

fun str_at :: "buf \<Rightarrow> string option" where
  "str_at [] = None"
| "str_at (c # cs) = (if c = NUL then Some [] else map_option (Cons c) (str_at cs))"

lemma code_le_255 [simp]: "code c \<le> 255"
  using nat_of_char_less_256 [of c] by linarith

lemma ichar_eq_int: "ichar c = int (code c)"
  by (simp add: of_nat_of_char)

lemma ichar_bounds [simp]: "0 \<le> ichar c" "ichar c < 256"
  using nat_of_char_less_256 [of c] by (simp_all add: ichar_eq_int)

lemma code_eq_0_iff [simp]: "code c = 0 \<longleftrightarrow> c = NUL"
  using of_char_eq_iff [of c NUL, where ?'a = nat] by (simp del: of_char_eq_iff)

lemma ichar_eq_0_iff [simp]: "ichar c = 0 \<longleftrightarrow> c = NUL"
  by (simp add: ichar_eq_int)

lemma schar_diff_zero_iff:
  assumes "0 \<le> x" "x < 256" "0 \<le> y" "y < 256"
  shows "schar (x - y) = 0 \<longleftrightarrow> x = y"
proof
  assume "schar (x - y) = 0"
  then have "(x - y + 128) mod 256 = 128 mod 256" by (simp add: schar_def)
  then have "256 dvd x - y" using mod_eq_dvd_iff [of "x - y + 128" 256 128] by simp
  then obtain k where "x - y = 256 * k" by (rule dvdE)
  moreover from this assms have "k = 0" by arith
  ultimately show "x = y" by simp
qed (simp add: schar_def)

lemma schar_zero_iff: "schar (ichar c - ichar d) = 0 \<longleftrightarrow> c = d"
  by (simp add: schar_diff_zero_iff)

lemma schar_0 [simp]: "schar 0 = 0"
  by (simp add: schar_def)

lemma schar_ichar_zero_iff [simp]:
  "schar (ichar c) = 0 \<longleftrightarrow> c = NUL" "schar (- ichar c) = 0 \<longleftrightarrow> c = NUL"
  using schar_zero_iff [of c NUL] schar_zero_iff [of NUL c] by auto

lemma schar_small: "-128 \<le> n \<Longrightarrow> n < 128 \<Longrightarrow> schar n = n"
  by (simp add: schar_def)

lemma nonul_Nil [simp]: "nonul []"
  by (simp add: nonul_def)

lemma nonul_Cons [simp]: "nonul (c # s) \<longleftrightarrow> c \<noteq> NUL \<and> nonul s"
  by (auto simp: nonul_def)

lemma nonul_append [simp]: "nonul (s @ t) \<longleftrightarrow> nonul s \<and> nonul t"
  by (auto simp: nonul_def)

lemma nonul_take [simp]: "nonul s \<Longrightarrow> nonul (take n s)"
  by (auto simp: nonul_def dest: in_set_takeD)

lemma nonul_drop [simp]: "nonul s \<Longrightarrow> nonul (drop n s)"
  by (auto simp: nonul_def dest: in_set_dropD)

lemma str_at_append [buffer_simps]: "nonul s \<Longrightarrow> str_at (s @ NUL # r) = Some s"
  by (induction s) simp_all

lemma str_at_cstr [buffer_simps]: "nonul s \<Longrightarrow> str_at (cstr s) = Some s"
  by (simp add: cstr_def str_at_append)

lemma str_at_Some: "str_at b = Some s \<Longrightarrow> nonul s \<and> (\<exists>r. b = s @ NUL # r)"
  by (induction b arbitrary: s) (auto split: if_splits)

lemma cstr_Nil [simp]: "cstr [] = [NUL]"
  by (simp add: cstr_def)

lemma cstr_Cons [simp]: "cstr (c # s) = c # cstr s"
  by (simp add: cstr_def)

lemma length_cstr [simp]: "length (cstr s) = Suc (length s)"
  by (simp add: cstr_def)

section \<open>Lists\<close>

text \<open>The reads and writes of C arrays: \<^const>\<open>None\<close> when the index is out of bounds.\<close>

definition load :: "'a list \<Rightarrow> nat \<Rightarrow> 'a option" where
  "load xs i = (if i < length xs then Some (xs ! i) else None)"

definition store :: "'a list \<Rightarrow> nat \<Rightarrow> 'a \<Rightarrow> 'a list option" where
  "store xs i x = (if i < length xs then Some (xs[i := x]) else None)"

lemma load_Some [simp]: "i < length xs \<Longrightarrow> load xs i = Some (xs ! i)"
  by (simp add: load_def)

lemma store_Some [simp]: "i < length xs \<Longrightarrow> store xs i x = Some (xs[i := x])"
  by (simp add: store_def)

lemma load_eq_Some_iff: "load xs i = Some x \<longleftrightarrow> i < length xs \<and> x = xs ! i"
  by (auto simp: load_def)

lemma store_eq_Some_iff: "store xs i x = Some ys \<longleftrightarrow> i < length xs \<and> ys = xs[i := x]"
  by (auto simp: store_def)

lemma load_append_length [buffer_simps]: "load (xs @ x # ys) (length xs) = Some x"
  by (simp add: load_def)

lemma store_append_length [buffer_simps]:
  "store (xs @ x # ys) (length xs) y = Some (xs @ y # ys)"
  by (simp add: store_def)

lemma all_lt_256_char: "(\<forall>n < 256. P (char_of (n :: nat))) \<Longrightarrow> P (c :: char)"
  by (metis char_of_char nat_of_char_less_256)

lemma list_all_upt: "list_all P [0..<n] \<Longrightarrow> i < n \<Longrightarrow> P i"
  by (simp add: list_all_iff)

end
