(* ===== verification/C_Type.thy ===== *)
theory C_Type
  imports Prelude
begin

text \<open>
  The character classes of \<open>lib_generic/ctype.c\<close> and the macros of
  \<open>include/linux/ctype.h\<close>: the 256-entry mask table, the predicates read from it and the
  two case conversions.  The lemmas give each predicate the parsers use as a range of codes.
\<close>

unbundle bit_operations_syntax

definition CT_U :: u8 where "CT_U = 0x01"
definition CT_L :: u8 where "CT_L = 0x02"
definition CT_D :: u8 where "CT_D = 0x04"
definition CT_C :: u8 where "CT_C = 0x08"
definition CT_P :: u8 where "CT_P = 0x10"
definition CT_S :: u8 where "CT_S = 0x20"
definition CT_X :: u8 where "CT_X = 0x40"
definition CT_SP :: u8 where "CT_SP = 0x80"

lemmas ct_defs = CT_U_def CT_L_def CT_D_def CT_C_def CT_P_def CT_S_def CT_X_def CT_SP_def

definition ctype_table :: "u8 list" where
  "ctype_table =
     replicate 9 CT_C @ replicate 5 (CT_C OR CT_S) @ replicate 18 CT_C @
     [CT_S OR CT_SP] @ replicate 15 CT_P @
     replicate 10 CT_D @ replicate 7 CT_P @
     replicate 6 (CT_U OR CT_X) @ replicate 20 CT_U @ replicate 6 CT_P @
     replicate 6 (CT_L OR CT_X) @ replicate 20 CT_L @ replicate 4 CT_P @ [CT_C] @
     replicate 32 0 @
     [CT_S OR CT_SP] @ replicate 31 CT_P @
     replicate 23 CT_U @ [CT_P] @ replicate 7 CT_U @ [CT_L] @
     replicate 23 CT_L @ [CT_P] @ replicate 8 CT_L"

definition ismask :: "char \<Rightarrow> u8" where
  "ismask c = ctype_table ! code c"

definition isalnum :: "char \<Rightarrow> bool" where
  "isalnum c \<longleftrightarrow> ismask c AND (CT_U OR CT_L OR CT_D) \<noteq> 0"

definition isalpha :: "char \<Rightarrow> bool" where
  "isalpha c \<longleftrightarrow> ismask c AND (CT_U OR CT_L) \<noteq> 0"

definition isdigit :: "char \<Rightarrow> bool" where
  "isdigit c \<longleftrightarrow> ismask c AND CT_D \<noteq> 0"

definition islower :: "char \<Rightarrow> bool" where
  "islower c \<longleftrightarrow> ismask c AND CT_L \<noteq> 0"

definition isupper :: "char \<Rightarrow> bool" where
  "isupper c \<longleftrightarrow> ismask c AND CT_U \<noteq> 0"

definition isspace :: "char \<Rightarrow> bool" where
  "isspace c \<longleftrightarrow> ismask c AND CT_S \<noteq> 0"

definition isprint :: "char \<Rightarrow> bool" where
  "isprint c \<longleftrightarrow> ismask c AND (CT_P OR CT_U OR CT_L OR CT_D OR CT_SP) \<noteq> 0"

definition isxdigit :: "char \<Rightarrow> bool" where
  "isxdigit c \<longleftrightarrow> ismask c AND (CT_D OR CT_X) \<noteq> 0"

text \<open>
  \<open>c -= 'A'-'a'\<close> and \<open>c -= 'a'-'A'\<close> in an \<open>unsigned char\<close>; \<^const>\<open>char_of\<close> reduces
  its argument modulo 256.
\<close>

definition tolower :: "char \<Rightarrow> char" where
  "tolower c = (if isupper c then char_of (code c + 32) else c)"

definition toupper :: "char \<Rightarrow> char" where
  "toupper c = (if islower c then char_of (code c + 224) else c)"

section \<open>The classes as ranges\<close>

lemma ctype_table_length: "length ctype_table = 256"
  by (simp add: ctype_table_def)

lemma isdigit_table:
  "list_all (\<lambda>n. (ctype_table ! n AND CT_D \<noteq> 0) = (48 \<le> n \<and> n \<le> 57)) [0..<256]"
  by code_simp

lemma isxdigit_table:
  "list_all (\<lambda>n. (ctype_table ! n AND (CT_D OR CT_X) \<noteq> 0) =
     (48 \<le> n \<and> n \<le> 57 \<or> 65 \<le> n \<and> n \<le> 70 \<or> 97 \<le> n \<and> n \<le> 102)) [0..<256]"
  by code_simp

lemma islower_table:
  "list_all (\<lambda>n. (ctype_table ! n AND CT_L \<noteq> 0) =
     (97 \<le> n \<and> n \<le> 122 \<or> 223 \<le> n \<and> n \<le> 255 \<and> n \<noteq> 247)) [0..<256]"
  by code_simp

lemma isupper_table:
  "list_all (\<lambda>n. (ctype_table ! n AND CT_U \<noteq> 0) =
     (65 \<le> n \<and> n \<le> 90 \<or> 192 \<le> n \<and> n \<le> 222 \<and> n \<noteq> 215)) [0..<256]"
  by code_simp

lemma isdigit_iff: "isdigit c \<longleftrightarrow> 48 \<le> code c \<and> code c \<le> 57"
  using list_all_upt [OF isdigit_table, of "code c"] by (simp add: isdigit_def ismask_def)

lemma isxdigit_iff:
  "isxdigit c \<longleftrightarrow> 48 \<le> code c \<and> code c \<le> 57 \<or> 65 \<le> code c \<and> code c \<le> 70 \<or>
     97 \<le> code c \<and> code c \<le> 102"
  using list_all_upt [OF isxdigit_table, of "code c"] by (simp add: isxdigit_def ismask_def)

lemma islower_iff:
  "islower c \<longleftrightarrow> 97 \<le> code c \<and> code c \<le> 122 \<or> 223 \<le> code c \<and> code c \<noteq> 247"
proof -
  have "code c < 256" by simp
  then show ?thesis
    using list_all_upt [OF islower_table, of "code c"] by (auto simp: islower_def ismask_def)
qed

lemma isupper_iff:
  "isupper c \<longleftrightarrow> 65 \<le> code c \<and> code c \<le> 90 \<or>
     192 \<le> code c \<and> code c \<le> 222 \<and> code c \<noteq> 215"
  using list_all_upt [OF isupper_table, of "code c"] by (simp add: isupper_def ismask_def)

lemma isdigit_isxdigit: "isdigit c \<Longrightarrow> isxdigit c"
  by (simp add: isdigit_iff isxdigit_iff)

lemma code_tolower: "code (tolower c) = (if isupper c then code c + 32 else code c)"
  by (simp add: tolower_def isupper_iff)

lemma code_toupper: "code (toupper c) = (if islower c then code c - 32 else code c)"
proof -
  have "code c < 256" by simp
  moreover have "islower c \<Longrightarrow> (code c + 224) mod 256 = code c - 32"
  proof -
    assume "islower c"
    then have "97 \<le> code c" by (auto simp: islower_iff)
    then have "code c + 224 = (code c - 32) + 256" by simp
    then have "(code c + 224) mod 256 = (code c - 32) mod 256" by (simp only: mod_add_self2)
    moreover have "code c - 32 < 256" using nat_of_char_less_256 [of c] by linarith
    ultimately show ?thesis by simp
  qed
  ultimately show ?thesis by (simp add: toupper_def)
qed

lemma tolower_idem: "tolower (tolower c) = tolower c"
proof -
  have "\<not> isupper (tolower c)"
    by (auto simp: isupper_iff [of "tolower c"] code_tolower isupper_iff [of c])
  then show ?thesis by (simp add: tolower_def [of "tolower c"])
qed

lemma tolower_NUL [simp]: "tolower NUL = NUL"
  by (simp add: tolower_def isupper_iff)

lemma tolower_eq_NUL [simp]: "tolower c = NUL \<longleftrightarrow> c = NUL"
proof
  assume "tolower c = NUL"
  then have "code (tolower c) = 0" by simp
  then have "code c = 0" by (simp add: code_tolower split: if_splits)
  then have "code c = code NUL" by simp
  then show "c = NUL" by (simp only: of_char_eq_iff)
qed simp

end
