(* ===== verification/C_String.thy ===== *)
theory C_String
  imports C_Type
begin

text \<open>
  The string and memory routines of \<open>lib_generic/string.c\<close>.  A pointer argument that the
  routine only walks forward is the list of bytes from the pointer to the end of its object;
  a routine that writes returns the new contents of the object, and \<^const>\<open>None\<close> where the
  C code leaves an object.  Routines that step backwards or take overlapping areas
  (\<open>memmove\<close>, \<open>strrchr\<close>, \<open>strtok\<close>) get the whole object and offsets into it.  A returned
  pointer is the offset from the argument, a returned NULL is an inner \<^const>\<open>None\<close>.
\<close>

section \<open>Lengths\<close>

fun strlen :: "buf \<Rightarrow> nat option" where
  "strlen [] = None"
| "strlen (c # s) = (if c = NUL then Some 0 else map_option Suc (strlen s))"

fun strnlen :: "buf \<Rightarrow> nat \<Rightarrow> nat option" where
  "strnlen s 0 = Some 0"
| "strnlen [] (Suc n) = None"
| "strnlen (c # s) (Suc n) = (if c = NUL then Some 0 else map_option Suc (strnlen s n))"

section \<open>Comparison\<close>

fun strcmp :: "buf \<Rightarrow> buf \<Rightarrow> int option" where
  "strcmp (c # cs) (d # ds) =
     (let r = schar (ichar c - ichar d)
      in if r \<noteq> 0 \<or> c = NUL then Some r else strcmp cs ds)"
| "strcmp _ _ = None"

fun strncmp :: "buf \<Rightarrow> buf \<Rightarrow> nat \<Rightarrow> int option" where
  "strncmp _ _ 0 = Some 0"
| "strncmp (c # cs) (d # ds) (Suc n) =
     (let r = schar (ichar c - ichar d)
      in if r \<noteq> 0 \<or> c = NUL then Some r else strncmp cs ds n)"
| "strncmp _ _ (Suc n) = None"

text \<open>
  In \<open>strnicmp\<close> a \<open>continue\<close> goes to the loop condition \<open>--len\<close>, and the result is the
  difference of the characters of the last round.
\<close>

fun strnicmp :: "buf \<Rightarrow> buf \<Rightarrow> nat \<Rightarrow> int option" where
  "strnicmp _ _ 0 = Some 0"
| "strnicmp (c1 # s1) (c2 # s2) (Suc n) =
     (if c1 = NUL then Some (ichar c1 - ichar c2)
      else if c2 = NUL then Some (ichar c1 - ichar c2)
      else if c1 = c2 then
        (if n = 0 then Some (ichar c1 - ichar c2) else strnicmp s1 s2 n)
      else let d1 = tolower c1; d2 = tolower c2
        in if d1 \<noteq> d2 then Some (ichar d1 - ichar d2)
           else if n = 0 then Some (ichar d1 - ichar d2) else strnicmp s1 s2 n)"
| "strnicmp _ _ (Suc n) = None"

fun memcmp :: "buf \<Rightarrow> buf \<Rightarrow> nat \<Rightarrow> int option" where
  "memcmp _ _ 0 = Some 0"
| "memcmp (c # cs) (d # ds) (Suc n) =
     (let r = ichar c - ichar d in if r \<noteq> 0 then Some r else memcmp cs ds n)"
| "memcmp _ _ (Suc n) = None"

section \<open>Copying strings\<close>

fun strcpy :: "buf \<Rightarrow> buf \<Rightarrow> buf option" where
  "strcpy (d # ds) (c # cs) =
     (if c = NUL then Some (c # ds) else map_option (Cons c) (strcpy ds cs))"
| "strcpy _ _ = None"

fun strncpy :: "buf \<Rightarrow> buf \<Rightarrow> nat \<Rightarrow> buf option" where
  "strncpy ds cs 0 = Some ds"
| "strncpy (d # ds) (c # cs) (Suc n) =
     (if c = NUL then Some (c # ds) else map_option (Cons c) (strncpy ds cs n))"
| "strncpy _ _ (Suc n) = None"

fun strcat :: "buf \<Rightarrow> buf \<Rightarrow> buf option" where
  "strcat [] src = None"
| "strcat (d # ds) src =
     (if d = NUL then strcpy (d # ds) src else map_option (Cons d) (strcat ds src))"

text \<open>The second loop of \<open>strncat\<close>: \<open>count\<close> is positive, and reaching 0 terminates.\<close>

fun strncat_copy :: "buf \<Rightarrow> buf \<Rightarrow> nat \<Rightarrow> buf option" where
  "strncat_copy (d # ds) (c # cs) (Suc n) =
     (if c = NUL then Some (c # ds)
      else if n = 0 then
        (case ds of [] \<Rightarrow> None | _ # ds' \<Rightarrow> Some (c # NUL # ds'))
      else map_option (Cons c) (strncat_copy ds cs n))"
| "strncat_copy _ _ _ = None"

fun strncat_find :: "buf \<Rightarrow> buf \<Rightarrow> nat \<Rightarrow> buf option" where
  "strncat_find [] src n = None"
| "strncat_find (d # ds) src n =
     (if d = NUL then strncat_copy (d # ds) src n
      else map_option (Cons d) (strncat_find ds src n))"

definition strncat :: "buf \<Rightarrow> buf \<Rightarrow> nat \<Rightarrow> buf option" where
  "strncat dest src count = (if count = 0 then Some dest else strncat_find dest src count)"

section \<open>Searching\<close>

fun strchr :: "buf \<Rightarrow> char \<Rightarrow> nat option option" where
  "strchr [] c = None"
| "strchr (x # s) c =
     (if x = c then Some (Some 0)
      else if x = NUL then Some None
      else map_option (map_option Suc) (strchr s c))"

text \<open>\<open>p\<close> walks from \<open>s + strlen(s)\<close> down to \<open>s\<close>.\<close>

fun strrchr_down :: "buf \<Rightarrow> char \<Rightarrow> nat \<Rightarrow> nat option" where
  "strrchr_down s c 0 = (if s ! 0 = c then Some 0 else None)"
| "strrchr_down s c (Suc p) = (if s ! Suc p = c then Some (Suc p) else strrchr_down s c p)"

definition strrchr :: "buf \<Rightarrow> char \<Rightarrow> nat option option" where
  "strrchr s c = map_option (strrchr_down s c) (strlen s)"

text \<open>The inner loop of \<open>strspn\<close> and \<open>strpbrk\<close>: is \<open>c\<close> one of the characters of \<open>set\<close>?\<close>

fun in_accept :: "char \<Rightarrow> buf \<Rightarrow> bool option" where
  "in_accept c [] = None"
| "in_accept c (a # as) =
     (if a = NUL then Some False else if c = a then Some True else in_accept c as)"

fun strspn :: "buf \<Rightarrow> buf \<Rightarrow> nat option" where
  "strspn [] acc = None"
| "strspn (c # s) acc =
     (if c = NUL then Some 0
      else do { b \<leftarrow> in_accept c acc;
                if b then map_option Suc (strspn s acc) else Some 0 })"

fun strpbrk :: "buf \<Rightarrow> buf \<Rightarrow> nat option option" where
  "strpbrk [] ct = None"
| "strpbrk (c # s) ct =
     (if c = NUL then Some None
      else do { b \<leftarrow> in_accept c ct;
                if b then Some (Some 0) else map_option (map_option Suc) (strpbrk s ct) })"

fun memscan :: "buf \<Rightarrow> char \<Rightarrow> nat \<Rightarrow> nat option" where
  "memscan s c 0 = Some 0"
| "memscan [] c (Suc n) = None"
| "memscan (x # s) c (Suc n) = (if x = c then Some 0 else map_option Suc (memscan s c n))"

fun memchr :: "buf \<Rightarrow> char \<Rightarrow> nat \<Rightarrow> nat option option" where
  "memchr s c 0 = Some None"
| "memchr [] c (Suc n) = None"
| "memchr (x # s) c (Suc n) =
     (if c = x then Some (Some 0) else map_option (map_option Suc) (memchr s c n))"

text \<open>\<open>strstr\<close>: one comparison per starting position, while \<open>l1 \<ge> l2\<close>.\<close>

fun strstr_loop :: "buf \<Rightarrow> buf \<Rightarrow> nat \<Rightarrow> nat \<Rightarrow> nat option option" where
  "strstr_loop s1 s2 l1 l2 =
     (if l1 \<ge> l2 \<and> 0 < l1 then
        do { r \<leftarrow> memcmp s1 s2 l2;
             if r = 0 then Some (Some 0)
             else map_option (map_option Suc) (strstr_loop (drop 1 s1) s2 (l1 - 1) l2) }
      else Some None)"

declare strstr_loop.simps [simp del]

definition strstr :: "buf \<Rightarrow> buf \<Rightarrow> nat option option" where
  "strstr s1 s2 =
     do { l2 \<leftarrow> strlen s2;
          if l2 = 0 then Some (Some 0)
          else do { l1 \<leftarrow> strlen s1; strstr_loop s1 s2 l1 l2 } }"

section \<open>Splitting\<close>

text \<open>
  \<open>strtok\<close> keeps its position in the global \<open>___strtok\<close>.  The object being split, the
  global and the result are offsets into one buffer; an explicit argument \<open>s\<close> restarts.
\<close>

record strtok_state =
  tok_buf :: buf
  tok_pos :: "nat option"

definition strtok ::
  "strtok_state \<Rightarrow> nat option \<Rightarrow> buf \<Rightarrow> (strtok_state \<times> nat option) option" where
  "strtok st s ct =
     (case (case s of Some p \<Rightarrow> Some p | None \<Rightarrow> tok_pos st) of
        None \<Rightarrow> Some (st, None)
      | Some sbegin \<Rightarrow>
          do { n \<leftarrow> strspn (drop sbegin (tok_buf st)) ct;
               let sbegin = sbegin + n;
               c \<leftarrow> load (tok_buf st) sbegin;
               if c = NUL then Some (st\<lparr>tok_pos := None\<rparr>, None)
               else do { e \<leftarrow> strpbrk (drop sbegin (tok_buf st)) ct;
                         case e of
                           None \<Rightarrow> Some (st\<lparr>tok_pos := None\<rparr>, Some sbegin)
                         | Some k \<Rightarrow>
                             do { b \<leftarrow> store (tok_buf st) (sbegin + k) NUL;
                                  Some (st\<lparr>tok_buf := b, tok_pos := Some (sbegin + k + 1)\<rparr>,
                                        Some sbegin) } } })"

definition strsep :: "buf \<Rightarrow> nat option \<Rightarrow> buf \<Rightarrow> (buf \<times> nat option \<times> nat option) option" where
  "strsep b s ct =
     (case s of None \<Rightarrow> Some (b, None, None)
      | Some sbegin \<Rightarrow>
          do { e \<leftarrow> strpbrk (drop sbegin b) ct;
               case e of
                 None \<Rightarrow> Some (b, None, Some sbegin)
               | Some k \<Rightarrow>
                   do { b' \<leftarrow> store b (sbegin + k) NUL;
                        Some (b', Some (sbegin + k + 1), Some sbegin) } })"

text \<open>
  The loop of \<open>strswab\<close>: \<open>p\<close> starts at the second character and moves by two.  The list is
  the object from \<open>p-1\<close>.
\<close>

fun strswab_loop :: "buf \<Rightarrow> buf option" where
  "strswab_loop (a # b # s) =
     (if b = NUL then Some (a # b # s)
      else map_option (\<lambda>t. b # a # t) (strswab_loop s))"
| "strswab_loop _ = None"

definition strswab :: "buf \<Rightarrow> buf option option" where
  "strswab s =
     (case s of [] \<Rightarrow> None
      | c # _ \<Rightarrow> if c = NUL then Some None else map_option Some (strswab_loop s))"

section \<open>Memory areas\<close>

fun memset :: "'a list \<Rightarrow> 'a \<Rightarrow> nat \<Rightarrow> 'a list option" where
  "memset xs c 0 = Some xs"
| "memset [] c (Suc n) = None"
| "memset (x # xs) c (Suc n) = map_option (Cons c) (memset xs c n)"

text \<open>
  The copying loops act on one memory, with the destination and the source as offsets, so
  that the areas may overlap.  \<open>memcpy\<close> and \<open>bcopy\<close> are the ascending loop.
\<close>

fun copy_up :: "'a list \<Rightarrow> nat \<Rightarrow> nat \<Rightarrow> nat \<Rightarrow> 'a list option" where
  "copy_up m d s 0 = Some m"
| "copy_up m d s (Suc n) =
     do { x \<leftarrow> load m s; m' \<leftarrow> store m d x; copy_up m' (Suc d) (Suc s) n }"

fun copy_down :: "'a list \<Rightarrow> nat \<Rightarrow> nat \<Rightarrow> nat \<Rightarrow> 'a list option" where
  "copy_down m d s 0 = Some m"
| "copy_down m d s (Suc n) =
     do { x \<leftarrow> load m (s + n); m' \<leftarrow> store m (d + n) x; copy_down m' d s n }"

text \<open>\<open>memcpy\<close> from another object: the source is a list of its own.\<close>

fun copy_in :: "'a list \<Rightarrow> nat \<Rightarrow> 'a list \<Rightarrow> nat \<Rightarrow> 'a list option" where
  "copy_in m d src 0 = Some m"
| "copy_in m d [] (Suc n) = None"
| "copy_in m d (x # src) (Suc n) = do { m' \<leftarrow> store m d x; copy_in m' (Suc d) src n }"

definition memcpy :: "'a list \<Rightarrow> nat \<Rightarrow> nat \<Rightarrow> nat \<Rightarrow> 'a list option" where
  "memcpy m dest src count = copy_up m dest src count"

definition bcopy :: "'a list \<Rightarrow> nat \<Rightarrow> nat \<Rightarrow> nat \<Rightarrow> 'a list option" where
  "bcopy m src dest count = copy_up m dest src count"

definition memmove :: "'a list \<Rightarrow> nat \<Rightarrow> nat \<Rightarrow> nat \<Rightarrow> 'a list option" where
  "memmove m dest src count =
     (if dest \<le> src then copy_up m dest src count else copy_down m dest src count)"

text \<open>\<open>strdup\<close>: the allocator decides whether there is a fresh object of \<open>strlen(s)+1\<close> bytes.\<close>

definition strdup :: "(nat \<Rightarrow> buf option) \<Rightarrow> buf option \<Rightarrow> buf option option" where
  "strdup malloc s =
     (case s of None \<Rightarrow> Some None
      | Some s' \<Rightarrow>
          do { n \<leftarrow> strlen s';
               case malloc (n + 1) of None \<Rightarrow> Some None
               | Some new \<Rightarrow> map_option Some (strcpy new s') })"


section \<open>Lengths and copies\<close>

lemma strlen_str_at: "strlen b = map_option length (str_at b)"
  by (induction b) (simp_all add: option.map_comp comp_def)

lemma strlen_append [buffer_simps]: "nonul s \<Longrightarrow> strlen (s @ NUL # r) = Some (length s)"
  by (simp add: strlen_str_at buffer_simps)

lemma strlen_cstr [buffer_simps]: "nonul s \<Longrightarrow> strlen (cstr s) = Some (length s)"
  by (simp add: strlen_str_at buffer_simps)

lemma strnlen_append [buffer_simps]:
  "nonul s \<Longrightarrow> strnlen (s @ NUL # r) n = Some (min n (length s))"
  by (induction s n rule: strnlen.induct) (auto simp: min_def)

lemma strnlen_short: "nonul s \<Longrightarrow> n \<le> length s \<Longrightarrow> strnlen s n = Some n"
  by (induction s n rule: strnlen.induct) auto

lemma strcpy_eq [buffer_simps]:
  "nonul s \<Longrightarrow> strcpy d (s @ NUL # r) =
     (if length s < length d then Some (s @ NUL # drop (Suc (length s)) d) else None)"
proof (induction s arbitrary: d)
  case Nil
  then show ?case by (cases d) simp_all
next
  case (Cons c s)
  then show ?case by (cases d) auto
qed

lemma strcpy_cstr [buffer_simps]:
  "nonul s \<Longrightarrow> strcpy d (cstr s) =
     (if length s < length d then Some (s @ NUL # drop (Suc (length s)) d) else None)"
  using strcpy_eq [of s d "[]"] by (simp add: cstr_def)

lemma strncpy_eq:
  "nonul s \<Longrightarrow> strncpy d (s @ NUL # r) n =
     (if n \<le> length s then
        (if n \<le> length d then Some (take n s @ drop n d) else None)
      else if length s < length d then Some (s @ NUL # drop (Suc (length s)) d) else None)"
proof (induction s arbitrary: d n)
  case Nil
  then show ?case by (cases d; cases n) simp_all
next
  case (Cons c s)
  then show ?case by (cases d; cases n) auto
qed

lemma strcat_eq:
  "nonul s \<Longrightarrow> nonul t \<Longrightarrow> strcat (s @ NUL # d) (t @ NUL # r) =
     (if length t \<le> length d then Some (s @ t @ NUL # drop (length t) d) else None)"
proof (induction s)
  case Nil
  then show ?case by (simp add: strcpy_eq less_Suc_eq_le)
next
  case (Cons c s)
  then show ?case by auto
qed

lemma strncat_copy_eq:
  "nonul t \<Longrightarrow> 0 < n \<Longrightarrow> strncat_copy (x # d) (t @ NUL # r) n =
     (if length (take n t) \<le> length d
      then Some (take n t @ NUL # drop (length (take n t)) d) else None)"
proof (induction t arbitrary: x d n)
  case Nil
  then show ?case by (cases n) simp_all
next
  case (Cons c t)
  then obtain m where n: "n = Suc m" by (cases n) auto
  show ?case
  proof (cases "m = 0")
    case True
    with Cons.prems n show ?thesis by (cases d) simp_all
  next
    case False
    show ?thesis
    proof (cases d)
      case Nil
      then show ?thesis using False Cons.prems n by (cases t) simp_all
    next
      case (Cons y d')
      then show ?thesis using False Cons.prems n Cons.IH [of m y d'] by simp
    qed
  qed
qed

lemma strncat_find_eq:
  "nonul s \<Longrightarrow> strncat_find (s @ NUL # d) src n = map_option ((@) s) (strncat_copy (NUL # d) src n)"
  by (induction s) (cases "strncat_copy (NUL # d) src n"; simp)+

section \<open>Comparison\<close>

text \<open>\<open>strcmp\<close> always returns on two strings, and is 0 on equal strings only.\<close>

lemma strcmp_returns: "nonul s \<Longrightarrow> nonul t \<Longrightarrow> \<exists>r. strcmp (s @ NUL # x) (t @ NUL # y) = Some r"
proof (induction s arbitrary: t)
  case Nil
  then show ?case by (cases t) (simp_all add: Let_def)
next
  case (Cons c s)
  then show ?case by (cases t) (auto simp: Let_def schar_zero_iff)
qed

lemma strcmp_zero_iff:
  "nonul s \<Longrightarrow> nonul t \<Longrightarrow> strcmp (s @ NUL # x) (t @ NUL # y) = Some 0 \<longleftrightarrow> s = t"
proof (induction s arbitrary: t)
  case Nil
  then show ?case by (cases t) (auto simp: Let_def schar_zero_iff)
next
  case (Cons c s)
  then show ?case by (cases t) (auto simp: Let_def schar_zero_iff)
qed

text \<open>On 7-bit characters the result has the sign of the lexicographic order.\<close>

definition ascii7 :: "string \<Rightarrow> bool" where
  "ascii7 s \<longleftrightarrow> (\<forall>c \<in> set s. code c < 128)"

fun str_less :: "string \<Rightarrow> string \<Rightarrow> bool" where
  "str_less s [] = False"
| "str_less [] (d # t) = True"
| "str_less (c # s) (d # t) = (code c < code d \<or> c = d \<and> str_less s t)"

lemma schar_ascii:
  "code c < 128 \<Longrightarrow> code d < 128 \<Longrightarrow> schar (ichar c - ichar d) = ichar c - ichar d"
  by (rule schar_small) (simp_all add: ichar_eq_int)

lemma code_pos: "c \<noteq> NUL \<Longrightarrow> 0 < code c"
  by (rule gr0I) simp

lemma strcmp_less_iff:
  "nonul s \<Longrightarrow> nonul t \<Longrightarrow> ascii7 s \<Longrightarrow> ascii7 t \<Longrightarrow>
   (\<exists>r < 0. strcmp (s @ NUL # x) (t @ NUL # y) = Some r) \<longleftrightarrow> str_less s t"
proof (induction s arbitrary: t)
  case Nil
  show ?case
  proof (cases t)
    case (Cons d t')
    with Nil have "0 < code d" "code d < 128" by (simp_all add: code_pos ascii7_def)
    with Cons show ?thesis by (simp add: Let_def ichar_eq_int schar_small)
  qed (simp add: Let_def schar_def)
next
  case (Cons c s)
  have c: "0 < code c" "code c < 128" using Cons.prems by (simp_all add: code_pos ascii7_def)
  show ?case
  proof (cases t)
    case Nil
    with c Cons.prems show ?thesis by (simp add: Let_def ichar_eq_int schar_small)
  next
    case (Cons d t')
    with Cons.prems have d: "0 < code d" "code d < 128" by (simp_all add: code_pos ascii7_def)
    have IH: "(\<exists>r < 0. strcmp (s @ NUL # x) (t' @ NUL # y) = Some r) \<longleftrightarrow> str_less s t'"
      using Cons.IH [of t'] Cons.prems Cons by (simp add: ascii7_def)
    show ?thesis
    proof (cases "c = d")
      case True
      with IH Cons Cons.prems(1) show ?thesis by (simp add: Let_def schar_def)
    next
      case False
      then have "code c \<noteq> code d" by simp
      with c d Cons False Cons.prems(1) show ?thesis
        by (simp add: Let_def ichar_eq_int schar_small)
    qed
  qed
qed

lemma strncmp_cstr_zero_iff:
  "nonul s \<Longrightarrow> nonul t \<Longrightarrow> strncmp (cstr s) (cstr t) n = Some 0 \<longleftrightarrow> take n s = take n t"
proof (induction s arbitrary: t n)
  case Nil
  then show ?case by (cases t; cases n) (auto simp: Let_def schar_zero_iff)
next
  case (Cons c s)
  then show ?case by (cases t; cases n) (auto simp: Let_def schar_zero_iff)
qed

lemma strncmp_cstr_returns:
  "nonul s \<Longrightarrow> nonul t \<Longrightarrow> \<exists>r. strncmp (cstr s) (cstr t) n = Some r"
proof (induction s arbitrary: t n)
  case Nil
  then show ?case by (cases t; cases n) (simp_all add: Let_def)
next
  case (Cons c s)
  then show ?case by (cases t; cases n) (auto simp: Let_def schar_zero_iff)
qed

lemma strcmp_cstr_returns: "nonul s \<Longrightarrow> nonul t \<Longrightarrow> \<exists>r. strcmp (cstr s) (cstr t) = Some r"
  using strcmp_returns [of s t "[]" "[]"] by (simp add: cstr_def)

lemma strcmp_cstr_zero_iff:
  "nonul s \<Longrightarrow> nonul t \<Longrightarrow> strcmp (cstr s) (cstr t) = Some 0 \<longleftrightarrow> s = t"
  using strcmp_zero_iff [of s t "[]" "[]"] by (simp add: cstr_def)

lemma memcmp_zero_iff:
  "n \<le> length s \<Longrightarrow> n \<le> length t \<Longrightarrow> memcmp s t n = Some 0 \<longleftrightarrow> take n s = take n t"
  by (induction s t n rule: memcmp.induct) (auto simp: Let_def)

lemma memcmp_returns: "n \<le> length s \<Longrightarrow> n \<le> length t \<Longrightarrow> \<exists>r. memcmp s t n = Some r"
  by (induction s t n rule: memcmp.induct) (auto simp: Let_def)

text \<open>Case folding: the result is 0 iff the prefixes agree up to case.\<close>

lemma strnicmp_zero_iff:
  "nonul s \<Longrightarrow> nonul t \<Longrightarrow> strnicmp (cstr s) (cstr t) n = Some 0 \<longleftrightarrow>
     map tolower (take n s) = map tolower (take n t)"
proof (induction s arbitrary: t n)
  case Nil
  show ?case
  proof (cases n)
    case (Suc m)
    with Nil show ?thesis by (cases t) auto
  qed simp
next
  case (Cons c s)
  show ?case
  proof (cases n)
    case (Suc m)
    with Cons show ?thesis
      by (cases t) (auto simp: Let_def)
  qed simp
qed

section \<open>Searching\<close>

lemma in_accept_cstr: "nonul a \<Longrightarrow> in_accept c (cstr a) = Some (c \<in> set a)"
  by (induction a) auto

lemma strspn_eq:
  "nonul s \<Longrightarrow> nonul a \<Longrightarrow>
   strspn (s @ NUL # r) (cstr a) = Some (length (takeWhile (\<lambda>c. c \<in> set a) s))"
  by (induction s) (simp_all add: in_accept_cstr)

lemma strpbrk_eq:
  "nonul s \<Longrightarrow> nonul a \<Longrightarrow>
   strpbrk (s @ NUL # r) (cstr a) =
     Some (let n = length (takeWhile (\<lambda>c. c \<notin> set a) s)
           in if n < length s then Some n else None)"
  by (induction s) (simp_all add: in_accept_cstr Let_def)

lemma strchr_eq:
  "nonul s \<Longrightarrow> c \<noteq> NUL \<Longrightarrow>
   strchr (s @ NUL # r) c =
     Some (let n = length (takeWhile (\<lambda>x. x \<noteq> c) s) in if n < length s then Some n else None)"
  by (induction s) (simp_all add: Let_def)

lemma strchr_NUL: "nonul s \<Longrightarrow> strchr (s @ NUL # r) NUL = Some (Some (length s))"
  by (induction s) simp_all

lemma strrchr_down_Some:
  "strrchr_down s c n = Some p \<longleftrightarrow> p \<le> n \<and> s ! p = c \<and> (\<forall>q. p < q \<and> q \<le> n \<longrightarrow> s ! q \<noteq> c)"
proof (induction n)
  case 0
  then show ?case by auto
next
  case (Suc n)
  then show ?case by (auto simp: le_Suc_eq less_Suc_eq_le split: if_splits)
qed

lemma strrchr_down_None: "strrchr_down s c n = None \<longleftrightarrow> (\<forall>q \<le> n. s ! q \<noteq> c)"
  by (induction n) (auto simp: le_Suc_eq)

lemma strstr_loop_eq:
  "\<lbrakk>nonul s; nonul t; t \<noteq> []\<rbrakk> \<Longrightarrow>
   \<exists>res. strstr_loop (s @ NUL # r) (t @ NUL # q) (length s) (length t) = Some res \<and>
     (case res of
        None \<Rightarrow> \<forall>i. take (length t) (drop i s) \<noteq> t
      | Some i \<Rightarrow> take (length t) (drop i s) = t \<and> (\<forall>j < i. take (length t) (drop j s) \<noteq> t))"
proof (induction s)
  case Nil
  then show ?case by (simp add: strstr_loop.simps)
next
  case (Cons c s)
  show ?case
  proof (cases "length t \<le> length (c # s)")
    case False
    then have "\<forall>i. take (length t) (drop i (c # s)) \<noteq> t"
      by (metis drop_all length_drop length_take linorder_not_le min.absorb_iff2 min_def
          diff_le_self le_trans)
    with False show ?thesis by (subst strstr_loop.simps) simp
  next
    case True
    obtain m where m: "memcmp ((c # s) @ NUL # r) (t @ NUL # q) (length t) = Some m"
      using memcmp_returns [of "length t" "(c # s) @ NUL # r" "t @ NUL # q"] True by auto
    have "take (length t) ((c # s) @ NUL # r) = take (length t) (c # s)"
      using True by (simp only: take_append) simp
    then have m0: "m = 0 \<longleftrightarrow> take (length t) (c # s) = t"
      using memcmp_zero_iff [of "length t" "(c # s) @ NUL # r" "t @ NUL # q"] m True by simp
    show ?thesis
    proof (cases "m = 0")
      case True
      with m m0 \<open>length t \<le> length (c # s)\<close> show ?thesis
        by (subst strstr_loop.simps) simp
    next
      case False
      from Cons obtain res where
        res: "strstr_loop (s @ NUL # r) (t @ NUL # q) (length s) (length t) = Some res"
          "case res of None \<Rightarrow> \<forall>i. take (length t) (drop i s) \<noteq> t
           | Some i \<Rightarrow> take (length t) (drop i s) = t \<and> (\<forall>j < i. take (length t) (drop j s) \<noteq> t)"
        by auto
      have step: "strstr_loop ((c # s) @ NUL # r) (t @ NUL # q) (length (c # s)) (length t) =
          Some (map_option Suc res)"
        using True m False res(1) by (subst strstr_loop.simps) simp
      have no: "take (length t) (drop 0 (c # s)) \<noteq> t" using False m0 by simp
      show ?thesis
      proof (cases res)
        case None
        have "take (length t) (drop i (c # s)) \<noteq> t" for i
          using no res(2) None by (cases i) simp_all
        with step None show ?thesis by simp
      next
        case (Some i)
        have "take (length t) (drop j (c # s)) \<noteq> t" if "j < Suc i" for j
          using that no res(2) Some by (cases j) simp_all
        with step Some res(2) show ?thesis by simp
      qed
    qed
  qed
qed

section \<open>Memory areas\<close>

lemma memset_eq: "n \<le> length xs \<Longrightarrow> memset xs c n = Some (replicate n c @ drop n xs)"
  by (induction xs c n rule: memset.induct) simp_all

text \<open>
  The ascending loop is right when the destination is not above the source or the areas do
  not meet, the descending one when the destination is not below.
\<close>

lemma copy_up_eq:
  "\<lbrakk>s + n \<le> length m; d + n \<le> length m; d \<le> s \<or> s + n \<le> d\<rbrakk> \<Longrightarrow>
   copy_up m d s n = Some (take d m @ take n (drop s m) @ drop (d + n) m)"
proof (induction n arbitrary: m d s)
  case 0
  then show ?case by simp
next
  case (Suc n)
  let ?m = "m[d := m ! s]"
  have "copy_up m d s (Suc n) = copy_up ?m (Suc d) (Suc s) n" using Suc.prems by simp
  also have "\<dots> = Some (take (Suc d) ?m @ take n (drop (Suc s) ?m) @ drop (Suc d + n) ?m)"
    using Suc.prems by (intro Suc.IH) auto
  also have "take (Suc d) ?m = take d m @ [m ! s]"
    using Suc.prems by (simp add: take_Suc_conv_app_nth)
  also have "take n (drop (Suc s) ?m) = take n (drop (Suc s) m)"
  proof (cases "d \<le> s")
    case True
    then show ?thesis by simp
  next
    case False
    with Suc.prems have "s + Suc n \<le> d" by simp
    then show ?thesis by (simp add: drop_update_swap take_update_cancel)
  qed
  also have "drop (Suc d + n) ?m = drop (d + Suc n) m" by simp
  also have "(take d m @ [m ! s]) @ take n (drop (Suc s) m) @ drop (d + Suc n) m =
      take d m @ take (Suc n) (drop s m) @ drop (d + Suc n) m"
    using Suc.prems by (simp add: Cons_nth_drop_Suc [symmetric])
  finally show ?case .
qed

lemma copy_down_eq:
  "\<lbrakk>s + n \<le> length m; d + n \<le> length m; s \<le> d\<rbrakk> \<Longrightarrow>
   copy_down m d s n = Some (take d m @ take n (drop s m) @ drop (d + n) m)"
proof (induction n arbitrary: m)
  case 0
  then show ?case by simp
next
  case (Suc n)
  let ?m = "m[d + n := m ! (s + n)]"
  have "copy_down m d s (Suc n) = copy_down ?m d s n" using Suc.prems by simp
  also have "\<dots> = Some (take d ?m @ take n (drop s ?m) @ drop (d + n) ?m)"
    using Suc.prems by (intro Suc.IH) auto
  also have "take n (drop s ?m) = take n (drop s m)"
    using Suc.prems by (simp add: drop_update_swap take_update_cancel)
  also have "drop (d + n) ?m = m ! (s + n) # drop (d + Suc n) m"
    using Suc.prems by (simp add: drop_update_swap Cons_nth_drop_Suc [symmetric])
  also have "take d ?m = take d m" by simp
  also have "take d m @ take n (drop s m) @ m ! (s + n) # drop (d + Suc n) m =
      take d m @ take (Suc n) (drop s m) @ drop (d + Suc n) m"
    using Suc.prems by (simp add: take_Suc_conv_app_nth)
  finally show ?case .
qed

lemma copy_in_eq:
  "\<lbrakk>n \<le> length src; d + n \<le> length m\<rbrakk> \<Longrightarrow>
   copy_in m d src n = Some (take d m @ take n src @ drop (d + n) m)"
proof (induction m d src n rule: copy_in.induct)
  case (3 m d x src n)
  then have "copy_in m d (x # src) (Suc n) = copy_in (m[d := x]) (Suc d) src n" by simp
  also have "\<dots> = Some (take (Suc d) (m[d := x]) @ take n src @ drop (Suc d + n) (m[d := x]))"
    using "3.prems" by (intro "3.IH") auto
  also have "take (Suc d) (m[d := x]) = take d m @ [x]"
    using "3.prems" by (simp add: take_Suc_conv_app_nth)
  finally show ?case by simp
qed simp_all

lemma copy_up_SomeD: "copy_up m d s n = Some m' \<Longrightarrow> 0 < n \<Longrightarrow>
    s + n \<le> length m \<and> d + n \<le> length m"
proof (induction n arbitrary: m d s)
  case (Suc n)
  then have *: "s < length m" "d < length m" "copy_up (m[d := m ! s]) (Suc d) (Suc s) n = Some m'"
    by (auto simp: load_def store_def split: if_splits)
  then show ?case using Suc.IH [OF *(3)] by (cases "n = 0") auto
qed simp

end
