(* ===== verification/Vsprintf.thy ===== *)
theory Vsprintf
  imports C_String
begin

text \<open>
  Number parsing and formatted output, \<open>lib_generic/vsprintf.c\<close>: \<open>simple_strtoul\<close> and
  \<open>simple_strtol\<close> with their end pointers (offsets from the argument), \<open>skip_atoi\<close>,
  \<open>number\<close> and \<open>vsprintf\<close> over an explicit argument list.  The lemmas show what
  \<open>simple_strtoul\<close> computes and that it inverts the digits \<open>number\<close> prints.
\<close>

section \<open>Parsing\<close>

definition digit_val :: "char \<Rightarrow> u32" where
  "digit_val c =
     (if isdigit c then of_char c - 48
      else of_char (if islower c then toupper c else c) - 65 + 10)"

fun strtoul_digits :: "buf \<Rightarrow> u32 \<Rightarrow> u32 \<Rightarrow> nat \<Rightarrow> (u32 \<times> nat) option" where
  "strtoul_digits [] base result n = None"
| "strtoul_digits (c # cp) base result n =
     (if isxdigit c \<and> digit_val c < base
      then strtoul_digits cp base (result * base + digit_val c) (Suc n)
      else Some (result, n))"

text \<open>The prefix: characters to skip and the base to use.\<close>

definition strtoul_prefix :: "buf \<Rightarrow> u32 \<Rightarrow> (nat \<times> u32) option" where
  "strtoul_prefix cp base =
     do { c0 \<leftarrow> load cp 0;
          if c0 = CHR ''0'' then
            do { c1 \<leftarrow> load cp 1;
                 if c1 = CHR ''x'' then
                   do { c2 \<leftarrow> load cp 2;
                        if isxdigit c2 then Some (2, 16)
                        else Some (1, if base = 0 then 8 else base) }
                 else Some (1, if base = 0 then 8 else base) }
          else Some (0, if base = 0 then 10 else base) }"

definition simple_strtoul :: "buf \<Rightarrow> u32 \<Rightarrow> (u32 \<times> nat) option" where
  "simple_strtoul cp base =
     do { (skip, base) \<leftarrow> strtoul_prefix cp base;
          strtoul_digits (drop skip cp) base 0 skip }"

definition simple_strtol :: "buf \<Rightarrow> u32 \<Rightarrow> (u32 \<times> nat) option" where
  "simple_strtol cp base =
     do { c \<leftarrow> load cp 0;
          if c = CHR ''-''
          then map_option (\<lambda>(r, n). (- r, Suc n)) (simple_strtoul (drop 1 cp) base)
          else simple_strtoul cp base }"

definition is_digit :: "char \<Rightarrow> bool" where
  "is_digit c \<longleftrightarrow> code c \<ge> 48 \<and> code c \<le> 57"

fun skip_atoi :: "buf \<Rightarrow> int \<Rightarrow> (int \<times> buf) option" where
  "skip_atoi [] i = None"
| "skip_atoi (c # s) i =
     (if is_digit c then skip_atoi s (i * 10 + ichar c - 48) else Some (i, c # s))"

section \<open>Printing a number\<close>

text \<open>The bits of the \<open>type\<close> argument.\<close>

record fmt_flags =
  ZEROPAD :: bool
  SIGN :: bool
  PLUS :: bool
  SPACE :: bool
  LEFT :: bool
  SPECIAL :: bool
  LARGE :: bool

definition no_flags :: fmt_flags where
  "no_flags = \<lparr>ZEROPAD = False, SIGN = False, PLUS = False, SPACE = False,
                LEFT = False, SPECIAL = False, LARGE = False\<rparr>"

definition lower_digits :: string where
  "lower_digits = ''0123456789abcdefghijklmnopqrstuvwxyz''"

definition upper_digits :: string where
  "upper_digits = ''0123456789ABCDEFGHIJKLMNOPQRSTUVWXYZ''"

text \<open>The \<open>do_div\<close> loop: digits of an unsigned number, least significant first.\<close>

fun digits_rev :: "nat \<Rightarrow> nat \<Rightarrow> nat list" where
  "digits_rev n base =
     (if n = 0 \<or> base < 2 then [] else (n mod base) # digits_rev (n div base) base)"

declare digits_rev.simps [simp del]

text \<open>
  The characters \<open>number\<close> appends at \<open>str\<close>, \<^const>\<open>None\<close> for its NULL result.  A loop
  \<open>while (size-- > 0)\<close> runs \<open>size\<close> times and leaves \<open>min size 0 - 1\<close>.
\<close>

definition number :: "u32 \<Rightarrow> nat \<Rightarrow> int \<Rightarrow> int \<Rightarrow> fmt_flags \<Rightarrow> string option" where
  "number num base sz precision ty =
     (let digits = (if LARGE ty then upper_digits else lower_digits);
          ty = (if LEFT ty then ty\<lparr>ZEROPAD := False\<rparr> else ty)
      in if base < 2 \<or> 36 < base then None
      else
        let c = (if ZEROPAD ty then CHR ''0'' else CHR '' '');
            (sign, num, sz) =
              (if SIGN ty then
                 if sint num < 0 then (''-'', - num, sz - 1)
                 else if PLUS ty then (''+'', num, sz - 1)
                 else if SPACE ty then ('' '', num, sz - 1)
                 else ([], num, sz)
               else ([], num, sz));
            sz = (if SPECIAL ty then
                      if base = 16 then sz - 2 else if base = 8 then sz - 1 else sz
                    else sz);
            tmp = (if num = 0 then ''0'' else map ((!) digits) (digits_rev (unat num) base));
            i = int (length tmp);
            precision = max precision i;
            sz = sz - precision;
            pad1 = (if \<not> (ZEROPAD ty \<or> LEFT ty) then replicate (nat sz) (CHR '' '') else []);
            sz = (if \<not> (ZEROPAD ty \<or> LEFT ty) then min sz 0 - 1 else sz);
            special = (if SPECIAL ty then
                         if base = 8 then ''0''
                         else if base = 16 then [CHR ''0'', digits ! 33] else []
                       else []);
            pad2 = (if \<not> LEFT ty then replicate (nat sz) c else []);
            sz = (if \<not> LEFT ty then min sz 0 - 1 else sz)
        in Some (pad1 @ sign @ special @ pad2 @ replicate (nat (precision - i)) (CHR ''0'') @
                 rev tmp @ replicate (nat sz) (CHR '' '')))"

section \<open>Formatted output\<close>

text \<open>
  The variable arguments.  On the target every \<open>int\<close>, \<open>long\<close> and pointer argument is one
  32-bit word; a \<open>char *\<close> argument is NULL or a string object.  \<open>VOut\<close> is the address of
  an integer for \<open>%n\<close>.
\<close>

datatype va_arg = VWord u32 | VStr "buf option" | VOut

fun va_word :: "va_arg list \<Rightarrow> (u32 \<times> va_arg list) option" where
  "va_word (VWord w # as) = Some (w, as)"
| "va_word _ = None"

text \<open>The label \<open>repeat\<close>: each flag character is consumed, the list starts after \<open>%\<close>.\<close>

fun parse_flags :: "buf \<Rightarrow> fmt_flags \<Rightarrow> (fmt_flags \<times> buf) option" where
  "parse_flags [] fl = None"
| "parse_flags (c # fmt) fl =
     (if c = CHR ''-'' then parse_flags fmt (fl\<lparr>LEFT := True\<rparr>)
      else if c = CHR ''+'' then parse_flags fmt (fl\<lparr>PLUS := True\<rparr>)
      else if c = CHR '' '' then parse_flags fmt (fl\<lparr>SPACE := True\<rparr>)
      else if c = CHR ''#'' then parse_flags fmt (fl\<lparr>SPECIAL := True\<rparr>)
      else if c = CHR ''0'' then parse_flags fmt (fl\<lparr>ZEROPAD := True\<rparr>)
      else Some (fl, c # fmt))"

definition parse_width ::
  "buf \<Rightarrow> fmt_flags \<Rightarrow> va_arg list \<Rightarrow> (int \<times> fmt_flags \<times> buf \<times> va_arg list) option" where
  "parse_width fmt fl args =
     do { c \<leftarrow> load fmt 0;
          if is_digit c then map_option (\<lambda>(w, fmt). (w, fl, fmt, args)) (skip_atoi fmt 0)
          else if c = CHR ''*'' then
            do { (w, args) \<leftarrow> va_word args;
                 if sint w < 0 then Some (sint (- w), fl\<lparr>LEFT := True\<rparr>, drop 1 fmt, args)
                 else Some (sint w, fl, drop 1 fmt, args) }
          else Some (-1, fl, fmt, args) }"

definition parse_precision ::
  "buf \<Rightarrow> va_arg list \<Rightarrow> (int \<times> buf \<times> va_arg list) option" where
  "parse_precision fmt args =
     do { c \<leftarrow> load fmt 0;
          if c = CHR ''.'' then
            do { c' \<leftarrow> load fmt 1;
                 (p, fmt, args) \<leftarrow>
                   (if is_digit c'
                    then map_option (\<lambda>(p, fmt). (p, fmt, args)) (skip_atoi (drop 1 fmt) 0)
                    else if c' = CHR ''*''
                    then map_option (\<lambda>(w, args). (sint w, drop 2 fmt, args)) (va_word args)
                    else Some (-1, drop 1 fmt, args));
                 Some (max p 0, fmt, args) }
          else Some (-1, fmt, args) }"

definition parse_qualifier :: "buf \<Rightarrow> (char option \<times> buf) option" where
  "parse_qualifier fmt =
     do { c \<leftarrow> load fmt 0;
          if c \<in> {CHR ''h'', CHR ''l'', CHR ''q''} then Some (Some c, drop 1 fmt)
          else Some (None, fmt) }"

text \<open>
  One conversion: the characters it appends, the value stored by \<open>%n\<close>, if any, and the
  arguments left.  The format pointer is at the conversion character \<open>c\<close>; \<open>done\<close> is
  \<open>str - buf\<close>.
\<close>

definition pad_around :: "bool \<Rightarrow> int \<Rightarrow> string \<Rightarrow> string" where
  "pad_around left n s =
     (if left then s @ replicate (nat n) (CHR '' '') else replicate (nat n) (CHR '' '') @ s)"

definition int_base :: "char \<Rightarrow> fmt_flags \<Rightarrow> (nat \<times> fmt_flags) option" where
  "int_base c fl =
     (if c = CHR ''o'' then Some (8, fl)
      else if c = CHR ''X'' then Some (16, fl\<lparr>LARGE := True\<rparr>)
      else if c = CHR ''x'' then Some (16, fl)
      else if c = CHR ''d'' \<or> c = CHR ''i'' then Some (10, fl\<lparr>SIGN := True\<rparr>)
      else if c = CHR ''u'' then Some (10, fl)
      else None)"

definition int_arg :: "char option \<Rightarrow> fmt_flags \<Rightarrow> u32 \<Rightarrow> u32" where
  "int_arg qualifier fl w =
     (if qualifier = Some (CHR ''h'') then
        (if SIGN fl then scast (ucast w :: 16 word) else ucast (ucast w :: 16 word))
      else w)"

definition convert ::
  "char \<Rightarrow> fmt_flags \<Rightarrow> int \<Rightarrow> int \<Rightarrow> char option \<Rightarrow> nat \<Rightarrow> va_arg list \<Rightarrow>
     (string \<times> nat option \<times> va_arg list) option" where
  "convert c fl field_width precision qualifier done args =
     (if c = CHR ''c'' then
        do { (w, args) \<leftarrow> va_word args;
             Some (pad_around (LEFT fl) (field_width - 1) [char_of (unat w)], None, args) }
      else if c = CHR ''s'' then
        (case args of
           VStr s # args' \<Rightarrow>
             (let s = (case s of None \<Rightarrow> cstr ''<NULL>'' | Some s \<Rightarrow> s)
              in do { len \<leftarrow> strnlen s (nat (precision mod 2 ^ 32));
                      Some (pad_around (LEFT fl) (field_width - int len) (take len s), None, args') })
         | _ \<Rightarrow> None)
      else if c = CHR ''p'' then
        do { (w, args) \<leftarrow> va_word args;
             s \<leftarrow> (if field_width = -1 then number w 16 8 precision (fl\<lparr>ZEROPAD := True\<rparr>)
                  else number w 16 field_width precision fl);
             Some (s, None, args) }
      else if c = CHR ''n'' then
        (case args of VOut # args' \<Rightarrow> Some ([], Some done, args') | _ \<Rightarrow> None)
      else if c = CHR ''%'' then Some (''%'', None, args)
      else
        (case int_base c fl of
           Some (base, fl) \<Rightarrow>
             do { (w, args) \<leftarrow> va_word args;
                  s \<leftarrow> number (int_arg qualifier fl w) base field_width precision fl;
                  Some (s, None, args) }
         | None \<Rightarrow> Some (if c = NUL then ''%'' else [CHR ''%'', c], None, args)))"

text \<open>
  One directive, from the character after \<open>%\<close>.  After an unterminated directive the
  format pointer steps back, so that the loop sees the NUL again.
\<close>

definition directive ::
  "buf \<Rightarrow> nat \<Rightarrow> va_arg list \<Rightarrow> (string \<times> nat option \<times> buf \<times> va_arg list) option" where
  "directive fmt done args =
     do { (fl, fmt) \<leftarrow> parse_flags fmt no_flags;
          (width, fl, fmt, args) \<leftarrow> parse_width fmt fl args;
          (precision, fmt, args) \<leftarrow> parse_precision fmt args;
          (qualifier, fmt) \<leftarrow> parse_qualifier fmt;
          c \<leftarrow> load fmt 0;
          (out, n, args) \<leftarrow> convert c fl width precision qualifier done args;
          Some (out, n, if c = NUL then fmt else drop 1 fmt, args) }"

lemma skip_atoi_length: "skip_atoi s i = Some (j, s') \<Longrightarrow> length s' \<le> length s"
  by (induction s i rule: skip_atoi.induct) (auto split: if_splits)

lemma parse_flags_length: "parse_flags s fl = Some (fl', s') \<Longrightarrow> length s' \<le> length s"
proof (induction s arbitrary: fl)
  case (Cons c s)
  from Cons.prems show ?case by (auto split: if_splits dest!: Cons.IH)
qed simp

lemma parse_width_length:
  "parse_width s fl args = Some (w, fl', s', args') \<Longrightarrow> length s' \<le> length s"
  by (auto simp: parse_width_def bind_eq_Some_conv split: if_splits dest: skip_atoi_length)

lemma parse_precision_length:
  "parse_precision s args = Some (w, s', args') \<Longrightarrow> length s' \<le> length s"
  by (auto simp: parse_precision_def bind_eq_Some_conv split: if_splits
      dest!: skip_atoi_length)

lemma parse_qualifier_length: "parse_qualifier s = Some (q, s') \<Longrightarrow> length s' \<le> length s"
  by (auto simp: parse_qualifier_def bind_eq_Some_conv split: if_splits)

lemma directive_length:
  assumes "directive fmt done args = Some (out, n, fmt', args')"
  shows "length fmt' \<le> length fmt"
proof -
  from assms obtain fl f1 w fl' f2 a2 p f3 a3 q f4 c where
    1: "parse_flags fmt no_flags = Some (fl, f1)"
    and 2: "parse_width f1 fl args = Some (w, fl', f2, a2)"
    and 3: "parse_precision f2 a2 = Some (p, f3, a3)"
    and 4: "parse_qualifier f3 = Some (q, f4)"
    and 5: "fmt' = (if c = NUL then f4 else drop 1 f4)"
    by (auto simp: directive_def bind_eq_Some_conv)
  have "length f4 \<le> length fmt"
    using parse_flags_length [OF 1] parse_width_length [OF 2] parse_precision_length [OF 3]
      parse_qualifier_length [OF 4] by linarith
  then show ?thesis using 5 by auto
qed

text \<open>
  The main loop: what has been written and the values stored by \<open>%n\<close>.  The result is the
  string without its final NUL; \<open>vsprintf\<close> returns its length.
\<close>

function vsprintf_loop ::
  "buf \<Rightarrow> va_arg list \<Rightarrow> string \<Rightarrow> nat list \<Rightarrow> (string \<times> nat list) option" where
  "vsprintf_loop [] args out ns = None"
| "vsprintf_loop (c # fmt) args out ns =
     (if c = NUL then Some (out, ns)
      else if c \<noteq> CHR ''%'' then vsprintf_loop fmt args (out @ [c]) ns
      else
        (case directive fmt (length out) args of
           None \<Rightarrow> None
         | Some (s, n, fmt', args') \<Rightarrow>
             vsprintf_loop fmt' args' (out @ s) (case n of None \<Rightarrow> ns | Some k \<Rightarrow> ns @ [k])))"
  by pat_completeness auto
termination
  by (relation "measure (\<lambda>(fmt, _). length fmt)") (auto dest: directive_length)

definition vsprintf :: "buf \<Rightarrow> buf \<Rightarrow> va_arg list \<Rightarrow> (buf \<times> nat \<times> nat list) option" where
  "vsprintf dest fmt args =
     do { (out, ns) \<leftarrow> vsprintf_loop fmt args [] [];
          if length out < length dest
          then Some (out @ NUL # drop (Suc (length out)) dest, length out, ns) else None }"


section \<open>Reading back what is printed\<close>

text \<open>The digits \<open>number\<close> puts out for a natural number, most significant first.\<close>

definition nat_str :: "string \<Rightarrow> nat \<Rightarrow> nat \<Rightarrow> string" where
  "nat_str digits b n = (if n = 0 then ''0'' else rev (map ((!) digits) (digits_rev n b)))"

lemma lower_digits_table:
  "list_all (\<lambda>d. isxdigit (lower_digits ! d) \<and> digit_val (lower_digits ! d) = of_nat d \<and>
     (lower_digits ! d = CHR ''0'') = (d = 0)) [0..<16]"
  by code_simp

lemma upper_digits_table:
  "list_all (\<lambda>d. isxdigit (upper_digits ! d) \<and> digit_val (upper_digits ! d) = of_nat d \<and>
     (upper_digits ! d = CHR ''0'') = (d = 0)) [0..<16]"
  by code_simp

text \<open>What the parser needs of a digit alphabet.\<close>

definition hex_alphabet :: "string \<Rightarrow> bool" where
  "hex_alphabet ds \<longleftrightarrow>
     (\<forall>d < 16. isxdigit (ds ! d) \<and> digit_val (ds ! d) = of_nat d \<and>
        (ds ! d = CHR ''0'' \<longleftrightarrow> d = 0))"

lemma hex_alphabet_lower: "hex_alphabet lower_digits"
  using list_all_upt [OF lower_digits_table] by (auto simp: hex_alphabet_def)

lemma hex_alphabet_upper: "hex_alphabet upper_digits"
  using list_all_upt [OF upper_digits_table] by (auto simp: hex_alphabet_def)

lemma digits_rev_bound: "d \<in> set (digits_rev n b) \<Longrightarrow> d < b"
proof (induction n b rule: digits_rev.induct)
  case (1 n b)
  from "1.prems" have nz: "\<not> (n = 0 \<or> b < 2)"
    by (auto simp: digits_rev.simps [of n b] split: if_splits)
  with "1.prems" have "d = n mod b \<or> d \<in> set (digits_rev (n div b) b)"
    by (simp add: digits_rev.simps [of n b])
  then show ?case using "1.IH" [OF nz] nz by auto
qed

lemma digits_rev_horner:
  "2 \<le> b \<Longrightarrow> foldr (\<lambda>d a. a * b + d) (digits_rev n b) 0 = n"
proof (induction n b rule: digits_rev.induct)
  case (1 n b)
  show ?case
  proof (cases "n = 0")
    case False
    with "1" show ?thesis by (simp add: digits_rev.simps [of n b])
  qed (simp add: digits_rev.simps)
qed

lemma digits_rev_not_Nil: "2 \<le> b \<Longrightarrow> n \<noteq> 0 \<Longrightarrow> digits_rev n b \<noteq> []"
  by (simp add: digits_rev.simps [of n b])

lemma digits_rev_last: "2 \<le> b \<Longrightarrow> n \<noteq> 0 \<Longrightarrow> last (digits_rev n b) \<noteq> 0"
proof (induction n b rule: digits_rev.induct)
  case (1 n b)
  show ?case
  proof (cases "n div b = 0")
    case True
    with "1.prems" show ?thesis
      by (simp add: digits_rev.simps [of n b] digits_rev.simps [of 0 b] div_eq_0_iff)
  next
    case False
    with "1" show ?thesis
      by (simp add: digits_rev.simps [of n b] digits_rev_not_Nil)
  qed
qed

text \<open>The loop of \<open>simple_strtoul\<close> over a run of digits: Horner's rule modulo \<open>2 ^ 32\<close>.\<close>

lemma strtoul_digits_run:
  assumes "hex_alphabet al" "2 \<le> b" "b \<le> 16" "\<not> isxdigit c"
  shows "(\<forall>d \<in> set ds. d < b) \<Longrightarrow>
    strtoul_digits (map ((!) al) ds @ c # r) (of_nat b) res k =
      Some (foldl (\<lambda>a d. a * of_nat b + of_nat d) res ds, k + length ds)"
proof (induction ds arbitrary: res k)
  case Nil
  then show ?case using assms(4) by simp
next
  case (Cons d ds)
  then have d: "d < 16" "d < b" using assms(3) by auto
  with assms(1) have "isxdigit (al ! d)" "digit_val (al ! d) = of_nat d"
    by (auto simp: hex_alphabet_def)
  moreover have "(of_nat d :: u32) < of_nat b"
    using d assms(2,3) by (simp add: word_less_nat_alt unat_of_nat)
  ultimately show ?case using Cons by simp
qed

lemma foldl_of_nat:
  "foldl (\<lambda>a d. a * of_nat b + of_nat d) (of_nat x :: u32) ds =
     of_nat (foldl (\<lambda>a d. a * b + d) x ds)"
proof (induction ds arbitrary: x)
  case (Cons d ds)
  have "(of_nat x :: u32) * of_nat b + of_nat d = of_nat (x * b + d)" by simp
  then show ?case using Cons.IH [of "x * b + d"] by (simp del: of_nat_add of_nat_mult)
qed simp

lemma horner_rev_digits: "2 \<le> b \<Longrightarrow> foldl (\<lambda>a d. a * b + d) 0 (rev (digits_rev n b)) = n"
  using digits_rev_horner [of b n] by (simp add: foldl_conv_foldr)

lemma strtoul_nat_str:
  assumes "hex_alphabet al" "2 \<le> b" "b \<le> 16" "\<not> isxdigit c" "c \<noteq> CHR ''x''"
  shows "simple_strtoul (nat_str al b n @ c # r) (of_nat b) =
    Some (of_nat n, length (nat_str al b n))"
proof -
  have b0: "(of_nat b :: u32) \<noteq> 0"
  proof
    assume "(of_nat b :: u32) = 0"
    then have "unat (of_nat b :: u32) = 0" by simp
    with assms(2,3) show False by (simp add: unat_of_nat)
  qed
  show ?thesis
  proof (cases "n = 0")
    case True
    with assms b0 show ?thesis
      by (simp add: nat_str_def simple_strtoul_def strtoul_prefix_def load_def)
  next
    case False
    let ?ds = "rev (digits_rev n b)"
    have ne: "?ds \<noteq> []" using False assms(2) by (simp add: digits_rev_not_Nil)
    then obtain d ds where ds: "?ds = d # ds" by (cases ?ds) auto
    have dset: "\<forall>d \<in> set ?ds. d < b" using digits_rev_bound by auto
    have "d = last (digits_rev n b)" using ds by (metis hd_rev list.sel(1))
    then have "d \<noteq> 0" using digits_rev_last False assms(2) by simp
    moreover have "d < 16" using dset ds assms(3) by auto
    ultimately have d0: "al ! d \<noteq> CHR ''0''" using assms(1) by (simp add: hex_alphabet_def)
    have str: "nat_str al b n = map ((!) al) ?ds" using False by (simp add: nat_str_def rev_map)
    have "simple_strtoul (nat_str al b n @ c # r) (of_nat b) =
        strtoul_digits (nat_str al b n @ c # r) (of_nat b) 0 0"
      using d0 b0 by (simp add: simple_strtoul_def strtoul_prefix_def str ds load_def)
    also have "\<dots> = Some (foldl (\<lambda>a d. a * of_nat b + of_nat d) 0 ?ds, 0 + length ?ds)"
      unfolding str by (rule strtoul_digits_run [OF assms(1-4) dset])
    also have "foldl (\<lambda>a d. a * of_nat b + of_nat d) (0 :: u32) ?ds = of_nat n"
      using foldl_of_nat [of b 0 ?ds] horner_rev_digits [OF assms(2), of n] by simp
    finally show ?thesis by (simp add: str)
  qed
qed

section \<open>Decimal conversions\<close>

text \<open>What \<open>%d\<close> and \<open>%u\<close> put out without flags, width or precision.\<close>

definition udec :: "nat \<Rightarrow> string" where
  "udec n = nat_str lower_digits 10 n"

definition sdec :: "u32 \<Rightarrow> string" where
  "sdec w = (if sint w < 0 then CHR ''-'' # udec (unat (- w)) else udec (unat w))"

lemma udec_not_Nil: "udec n \<noteq> []"
  by (simp add: udec_def nat_str_def digits_rev_not_Nil)

lemma number_unsigned:
  "2 \<le> b \<Longrightarrow> b \<le> 36 \<Longrightarrow> number w b (-1) (-1) no_flags = Some (nat_str lower_digits b (unat w))"
  by (auto simp: number_def no_flags_def nat_str_def Let_def unat_eq_zero)

lemma number_decimal:
  "number w 10 (-1) (-1) (no_flags\<lparr>SIGN := True\<rparr>) = Some (sdec w)"
proof -
  have "w = 0 \<Longrightarrow> \<not> sint w < 0" by simp
  then show ?thesis
    by (auto simp: number_def no_flags_def sdec_def udec_def nat_str_def Let_def
        unat_eq_zero)
qed

lemma directive_d:
  "directive (CHR ''d'' # fmt) n (VWord w # args) = Some (sdec w, None, fmt, args)"
  by (simp add: directive_def no_flags_def [symmetric] parse_width_def is_digit_def
      parse_precision_def parse_qualifier_def convert_def int_base_def int_arg_def number_decimal)

lemma vsprintf_loop_d:
  "vsprintf_loop (CHR ''%'' # CHR ''d'' # fmt) (VWord w # args) out ns =
     vsprintf_loop fmt args (out @ sdec w) ns"
  by (simp add: directive_d)

lemma vsprintf_loop_char:
  "c \<noteq> NUL \<Longrightarrow> c \<noteq> CHR ''%'' \<Longrightarrow>
   vsprintf_loop (c # fmt) args out ns = vsprintf_loop fmt args (out @ [c]) ns"
  by simp

lemma vsprintf_loop_end: "vsprintf_loop (NUL # r) args out ns = Some (out, ns)"
  by simp

lemmas vsprintf_loop_steps = vsprintf_loop_d vsprintf_loop_char vsprintf_loop_end

lemma isxdigit_NUL [simp]: "\<not> isxdigit NUL"
  by (simp add: isxdigit_iff)

lemma strtoul_udec:
  "\<not> isxdigit c \<Longrightarrow> c \<noteq> CHR ''x'' \<Longrightarrow>
   simple_strtoul (udec n @ c # r) 10 = Some (of_nat n, length (udec n))"
  using strtoul_nat_str [OF hex_alphabet_lower, of 10 c n r] by (simp add: udec_def)

lemma nat_str_chars: "2 \<le> b \<Longrightarrow> set (nat_str al b n) \<subseteq> insert (CHR ''0'') ((!) al ` {..<b})"
  by (auto simp: nat_str_def dest!: digits_rev_bound)

lemma digits_rev_length: "2 \<le> b \<Longrightarrow> n < b ^ k \<Longrightarrow> length (digits_rev n b) \<le> k"
proof (induction k arbitrary: n)
  case 0
  then show ?case by (simp add: digits_rev.simps)
next
  case (Suc k)
  then have "n div b < b ^ k" by (simp add: less_mult_imp_div_less mult.commute)
  with Suc show ?case by (simp add: digits_rev.simps [of n b])
qed

lemma udec_length: "n < 10 ^ k \<Longrightarrow> 0 < k \<Longrightarrow> length (udec n) \<le> k"
  using digits_rev_length [of 10 n k] by (auto simp: udec_def nat_str_def)


lemma sdec_length: "length (sdec w) \<le> 11"
proof -
  have "unat v < 10 ^ 10" for v :: u32
  proof -
    have "unat v < 2 ^ LENGTH(32)" by (rule unsigned_less)
    then have "unat v < 2 ^ 32" by simp
    also have "(2 :: nat) ^ 32 < 10 ^ 10" by simp
    finally show ?thesis .
  qed
  then have "length (udec (unat v)) \<le> 10" for v :: u32
    by (intro udec_length) auto
  then have "length (udec (unat w)) \<le> 10" "length (udec (unat (- w))) \<le> 10" by blast+
  then show ?thesis by (simp add: sdec_def)
qed

lemma hd_udec: "udec n = c # s \<Longrightarrow> isxdigit c"
proof -
  assume "udec n = c # s"
  then have "c \<in> set (nat_str lower_digits 10 n)" by (simp add: udec_def)
  then have "c = CHR ''0'' \<or> (\<exists>d < 10. c = lower_digits ! d)"
    using nat_str_chars [of 10 lower_digits n] by auto
  then show "isxdigit c"
    using hex_alphabet_lower by (auto simp: hex_alphabet_def isxdigit_iff [of "CHR ''0''"])
qed

lemma hd_udec_not_minus: "udec n = c # s \<Longrightarrow> c \<noteq> CHR ''-''"
  using hd_udec [of n c s] by (auto simp: isxdigit_iff)

lemma strtol_sdec: "simple_strtol (sdec w @ NUL # r) 10 = Some (w, length (sdec w))"
proof (cases "sint w < 0")
  case True
  then have "simple_strtol (sdec w @ NUL # r) 10 =
      map_option (\<lambda>(r, n). (- r, Suc n)) (simple_strtoul (udec (unat (- w)) @ NUL # r) 10)"
    by (simp add: sdec_def simple_strtol_def load_def)
  also have "simple_strtoul (udec (unat (- w)) @ NUL # r) 10 =
      Some (of_nat (unat (- w)), length (udec (unat (- w))))"
    by (rule strtoul_udec) simp_all
  finally show ?thesis using True by (simp add: sdec_def)
next
  case False
  obtain c s where u: "udec (unat w) = c # s" using udec_not_Nil by (meson list.exhaust)
  have "simple_strtol (sdec w @ NUL # r) 10 = simple_strtoul (udec (unat w) @ NUL # r) 10"
    using False hd_udec_not_minus [OF u] by (simp add: sdec_def simple_strtol_def u load_def)
  also have "\<dots> = Some (of_nat (unat w), length (udec (unat w)))"
    by (rule strtoul_udec) simp_all
  finally show ?thesis using False by (simp add: sdec_def)
qed

section \<open>Properties\<close>

text \<open>\<open>simple_strtoul\<close> inverts \<open>number\<close>: for every word and every base from 2 to 16, the
  digits that \<open>number\<close> prints without flags, width and precision are read back by
  \<open>simple_strtoul\<close> in that base as the same word, and the end pointer is at the NUL.\<close>

theorem strtoul_number_roundtrip:
  assumes "2 \<le> b" "b \<le> 16"
  shows "\<exists>s. number w b (-1) (-1) no_flags = Some s \<and>
    simple_strtoul (cstr s) (of_nat b) = Some (w, length s)"
  using strtoul_nat_str [OF hex_alphabet_lower assms, of NUL "unat w" "[]"] assms
  by (simp add: number_unsigned cstr_def)

theorem strtoul_number_roundtrip_witness:
  "\<exists>s. number 0xdeadbeef (16 :: nat) (-1) (-1) no_flags = Some s \<and>
    simple_strtoul (cstr s) (of_nat (16 :: nat)) = Some (0xdeadbeef, length s)"
  by (rule strtoul_number_roundtrip) simp_all

text \<open>\<open>vsprintf\<close> with the format \<open>%d\<close> writes, into any buffer of at least 12 bytes, a
  NUL-terminated string of at most 11 characters whose length it returns, changes nothing
  behind it, and \<open>simple_strtol\<close> in base 10 reads the same signed word back, for every
  word including the most negative one.\<close>

theorem vsprintf_strtol_roundtrip:
  assumes "12 \<le> length dest"
  shows "\<exists>s. vsprintf dest (cstr ''%d'') [VWord w] =
      Some (s @ NUL # drop (Suc (length s)) dest, length s, []) \<and> length s \<le> 11 \<and>
    simple_strtol (s @ NUL # drop (Suc (length s)) dest) 10 = Some (w, length s)"
proof -
  have "vsprintf_loop (cstr ''%d'') [VWord w] [] [] = Some (sdec w, [])"
    using vsprintf_loop_d [of "[NUL]" w "[]" "[]" "[]"] by (simp add: vsprintf_loop_end)
  then show ?thesis
    using assms sdec_length [of w]
    by (intro exI [of _ "sdec w"]) (simp add: vsprintf_def strtol_sdec)
qed

theorem vsprintf_strtol_roundtrip_witness:
  "\<exists>s. vsprintf (replicate 12 NUL) (cstr ''%d'') [VWord 0x80000000] =
      Some (s @ NUL # drop (Suc (length s)) (replicate 12 NUL), length s, []) \<and> length s \<le> 11 \<and>
    simple_strtol (s @ NUL # drop (Suc (length s)) (replicate 12 NUL)) 10 =
      Some (0x80000000, length s)"
  by (rule vsprintf_strtol_roundtrip) simp

end
