(* ===== verification/Crc32.thy ===== *)
theory Crc32
  imports Prelude
begin

text \<open>
  The CRC-32 of \<open>lib_generic/crc32.c\<close>: the static table, the table generator
  \<open>make_crc_table\<close> that the other configuration uses, the unrolled table-driven loops
  \<open>crc32\<close> and \<open>crc32_no_comp\<close>.  The lemmas relate them to the bit-serial shift register
  the source describes and show which changes of the data the checksum detects.
\<close>

unbundle bit_operations_syntax

definition crc_table :: "u32 list" where
  "crc_table =
    [0x00000000, 0x77073096, 0xee0e612c, 0x990951ba, 0x076dc419, 0x706af48f,
     0xe963a535, 0x9e6495a3, 0x0edb8832, 0x79dcb8a4, 0xe0d5e91e, 0x97d2d988,
     0x09b64c2b, 0x7eb17cbd, 0xe7b82d07, 0x90bf1d91, 0x1db71064, 0x6ab020f2,
     0xf3b97148, 0x84be41de, 0x1adad47d, 0x6ddde4eb, 0xf4d4b551, 0x83d385c7,
     0x136c9856, 0x646ba8c0, 0xfd62f97a, 0x8a65c9ec, 0x14015c4f, 0x63066cd9,
     0xfa0f3d63, 0x8d080df5, 0x3b6e20c8, 0x4c69105e, 0xd56041e4, 0xa2677172,
     0x3c03e4d1, 0x4b04d447, 0xd20d85fd, 0xa50ab56b, 0x35b5a8fa, 0x42b2986c,
     0xdbbbc9d6, 0xacbcf940, 0x32d86ce3, 0x45df5c75, 0xdcd60dcf, 0xabd13d59,
     0x26d930ac, 0x51de003a, 0xc8d75180, 0xbfd06116, 0x21b4f4b5, 0x56b3c423,
     0xcfba9599, 0xb8bda50f, 0x2802b89e, 0x5f058808, 0xc60cd9b2, 0xb10be924,
     0x2f6f7c87, 0x58684c11, 0xc1611dab, 0xb6662d3d, 0x76dc4190, 0x01db7106,
     0x98d220bc, 0xefd5102a, 0x71b18589, 0x06b6b51f, 0x9fbfe4a5, 0xe8b8d433,
     0x7807c9a2, 0x0f00f934, 0x9609a88e, 0xe10e9818, 0x7f6a0dbb, 0x086d3d2d,
     0x91646c97, 0xe6635c01, 0x6b6b51f4, 0x1c6c6162, 0x856530d8, 0xf262004e,
     0x6c0695ed, 0x1b01a57b, 0x8208f4c1, 0xf50fc457, 0x65b0d9c6, 0x12b7e950,
     0x8bbeb8ea, 0xfcb9887c, 0x62dd1ddf, 0x15da2d49, 0x8cd37cf3, 0xfbd44c65,
     0x4db26158, 0x3ab551ce, 0xa3bc0074, 0xd4bb30e2, 0x4adfa541, 0x3dd895d7,
     0xa4d1c46d, 0xd3d6f4fb, 0x4369e96a, 0x346ed9fc, 0xad678846, 0xda60b8d0,
     0x44042d73, 0x33031de5, 0xaa0a4c5f, 0xdd0d7cc9, 0x5005713c, 0x270241aa,
     0xbe0b1010, 0xc90c2086, 0x5768b525, 0x206f85b3, 0xb966d409, 0xce61e49f,
     0x5edef90e, 0x29d9c998, 0xb0d09822, 0xc7d7a8b4, 0x59b33d17, 0x2eb40d81,
     0xb7bd5c3b, 0xc0ba6cad, 0xedb88320, 0x9abfb3b6, 0x03b6e20c, 0x74b1d29a,
     0xead54739, 0x9dd277af, 0x04db2615, 0x73dc1683, 0xe3630b12, 0x94643b84,
     0x0d6d6a3e, 0x7a6a5aa8, 0xe40ecf0b, 0x9309ff9d, 0x0a00ae27, 0x7d079eb1,
     0xf00f9344, 0x8708a3d2, 0x1e01f268, 0x6906c2fe, 0xf762575d, 0x806567cb,
     0x196c3671, 0x6e6b06e7, 0xfed41b76, 0x89d32be0, 0x10da7a5a, 0x67dd4acc,
     0xf9b9df6f, 0x8ebeeff9, 0x17b7be43, 0x60b08ed5, 0xd6d6a3e8, 0xa1d1937e,
     0x38d8c2c4, 0x4fdff252, 0xd1bb67f1, 0xa6bc5767, 0x3fb506dd, 0x48b2364b,
     0xd80d2bda, 0xaf0a1b4c, 0x36034af6, 0x41047a60, 0xdf60efc3, 0xa867df55,
     0x316e8eef, 0x4669be79, 0xcb61b38c, 0xbc66831a, 0x256fd2a0, 0x5268e236,
     0xcc0c7795, 0xbb0b4703, 0x220216b9, 0x5505262f, 0xc5ba3bbe, 0xb2bd0b28,
     0x2bb45a92, 0x5cb36a04, 0xc2d7ffa7, 0xb5d0cf31, 0x2cd99e8b, 0x5bdeae1d,
     0x9b64c2b0, 0xec63f226, 0x756aa39c, 0x026d930a, 0x9c0906a9, 0xeb0e363f,
     0x72076785, 0x05005713, 0x95bf4a82, 0xe2b87a14, 0x7bb12bae, 0x0cb61b38,
     0x92d28e9b, 0xe5d5be0d, 0x7cdcefb7, 0x0bdbdf21, 0x86d3d2d4, 0xf1d4e242,
     0x68ddb3f8, 0x1fda836e, 0x81be16cd, 0xf6b9265b, 0x6fb077e1, 0x18b74777,
     0x88085ae6, 0xff0f6a70, 0x66063bca, 0x11010b5c, 0x8f659eff, 0xf862ae69,
     0x616bffd3, 0x166ccf45, 0xa00ae278, 0xd70dd2ee, 0x4e048354, 0x3903b3c2,
     0xa7672661, 0xd06016f7, 0x4969474d, 0x3e6e77db, 0xaed16a4a, 0xd9d65adc,
     0x40df0b66, 0x37d83bf0, 0xa9bcae53, 0xdebb9ec5, 0x47b2cf7f, 0x30b5ffe9,
     0xbdbdf21c, 0xcabac28a, 0x53b39330, 0x24b4a3a6, 0xbad03605, 0xcdd70693,
     0x54de5729, 0x23d967bf, 0xb3667a2e, 0xc4614ab8, 0x5d681b02, 0x2a6f2b94,
     0xb40bbe37, 0xc30c8ea1, 0x5a05df1b, 0x2d02ef8d]"

section \<open>The generated table\<close>

text \<open>The exponents of the polynomial, and the pattern with the low powers on the left.\<close>

definition crc_exponents :: "nat list" where
  "crc_exponents = [0, 1, 2, 4, 5, 7, 8, 10, 11, 12, 16, 22, 23, 26]"

definition crc_poly :: u32 where
  "crc_poly = foldl (\<lambda>poly n. poly OR push_bit (31 - n) 1) 0 crc_exponents"

definition crc_bit :: "u32 \<Rightarrow> u32" where
  "crc_bit c = (if c AND 1 \<noteq> 0 then crc_poly XOR drop_bit 1 c else drop_bit 1 c)"

definition make_crc_table :: "u32 list" where
  "make_crc_table = map (\<lambda>n. (crc_bit ^^ 8) (of_nat n)) [0..<256]"

section \<open>The checksum loops\<close>

text \<open>\<open>DO1\<close> consumes one byte of the buffer; \<open>DO2\<close>, \<open>DO4\<close>, \<open>DO8\<close> repeat it.\<close>

fun DO1 :: "u32 \<times> u8 list \<Rightarrow> (u32 \<times> u8 list) option" where
  "DO1 (crc, []) = None"
| "DO1 (crc, b # buf) =
     Some (crc_table ! unat ((crc XOR ucast b) AND 0xff) XOR drop_bit 8 crc, buf)"

definition DO2 :: "u32 \<times> u8 list \<Rightarrow> (u32 \<times> u8 list) option" where
  "DO2 s = do { s \<leftarrow> DO1 s; DO1 s }"

definition DO4 :: "u32 \<times> u8 list \<Rightarrow> (u32 \<times> u8 list) option" where
  "DO4 s = do { s \<leftarrow> DO2 s; DO2 s }"

definition DO8 :: "u32 \<times> u8 list \<Rightarrow> (u32 \<times> u8 list) option" where
  "DO8 s = do { s \<leftarrow> DO4 s; DO4 s }"

fun crc_tail :: "u32 \<times> u8 list \<Rightarrow> nat \<Rightarrow> (u32 \<times> u8 list) option" where
  "crc_tail s 0 = Some s"
| "crc_tail s (Suc len) = do { s \<leftarrow> DO1 s; crc_tail s len }"

function crc_loop :: "u32 \<times> u8 list \<Rightarrow> nat \<Rightarrow> (u32 \<times> u8 list) option" where
  "crc_loop s len =
     (if len \<ge> 8
      then (case DO8 s of None \<Rightarrow> None | Some s \<Rightarrow> crc_loop s (len - 8))
      else crc_tail s len)"
  by pat_completeness auto
termination
  by (relation "measure snd") auto

declare crc_loop.simps [simp del]

definition crc32_no_comp :: "u32 \<Rightarrow> u8 list \<Rightarrow> nat \<Rightarrow> u32 option" where
  "crc32_no_comp crc buf len = map_option fst (crc_loop (crc, buf) len)"

definition crc32 :: "u32 \<Rightarrow> u8 list \<Rightarrow> nat \<Rightarrow> u32 option" where
  "crc32 crc buf len =
     map_option (\<lambda>(c, _). c XOR 0xffffffff) (crc_loop (crc XOR 0xffffffff, buf) len)"

section \<open>The loop consumes one byte after the other\<close>

definition crc_byte :: "u32 \<Rightarrow> u8 \<Rightarrow> u32" where
  "crc_byte crc b = crc_table ! unat ((crc XOR ucast b) AND 0xff) XOR drop_bit 8 crc"

lemma DO1_Cons: "DO1 (crc, b # buf) = Some (crc_byte crc b, buf)"
  by (simp add: crc_byte_def)

lemma crc_tail_eq:
  "n \<le> length buf \<Longrightarrow>
   crc_tail (crc, buf) n = Some (foldl crc_byte crc (take n buf), drop n buf)"
proof (induction n arbitrary: crc buf)
  case (Suc n)
  then obtain b bs where "buf = b # bs" by (cases buf) auto
  with Suc show ?case by (simp add: DO1_Cons del: DO1.simps)
qed simp

lemma DO8_tail: "DO8 s = crc_tail s 8"
proof -
  have "(8 :: nat) = Suc (Suc (Suc (Suc (Suc (Suc (Suc (Suc 0)))))))" by simp
  then show ?thesis by (simp only: DO8_def DO4_def DO2_def crc_tail.simps bind_assoc
      bind_runit)
qed

lemma crc_tail_add: "crc_tail s (m + n) = do { s \<leftarrow> crc_tail s m; crc_tail s n }"
  by (induction m arbitrary: s) (simp_all add: bind_assoc)

lemma crc_loop_tail: "crc_loop s len = crc_tail s len"
proof (induction s len rule: crc_loop.induct)
  case (1 s len)
  show ?case
  proof (cases "8 \<le> len")
    case True
    then have "crc_tail s len = do { s \<leftarrow> crc_tail s 8; crc_tail s (len - 8) }"
      using crc_tail_add [of s 8 "len - 8"] by simp
    with True "1" show ?thesis
      by (subst crc_loop.simps) (simp add: DO8_tail split: option.split)
  next
    case False
    then show ?thesis by (subst crc_loop.simps) simp
  qed
qed

lemma crc_loop_eq:
  "n \<le> length buf \<Longrightarrow>
   crc_loop (crc, buf) n = Some (foldl crc_byte crc (take n buf), drop n buf)"
  by (simp add: crc_loop_tail crc_tail_eq)

lemma crc32_eq:
  "n \<le> length buf \<Longrightarrow>
   crc32 crc buf n = Some (foldl crc_byte (crc XOR 0xffffffff) (take n buf) XOR 0xffffffff)"
  by (simp add: crc32_def crc_loop_eq)

lemma crc32_no_comp_eq:
  "n \<le> length buf \<Longrightarrow> crc32_no_comp crc buf n = Some (foldl crc_byte crc (take n buf))"
  by (simp add: crc32_no_comp_def crc_loop_eq)

section \<open>The table\<close>

lemma crc_poly_value: "crc_poly = 0xedb88320"
  by (simp add: crc_poly_def crc_exponents_def)



lemma funpow_8: "(f ^^ 8) x = f (f (f (f (f (f (f (f x)))))))"
  by (simp add: numeral_eq_Suc)

text \<open>The register step on constants, for evaluation from the inside out.\<close>

lemma crc_bit_const:
  "crc_bit (numeral w) =
     (if numeral w AND (1 :: u32) = 0 then drop_bit 1 (numeral w)
      else 0xedb88320 XOR drop_bit 1 (numeral w))"
  "crc_bit 0 = 0"
  "crc_bit 1 = 0xedb88320"
  by (simp_all add: crc_bit_def crc_poly_value)

lemma crc_table_generated: "make_crc_table = crc_table"
  by (simp add: make_crc_table_def crc_table_def upt_conv_Cons funpow_8 crc_bit_const)

section \<open>The register step is linear and injective\<close>

lemma and_1_iff: "(x :: u32) AND 1 \<noteq> 0 \<longleftrightarrow> bit x 0"
  by (simp add: and_one_eq bit_0 even_iff_mod_2_eq_zero)

lemma crc_bit_xor_form: "crc_bit x = drop_bit 1 x XOR (if bit x 0 then crc_poly else 0)"
  by (simp add: crc_bit_def and_1_iff xor.commute)

lemma crc_bit_xor: "crc_bit (x XOR y) = crc_bit x XOR crc_bit y"
  by (auto simp: crc_bit_xor_form bit_simps xor.assoc xor.left_commute)

lemma crc_bits_xor: "(crc_bit ^^ n) (x XOR y) = (crc_bit ^^ n) x XOR (crc_bit ^^ n) y"
  by (induction n) (simp_all add: crc_bit_xor)

lemma crc_bits_drop: "take_bit n x = 0 \<Longrightarrow> (crc_bit ^^ n) x = drop_bit n x"
proof (induction n)
  case (Suc n)
  then have z: "bit x k = False" if "k < Suc n" for k
    using that by (metis bit_0_eq bit_take_bit_iff bot_apply bot_bool_def)
  then have "take_bit n x = 0" by (intro bit_eqI) (auto simp: bit_simps)
  then have "(crc_bit ^^ n) x = drop_bit n x" by (rule Suc.IH)
  moreover have "\<not> bit (drop_bit n x) 0" using z by (simp add: bit_simps)
  ultimately show ?case by (simp add: crc_bit_xor_form [of "drop_bit n x"])
qed simp

lemma crc_poly_bit_31: "bit crc_poly 31"
  by (simp add: crc_poly_value bit_numeral_rec)

lemma crc_bit_inj: "crc_bit x = crc_bit y \<Longrightarrow> x = y"
proof -
  assume eq: "crc_bit x = crc_bit y"
  have top: "bit (crc_bit z) 31 = bit z 0" for z :: u32
  proof -
    have "\<not> bit z 32" by (auto dest: bit_imp_le_length)
    then show ?thesis by (auto simp: crc_bit_xor_form bit_simps crc_poly_bit_31)
  qed
  then have b0: "bit x 0 = bit y 0" using eq by metis
  have d: "drop_bit 1 x = drop_bit 1 y"
  proof -
    have "crc_bit z XOR (if bit z 0 then crc_poly else 0) = drop_bit 1 z" for z
      by (simp add: crc_bit_xor_form xor.assoc)
    then show ?thesis using eq b0 by metis
  qed
  show "x = y"
  proof (rule bit_eqI)
    fix n
    show "bit x n = bit y n"
    proof (cases n)
      case 0
      with b0 show ?thesis by simp
    next
      case (Suc m)
      have "bit (drop_bit 1 x) m = bit (drop_bit 1 y) m" using d by simp
      with Suc show ?thesis by (simp add: bit_drop_bit_eq)
    qed
  qed
qed

lemma crc_bits_inj: "(crc_bit ^^ n) x = (crc_bit ^^ n) y \<Longrightarrow> x = y"
  by (induction n) (auto dest: crc_bit_inj)

text \<open>One table step is eight register steps on the byte mixed into the register.\<close>

lemma crc_byte_bits: "crc_byte crc b = (crc_bit ^^ 8) (crc XOR ucast b)"
proof -
  let ?x = "crc XOR ucast b :: u32"
  let ?lo = "?x AND 0xff" and ?hi = "push_bit 8 (drop_bit 8 ?x)"
  have mask: "(0xff :: u32) = mask 8" by (simp add: mask_eq_exp_minus_1)
  have split: "?x = ?lo XOR ?hi"
    unfolding mask by (rule bit_eqI) (auto simp: bit_simps)
  have lo: "unat ?lo < 256"
    using word_and_le1 [of ?x "0xff"] by (simp add: word_le_nat_alt)
  have "crc_table ! unat ?lo = (crc_bit ^^ 8) ?lo"
    using lo by (simp add: crc_table_generated [symmetric] make_crc_table_def)
  moreover have "(crc_bit ^^ 8) ?hi = drop_bit 8 ?x"
  proof -
    have "take_bit 8 ?hi = 0" by (rule bit_eqI) (auto simp: bit_simps)
    then have "(crc_bit ^^ 8) ?hi = drop_bit 8 ?hi" by (rule crc_bits_drop)
    also have "\<dots> = drop_bit 8 ?x"
      by (rule bit_eqI) (auto simp: bit_simps dest: bit_imp_le_length)
    finally show ?thesis .
  qed
  moreover have "drop_bit 8 ?x = drop_bit 8 crc"
    by (rule bit_eqI) (auto simp: bit_simps dest: bit_imp_le_length)
  ultimately show ?thesis
    unfolding crc_byte_def by (subst split) (simp only: crc_bits_xor)
qed

lemma crc_byte_inj: "crc_byte c b = crc_byte d b \<Longrightarrow> c = d"
proof -
  assume "crc_byte c b = crc_byte d b"
  then have "c XOR ucast b = d XOR (ucast b :: u32)"
    unfolding crc_byte_bits by (rule crc_bits_inj)
  then have "(c XOR ucast b) XOR ucast b = (d XOR ucast b) XOR (ucast b :: u32)" by simp
  then show "c = d" by (simp add: xor.assoc)
qed

lemma foldl_crc_byte_inj: "foldl crc_byte c bs = foldl crc_byte d bs \<Longrightarrow> c = d"
  by (induction bs arbitrary: c d) (auto dest: crc_byte_inj)

section \<open>Four bytes at a time\<close>

definition le4 :: "u8 \<Rightarrow> u8 \<Rightarrow> u8 \<Rightarrow> u8 \<Rightarrow> u32" where
  "le4 a b c d =
     ucast a XOR push_bit 8 (ucast b) XOR push_bit 16 (ucast c) XOR push_bit 24 (ucast d)"

lemma crc_bits_push: "k \<le> 16 \<Longrightarrow>
    (crc_bit ^^ 8) (push_bit (8 + k) (ucast (b :: u8))) = push_bit k (ucast b)"
proof -
  assume k: "k \<le> 16"
  let ?v = "push_bit (8 + k) (ucast b) :: u32"
  have "take_bit 8 ?v = 0" by (rule bit_eqI) (auto simp: bit_simps)
  then have "(crc_bit ^^ 8) ?v = drop_bit 8 ?v" by (rule crc_bits_drop)
  also have "\<dots> = push_bit k (ucast b)"
    using k by (intro bit_eqI) (auto simp: bit_simps dest: bit_imp_le_length)
  finally show ?thesis .
qed

lemma foldl_crc_byte_4: "foldl crc_byte x [a, b, c, d] = (crc_bit ^^ 32) (x XOR le4 a b c d)"
proof -
  have f32: "(crc_bit ^^ 32) z = (crc_bit ^^ 8) ((crc_bit ^^ 8) ((crc_bit ^^ 8) ((crc_bit ^^ 8) z)))"
    for z by (simp flip: funpow_add comp_apply [of "crc_bit ^^ _"])
  have p: "(crc_bit ^^ 8) (push_bit 8 (ucast y)) = ucast y"
    "(crc_bit ^^ 8) (push_bit 16 (ucast y)) = push_bit 8 (ucast y)"
    "(crc_bit ^^ 8) (push_bit 24 (ucast y)) = push_bit 16 (ucast y)" for y :: u8
    using crc_bits_push [of 0 y] crc_bits_push [of 8 y] crc_bits_push [of 16 y] by simp_all
  show ?thesis
    by (simp only: f32 le4_def crc_byte_bits crc_bits_xor p foldl.simps xor.assoc)
qed

lemma le4_inj:
  assumes "le4 a b c d = le4 a' b' c' d'"
  shows "a = a' \<and> b = b' \<and> c = c' \<and> d = d'"
proof -
  have "ucast (le4 a b c d) = a" "ucast (drop_bit 8 (le4 a b c d)) = b"
    "ucast (drop_bit 16 (le4 a b c d)) = c" "ucast (drop_bit 24 (le4 a b c d)) = d" for a b c d
    by (rule bit_eqI; auto simp: le4_def bit_simps dest: bit_imp_le_length)+
  with assms show ?thesis by metis
qed


section \<open>Properties\<close>

text \<open>The shift register the source describes, one bit at a time.\<close>

definition crc_serial :: "u32 \<Rightarrow> u8 list \<Rightarrow> u32" where
  "crc_serial c bs = foldl (\<lambda>c b. (crc_bit ^^ 8) (c XOR ucast b)) c bs"

lemma foldl_crc_byte_serial: "foldl crc_byte c bs = crc_serial c bs"
proof -
  have "crc_byte = (\<lambda>c b. (crc_bit ^^ 8) (c XOR ucast b))"
    by (simp add: fun_eq_iff crc_byte_bits)
  then show ?thesis by (simp add: crc_serial_def)
qed

lemma crc32_full:
  "crc32 crc bs (length bs) = Some (foldl crc_byte (crc XOR 0xffffffff) bs XOR 0xffffffff)"
  by (simp add: crc32_eq)

lemma xor_cancel: "(u :: u32) XOR m = v XOR m \<longleftrightarrow> u = v"
  by (metis xor.assoc xor_self_eq xor.right_neutral)

lemma crc32_append:
  "crc32 c (a @ b) (length a + length b) =
     do { c' \<leftarrow> crc32 c a (length a); crc32 c' b (length b) }"
  by (simp add: crc32_eq xor.assoc)

text \<open>C14: The unrolled table-driven \<open>crc32\<close> computes the bit-serial CRC-32 register of its
  polynomial over the first \<open>len\<close> bytes, with the register complemented before and after,
  for every length (also those that are not a multiple of 8), it never reads behind the
  buffer when \<open>len\<close> bytes are there, and the static table is the one that
  \<open>make_crc_table\<close> generates in the other configuration.\<close>

theorem crc32_bit_serial:
  assumes "len \<le> length buf"
  shows "crc32 crc buf len =
      Some (crc_serial (crc XOR 0xffffffff) (take len buf) XOR 0xffffffff) \<and>
    make_crc_table = crc_table"
  using assms by (simp add: crc32_eq foldl_crc_byte_serial crc_table_generated)

theorem crc32_bit_serial_witness:
  "crc32 0 [1, 2, 3] 2 = Some (crc_serial (0 XOR 0xffffffff) (take 2 [1, 2, 3]) XOR 0xffffffff) \<and>
    make_crc_table = crc_table"
  by (rule crc32_bit_serial) simp

text \<open>C17: Error detection: two buffers of the same length that differ only inside a window of
  four consecutive bytes (every burst of at most 25 bits, and every single damaged byte,
  lies in one) never have the same CRC-32.\<close>

theorem crc32_detects_burst:
  assumes "[a, b, c, d] \<noteq> [a', b', c', d']"
  shows "crc32 crc (p @ [a, b, c, d] @ s) (length p + 4 + length s) \<noteq>
    crc32 crc (p @ [a', b', c', d'] @ s) (length p + 4 + length s)"
proof
  let ?u = "p @ [a, b, c, d] @ s" and ?v = "p @ [a', b', c', d'] @ s"
  assume eq: "crc32 crc ?u (length p + 4 + length s) = crc32 crc ?v (length p + 4 + length s)"
  have len: "length p + 4 + length s = length ?u" "length p + 4 + length s = length ?v"
    by simp_all
  have "crc32 crc ?u (length ?u) = crc32 crc ?v (length ?v)" using eq by (simp only: len [symmetric])
  then have "foldl crc_byte (crc XOR 0xffffffff) ?u = foldl crc_byte (crc XOR 0xffffffff) ?v"
    by (simp only: crc32_full option.inject xor_cancel)
  then have "foldl crc_byte (foldl crc_byte (crc XOR 0xffffffff) p) [a, b, c, d] =
      foldl crc_byte (foldl crc_byte (crc XOR 0xffffffff) p) [a', b', c', d']"
    unfolding foldl_append by (rule foldl_crc_byte_inj)
  then have "foldl crc_byte (crc XOR 0xffffffff) p XOR le4 a b c d =
      foldl crc_byte (crc XOR 0xffffffff) p XOR le4 a' b' c' d'"
    unfolding foldl_crc_byte_4 by (rule crc_bits_inj)
  then have "le4 a b c d = le4 a' b' c' d'" by (simp only: xor_cancel xor.commute [of _ "le4 _ _ _ _"])
  from le4_inj [OF this] assms show False by simp
qed

theorem crc32_detects_burst_witness:
  "crc32 0 ([9] @ [1, 2, 3, 4] @ [5]) (length [9 :: u8] + 4 + length [5 :: u8]) \<noteq>
    crc32 0 ([9] @ [1, 2, 7, 4] @ [5]) (length [9 :: u8] + 4 + length [5 :: u8])"
  by (rule crc32_detects_burst) simp

end
