(* ===== verification/Lists.thy ===== *)
theory Lists
  imports C_String
begin

text \<open>
  The list library \<open>common/lists.c\<close>: a header record and one growing block of item bytes
  behind a handle.  \<^emph>\<open>list_struct\<close> is the header with \<open>itemList\<close> the bytes of the block from
  \<open>itemList\<close> to its end; \<open>alloc n\<close> says whether the allocator can provide \<open>n\<close> bytes.
  Copies outside the block are \<^const>\<open>None\<close>.  The lemmas give the abstract list of items
  (\<open>list_items\<close>) before and after each operation and the invariant every operation keeps.
\<close>

section \<open>The data structure\<close>

record list_struct =
  percentIncrease :: int
  minNumItemsIncrease :: int
  listSize :: int
  itemSize :: int
  numItems :: int
  itemList :: buf

definition LIST_START :: int where "LIST_START = -1"
definition LIST_END :: int where "LIST_END = 0"

text \<open>\<open>sizeof (ListStruct)\<close> and the offset of \<open>itemList\<close> in it.\<close>

definition sizeof_ListStruct :: int where "sizeof_ListStruct = 28"
definition offsetof_itemList :: int where "offsetof_itemList = 24"

definition handle_size :: "list_struct \<Rightarrow> int" where
  "handle_size l = offsetof_itemList + int (length (itemList l))"

text \<open>
  \<open>SetHandleSize\<close>: \<open>realloc\<close> keeps the common prefix, growth is cleared.  The result is the
  C return value and the list.
\<close>

definition SetHandleSize :: "(int \<Rightarrow> bool) \<Rightarrow> list_struct \<Rightarrow> int \<Rightarrow> bool \<times> list_struct" where
  "SetHandleSize alloc l newSize =
     (let oldSize = handle_size l
      in if oldSize = newSize then (True, l)
         else if alloc newSize then
           (True, l\<lparr>itemList := take (nat (newSize - offsetof_itemList)) (itemList l) @
                               replicate (nat (newSize - oldSize)) NUL\<rparr>)
         else (False, l))"

definition NUMITEMSPERALLOC :: "list_struct \<Rightarrow> int" where
  "NUMITEMSPERALLOC l =
     max (listSize l * (percentIncrease l + 100) div 100) (minNumItemsIncrease l)"

definition ITEMPTR :: "list_struct \<Rightarrow> int \<Rightarrow> int" where
  "ITEMPTR l item = itemSize l * item"

section \<open>Byte copies into, out of and inside the block\<close>

definition copy_to :: "list_struct \<Rightarrow> int \<Rightarrow> buf \<Rightarrow> int \<Rightarrow> list_struct option" where
  "copy_to l off src n =
     (if n = 0 then Some l
      else if n < 0 \<or> off < 0 then None
      else map_option (\<lambda>m. l\<lparr>itemList := m\<rparr>) (copy_in (itemList l) (nat off) src (nat n)))"

definition clear_at :: "list_struct \<Rightarrow> int \<Rightarrow> int \<Rightarrow> list_struct option" where
  "clear_at l off n = copy_to l off (replicate (nat n) NUL) n"

definition move_in :: "list_struct \<Rightarrow> int \<Rightarrow> int \<Rightarrow> int \<Rightarrow> list_struct option" where
  "move_in l dest src n =
     (if n = 0 then Some l
      else if n < 0 \<or> dest < 0 \<or> src < 0 then None
      else map_option (\<lambda>m. l\<lparr>itemList := m\<rparr>)
             (memmove (itemList l) (nat dest) (nat src) (nat n)))"

definition bytes_at :: "list_struct \<Rightarrow> int \<Rightarrow> int \<Rightarrow> buf option" where
  "bytes_at l off n =
     (if n = 0 then Some []
      else if n < 0 \<or> off < 0 \<or> int (length (itemList l)) < off + n then None
      else Some (take (nat n) (drop (nat off) (itemList l))))"

section \<open>The operations\<close>

definition ListCreate :: "(int \<Rightarrow> bool) \<Rightarrow> buf \<Rightarrow> int \<Rightarrow> list_struct option" where
  "ListCreate alloc junk elementSize =
     (if alloc sizeof_ListStruct then
        Some \<lparr>percentIncrease = 10, minNumItemsIncrease = 4, listSize = 0,
              itemSize = elementSize, numItems = 0,
              itemList = take (nat (sizeof_ListStruct - offsetof_itemList)) junk\<rparr>
      else None)"

definition ListSetAllocationPolicy :: "list_struct \<Rightarrow> int \<Rightarrow> int \<Rightarrow> list_struct" where
  "ListSetAllocationPolicy l minItemsPerAlloc percentIncreasePerAlloc =
     l\<lparr>percentIncrease := percentIncreasePerAlloc, minNumItemsIncrease := minItemsPerAlloc\<rparr>"

definition ListNumItems :: "list_struct \<Rightarrow> int" where
  "ListNumItems l = numItems l"

definition ListGetItemSize :: "list_struct \<Rightarrow> int" where
  "ListGetItemSize l = itemSize l"

definition ExpandListSpace ::
  "(int \<Rightarrow> bool) \<Rightarrow> list_struct \<Rightarrow> int \<Rightarrow> bool \<times> list_struct" where
  "ExpandListSpace alloc l n =
     (let n = (if n = 0 then NUMITEMSPERALLOC l
               else if n < 0 then - n + NUMITEMSPERALLOC l else n)
      in case SetHandleSize alloc l (sizeof_ListStruct + (listSize l + n) * itemSize l) of
           (True, l) \<Rightarrow> (True, l\<lparr>listSize := listSize l + n\<rparr>)
         | (False, l) \<Rightarrow> (False, l))"

definition ListCompact :: "(int \<Rightarrow> bool) \<Rightarrow> list_struct \<Rightarrow> list_struct" where
  "ListCompact alloc l =
     (case SetHandleSize alloc l (sizeof_ListStruct + numItems l * itemSize l) of
        (True, l) \<Rightarrow> l\<lparr>listSize := numItems l\<rparr>
      | (False, l) \<Rightarrow> l)"

definition ListClear :: "list_struct \<Rightarrow> list_struct" where
  "ListClear l = l\<lparr>numItems := 0\<rparr>"

definition ListPreAllocate ::
  "(int \<Rightarrow> bool) \<Rightarrow> list_struct \<Rightarrow> int \<Rightarrow> bool \<times> list_struct" where
  "ListPreAllocate alloc l n =
     (if listSize l - numItems l < n
      then ExpandListSpace alloc l (n - (listSize l - numItems l))
      else (True, l))"

text \<open>
  The result of an insertion: \<^const>\<open>None\<close> is an access outside the block, the \<open>bool\<close> the C
  return value.  \<open>items\<close> is NULL for cleared items.
\<close>

definition ListInsertItems ::
  "(int \<Rightarrow> bool) \<Rightarrow> list_struct \<Rightarrow> buf option \<Rightarrow> int \<Rightarrow> int \<Rightarrow> (bool \<times> list_struct) option" where
  "ListInsertItems alloc l items pos n =
     (let count = numItems l
      in if pos \<noteq> count + 1 \<and> pos > count then Some (False, l)
      else
        let pos = (if pos = count + 1 then LIST_END else pos);
            (ok, l) = (if numItems l \<ge> listSize l then ExpandListSpace alloc l (- n) else (True, l))
        in if \<not> ok then Some (False, l)
        else
          let pos = (if pos = LIST_START then (if count = 0 then LIST_END else 1) else pos)
          in if pos = LIST_END then
               do { l \<leftarrow> (case items of
                            Some src \<Rightarrow> copy_to l (ITEMPTR l count) src (itemSize l * n)
                          | None \<Rightarrow> clear_at l (ITEMPTR l count) (itemSize l * n));
                    Some (True, l\<lparr>numItems := numItems l + n\<rparr>) }
             else
               do { l \<leftarrow> move_in l (ITEMPTR l (pos - 1 + n)) (ITEMPTR l (pos - 1))
                           ((count + 1 - pos) * itemSize l);
                    l \<leftarrow> (case items of
                            Some src \<Rightarrow> copy_to l (ITEMPTR l (pos - 1)) src (itemSize l * n)
                          | None \<Rightarrow> clear_at l (ITEMPTR l (pos - 1)) (itemSize l * n));
                    Some (True, l\<lparr>numItems := numItems l + n\<rparr>) })"

definition ListInsertItem ::
  "(int \<Rightarrow> bool) \<Rightarrow> list_struct \<Rightarrow> buf option \<Rightarrow> int \<Rightarrow> (bool \<times> list_struct) option" where
  "ListInsertItem alloc l item pos = ListInsertItems alloc l item pos 1"

definition ListAppend ::
  "(int \<Rightarrow> bool) \<Rightarrow> list_struct option \<Rightarrow> list_struct option \<Rightarrow>
     (bool \<times> list_struct option) option" where
  "ListAppend alloc list1 list2 =
     (case list2 of None \<Rightarrow> Some (True, list1)
      | Some l2 \<Rightarrow>
        (case list1 of None \<Rightarrow> Some (False, None)
         | Some l1 \<Rightarrow>
           if itemSize l1 \<noteq> itemSize l2 then Some (False, Some l1)
           else if ListNumItems l2 = 0 then Some (True, Some l1)
           else
             let n1 = ListNumItems l1; n2 = ListNumItems l2
             in case SetHandleSize alloc l1 (sizeof_ListStruct + (n1 + n2) * itemSize l1) of
                  (False, l1) \<Rightarrow> Some (False, Some l1)
                | (True, l1) \<Rightarrow>
                    do { src \<leftarrow> bytes_at l2 (ITEMPTR l2 0) (n2 * itemSize l2);
                         l1 \<leftarrow> copy_to (l1\<lparr>numItems := n1 + n2, listSize := n1 + n2\<rparr>)
                                 (ITEMPTR l1 n1) src (n2 * itemSize l2);
                         Some (True, Some l1) }))"

definition ListCopy ::
  "(int \<Rightarrow> bool) \<Rightarrow> buf \<Rightarrow> list_struct option \<Rightarrow> list_struct option option" where
  "ListCopy alloc junk original =
     (case original of None \<Rightarrow> Some None
      | Some l \<Rightarrow>
        (case ListCreate alloc junk (itemSize l) of None \<Rightarrow> Some None
         | Some t \<Rightarrow>
           let n = ListNumItems l
           in case SetHandleSize alloc t (sizeof_ListStruct + n * itemSize t) of
                (False, t) \<Rightarrow> Some None
              | (True, t) \<Rightarrow>
                  do { src \<leftarrow> bytes_at l (ITEMPTR l 0) (n * itemSize t);
                       t \<leftarrow> copy_to (t\<lparr>numItems := numItems l, listSize := numItems l,
                                       itemSize := itemSize l,
                                       percentIncrease := percentIncrease l,
                                       minNumItemsIncrease := minNumItemsIncrease l\<rparr>)
                              (ITEMPTR t 0) src (n * itemSize t);
                       Some (Some t) }))"

text \<open>The test of the item sizes compares \<open>list1\<close> with itself, as the code does.\<close>

definition ListEqual :: "bool \<Rightarrow> list_struct option \<Rightarrow> list_struct option \<Rightarrow> bool option" where
  "ListEqual same list1 list2 =
     (if same then Some True
      else case (list1, list2) of
        (Some l1, Some l2) \<Rightarrow>
          if itemSize l1 = itemSize l1 \<and> numItems l1 = numItems l2
          then map_option (\<lambda>r. r = 0)
                 (memcmp (itemList l1) (itemList l2) (nat (itemSize l1 * numItems l1)))
          else Some False
      | _ \<Rightarrow> Some False)"

definition ListReplaceItems ::
  "list_struct \<Rightarrow> buf \<Rightarrow> int \<Rightarrow> int \<Rightarrow> list_struct option" where
  "ListReplaceItems l items pos n =
     (let pos = (if pos = LIST_END then numItems l else if pos = LIST_START then 1 else pos)
      in copy_to l (ITEMPTR l (pos - 1)) items (itemSize l * n))"

definition ListReplaceItem :: "list_struct \<Rightarrow> buf \<Rightarrow> int \<Rightarrow> list_struct option" where
  "ListReplaceItem l item pos = ListReplaceItems l item pos 1"

text \<open>Removing returns the bytes copied to the destination, if one was given.\<close>

definition ListRemoveItems ::
  "list_struct \<Rightarrow> bool \<Rightarrow> int \<Rightarrow> int \<Rightarrow> (buf \<times> list_struct) option" where
  "ListRemoveItems l to_dest pos n =
     (let pos = (if pos = LIST_START then 1 else if pos = LIST_END then numItems l else pos);
          after = pos + n;
          move = numItems l - (after - 1)
      in do { out \<leftarrow> (if to_dest then bytes_at l (ITEMPTR l (pos - 1)) (itemSize l * n)
                      else Some []);
              l \<leftarrow> (if move > 0
                    then move_in l (ITEMPTR l (pos - 1)) (ITEMPTR l (after - 1)) (itemSize l * move)
                    else Some l);
              Some (out, l\<lparr>numItems := numItems l - n\<rparr>) })"

definition ListRemoveItem :: "list_struct \<Rightarrow> bool \<Rightarrow> int \<Rightarrow> (buf \<times> list_struct) option" where
  "ListRemoveItem l to_dest pos = ListRemoveItems l to_dest pos 1"

definition ListGetItems :: "list_struct \<Rightarrow> int \<Rightarrow> int \<Rightarrow> buf option" where
  "ListGetItems l pos n =
     (let pos = (if pos = LIST_START then 1 else if pos = LIST_END then numItems l else pos)
      in bytes_at l (ITEMPTR l (pos - 1)) (itemSize l * n))"

definition ListGetItem :: "list_struct \<Rightarrow> int \<Rightarrow> buf option" where
  "ListGetItem l pos = ListGetItems l pos 1"

text \<open>A pointer to an item is its offset in the block; the item is read through it.\<close>

definition ListGetPtrToItem :: "list_struct \<Rightarrow> int \<Rightarrow> int" where
  "ListGetPtrToItem l pos =
     ITEMPTR l ((if pos = LIST_START then 1 else if pos = LIST_END then numItems l else pos) - 1)"

section \<open>Searching\<close>

text \<open>
  A comparison function gets the two items; NULL selects \<open>ListMemBlockCmp\<close>, the comparison
  of the raw bytes.
\<close>

type_synonym compare_function = "buf \<Rightarrow> buf \<Rightarrow> int option"

definition ListMemBlockCmp :: "int \<Rightarrow> compare_function" where
  "ListMemBlockCmp sz a b = memcmp a b (nat sz)"

definition compare_with :: "compare_function option \<Rightarrow> int \<Rightarrow> compare_function" where
  "compare_with f sz = (case f of Some g \<Rightarrow> g | None \<Rightarrow> ListMemBlockCmp sz)"

text \<open>\<open>array i\<close> is the item at index \<open>i\<close>.\<close>

function BinSearch_loop ::
  "(int \<Rightarrow> buf option) \<Rightarrow> compare_function \<Rightarrow> buf \<Rightarrow> int \<Rightarrow> int \<Rightarrow> int \<Rightarrow> int \<Rightarrow> int option" where
  "BinSearch_loop array cmpf item low high mid cmp =
     (if low \<le> high then
        let mid = (low + high) div 2
        in (case array mid of
              None \<Rightarrow> None
            | Some x \<Rightarrow>
                (case cmpf item x of
                   None \<Rightarrow> None
                 | Some c \<Rightarrow>
                     if c = 0 then Some mid
                     else if c < 0 then BinSearch_loop array cmpf item low (mid - 1) mid c
                     else BinSearch_loop array cmpf item (mid + 1) high mid c))
      else Some (- (if cmp > 0 then mid + 1 else mid) - 1))"
  by pat_completeness auto
termination
  by (relation "measure (\<lambda>(array, cmpf, item, low, high, mid, cmp). nat (high + 1 - low))") auto

declare BinSearch_loop.simps [simp del]

definition BinSearch ::
  "(int \<Rightarrow> buf option) \<Rightarrow> int \<Rightarrow> compare_function \<Rightarrow> buf \<Rightarrow> int option" where
  "BinSearch array numElements cmpf item =
     BinSearch_loop array cmpf item 0 (numElements - 1) 0 (-1)"

definition ListBinSearch ::
  "list_struct \<Rightarrow> buf \<Rightarrow> compare_function option \<Rightarrow> int option" where
  "ListBinSearch l item f =
     map_option (\<lambda>i. if i \<ge> 0 then i + 1 else 0)
       (BinSearch (\<lambda>i. bytes_at l (ITEMPTR l i) (itemSize l)) (numItems l)
          (compare_with f (itemSize l)) item)"

function ListFindItem_loop ::
  "list_struct \<Rightarrow> buf \<Rightarrow> compare_function \<Rightarrow> int \<Rightarrow> int option" where
  "ListFindItem_loop l item cmpf index =
     (if index \<le> numItems l then
        (case bytes_at l (ITEMPTR l (index - 1)) (itemSize l) of
           None \<Rightarrow> None
         | Some x \<Rightarrow>
             (case cmpf item x of
                None \<Rightarrow> None
              | Some c \<Rightarrow> if c = 0 then Some index else ListFindItem_loop l item cmpf (index + 1)))
      else Some 0)"
  by pat_completeness auto
termination
  by (relation "measure (\<lambda>(l, item, cmpf, index). nat (numItems l + 1 - index))") auto

declare ListFindItem_loop.simps [simp del]

definition ListFindItem ::
  "list_struct \<Rightarrow> buf \<Rightarrow> int \<Rightarrow> compare_function option \<Rightarrow> int option" where
  "ListFindItem l item start f =
     (if numItems l = 0 then Some 0
      else ListFindItem_loop l item (compare_with f (itemSize l))
             (if start = LIST_START then 1 else if start = LIST_END then numItems l else start))"

text \<open>
  The inner loop of \<open>ListRemoveDuplicates\<close>: remove every item from position \<open>start\<close> on that
  equals the item at \<open>index\<close>.  The recursion ends because each round removes an item; the
  test of the new count holds in the code by arithmetic and serves the termination proof.
\<close>

function RemoveDuplicates_of ::
  "list_struct \<Rightarrow> compare_function option \<Rightarrow> int \<Rightarrow> int \<Rightarrow> int \<Rightarrow> (list_struct \<times> int) option" where
  "RemoveDuplicates_of l f index start count =
     (if start \<le> count then
        (case bytes_at l (ListGetPtrToItem l index) (itemSize l) of
           None \<Rightarrow> None
         | Some item \<Rightarrow>
             (case ListFindItem l item start f of
                None \<Rightarrow> None
              | Some d \<Rightarrow>
                  if d > 0 then
                    (case ListRemoveItem l False d of
                       None \<Rightarrow> None
                     | Some (_, l') \<Rightarrow>
                         if d \<ge> start then RemoveDuplicates_of l' f index d (count - 1) else None)
                  else Some (l, count)))
      else Some (l, count))"
  by pat_completeness auto
termination
  by (relation "measure (\<lambda>(l, f, index, start, count). nat (count + 1 - start))") auto

declare RemoveDuplicates_of.simps [simp del]


lemma RemoveDuplicates_of_count:
  "RemoveDuplicates_of l f index start count = Some (l', count') \<Longrightarrow> count' \<le> count"
proof (induction l f index start count rule: RemoveDuplicates_of.induct)
  case (1 l f index start count)
  show ?case
    using "1.prems" "1.IH"
    by (subst (asm) RemoveDuplicates_of.simps)
      (fastforce split: if_splits option.splits prod.splits)
qed

function RemoveDuplicates_loop ::
  "list_struct \<Rightarrow> compare_function option \<Rightarrow> int \<Rightarrow> int \<Rightarrow> list_struct option" where
  "RemoveDuplicates_loop l f index count =
     (if index < count then
        (case RemoveDuplicates_of l f index (index + 1) count of
           None \<Rightarrow> None
         | Some (l', count') \<Rightarrow> RemoveDuplicates_loop l' f (index + 1) count')
      else Some l)"
  by pat_completeness auto
termination
  by (relation "measure (\<lambda>(l, f, index, count). nat (count - index))")
    (auto dest: RemoveDuplicates_of_count)

declare RemoveDuplicates_loop.simps [simp del]

definition ListRemoveDuplicates ::
  "list_struct \<Rightarrow> compare_function option \<Rightarrow> list_struct option" where
  "ListRemoveDuplicates l f = RemoveDuplicates_loop l f 1 (ListNumItems l)"

section \<open>Blocks as lists of items\<close>

fun chunks :: "nat \<Rightarrow> nat \<Rightarrow> 'a list \<Rightarrow> 'a list list" where
  "chunks sz 0 m = []"
| "chunks sz (Suc n) m = take sz m # chunks sz n (drop sz m)"

lemma length_chunks [simp]: "length (chunks sz n m) = n"
  by (induction n arbitrary: m) simp_all

lemma chunks_nth: "i < n \<Longrightarrow> chunks sz n m ! i = take sz (drop (i * sz) m)"
proof (induction n arbitrary: m i)
  case (Suc n)
  then show ?case by (cases i) (simp_all add: add.commute)
qed simp

lemma chunks_add: "chunks sz (a + b) m = chunks sz a m @ chunks sz b (drop (a * sz) m)"
  by (induction a arbitrary: m) (simp_all add: add.commute)

lemma chunks_prefix:
  assumes "take (n * sz) m = take (n * sz) m'"
  shows "chunks sz n m = chunks sz n m'"
proof (rule nth_equalityI)
  fix i
  assume "i < length (chunks sz n m)"
  then have i: "i < n" by simp
  then have "i * sz + sz \<le> n * sz"
    by (metis Suc_leI add.commute mult_Suc mult_le_mono1)
  then have "take sz (drop (i * sz) x) = take sz (drop (i * sz) (take (n * sz) x))" for x :: "'a list"
    by (simp add: drop_take)
  then show "chunks sz n m ! i = chunks sz n m' ! i" using assms i by (metis chunks_nth)
qed simp

lemma chunks_append_left: "length a = n * sz \<Longrightarrow> chunks sz n (a @ b) = chunks sz n a"
  by (rule chunks_prefix) simp

lemma chunks_append: "length a = n * sz \<Longrightarrow>
    chunks sz (n + k) (a @ b) = chunks sz n a @ chunks sz k b"
  by (simp add: chunks_add chunks_append_left)

lemma chunks_take_prefix: "k \<le> n \<Longrightarrow> chunks sz k m = take k (chunks sz n m)"
  by (metis chunks_add le_add_diff_inverse length_chunks append_eq_conv_conj)

lemma chunks_take: "chunks sz n (take (n * sz) m) = chunks sz n m"
  by (rule chunks_prefix) simp

lemma chunks_drop: "k \<le> n \<Longrightarrow> chunks sz (n - k) (drop (k * sz) m) = drop k (chunks sz n m)"
  by (metis chunks_add le_add_diff_inverse length_chunks append_eq_conv_conj)

lemma concat_chunks: "n * sz \<le> length m \<Longrightarrow> concat (chunks sz n m) = take (n * sz) m"
  by (induction n arbitrary: m) (simp_all add: take_add)

lemma chunks_concat: "\<forall>x \<in> set xs. length x = sz \<Longrightarrow> chunks sz (length xs) (concat xs) = xs"
  by (induction xs) auto

lemma chunks_one [simp]: "length x = sz \<Longrightarrow> chunks sz (Suc 0) x = [x]"
  by simp

section \<open>The abstraction and the invariant\<close>

definition list_items :: "list_struct \<Rightarrow> buf list" where
  "list_items l = chunks (nat (itemSize l)) (nat (numItems l)) (itemList l)"

text \<open>
  The block holds \<open>listSize\<close> items and the padding of \<open>sizeof (ListStruct)\<close>, and the items in
  use fit.
\<close>

definition wf_list :: "int \<Rightarrow> list_struct \<Rightarrow> bool" where
  "wf_list sz l \<longleftrightarrow> itemSize l = sz \<and> 0 < sz \<and> 0 \<le> numItems l \<and> numItems l \<le> listSize l \<and>
     0 \<le> minNumItemsIncrease l \<and> int (length (itemList l)) = listSize l * sz + 4"

lemma length_list_items: "0 \<le> numItems l \<Longrightarrow> int (length (list_items l)) = numItems l"
  by (simp add: list_items_def)

lemma ITEMPTR_nat: "itemSize l = int sz \<Longrightarrow> ITEMPTR l (int i) = int (i * sz)"
  by (simp add: ITEMPTR_def)

lemma copy_to_nat:
  "copy_to l (int off) src (int n) =
     map_option (\<lambda>m. l\<lparr>itemList := m\<rparr>) (copy_in (itemList l) off src n)"
  by (cases "n = 0") (simp_all add: copy_to_def)

lemma move_in_nat:
  "move_in l (int d) (int s) (int n) =
     map_option (\<lambda>m. l\<lparr>itemList := m\<rparr>) (memmove (itemList l) d s n)"
  by (cases "n = 0") (simp_all add: move_in_def memmove_def)

lemma bytes_at_nat:
  "off + n \<le> length (itemList l) \<Longrightarrow>
   bytes_at l (int off) (int n) = Some (take n (drop off (itemList l)))"
  by (cases "n = 0") (simp_all add: bytes_at_def)

lemma memmove_eq:
  "\<lbrakk>s + n \<le> length m; d + n \<le> length m\<rbrakk> \<Longrightarrow>
   memmove m d s n = Some (take d m @ take n (drop s m) @ drop (d + n) m)"
  by (simp add: memmove_def copy_up_eq copy_down_eq)

lemma wf_list_room:
  assumes "wf_list sz l" "numItems l + int n \<le> listSize l"
  shows "(nat (numItems l) + n) * nat sz \<le> length (itemList l)"
proof -
  have "(numItems l + int n) * sz \<le> listSize l * sz"
    using assms by (intro mult_right_mono) (simp_all add: wf_list_def)
  then have "(numItems l + int n) * sz \<le> int (length (itemList l))"
    using assms(1) unfolding wf_list_def by linarith
  moreover have "(numItems l + int n) * sz = int ((nat (numItems l) + n) * nat sz)"
    using assms(1) by (simp add: wf_list_def)
  ultimately show ?thesis by linarith
qed

lemmas wf_list_fits = wf_list_room [of _ _ 0, simplified]

text \<open>Growing keeps the items and makes room.\<close>

lemma SetHandleSize_grow:
  assumes "SetHandleSize alloc l n = (ok, l')" "handle_size l \<le> n"
  shows "if ok then l' = l\<lparr>itemList := itemList l @ replicate (nat (n - handle_size l)) NUL\<rparr>
         else l' = l \<and> \<not> alloc n"
proof -
  have "length (itemList l) \<le> nat (n - offsetof_itemList)"
    using assms(2) by (simp add: handle_size_def)
  then show ?thesis using assms by (auto simp: SetHandleSize_def Let_def split: if_splits)
qed

lemma ExpandListSpace_ok:
  assumes wf: "wf_list sz l" and ex: "ExpandListSpace alloc l (- n) = (ok, l')" and n: "0 < n"
  shows "if ok then wf_list sz l' \<and> list_items l' = list_items l \<and> numItems l' = numItems l \<and>
           listSize l + n \<le> listSize l'
         else l' = l"
proof -
  let ?k = "n + NUMITEMSPERALLOC l"
  have k: "0 \<le> NUMITEMSPERALLOC l" "n \<le> ?k"
    using wf by (auto simp: wf_list_def NUMITEMSPERALLOC_def)
  let ?new = "sizeof_ListStruct + (listSize l + ?k) * itemSize l"
  have sz: "0 < sz" "itemSize l = sz" using wf by (simp_all add: wf_list_def)
  have diff: "?new - handle_size l = ?k * sz"
    using wf by (simp add: wf_list_def handle_size_def sizeof_ListStruct_def offsetof_itemList_def
        algebra_simps)
  moreover have "0 \<le> ?k * sz" using k n sz by simp
  ultimately have grow: "handle_size l \<le> ?new" by linarith
  obtain ok0 l0 where sh: "SetHandleSize alloc l ?new = (ok0, l0)" by fastforce
  have ex': "(ok, l') = (if ok0 then (True, l0\<lparr>listSize := listSize l0 + ?k\<rparr>) else (False, l0))"
    using ex sh n by (cases ok0) (simp_all add: ExpandListSpace_def Let_def)
  show ?thesis
  proof (cases ok0)
    case True
    with SetHandleSize_grow [OF sh grow] diff
    have l0: "l0 = l\<lparr>itemList := itemList l @ replicate (nat (?k * sz)) NUL\<rparr>" by simp
    have fits: "nat (numItems l) * nat sz \<le> length (itemList l)"
      using wf_list_fits [OF wf] wf by (simp add: wf_list_def)
    have "list_items l' = list_items l"
      using ex' True l0 fits sz by (simp add: list_items_def) (intro chunks_prefix, simp)
    moreover have "wf_list sz l'"
      using ex' True l0 wf k n sz by (simp add: wf_list_def algebra_simps)
    ultimately show ?thesis using ex' True l0 k by simp
  next
    case False
    with SetHandleSize_grow [OF sh grow] ex' show ?thesis by simp
  qed
qed


text \<open>Inserting \<open>n\<close> items when there is room for them.\<close>

lemma insert_end_room:
  assumes wf: "wf_list (int z) l" and room: "numItems l + int n \<le> listSize l"
    and src: "length src = n * z"
  shows "\<exists>l2. copy_to l (ITEMPTR l (numItems l)) src (itemSize l * int n) = Some l2 \<and>
    list_items (l2\<lparr>numItems := numItems l2 + int n\<rparr>) = list_items l @ chunks z n src \<and>
    wf_list (int z) (l2\<lparr>numItems := numItems l2 + int n\<rparr>)"
proof -
  define c where "c = nat (numItems l)"
  have c: "numItems l = int c" and z: "itemSize l = int z" "0 < z"
    using wf by (simp_all add: wf_list_def c_def)
  have len: "(c + n) * z \<le> length (itemList l)"
    using wf_list_room [OF wf room] by (simp add: c_def)
  let ?m = "take (c * z) (itemList l) @ src @ drop (c * z + n * z) (itemList l)"
  have "copy_in (itemList l) (c * z) src (n * z) = Some ?m"
    using copy_in_eq [of "n * z" src "c * z" "itemList l"] src len by (simp add: algebra_simps)
  then have "copy_to l (int (c * z)) src (int (n * z)) = Some (l\<lparr>itemList := ?m\<rparr>)"
    by (simp only: copy_to_nat option.map)
  moreover have "ITEMPTR l (numItems l) = int (c * z)" "itemSize l * int n = int (n * z)"
    unfolding ITEMPTR_def c z by (simp_all only: of_nat_mult mult.commute)
  ultimately have cp: "copy_to l (ITEMPTR l (numItems l)) src (itemSize l * int n) =
      Some (l\<lparr>itemList := ?m\<rparr>)" by (simp only:)
  have "chunks z (c + n) ?m = chunks z c (take (c * z) (itemList l)) @ chunks z n (src @ drop (c * z + n * z) (itemList l))"
    using len by (intro chunks_append) (simp add: algebra_simps)
  also have "\<dots> = list_items l @ chunks z n src"
    using src z by (simp add: chunks_take chunks_append_left list_items_def c)
  finally have "list_items (l\<lparr>itemList := ?m, numItems := numItems l + int n\<rparr>) = list_items l @ chunks z n src"
    using z by (simp add: list_items_def c nat_int_add)
  moreover have "length ?m = length (itemList l)" using src len by (simp add: algebra_simps)
  then have "wf_list (int z) (l\<lparr>itemList := ?m, numItems := numItems l + int n\<rparr>)"
    using wf room by (simp add: wf_list_def)
  ultimately show ?thesis using cp by simp
qed

lemma insert_mid_room:
  assumes wf: "wf_list (int z) l" and room: "numItems l + int n \<le> listSize l"
    and src: "length src = n * z" and pos: "int i \<le> numItems l"
  shows "\<exists>l1 l2. move_in l (ITEMPTR l (int i + int n)) (ITEMPTR l (int i))
        ((numItems l - int i) * itemSize l) = Some l1 \<and>
    copy_to l1 (ITEMPTR l1 (int i)) src (itemSize l1 * int n) = Some l2 \<and>
    list_items (l2\<lparr>numItems := numItems l2 + int n\<rparr>) =
      take i (list_items l) @ chunks z n src @ drop i (list_items l) \<and>
    wf_list (int z) (l2\<lparr>numItems := numItems l2 + int n\<rparr>)"
proof -
  define c where "c = nat (numItems l)"
  have c: "numItems l = int c" and z: "itemSize l = int z" "0 < z"
    using wf by (simp_all add: wf_list_def c_def)
  obtain k where k: "c = i + k" using pos c le_Suc_ex [of i c] by auto
  have len: "(c + n) * z \<le> length (itemList l)"
    using wf_list_room [OF wf room] by (simp add: c_def)
  let ?m = "itemList l" let ?a = "take (i * z) ?m" and ?b = "take (k * z) (drop (i * z) ?m)"
  let ?m1 = "take ((i + n) * z) ?m @ ?b @ drop ((i + n) * z + k * z) ?m"
  let ?m2 = "?a @ src @ ?b @ drop ((i + n) * z + k * z) ?m"
  have mv: "memmove ?m ((i + n) * z) (i * z) (k * z) = Some ?m1"
    using len by (intro memmove_eq) (simp_all add: k algebra_simps)
  have "take (i * z) ?m1 = ?a" "drop (i * z + n * z) ?m1 = ?b @ drop ((i + n) * z + k * z) ?m"
    using len by (simp_all add: k algebra_simps min_def)
  moreover have "copy_in ?m1 (i * z) src (n * z) =
      Some (take (i * z) ?m1 @ take (n * z) src @ drop (i * z + n * z) ?m1)"
    using src len by (intro copy_in_eq) (simp_all add: k algebra_simps)
  ultimately have cp: "copy_in ?m1 (i * z) src (n * z) = Some ?m2" using src by simp
  have "move_in l (int ((i + n) * z)) (int (i * z)) (int (k * z)) = Some (l\<lparr>itemList := ?m1\<rparr>)"
    using mv by (simp only: move_in_nat option.map)
  then have 1: "move_in l (ITEMPTR l (int i + int n)) (ITEMPTR l (int i))
      ((numItems l - int i) * itemSize l) = Some (l\<lparr>itemList := ?m1\<rparr>)"
    using z by (simp add: ITEMPTR_def c k algebra_simps)
  have "copy_to (l\<lparr>itemList := ?m1\<rparr>) (int (i * z)) src (int (n * z)) = Some (l\<lparr>itemList := ?m2\<rparr>)"
    using cp by (simp only: copy_to_nat) simp
  then have 2: "copy_to (l\<lparr>itemList := ?m1\<rparr>) (ITEMPTR (l\<lparr>itemList := ?m1\<rparr>) (int i)) src
      (itemSize (l\<lparr>itemList := ?m1\<rparr>) * int n) = Some (l\<lparr>itemList := ?m2\<rparr>)"
    using z by (simp add: ITEMPTR_def algebra_simps)
  have li: "list_items l = chunks z i ?a @ chunks z k ?b"
    using z by (simp add: list_items_def c k nat_int_add chunks_add chunks_take)
  have "chunks z (i + (n + k)) ?m2 = chunks z i ?a @ chunks z (n + k) (src @ ?b @ drop ((i + n) * z + k * z) ?m)"
    using len by (intro chunks_append) (simp add: k algebra_simps)
  also have "chunks z (n + k) (src @ ?b @ drop ((i + n) * z + k * z) ?m) =
      chunks z n src @ chunks z k (?b @ drop ((i + n) * z + k * z) ?m)"
    using src by (rule chunks_append)
  also have "chunks z k (?b @ drop ((i + n) * z + k * z) ?m) = chunks z k ?b"
    using len by (intro chunks_append_left) (simp add: k algebra_simps)
  finally have "list_items (l\<lparr>itemList := ?m2, numItems := numItems l + int n\<rparr>) =
      take i (list_items l) @ chunks z n src @ drop i (list_items l)"
    using z li unfolding list_items_def c k by (simp add: nat_int_add flip: of_nat_add) (simp add: ac_simps)
  moreover have "length ?m2 = length ?m" using src len by (simp add: k algebra_simps)
  then have "wf_list (int z) (l\<lparr>itemList := ?m2, numItems := numItems l + int n\<rparr>)"
    using wf room by (simp add: wf_list_def)
  ultimately show ?thesis
    using 1 2 by (intro exI [of _ "l\<lparr>itemList := ?m1\<rparr>"] exI [of _ "l\<lparr>itemList := ?m2\<rparr>"]) simp
qed

text \<open>The index at which an insertion position puts its first item.\<close>

definition insert_index :: "list_struct \<Rightarrow> int \<Rightarrow> nat" where
  "insert_index l pos =
     (if pos = LIST_END then nat (numItems l) else if pos = LIST_START then 0 else nat (pos - 1))"

lemma ListInsertItems_room:
  assumes wf: "wf_list (int z) l" and src: "length src = n * z" and n: "0 < n"
    and room: "numItems l + int n \<le> listSize l \<or> listSize l \<le> numItems l"
    and pos: "-1 \<le> pos" "pos \<le> numItems l + 1"
  shows "ListInsertItems alloc l (Some src) pos (int n) = Some (False, l) \<or>
    (\<exists>l'. ListInsertItems alloc l (Some src) pos (int n) = Some (True, l') \<and> wf_list (int z) l' \<and>
       list_items l' = take (insert_index l pos) (list_items l) @ chunks z n src @
         drop (insert_index l pos) (list_items l))"
proof -
  let ?p = "if pos = numItems l + 1 then LIST_END else pos"
  have inr: "(pos \<noteq> numItems l + 1 \<and> numItems l < pos) = False" using pos by auto
  obtain ok l0 where e: "(if numItems l \<ge> listSize l then ExpandListSpace alloc l (- int n)
      else (True, l)) = (ok, l0)" by fastforce
  have l0: "if ok then wf_list (int z) l0 \<and> list_items l0 = list_items l \<and>
      numItems l0 = numItems l \<and> numItems l0 + int n \<le> listSize l0 else l0 = l"
  proof (cases "numItems l \<ge> listSize l")
    case True
    with e have ex: "ExpandListSpace alloc l (- int n) = (ok, l0)" by simp
    have "numItems l = listSize l" using True wf by (simp add: wf_list_def)
    then show ?thesis using ExpandListSpace_ok [OF wf ex] n by (auto split: if_splits)
  next
    case False
    with e room wf show ?thesis by auto
  qed
  show ?thesis
  proof (cases ok)
    case False
    with l0 e pos show ?thesis by (simp add: ListInsertItems_def Let_def)
  next
    case True
    with l0 have w: "wf_list (int z) l0" and it: "list_items l0 = list_items l"
      and c: "numItems l0 = numItems l" and r: "numItems l0 + int n \<le> listSize l0" by simp_all
    let ?q = "if ?p = LIST_START then (if numItems l = 0 then LIST_END else 1) else ?p"
    have ix: "insert_index l pos = (if ?q = LIST_END then nat (numItems l) else nat (?q - 1))"
      using wf by (auto simp: insert_index_def LIST_END_def LIST_START_def wf_list_def)
    show ?thesis
    proof (cases "?q = LIST_END")
      case True
      from insert_end_room [OF w r src] obtain l2 where
        l2: "copy_to l0 (ITEMPTR l0 (numItems l)) src (itemSize l0 * int n) = Some l2"
          "list_items (l2\<lparr>numItems := numItems l2 + int n\<rparr>) = list_items l @ chunks z n src"
          "wf_list (int z) (l2\<lparr>numItems := numItems l2 + int n\<rparr>)"
        using c it by auto
      have all: "take (nat (numItems l)) (list_items l) = list_items l"
        "drop (nat (numItems l)) (list_items l) = []" by (simp_all add: list_items_def)
      have "ListInsertItems alloc l (Some src) pos (int n) =
          Some (True, l2\<lparr>numItems := numItems l2 + int n\<rparr>)"
        using True e \<open>ok\<close> l2(1)
        unfolding ListInsertItems_def Let_def inr if_False by simp
      then show ?thesis using l2 ix True all by simp
    next
      case False
      define i where "i = nat (?q - 1)"
      have q: "?q = int i + 1" and i: "int i \<le> numItems l0"
        using False pos c wf by (auto simp: i_def LIST_END_def LIST_START_def wf_list_def split: if_splits)
      from insert_mid_room [OF w r src i] obtain l1 l2 where
        l1: "move_in l0 (ITEMPTR l0 (int i + int n)) (ITEMPTR l0 (int i))
               ((numItems l - int i) * itemSize l0) = Some l1"
        and l2: "copy_to l1 (ITEMPTR l1 (int i)) src (itemSize l1 * int n) = Some l2"
          "list_items (l2\<lparr>numItems := numItems l2 + int n\<rparr>) =
             take i (list_items l) @ chunks z n src @ drop i (list_items l)"
          "wf_list (int z) (l2\<lparr>numItems := numItems l2 + int n\<rparr>)"
        using c it by auto
      have args: "?q - 1 + int n = int i + int n" "?q - 1 = int i"
        "numItems l + 1 - ?q = numItems l - int i" using q by simp_all
      have "ListInsertItems alloc l (Some src) pos (int n) =
          Some (True, l2\<lparr>numItems := numItems l2 + int n\<rparr>)"
        using False e \<open>ok\<close> l1 l2(1) unfolding ListInsertItems_def Let_def inr if_False
        by (simp only: args if_False if_True prod.case option.case bind.bind_lunit) simp
      then show ?thesis using l2 ix False by (simp add: i_def [symmetric])
    qed
  qed
qed


lemma copy_in_None: "\<lbrakk>0 < n; length m < d + n\<rbrakk> \<Longrightarrow> copy_in m d src n = None"
proof (induction m d src n rule: copy_in.induct)
  case (3 m d x src n)
  show ?case
  proof (cases "d < length m")
    case True
    with "3.prems" have "0 < n" by (cases n) auto
    with "3.IH" [of "m[d := x]"] "3.prems" True show ?thesis by simp
  qed (simp add: store_def)
qed simp_all

section \<open>Reading and removing\<close>

lemma wf_listE:
  assumes "wf_list (int z) l"
  obtains c where "numItems l = int c" "itemSize l = int z" "0 < z" "c * z \<le> length (itemList l)"
    "length (list_items l) = c" "list_items l = chunks z c (itemList l)"
proof -
  have c: "numItems l = int (nat (numItems l))" and z: "itemSize l = int z" "0 < z"
    using assms by (simp_all add: wf_list_def)
  show thesis
    using that [of "nat (numItems l)"] wf_list_fits [of "int z" l] assms c z
    by (simp add: list_items_def wf_list_def)
qed

lemma ListGetItems_eq:
  assumes wf: "wf_list (int z) l" and pos: "0 < pos" "pos - 1 + int n \<le> numItems l"
  shows "ListGetItems l pos (int n) = Some (concat (take n (drop (nat (pos - 1)) (list_items l))))"
proof -
  obtain c where c: "numItems l = int c" "itemSize l = int z" "0 < z" "c * z \<le> length (itemList l)"
    "list_items l = chunks z c (itemList l)" using wf by (rule wf_listE)
  define i where "i = nat (pos - 1)"
  have i: "pos = int i + 1" "i + n \<le> c" using pos c by (simp_all add: i_def)
  then obtain r where r: "c = i + n + r" using le_Suc_ex by blast
  have len: "i * z + n * z \<le> length (itemList l)" using c(4) r by (simp add: algebra_simps)
  have "ListGetItems l pos (int n) = bytes_at l (int (i * z)) (int (n * z))"
    using i(1) c by (simp add: ListGetItems_def ITEMPTR_def LIST_START_def LIST_END_def algebra_simps)
  also have "\<dots> = Some (take (n * z) (drop (i * z) (itemList l)))"
    using len by (rule bytes_at_nat)
  also have "take (n * z) (drop (i * z) (itemList l)) = concat (chunks z n (drop (i * z) (itemList l)))"
    using len by (intro concat_chunks [symmetric]) simp
  also have "chunks z n (drop (i * z) (itemList l)) = take n (drop i (list_items l))"
    unfolding c(5) r by (simp add: chunks_add)
  finally show ?thesis by (simp add: i_def)
qed

lemma ListGetItem_eq:
  assumes "wf_list (int z) l" "0 < pos" "pos \<le> numItems l"
  shows "ListGetItem l pos = Some (list_items l ! nat (pos - 1))"
proof -
  have "nat (pos - 1) < length (list_items l)"
    using assms length_list_items [of l] by (simp add: wf_list_def)
  then have "take 1 (drop (nat (pos - 1)) (list_items l)) = [list_items l ! nat (pos - 1)]"
    by (simp add: take_Suc_conv_app_nth [of 0, simplified] hd_drop_conv_nth take_Suc)
  then show ?thesis
    using ListGetItems_eq [OF assms(1,2), of 1] assms(3) by (simp add: ListGetItem_def)
qed

lemma bytes_at_item:
  assumes wf: "wf_list (int z) l" and i: "i < length (list_items l)"
  shows "bytes_at l (ITEMPTR l (int i)) (itemSize l) = Some (list_items l ! i)"
proof -
  have "ListGetItem l (int i + 1) = bytes_at l (ITEMPTR l (int i)) (itemSize l)"
    by (simp add: ListGetItem_def ListGetItems_def LIST_START_def LIST_END_def)
  moreover have "int i + 1 \<le> numItems l"
    using i length_list_items [of l] wf by (simp add: wf_list_def)
  ultimately show ?thesis using ListGetItem_eq [OF wf, of "int i + 1"] by simp
qed

lemma ListRemoveItems_ok:
  assumes wf: "wf_list (int z) l" and pos: "0 < pos" "pos - 1 + int n \<le> numItems l"
  shows "\<exists>l'. ListRemoveItems l True pos (int n) =
      Some (concat (take n (drop (nat (pos - 1)) (list_items l))), l') \<and>
    ListRemoveItems l False pos (int n) = Some ([], l') \<and> wf_list (int z) l' \<and>
    list_items l' = take (nat (pos - 1)) (list_items l) @ drop (nat (pos - 1) + n) (list_items l)"
proof -
  obtain c where c: "numItems l = int c" "itemSize l = int z" "0 < z" "c * z \<le> length (itemList l)"
    "list_items l = chunks z c (itemList l)" using wf by (rule wf_listE)
  define i where "i = nat (pos - 1)"
  have i: "pos = int i + 1" "i + n \<le> c" using pos c by (simp_all add: i_def)
  then obtain r where r: "c = i + n + r" using le_Suc_ex by blast
  let ?m = "itemList l"
  let ?m' = "take (i * z) ?m @ take (r * z) (drop ((i + n) * z) ?m) @ drop (i * z + r * z) ?m"
  have len: "(i + n) * z + r * z \<le> length ?m" using c(4) r by (simp add: algebra_simps)
  have out: "bytes_at l (ITEMPTR l (pos - 1)) (itemSize l * int n) =
      Some (concat (take n (drop i (list_items l))))"
    using ListGetItems_eq [OF wf pos] pos
    by (simp add: ListGetItems_def i_def LIST_START_def LIST_END_def)
  have "memmove ?m (i * z) ((i + n) * z) (r * z) = Some ?m'"
    using len by (intro memmove_eq) (simp_all add: algebra_simps)
  then have "move_in l (int (i * z)) (int ((i + n) * z)) (int (r * z)) = Some (l\<lparr>itemList := ?m'\<rparr>)"
    by (simp only: move_in_nat option.map)
  moreover have "ITEMPTR l (pos - 1) = int (i * z)" "ITEMPTR l (pos + int n - 1) = int ((i + n) * z)"
      "itemSize l * (numItems l - (pos + int n - 1)) = int (r * z)"
    unfolding ITEMPTR_def c i(1) r by (simp_all add: algebra_simps)
  ultimately have mv: "move_in l (ITEMPTR l (pos - 1)) (ITEMPTR l (pos + int n - 1))
      (itemSize l * (numItems l - (pos + int n - 1))) = Some (l\<lparr>itemList := ?m'\<rparr>)"
    by (simp only:)
  have move: "(pos + int n - 1 < numItems l) = (r \<noteq> 0)" using c(1) i r by simp
  have start: "pos \<noteq> LIST_START" "pos \<noteq> LIST_END" using pos by (simp_all add: LIST_START_def LIST_END_def)
  define l' where "l' = (if r = 0 then l else l\<lparr>itemList := ?m'\<rparr>)\<lparr>numItems := numItems l - int n\<rparr>"
  have rem: "ListRemoveItems l b pos (int n) =
      map_option (\<lambda>out. (out, l')) (if b then Some (concat (take n (drop i (list_items l)))) else Some [])" for b
    using mv out start unfolding ListRemoveItems_def Let_def l'_def
    by (cases "r = 0") (simp_all add: move)
  have num: "numItems l' = int (i + r)" using c(1) r by (simp add: l'_def)
  have il: "itemList l' = (if r = 0 then ?m else ?m')" by (simp add: l'_def)
  have parts: "chunks z (i + n + r) ?m =
      chunks z i ?m @ chunks z n (drop (i * z) ?m) @ chunks z r (drop ((i + n) * z) ?m)"
    by (simp only: chunks_add append_assoc)
  have "list_items l' = chunks z (i + r) (itemList l')"
    unfolding list_items_def num by (simp add: l'_def c flip: of_nat_add)
  also have "chunks z (i + r) (itemList l') = chunks z (i + r) ?m'"
    using il by (auto intro!: chunks_prefix)
  also have "\<dots> = chunks z i (take (i * z) ?m) @ chunks z r (take (r * z) (drop ((i + n) * z) ?m))"
    using len by (subst chunks_append) (simp_all add: algebra_simps chunks_append_left)
  also have "\<dots> = take i (list_items l) @ drop (i + n) (list_items l)"
    using parts by (simp add: chunks_take c(5) r)
  finally have li: "list_items l' = take i (list_items l) @ drop (i + n) (list_items l)" .
  have "length (itemList l') = length ?m" using il len by (simp add: algebra_simps)
  then have "wf_list (int z) l'"
    using wf num c(1) r by (simp add: wf_list_def l'_def)
  then show ?thesis using rem [of True] rem [of False] li by (simp add: i_def)
qed


section \<open>Searching\<close>

text \<open>
  The array seen from the searched item: \<open>c i\<close> is the comparison with the item at \<open>i\<close>, and the
  array is in ascending order as far as the item can tell.
\<close>

definition ascending_for :: "(int \<Rightarrow> int) \<Rightarrow> int \<Rightarrow> bool" where
  "ascending_for c n \<longleftrightarrow>
     (\<forall>i j. 0 \<le> i \<and> i < j \<and> j < n \<longrightarrow> (c i \<le> 0 \<longrightarrow> c j < 0) \<and> (c j \<ge> 0 \<longrightarrow> c i > 0))"

lemma BinSearch_loop_correct:
  "\<lbrakk>\<And>i. 0 \<le> i \<Longrightarrow> i < n \<Longrightarrow> \<exists>x. array i = Some x \<and> cmpf item x = Some (c i); ascending_for c n;
    0 \<le> low; high < n; low \<le> high + 1;
          \<forall>i. 0 \<le> i \<and> i < low \<longrightarrow> c i > 0; \<forall>i. high < i \<and> i < n \<longrightarrow> c i < 0;
          low \<le> high \<or> low = (if cmp > 0 then mid + 1 else mid)\<rbrakk> \<Longrightarrow>
    \<exists>r. BinSearch_loop array cmpf item low high mid cmp = Some r \<and>
      (if 0 \<le> r then r < n \<and> c r = 0
       else (\<forall>i. 0 \<le> i \<and> i < - r - 1 \<longrightarrow> c i > 0) \<and> (\<forall>i. - r - 1 \<le> i \<and> i < n \<longrightarrow> c i < 0))"
proof (induction array cmpf item low high mid cmp rule: BinSearch_loop.induct)
  case (1 array cmpf item low high mid cmp)
  show ?case
  proof (cases "low \<le> high")
    case False
    with "1.prems" show ?thesis by (auto simp: BinSearch_loop.simps split: if_splits)
  next
    case True
    note cmpf = "1.prems"(1) and asc = "1.prems"(2)
    define m where "m = (low + high) div 2"
    have m: "low \<le> m" "m \<le> high" "0 \<le> m" "m < n" using True "1.prems" by (auto simp: m_def)
    obtain x where x: "array m = Some x" "cmpf item x = Some (c m)" using cmpf [OF m(3,4)] by blast
    note step = BinSearch_loop.simps [of array cmpf item low high mid cmp]
    have eq2: "BinSearch_loop array cmpf item low high mid cmp =
        BinSearch_loop array cmpf item low (m - 1) m (c m)" if "c m < 0"
      using step True x that by (simp add: m_def [symmetric])
    have eq3: "BinSearch_loop array cmpf item low high mid cmp =
        BinSearch_loop array cmpf item (m + 1) high m (c m)" if "c m > 0"
      using step True x that by (simp add: m_def [symmetric])
    consider "c m = 0" | "c m < 0" | "c m > 0" by linarith
    then show ?thesis
    proof cases
      case 1
      then show ?thesis using step True m x by (simp add: m_def [symmetric])
    next
      case 2
      have below: "c i < 0" if "m - 1 < i \<and> i < n" for i
        using 2 asc [unfolded ascending_for_def, rule_format, of m i] m that by (cases "i = m") auto
      show ?thesis
        unfolding eq2 [OF 2]
        by (rule "1.IH"(1) [OF True m_def x(1) x(2) _ 2 cmpf asc "1.prems"(3)])
          (use 2 m "1.prems"(4) in simp, assumption, assumption, use m "1.prems"(4) in linarith,
            use m in linarith, rule "1.prems"(6), use below in blast, use 2 m in auto)
    next
      case 3
      have below: "c i > 0" if "0 \<le> i \<and> i < m + 1" for i
        using 3 asc [unfolded ascending_for_def, rule_format, of i m] m that by (cases "i = m") auto
      show ?thesis
        unfolding eq3 [OF 3]
        by (rule "1.IH"(2) [OF True m_def x(1) x(2) _ _ cmpf asc])
          (use 3 in simp, use 3 in simp, assumption, assumption, use m in linarith, rule "1.prems"(4),
            use m in linarith, use below in blast, rule "1.prems"(7), use 3 in simp)
    qed
  qed
qed

lemma ListFindItem_loop_correct:
  assumes item: "\<And>i. i < length (list_items l) \<Longrightarrow> cmpf item (list_items l ! i) = Some (c i)"
    and wf: "wf_list (int z) l"
  shows "0 < index \<Longrightarrow> \<exists>r. ListFindItem_loop l item cmpf index = Some r \<and>
    (if r = 0 then \<forall>i. nat (index - 1) \<le> i \<and> i < length (list_items l) \<longrightarrow> c i \<noteq> 0
     else index \<le> r \<and> r \<le> numItems l \<and> c (nat (r - 1)) = 0 \<and>
       (\<forall>i. nat (index - 1) \<le> i \<and> i < nat (r - 1) \<longrightarrow> c i \<noteq> 0))"
proof (induction "nat (numItems l + 1 - index)" arbitrary: index rule: less_induct)
  case less
  note step = ListFindItem_loop.simps [of l item cmpf index]
  show ?case
  proof (cases "index \<le> numItems l")
    case False
    then show ?thesis using step less.prems by (auto simp: list_items_def)
  next
    case True
    define j where "j = nat (index - 1)"
    have j: "index = int j + 1" "j < length (list_items l)"
      using True less.prems by (auto simp: j_def list_items_def)
    have cmp: "cmpf item (list_items l ! j) = Some (c j)" using item j(2) .
    have get: "bytes_at l (ITEMPTR l (index - 1)) (itemSize l) = Some (list_items l ! j)"
      using bytes_at_item [OF wf j(2)] j(1) by simp
    show ?thesis
    proof (cases "c j = 0")
      case True
      then show ?thesis using step get cmp j \<open>index \<le> numItems l\<close> by simp
    next
      case False
      have "nat (numItems l + 1 - (index + 1)) < nat (numItems l + 1 - index)" using True by simp
      note ih = less.hyps [OF this]
      have nx: "nat (index + 1 - 1) = Suc j" using j by simp
      from ih [unfolded nx] less.prems obtain r where
        r: "ListFindItem_loop l item cmpf (index + 1) = Some r"
          "if r = 0 then \<forall>i. Suc j \<le> i \<and> i < length (list_items l) \<longrightarrow> c i \<noteq> 0
           else index + 1 \<le> r \<and> r \<le> numItems l \<and> c (nat (r - 1)) = 0 \<and>
             (\<forall>i. Suc j \<le> i \<and> i < nat (r - 1) \<longrightarrow> c i \<noteq> 0)"
        by auto
      have "ListFindItem_loop l item cmpf index = Some r"
        using step get cmp False True r(1) by simp
      moreover have "(\<forall>i. Suc j \<le> i \<and> i < b \<longrightarrow> c i \<noteq> 0) = (\<forall>i. j \<le> i \<and> i < b \<longrightarrow> c i \<noteq> 0)" for b
        using False by (metis Suc_leI Suc_leD le_neq_implies_less)
      ultimately show ?thesis using r(2) unfolding j_def [symmetric] by (auto split: if_splits)
    qed
  qed
qed

section \<open>The sequence interface\<close>

text \<open>
  What the users of the module rely on (\<open>console.c\<close> and \<open>devices.c\<close> append at the end, read
  by position and remove by position): the list is the sequence of its items.
\<close>

locale item_sequence =
  fixes wf :: "'l \<Rightarrow> bool"
    and items :: "'l \<Rightarrow> buf list"
    and append_item :: "'l \<Rightarrow> buf \<Rightarrow> (bool \<times> 'l) option"
    and get_item :: "'l \<Rightarrow> int \<Rightarrow> buf option"
    and remove_item :: "'l \<Rightarrow> int \<Rightarrow> (buf \<times> 'l) option"
    and num_items :: "'l \<Rightarrow> int"
    and item_ok :: "buf \<Rightarrow> bool"
  assumes num: "wf l \<Longrightarrow> num_items l = int (length (items l))"
    and append_laws: "\<lbrakk>wf l; item_ok x\<rbrakk> \<Longrightarrow> append_item l x = Some (False, l) \<or>
      (\<exists>l'. append_item l x = Some (True, l') \<and> wf l' \<and> items l' = items l @ [x])"
    and get: "\<lbrakk>wf l; 0 < i; i \<le> num_items l\<rbrakk> \<Longrightarrow> get_item l i = Some (items l ! nat (i - 1))"
    and remove_laws: "\<lbrakk>wf l; 0 < i; i \<le> num_items l\<rbrakk> \<Longrightarrow> \<exists>l' out. remove_item l i = Some (out, l') \<and>
      wf l' \<and> items l' = take (nat (i - 1)) (items l) @ drop (nat i) (items l)"
begin

lemma appended:
  "\<lbrakk>wf l; item_ok x; append_item l x = Some (True, l')\<rbrakk> \<Longrightarrow> wf l' \<and> items l' = items l @ [x]"
  using append_laws [of l x] by auto

lemma append_fails_unchanged:
  "\<lbrakk>wf l; item_ok x; append_item l x = Some (False, l')\<rbrakk> \<Longrightarrow> l' = l"
  using append_laws [of l x] by auto

lemma append_returns: "\<lbrakk>wf l; item_ok x\<rbrakk> \<Longrightarrow> append_item l x \<noteq> None"
  using append_laws [of l x] by auto

text \<open>An appended item is the last one, and the earlier ones keep their positions.\<close>

lemma get_appended:
  assumes "wf l" "item_ok x" "append_item l x = Some (True, l')"
  shows "get_item l' (num_items l') = Some x"
    and "\<lbrakk>0 < i; i \<le> num_items l\<rbrakk> \<Longrightarrow> get_item l' i = get_item l i"
proof -
  from appended [OF assms] have l': "wf l'" "items l' = items l @ [x]" by simp_all
  show "get_item l' (num_items l') = Some x" using get [OF l'(1)] num [OF l'(1)] l'(2) by simp
  show "get_item l' i = get_item l i" if "0 < i" "i \<le> num_items l"
  proof -
    have "nat (i - 1) < length (items l)" using that num [OF assms(1)] by simp
    then show ?thesis
      using get [OF l'(1) that(1)] get [OF assms(1) that] that num [OF l'(1)] num [OF assms(1)] l'(2)
      by (simp add: nth_append)
  qed
qed

lemma removed:
  assumes "wf l" "0 < i" "i \<le> num_items l" "remove_item l i = Some (out, l')"
  shows "wf l'" "items l' = take (nat (i - 1)) (items l) @ drop (nat i) (items l)"
    "num_items l' = num_items l - 1"
proof -
  from remove_laws [OF assms(1-3)] assms(4) show "wf l'"
    and it: "items l' = take (nat (i - 1)) (items l) @ drop (nat i) (items l)" by auto
  then show "num_items l' = num_items l - 1"
    using num [OF \<open>wf l'\<close>] num [OF assms(1)] assms(2,3) by simp
qed

end

lemma ListInsertItem_end:
  assumes wf: "wf_list (int z) l" and x: "length x = z"
  shows "ListInsertItem alloc l (Some x) LIST_END = Some (False, l) \<or>
    (\<exists>l'. ListInsertItem alloc l (Some x) LIST_END = Some (True, l') \<and> wf_list (int z) l' \<and>
       list_items l' = list_items l @ [x])"
proof -
  have "numItems l + int 1 \<le> listSize l \<or> listSize l \<le> numItems l" by auto
  from ListInsertItems_room [OF wf _ _ this, of x LIST_END alloc] x wf show ?thesis
    by (simp add: ListInsertItem_def insert_index_def LIST_END_def length_list_items [symmetric]
        list_items_def [symmetric] wf_list_def)
qed

text \<open>The model of \<open>common/lists.c\<close> provides the interface, for items of any size \<open>z\<close>.\<close>

interpretation lists: item_sequence
  "wf_list (int z)" list_items
  "\<lambda>l x. ListInsertItem alloc l (Some x) LIST_END" ListGetItem "\<lambda>l. ListRemoveItem l False" ListNumItems
  "\<lambda>x. length x = z" for z alloc
proof
  fix l x i
  assume wf: "wf_list (int z) l"
  show num: "ListNumItems l = int (length (list_items l))"
    using wf by (simp add: ListNumItems_def length_list_items wf_list_def)
  show "length x = z \<Longrightarrow> ListInsertItem alloc l (Some x) LIST_END = Some (False, l) \<or>
      (\<exists>l'. ListInsertItem alloc l (Some x) LIST_END = Some (True, l') \<and> wf_list (int z) l' \<and>
         list_items l' = list_items l @ [x])"
    using wf by (rule ListInsertItem_end)
  assume i: "0 < i" "i \<le> ListNumItems l"
  then show "ListGetItem l i = Some (list_items l ! nat (i - 1))"
    using wf by (simp add: ListGetItem_eq ListNumItems_def)
  have "nat (i - 1) + 1 = nat i" using i by simp
  with ListRemoveItems_ok [OF wf i(1), of 1] i(2)
  show "\<exists>l' out. ListRemoveItem l False i = Some (out, l') \<and> wf_list (int z) l' \<and>
      list_items l' = take (nat (i - 1)) (list_items l) @ drop (nat i) (list_items l)"
    by (auto simp: ListRemoveItem_def ListNumItems_def)
qed


section \<open>Properties\<close>


definition sample_list :: list_struct where
  "sample_list = \<lparr>percentIncrease = 10, minNumItemsIncrease = 4, listSize = 2, itemSize = 2,
     numItems = 2, itemList = ''abcd____''\<rparr>"

lemma sample_list_wf: "wf_list (int 2) sample_list"
  by (simp add: wf_list_def sample_list_def)

lemma sample_list_items: "list_items sample_list = [''ab'', ''cd'']"
  by (simp add: list_items_def sample_list_def eval_nat_numeral)


text \<open>
  C16: the test that grows the block looks only at whether the list is full
  (\<open>numItems >= listSize\<close>), not at how many items are to be inserted: appending more items to a
  list with some free slots, but not enough of them, writes past the end of the block as soon as
  the items exceed the slots by more than the four bytes of padding of the header.
\<close>

theorem ListInsertItems_overflow:
  assumes "wf_list (int z) l" "length src = n * z" "numItems l < listSize l"
    and "listSize l * int z + 4 < (numItems l + int n) * int z"
  shows "ListInsertItems alloc l (Some src) LIST_END (int n) = None"
proof -
  obtain c where c: "numItems l = int c" "itemSize l = int z" "0 < z"
    using assms(1) by (rule wf_listE)
  have "int c * int z < listSize l * int z" using assms(3) c by simp
  with assms(4) c have n: "0 < n" by (cases n) simp_all
  have "int (length (itemList l)) = listSize l * int z + 4" using assms(1) by (simp add: wf_list_def)
  then have "int (length (itemList l)) < int (c * z + n * z)"
    using assms(4) c by (simp add: algebra_simps)
  then have "length (itemList l) < c * z + n * z" by (simp only: of_nat_less_iff)
  then have "copy_in (itemList l) (c * z) src (n * z) = None"
    using n c(3) by (intro copy_in_None) auto
  then have "copy_to l (ITEMPTR l (numItems l)) src (itemSize l * int n) = None"
    using c n copy_to_nat [of l "c * z" src "n * z"] by (simp add: ITEMPTR_def mult.commute)
  then show ?thesis
    using assms(3) c by (simp add: ListInsertItems_def LIST_END_def LIST_START_def)
qed


definition room_list :: list_struct where
  "room_list = \<lparr>percentIncrease = 10, minNumItemsIncrease = 4, listSize = 4, itemSize = 4,
     numItems = 3, itemList = ''aaaabbbbccccdddd____''\<rparr>"

theorem ListInsertItems_overflow_witness:
  "ListInsertItems (\<lambda>_. True) room_list (Some ''111122223333'') LIST_END 3 = None"
  using ListInsertItems_overflow [of 4 room_list "''111122223333''" 3 "\<lambda>_. True"]
  by (simp add: room_list_def wf_list_def)

text \<open>
  \<open>ListBinSearch\<close> on a list in ascending order (for the searched item and the comparison
  function) returns the position of an equal item, or 0 exactly when the list has none; it
  always returns, and reads inside the block only.
\<close>

theorem ListBinSearch_correct:
  assumes wf: "wf_list (int z) l"
    and cmp: "\<And>i. i < length (list_items l) \<Longrightarrow> compare_with f (int z) item (list_items l ! i) = Some (c (int i))"
    and asc: "ascending_for c (int (length (list_items l)))"
  shows "\<exists>r. ListBinSearch l item f = Some r \<and>
    (if r = 0 then \<forall>i < length (list_items l). c (int i) \<noteq> 0
     else 0 < r \<and> r \<le> numItems l \<and> c (r - 1) = 0)"
proof -
  let ?n = "numItems l" let ?a = "\<lambda>i. bytes_at l (ITEMPTR l i) (itemSize l)"
  have n: "?n = int (length (list_items l))" and z: "itemSize l = int z" and n0: "0 \<le> ?n"
    using wf by (simp_all add: wf_list_def length_list_items)
  have get: "\<exists>x. ?a i = Some x \<and> compare_with f (itemSize l) item x = Some (c i)"
    if "0 \<le> i" "i < ?n" for i
    using bytes_at_item [OF wf, of "nat i"] cmp [of "nat i"] that n z by simp
  have "\<exists>r. BinSearch ?a ?n (compare_with f (itemSize l)) item = Some r \<and>
      (if 0 \<le> r then r < ?n \<and> c r = 0
       else (\<forall>i. 0 \<le> i \<and> i < - r - 1 \<longrightarrow> c i > 0) \<and> (\<forall>i. - r - 1 \<le> i \<and> i < ?n \<longrightarrow> c i < 0))"
    unfolding BinSearch_def
    by (rule BinSearch_loop_correct) (use get asc n n0 in auto)
  then obtain r where r: "BinSearch ?a ?n (compare_with f (itemSize l)) item = Some r"
    and res: "if 0 \<le> r then r < ?n \<and> c r = 0
       else (\<forall>i. 0 \<le> i \<and> i < - r - 1 \<longrightarrow> c i > 0) \<and> (\<forall>i. - r - 1 \<le> i \<and> i < ?n \<longrightarrow> c i < 0)"
    by blast
  show ?thesis
  proof (cases "0 \<le> r")
    case True
    then show ?thesis using r res by (intro exI [of _ "r + 1"]) (simp add: ListBinSearch_def)
  next
    case False
    have "c (int i) \<noteq> 0" if "i < length (list_items l)" for i
    proof (cases "int i < - r - 1")
      case True
      then have "c (int i) > 0" using res False by simp
      then show ?thesis by simp
    next
      case below: False
      then have "c (int i) < 0" using res False that n by simp
      then show ?thesis by simp
    qed
    then show ?thesis using r False by (intro exI [of _ 0]) (simp add: ListBinSearch_def)
  qed
qed

lemma room_list_items: "list_items room_list = [''aaaa'', ''bbbb'', ''cccc'']"
  by (simp add: list_items_def room_list_def eval_nat_numeral)

theorem ListBinSearch_correct_witness:
  "\<exists>r. ListBinSearch room_list ''cccc'' None = Some r \<and>
    (if r = 0 then \<forall>i < length (list_items room_list). 2 - int i \<noteq> 0
     else 0 < r \<and> r \<le> numItems room_list \<and> 2 - (r - 1) = 0)"
proof -
  have wf: "wf_list (int 4) room_list" by (simp add: wf_list_def room_list_def)
  have cmp: "compare_with None (int 4) ''cccc'' (list_items room_list ! i) = Some ((\<lambda>i. 2 - i) (int i))"
    if "i < length (list_items room_list)" for i
  proof -
    have "i = 0 \<or> i = 1 \<or> i = 2" using that by (auto simp: room_list_items)
    then show ?thesis
      by (elim disjE) (simp_all add: room_list_items compare_with_def ListMemBlockCmp_def eval_nat_numeral)
  qed
  have asc: "ascending_for (\<lambda>i. 2 - i) (int (length (list_items room_list)))"
    by (auto simp: room_list_items ascending_for_def)
  show ?thesis
    using ListBinSearch_correct [where f = None, OF wf cmp asc]
    by simp
qed

end
