(* ===== verification/Bytes.thy ===== *)
theory Bytes
  imports Prelude
begin

unbundle bit_operations_syntax

text \<open>
  Integers in memory and on the wire: the bytes of 16- and 32-bit words in little-endian order
  (the ARM target) and in big-endian order (\<open>htons\<close>, \<open>htonl\<close> and the image headers), with
  their inverses.
\<close>

definition le32 :: "u32 \<Rightarrow> buf" where
  "le32 w = map char_of [unat w, unat w div 256, unat w div 65536, unat w div 16777216]"

definition be32 :: "u32 \<Rightarrow> buf" where
  "be32 w = map char_of [unat w div 16777216, unat w div 65536, unat w div 256, unat w]"

definition be16 :: "u16 \<Rightarrow> buf" where
  "be16 w = [char_of (unat w div 256), char_of (unat w mod 256)]"

definition le16 :: "u16 \<Rightarrow> buf" where
  "le16 w = [char_of (unat w mod 256), char_of (unat w div 256)]"

fun rd_le32 :: "buf \<Rightarrow> u32 option" where
  "rd_le32 (a # b # c # d # _) =
     Some (of_nat (code a + 256 * code b + 65536 * code c + 16777216 * code d))"
| "rd_le32 _ = None"

fun rd_be32 :: "buf \<Rightarrow> u32 option" where
  "rd_be32 (a # b # c # d # _) =
     Some (of_nat (code d + 256 * code c + 65536 * code b + 16777216 * code a))"
| "rd_be32 _ = None"

fun rd_be16 :: "buf \<Rightarrow> u16 option" where
  "rd_be16 (a # b # _) = Some (of_nat (code b + 256 * code a))"
| "rd_be16 _ = None"

fun rd_le16 :: "buf \<Rightarrow> u16 option" where
  "rd_le16 (a # b # _) = Some (of_nat (code a + 256 * code b))"
| "rd_le16 _ = None"

lemma length_le32 [simp]: "length (le32 w) = 4"
  by (simp add: le32_def)

lemma length_be32 [simp]: "length (be32 w) = 4"
  by (simp add: be32_def)

lemma length_be16 [simp]: "length (be16 w) = 2"
  by (simp add: be16_def)

lemma length_le16 [simp]: "length (le16 w) = 2"
  by (simp add: le16_def)

lemma base256: fixes n :: nat shows "n < 4294967296 \<Longrightarrow>
    n mod 256 + 256 * (n div 256 mod 256) + 65536 * (n div 65536 mod 256) +
      16777216 * (n div 16777216 mod 256) = n"
proof -
  assume n: "n < 4294967296"
  have 1: "n = n mod 256 + 256 * (n div 256)" by simp
  have 2: "n div 256 = n div 256 mod 256 + 256 * (n div 65536)"
    using div_mult2_eq [of n 256 256] by simp
  have 3: "n div 65536 = n div 65536 mod 256 + 256 * (n div 16777216)"
    using div_mult2_eq [of n 65536 256] by simp
  have 4: "n div 16777216 mod 256 = n div 16777216" using n by simp
  show ?thesis using 1 2 3 4 by linarith
qed

lemma code_char_of: "code (char_of (n :: nat)) = n mod 256"
  by (simp add: of_char_of)

lemma unat_u32_less: "unat (w :: u32) < 4294967296"
  using unsigned_less [of w] by simp

lemma rd_le32_le32 [simp]: "rd_le32 (le32 w @ xs) = Some w"
  unfolding le32_def list.map append_Cons rd_le32.simps code_char_of base256 [OF unat_u32_less]
  by simp

lemma rd_be32_be32 [simp]: "rd_be32 (be32 w @ xs) = Some w"
  unfolding be32_def list.map append_Cons rd_be32.simps code_char_of base256 [OF unat_u32_less]
  by simp

lemma unat_u16_less: "unat (w :: u16) < 65536"
  using unsigned_less [of w] by simp

lemma rd_be16_be16 [simp]: "rd_be16 (be16 w @ xs) = Some w"
  using unat_u16_less [of w]
  by (simp add: be16_def of_char_of del: of_nat_add of_nat_mult)

lemma rd_le16_le16 [simp]: "rd_le16 (le16 w @ xs) = Some w"
  using unat_u16_less [of w]
  by (simp add: le16_def of_char_of del: of_nat_add of_nat_mult)


text \<open>\<open>htonl\<close> and \<open>htons\<close> of the little-endian target swap the bytes.\<close>

definition htonl :: "u32 \<Rightarrow> u32" where
  "htonl w = push_bit 24 w OR push_bit 8 (w AND 0xff00) OR (drop_bit 8 w AND 0xff00) OR drop_bit 24 w"

definition htons :: "u16 \<Rightarrow> u16" where
  "htons w = push_bit 8 w OR drop_bit 8 w"

end
