(* ===== verification/Timer.thy ===== *)
theory Timer
  imports Prelude
begin

text \<open>
  The timer of the ARM926 processor files (\<open>cpu/arm926ejs/interrupts.c\<close>): the accumulated time
  stamp, and the delays that wait for it.  The port replaced the read of the hardware counter by
  the constant 0, so the time stamp is what \<open>lastdec\<close> and \<open>timestamp\<close> make of that constant.
  A delay is \<open>None\<close> when its loop never ends.
\<close>

section \<open>The time stamp\<close>

record timer =
  timestamp :: u32
  lastdec :: u32

definition TIMER_LOAD_VAL :: u32 where "TIMER_LOAD_VAL = 0x00ffffff"

text \<open>\<open>CONFIG_SYS_CLK_FREQ / (2 << CFG_PVT)\<close>.\<close>

definition CFG_HZ :: u32 where "CFG_HZ = 24000000 div push_bit 10 2"

text \<open>\<open>ulong now = 0; /*READ_TIMER;*/\<close>\<close>

definition timer_now :: u32 where "timer_now = 0"

definition get_timer_masked :: "'a timer_scheme \<Rightarrow> u32 \<times> 'a timer_scheme" where
  "get_timer_masked st =
     (let st = (if timer_now \<le> lastdec st
                then st\<lparr>timestamp := timestamp st + (lastdec st - timer_now)\<rparr>
                else st\<lparr>timestamp := timestamp st + (lastdec st + TIMER_LOAD_VAL - timer_now)\<rparr>);
          st = st\<lparr>lastdec := timer_now\<rparr>
      in (timestamp st, st))"

text \<open>The body of \<open>reset_timer_masked\<close> is commented out.\<close>

definition reset_timer_masked :: "'a timer_scheme \<Rightarrow> 'a timer_scheme" where
  "reset_timer_masked st = st"

definition reset_timer :: "'a timer_scheme \<Rightarrow> 'a timer_scheme" where
  "reset_timer st = reset_timer_masked st"

definition interrupt_init :: "'a timer_scheme \<Rightarrow> int \<times> 'a timer_scheme" where
  "interrupt_init st = (0, reset_timer_masked st)"

definition get_timer :: "u32 \<Rightarrow> 'a timer_scheme \<Rightarrow> u32 \<times> 'a timer_scheme" where
  "get_timer base st = (let (t, st) = get_timer_masked st in (t - base, st))"

definition set_timer :: "u32 \<Rightarrow> 'a timer_scheme \<Rightarrow> 'a timer_scheme" where
  "set_timer t st = st\<lparr>timestamp := t\<rparr>"

section \<open>Delays\<close>

text \<open>\<open>while (get_timer_masked () < tmo)\<close>\<close>

partial_function (option) wait_until :: "u32 \<Rightarrow> 'a timer_scheme \<Rightarrow> 'a timer_scheme option" where
  "wait_until tmo st =
     (let (t, st) = get_timer_masked st in if t < tmo then wait_until tmo st else Some st)"

text \<open>The number of ticks of a delay: large delays are converted to seconds first.\<close>

definition delay_ticks :: "u32 \<Rightarrow> u32" where
  "delay_ticks usec =
     (if 1000 \<le> usec then usec div 1000 * CFG_HZ div 1000
      else usec * CFG_HZ div (1000 * 1000))"

definition udelay :: "u32 \<Rightarrow> 'a timer_scheme \<Rightarrow> 'a timer_scheme option" where
  "udelay usec st =
     (let tmo = delay_ticks usec;
          (tmp, st) = get_timer 0 st
      in if tmo + tmp + 1 < tmp then wait_until tmo (reset_timer_masked st)
         else wait_until (tmo + tmp) st)"

definition udelay_masked :: "u32 \<Rightarrow> 'a timer_scheme \<Rightarrow> 'a timer_scheme option" where
  "udelay_masked usec st = wait_until (delay_ticks usec) (reset_timer_masked st)"

definition get_ticks :: "'a timer_scheme \<Rightarrow> 64 word \<times> 'a timer_scheme" where
  "get_ticks st = (let (t, st) = get_timer 0 st in (ucast t, st))"

definition get_tbclk :: u32 where "get_tbclk = CFG_HZ"

section \<open>The time stands still\<close>

text \<open>\<open>lastdec\<close> is 0 after the start and after every read.\<close>

lemma CFG_HZ_value: "CFG_HZ = 11718"
  by (simp add: CFG_HZ_def)

lemma get_timer_masked_eq:
  "get_timer_masked st = (timestamp st + lastdec st, st\<lparr>timestamp := timestamp st + lastdec st, lastdec := 0\<rparr>)"
  by (simp add: get_timer_masked_def timer_now_def)

lemma timer_stopped: "lastdec st = 0 \<Longrightarrow> get_timer_masked st = (timestamp st, st)"
  by (cases st) (simp add: get_timer_masked_eq)

lemma get_timer_stopped: "lastdec st = 0 \<Longrightarrow> get_timer base st = (timestamp st - base, st)"
  by (simp add: get_timer_def timer_stopped)

lemma wait_until_ends:
  assumes "wait_until tmo st = Some st'" "lastdec st = 0"
  shows "tmo \<le> timestamp st \<and> st' = st"
proof -
  have "lastdec st = 0 \<longrightarrow> tmo \<le> timestamp st \<and> st' = st"
  proof (rule wait_until.raw_induct [OF _ assms(1)])
    fix rec tmo and st st' :: "'a timer_scheme"
    assume ih: "\<And>tmo st st'. rec tmo st = Some st' \<Longrightarrow> lastdec st = 0 \<longrightarrow> tmo \<le> timestamp st \<and> st' = st"
      and step: "(let (t, st) = get_timer_masked st in if t < tmo then rec tmo st else Some st) = Some st'"
    show "lastdec st = 0 \<longrightarrow> tmo \<le> timestamp st \<and> st' = st"
    proof
      assume z: "lastdec st = 0"
      have "(if timestamp st < tmo then rec tmo st else Some st) = Some st'"
        using step by (simp add: timer_stopped [OF z])
      then show "tmo \<le> timestamp st \<and> st' = st"
        using ih [of tmo st st'] z by (auto split: if_splits)
    qed
  qed
  then show ?thesis using assms(2) by blast
qed

lemma wait_until_stopped:
  assumes "lastdec st = 0"
  shows "wait_until tmo st = (if tmo \<le> timestamp st then Some st else None)"
proof (cases "tmo \<le> timestamp st")
  case True
  then show ?thesis by (subst wait_until.simps) (simp add: timer_stopped [OF assms] leD)
next
  case False
  then show ?thesis using wait_until_ends [OF _ assms, of tmo] by (cases "wait_until tmo st") auto
qed

lemma udelay_stopped:
  assumes "lastdec st = 0" "timestamp st = 0"
  shows "udelay usec st = (if delay_ticks usec = 0 then Some st else None)"
  using assms
  by (simp add: udelay_def get_timer_stopped reset_timer_masked_def wait_until_stopped Let_def)

lemma delay_10000: "delay_ticks 10000 = 117"
  by (simp add: delay_ticks_def CFG_HZ_value)

end
