(* ===== verification/Devices.thy ===== *)
theory Devices
  imports Lists Vsprintf Bytes Timer
begin

text \<open>
  The serial port (\<open>cpu/arm926ejs/serial.c\<close>) and the list of console devices
  (\<open>common/devices.c\<close>).  A \<open>device_t\<close> is a record and is stored in the list as its 44 bytes,
  so the list library runs on it as on any block of bytes.  A pointer to a device is its
  position in the list.
\<close>

section \<open>The state of the console\<close>

text \<open>
  The serial receiver is the sequence of answers to the polls of the UART: \<open>None\<close> is an empty
  FIFO, \<open>Some c\<close> a character that waits to be read.  After the end nothing arrives.
  The timer of the processor is part of the state.
  \<open>serial_tx\<close> holds the characters sent.
\<close>

record console = timer +
  serial_rx :: "char option list"
  serial_tx :: "char list"
  devlist :: "list_struct option"
  stdio_devices :: "int option list"
  jt_getc :: u32
  jt_tstc :: u32
  jt_putc :: u32
  jt_puts :: u32
  jt_printf :: u32
  gd_flags :: u32
  have_console :: bool
  ctrlc_disabled :: int
  ctrlc_was_pressed :: bool

section \<open>The serial port\<close>

text \<open>\<open>serial_getc\<close> does not wait: it returns 0 when the FIFO is empty.\<close>

definition serial_getc :: "'a console_scheme \<Rightarrow> char \<times> 'a console_scheme" where
  "serial_getc st =
     (case serial_rx st of
        [] \<Rightarrow> (NUL, st)
      | None # q \<Rightarrow> (NUL, st\<lparr>serial_rx := q\<rparr>)
      | Some c # q \<Rightarrow> (c, st\<lparr>serial_rx := q\<rparr>))"

definition serial_tstc :: "'a console_scheme \<Rightarrow> bool \<times> 'a console_scheme" where
  "serial_tstc st =
     (case serial_rx st of
        [] \<Rightarrow> (False, st)
      | None # q \<Rightarrow> (False, st\<lparr>serial_rx := q\<rparr>)
      | Some c # q \<Rightarrow> (True, st))"

definition serial_putc :: "char \<Rightarrow> 'a console_scheme \<Rightarrow> 'a console_scheme" where
  "serial_putc c st =
     st\<lparr>serial_tx := serial_tx st @ (if c = CHR 0x0A then [c, CHR 0x0D] else [c])\<rparr>"

text \<open>The characters put on the wire for a string.\<close>

definition on_wire :: "string \<Rightarrow> string" where
  "on_wire s = concat (map (\<lambda>c. if c = CHR 0x0A then [c, CHR 0x0D] else [c]) s)"

fun serial_puts :: "buf \<Rightarrow> 'a console_scheme \<Rightarrow> 'a console_scheme option" where
  "serial_puts [] st = None"
| "serial_puts (c # s) st = (if c = NUL then Some st else serial_puts s (serial_putc c st))"

lemma serial_puts_eq: "nonul s \<Longrightarrow>
    serial_puts (s @ NUL # r) st = Some (st\<lparr>serial_tx := serial_tx st @ on_wire s\<rparr>)"
  by (induction s arbitrary: st) (simp_all add: serial_putc_def on_wire_def)

lemma serial_puts_cstr [simp]: "nonul s \<Longrightarrow>
    serial_puts (cstr s) st = Some (st\<lparr>serial_tx := serial_tx st @ on_wire s\<rparr>)"
  by (simp add: cstr_def serial_puts_eq)

section \<open>Devices as bytes\<close>

record device_t =
  dev_flags :: u32
  dev_ext :: u32
  dev_name :: buf
  dev_start :: u32
  dev_stop :: u32
  dev_putc :: u32
  dev_puts :: u32
  dev_tstc :: u32
  dev_getc :: u32
  dev_priv :: u32

definition sizeof_device :: nat where "sizeof_device = 44"
definition DEV_FLAGS_INPUT :: u32 where "DEV_FLAGS_INPUT = 1"
definition DEV_FLAGS_OUTPUT :: u32 where "DEV_FLAGS_OUTPUT = 2"
definition DEV_FLAGS_SYSTEM :: u32 where "DEV_FLAGS_SYSTEM = 0x80000000"

definition encode_device :: "device_t \<Rightarrow> buf" where
  "encode_device d =
     le32 (dev_flags d) @ le32 (dev_ext d) @ dev_name d @ le32 (dev_start d) @ le32 (dev_stop d) @
     le32 (dev_putc d) @ le32 (dev_puts d) @ le32 (dev_tstc d) @ le32 (dev_getc d) @
     le32 (dev_priv d)"

definition decode_device :: "buf \<Rightarrow> device_t option" where
  "decode_device b =
     do { flags \<leftarrow> rd_le32 b; ext \<leftarrow> rd_le32 (drop 4 b);
          start \<leftarrow> rd_le32 (drop 16 b); stop \<leftarrow> rd_le32 (drop 20 b);
          putc \<leftarrow> rd_le32 (drop 24 b); puts \<leftarrow> rd_le32 (drop 28 b);
          tstc \<leftarrow> rd_le32 (drop 32 b); getc \<leftarrow> rd_le32 (drop 36 b); priv \<leftarrow> rd_le32 (drop 40 b);
          Some \<lparr>dev_flags = flags, dev_ext = ext, dev_name = take 8 (drop 8 b), dev_start = start,
                dev_stop = stop, dev_putc = putc, dev_puts = puts, dev_tstc = tstc,
                dev_getc = getc, dev_priv = priv\<rparr> }"

text \<open>A device as the drivers fill it in: the name is a string that fits its field.\<close>

definition wf_device :: "device_t \<Rightarrow> bool" where
  "wf_device d \<longleftrightarrow> length (dev_name d) = 8 \<and> str_at (dev_name d) \<noteq> None"

lemma decode_encode_device:
  assumes "length (dev_name d) = 8"
  shows "decode_device (encode_device d) = Some d"
  using assms rd_le32_le32 [of "dev_priv d" "[]"] by (simp add: decode_device_def encode_device_def)

lemma length_encode_device [simp]:
  "length (dev_name d) = 8 \<Longrightarrow> length (encode_device d) = sizeof_device"
  by (simp add: encode_device_def sizeof_device_def)

section \<open>The operations\<close>

text \<open>\<open>ListGetPtrToItem\<close> and a read of the device there.\<close>

definition device_at :: "list_struct \<Rightarrow> int \<Rightarrow> device_t option" where
  "device_at l i = do { b \<leftarrow> ListGetItem l i; decode_device b }"

text \<open>The pointer \<open>dev->name\<close>.\<close>

definition name_ptr :: "list_struct \<Rightarrow> int \<Rightarrow> buf" where
  "name_ptr l i = drop (nat (ListGetPtrToItem l i) + 8) (itemList l)"

text \<open>
  \<open>fputs\<close> and \<open>eputs\<close>: through the device assigned to the file.  A NULL entry and a function
  that is not one of the serial port are \<^const>\<open>None\<close>.
\<close>

definition stdin_file :: int where "stdin_file = 0"
definition stdout_file :: int where "stdout_file = 1"
definition stderr_file :: int where "stderr_file = 2"
definition MAX_FILES :: int where "MAX_FILES = 3"

text \<open>The addresses of the functions, from the linker map \<open>u-boot.map\<close> of the repository.\<close>

definition serial_getc_addr :: u32 where "serial_getc_addr = 0x2069356c"
definition serial_tstc_addr :: u32 where "serial_tstc_addr = 0x2069361c"
definition serial_putc_addr :: u32 where "serial_putc_addr = 0x206935e8"
definition serial_puts_addr :: u32 where "serial_puts_addr = 0x20693638"
definition printf_addr :: u32 where "printf_addr = 0x2068b36c"

definition file_device :: "int \<Rightarrow> 'a console_scheme \<Rightarrow> device_t option" where
  "file_device file st =
     (if file < 0 then None
      else do { slot \<leftarrow> load (stdio_devices st) (nat file);
                pos \<leftarrow> slot;
                l \<leftarrow> devlist st;
                device_at l pos })"

definition fputs :: "int \<Rightarrow> buf \<Rightarrow> 'a console_scheme \<Rightarrow> 'a console_scheme option" where
  "fputs file s st =
     (if file < MAX_FILES then
        do { d \<leftarrow> file_device file st;
             if dev_puts d = serial_puts_addr then serial_puts s st else None }
      else Some st)"

text \<open>The return value is always 0: an insertion that fails is not reported.\<close>

definition device_register ::
  "(int \<Rightarrow> bool) \<Rightarrow> device_t \<Rightarrow> 'a console_scheme \<Rightarrow> (int \<times> 'a console_scheme) option" where
  "device_register alloc dev st =
     do { l \<leftarrow> devlist st;
          (_, l) \<leftarrow> ListInsertItem alloc l (Some (encode_device dev)) LIST_END;
          Some (0, st\<lparr>devlist := Some l\<rparr>) }"

definition serial_device :: device_t where
  "serial_device =
     \<lparr>dev_flags = DEV_FLAGS_OUTPUT OR DEV_FLAGS_INPUT OR DEV_FLAGS_SYSTEM, dev_ext = 0,
      dev_name = cstr ''serial'' @ [NUL], dev_start = 0, dev_stop = 0,
      dev_putc = serial_putc_addr, dev_puts = serial_puts_addr,
      dev_tstc = serial_tstc_addr, dev_getc = serial_getc_addr, dev_priv = 0\<rparr>"

definition drv_system_init ::
  "(int \<Rightarrow> bool) \<Rightarrow> 'a console_scheme \<Rightarrow> 'a console_scheme option" where
  "drv_system_init alloc st =
     do { st \<leftarrow> serial_puts (cstr (''dev.puts -> serial'' @ [CHR 0x0A, CHR 0x0D])) st;
          (_, st) \<leftarrow> device_register alloc serial_device st;
          Some st }"

definition devices_init ::
  "(int \<Rightarrow> bool) \<Rightarrow> buf \<Rightarrow> 'a console_scheme \<Rightarrow> (int \<times> 'a console_scheme) option" where
  "devices_init alloc junk st =
     (let st = st\<lparr>devlist := ListCreate alloc junk (int sizeof_device)\<rparr>
      in if devlist st = None then
           do { st \<leftarrow> fputs stderr_file
                        (cstr (''Cannot initialize the list of devices!'' @ [CHR 0x0A])) st;
                Some (-1, st) }
         else
           do { st \<leftarrow> drv_system_init alloc st; Some (0, st) })"

definition devices_done :: "'a console_scheme \<Rightarrow> int \<times> 'a console_scheme" where
  "devices_done st = (0, st\<lparr>devlist := None\<rparr>)"

text \<open>
  \<open>device_deregister\<close>.  The first loop finds the device by its name, the second refuses an
  assigned device and saves the names of the three assigned ones (8 bytes each, in an array of
  24), the third points them to the devices that have these names after the removal.
\<close>

function find_device :: "list_struct \<Rightarrow> buf \<Rightarrow> int \<Rightarrow> int option option" where
  "find_device l devname i =
     (if i \<le> ListNumItems l then
        do { r \<leftarrow> strcmp (name_ptr l i) devname;
             if r = 0 then Some (Some i) else find_device l devname (i + 1) }
      else Some None)"
  by pat_completeness auto
termination
  by (relation "measure (\<lambda>(l, _, i). nat (ListNumItems l + 1 - i))") auto

declare find_device.simps [simp del]

fun save_names :: "list_struct \<Rightarrow> int \<Rightarrow> int option list \<Rightarrow> buf \<Rightarrow> (bool \<times> buf) option" where
  "save_names l dev [] names = Some (True, names)"
| "save_names l dev (f # fs) names =
     (if f = Some dev then Some (False, names)
      else case f of None \<Rightarrow> None
           | Some i \<Rightarrow> do { d \<leftarrow> device_at l i; save_names l dev fs (names @ dev_name d) })"

fun reassign_files :: "list_struct \<Rightarrow> int \<Rightarrow> nat \<Rightarrow> buf \<Rightarrow> int option list \<Rightarrow> int option list option" where
  "reassign_files l i k names [] = Some []"
| "reassign_files l i k names (f # fs) =
     do { r \<leftarrow> strcmp (name_ptr l i) (drop (8 * k) names);
          fs \<leftarrow> reassign_files l i (Suc k) names fs;
          Some ((if r = 0 then Some i else f) # fs) }"

function reassign_all :: "list_struct \<Rightarrow> int \<Rightarrow> buf \<Rightarrow> int option list \<Rightarrow> int option list option" where
  "reassign_all l i names fs =
     (if i \<le> ListNumItems l then
        do { fs \<leftarrow> reassign_files l i 0 names fs; reassign_all l (i + 1) names fs }
      else Some fs)"
  by pat_completeness auto
termination
  by (relation "measure (\<lambda>(l, i, _). nat (ListNumItems l + 1 - i))") auto

declare reassign_all.simps [simp del]

definition device_deregister :: "buf \<Rightarrow> 'a console_scheme \<Rightarrow> (int \<times> 'a console_scheme) option" where
  "device_deregister devname st =
     do { l \<leftarrow> devlist st;
          found \<leftarrow> find_device l devname 1;
          (case found of
             None \<Rightarrow> Some (0, st)
           | Some dev \<Rightarrow>
               do { (ok, names) \<leftarrow> save_names l dev (stdio_devices st) [];
                    if \<not> ok then Some (-1, st)
                    else
                      do { (_, l) \<leftarrow> ListRemoveItem l False dev;
                           fs \<leftarrow> reassign_all l 1 names (stdio_devices st);
                           Some (0, st\<lparr>devlist := Some l, stdio_devices := fs\<rparr>) } }) }"

end
