(* ===== verification/Console.thy ===== *)
theory Console
  imports Devices
begin

text \<open>
  The console (\<open>common/console.c\<close> and \<open>common/cmd_console.c\<close>): character and string input and
  output, before and after the devices are initialised, control-C, and the assignment of the
  devices to \<open>stdin\<close>, \<open>stdout\<close> and \<open>stderr\<close>.
\<close>

definition CFG_PBSIZE :: nat where "CFG_PBSIZE = 282"

definition GD_FLG_DEVINIT :: u32 where "GD_FLG_DEVINIT = 2"

definition devinit :: "'a console_scheme \<Rightarrow> bool" where
  "devinit st \<longleftrightarrow> gd_flags st AND GD_FLG_DEVINIT \<noteq> 0"

section \<open>Input and output\<close>

definition fgetc :: "int \<Rightarrow> 'a console_scheme \<Rightarrow> (int \<times> 'a console_scheme) option" where
  "fgetc file st =
     (if file < MAX_FILES then
        do { d \<leftarrow> file_device file st;
             if dev_getc d = serial_getc_addr
             then Some (let (c, st) = serial_getc st in (ichar c, st)) else None }
      else Some (-1, st))"

definition ftstc :: "int \<Rightarrow> 'a console_scheme \<Rightarrow> (int \<times> 'a console_scheme) option" where
  "ftstc file st =
     (if file < MAX_FILES then
        do { d \<leftarrow> file_device file st;
             if dev_tstc d = serial_tstc_addr
             then Some (let (b, st) = serial_tstc st in (of_bool b, st)) else None }
      else Some (-1, st))"

definition fputc :: "int \<Rightarrow> char \<Rightarrow> 'a console_scheme \<Rightarrow> 'a console_scheme option" where
  "fputc file c st =
     (if file < MAX_FILES then
        do { d \<leftarrow> file_device file st;
             if dev_putc d = serial_putc_addr then Some (serial_putc c st) else None }
      else Some st)"

definition getc :: "'a console_scheme \<Rightarrow> (int \<times> 'a console_scheme) option" where
  "getc st =
     (if devinit st then fgetc stdin_file st
      else Some (let (c, st) = serial_getc st in (ichar c, st)))"

definition tstc :: "'a console_scheme \<Rightarrow> (int \<times> 'a console_scheme) option" where
  "tstc st =
     (if devinit st then ftstc stdin_file st
      else Some (let (b, st) = serial_tstc st in (of_bool b, st)))"

definition putc :: "char \<Rightarrow> 'a console_scheme \<Rightarrow> 'a console_scheme option" where
  "putc c st = (if devinit st then fputc stdout_file c st else Some (serial_putc c st))"

definition puts :: "buf \<Rightarrow> 'a console_scheme \<Rightarrow> 'a console_scheme option" where
  "puts s st = (if devinit st then fputs stdout_file s st else serial_puts s st)"

text \<open>\<open>printf\<close> formats into a buffer of \<open>CFG_PBSIZE\<close> bytes; the buffer is not checked.\<close>

definition printf :: "string \<Rightarrow> va_arg list \<Rightarrow> 'a console_scheme \<Rightarrow> 'a console_scheme option" where
  "printf fmt args st =
     do { (printbuffer, _, _) \<leftarrow> vsprintf (replicate CFG_PBSIZE NUL) (cstr fmt) args;
          puts printbuffer st }"

definition fprintf ::
  "int \<Rightarrow> string \<Rightarrow> va_arg list \<Rightarrow> 'a console_scheme \<Rightarrow> 'a console_scheme option" where
  "fprintf file fmt args st =
     do { (printbuffer, _, _) \<leftarrow> vsprintf (replicate CFG_PBSIZE NUL) (cstr fmt) args;
          fputs file printbuffer st }"

definition serial_printf ::
  "string \<Rightarrow> va_arg list \<Rightarrow> 'a console_scheme \<Rightarrow> 'a console_scheme option" where
  "serial_printf fmt args st =
     do { (printbuffer, _, _) \<leftarrow> vsprintf (replicate CFG_PBSIZE NUL) (cstr fmt) args;
          serial_puts printbuffer st }"

section \<open>Control-C\<close>

definition ctrlc :: "'a console_scheme \<Rightarrow> (bool \<times> 'a console_scheme) option" where
  "ctrlc st =
     (if ctrlc_disabled st = 0 \<and> have_console st then
        do { (t, st) \<leftarrow> tstc st;
             if t \<noteq> 0 then
               do { (c, st) \<leftarrow> getc st;
                    if c = 3 then Some (True, st\<lparr>ctrlc_was_pressed := True\<rparr>)
                    else Some (False, st) }
             else Some (False, st) }
      else Some (False, st))"

definition disable_ctrlc :: "int \<Rightarrow> 'a console_scheme \<Rightarrow> int \<times> 'a console_scheme" where
  "disable_ctrlc disable st = (ctrlc_disabled st, st\<lparr>ctrlc_disabled := disable\<rparr>)"

definition had_ctrlc :: "'a console_scheme \<Rightarrow> bool" where
  "had_ctrlc st = ctrlc_was_pressed st"

definition clear_ctrlc :: "'a console_scheme \<Rightarrow> 'a console_scheme" where
  "clear_ctrlc st = st\<lparr>ctrlc_was_pressed := False\<rparr>"

section \<open>Assigning devices\<close>

text \<open>
  \<open>start f\<close> is the result of the driver's start function at address \<open>f\<close>.  A device is given
  by its position, \<open>None\<close> for NULL.
\<close>

definition console_setfile ::
  "(u32 \<Rightarrow> int) \<Rightarrow> int \<Rightarrow> int option \<Rightarrow> 'a console_scheme \<Rightarrow> (int \<times> 'a console_scheme) option" where
  "console_setfile start file dev st =
     (case dev of
        None \<Rightarrow> Some (-1, st)
      | Some pos \<Rightarrow>
          if file = stdin_file \<or> file = stdout_file \<or> file = stderr_file then
            do { l \<leftarrow> devlist st;
                 d \<leftarrow> device_at l pos;
                 let error = (if dev_start d \<noteq> 0 then start (dev_start d) else 0)
                 in if dev_start d \<noteq> 0 \<and> error < 0 then Some (error, st)
                 else
                   do { fs \<leftarrow> store (stdio_devices st) (nat file) (Some pos);
                        let st = st\<lparr>stdio_devices := fs\<rparr>
                        in Some (error,
                             if file = stdin_file then
                               st\<lparr>jt_getc := dev_getc d, jt_tstc := dev_tstc d\<rparr>
                             else if file = stdout_file then
                               st\<lparr>jt_putc := dev_putc d, jt_puts := dev_puts d,
                                  jt_printf := printf_addr\<rparr>
                             else st) } }
          else Some (-1, st))"

function assign_from ::
  "(u32 \<Rightarrow> int) \<Rightarrow> list_struct \<Rightarrow> int \<Rightarrow> u32 \<Rightarrow> buf \<Rightarrow> int \<Rightarrow> 'a console_scheme \<Rightarrow>
     (int \<times> 'a console_scheme) option" where
  "assign_from start l file flag devname i st =
     (if i \<le> ListNumItems l then
        do { r \<leftarrow> strcmp devname (name_ptr l i);
             if r = 0 then
               do { d \<leftarrow> device_at l i;
                    if dev_flags d AND flag \<noteq> 0 then console_setfile start file (Some i) st
                    else Some (-1, st) }
             else assign_from start l file flag devname (i + 1) st }
      else Some (-1, st))"
  by pat_completeness auto
termination
  by (relation "measure (\<lambda>(_, l, _, _, _, i, _). nat (ListNumItems l + 1 - i))") auto

declare assign_from.simps [simp del]

definition console_assign ::
  "(u32 \<Rightarrow> int) \<Rightarrow> int \<Rightarrow> buf \<Rightarrow> 'a console_scheme \<Rightarrow> (int \<times> 'a console_scheme) option" where
  "console_assign start file devname st =
     (if file = stdin_file then
        do { l \<leftarrow> devlist st; assign_from start l file DEV_FLAGS_INPUT devname 1 st }
      else if file = stdout_file \<or> file = stderr_file then
        do { l \<leftarrow> devlist st; assign_from start l file DEV_FLAGS_OUTPUT devname 1 st }
      else Some (-1, st))"

definition console_init_f :: "'a console_scheme \<Rightarrow> int \<times> 'a console_scheme" where
  "console_init_f st = (0, st\<lparr>have_console := True\<rparr>)"

text \<open>
  \<open>search_device\<close> keeps the last device it looked at when none matches.
\<close>

function search_from :: "list_struct \<Rightarrow> u32 \<Rightarrow> buf \<Rightarrow> int \<Rightarrow> int option \<Rightarrow> int option option" where
  "search_from l flags name i dev =
     (if i \<le> ListNumItems l then
        do { d \<leftarrow> device_at l i;
             if dev_flags d AND flags \<noteq> 0 then
               do { r \<leftarrow> strcmp name (name_ptr l i);
                    if r = 0 then Some (Some i) else search_from l flags name (i + 1) (Some i) }
             else search_from l flags name (i + 1) (Some i) }
      else Some dev)"
  by pat_completeness auto
termination
  by (relation "measure (\<lambda>(l, _, _, i, _). nat (ListNumItems l + 1 - i))") auto

declare search_from.simps [simp del]

definition search_device ::
  "u32 \<Rightarrow> buf option \<Rightarrow> 'a console_scheme \<Rightarrow> int option option" where
  "search_device flags name st =
     (case name of
        None \<Rightarrow> Some None
      | Some s \<Rightarrow> do { l \<leftarrow> devlist st; search_from l flags s 1 None })"

text \<open>The scan of \<open>console_init_r\<close> for the first input and the first output device.\<close>

function scan_devices ::
  "list_struct \<Rightarrow> int \<Rightarrow> int option \<Rightarrow> int option \<Rightarrow> (int option \<times> int option) option" where
  "scan_devices l i inputdev outputdev =
     (if i \<le> ListNumItems l \<and> (inputdev = None \<or> outputdev = None) then
        do { d \<leftarrow> device_at l i;
             scan_devices l (i + 1)
               (if dev_flags d AND DEV_FLAGS_INPUT \<noteq> 0 \<and> inputdev = None then Some i else inputdev)
               (if dev_flags d AND DEV_FLAGS_OUTPUT \<noteq> 0 \<and> outputdev = None then Some i
                else outputdev) }
      else Some (inputdev, outputdev))"
  by pat_completeness auto
termination
  by (relation "measure (\<lambda>(l, i, _). nat (ListNumItems l + 1 - i))") auto

declare scan_devices.simps [simp del]

definition stdio_names :: "string list" where
  "stdio_names = [''stdin'', ''stdout'', ''stderr'']"

text \<open>
  The environment variables are set through the argument \<open>setenv\<close>, which gets the name and
  the pointer to the value.
\<close>

fun setenv_files ::
  "(buf \<Rightarrow> buf \<Rightarrow> 'a console_scheme \<Rightarrow> 'a console_scheme option) \<Rightarrow> nat \<Rightarrow> nat \<Rightarrow>
     'a console_scheme \<Rightarrow> 'a console_scheme option" where
  "setenv_files setenv i 0 st = Some st"
| "setenv_files setenv i (Suc n) st =
     do { slot \<leftarrow> load (stdio_devices st) i;
          pos \<leftarrow> slot;
          l \<leftarrow> devlist st;
          name \<leftarrow> load stdio_names i;
          st \<leftarrow> setenv (cstr name) (name_ptr l pos) st;
          setenv_files setenv (Suc i) n st }"

definition console_init_r ::
  "(u32 \<Rightarrow> int) \<Rightarrow> (buf \<Rightarrow> buf \<Rightarrow> 'a console_scheme \<Rightarrow> 'a console_scheme option) \<Rightarrow>
     'a console_scheme \<Rightarrow> (int \<times> 'a console_scheme) option" where
  "console_init_r start setenv st =
     do { l \<leftarrow> devlist st;
          (inputdev, outputdev) \<leftarrow> scan_devices l 1 None None;
          st \<leftarrow> (if outputdev \<noteq> None then
                   do { (_, st) \<leftarrow> console_setfile start stdout_file outputdev st;
                        (_, st) \<leftarrow> console_setfile start stderr_file outputdev st;
                        Some st }
                 else Some st);
          st \<leftarrow> (if inputdev \<noteq> None then
                   do { (_, st) \<leftarrow> console_setfile start stdin_file inputdev st; Some st }
                 else Some st);
          st \<leftarrow> setenv_files setenv 0 3 (st\<lparr>gd_flags := gd_flags st OR 0\<rparr>);
          Some (0, st) }"

section \<open>The command \<open>coninfo\<close>\<close>

fun print_files :: "int \<Rightarrow> (string \<times> int option) list \<Rightarrow> 'a console_scheme \<Rightarrow> 'a console_scheme option" where
  "print_files dev [] st = Some st"
| "print_files dev ((name, f) # fs) st =
     do { st \<leftarrow> (if f = Some dev then printf ''%s '' [VStr (Some (cstr name))] st else Some st);
          print_files dev fs st }"

function coninfo_from :: "list_struct \<Rightarrow> int \<Rightarrow> 'a console_scheme \<Rightarrow> 'a console_scheme option" where
  "coninfo_from l i st =
     (if i \<le> ListNumItems l then
        (case device_at l i of None \<Rightarrow> None
         | Some d \<Rightarrow>
           (case printf ''%-8s %08x %c%c%c ''
                   [VStr (Some (name_ptr l i)), VWord (dev_flags d),
                    VWord (if dev_flags d AND DEV_FLAGS_SYSTEM \<noteq> 0 then of_char (CHR ''S'') else of_char (CHR ''.'')),
                    VWord (if dev_flags d AND DEV_FLAGS_INPUT \<noteq> 0 then of_char (CHR ''I'') else of_char (CHR ''.'')),
                    VWord (if dev_flags d AND DEV_FLAGS_OUTPUT \<noteq> 0 then of_char (CHR ''O'') else of_char (CHR ''.''))] st of
              None \<Rightarrow> None
            | Some st1 \<Rightarrow>
                (case print_files i (zip stdio_names (stdio_devices st1)) st1 of
                   None \<Rightarrow> None
                 | Some st2 \<Rightarrow>
                     (case putc (CHR 0x0A) st2 of None \<Rightarrow> None
                      | Some st3 \<Rightarrow> coninfo_from l (i + 1) st3))))
      else Some st)"
  by pat_completeness auto
termination
  by (relation "measure (\<lambda>(l, i, _). nat (ListNumItems l + 1 - i))") auto

declare coninfo_from.simps [simp del]

definition do_coninfo :: "'a console_scheme \<Rightarrow> (int \<times> 'a console_scheme) option" where
  "do_coninfo st =
     do { st \<leftarrow> printf (''List of available devices:'' @ [CHR 0x0A]) [] st;
          l \<leftarrow> devlist st;
          st \<leftarrow> coninfo_from l 1 st;
          Some (0, st) }"


section \<open>Output before the devices are in use\<close>

text \<open>
  As long as \<open>GD_FLG_DEVINIT\<close> is not set, output goes to the serial port.  In this configuration
  \<open>console_init_r\<close> never sets it (\<open>gd->flags |= 0\<close>).
\<close>

lemma puts_serial [simp]: "\<not> devinit st \<Longrightarrow> nonul s \<Longrightarrow>
    puts (s @ NUL # r) st = Some (st\<lparr>serial_tx := serial_tx st @ on_wire s\<rparr>)"
  by (simp add: puts_def serial_puts_eq)

lemma puts_cstr_serial [simp]: "\<not> devinit st \<Longrightarrow> nonul s \<Longrightarrow>
    puts (cstr s) st = Some (st\<lparr>serial_tx := serial_tx st @ on_wire s\<rparr>)"
  by (simp add: cstr_def)

lemma putc_serial [simp]: "\<not> devinit st \<Longrightarrow> putc c st = Some (serial_putc c st)"
  by (simp add: putc_def)

lemma printf_serial:
  assumes "\<not> devinit st" "vsprintf_loop (cstr fmt) args [] [] = Some (out, ns)" "nonul out"
    "length out < CFG_PBSIZE"
  shows "printf fmt args st = Some (st\<lparr>serial_tx := serial_tx st @ on_wire out\<rparr>)"
  using assms by (simp add: printf_def vsprintf_def)

lemma vsprintf_loop_s:
  assumes "nonul s" "length s < 2 ^ 32"
  shows "vsprintf_loop (CHR ''%'' # CHR ''s'' # fmt) (VStr (Some (s @ NUL # r)) # args) out ns =
    vsprintf_loop fmt args (out @ s) ns"
proof -
  have "strnlen (s @ NUL # r) (nat ((-1) mod 2 ^ 32)) = Some (length s)"
    using assms by (simp add: strnlen_append)
  then have "directive (CHR ''s'' # fmt) n (VStr (Some (s @ NUL # r)) # args) =
      Some (s, None, fmt, args)" for n
    by (simp add: directive_def no_flags_def [symmetric] parse_width_def is_digit_def pad_around_def
        parse_precision_def parse_qualifier_def convert_def Let_def)
  then show ?thesis by simp
qed

lemma devinit_update [simp]:
  "devinit (st\<lparr>serial_tx := x\<rparr>) = devinit st" "devinit (st\<lparr>serial_rx := q\<rparr>) = devinit st"
  by (simp_all add: devinit_def)

lemma ctrlc_quiet: "\<lbrakk>\<not> devinit st; serial_rx st = []\<rbrakk> \<Longrightarrow> ctrlc st = Some (False, st)"
  by (simp add: ctrlc_def tstc_def serial_tstc_def)

lemma on_wire_append: "on_wire (s @ t) = on_wire s @ on_wire t"
  by (simp add: on_wire_def)

lemma on_wire_Nil [simp]: "on_wire [] = []"
  by (simp add: on_wire_def)

lemma on_wire_Cons: "on_wire (c # s) = (if c = CHR 0x0A then [c, CHR 0x0D] else [c]) @ on_wire s"
  by (simp add: on_wire_def)

text \<open>Output only adds to what has been sent.\<close>

definition sent :: "string \<Rightarrow> 'a console_scheme \<Rightarrow> 'a console_scheme" where
  "sent out st = st\<lparr>serial_tx := serial_tx st @ out\<rparr>"

lemma sent_sent [simp]: "sent b (sent a st) = sent (a @ b) st"
  by (simp add: sent_def)

lemma sent_Nil [simp]: "sent [] st = st"
  by (simp add: sent_def)

lemma devinit_sent [simp]: "devinit (sent out st) = devinit st"
  by (simp add: sent_def)

lemma rx_sent [simp]: "serial_rx (sent out st) = serial_rx st"
  by (simp add: sent_def)

lemma puts_sent: "\<not> devinit st \<Longrightarrow> nonul s \<Longrightarrow> puts (cstr s) st = Some (sent (on_wire s) st)"
  by (simp add: sent_def)

lemma putc_sent: "\<not> devinit st \<Longrightarrow> putc c st = Some (sent (on_wire [c]) st)"
  by (simp add: serial_putc_def sent_def on_wire_def)

lemma ctrlc_sent: "\<lbrakk>\<not> devinit st; serial_rx st = []\<rbrakk> \<Longrightarrow> ctrlc (sent out st) = Some (False, sent out st)"
  by (simp add: ctrlc_quiet)

lemma getc_poll:
  assumes "\<not> devinit st" "serial_rx st = key # q"
  shows "getc st = Some (case key of None \<Rightarrow> 0 | Some c \<Rightarrow> ichar c, st\<lparr>serial_rx := q\<rparr>)"
  using assms by (auto simp: getc_def serial_getc_def split: option.splits)

lemma char_of_ichar: "char_of (nat (ichar c mod 256)) = c"
  using ichar_bounds [of c] by (simp add: ichar_eq_int)

end
