(* ===== verification/Env_Data.thy ===== *)
theory Env_Data
  imports C_String
begin

text \<open>
  The algorithms of \<open>common/cmd_nvedit.c\<close> on the data area of the environment: a sequence of
  \<open>name=value\<close> strings, each ended by NUL, the end marked by a second NUL.  The operations
  are the loops of \<open>envmatch\<close>, \<open>getenv\<close>, \<open>getenv_r\<close> and \<open>_do_setenv\<close> on the array with
  checked accesses.  \<open>env_rep\<close> relates the array to the list of its entries, and the lemmas
  give each loop on the entries: lookup, deletion by shifting, appending at the end.
\<close>

section \<open>The loops\<close>

text \<open>The index of the NUL that ends the entry at \<open>i\<close>: \<open>for (nxt=i; *nxt; ++nxt);\<close>\<close>

function end_of_entry :: "buf \<Rightarrow> nat \<Rightarrow> nat option" where
  "end_of_entry d i =
     (case load d i of
        None \<Rightarrow> None
      | Some c \<Rightarrow> if c = NUL then Some i else end_of_entry d (Suc i))"
  by pat_completeness auto
termination
  by (relation "measure (\<lambda>(d, i). length d - i)") (auto simp: load_eq_Some_iff)

declare end_of_entry.simps [simp del]

text \<open>
  The same loop in \<open>getenv\<close> and \<open>getenv_r\<close>, which give up at \<open>CFG_ENV_SIZE\<close>
  (\<open>Some None\<close>).
\<close>

function bounded_end :: "nat \<Rightarrow> buf \<Rightarrow> nat \<Rightarrow> nat option option" where
  "bounded_end cfg_env_size d i =
     (case load d i of
        None \<Rightarrow> None
      | Some c \<Rightarrow>
          if c = NUL then Some (Some i)
          else if i \<ge> cfg_env_size then Some None
          else bounded_end cfg_env_size d (Suc i))"
  by pat_completeness auto
termination
  by (relation "measure (\<lambda>(_, d, i). length d - i)") (auto simp: load_eq_Some_iff)

declare bounded_end.simps [simp del]

lemma end_of_entry_ge: "end_of_entry d i = Some n \<Longrightarrow> i \<le> n \<and> n < length d"
proof (induction d i rule: end_of_entry.induct)
  case (1 d i)
  from "1.prems" "1.IH" show ?case
    by (subst (asm) end_of_entry.simps) (fastforce split: option.splits if_splits simp: load_eq_Some_iff)
qed

lemma bounded_end_ge: "bounded_end z d i = Some (Some n) \<Longrightarrow> i \<le> n \<and> n < length d"
proof (induction z d i rule: bounded_end.induct)
  case (1 z d i)
  from "1.prems" "1.IH" show ?case
    by (subst (asm) bounded_end.simps) (fastforce split: option.splits if_splits simp: load_eq_Some_iff)
qed

text \<open>
  \<open>s1\<close> is a name or a \<open>name=value\<close> pair.  The result is the index of the value, or -1.
\<close>

fun envmatch :: "buf \<Rightarrow> buf \<Rightarrow> nat \<Rightarrow> int option" where
  "envmatch d [] i2 = None"
| "envmatch d (c # s1) i2 =
     (case load d i2 of
        None \<Rightarrow> None
      | Some x \<Rightarrow>
          if c = x then (if c = CHR ''='' then Some (int i2 + 1) else envmatch d s1 (Suc i2))
          else if c = NUL \<and> x = CHR ''='' then Some (int i2 + 1)
          else Some (-1))"

text \<open>\<open>getenv\<close>: the index of the value, \<open>Some None\<close> for NULL.\<close>

function getenv_from :: "nat \<Rightarrow> buf \<Rightarrow> buf \<Rightarrow> nat \<Rightarrow> nat option option" where
  "getenv_from z d name i =
     (case load d i of
        None \<Rightarrow> None
      | Some c \<Rightarrow>
          if c = NUL then Some None
          else
            (case bounded_end z d i of
               None \<Rightarrow> None
             | Some None \<Rightarrow> Some None
             | Some (Some nxt) \<Rightarrow>
                 (case envmatch d name i of
                    None \<Rightarrow> None
                  | Some v \<Rightarrow>
                      if v < 0 then getenv_from z d name (Suc nxt) else Some (Some (nat v)))))"
  by pat_completeness auto
termination
  by (relation "measure (\<lambda>(_, d, _, i). length d - i)")
    (auto simp: load_eq_Some_iff dest!: bounded_end_ge)

declare getenv_from.simps [simp del]

text \<open>
  The copy loop of \<open>getenv_r\<close>:
  \<open>n = 0; while ((len > n++) && (*buf++ = env_get_char(val++)) != 0);\<close>
  It returns the buffer, the position of \<open>buf\<close> in it and \<open>n\<close>.
\<close>

function getenv_r_copy ::
  "buf \<Rightarrow> nat \<Rightarrow> buf \<Rightarrow> nat \<Rightarrow> nat \<Rightarrow> nat \<Rightarrow> (buf \<times> nat \<times> nat) option" where
  "getenv_r_copy d val b pos len n =
     (if len > n then
        (case load d val of
           None \<Rightarrow> None
         | Some c \<Rightarrow>
             (case store b pos c of
                None \<Rightarrow> None
              | Some b' \<Rightarrow>
                  if c \<noteq> NUL then getenv_r_copy d (Suc val) b' (Suc pos) len (Suc n)
                  else Some (b', Suc pos, Suc n)))
      else Some (b, pos, Suc n))"
  by pat_completeness auto
termination
  by (relation "measure (\<lambda>(_, _, _, _, len, n). len - n)") auto

declare getenv_r_copy.simps [simp del]

text \<open>The test \<open>len == n\<close> after the loop, and the result \<open>n\<close>.\<close>

definition getenv_r_found :: "buf \<Rightarrow> nat \<Rightarrow> buf \<Rightarrow> nat \<Rightarrow> (buf \<times> int) option" where
  "getenv_r_found d val b len =
     do { (b, pos, n) \<leftarrow> getenv_r_copy d val b 0 len 0;
          b \<leftarrow> (if len = n then store b pos NUL else Some b);
          Some (b, int n) }"

text \<open>\<open>_do_setenv\<close>: the entry that defines \<open>name\<close>, as \<open>env\<close> and \<open>nxt\<close>.\<close>

function setenv_find :: "buf \<Rightarrow> buf \<Rightarrow> nat \<Rightarrow> (nat \<times> nat) option option" where
  "setenv_find d name env =
     (case load d env of
        None \<Rightarrow> None
      | Some c \<Rightarrow>
          if c = NUL then Some None
          else
            (case end_of_entry d env of
               None \<Rightarrow> None
             | Some nxt \<Rightarrow>
                 (case envmatch d name env of
                    None \<Rightarrow> None
                  | Some oldval \<Rightarrow>
                      if oldval \<ge> 0 then Some (Some (env, nxt))
                      else setenv_find d name (Suc nxt))))"
  by pat_completeness auto
termination
  by (relation "measure (\<lambda>(d, _, i). length d - i)")
    (auto simp: load_eq_Some_iff dest!: end_of_entry_ge)

declare setenv_find.simps [simp del]

text \<open>The loop that shifts the entries after the deleted one to the front.\<close>

function shift_entries :: "buf \<Rightarrow> nat \<Rightarrow> nat \<Rightarrow> (buf \<times> nat) option" where
  "shift_entries d env nxt =
     (case load d nxt of
        None \<Rightarrow> None
      | Some c \<Rightarrow>
          (case store d env c of
             None \<Rightarrow> None
           | Some d' \<Rightarrow>
               if c = NUL then
                 (case load d' (Suc nxt) of
                    None \<Rightarrow> None
                  | Some x \<Rightarrow>
                      if x = NUL then Some (d', env) else shift_entries d' (Suc env) (Suc nxt))
               else shift_entries d' (Suc env) (Suc nxt)))"
  by pat_completeness auto
termination
  by (relation "measure (\<lambda>(d, _, nxt). length d - nxt)")
    (auto simp: load_eq_Some_iff store_eq_Some_iff)

declare shift_entries.simps [simp del]

definition delete_entry :: "buf \<Rightarrow> nat \<Rightarrow> nat \<Rightarrow> buf option" where
  "delete_entry d env nxt =
     (case load d (Suc nxt) of
        None \<Rightarrow> None
      | Some c \<Rightarrow>
          do { (d, env) \<leftarrow> (if c = NUL then
                              (if env > 0 then Some (d, env - 1)
                               else map_option (\<lambda>d. (d, env)) (store d env NUL))
                            else shift_entries d env (Suc nxt));
               store d (Suc env) NUL })"

text \<open>\<open>for (env=env_data; *env || *(env+1); ++env);\<close>\<close>

function end_of_data :: "buf \<Rightarrow> nat \<Rightarrow> nat option" where
  "end_of_data d env =
     (case load d env of
        None \<Rightarrow> None
      | Some c \<Rightarrow>
          if c \<noteq> NUL then end_of_data d (Suc env)
          else (case load d (Suc env) of
                  None \<Rightarrow> None
                | Some x \<Rightarrow> if x \<noteq> NUL then end_of_data d (Suc env) else Some env))"
  by pat_completeness auto
termination
  by (relation "measure (\<lambda>(d, i). length d - i)") (auto simp: load_eq_Some_iff)

declare end_of_data.simps [simp del]

text \<open>\<open>while ((*env = *name++) != 0) env++;\<close>\<close>

fun copy_str :: "buf \<Rightarrow> nat \<Rightarrow> buf \<Rightarrow> (buf \<times> nat) option" where
  "copy_str d env [] = None"
| "copy_str d env (c # s) =
     do { d' \<leftarrow> store d env c;
          if c = NUL then Some (d', env) else copy_str d' (Suc env) s }"

text \<open>The values: \<open>=\<close> before the first, a space before the others.\<close>

fun copy_args :: "buf \<Rightarrow> nat \<Rightarrow> char \<Rightarrow> buf list \<Rightarrow> (buf \<times> nat) option" where
  "copy_args d env sep [] = Some (d, env)"
| "copy_args d env sep (val # vals) =
     do { d \<leftarrow> store d env sep;
          (d, env) \<leftarrow> copy_str d (Suc env) val;
          copy_args d env (CHR '' '') vals }"

fun args_length :: "buf list \<Rightarrow> nat option" where
  "args_length [] = Some 0"
| "args_length (v # vs) = do { n \<leftarrow> strlen v; k \<leftarrow> args_length vs; Some (n + 1 + k) }"

text \<open>
  Appending the definition of \<open>name\<close>: \<open>Some (d, False)\<close> when it does not fit.
\<close>

definition append_entry :: "buf \<Rightarrow> buf \<Rightarrow> buf list \<Rightarrow> (buf \<times> bool) option" where
  "append_entry d name args =
     do { env \<leftarrow> end_of_data d 0;
          let env = (if env > 0 then Suc env else env)
          in do { n \<leftarrow> strlen name;
                  k \<leftarrow> args_length args;
                  if n + 2 + k > length d - env then Some (d, False)
                  else
                    do { (d, env) \<leftarrow> copy_str d env name;
                         (d, env) \<leftarrow> copy_args d env (CHR ''='') args;
                         d \<leftarrow> store d (Suc env) NUL;
                         Some (d, True) } } }"


section \<open>Entries\<close>

text \<open>
  An entry is \<open>name=value\<close>; the name is what stands before the first \<open>=\<close>.
\<close>

definition entry :: "string \<Rightarrow> string \<Rightarrow> string" where
  "entry name val = name @ CHR ''='' # val"

definition env_name :: "string \<Rightarrow> bool" where
  "env_name s \<longleftrightarrow> nonul s \<and> CHR ''='' \<notin> set s"

text \<open>The bytes of a list of entries.\<close>

definition flat :: "(string \<times> string) list \<Rightarrow> buf" where
  "flat es = concat (map (\<lambda>(n, v). entry n v @ [NUL]) es)"

definition wf_entries :: "(string \<times> string) list \<Rightarrow> bool" where
  "wf_entries es \<longleftrightarrow> (\<forall>(n, v) \<in> set es. env_name n \<and> nonul v) \<and> distinct (map fst es)"

text \<open>
  \<open>d\<close> represents the entries \<open>es\<close>: their bytes, the NUL that ends the list and, for an empty
  environment, one more NUL.
\<close>

definition env_rep :: "buf \<Rightarrow> (string \<times> string) list \<Rightarrow> bool" where
  "env_rep d es \<longleftrightarrow> wf_entries es \<and>
     (\<exists>rest. d = flat es @ NUL # rest \<and> (es = [] \<longrightarrow> (\<exists>r. rest = NUL # r)))"

lemma flat_simps [simp]: "flat [] = []" "flat ((n, v) # es) = n @ CHR ''='' # v @ NUL # flat es"
  by (simp_all add: flat_def entry_def)

lemma flat_append [simp]: "flat (es @ fs) = flat es @ flat fs"
  by (simp add: flat_def)

lemma flat_Nil_iff [simp]: "flat es = [] \<longleftrightarrow> es = []"
  by (cases es) (auto simp: flat_def entry_def)

lemma wf_entries_Cons [simp]: "wf_entries ((n, v) # es) \<longleftrightarrow>
    env_name n \<and> nonul v \<and> n \<notin> fst ` set es \<and> wf_entries es"
  by (auto simp: wf_entries_def)

lemma wf_entries_Nil [simp]: "wf_entries []"
  by (simp add: wf_entries_def)

lemma env_nameD: "env_name n \<Longrightarrow> nonul n" "env_name n \<Longrightarrow> CHR ''='' \<notin> set n"
  by (simp_all add: env_name_def)

lemma nonul_entry [simp]: "env_name n \<Longrightarrow> nonul v \<Longrightarrow> nonul (n @ CHR ''='' # v)"
  by (simp add: env_name_def)

lemma load_at: "load (pre @ x # r) (length pre) = Some x"
  by (simp add: load_def)

lemma load_eqI: "d = pre @ x # r \<Longrightarrow> i = length pre \<Longrightarrow> load d i = Some x"
  by (simp add: load_def)

lemma end_of_entry_eq:
  "nonul e \<Longrightarrow> end_of_entry (pre @ e @ NUL # r) (length pre) = Some (length pre + length e)"
proof (induction e arbitrary: pre)
  case Nil
  then show ?case by (simp add: end_of_entry.simps load_at)
next
  case (Cons c e)
  then show ?case
    using Cons.IH [of "pre @ [c]"] by (subst end_of_entry.simps) (simp add: load_at)
qed

lemma bounded_end_eq:
  "nonul e \<Longrightarrow> length pre + length e \<le> z \<Longrightarrow>
   bounded_end z (pre @ e @ NUL # r) (length pre) = Some (Some (length pre + length e))"
proof (induction e arbitrary: pre)
  case Nil
  then show ?case by (simp add: bounded_end.simps load_at)
next
  case (Cons c e)
  then show ?case
    using Cons.IH [of "pre @ [c]"] by (subst bounded_end.simps) (simp add: load_at)
qed

lemma envmatch_eq:
  "env_name name \<Longrightarrow> env_name n \<Longrightarrow>
   envmatch (pre @ n @ CHR ''='' # r) (cstr name) (length pre) =
     Some (if name = n then int (length pre + length n) + 1 else -1)"
proof (induction n arbitrary: pre name)
  case Nil
  then show ?case by (cases name) (auto simp: load_at env_name_def)
next
  case (Cons c n)
  show ?case
  proof (cases name)
    case Nil
    then show ?thesis using Cons.prems by (auto simp: load_at env_name_def)
  next
    case (Cons a name')
    then show ?thesis
      using Cons.IH [of name' "pre @ [c]"] Cons.prems by (auto simp: load_at env_name_def)
  qed
qed

lemma envmatch_entry:
  "env_name name \<Longrightarrow> env_name n \<Longrightarrow>
   envmatch (pre @ (n @ CHR ''='' # v) @ r) (cstr name) (length pre) =
     Some (if name = n then int (length pre + length n) + 1 else -1)"
  using envmatch_eq [of name n pre "v @ r"] by simp

section \<open>Looking up\<close>

lemma load_entry: "\<lbrakk>env_name n; d = pre @ n @ CHR ''='' # r; i = length pre\<rbrakk> \<Longrightarrow>
    \<exists>c. load d i = Some c \<and> c \<noteq> NUL"
  by (cases n) (auto simp: load_at env_name_def)

text \<open>\<open>es\<close> from position \<open>length pre\<close> on: the value found is the first one.\<close>

lemma getenv_from_eq:
  "\<lbrakk>wf_entries es; env_name name; length pre + length (flat es) \<le> z\<rbrakk> \<Longrightarrow>
   \<exists>r. getenv_from z (pre @ flat es @ NUL # rest) (cstr name) (length pre) = Some r \<and>
     (case map_of es name of
        None \<Rightarrow> r = None
      | Some v \<Rightarrow> \<exists>i. r = Some i \<and> str_at (drop i (pre @ flat es @ NUL # rest)) = Some v)"
proof (induction es arbitrary: pre)
  case Nil
  then show ?case by (subst getenv_from.simps) (simp add: load_at)
next
  case (Cons p es)
  obtain n v where p: "p = (n, v)" by (cases p)
  from Cons.prems p have w: "env_name n" "nonul v" "wf_entries es" by simp_all
  let ?e = "n @ CHR ''='' # v" and ?r = "flat es @ NUL # rest"
  let ?d = "pre @ ?e @ NUL # ?r"
  have d: "pre @ flat (p # es) @ NUL # rest = ?d" using p by simp
  have e: "bounded_end z ?d (length pre) = Some (Some (length pre + length ?e))"
    using w Cons.prems p by (intro bounded_end_eq) (simp_all add: env_nameD)
  obtain c where c: "load ?d (length pre) = Some c" "c \<noteq> NUL"
    using load_entry [OF w(1), of ?d pre "v @ NUL # ?r" "length pre"] by auto
  have m: "envmatch ?d (cstr name) (length pre) =
      Some (if name = n then int (length pre + length n) + 1 else -1)"
    by (rule envmatch_entry [OF Cons.prems(2) w(1)])
  note step = getenv_from.simps [of z ?d "cstr name" "length pre"]
  show ?case
  proof (cases "name = n")
    case True
    have "drop (nat (int (length pre + length n) + 1)) ?d = v @ NUL # ?r"
      by (simp add: nat_add_distrib)
    then have "str_at (drop (nat (int (length pre + length n) + 1)) ?d) = Some v"
      using w by (simp add: str_at_append)
    then show ?thesis using step c e m True p d by simp
  next
    case False
    have "getenv_from z ?d (cstr name) (length pre) =
        getenv_from z ?d (cstr name) (Suc (length pre + length ?e))"
      using step c e m False by simp
    moreover have dd: "(pre @ ?e @ [NUL]) @ flat es @ NUL # rest = ?d" by simp
    moreover have ll: "length (pre @ ?e @ [NUL]) = Suc (length pre + length ?e)" by simp
    moreover have "Suc (length pre + length ?e) + length (flat es) \<le> z" using Cons.prems(3) p by simp
    ultimately show ?thesis
      using Cons.IH [OF w(3) Cons.prems(2), of "pre @ ?e @ [NUL]", unfolded dd ll] False p
      unfolding d by simp
  qed
qed


section \<open>Finding the entry to replace\<close>

lemma setenv_find_eq:
  "\<lbrakk>wf_entries es; env_name name\<rbrakk> \<Longrightarrow>
   setenv_find (pre @ flat es @ NUL # rest) (cstr name) (length pre) =
     Some (if name \<in> fst ` set es then
             (let before = takeWhile (\<lambda>p. fst p \<noteq> name) es; v = the (map_of es name);
                  k = length pre + length (flat before)
              in Some (k, k + length (entry name v)))
           else None)"
proof (induction es arbitrary: pre)
  case Nil
  then show ?case by (subst setenv_find.simps) (simp add: load_at)
next
  case (Cons p es)
  obtain n v where p: "p = (n, v)" by (cases p)
  from Cons.prems p have w: "env_name n" "nonul v" "wf_entries es" by simp_all
  let ?e = "n @ CHR ''='' # v" and ?r = "flat es @ NUL # rest"
  let ?d = "pre @ ?e @ NUL # ?r"
  have d: "pre @ flat (p # es) @ NUL # rest = ?d" using p by simp
  have e: "end_of_entry ?d (length pre) = Some (length pre + length ?e)"
    using w by (intro end_of_entry_eq) (simp add: env_nameD)
  obtain c where c: "load ?d (length pre) = Some c" "c \<noteq> NUL"
    using load_entry [OF w(1), of ?d pre "v @ NUL # ?r" "length pre"] by auto
  have m: "envmatch ?d (cstr name) (length pre) =
      Some (if name = n then int (length pre + length n) + 1 else -1)"
    by (rule envmatch_entry [OF Cons.prems(2) w(1)])
  note step = setenv_find.simps [of ?d "cstr name" "length pre"]
  show ?case
  proof (cases "name = n")
    case True
    then show ?thesis using step c e m p d by (simp add: entry_def Let_def)
  next
    case False
    have "setenv_find ?d (cstr name) (length pre) =
        setenv_find ?d (cstr name) (Suc (length pre + length ?e))"
      using step c e m False by simp
    moreover have "?d = (pre @ ?e @ [NUL]) @ flat es @ NUL # rest" by simp
    moreover have "length (pre @ ?e @ [NUL]) = Suc (length pre + length ?e)" by simp
    ultimately show ?thesis
      using Cons.IH [OF w(3) Cons.prems(2), of "pre @ ?e @ [NUL]"] False p d
      by (simp add: Let_def add_ac)
  qed
qed

text \<open>The entries around a defined name.\<close>

lemma split_entries:
  assumes "name \<in> fst ` set es" "wf_entries es"
  obtains before v after where "es = before @ (name, v) # after" "map_of es name = Some v"
    "takeWhile (\<lambda>p. fst p \<noteq> name) es = before" "filter (\<lambda>p. fst p \<noteq> name) es = before @ after"
proof -
  let ?b = "takeWhile (\<lambda>p. fst p \<noteq> name) es" and ?a = "dropWhile (\<lambda>p. fst p \<noteq> name) es"
  have ne: "?a \<noteq> []" using assms(1) by (auto simp: dropWhile_eq_Nil_conv)
  then obtain q after where q: "?a = q # after" by (cases ?a) auto
  have "fst q = name" using hd_dropWhile [OF ne] q by simp
  then obtain v where v: "q = (name, v)" by (cases q) auto
  have es: "es = ?b @ (name, v) # after" using q v by (metis takeWhile_dropWhile_id)
  have b: "\<forall>p \<in> set ?b. fst p \<noteq> name" by (auto dest: set_takeWhileD)
  have "distinct (map fst es)" using assms(2) by (simp add: wf_entries_def)
  then have a: "\<forall>p \<in> set after. fst p \<noteq> name" by (subst (asm) es) auto
  have "map_of ?b name = None" using b by (auto simp: map_of_eq_None_iff)
  then have "map_of es name = Some v" by (subst es) (simp add: map_add_def)
  moreover have "filter (\<lambda>p. fst p \<noteq> name) es = ?b @ after"
    using a b by (subst es) (simp add: filter_id_conv)
  ultimately show thesis using that [OF es] by simp
qed

section \<open>Deleting\<close>

lemma store_at: "store (pre @ x # r) (length pre) y = Some (pre @ y # r)"
  by (simp add: store_def)

text \<open>
  The loop copies the rest of the entries over the gap: \<open>gap\<close> are the bytes from the target
  to the source, never empty.
\<close>

lemma shift_entries_string:
  "\<lbrakk>nonul e; gap \<noteq> []\<rbrakk> \<Longrightarrow>
   \<exists>gap'. length gap' = length gap \<and>
     shift_entries (pre @ gap @ e @ NUL # r) (length pre) (length pre + length gap) =
     shift_entries (pre @ e @ gap' @ NUL # r) (length pre + length e)
       (length pre + length e + length gap)"
proof (induction e arbitrary: pre gap)
  case Nil
  then show ?case by auto
next
  case (Cons c e)
  obtain g gs where g: "gap = g # gs" using Cons.prems by (cases gap) auto
  let ?d = "pre @ gap @ (c # e) @ NUL # r"
  have l: "load ?d (length pre + length gap) = Some c"
    using load_at [of "pre @ gap" c] by simp
  have st: "store ?d (length pre) c = Some ((pre @ [c]) @ (gs @ [c]) @ e @ NUL # r)"
    using store_at [of pre g] g by simp
  have "shift_entries ?d (length pre) (length pre + length gap) =
      shift_entries ((pre @ [c]) @ (gs @ [c]) @ e @ NUL # r) (length (pre @ [c]))
        (length (pre @ [c]) + length (gs @ [c]))"
    using l st Cons.prems g by (subst shift_entries.simps) simp
  then show ?case
    using Cons.IH [of "gs @ [c]" "pre @ [c]"] Cons.prems g by simp
qed

lemma shift_entries_eq:
  "\<lbrakk>wf_entries es; es \<noteq> []; gap \<noteq> []\<rbrakk> \<Longrightarrow>
   \<exists>gap'. length gap' = length gap \<and>
     shift_entries (pre @ gap @ flat es @ NUL # rest) (length pre) (length pre + length gap) =
     Some (pre @ flat es @ gap' @ NUL # rest, length pre + length (flat es) - 1)"
proof (induction es arbitrary: pre gap)
  case (Cons p es)
  obtain n v where p: "p = (n, v)" by (cases p)
  from Cons.prems p have w: "env_name n" "nonul v" "wf_entries es" by simp_all
  let ?e = "n @ CHR ''='' # v"
  let ?r = "flat es @ NUL # rest"
  obtain g1 where g1: "length g1 = length gap" and
    run: "shift_entries (pre @ gap @ ?e @ NUL # ?r) (length pre) (length pre + length gap) =
      shift_entries (pre @ ?e @ g1 @ NUL # ?r) (length pre + length ?e)
        (length pre + length ?e + length gap)"
    using shift_entries_string [of ?e gap pre ?r] w Cons.prems by (auto simp: env_nameD)
  obtain g gs where g: "g1 = g # gs" using g1 Cons.prems by (cases g1) auto
  let ?d = "(pre @ ?e) @ g1 @ NUL # ?r" and ?d' = "(pre @ ?e) @ NUL # gs @ NUL # ?r"
  have l: "load ?d (length pre + length ?e + length gap) = Some NUL"
    using load_at [of "pre @ ?e @ g1" NUL ?r] g1 by (simp add: add_ac)
  have st: "store ?d (length pre + length ?e) NUL = Some ?d'"
    using store_at [of "pre @ ?e" g] g by simp
  show ?case
  proof (cases "es = []")
    case True
    have "load ?d' (Suc (length pre + length ?e + length gap)) = Some NUL"
      using True g g1 by (intro load_eqI [of _ "(pre @ ?e) @ NUL # gs @ [NUL]" _ rest]) auto
    then have "shift_entries ?d (length pre + length ?e) (length pre + length ?e + length gap) =
        Some (?d', length pre + length ?e)"
      using l st by (subst shift_entries.simps) simp
    then show ?thesis
      using run p True g g1 by (intro exI [of _ "gs @ [NUL]"]) simp
  next
    case False
    obtain q qs where q: "es = q # qs" using False by (cases es) auto
    obtain n' v' where q': "q = (n', v')" by (cases q)
    have "\<exists>x xs. flat es = x # xs \<and> x \<noteq> NUL"
      using w(3) q q' by (cases n') (auto simp: env_name_def)
    then obtain x xs where x: "flat es = x # xs" "x \<noteq> NUL" by blast
    have "load ?d' (Suc (length pre + length ?e + length gap)) = Some x"
      using x g g1
      by (intro load_eqI [of _ "(pre @ ?e) @ NUL # gs @ [NUL]" _ "xs @ NUL # rest"]) auto
    then have "shift_entries ?d (length pre + length ?e) (length pre + length ?e + length gap) =
        shift_entries ((pre @ ?e @ [NUL]) @ (gs @ [NUL]) @ flat es @ NUL # rest)
          (length (pre @ ?e @ [NUL])) (length (pre @ ?e @ [NUL]) + length (gs @ [NUL]))"
      using l st x g g1 by (subst shift_entries.simps) (simp add: add_ac)
    then show ?thesis
      using Cons.IH [of "gs @ [NUL]" "pre @ ?e @ [NUL]"] w False run p g g1 by auto
  qed
qed simp


lemma wf_entries_filter: "wf_entries es \<Longrightarrow> wf_entries (filter P es)"
  by (auto simp: wf_entries_def distinct_map_filter)

lemma flat_nonempty: "es \<noteq> [] \<Longrightarrow> wf_entries es \<Longrightarrow>
    \<exists>x xs. flat es = x # xs \<and> x \<noteq> NUL"
  by (cases es; cases "fst (hd es)") (auto simp: env_name_def)

lemma delete_entry_eq:
  assumes wf: "wf_entries (before @ (name, v) # after)"
    and d: "d = flat (before @ (name, v) # after) @ NUL # rest"
  shows "\<exists>rest'. delete_entry d (length (flat before)) (length (flat before) + length (entry name v)) =
      Some (flat (before @ after) @ NUL # rest') \<and>
    length (flat (before @ after) @ NUL # rest') = length d \<and>
    (before @ after = [] \<longrightarrow> (\<exists>r. rest' = NUL # r))"
proof -
  let ?pre = "flat before" and ?e = "entry name v"
  have w: "wf_entries after" "env_name name" "nonul v" using wf by (auto simp: wf_entries_def)
  have d': "d = ?pre @ (?e @ [NUL]) @ flat after @ NUL # rest" by (simp add: d entry_def)
  obtain c cs where c: "?e = c # cs" by (cases ?e) (auto simp: entry_def)
  have nx: "Suc (length ?pre + length ?e) = length (?pre @ ?e @ [NUL])" by simp
  show ?thesis
  proof (cases "after = []")
    case False
    obtain x xs where x: "flat after = x # xs" "x \<noteq> NUL" using flat_nonempty [OF False w(1)] by blast
    have l: "load d (Suc (length ?pre + length ?e)) = Some x"
      unfolding nx using d' x by (intro load_eqI [of _ "?pre @ ?e @ [NUL]" _ "xs @ NUL # rest"]) auto
    obtain gap' where gap: "length gap' = length (?e @ [NUL])" and
      run: "shift_entries d (length ?pre) (length ?pre + length (?e @ [NUL])) =
        Some (?pre @ flat after @ gap' @ NUL # rest, length ?pre + length (flat after) - 1)"
      using shift_entries_eq [OF w(1) False, of "?e @ [NUL]" ?pre rest] unfolding d' by auto
    obtain g gs where g: "gap' = g # gs" using gap by (cases gap') auto
    have "store (?pre @ flat after @ gap' @ NUL # rest) (Suc (length ?pre + length (flat after) - 1)) NUL =
        Some ((?pre @ flat after) @ NUL # gs @ NUL # rest)"
      using store_at [of "?pre @ flat after" g "gs @ NUL # rest" NUL] x g by simp
    then show ?thesis
      using l run x False gap g d' by (simp add: delete_entry_def)
  next
    case True
    have l: "load d (Suc (length ?pre + length ?e)) = Some NUL"
      unfolding nx using d' True by (intro load_eqI [of _ "?pre @ ?e @ [NUL]" _ rest]) auto
    show ?thesis
    proof (cases "before = []")
      case False
      then have "length ?pre > 0" by simp
      then have "store d (Suc (length ?pre - 1)) NUL = Some (?pre @ NUL # cs @ [NUL] @ NUL # rest)"
        using store_at [of ?pre c "cs @ [NUL] @ NUL # rest" NUL] d' True c by simp
      then show ?thesis using l True False d' c by (simp add: delete_entry_def)
    next
      case b: True
      obtain y ys where y: "cs @ [NUL] @ NUL # rest = y # ys" by (cases "cs @ [NUL] @ NUL # rest") auto
      have "length (cs @ [NUL] @ NUL # rest) = length (y # ys)" by (simp only: y)
      then have "length ys = length cs + length rest + 1" by simp
      then show ?thesis
        using l True b d' c y by (simp add: delete_entry_def)
    qed
  qed
qed

section \<open>Appending\<close>

lemma end_of_data_string:
  "nonul e \<Longrightarrow> end_of_data (pre @ e @ NUL # r) (length pre) =
     end_of_data ((pre @ e) @ NUL # r) (length (pre @ e))"
proof (induction e arbitrary: pre)
  case (Cons c e)
  then show ?case
    using Cons.IH [of "pre @ [c]"] by (subst end_of_data.simps) (simp add: load_at)
qed simp

lemma end_of_data_eq:
  "\<lbrakk>wf_entries es; es \<noteq> []\<rbrakk> \<Longrightarrow>
   end_of_data (pre @ flat es @ NUL # rest) (length pre) = Some (length pre + length (flat es) - 1)"
proof (induction es arbitrary: pre)
  case (Cons p es)
  obtain n v where p: "p = (n, v)" by (cases p)
  from Cons.prems p have w: "env_name n" "nonul v" "wf_entries es" by simp_all
  let ?e = "n @ CHR ''='' # v" and ?r = "flat es @ NUL # rest"
  have run: "end_of_data (pre @ flat (p # es) @ NUL # rest) (length pre) =
      end_of_data ((pre @ ?e) @ NUL # ?r) (length (pre @ ?e))"
    using end_of_data_string [of ?e pre ?r] w p by (simp add: env_nameD)
  have l: "load ((pre @ ?e) @ NUL # ?r) (length (pre @ ?e)) = Some NUL" by (rule load_at)
  show ?case
  proof (cases "es = []")
    case True
    have "load ((pre @ ?e) @ NUL # ?r) (Suc (length (pre @ ?e))) = Some NUL"
      using True by (intro load_eqI [of _ "(pre @ ?e) @ [NUL]" _ rest]) auto
    then have "end_of_data ((pre @ ?e) @ NUL # ?r) (length (pre @ ?e)) = Some (length (pre @ ?e))"
      using l by (subst end_of_data.simps) simp
    then show ?thesis using run True p by simp
  next
    case False
    obtain x xs where x: "flat es = x # xs" "x \<noteq> NUL" using flat_nonempty [OF False w(3)] by blast
    have "load ((pre @ ?e) @ NUL # ?r) (Suc (length (pre @ ?e))) = Some x"
      using x by (intro load_eqI [of _ "(pre @ ?e) @ [NUL]" _ "xs @ NUL # rest"]) auto
    then have "end_of_data ((pre @ ?e) @ NUL # ?r) (length (pre @ ?e)) =
        end_of_data ((pre @ ?e @ [NUL]) @ flat es @ NUL # rest) (length (pre @ ?e @ [NUL]))"
      using l x(2) by (subst end_of_data.simps) simp
    then show ?thesis
      using run Cons.IH [OF w(3) False, of "pre @ ?e @ [NUL]"] p x by simp
  qed
qed simp

fun args_text :: "char \<Rightarrow> string list \<Rightarrow> string" where
  "args_text sep [] = []"
| "args_text sep (v # vs) = sep # v @ args_text (CHR '' '') vs"

lemma args_length_cstr:
  "\<forall>v \<in> set vs. nonul v \<Longrightarrow> args_length (map cstr vs) = Some (length (args_text sep vs))"
proof (induction vs arbitrary: sep)
  case (Cons v vs)
  then show ?case using Cons.IH [of "CHR '' ''"] by (simp add: strlen_cstr)
qed simp

lemma copy_str_eq:
  "\<lbrakk>nonul s; length old = Suc (length s)\<rbrakk> \<Longrightarrow>
   copy_str (pre @ old @ r) (length pre) (cstr s) = Some (pre @ s @ NUL # r, length pre + length s)"
proof (induction s arbitrary: pre old)
  case Nil
  then obtain x where "old = [x]" by (cases old) auto
  then show ?case by (simp add: store_at)
next
  case (Cons c s)
  then obtain x xs where o: "old = x # xs" by (cases old) auto
  then show ?case
    using Cons.IH [of xs "pre @ [c]"] Cons.prems by (simp add: store_at)
qed

lemma copy_args_eq:
  "\<lbrakk>\<forall>v \<in> set vs. nonul v; length old = length (args_text sep vs)\<rbrakk> \<Longrightarrow>
   copy_args (pre @ NUL # old @ r) (length pre) sep (map cstr vs) =
     Some (pre @ args_text sep vs @ NUL # r, length pre + length (args_text sep vs))"
proof (induction vs arbitrary: pre old sep)
  case (Cons v vs)
  define o1 where "o1 = take (Suc (length v)) (old @ r)"
  let ?t = "args_text (CHR '' '') vs"
  obtain o1 o2 where o: "old = o1 @ o2" "length o1 = Suc (length v)" "length o2 = length ?t"
  proof
    show "old = take (Suc (length v)) old @ drop (Suc (length v)) old" by simp
  qed (use Cons.prems in simp_all)
  have "copy_str ((pre @ [sep]) @ o1 @ o2 @ r) (length (pre @ [sep])) (cstr v) =
      Some ((pre @ [sep]) @ v @ NUL # o2 @ r, length (pre @ [sep]) + length v)"
    using Cons.prems o by (intro copy_str_eq) auto
  then show ?case
    using Cons.IH [of o2 "CHR '' ''" "pre @ sep # v"] Cons.prems o by (simp add: store_at)
qed simp

lemma append_entry_eq:
  assumes rep: "env_rep d es" and name: "env_name name" "name \<notin> fst ` set es"
    and vals: "vs \<noteq> []" "\<forall>v \<in> set vs. nonul v"
  shows "if length (flat es) + length name + length (args_text (CHR ''='') vs) + 2 > length d
    then append_entry d (cstr name) (map cstr vs) = Some (d, False)
    else \<exists>d'. append_entry d (cstr name) (map cstr vs) = Some (d', True) \<and> length d' = length d \<and>
      env_rep d' (es @ [(name, tl (args_text (CHR ''='') vs))])"
proof -
  let ?t = "args_text (CHR ''='') vs"
  obtain rest where d: "d = flat es @ NUL # rest" and em: "es = [] \<longrightarrow> (\<exists>r. rest = NUL # r)"
    and wf: "wf_entries es" using rep by (auto simp: env_rep_def)
  obtain v vs' where v: "vs = v # vs'" using vals(1) by (cases vs) auto
  have nt: "nonul (tl ?t)"
  proof -
    have "nonul (args_text (CHR '' '') us)" if "\<forall>v \<in> set us. nonul v" for us
      using that by (induction us) auto
    then show ?thesis using vals v by simp
  qed
  have env: "\<exists>env. end_of_data d 0 = Some env \<and> (if env > 0 then Suc env else env) = length (flat es)"
  proof (cases "es = []")
    case True
    then show ?thesis using em d by (auto simp: end_of_data.simps)
  next
    case False
    then obtain n w es' where es: "es = (n, w) # es'" by (cases es) auto
    show ?thesis using end_of_data_eq [OF wf False, of "[]" rest] d es by simp
  qed
  then obtain env where env: "end_of_data d 0 = Some env"
    "(if env > 0 then Suc env else env) = length (flat es)" by blast
  have al: "args_length (map cstr vs) = Some (length ?t)" by (rule args_length_cstr [OF vals(2)])
  have sl: "strlen (cstr name) = Some (length name)" using name by (simp add: strlen_cstr env_nameD)
  have fits: "(length name + 2 + length ?t > length d - length (flat es)) =
      (length (flat es) + length name + length ?t + 2 > length d)" using d by auto
  show ?thesis
  proof (cases "length (flat es) + length name + length ?t + 2 > length d")
    case True
    then show ?thesis using env al sl fits by (simp add: append_entry_def)
  next
    case False
    let ?r = "NUL # rest"
    have lr: "length name + length ?t + 2 \<le> length ?r" using False d by simp
    define o1 o2 x r where "o1 = take (Suc (length name)) ?r"
      and "o2 = take (length ?t) (drop (Suc (length name)) ?r)"
      and "x = ?r ! (Suc (length name) + length ?t)"
      and "r = drop (Suc (Suc (length name) + length ?t)) ?r"
    have split: "?r = o1 @ o2 @ x # r"
    proof -
      have "drop (Suc (length name) + length ?t) ?r = x # r"
        unfolding x_def r_def using lr by (intro Cons_nth_drop_Suc [symmetric]) simp
      then show ?thesis unfolding o1_def o2_def by (metis append_take_drop_id drop_drop add.commute)
    qed
    have len: "length o1 = Suc (length name)" "length o2 = length ?t"
      using lr by (simp_all add: o1_def o2_def)
    have 1: "copy_str d (length (flat es)) (cstr name) =
        Some (flat es @ name @ NUL # o2 @ x # r, length (flat es) + length name)"
      unfolding d split using len name by (intro copy_str_eq) (simp_all add: env_nameD)
    have 2: "copy_args (flat es @ name @ NUL # o2 @ x # r) (length (flat es) + length name)
          (CHR ''='') (map cstr vs) =
        Some (flat es @ name @ ?t @ NUL # x # r, length (flat es) + length name + length ?t)"
      using copy_args_eq [OF vals(2), of o2 "CHR ''=''" "flat es @ name" "x # r"] len by simp
    have 3: "store (flat es @ name @ ?t @ NUL # x # r)
          (Suc (length (flat es) + length name + length ?t)) NUL =
        Some (flat es @ name @ ?t @ NUL # NUL # r)"
      using store_at [of "flat es @ name @ ?t @ [NUL]" x r NUL] by (simp add: add.assoc)
    have t: "?t = CHR ''='' # tl ?t" using v by simp
    let ?d = "flat es @ name @ ?t @ NUL # NUL # r"
    have d': "?d = flat (es @ [(name, tl ?t)]) @ NUL # r"
      by (subst t) simp
    have "append_entry d (cstr name) (map cstr vs) = Some (?d, True)"
      using env al sl fits False 1 2 3 by (simp add: append_entry_def Let_def)
    moreover have "length ?d = length d" unfolding d split using len by simp
    moreover have "wf_entries (es @ [(name, tl ?t)])"
      using wf name nt by (auto simp: wf_entries_def)
    then have "env_rep ?d (es @ [(name, tl ?t)])"
      unfolding env_rep_def d' by auto
    ultimately show ?thesis using False by simp
  qed
qed

end
