(* ===== verification/Environment.thy ===== *)
theory Environment
  imports Env_Data Console Crc32
begin

text \<open>
  The environment (\<open>common/env_common.c\<close>, \<open>common/env_flash.c\<close>, \<open>common/cmd_nvedit.c\<close>) and
  the state of the board its variables control: baud rate, IP and Ethernet addresses, load
  address, boot file.  The loops on the data area are those of \<open>Env_Data\<close>; here are the
  handlers around them, with the CRC, the console assignments and the network settings.
\<close>

section \<open>The state\<close>

record env_t =
  crc :: u32
  edata :: buf

datatype env_place = Env_Flash | Env_RAM | Env_Default

record eth_device =
  eth_name :: buf
  enetaddr :: buf
  eth_state :: int

text \<open>
  \<open>env_place\<close> is what \<open>gd->env_addr\<close> points to, \<open>env_in_ram\<close> says that \<open>env_ptr\<close> is the buffer
  allocated by \<open>env_relocate\<close> (before it is the flash).  The Ethernet devices are in the order
  of the circular list that starts at \<open>eth_devices\<close>.
\<close>

record board = console +
  env_valid :: nat
  env_place :: env_place
  env_in_ram :: bool
  flash_env :: env_t
  ram_env :: env_t
  default_environment :: buf
  baudrate :: u32
  bi_enetaddr :: buf
  bi_ip_addr :: u32
  load_addr :: u32
  BootFile :: buf
  eth_devices :: "eth_device list"
  eth_current :: "nat option"
  NetRestartWrap :: bool

definition ENV_HEADER_SIZE :: nat where "ENV_HEADER_SIZE = 4"

text \<open>
  \<open>ENV_SIZE\<close>, the size of the data area: a constant of the board configuration, here the
  length of the data area of the flash copy.
\<close>

definition ENV_SIZE :: "board \<Rightarrow> nat" where
  "ENV_SIZE st = length (edata (flash_env st))"

definition CFG_ENV_SIZE :: "board \<Rightarrow> nat" where
  "CFG_ENV_SIZE st = ENV_SIZE st + ENV_HEADER_SIZE"

definition bytes :: "buf \<Rightarrow> u8 list" where
  "bytes b = map (\<lambda>c. of_nat (code c)) b"

section \<open>Reading the environment\<close>

text \<open>The bytes \<open>env_get_char\<close> and \<open>env_get_addr\<close> give access to.\<close>

definition env_mem :: "board \<Rightarrow> buf" where
  "env_mem st =
     (if env_valid st \<noteq> 0 then
        (case env_place st of
           Env_Flash \<Rightarrow> edata (flash_env st)
         | Env_RAM \<Rightarrow> edata (ram_env st)
         | Env_Default \<Rightarrow> default_environment st)
      else default_environment st)"

definition env_get_char :: "board \<Rightarrow> nat \<Rightarrow> char option" where
  "env_get_char st i = load (env_mem st) i"

text \<open>Writing through the pointer of \<open>env_get_addr\<close>; the flash cannot be written so.\<close>

definition set_env_mem :: "buf \<Rightarrow> board \<Rightarrow> board option" where
  "set_env_mem d st =
     (if env_valid st \<noteq> 0 then
        (case env_place st of
           Env_Flash \<Rightarrow> None
         | Env_RAM \<Rightarrow> Some (st\<lparr>ram_env := (ram_env st)\<lparr>edata := d\<rparr>\<rparr>)
         | Env_Default \<Rightarrow> Some (st\<lparr>default_environment := d\<rparr>))
      else Some (st\<lparr>default_environment := d\<rparr>))"

text \<open>The result of \<open>getenv\<close> is the pointer to the value.\<close>

definition getenv :: "buf \<Rightarrow> board \<Rightarrow> buf option option" where
  "getenv name st =
     map_option (map_option (\<lambda>i. drop i (env_mem st)))
       (getenv_from (CFG_ENV_SIZE st) (env_mem st) name 0)"

definition getenv_r :: "buf \<Rightarrow> buf \<Rightarrow> nat \<Rightarrow> board \<Rightarrow> (buf \<times> int) option" where
  "getenv_r name b len st =
     do { found \<leftarrow> getenv_from (CFG_ENV_SIZE st) (env_mem st) name 0;
          (case found of
             None \<Rightarrow> Some (b, -1)
           | Some val \<Rightarrow> getenv_r_found (env_mem st) val b len) }"

section \<open>Initialisation and the CRC\<close>

definition env_crc_update :: "board \<Rightarrow> board option" where
  "env_crc_update st =
     (if env_in_ram st then
        do { c \<leftarrow> crc32 0 (bytes (edata (ram_env st))) (ENV_SIZE st);
             Some (st\<lparr>ram_env := (ram_env st)\<lparr>crc := c\<rparr>\<rparr>) }
      else None)"

definition env_init :: "board \<Rightarrow> (int \<times> board) option" where
  "env_init st =
     do { c \<leftarrow> crc32 0 (bytes (edata (flash_env st))) (ENV_SIZE st);
          Some (0, if c = crc (flash_env st) then st\<lparr>env_place := Env_Flash, env_valid := 1\<rparr>
                   else st\<lparr>env_place := Env_Default, env_valid := 0\<rparr>) }"

definition env_relocate_spec :: "board \<Rightarrow> board" where
  "env_relocate_spec st = st\<lparr>ram_env := flash_env st\<rparr>"

text \<open>\<open>junk\<close> is what \<open>malloc\<close> returns: a block with unknown contents, or NULL.\<close>

definition env_relocate :: "env_t option \<Rightarrow> board \<Rightarrow> board option" where
  "env_relocate junk st =
     do { blk \<leftarrow> junk;
          let st = st\<lparr>env_in_ram := True, ram_env := blk\<rparr>
          in if env_valid st = 0 then
               do { st \<leftarrow> puts (cstr (''*** Warning - bad CRC, using default environment'' @
                                  [CHR 0x0A, CHR 0x0A])) st;
                    if length (default_environment st) > ENV_SIZE st then
                      puts (cstr (''*** Error - default environment is too large'' @
                                  [CHR 0x0A, CHR 0x0A])) st
                    else
                      let d = default_environment st;
                          st = st\<lparr>ram_env := \<lparr>crc = 0, edata = d @ replicate (ENV_SIZE st - length d) NUL\<rparr>\<rparr>
                      in do { st \<leftarrow> env_crc_update st;
                              Some (st\<lparr>env_valid := 1, env_place := Env_RAM\<rparr>) } }
             else
               Some ((env_relocate_spec st)\<lparr>env_place := Env_RAM\<rparr>) }"

section \<open>Addresses in variables\<close>

text \<open>Six bytes in hexadecimal, each but the first after one separator character.\<close>

fun parse_bytes :: "nat \<Rightarrow> u32 \<Rightarrow> buf option \<Rightarrow> u32 list option" where
  "parse_bytes 0 base s = Some []"
| "parse_bytes (Suc n) base None = map_option (Cons 0) (parse_bytes n base None)"
| "parse_bytes (Suc n) base (Some s) =
     do { (v, k) \<leftarrow> simple_strtoul s base;
          e \<leftarrow> load s k;
          rest \<leftarrow> parse_bytes n base (Some (drop (if e \<noteq> NUL then Suc k else k) s));
          Some (v # rest) }"

definition parse_enetaddr :: "buf option \<Rightarrow> buf option" where
  "parse_enetaddr s = map_option (map (\<lambda>v. char_of (unat v))) (parse_bytes 6 16 s)"

text \<open>\<open>addr <<= 8; addr |= (val & 0xFF);\<close> four times.\<close>

definition parse_ipaddr :: "buf option \<Rightarrow> u32 option" where
  "parse_ipaddr s =
     map_option (foldl (\<lambda>addr v. push_bit 8 addr OR (v AND 0xFF)) 0) (parse_bytes 4 10 s)"

text \<open>\<open>while (num-- > 0) { dev = dev->next; if (dev == eth_devices) return; }\<close> on a ring of \<open>n\<close>.\<close>

function eth_walk :: "nat \<Rightarrow> int \<Rightarrow> nat \<Rightarrow> nat option" where
  "eth_walk n num dev =
     (if num > 0 then
        (let dev = Suc dev mod n in if dev = 0 then None else eth_walk n (num - 1) dev)
      else Some dev)"
  by pat_completeness auto
termination by (relation "measure (\<lambda>(_, num, _). nat num)") auto

declare eth_walk.simps [simp del]

definition eth_set_enetaddr :: "int \<Rightarrow> buf option \<Rightarrow> board \<Rightarrow> board option" where
  "eth_set_enetaddr num addr st =
     (if eth_devices st = [] then Some st
      else
        do { a \<leftarrow> parse_enetaddr addr;
             (case eth_walk (length (eth_devices st)) num 0 of
                None \<Rightarrow> Some st
              | Some i \<Rightarrow>
                  Some (st\<lparr>eth_devices := (eth_devices st)[i := (eth_devices st ! i)\<lparr>enetaddr := a\<rparr>]\<rparr>)) })"

text \<open>\<open>copy_filename\<close> of \<open>net/net.c\<close>.\<close>

function copy_name :: "buf \<Rightarrow> nat \<Rightarrow> buf \<Rightarrow> int \<Rightarrow> buf option" where
  "copy_name dst pos src n =
     (if n - 1 > 0 then
        (case src of
           [] \<Rightarrow> None
         | c # s \<Rightarrow>
             if c \<noteq> NUL \<and> c \<noteq> CHR 0x22 then
               (case store dst pos c of
                  None \<Rightarrow> None
                | Some dst \<Rightarrow> copy_name dst (Suc pos) s (n - 1))
             else store dst pos NUL)
      else store dst pos NUL)"
  by pat_completeness auto
termination by (relation "measure (\<lambda>(_, _, src, _). length src)") auto

declare copy_name.simps [simp del]

definition copy_filename :: "buf \<Rightarrow> buf \<Rightarrow> int \<Rightarrow> buf option" where
  "copy_filename dst src n =
     do { c \<leftarrow> load src 0;
          if c = CHR 0x22 then copy_name dst 0 (drop 1 src) (n - 1) else copy_name dst 0 src n }"

section \<open>Setting a variable\<close>

definition baudrate_table :: "u32 list" where
  "baudrate_table = [9600, 19200, 38400, 57600, 115200]"

text \<open>\<open>for (;;) { if (getc() == '\r') break; }\<close>\<close>

partial_function (option) wait_enter :: "board \<Rightarrow> board option" where
  "wait_enter st =
     do { (c, st) \<leftarrow> getc st; if c = 13 then Some st else wait_enter st }"

text \<open>
  The pointer arguments are \<open>None\<close> for NULL.  The Boolean of the result says whether
  \<open>_do_setenv\<close> goes on; otherwise it returns 1.
\<close>

definition setenv_console ::
  "(u32 \<Rightarrow> int) \<Rightarrow> nat \<Rightarrow> buf \<Rightarrow> buf option \<Rightarrow> board \<Rightarrow> (bool \<times> board) option" where
  "setenv_console start argc name arg2 st =
     do { a \<leftarrow> strcmp name (cstr ''stdin'');
          b \<leftarrow> strcmp name (cstr ''stdout'');
          c \<leftarrow> strcmp name (cstr ''stderr'');
          let console = (if a = 0 then stdin_file else if b = 0 then stdout_file
                         else if c = 0 then stderr_file else -1)
          in if console \<noteq> -1 then
               if argc < 3 then
                 do { st \<leftarrow> printf (''Can%sdelete %s'') [VStr None, VStr (Some name)] st;
                      Some (False, st) }
               else
                 do { dev \<leftarrow> arg2;
                      (r, st) \<leftarrow> console_assign start console dev st;
                      Some (r \<ge> 0, st) }
             else Some (True, st) }"


text \<open>
  The baud rate: \<open>simple_strtoul\<close> reads through a NULL pointer when the variable is deleted.
  \<open>serial_setbrg\<close> programs the serial port and has no effect in the model.
\<close>

definition setenv_baudrate :: "buf \<Rightarrow> buf option \<Rightarrow> board \<Rightarrow> (bool \<times> board) option" where
  "setenv_baudrate name arg2 st =
     do { r \<leftarrow> strcmp name (cstr ''baudrate'');
          if r = 0 then
            do { s \<leftarrow> arg2;
                 (rate, _) \<leftarrow> simple_strtoul s 10;
                 if rate \<notin> set baudrate_table then
                   do { st \<leftarrow> printf (''## Baudrate %d bps not supported'' @ [CHR 0x0A]) [VWord rate] st;
                        Some (False, st) }
                 else
                   do { st \<leftarrow> printf (''## Switch baudrate to %d bps and press ENTER ...'' @ [CHR 0x0A])
                                [VWord rate] st;
                        st \<leftarrow> udelay 50000 st;
                        st \<leftarrow> udelay 50000 (st\<lparr>baudrate := rate\<rparr>);
                        st \<leftarrow> wait_enter st;
                        Some (True, st) } }
          else Some (True, st) }"

text \<open>Deleting the old definition at \<open>env\<close>, \<open>nxt\<close>.\<close>

definition setenv_delete ::
  "(u32 \<Rightarrow> int) \<Rightarrow> nat \<Rightarrow> buf \<Rightarrow> buf option \<Rightarrow> nat \<Rightarrow> nat \<Rightarrow> board \<Rightarrow> (bool \<times> board) option" where
  "setenv_delete start argc name arg2 env nxt st =
     do { (go, st) \<leftarrow> setenv_console start argc name arg2 st;
          if \<not> go then Some (False, st)
          else
            do { (go, st) \<leftarrow> setenv_baudrate name arg2 st;
                 if \<not> go then Some (False, st)
                 else
                   do { d \<leftarrow> delete_entry (env_mem st) env nxt;
                        st \<leftarrow> set_env_mem d st;
                        Some (True, st) } } }"

text \<open>\<open>ethaddr\<close> and \<open>eth<n>addr\<close>.\<close>

definition setenv_ethaddr :: "buf \<Rightarrow> buf option \<Rightarrow> board \<Rightarrow> board option" where
  "setenv_ethaddr name arg2 st =
     do { r \<leftarrow> strncmp name (cstr ''eth'') 3;
          if r = 0 then
            do { (num, k) \<leftarrow> simple_strtoul (drop 3 name) 10;
                 r \<leftarrow> strcmp (drop k (drop 3 name)) (cstr ''addr'');
                 if r = 0 then eth_set_enetaddr (sint num) arg2 st else Some st }
          else Some st }"

text \<open>The variables that have a copy elsewhere, after the environment has been changed.\<close>

definition setenv_effects :: "buf \<Rightarrow> buf \<Rightarrow> board \<Rightarrow> board option" where
  "setenv_effects name val st =
     do { ethaddr \<leftarrow> strcmp name (cstr ''ethaddr'');
          if ethaddr = 0 then
            do { a \<leftarrow> parse_enetaddr (Some val);
                 eth_set_enetaddr 0 (Some val) (st\<lparr>bi_enetaddr := a\<rparr>) }
          else
            do { ipaddr \<leftarrow> strcmp name (cstr ''ipaddr'');
                 if ipaddr = 0 then
                   do { addr \<leftarrow> parse_ipaddr (Some val); Some (st\<lparr>bi_ip_addr := htonl addr\<rparr>) }
                 else
                   do { loadaddr \<leftarrow> strcmp name (cstr ''loadaddr'');
                        if loadaddr = 0 then
                          do { (addr, _) \<leftarrow> simple_strtoul val 16; Some (st\<lparr>load_addr := addr\<rparr>) }
                        else
                          do { bootfile \<leftarrow> strcmp name (cstr ''bootfile'');
                               if bootfile = 0 then
                                 do { f \<leftarrow> copy_filename (BootFile st) val (int (length (BootFile st)));
                                      Some (st\<lparr>BootFile := f\<rparr>) }
                               else Some st } } } }"

text \<open>The pointers \<open>argv[2] ... argv[argc-1]\<close>, all of them strings.\<close>

fun strings :: "buf option list \<Rightarrow> buf list option" where
  "strings [] = Some []"
| "strings (None # ps) = None"
| "strings (Some s # ps) = map_option (Cons s) (strings ps)"

text \<open>
  \<open>_do_setenv\<close>: \<open>argv\<close> holds at least \<open>argc\<close> pointers and the NULL after them.  A NULL name or
  a read outside an array is \<^const>\<open>None\<close>.  The arguments do not lie in the environment.
\<close>

definition do_setenv0 ::
  "(u32 \<Rightarrow> int) \<Rightarrow> nat \<Rightarrow> buf option list \<Rightarrow> board \<Rightarrow> (int \<times> board) option" where
  "do_setenv0 start argc argv st =
     do { p1 \<leftarrow> load argv 1;
          name \<leftarrow> p1;
          arg2 \<leftarrow> load argv 2;
          old \<leftarrow> setenv_find (env_mem st) name 0;
          (go, st) \<leftarrow> (case old of
                         None \<Rightarrow> Some (True, st)
                       | Some (env, nxt) \<Rightarrow> setenv_delete start argc name arg2 env nxt st);
          if \<not> go then Some (1, st)
          else
            do { st \<leftarrow> setenv_ethaddr name arg2 st;
                 if argc < 3 \<or> arg2 = None then
                   do { st \<leftarrow> env_crc_update st; Some (0, st) }
                 else
                   do { vals \<leftarrow> strings (take (argc - 2) (drop 2 argv));
                        (d, fits) \<leftarrow> append_entry (env_mem st) name vals;
                        if \<not> fits then
                          do { st \<leftarrow> printf (''## Error: environment overflow, '' @ [CHR 0x22] @ ''%s'' @
                                          [CHR 0x22] @ '' deleted'' @ [CHR 0x0A])
                                       [VStr (Some name)] st;
                               Some (1, st) }
                        else
                          do { st \<leftarrow> set_env_mem d st;
                               st \<leftarrow> env_crc_update st;
                               val \<leftarrow> arg2;
                               st \<leftarrow> setenv_effects name val st;
                               Some (0, st) } } } }"

definition setenv :: "(u32 \<Rightarrow> int) \<Rightarrow> buf \<Rightarrow> buf option \<Rightarrow> board \<Rightarrow> board option" where
  "setenv start varname varvalue st =
     map_option snd (do_setenv0 start 3 [Some (cstr ''setenv''), Some varname, varvalue, None] st)"

definition do_setenv ::
  "(u32 \<Rightarrow> int) \<Rightarrow> buf \<Rightarrow> nat \<Rightarrow> buf option list \<Rightarrow> board \<Rightarrow> (int \<times> board) option" where
  "do_setenv start usage argc argv st =
     (if argc < 2 then
        do { st \<leftarrow> printf (''Usage:'' @ [CHR 0x0A] @ ''%s'' @ [CHR 0x0A]) [VStr (Some usage)] st;
             Some (1, st) }
      else do_setenv0 start argc argv st)"

section \<open>The command \<open>printenv\<close>\<close>

fun putc_all :: "string \<Rightarrow> 'a console_scheme \<Rightarrow> 'a console_scheme option" where
  "putc_all [] st = Some st"
| "putc_all (c # cs) st = do { st \<leftarrow> putc c st; putc_all cs st }"

text \<open>All variables: the index where the loop stops, or \<open>None\<close> for control-C.\<close>

function printenv_all :: "buf \<Rightarrow> nat \<Rightarrow> board \<Rightarrow> (nat option \<times> board) option" where
  "printenv_all d i st =
     (case load d i of
        None \<Rightarrow> None
      | Some c \<Rightarrow>
          if c = NUL then Some (Some i, st)
          else
            (case end_of_entry d i of
               None \<Rightarrow> None
             | Some nxt \<Rightarrow>
                 (case (do { st \<leftarrow> putc_all (take (nxt - i) (drop i d)) st;
                             st \<leftarrow> putc (CHR 0x0A) st;
                             ctrlc st }) of
                    None \<Rightarrow> None
                  | Some (stop, st1) \<Rightarrow>
                      if stop then
                        do { st2 \<leftarrow> puts (cstr ([CHR 0x0A] @ '' ** Abort'' @ [CHR 0x0A])) st1;
                             Some (None, st2) }
                      else printenv_all d (Suc nxt) st1)))"
  by pat_completeness auto
termination
  by (relation "measure (\<lambda>(d, i, _). length d - i)")
    (auto simp: load_eq_Some_iff dest!: end_of_entry_ge)

declare printenv_all.simps [simp del]

text \<open>
  One variable: the Boolean says that the last \<open>k\<close> was not negative.
\<close>

function printenv_one :: "buf \<Rightarrow> buf \<Rightarrow> nat \<Rightarrow> board \<Rightarrow> (bool \<times> board) option" where
  "printenv_one d name j st =
     (case load d j of
        None \<Rightarrow> None
      | Some c \<Rightarrow>
          if c = NUL then Some (False, st)
          else
            (case end_of_entry d j of
               None \<Rightarrow> None
             | Some nxt \<Rightarrow>
                 (case envmatch d name j of
                    None \<Rightarrow> None
                  | Some k \<Rightarrow>
                      if k < 0 then printenv_one d name (Suc nxt) st
                      else
                        do { st \<leftarrow> puts name st;
                             st \<leftarrow> putc (CHR ''='') st;
                             st \<leftarrow> putc_all (take (nxt - nat k) (drop (nat k) d)) st;
                             st \<leftarrow> putc (CHR 0x0A) st;
                             Some (True, st) })))"
  by pat_completeness auto
termination
  by (relation "measure (\<lambda>(d, _, j, _). length d - j)")
    (auto simp: load_eq_Some_iff dest!: end_of_entry_ge)

declare printenv_one.simps [simp del]

fun printenv_args :: "buf option list \<Rightarrow> int \<Rightarrow> board \<Rightarrow> (int \<times> board) option" where
  "printenv_args [] rcode st = Some (rcode, st)"
| "printenv_args (p # ps) rcode st =
     do { name \<leftarrow> p;
          (found, st) \<leftarrow> printenv_one (env_mem st) name 0 st;
          if found then printenv_args ps rcode st
          else
            do { st \<leftarrow> printf (''## Error: '' @ [CHR 0x22] @ ''%s'' @ [CHR 0x22] @ '' not defined'' @ [CHR 0x0A])
                         [VStr (Some name)] st;
                 printenv_args ps (rcode + 1) st } }"

definition do_printenv :: "nat \<Rightarrow> buf option list \<Rightarrow> board \<Rightarrow> (int \<times> board) option" where
  "do_printenv argc argv st =
     (if argc = 1 then
        do { (i, st) \<leftarrow> printenv_all (env_mem st) 0 st;
             (case i of
                None \<Rightarrow> Some (1, st)
              | Some i \<Rightarrow>
                  do { st \<leftarrow> printf ([CHR 0x0A] @ ''Environment size: %d/%d bytes'' @ [CHR 0x0A])
                               [VWord (of_nat i), VWord (of_nat (ENV_SIZE st))] st;
                       Some (0, st) }) }
      else printenv_args (take (argc - 1) (drop 1 argv)) 0 st)"

end
