(* ===== verification/Environment_Props.thy ===== *)
theory Environment_Props
  imports Environment
begin

text \<open>
  What the environment promises: \<open>setenv\<close> and \<open>getenv\<close> are the update and the lookup of a map
  from names to values, the array always holds a well-formed list of entries, and its CRC is
  right after every change that succeeds.
\<close>

section \<open>The invariant\<close>

definition env_entries :: "board \<Rightarrow> (string \<times> string) list \<Rightarrow> bool" where
  "env_entries st es \<longleftrightarrow> env_rep (edata (ram_env st)) es"

text \<open>The state after \<open>env_relocate\<close>, with output on the serial port.\<close>

definition env_ok :: "board \<Rightarrow> bool" where
  "env_ok st \<longleftrightarrow> env_valid st \<noteq> 0 \<and> env_place st = Env_RAM \<and> env_in_ram st \<and> \<not> devinit st \<and>
     length (edata (ram_env st)) = ENV_SIZE st \<and> (\<exists>es. env_entries st es)"

definition crc_ok :: "board \<Rightarrow> bool" where
  "crc_ok st \<longleftrightarrow> crc32 0 (bytes (edata (ram_env st))) (ENV_SIZE st) = Some (crc (ram_env st))"

definition env_value :: "string \<Rightarrow> board \<Rightarrow> string option" where
  "env_value name st = do { p \<leftarrow> getenv (cstr name) st; s \<leftarrow> p; str_at s }"

text \<open>Names without an effect outside the environment.\<close>

definition special_names :: "string list" where
  "special_names = [''stdin'', ''stdout'', ''stderr'', ''baudrate'', ''ipaddr'', ''loadaddr'', ''bootfile'']"

definition plain_name :: "string \<Rightarrow> bool" where
  "plain_name s \<longleftrightarrow> env_name s \<and> s \<notin> set special_names \<and> take 3 s \<noteq> ''eth'' \<and> length s \<le> 200"

lemma env_mem_ok: "env_ok st \<Longrightarrow> env_mem st = edata (ram_env st)"
  by (simp add: env_ok_def env_mem_def)

lemma set_env_mem_ok: "env_ok st \<Longrightarrow>
    set_env_mem d st = Some (st\<lparr>ram_env := (ram_env st)\<lparr>edata := d\<rparr>\<rparr>)"
  by (simp add: env_ok_def set_env_mem_def)

lemma env_rep_unique: "env_rep d es \<Longrightarrow> wf_entries es"
  by (simp add: env_rep_def)

section \<open>Looking up\<close>

lemma getenv_entries:
  assumes ok: "env_ok st" and es: "env_entries st es" and name: "env_name name"
  shows "\<exists>p. getenv (cstr name) st = Some p \<and>
    (case map_of es name of None \<Rightarrow> p = None | Some v \<Rightarrow> \<exists>s. p = Some s \<and> str_at s = Some v)"
proof -
  obtain rest where d: "edata (ram_env st) = flat es @ NUL # rest" and wf: "wf_entries es"
    using es by (auto simp: env_entries_def env_rep_def)
  have "length (flat es) \<le> CFG_ENV_SIZE st"
    using ok d by (simp add: env_ok_def CFG_ENV_SIZE_def)
  then have "\<exists>r. getenv_from (CFG_ENV_SIZE st) (env_mem st) (cstr name) 0 = Some r \<and>
    (case map_of es name of None \<Rightarrow> r = None
       | Some v \<Rightarrow> \<exists>i. r = Some i \<and> str_at (drop i (env_mem st)) = Some v)"
    unfolding env_mem_ok [OF ok] d
    by (rule getenv_from_eq [OF wf name, of "[]", unfolded append_Nil list.size(3) add_0])
  then obtain r where r: "getenv_from (CFG_ENV_SIZE st) (env_mem st) (cstr name) 0 = Some r"
    "case map_of es name of None \<Rightarrow> r = None
       | Some v \<Rightarrow> \<exists>i. r = Some i \<and> str_at (drop i (env_mem st)) = Some v" by blast
  show ?thesis using r by (cases "map_of es name") (auto simp: getenv_def)
qed

lemma env_value_entries:
  "env_ok st \<Longrightarrow> env_entries st es \<Longrightarrow> env_name name \<Longrightarrow> env_value name st = map_of es name"
  using getenv_entries [of st es name] by (auto simp: env_value_def split: option.splits)

lemma env_entries_determined:
  assumes "env_entries st es" "env_entries st es'" "env_ok st" "env_name name"
  shows "map_of es name = map_of es' name"
  using env_value_entries [OF assms(3) assms(1) assms(4)] env_value_entries [OF assms(3) assms(2) assms(4)]
  by simp

section \<open>Setting\<close>

lemma strcmp_differs: "nonul s \<Longrightarrow> nonul t \<Longrightarrow> s \<noteq> t \<Longrightarrow>
    \<exists>r. r \<noteq> 0 \<and> strcmp (cstr s) (cstr t) = Some r"
  using strcmp_cstr_returns [of s t] strcmp_cstr_zero_iff [of s t] by fastforce

lemma plain_name_strcmp:
  assumes "plain_name name" "t \<in> set special_names"
  shows "\<exists>r. r \<noteq> 0 \<and> strcmp (cstr name) (cstr t) = Some r"
proof (rule strcmp_differs)
  show "nonul name" using assms(1) by (simp add: plain_name_def env_nameD)
  show "nonul t" using assms(2) by (auto simp: special_names_def)
  show "name \<noteq> t" using assms by (auto simp: plain_name_def)
qed

lemma setenv_console_plain:
  "plain_name name \<Longrightarrow> setenv_console start argc (cstr name) arg2 st = Some (True, st)"
  using plain_name_strcmp [of name "''stdin''"] plain_name_strcmp [of name "''stdout''"]
    plain_name_strcmp [of name "''stderr''"]
  by (auto simp: setenv_console_def special_names_def Let_def)

lemma setenv_baudrate_plain:
  "plain_name name \<Longrightarrow> setenv_baudrate (cstr name) arg2 st = Some (True, st)"
  using plain_name_strcmp [of name "''baudrate''"]
  by (auto simp: setenv_baudrate_def special_names_def)

lemma setenv_ethaddr_plain: "plain_name name \<Longrightarrow> setenv_ethaddr (cstr name) arg2 st = Some st"
  using strncmp_cstr_returns [of name "''eth''" 3] strncmp_cstr_zero_iff [of name "''eth''" 3]
  by (auto simp: setenv_ethaddr_def plain_name_def env_name_def)

lemma plain_name_ethaddr: "plain_name name \<Longrightarrow>
    \<exists>r. r \<noteq> 0 \<and> strcmp (cstr name) (cstr ''ethaddr'') = Some r"
  by (rule strcmp_differs) (auto simp: plain_name_def env_name_def)

lemma setenv_effects_plain: "plain_name name \<Longrightarrow> setenv_effects (cstr name) val st = Some st"
  using plain_name_strcmp [of name "''ipaddr''"] plain_name_strcmp [of name "''loadaddr''"]
    plain_name_strcmp [of name "''bootfile''"] plain_name_ethaddr [of name]
  by (auto simp: setenv_effects_def special_names_def)

lemma env_crc_update_ok:
  assumes "env_ok st"
  shows "\<exists>c. env_crc_update st = Some (st\<lparr>ram_env := (ram_env st)\<lparr>crc := c\<rparr>\<rparr>) \<and>
    crc_ok (st\<lparr>ram_env := (ram_env st)\<lparr>crc := c\<rparr>\<rparr>)"
proof -
  have "length (bytes (edata (ram_env st))) = ENV_SIZE st"
    using assms by (simp add: env_ok_def bytes_def)
  then obtain c where "crc32 0 (bytes (edata (ram_env st))) (ENV_SIZE st) = Some c"
    by (simp add: crc32_eq)
  then show ?thesis
    using assms by (simp add: env_crc_update_def env_ok_def crc_ok_def ENV_SIZE_def)
qed

text \<open>The state after the old definition, if any, has been removed.\<close>

lemma setenv_deleted:
  assumes ok: "env_ok st" and es: "env_entries st es" and name: "plain_name name"
  shows "\<exists>d. (case setenv_find (env_mem st) (cstr name) 0 of
      None \<Rightarrow> None
    | Some None \<Rightarrow> Some (True, st)
    | Some (Some (env, nxt)) \<Rightarrow> setenv_delete start argc (cstr name) arg2 env nxt st) =
      Some (True, st\<lparr>ram_env := (ram_env st)\<lparr>edata := d\<rparr>\<rparr>) \<and>
    length d = ENV_SIZE st \<and> env_rep d (filter (\<lambda>p. fst p \<noteq> name) es)"
proof -
  let ?d = "edata (ram_env st)"
  obtain rest where d: "?d = flat es @ NUL # rest" and wf: "wf_entries es"
    and rep: "env_rep ?d es" using es by (auto simp: env_entries_def env_rep_def)
  have n: "env_name name" using name by (simp add: plain_name_def)
  note find = setenv_find_eq [OF wf n, of "[]" rest]
  show ?thesis
  proof (cases "name \<in> fst ` set es")
    case False
    then have "filter (\<lambda>p. fst p \<noteq> name) es = es" by (auto simp: filter_id_conv)
    then show ?thesis
      using find False ok d rep by (auto simp: env_mem_ok env_ok_def intro!: exI [of _ ?d])
  next
    case True
    obtain before v after where s: "es = before @ (name, v) # after" "map_of es name = Some v"
      "takeWhile (\<lambda>p. fst p \<noteq> name) es = before" "filter (\<lambda>p. fst p \<noteq> name) es = before @ after"
      using split_entries [OF True wf] by blast
    have f: "setenv_find (env_mem st) (cstr name) 0 =
        Some (Some (length (flat before), length (flat before) + length (entry name v)))"
      using find True s d by (simp add: env_mem_ok [OF ok] Let_def)
    obtain rest' where del: "delete_entry ?d (length (flat before))
          (length (flat before) + length (entry name v)) = Some (flat (before @ after) @ NUL # rest')"
      and len: "length (flat (before @ after) @ NUL # rest') = length ?d"
      and em: "before @ after = [] \<longrightarrow> (\<exists>r. rest' = NUL # r)"
      using delete_entry_eq [of before name v after ?d rest] wf s(1) d by auto
    let ?d' = "flat (before @ after) @ NUL # rest'"
    have "env_rep ?d' (filter (\<lambda>p. fst p \<noteq> name) es)"
      using em wf_entries_filter [OF wf] unfolding env_rep_def s(4) [symmetric] by auto
    moreover have "length ?d' = ENV_SIZE st" using len ok by (simp add: env_ok_def)
    ultimately show ?thesis
      using f del name ok
      by (intro exI [of _ ?d'])
        (simp add: setenv_delete_def setenv_console_plain setenv_baudrate_plain env_mem_ok set_env_mem_ok)
  qed
qed


definition new_value :: "string list \<Rightarrow> string" where
  "new_value vals = tl (args_text (CHR ''='') vals)"

text \<open>The argument vector of a command with string arguments.\<close>

definition argv_of :: "string list \<Rightarrow> buf option list" where
  "argv_of ws = map (\<lambda>w. Some (cstr w)) ws @ [None]"

lemma strings_of: "strings (map (\<lambda>w. Some (cstr w)) vals) = Some (map cstr vals)"
  by (induction vals) simp_all

lemma args_text_new: "vals \<noteq> [] \<Longrightarrow> length (args_text (CHR ''='') vals) = Suc (length (new_value vals))"
  by (cases vals) (simp_all add: new_value_def)

definition overflow_message :: "string \<Rightarrow> string" where
  "overflow_message name = ''## Error: environment overflow, '' @ [CHR 0x22] @ name @ [CHR 0x22] @
     '' deleted'' @ [CHR 0x0A]"

lemma print_overflow:
  assumes "\<not> devinit st" "nonul name" "length name \<le> 200"
  shows "printf (''## Error: environment overflow, '' @ [CHR 0x22] @ ''%s'' @ [CHR 0x22] @
      '' deleted'' @ [CHR 0x0A]) [VStr (Some (cstr name))] st =
    Some (st\<lparr>serial_tx := serial_tx st @ on_wire (overflow_message name)\<rparr>)"
  by (rule printf_serial) (use assms vsprintf_loop_s [of name] in
      \<open>simp_all add: overflow_message_def cstr_def CFG_PBSIZE_def del: vsprintf_loop.simps
        add: vsprintf_loop_char vsprintf_loop_end\<close>)

lemma do_setenv0_step:
  assumes "load argv 1 = Some (Some name)" "load argv 2 = Some (Some v)"
    "setenv_find (env_mem st) name 0 = Some old"
    "(case old of None \<Rightarrow> Some (True, st)
      | Some (env, nxt) \<Rightarrow> setenv_delete start argc name (Some v) env nxt st) = Some (True, st1)"
    "setenv_ethaddr name (Some v) st1 = Some st2" "\<not> argc < 3"
    "strings (take (argc - 2) (drop 2 argv)) = Some vals"
  shows "do_setenv0 start argc argv st =
    do { (d, fits) \<leftarrow> append_entry (env_mem st2) name vals;
         if \<not> fits then
           do { st \<leftarrow> printf (''## Error: environment overflow, '' @ [CHR 0x22] @ ''%s'' @
                           [CHR 0x22] @ '' deleted'' @ [CHR 0x0A])
                        [VStr (Some name)] st2;
                Some (1, st) }
         else
           do { st \<leftarrow> set_env_mem d st2;
                st \<leftarrow> env_crc_update st;
                st \<leftarrow> setenv_effects name v st;
                Some (0, st) } }"
  unfolding do_setenv0_def assms(1,2,3) bind.bind_lunit assms(4) prod.case using assms(5-)
  by simp

lemma do_setenv_plain:
  assumes ok: "env_ok st" and es: "env_entries st es" and name: "plain_name name"
    and vals: "vals \<noteq> []" "\<forall>v \<in> set vals. nonul v"
  defines "es' \<equiv> filter (\<lambda>p. fst p \<noteq> name) es"
  shows "\<exists>st'. do_setenv0 start (length vals + 2) (argv_of (cmd # name # vals)) st =
      Some (if length (flat es') + length name + length (new_value vals) + 3 > ENV_SIZE st then 1 else 0, st') \<and>
    env_ok st' \<and> ENV_SIZE st' = ENV_SIZE st \<and> (\<exists>e tx. st' = st\<lparr>ram_env := e, serial_tx := tx\<rparr>) \<and>
    (if length (flat es') + length name + length (new_value vals) + 3 > ENV_SIZE st
     then env_entries st' es' \<and> crc (ram_env st') = crc (ram_env st)
     else env_entries st' (es' @ [(name, new_value vals)]) \<and> crc_ok st')"
proof -
  obtain v vs where v: "vals = v # vs" using vals(1) by (cases vals) auto
  let ?argv = "argv_of (cmd # name # vals)" and ?arg2 = "Some (cstr v)"
  have argv: "load ?argv 1 = Some (Some (cstr name))" "load ?argv 2 = Some ?arg2"
    "strings (take (length vals + 2 - 2) (drop 2 ?argv)) = Some (map cstr vals)"
    using v strings_of [of vals] by (simp_all add: argv_of_def)
  obtain d where del: "(case setenv_find (env_mem st) (cstr name) 0 of
      None \<Rightarrow> None
    | Some None \<Rightarrow> Some (True, st)
    | Some (Some (env, nxt)) \<Rightarrow> setenv_delete start (length vals + 2) (cstr name) ?arg2 env nxt st) =
      Some (True, st\<lparr>ram_env := (ram_env st)\<lparr>edata := d\<rparr>\<rparr>)"
    and len: "length d = ENV_SIZE st" and rep: "env_rep d es'"
    using setenv_deleted [OF ok es name] unfolding es'_def by blast
  define st1 where "st1 = st\<lparr>ram_env := (ram_env st)\<lparr>edata := d\<rparr>\<rparr>"
  have ok1: "env_ok st1" and sz: "ENV_SIZE st1 = ENV_SIZE st"
    using ok len rep by (auto simp: st1_def env_ok_def env_entries_def devinit_def ENV_SIZE_def)
  have n: "env_name name" "name \<notin> fst ` set es'" "nonul name" "length name \<le> 200"
    using name by (auto simp: plain_name_def es'_def env_name_def)
  let ?over = "length (flat es') + length name + length (new_value vals) + 3 > ENV_SIZE st"
  have app: "if ?over then append_entry d (cstr name) (map cstr vals) = Some (d, False)
    else \<exists>d'. append_entry d (cstr name) (map cstr vals) = Some (d', True) \<and> length d' = length d \<and>
      env_rep d' (es' @ [(name, new_value vals)])"
  proof -
    have "(length (flat es') + length name + length (args_text (CHR ''='') vals) + 2 > length d) = ?over"
      unfolding args_text_new [OF vals(1)] len by arith
    then show ?thesis
      using append_entry_eq [OF rep n(1,2) vals] unfolding new_value_def by (simp only:)
  qed
  have start: "do_setenv0 start (length vals + 2) ?argv st =
      do { (d, fits) \<leftarrow> append_entry (env_mem st1) (cstr name) (map cstr vals);
           if \<not> fits then
             do { st \<leftarrow> printf (''## Error: environment overflow, '' @ [CHR 0x22] @ ''%s'' @
                             [CHR 0x22] @ '' deleted'' @ [CHR 0x0A])
                          [VStr (Some (cstr name))] st1;
                  Some (1, st) }
           else
             do { st \<leftarrow> set_env_mem d st1;
                  st \<leftarrow> env_crc_update st;
                  st \<leftarrow> setenv_effects (cstr name) (cstr v) st;
                  Some (0, st) } }"
  proof -
    obtain old where old: "setenv_find (env_mem st) (cstr name) 0 = Some old"
      and go: "(case old of None \<Rightarrow> Some (True, st)
         | Some (env, nxt) \<Rightarrow> setenv_delete start (length vals + 2) (cstr name) ?arg2 env nxt st) = Some (True, st1)"
      using del unfolding st1_def by (cases "setenv_find (env_mem st) (cstr name) 0") simp_all
    have "\<not> length vals + 2 < 3" using vals(1) by (cases vals) simp_all
    then show ?thesis
      by (rule do_setenv0_step [OF argv(1,2) old go setenv_ethaddr_plain [OF name] _ argv(3)])
  qed
  have mem: "env_mem st1 = d" using env_mem_ok [OF ok1] by (simp add: st1_def)
  show ?thesis
  proof (cases ?over)
    case True
    define st2 where "st2 = st1\<lparr>serial_tx := serial_tx st1 @ on_wire (overflow_message name)\<rparr>"
    have "do_setenv0 start (length vals + 2) ?argv st = Some (1, st2)"
      using start app True mem print_overflow [of st1 name] n ok1 by (simp add: st2_def env_ok_def)
    moreover have "env_ok st2" "ENV_SIZE st2 = ENV_SIZE st" "env_entries st2 es'"
        "crc (ram_env st2) = crc (ram_env st)"
      using ok1 sz rep by (simp_all add: st2_def st1_def env_ok_def env_entries_def ENV_SIZE_def)
    moreover have "\<exists>e tx. st2 = st\<lparr>ram_env := e, serial_tx := tx\<rparr>"
      unfolding st2_def st1_def by (intro exI) simp
    ultimately show ?thesis using True by simp
  next
    case False
    then obtain d' where d': "append_entry d (cstr name) (map cstr vals) = Some (d', True)"
      "length d' = length d" "env_rep d' (es' @ [(name, new_value vals)])" using app by auto
    define st2 where "st2 = st1\<lparr>ram_env := (ram_env st1)\<lparr>edata := d'\<rparr>\<rparr>"
    have set: "set_env_mem d' st1 = Some st2" using set_env_mem_ok [OF ok1] by (simp add: st2_def)
    have ok2: "env_ok st2" "ENV_SIZE st2 = ENV_SIZE st" "env_entries st2 (es' @ [(name, new_value vals)])"
      using ok1 sz len d' by (auto simp: st2_def env_ok_def env_entries_def devinit_def ENV_SIZE_def)
    obtain c where c: "env_crc_update st2 = Some (st2\<lparr>ram_env := (ram_env st2)\<lparr>crc := c\<rparr>\<rparr>)"
      "crc_ok (st2\<lparr>ram_env := (ram_env st2)\<lparr>crc := c\<rparr>\<rparr>)"
      using env_crc_update_ok [OF ok2(1)] by blast
    define st3 where "st3 = st2\<lparr>ram_env := (ram_env st2)\<lparr>crc := c\<rparr>\<rparr>"
    have "do_setenv0 start (length vals + 2) ?argv st = Some (0, st3)"
      using start d'(1) mem set c(1) setenv_effects_plain [OF name] by (simp add: st3_def)
    moreover have "env_ok st3" "ENV_SIZE st3 = ENV_SIZE st" "env_entries st3 (es' @ [(name, new_value vals)])"
      using ok2 by (auto simp: st3_def env_ok_def env_entries_def devinit_def ENV_SIZE_def)
    moreover have "st3 = st\<lparr>ram_env := ram_env st3, serial_tx := serial_tx st\<rparr>"
      by (simp add: st3_def st2_def st1_def)
    then have "\<exists>e tx. st3 = st\<lparr>ram_env := e, serial_tx := tx\<rparr>" by blast
    ultimately show ?thesis using False c(2) by (simp add: st3_def)
  qed
qed


lemma do_setenv_one:
  assumes ok: "env_ok st" and es: "env_entries st es" and name: "plain_name name" and v: "nonul v"
  defines "es' \<equiv> filter (\<lambda>p. fst p \<noteq> name) es"
  shows "\<exists>st'. do_setenv0 start 3 [Some (cstr cmd), Some (cstr name), Some (cstr v), None] st =
      Some (if length (flat es') + length name + length v + 3 > ENV_SIZE st then 1 else 0, st') \<and>
    env_ok st' \<and> ENV_SIZE st' = ENV_SIZE st \<and> (\<exists>e tx. st' = st\<lparr>ram_env := e, serial_tx := tx\<rparr>) \<and>
    (if length (flat es') + length name + length v + 3 > ENV_SIZE st
     then env_entries st' es' \<and> crc (ram_env st') = crc (ram_env st)
     else env_entries st' (es' @ [(name, v)]) \<and> crc_ok st')"
proof -
  have len: "length [v] + 2 = 3" and val: "new_value [v] = v" by (simp_all add: new_value_def)
  have vals: "[v] \<noteq> []" "\<forall>v \<in> set [v]. nonul v" using v by simp_all
  have argv: "argv_of (cmd # name # [v]) = [Some (cstr cmd), Some (cstr name), Some (cstr v), None]"
    by (simp add: argv_of_def)
  show ?thesis
    using do_setenv_plain [OF ok es name vals, of start cmd] unfolding len val es'_def argv .
qed

text \<open>Deleting: \<open>setenv name\<close>, or a NULL value.\<close>

lemma do_setenv0_delete_step:
  assumes "load argv 1 = Some (Some name)" "load argv 2 = Some None"
    "setenv_find (env_mem st) name 0 = Some old"
    "(case old of None \<Rightarrow> Some (True, st)
      | Some (env, nxt) \<Rightarrow> setenv_delete start argc name None env nxt st) = Some (True, st1)"
    "setenv_ethaddr name None st1 = Some st2" "env_crc_update st2 = Some st3"
  shows "do_setenv0 start argc argv st = Some (0, st3)"
  unfolding do_setenv0_def assms(1,2,3) bind.bind_lunit assms(4) prod.case using assms(5-) by simp

lemma do_setenv_delete:
  assumes ok: "env_ok st" and es: "env_entries st es" and name: "plain_name name"
    and argv: "load argv 1 = Some (Some (cstr name))" "load argv 2 = Some None"
  shows "\<exists>st'. do_setenv0 start argc argv st = Some (0, st') \<and> env_ok st' \<and>
    ENV_SIZE st' = ENV_SIZE st \<and> env_entries st' (filter (\<lambda>p. fst p \<noteq> name) es) \<and> crc_ok st'"
proof -
  let ?es = "filter (\<lambda>p. fst p \<noteq> name) es"
  obtain d where del: "(case setenv_find (env_mem st) (cstr name) 0 of
      None \<Rightarrow> None
    | Some None \<Rightarrow> Some (True, st)
    | Some (Some (env, nxt)) \<Rightarrow> setenv_delete start argc (cstr name) None env nxt st) =
      Some (True, st\<lparr>ram_env := (ram_env st)\<lparr>edata := d\<rparr>\<rparr>)"
    and len: "length d = ENV_SIZE st" and rep: "env_rep d ?es"
    using setenv_deleted [OF ok es name] by blast
  define st1 where "st1 = st\<lparr>ram_env := (ram_env st)\<lparr>edata := d\<rparr>\<rparr>"
  have ok1: "env_ok st1" "ENV_SIZE st1 = ENV_SIZE st" "env_entries st1 ?es"
    using ok len rep by (auto simp: st1_def env_ok_def env_entries_def devinit_def ENV_SIZE_def)
  obtain c where c: "env_crc_update st1 = Some (st1\<lparr>ram_env := (ram_env st1)\<lparr>crc := c\<rparr>\<rparr>)"
    "crc_ok (st1\<lparr>ram_env := (ram_env st1)\<lparr>crc := c\<rparr>\<rparr>)"
    using env_crc_update_ok [OF ok1(1)] by blast
  define st2 where "st2 = st1\<lparr>ram_env := (ram_env st1)\<lparr>crc := c\<rparr>\<rparr>"
  obtain old where old: "setenv_find (env_mem st) (cstr name) 0 = Some old"
    and go: "(case old of None \<Rightarrow> Some (True, st)
       | Some (env, nxt) \<Rightarrow> setenv_delete start argc (cstr name) None env nxt st) = Some (True, st1)"
    using del unfolding st1_def by (cases "setenv_find (env_mem st) (cstr name) 0") simp_all
  have "do_setenv0 start argc argv st = Some (0, st2)"
    using do_setenv0_delete_step [OF argv old go setenv_ethaddr_plain [OF name] c(1)] by (simp add: st2_def)
  moreover have "env_ok st2" "ENV_SIZE st2 = ENV_SIZE st" "env_entries st2 ?es"
    using ok1 by (auto simp: st2_def env_ok_def env_entries_def devinit_def ENV_SIZE_def)
  ultimately show ?thesis using c(2) by (auto simp: st2_def)
qed

section \<open>The environment as a map\<close>

text \<open>A store of strings by name, with one operation that sets or (with \<open>None\<close>) deletes.\<close>

fun updates :: "('k \<Rightarrow> 'v \<Rightarrow> 's \<Rightarrow> 's option) \<Rightarrow> ('k \<times> 'v) list \<Rightarrow> 's \<Rightarrow> 's option" where
  "updates f [] s = Some s"
| "updates f ((k, x) # us) s = (case f k x s of None \<Rightarrow> None | Some s' \<Rightarrow> updates f us s')"

locale name_store =
  fixes ok :: "'s \<Rightarrow> bool"
    and lookup :: "string \<Rightarrow> 's \<Rightarrow> string option"
    and update :: "string \<Rightarrow> string option \<Rightarrow> 's \<Rightarrow> 's option"
    and key :: "string \<Rightarrow> bool"
    and settable :: "string \<Rightarrow> bool"
    and val_ok :: "string option \<Rightarrow> bool"
  assumes update_law: "\<lbrakk>ok s; settable k; val_ok x; update k x s = Some s'\<rbrakk> \<Longrightarrow>
      ok s' \<and> (\<forall>k'. key k' \<longrightarrow> lookup k' s' = (if k' = k then x else lookup k' s))"
begin

lemma updates_ok:
  "\<lbrakk>ok s; \<forall>(k, x) \<in> set us. settable k \<and> val_ok x; updates update us s = Some s'\<rbrakk> \<Longrightarrow> ok s'"
proof (induction us arbitrary: s)
  case (Cons u us)
  obtain k x where u: "u = (k, x)" by (cases u)
  obtain s1 where s1: "update k x s = Some s1" "updates update us s1 = Some s'"
    using Cons.prems(3) unfolding u by (auto split: option.splits)
  have "ok s1" using update_law [OF Cons.prems(1) _ _ s1(1)] Cons.prems(2) unfolding u by simp
  then show ?case using Cons.IH [OF _ _ s1(2)] Cons.prems(2) by simp
qed simp

text \<open>After a sequence of updates the last one of a name decides.\<close>

lemma updates_lookup:
  "\<lbrakk>ok s; \<forall>(k, x) \<in> set us. settable k \<and> val_ok x; updates update us s = Some s'; key k\<rbrakk> \<Longrightarrow>
   lookup k s' = (case map_of (rev us) k of None \<Rightarrow> lookup k s | Some x \<Rightarrow> x)"
proof (induction us arbitrary: s)
  case (Cons u us)
  obtain k1 x1 where u: "u = (k1, x1)" by (cases u)
  with Cons.prems obtain s1 where s1: "update k1 x1 s = Some s1" "updates update us s1 = Some s'"
    by (auto split: option.splits)
  then have "ok s1" "\<forall>k'. key k' \<longrightarrow> lookup k' s1 = (if k' = k1 then x1 else lookup k' s)"
    using update_law [of s k1 x1 s1] Cons.prems u by auto
  then show ?case
    using Cons.IH [of s1] s1(2) Cons.prems u
    by (auto simp: map_add_def split: option.splits)
qed simp

end

text \<open>\<open>setenv\<close> with one value or with NULL, when it succeeds.\<close>

definition env_update :: "(u32 \<Rightarrow> int) \<Rightarrow> string \<Rightarrow> string option \<Rightarrow> board \<Rightarrow> board option" where
  "env_update start name x st =
     (case do_setenv0 start 3 [Some (cstr ''setenv''), Some (cstr name), map_option cstr x, None] st of
        Some (r, st') \<Rightarrow> if r = 0 then Some st' else None
      | None \<Rightarrow> None)"

lemma env_value_after:
  assumes "env_ok st" "env_entries st es" "env_ok st'"
    "env_entries st' (filter (\<lambda>p. fst p \<noteq> name) es @ (case x of None \<Rightarrow> [] | Some v \<Rightarrow> [(name, v)]))"
    "env_name k"
  shows "env_value k st' = (if k = name then x else env_value k st)"
proof -
  have "map_of (filter (\<lambda>p. fst p \<noteq> name) es) k = (if k = name then None else map_of es k)"
    by (induction es) auto
  then show ?thesis
    using env_value_entries [OF assms(3,4,5)] env_value_entries [OF assms(1,2,5)]
    by (auto simp: map_add_def split: option.splits)
qed

lemma env_update_value:
  assumes ok: "env_ok st" and name: "plain_name name" and x: "\<forall>v. x = Some v \<longrightarrow> nonul v"
    and up: "env_update start name x st = Some st'"
  shows "env_ok st' \<and> crc_ok st' \<and>
    (\<forall>k. env_name k \<longrightarrow> env_value k st' = (if k = name then x else env_value k st))"
proof -
  obtain es where es: "env_entries st es" using ok by (auto simp: env_ok_def)
  let ?argv = "[Some (cstr ''setenv''), Some (cstr name), map_option cstr x, None]"
  have "env_ok st' \<and> crc_ok st' \<and>
    env_entries st' (filter (\<lambda>p. fst p \<noteq> name) es @ (case x of None \<Rightarrow> [] | Some v \<Rightarrow> [(name, v)]))"
  proof (cases x)
    case None
    then show ?thesis
      using do_setenv_delete [OF ok es name, of ?argv start 3] up
      by (auto simp: env_update_def)
  next
    case (Some v)
    then show ?thesis
      using do_setenv_one [OF ok es name, of v start "''setenv''"] up x
      by (auto simp: env_update_def split: if_splits)
  qed
  then show ?thesis using env_value_after [OF ok es] by blast
qed

interpretation env: name_store env_ok env_value "env_update start" env_name plain_name
  "\<lambda>x. \<forall>v. x = Some v \<longrightarrow> nonul v" for start
  by unfold_locales (use env_update_value in blast)


section \<open>Initialisation\<close>

lemma env_init_relocate_good:
  assumes "crc32 0 (bytes (edata (flash_env st))) (ENV_SIZE st) = Some (crc (flash_env st))"
  shows "\<exists>st1. env_init st = Some (0, st1) \<and> env_valid st1 = 1 \<and> env_mem st1 = edata (flash_env st) \<and>
    env_relocate (Some blk) st1 =
      Some (st1\<lparr>env_in_ram := True, ram_env := flash_env st, env_place := Env_RAM\<rparr>)"
  using assms by (simp add: env_init_def env_mem_def env_relocate_def env_relocate_spec_def)

lemma env_relocate_default:
  assumes "env_valid st = 0" "\<not> devinit st" "length (default_environment st) \<le> ENV_SIZE st"
  shows "\<exists>st'. env_relocate (Some blk) st = Some st' \<and> crc_ok st' \<and> env_valid st' = 1 \<and>
    env_place st' = Env_RAM \<and> env_in_ram st' \<and> \<not> devinit st' \<and> ENV_SIZE st' = ENV_SIZE st \<and>
    edata (ram_env st') = default_environment st @ replicate (ENV_SIZE st - length (default_environment st)) NUL"
proof -
  let ?m = "''*** Warning - bad CRC, using default environment'' @ [CHR 0x0A, CHR 0x0A]"
  let ?d = "default_environment st @ replicate (ENV_SIZE st - length (default_environment st)) NUL"
  define st0 where "st0 = st\<lparr>env_in_ram := True, ram_env := \<lparr>crc = 0, edata = ?d\<rparr>,
    serial_tx := serial_tx st @ on_wire ?m\<rparr>"
  have "length (bytes ?d) = ENV_SIZE st" using assms(3) by (simp add: bytes_def)
  then obtain c where c: "crc32 0 (bytes ?d) (ENV_SIZE st) = Some c" by (simp add: crc32_eq)
  have p: "puts (cstr ?m) (st\<lparr>env_in_ram := True, ram_env := blk\<rparr>) =
      Some (st\<lparr>env_in_ram := True, ram_env := blk, serial_tx := serial_tx st @ on_wire ?m\<rparr>)"
    using assms(2) by (subst puts_cstr_serial) (simp_all add: devinit_def)
  have sz: "ENV_SIZE (st\<lparr>env_in_ram := True, ram_env := blk, serial_tx := serial_tx st @ on_wire ?m\<rparr>) = ENV_SIZE st"
    by (simp add: ENV_SIZE_def)
  have "env_relocate (Some blk) st =
      Some (st0\<lparr>ram_env := \<lparr>crc = c, edata = ?d\<rparr>, env_valid := 1, env_place := Env_RAM\<rparr>)"
    using assms p sz c by (simp add: env_relocate_def env_crc_update_def st0_def ENV_SIZE_def Let_def)
  then show ?thesis
    using c assms(2) by (simp add: crc_ok_def st0_def ENV_SIZE_def devinit_def)
qed


section \<open>\<open>getenv_r\<close>\<close>

lemma getenv_r_copy_eq:
  "\<lbrakk>nonul v; n = length done; length done + length b = len; b \<noteq> []\<rbrakk> \<Longrightarrow>
   getenv_r_copy (pre @ v @ NUL # r) (length pre) (done @ b) (length done) len n =
     Some (if length v < length b
           then (done @ v @ NUL # drop (Suc (length v)) b, length done + length v + 1, n + length v + 1)
           else (done @ take (length b) v, len, Suc len))"
proof (induction v arbitrary: pre "done" b n)
  case Nil
  then obtain x xs where "b = x # xs" by (cases b) auto
  then show ?case using Nil by (subst getenv_r_copy.simps) (simp add: load_at store_at)
next
  case (Cons c v)
  obtain x xs where b: "b = x # xs" using Cons.prems by (cases b) auto
  have step: "getenv_r_copy (pre @ (c # v) @ NUL # r) (length pre) (done @ b) (length done) len n =
      getenv_r_copy ((pre @ [c]) @ v @ NUL # r) (length (pre @ [c])) ((done @ [c]) @ xs)
        (length (done @ [c])) len (Suc n)"
    using Cons.prems b by (subst getenv_r_copy.simps) (simp add: load_at store_at)
  show ?case
  proof (cases "xs = []")
    case True
    then show ?thesis using step Cons.prems b by (simp add: getenv_r_copy.simps)
  next
    case False
    then show ?thesis
      using step Cons.IH [of "Suc n" "done @ [c]" xs "pre @ [c]"] Cons.prems b by auto
  qed
qed

lemma getenv_r_found_eq:
  assumes "nonul v" "b \<noteq> []"
  shows "getenv_r_found (pre @ v @ NUL # r) (length pre) b (length b) =
    (if Suc (length v) < length b
     then Some (v @ NUL # drop (Suc (length v)) b, int (length v) + 1)
     else if Suc (length v) = length b then None
     else Some (take (length b) v, int (length b) + 1))"
  using getenv_r_copy_eq [of v 0 "[]" b "length b" pre r] assms
  by (auto simp: getenv_r_found_def store_def)

section \<open>\<open>printenv\<close>\<close>

lemma putc_all_serial: "\<not> devinit st \<Longrightarrow>
    putc_all s st = Some (st\<lparr>serial_tx := serial_tx st @ on_wire s\<rparr>)"
  by (induction s arbitrary: st) (simp_all add: serial_putc_def on_wire_def)

definition env_lines :: "(string \<times> string) list \<Rightarrow> string" where
  "env_lines es = concat (map (\<lambda>(n, v). entry n v @ [CHR 0x0A]) es)"

lemma printenv_all_eq:
  "\<lbrakk>wf_entries es; \<not> devinit st; serial_rx st = []\<rbrakk> \<Longrightarrow>
   printenv_all (pre @ flat es @ NUL # rest) (length pre) st =
     Some (Some (length pre + length (flat es)), st\<lparr>serial_tx := serial_tx st @ on_wire (env_lines es)\<rparr>)"
proof (induction es arbitrary: pre st)
  case Nil
  then show ?case by (subst printenv_all.simps) (simp add: load_at env_lines_def on_wire_def)
next
  case (Cons p es)
  obtain n v where p: "p = (n, v)" by (cases p)
  from Cons.prems p have w: "env_name n" "nonul v" "wf_entries es" by simp_all
  let ?e = "n @ CHR ''='' # v" and ?r = "flat es @ NUL # rest"
  let ?d = "pre @ ?e @ NUL # ?r"
  have d: "pre @ flat (p # es) @ NUL # rest = ?d" using p by simp
  have e: "end_of_entry ?d (length pre) = Some (length pre + length ?e)"
    using w by (intro end_of_entry_eq) (simp add: env_nameD)
  obtain c where c: "load ?d (length pre) = Some c" "c \<noteq> NUL"
    using load_entry [OF w(1), of ?d pre "v @ NUL # ?r" "length pre"] by auto
  define st1 where "st1 = st\<lparr>serial_tx := serial_tx st @ on_wire (?e @ [CHR 0x0A])\<rparr>"
  have st1: "\<not> devinit st1" "serial_rx st1 = []" using Cons.prems by (simp_all add: st1_def)
  have "take (length pre + length ?e - length pre) (drop (length pre) ?d) = ?e" by simp
  then have out: "do { st \<leftarrow> putc_all (take (length pre + length ?e - length pre) (drop (length pre) ?d)) st;
        st \<leftarrow> putc (CHR 0x0A) st; ctrlc st } = Some (False, st1)"
    using Cons.prems(2) ctrlc_quiet [OF st1] putc_all_serial [OF Cons.prems(2), of ?e]
    by (simp add: st1_def serial_putc_def on_wire_def)
  have "printenv_all ?d (length pre) st = printenv_all ?d (Suc (length pre + length ?e)) st1"
    using c e out by (subst printenv_all.simps) simp
  also have "\<dots> = printenv_all ((pre @ ?e @ [NUL]) @ flat es @ NUL # rest) (length (pre @ ?e @ [NUL])) st1"
    by simp
  also have "\<dots> = Some (Some (length (pre @ ?e @ [NUL]) + length (flat es)),
      st1\<lparr>serial_tx := serial_tx st1 @ on_wire (env_lines es)\<rparr>)"
    by (rule Cons.IH [OF w(3) st1])
  finally show ?case
    unfolding d by (simp add: st1_def p env_lines_def entry_def on_wire_append on_wire_Cons)
qed


definition size_line :: "nat \<Rightarrow> nat \<Rightarrow> string" where
  "size_line used area = [CHR 0x0A] @ ''Environment size: '' @ udec used @ ''/'' @ udec area @
     '' bytes'' @ [CHR 0x0A]"

lemma sdec_of_nat: "n < 2 ^ 31 \<Longrightarrow> sdec (of_nat n) = udec n"
proof -
  assume n: "n < 2 ^ 31"
  have u: "unat (of_nat n :: u32) = n" using n by (simp add: unat_of_nat)
  have "sint (of_nat n :: u32) = int n"
    using n by (simp add: signed_of_nat signed_take_bit_int_eq_self)
  then show ?thesis by (simp add: sdec_def u)
qed

lemma nonul_udec: "nonul (udec n)"
proof -
  have "list_all (\<lambda>d. lower_digits ! d \<noteq> NUL) [0..<10]" by code_simp
  then have "\<And>d. d < 10 \<Longrightarrow> lower_digits ! d \<noteq> NUL" using list_all_upt by blast
  then have "NUL \<notin> insert (CHR ''0'') ((!) lower_digits ` {..<10})" by (auto dest: sym)
  then show ?thesis using nat_str_chars [of 10 lower_digits n] by (auto simp: nonul_def udec_def)
qed

lemma print_size:
  assumes "\<not> devinit st" "a < 2 ^ 31" "b < 2 ^ 31"
  shows "printf ([CHR 0x0A] @ ''Environment size: %d/%d bytes'' @ [CHR 0x0A])
      [VWord (of_nat a), VWord (of_nat b)] st =
    Some (st\<lparr>serial_tx := serial_tx st @ on_wire (size_line a b)\<rparr>)"
proof (rule printf_serial)
  show "nonul (size_line a b)" by (simp add: size_line_def nonul_udec)
  have "length (udec a) \<le> 10" "length (udec b) \<le> 10" using assms by (simp_all add: udec_length)
  then show "length (size_line a b) < CFG_PBSIZE" by (simp add: size_line_def CFG_PBSIZE_def)
  show "vsprintf_loop (cstr ([CHR 0x0A] @ ''Environment size: %d/%d bytes'' @ [CHR 0x0A]))
      [VWord (of_nat a), VWord (of_nat b)] [] [] = Some (size_line a b, [])"
    using assms by (simp add: vsprintf_loop_steps sdec_of_nat size_line_def del: vsprintf_loop.simps)
qed (rule assms)

section \<open>Properties\<close>

definition sample_board :: board where
  "sample_board =
     \<lparr>timestamp = 0, lastdec = 0, serial_rx = [], serial_tx = [], devlist = None, stdio_devices = [None, None, None],
      jt_getc = 0, jt_tstc = 0, jt_putc = 0, jt_puts = 0, jt_printf = 0, gd_flags = 0,
      have_console = True, ctrlc_disabled = 0, ctrlc_was_pressed = False,
      env_valid = 1, env_place = Env_RAM, env_in_ram = True,
      flash_env = \<lparr>crc = 0, edata = replicate 20 NUL\<rparr>,
      ram_env = \<lparr>crc = 0, edata = ''a=1'' @ [NUL] @ ''bc=2'' @ replicate 12 NUL\<rparr>,
      default_environment = ''d=3'' @ replicate 2 NUL,
      baudrate = 115200, bi_enetaddr = replicate 6 NUL, bi_ip_addr = 0, load_addr = 0x20000000,
      BootFile = replicate 128 NUL, eth_devices = [], eth_current = None, NetRestartWrap = False\<rparr>"

lemma sample_entries: "env_entries sample_board [(''a'', ''1''), (''bc'', ''2'')]"
  by (auto simp: env_entries_def sample_board_def env_rep_def env_name_def numeral_eq_Suc)

lemma sample_ok: "env_ok sample_board"
  using sample_entries by (auto simp: env_ok_def sample_board_def devinit_def ENV_SIZE_def)

lemma sample_size: "ENV_SIZE sample_board = 20"
  by (simp add: ENV_SIZE_def sample_board_def)





text \<open>
  C2: the environment is a map under any sequence of \<open>setenv\<close> commands that succeed, setting or
  deleting: afterwards every variable has the value of the last command for it, or its old
  value when there was none; the invariant holds at the end.
\<close>

theorem setenv_sequence:
  assumes "env_ok st" "\<forall>(k, x) \<in> set us. plain_name k \<and> (\<forall>v. x = Some v \<longrightarrow> nonul v)"
    and "updates (env_update start) us st = Some st'" "env_name k"
  shows "env_ok st' \<and>
    env_value k st' = (case map_of (rev us) k of None \<Rightarrow> env_value k st | Some x \<Rightarrow> x)"
  using env.updates_ok [OF assms(1-3)] env.updates_lookup [OF assms] by simp


theorem setenv_sequence_witness:
  "\<exists>st'. updates (env_update (\<lambda>_. 0)) [(''a'', Some ''9''), (''a'', None)] sample_board = Some st' \<and>
    env_ok st' \<and> env_value ''bc'' st' = Some ''2'' \<and> env_value ''a'' st' = None"
proof -
  let ?us = "[(''a'', Some ''9''), (''a'', None :: string option)]"
  have name: "plain_name ''a''" by (simp add: plain_name_def env_name_def special_names_def)
  let ?argv = "\<lambda>x. [Some (cstr ''setenv''), Some (cstr ''a''), x, None]"
  obtain s1 where s1: "do_setenv0 (\<lambda>_. 0) 3 (?argv (Some (cstr ''9''))) sample_board = Some (0, s1)"
    "env_ok s1" "env_entries s1 [(''bc'', ''2''), (''a'', ''9'')]"
    using do_setenv_one [OF sample_ok sample_entries name, of "''9''" "\<lambda>_. 0" "''setenv''"]
    by (auto simp: sample_size)
  obtain s2 where s2: "do_setenv0 (\<lambda>_. 0) 3 (?argv None) s1 = Some (0, s2)"
    using do_setenv_delete [OF s1(2,3) name, of "?argv None" "\<lambda>_. 0" 3] by auto
  have up: "updates (env_update (\<lambda>_. 0)) ?us sample_board = Some s2"
    using s1(1) s2 by (simp add: env_update_def)
  have us: "\<forall>(k, x) \<in> set ?us. plain_name k \<and> (\<forall>v. x = Some v \<longrightarrow> nonul v)" using name by simp
  have k: "env_name ''bc''" "env_name ''a''" by (simp_all add: env_name_def)
  have "env_value ''bc'' sample_board = Some ''2''"
    using env_value_entries [OF sample_ok sample_entries k(1)] by simp
  then show ?thesis
    using up setenv_sequence [OF sample_ok us up k(1)] setenv_sequence [OF sample_ok us up k(2)]
    by simp
qed



text \<open>
  C19: \<open>getenv_r\<close> on a variable with value \<open>v\<close> and a buffer of exactly \<open>len\<close> bytes: with room to
  spare it copies the string and returns its size; when the string and its NUL just fill the
  buffer it writes one byte past the end (\<^const>\<open>None\<close>); when the value is longer it fills the
  buffer without a terminator and returns \<open>len + 1\<close>.
\<close>

theorem getenv_r_result:
  assumes "env_ok st" "env_name name" "env_value name st = Some v" "b \<noteq> []"
  shows "getenv_r (cstr name) b (length b) st =
    (if Suc (length v) < length b then Some (cstr v @ drop (Suc (length v)) b, int (length v) + 1)
     else if Suc (length v) = length b then None
     else Some (take (length b) v, int (length b) + 1))"
proof -
  from assms(3) obtain p where "getenv (cstr name) st = Some (Some p)" "str_at p = Some v"
    by (auto simp: env_value_def bind_eq_Some_conv)
  then obtain i where i: "getenv_from (CFG_ENV_SIZE st) (env_mem st) (cstr name) 0 = Some (Some i)"
    "str_at (drop i (env_mem st)) = Some v" by (auto simp: getenv_def)
  obtain r where r: "nonul v" "drop i (env_mem st) = v @ NUL # r" using str_at_Some [OF i(2)] by blast
  then have "i < length (env_mem st)" by (metis drop_all not_less Nil_is_append_conv list.distinct(1))
  then have mem: "env_mem st = take i (env_mem st) @ v @ NUL # r" "length (take i (env_mem st)) = i"
    using r(2) by (metis append_take_drop_id, simp)
  have "getenv_r (cstr name) b (length b) st = getenv_r_found (env_mem st) i b (length b)"
    using i by (simp add: getenv_r_def)
  also have "\<dots> = getenv_r_found (take i (env_mem st) @ v @ NUL # r) (length (take i (env_mem st))) b (length b)"
    using mem by simp
  finally show ?thesis
    using getenv_r_found_eq [OF r(1) assms(4), of "take i (env_mem st)" r] by (simp add: cstr_def)
qed

theorem getenv_r_result_witness:
  "getenv_r (cstr ''a'') ''..'' (length ''..'') sample_board = None"
  using getenv_r_result [OF sample_ok, of "''a''" "''1''" "''..''"]
    env_value_entries [OF sample_ok sample_entries, of "''a''"]
  by (simp add: env_name_def)

text \<open>
  C15: \<open>printenv\<close> without arguments, while no key is pressed, prints every variable as a line
  \<open>name=value\<close>, in the order of the data area, then the size of the data in use and the size of
  the area, and returns 0.
\<close>

theorem printenv_prints_all:
  assumes "env_ok st" "env_entries st es" "serial_rx st = []" "ENV_SIZE st < 2 ^ 31"
  shows "do_printenv 1 argv st = Some (0, st\<lparr>serial_tx := serial_tx st @
    on_wire (env_lines es @ size_line (length (flat es)) (ENV_SIZE st))\<rparr>)"
proof -
  obtain rest where d: "edata (ram_env st) = flat es @ NUL # rest" and wf: "wf_entries es"
    using assms(2) by (auto simp: env_entries_def env_rep_def)
  have dev: "\<not> devinit st" using assms(1) by (simp add: env_ok_def)
  define st1 where "st1 = st\<lparr>serial_tx := serial_tx st @ on_wire (env_lines es)\<rparr>"
  have all: "printenv_all (env_mem st) 0 st = Some (Some (length (flat es)), st1)"
    using printenv_all_eq [OF wf dev assms(3), of "[]" rest] d
    by (simp add: env_mem_ok [OF assms(1)] st1_def)
  have small: "length (flat es) < 2 ^ 31" using d assms(1,4) by (simp add: env_ok_def)
  have dev1: "\<not> devinit st1" and sz: "ENV_SIZE st1 = ENV_SIZE st"
    using dev by (simp_all add: st1_def ENV_SIZE_def)
  have pr: "printf ([CHR 0x0A] @ ''Environment size: %d/%d bytes'' @ [CHR 0x0A])
      [VWord (of_nat (length (flat es))), VWord (of_nat (ENV_SIZE st))] st1 =
    Some (st1\<lparr>serial_tx := serial_tx st1 @ on_wire (size_line (length (flat es)) (ENV_SIZE st))\<rparr>)"
    by (rule print_size [OF dev1 small assms(4)])
  show ?thesis
    using all pr sz by (simp add: do_printenv_def st1_def on_wire_append)
qed

theorem printenv_prints_all_witness:
  "do_printenv 1 (argv_of [''printenv'']) sample_board = Some (0, sample_board\<lparr>serial_tx :=
    serial_tx sample_board @ on_wire (env_lines [(''a'', ''1''), (''bc'', ''2'')] @
      size_line (length (flat [(''a'', ''1''), (''bc'', ''2'')])) (ENV_SIZE sample_board))\<rparr>)"
  by (rule printenv_prints_all [OF sample_ok sample_entries]) (simp_all add: sample_size, simp add: sample_board_def)

end
