(* ===== verification/Command.thy ===== *)
theory Command
  imports Console "HOL-Library.Sublist" "HOL-Library.Multiset"
begin

text \<open>
  The command table and the commands of \<open>common/command.c\<close>: finding a command by its full or
  abbreviated name, \<open>help\<close> with its bubble sort, \<open>echo\<close>, \<open>test\<close>, \<open>exit\<close>, \<open>version\<close>, and the completion
  of command names.  The functions behind the table are numbers here; \<open>Cli\<close> takes their
  behaviour as an argument.
\<close>

record cmd_tbl =
  cmd_name :: string
  maxargs :: nat
  repeatable :: bool
  cmd_fn :: nat
  cmd_usage :: "string option"
  cmd_help :: "string option"

section \<open>Finding a command\<close>

text \<open>The scan of the table: \<open>temp\<close> is the last abbreviated match, \<open>n\<close> their number.\<close>

fun find_loop :: "cmd_tbl list \<Rightarrow> buf \<Rightarrow> nat \<Rightarrow> cmd_tbl option \<Rightarrow> nat \<Rightarrow> cmd_tbl option option" where
  "find_loop [] cmd len temp n = Some (if n = 1 then temp else None)"
| "find_loop (t # ts) cmd len temp n =
     do { r \<leftarrow> strncmp cmd (cstr (cmd_name t)) len;
          if r = 0 then
            do { k \<leftarrow> strlen (cstr (cmd_name t));
                 if len = k then Some (Some t) else find_loop ts cmd len (Some t) (Suc n) }
          else find_loop ts cmd len temp n }"

definition find_cmd :: "cmd_tbl list \<Rightarrow> buf \<Rightarrow> cmd_tbl option option" where
  "find_cmd table cmd =
     do { p \<leftarrow> strchr cmd (CHR ''.'');
          len \<leftarrow> (case p of None \<Rightarrow> strlen cmd | Some k \<Rightarrow> Some k);
          find_loop table cmd len None 0 }"

section \<open>Simple commands\<close>

definition do_version :: "string \<Rightarrow> 'a console_scheme \<Rightarrow> (int \<times> 'a console_scheme) option" where
  "do_version version_string st =
     do { st \<leftarrow> printf ([CHR 0x0A] @ ''%s'' @ [CHR 0x0A]) [VStr (Some (cstr version_string))] st;
          Some (0, st) }"

text \<open>One argument of \<open>echo\<close>: \<open>\\c\<close> is left out and suppresses the newline.\<close>

fun echo_arg :: "buf \<Rightarrow> bool \<Rightarrow> 'a console_scheme \<Rightarrow> (bool \<times> 'a console_scheme) option" where
  "echo_arg [] putnl st = None"
| "echo_arg (c # p) putnl st =
     (if c = NUL then Some (putnl, st)
      else if c = CHR 0x5C then
        (case p of
           [] \<Rightarrow> None
         | d # p' \<Rightarrow>
             if d = CHR ''c'' then echo_arg p' False st
             else do { st \<leftarrow> putc c st; echo_arg p putnl st })
      else do { st \<leftarrow> putc c st; echo_arg p putnl st })"

fun echo_args :: "nat \<Rightarrow> buf list \<Rightarrow> bool \<Rightarrow> 'a console_scheme \<Rightarrow> (bool \<times> 'a console_scheme) option" where
  "echo_args i [] putnl st = Some (putnl, st)"
| "echo_args i (p # ps) putnl st =
     do { st \<leftarrow> (if i > 1 then putc (CHR '' '') st else Some st);
          (putnl, st) \<leftarrow> echo_arg p putnl st;
          echo_args (Suc i) ps putnl st }"

text \<open>\<open>args\<close> are \<open>argv[1] ... argv[argc-1]\<close>.\<close>

definition do_echo :: "buf list \<Rightarrow> 'a console_scheme \<Rightarrow> (int \<times> 'a console_scheme) option" where
  "do_echo args st =
     do { (putnl, st) \<leftarrow> echo_args 1 args True st;
          st \<leftarrow> (if putnl then putc (CHR 0x0A) st else Some st);
          Some (0, st) }"

text \<open>\<open>-r - 2\<close> in \<open>int\<close> arithmetic.\<close>

definition do_exit :: "buf list \<Rightarrow> int option" where
  "do_exit args =
     (case args of
        [] \<Rightarrow> Some (-2)
      | s # _ \<Rightarrow> do { (r, _) \<leftarrow> simple_strtoul s 10; Some (sint (- r - 2)) })"

section \<open>The command \<open>test\<close>\<close>

definition streq :: "buf \<Rightarrow> string \<Rightarrow> bool option" where
  "streq s lit = map_option (\<lambda>r. r = 0) (strcmp s (cstr lit))"

definition strto :: "buf \<Rightarrow> int option" where
  "strto s = map_option (\<lambda>(w, _). sint w) (simple_strtol s 10)"

text \<open>\<open>Some None\<close>: the operator is unknown.\<close>

definition test_compare :: "buf \<Rightarrow> buf \<Rightarrow> buf \<Rightarrow> bool option option" where
  "test_compare a opr b =
     do { eq \<leftarrow> streq opr ''='';
          if eq then do { r \<leftarrow> strcmp a b; Some (Some (r = 0)) } else
     do { ne \<leftarrow> streq opr ''!='';
          if ne then do { r \<leftarrow> strcmp a b; Some (Some (r \<noteq> 0)) } else
     do { gt \<leftarrow> streq opr ''>'';
          if gt then do { r \<leftarrow> strcmp a b; Some (Some (r > 0)) } else
     do { lt \<leftarrow> streq opr ''<'';
          if lt then do { r \<leftarrow> strcmp a b; Some (Some (r < 0)) } else
     do { eq \<leftarrow> streq opr ''-eq'';
          if eq then do { x \<leftarrow> strto a; y \<leftarrow> strto b; Some (Some (x = y)) } else
     do { ne \<leftarrow> streq opr ''-ne'';
          if ne then do { x \<leftarrow> strto a; y \<leftarrow> strto b; Some (Some (x \<noteq> y)) } else
     do { lt \<leftarrow> streq opr ''-lt'';
          if lt then do { x \<leftarrow> strto a; y \<leftarrow> strto b; Some (Some (x < y)) } else
     do { le \<leftarrow> streq opr ''-le'';
          if le then do { x \<leftarrow> strto a; y \<leftarrow> strto b; Some (Some (x \<le> y)) } else
     do { gt \<leftarrow> streq opr ''-gt'';
          if gt then do { x \<leftarrow> strto a; y \<leftarrow> strto b; Some (Some (x > y)) } else
     do { ge \<leftarrow> streq opr ''-ge'';
          if ge then do { x \<leftarrow> strto a; y \<leftarrow> strto b; Some (Some (x \<ge> y)) }
          else Some None } } } } } } } } } }"

definition test_combine :: "int \<Rightarrow> int \<Rightarrow> int \<Rightarrow> int" where
  "test_combine last_cmp last_expr expr =
     (if last_cmp = 0 then of_bool (last_expr \<noteq> 0 \<or> expr \<noteq> 0)
      else if last_cmp = 1 then of_bool (last_expr \<noteq> 0 \<and> expr \<noteq> 0)
      else expr)"

text \<open>The loop over the arguments: the value of \<open>expr\<close> at its end.\<close>

function test_loop :: "buf list \<Rightarrow> int \<Rightarrow> int \<Rightarrow> int \<Rightarrow> int option" where
  "test_loop ap expr last_expr last_cmp =
     (case ap of
        [] \<Rightarrow> Some expr
      | s # ap1 \<Rightarrow>
          do { is_o \<leftarrow> streq s ''-o'';
               is_a \<leftarrow> streq s ''-a'';
               if is_o \<or> is_a then test_loop ap1 expr expr (if is_o then 0 else 1)
               else
                 do { is_z \<leftarrow> streq s ''-z'';
                      is_n \<leftarrow> streq s ''-n'';
                      if is_z \<or> is_n then
                        (case ap1 of
                           [] \<Rightarrow> Some 1
                         | t # ap2 \<Rightarrow>
                             do { len \<leftarrow> strlen t;
                                  let e = (if is_z then (if len = 0 then 0 else 1)
                                           else (if len = 0 then 1 else 0))
                                  in test_loop ap2 (test_combine last_cmp last_expr e) last_expr (-1) })
                      else
                        (case ap1 of
                           t # u # ap3 \<Rightarrow>
                             do { r \<leftarrow> test_compare s t u;
                                  (case r of
                                     None \<Rightarrow> Some 1
                                   | Some b \<Rightarrow>
                                       test_loop ap3 (test_combine last_cmp last_expr (of_bool b))
                                         last_expr (-1)) }
                         | _ \<Rightarrow> Some 1) } })"
  by pat_completeness auto
termination by (relation "measure (\<lambda>(ap, _). length ap)") auto

declare test_loop.simps [simp del]

definition do_test :: "buf list \<Rightarrow> int option" where
  "do_test args =
     (if length args < 2 then Some 1
      else
        do { neg \<leftarrow> streq (hd args) ''!'';
             expr \<leftarrow> test_loop (if neg then tl args else args) (-1) (-1) (-1);
             let expr = (if neg then of_bool (expr = 0) else expr)
             in Some (of_bool (expr = 0)) })"

section \<open>The command \<open>help\<close>\<close>

text \<open>
  One pass of the bubble sort over the first \<open>i + 1\<close> entries, and the passes: the sort stops
  after a pass without a swap.
\<close>

fun bubble_pass :: "cmd_tbl list \<Rightarrow> nat \<Rightarrow> (cmd_tbl list \<times> nat) option" where
  "bubble_pass (a # b # ts) (Suc i) =
     do { r \<leftarrow> strcmp (cstr (cmd_name a)) (cstr (cmd_name b));
          if r > 0 then
            do { (ts', n) \<leftarrow> bubble_pass (a # ts) i; Some (b # ts', Suc n) }
          else
            do { (ts', n) \<leftarrow> bubble_pass (b # ts) i; Some (a # ts', n) } }"
| "bubble_pass ts 0 = Some (ts, 0)"
| "bubble_pass _ (Suc i) = None"

fun bubble_sort :: "cmd_tbl list \<Rightarrow> nat \<Rightarrow> cmd_tbl list option" where
  "bubble_sort ts 0 = Some ts"
| "bubble_sort ts (Suc i) =
     do { (ts, swaps) \<leftarrow> bubble_pass ts (Suc i);
          if swaps = 0 then Some ts else bubble_sort ts i }"

fun print_usages :: "cmd_tbl list \<Rightarrow> 'a console_scheme \<Rightarrow> (int \<times> 'a console_scheme) option" where
  "print_usages [] st = Some (0, st)"
| "print_usages (t # ts) st =
     do { (stop, st) \<leftarrow> ctrlc st;
          if stop then Some (1, st)
          else
            do { st \<leftarrow> (case cmd_usage t of None \<Rightarrow> Some st | Some s \<Rightarrow> puts (cstr s) st);
                 print_usages ts st } }"

fun help_cmds :: "cmd_tbl list \<Rightarrow> buf list \<Rightarrow> int \<Rightarrow> 'a console_scheme \<Rightarrow> (int \<times> 'a console_scheme) option" where
  "help_cmds table [] rcode st = Some (rcode, st)"
| "help_cmds table (s # ss) rcode st =
     do { c \<leftarrow> find_cmd table s;
          (case c of
             Some t \<Rightarrow>
               do { st \<leftarrow> puts (cstr (cmd_name t)) st;
                    st \<leftarrow> putc (CHR '' '') st;
                    (rcode, st) \<leftarrow> (case cmd_help t of
                        Some h \<Rightarrow> do { st \<leftarrow> puts (cstr h) st; Some (rcode, st) }
                      | None \<Rightarrow> do { st \<leftarrow> puts (cstr (''- No help available.'' @ [CHR 0x0A])) st;
                                     Some (1, st) });
                    st \<leftarrow> putc (CHR 0x0A) st;
                    help_cmds table ss rcode st }
           | None \<Rightarrow>
               do { st \<leftarrow> printf (''Unknown command '' @ [CHR 0x27] @ ''%s'' @ [CHR 0x27] @
                              '' - try '' @ [CHR 0x27] @ ''help'' @ [CHR 0x27] @
                              '' without arguments for list of all known commands'' @
                              [CHR 0x0A, CHR 0x0A]) [VStr (Some s)] st;
                    help_cmds table ss 1 st }) }"

definition do_help :: "cmd_tbl list \<Rightarrow> buf list \<Rightarrow> 'a console_scheme \<Rightarrow> (int \<times> 'a console_scheme) option" where
  "do_help table args st =
     (if args = [] then
        do { sorted \<leftarrow> bubble_sort table (length table - 1);
             print_usages sorted st }
      else help_cmds table args 0 st)"

section \<open>Completion\<close>

text \<open>
  \<open>make_argv\<close> on a line: the arguments are given by their start in the line, which is cut by
  NULs.
\<close>

function skip_blanks :: "buf \<Rightarrow> nat \<Rightarrow> nat option" where
  "skip_blanks s i =
     (case load s i of
        None \<Rightarrow> None
      | Some c \<Rightarrow> if c = CHR '' '' \<or> c = TAB then skip_blanks s (Suc i) else Some i)"
  by pat_completeness auto
termination by (relation "measure (\<lambda>(s, i). length s - i)") (auto simp: load_eq_Some_iff)

function skip_word :: "buf \<Rightarrow> nat \<Rightarrow> nat option" where
  "skip_word s i =
     (case load s i of
        None \<Rightarrow> None
      | Some c \<Rightarrow> if c \<noteq> NUL \<and> c \<noteq> CHR '' '' \<and> c \<noteq> TAB then skip_word s (Suc i) else Some i)"
  by pat_completeness auto
termination by (relation "measure (\<lambda>(s, i). length s - i)") (auto simp: load_eq_Some_iff)

declare skip_blanks.simps [simp del] skip_word.simps [simp del]

function make_argv_loop :: "buf \<Rightarrow> nat \<Rightarrow> nat \<Rightarrow> nat list \<Rightarrow> (buf \<times> nat list) option" where
  "make_argv_loop s i argvsz args =
     (if Suc (length args) < argvsz then
        (case skip_blanks s i of
           None \<Rightarrow> None
         | Some i \<Rightarrow>
             (case load s i of
                None \<Rightarrow> None
              | Some c \<Rightarrow>
                  if c = NUL then Some (s, args)
                  else
                    (case skip_word s i of
                       None \<Rightarrow> None
                     | Some j \<Rightarrow>
                         (case load s j of
                            None \<Rightarrow> None
                          | Some d \<Rightarrow>
                              if d = NUL then Some (s, args @ [i])
                              else
                                (case store s j NUL of
                                   None \<Rightarrow> None
                                 | Some s \<Rightarrow> make_argv_loop s (Suc j) argvsz (args @ [i]))))))
      else Some (s, args))"
  by pat_completeness auto
termination by (relation "measure (\<lambda>(_, _, argvsz, args). argvsz - length args)") auto

declare make_argv_loop.simps [simp del]

definition make_argv :: "buf \<Rightarrow> nat \<Rightarrow> buf list option" where
  "make_argv s argvsz = map_option (\<lambda>(s, args). map (\<lambda>i. drop i s) args) (make_argv_loop s 0 argvsz [])"

text \<open>The commands that start with the word, at most \<open>maxv - 2\<close> of them and then dots.\<close>

fun partial_matches :: "cmd_tbl list \<Rightarrow> buf \<Rightarrow> nat \<Rightarrow> nat \<Rightarrow> string list \<Rightarrow> string list option" where
  "partial_matches [] cmd len maxv found = Some found"
| "partial_matches (t # ts) cmd len maxv found =
     do { clen \<leftarrow> strlen (cstr (cmd_name t));
          if clen < len then partial_matches ts cmd len maxv found
          else
            do { r \<leftarrow> memcmp cmd (cstr (cmd_name t)) len;
                 if r \<noteq> 0 then partial_matches ts cmd len maxv found
                 else if length found \<ge> maxv - 2 then Some (found @ [''...''])
                 else partial_matches ts cmd len maxv (found @ [cmd_name t]) } }"

fun all_commands :: "cmd_tbl list \<Rightarrow> nat \<Rightarrow> string list \<Rightarrow> string list" where
  "all_commands [] maxv found = found"
| "all_commands (t # ts) maxv found =
     (if length found \<ge> maxv - 2 then found @ [''...'']
      else all_commands ts maxv (found @ [cmd_name t]))"

text \<open>
  \<open>complete_cmdv\<close>: the Boolean says that there are completions at all (\<open>-2\<close> is not possible
  here: \<open>maxv\<close> is at least 2).  \<open>complete\<close> is the handler of a command for its arguments.
\<close>

definition complete_cmdv ::
  "(cmd_tbl \<Rightarrow> (buf list \<Rightarrow> char \<Rightarrow> string list option) option) \<Rightarrow> cmd_tbl list \<Rightarrow> buf list \<Rightarrow> char \<Rightarrow>
     nat \<Rightarrow> string list option" where
  "complete_cmdv complete table args last_char maxv =
     (case args of
        [] \<Rightarrow> Some (all_commands table maxv [])
      | cmd # rest \<Rightarrow>
          if rest \<noteq> [] \<or> last_char = NUL \<or> last_char = CHR '' '' \<or> last_char = TAB then
            do { c \<leftarrow> find_cmd table cmd;
                 (case c of
                    None \<Rightarrow> Some []
                  | Some t \<Rightarrow>
                      (case complete t of None \<Rightarrow> Some [] | Some f \<Rightarrow> f args last_char)) }
          else
            do { p \<leftarrow> strchr cmd (CHR ''.'');
                 len \<leftarrow> (case p of None \<Rightarrow> strlen cmd | Some k \<Rightarrow> Some k);
                 partial_matches table cmd len maxv [] })"

text \<open>The length of the common prefix of the anchor and another string, at most \<open>len\<close>.\<close>

fun common_prefix :: "string \<Rightarrow> string \<Rightarrow> nat" where
  "common_prefix (a # s) (b # t) = (if a = b then Suc (common_prefix s t) else 0)"
| "common_prefix _ _ = 0"

definition find_common_prefix :: "string list \<Rightarrow> nat" where
  "find_common_prefix cmdv =
     (case cmdv of
        [] \<Rightarrow> 0
      | anchor # ts \<Rightarrow> foldl (\<lambda>len t. common_prefix (take len anchor) t) (length anchor) ts)"

fun print_words :: "string \<Rightarrow> string \<Rightarrow> int \<Rightarrow> int \<Rightarrow> string list \<Rightarrow> 'a console_scheme \<Rightarrow> 'a console_scheme option" where
  "print_words leader sep linemax i [] st = Some st"
| "print_words leader sep linemax i (w # ws) st =
     (let len = int (length w) + int (length sep)
      in if i + len \<ge> linemax then
           do { st \<leftarrow> puts (cstr [CHR 0x0A]) st;
                st \<leftarrow> puts (cstr leader) st;
                st \<leftarrow> puts (cstr w) st;
                print_words leader sep linemax (int (length leader) - int (length sep) + len) ws st }
         else
           do { st \<leftarrow> puts (cstr sep) st;
                st \<leftarrow> puts (cstr w) st;
                print_words leader sep linemax (i + len) ws st })"

definition print_argv ::
  "string option \<Rightarrow> string \<Rightarrow> string \<Rightarrow> int \<Rightarrow> string list \<Rightarrow> 'a console_scheme \<Rightarrow> 'a console_scheme option" where
  "print_argv banner leader sep linemax ws st =
     do { st \<leftarrow> (case banner of None \<Rightarrow> Some st
                  | Some b \<Rightarrow> do { st \<leftarrow> puts (cstr [CHR 0x0A]) st; puts (cstr b) st });
          st \<leftarrow> print_words leader sep linemax linemax ws st;
          printf [CHR 0x0A] [] st }"


section \<open>Finding a command\<close>

definition find_spec :: "cmd_tbl list \<Rightarrow> string \<Rightarrow> cmd_tbl option" where
  "find_spec table key =
     (case find (\<lambda>t. cmd_name t = key) table of
        Some t \<Rightarrow> Some t
      | None \<Rightarrow>
          (case filter (\<lambda>t. prefix key (cmd_name t)) table of [t] \<Rightarrow> Some t | _ \<Rightarrow> None))"

definition wf_table :: "cmd_tbl list \<Rightarrow> bool" where
  "wf_table table \<longleftrightarrow> (\<forall>t \<in> set table. nonul (cmd_name t))"

lemma prefix_take: "prefix k s \<longleftrightarrow> take (length k) s = k"
  by (metis append_eq_conv_conj prefix_def take_is_prefix)

lemma strncmp_key:
  assumes "nonul s" "nonul t" "k \<le> length s"
  shows "\<exists>r. strncmp (cstr s) (cstr t) k = Some r \<and> (r = 0 \<longleftrightarrow> prefix (take k s) t)"
proof -
  obtain r where r: "strncmp (cstr s) (cstr t) k = Some r" using strncmp_cstr_returns assms by blast
  have "r = 0 \<longleftrightarrow> take k s = take k t"
    using strncmp_cstr_zero_iff [OF assms(1,2), of k] r by simp
  also have "\<dots> \<longleftrightarrow> prefix (take k s) t" using assms(3) by (auto simp: prefix_take min_def)
  finally show ?thesis using r by simp
qed

lemma find_loop_eq:
  assumes s: "nonul s" "k \<le> length s"
  shows "wf_table table \<Longrightarrow> find_loop table (cstr s) k temp n =
    Some (case find (\<lambda>t. cmd_name t = take k s) table of
            Some t \<Rightarrow> Some t
          | None \<Rightarrow>
              (let ms = filter (\<lambda>t. prefix (take k s) (cmd_name t)) table
               in if n + length ms = 1 then (if ms = [] then temp else Some (last ms)) else None))"
proof (induction table arbitrary: temp n)
  case (Cons t ts)
  have t: "nonul (cmd_name t)" "wf_table ts" using Cons.prems by (simp_all add: wf_table_def)
  obtain r where r: "strncmp (cstr s) (cstr (cmd_name t)) k = Some r"
    "r = 0 \<longleftrightarrow> prefix (take k s) (cmd_name t)" using strncmp_key [OF s(1) t(1) s(2)] by blast
  have full: "cmd_name t = take k s" if "prefix (take k s) (cmd_name t)" "k = length (cmd_name t)"
    using that s(2) by (simp add: prefix_take min_def)
  have "prefix (take k s) (cmd_name t) \<and> k = length (cmd_name t)" if "cmd_name t = take k s"
    using that s(2) by (simp add: min_def)
  then show ?case
    using Cons.IH [OF t(2)] r full t(1) by (auto simp: strlen_cstr Let_def split: option.splits)
qed (simp add: Let_def)

lemma find_cmd_eq:
  assumes "wf_table table" "nonul s"
  shows "find_cmd table (cstr s) = Some (find_spec table (takeWhile (\<lambda>c. c \<noteq> CHR ''.'') s))"
proof -
  let ?key = "takeWhile (\<lambda>c. c \<noteq> CHR ''.'') s"
  have len: "(case (let n = length ?key in if n < length s then Some n else None) of
      None \<Rightarrow> strlen (cstr s) | Some k \<Rightarrow> Some k) = Some (length ?key)"
    using length_takeWhile_le [of "\<lambda>c. c \<noteq> CHR ''.''" s] assms(2)
    by (auto simp: Let_def strlen_cstr)
  have sc: "strchr (cstr s) (CHR ''.'') =
      Some (let n = length ?key in if n < length s then Some n else None)"
    using strchr_eq [OF assms(2), of "CHR ''.''" "[]"] by (simp add: cstr_def)
  have key: "take (length ?key) s = ?key" by (simp add: takeWhile_eq_take [symmetric])
  have "find_cmd table (cstr s) = find_loop table (cstr s) (length ?key) None 0"
    by (simp only: find_cmd_def sc bind.bind_lunit len)
  also have "\<dots> = Some (find_spec table ?key)"
    using find_loop_eq [OF assms(2) length_takeWhile_le assms(1), of "\<lambda>c. c \<noteq> CHR ''.''" None 0]
    by (auto simp: key find_spec_def Let_def length_Suc_conv split: option.splits list.splits)
  finally show ?thesis .
qed

section \<open>The sort of \<open>help\<close>\<close>

definition cmd_le :: "cmd_tbl \<Rightarrow> cmd_tbl \<Rightarrow> bool" where
  "cmd_le a b \<longleftrightarrow> \<not> str_less (cmd_name b) (cmd_name a)"


lemma str_less_irrefl [simp]: "\<not> str_less s s"
  by (induction s) auto

lemma str_less_trans: "str_less s t \<Longrightarrow> str_less t u \<Longrightarrow> str_less s u"
proof (induction s t arbitrary: u rule: str_less.induct)
  case (2 d t)
  then show ?case by (cases u) auto
next
  case (3 c s d t)
  then show ?case by (cases u) auto
qed simp

lemma str_less_linear: "str_less s t \<or> s = t \<or> str_less t s"
proof (induction s t rule: str_less.induct)
  case (1 s)
  then show ?case by (cases s) auto
next
  case (3 c s d t)
  then show ?case by (auto simp: nat_neq_iff dest: of_char_eq_iff [THEN iffD1])
qed simp

lemma cmd_le_total: "cmd_le a b \<or> cmd_le b a"
  using str_less_trans by (auto simp: cmd_le_def dest: str_less_trans)

lemma cmd_le_trans: "cmd_le a b \<Longrightarrow> cmd_le b c \<Longrightarrow> cmd_le a c"
  unfolding cmd_le_def using str_less_linear str_less_trans by metis

lemma cmd_le_refl: "cmd_le a a"
  by (simp add: cmd_le_def)

text \<open>Names as they are in the table: non-empty strings of 7-bit characters.\<close>

definition names_ok :: "cmd_tbl list \<Rightarrow> bool" where
  "names_ok ts \<longleftrightarrow> (\<forall>t \<in> set ts. nonul (cmd_name t) \<and> ascii7 (cmd_name t))"

lemma strcmp_cmd_le:
  assumes "names_ok [a, b]"
  shows "\<exists>r. strcmp (cstr (cmd_name a)) (cstr (cmd_name b)) = Some r \<and>
    (r > 0 \<longleftrightarrow> \<not> cmd_le a b)"
proof -
  have n: "nonul (cmd_name a)" "nonul (cmd_name b)" "ascii7 (cmd_name a)" "ascii7 (cmd_name b)"
    using assms by (simp_all add: names_ok_def)
  obtain r where r: "strcmp (cstr (cmd_name a)) (cstr (cmd_name b)) = Some r"
    using strcmp_cstr_returns n by blast
  have less: "r < 0 \<longleftrightarrow> str_less (cmd_name a) (cmd_name b)"
    using strcmp_less_iff [OF n, of "[]" "[]"] r by (simp add: cstr_def)
  have eq: "r = 0 \<longleftrightarrow> cmd_name a = cmd_name b"
    using strcmp_cstr_zero_iff [OF n(1,2)] r by simp
  have "r > 0 \<longleftrightarrow> str_less (cmd_name b) (cmd_name a)"
    using less eq str_less_linear [of "cmd_name a" "cmd_name b"]
      str_less_trans [of "cmd_name a" "cmd_name b" "cmd_name a"] by auto
  then show ?thesis using r by (simp add: cmd_le_def)
qed

lemma bubble_pass_ok:
  "\<lbrakk>names_ok ts; i < length ts\<rbrakk> \<Longrightarrow> \<exists>ts' n. bubble_pass ts i = Some (ts', n) \<and>
     mset (take (Suc i) ts') = mset (take (Suc i) ts) \<and> drop (Suc i) ts' = drop (Suc i) ts \<and>
     (\<forall>x \<in> set (take (Suc i) ts). cmd_le x (ts' ! i)) \<and> length ts' = length ts \<and>
     (n = 0 \<longrightarrow> ts' = ts \<and> sorted_wrt cmd_le (take (Suc i) ts))"
proof (induction ts i rule: bubble_pass.induct)
  case (1 a b ts i)
  obtain r where r: "strcmp (cstr (cmd_name a)) (cstr (cmd_name b)) = Some r"
    "r > 0 \<longleftrightarrow> \<not> cmd_le a b" using strcmp_cmd_le [of a b] "1.prems" by (auto simp: names_ok_def)
  show ?case
  proof (cases "r > 0")
    case True
    have "names_ok (a # ts)" "i < length (a # ts)" using "1.prems" by (simp_all add: names_ok_def)
    from "1.IH"(1) [OF r(1) True this] obtain ts' n where t:
      "bubble_pass (a # ts) i = Some (ts', n)" "mset (take (Suc i) ts') = mset (take (Suc i) (a # ts))"
      "drop (Suc i) ts' = drop (Suc i) (a # ts)"
      "\<forall>x \<in> set (take (Suc i) (a # ts)). cmd_le x (ts' ! i)" "length ts' = length (a # ts)" by blast
    have "cmd_le b (ts' ! i)"
      using t(4) r(2) True cmd_le_total [of a b] cmd_le_trans [of b a "ts' ! i"] by auto
    then show ?thesis using t r(1) True by auto
  next
    case False
    have "names_ok (b # ts)" "i < length (b # ts)" using "1.prems" by (simp_all add: names_ok_def)
    from "1.IH"(2) [OF r(1) False this] obtain ts' n where t:
      "bubble_pass (b # ts) i = Some (ts', n)" "mset (take (Suc i) ts') = mset (take (Suc i) (b # ts))"
      "drop (Suc i) ts' = drop (Suc i) (b # ts)"
      "\<forall>x \<in> set (take (Suc i) (b # ts)). cmd_le x (ts' ! i)" "length ts' = length (b # ts)"
      "n = 0 \<longrightarrow> ts' = b # ts \<and> sorted_wrt cmd_le (take (Suc i) (b # ts))" by blast
    have ab: "cmd_le a b" using r(2) False by simp
    have "cmd_le a (ts' ! i)" using t(4) ab cmd_le_trans [of a b "ts' ! i"] by auto
    moreover have "sorted_wrt cmd_le (take (Suc (Suc i)) (a # b # ts))" if "n = 0"
      using that t(6) ab cmd_le_trans [of a b] by auto
    ultimately show ?thesis using t r(1) False by auto
  qed
next
  case (2 ts)
  then show ?case by (cases ts) (auto simp: cmd_le_refl)
qed auto

lemma names_ok_mset: "mset ts = mset ts' \<Longrightarrow> names_ok ts \<Longrightarrow> names_ok ts'"
  by (metis names_ok_def set_mset_mset)

lemma bubble_sort_ok:
  "\<lbrakk>names_ok ts; i < length ts; sorted_wrt cmd_le (drop (Suc i) ts);
    \<forall>x \<in> set (take (Suc i) ts). \<forall>y \<in> set (drop (Suc i) ts). cmd_le x y\<rbrakk> \<Longrightarrow>
   \<exists>ts'. bubble_sort ts i = Some ts' \<and> mset ts' = mset ts \<and> sorted_wrt cmd_le ts'"
proof (induction ts i rule: bubble_sort.induct)
  case (1 ts)
  then obtain a as where "ts = a # as" by (cases ts) auto
  then show ?case using 1 by simp
next
  case (2 ts i)
  obtain ts' n where t: "bubble_pass ts (Suc i) = Some (ts', n)"
    "mset (take (Suc (Suc i)) ts') = mset (take (Suc (Suc i)) ts)"
    "drop (Suc (Suc i)) ts' = drop (Suc (Suc i)) ts"
    "\<forall>x \<in> set (take (Suc (Suc i)) ts). cmd_le x (ts' ! Suc i)" "length ts' = length ts"
    "n = 0 \<longrightarrow> ts' = ts \<and> sorted_wrt cmd_le (take (Suc (Suc i)) ts)"
    using bubble_pass_ok [OF "2.prems"(1,2)] by blast
  have m: "mset ts' = mset ts" using t(2,3) by (metis append_take_drop_id mset_append)
  show ?case
  proof (cases "n = 0")
    case True
    have "sorted_wrt cmd_le (take (Suc (Suc i)) ts @ drop (Suc (Suc i)) ts)"
      using t(6) True "2.prems"(3,4) by (simp only: sorted_wrt_append)
    then show ?thesis using t(1,6) True by simp
  next
    case False
    have sets: "set (take (Suc (Suc i)) ts') = set (take (Suc (Suc i)) ts)"
      using t(2) by (metis set_mset_mset)
    have d: "drop (Suc i) ts' = ts' ! Suc i # drop (Suc (Suc i)) ts'"
      using "2.prems"(2) t(5) by (simp add: Cons_nth_drop_Suc)
    have tk: "take (Suc (Suc i)) ts' = take (Suc i) ts' @ [ts' ! Suc i]"
      using "2.prems"(2) t(5) by (simp add: take_Suc_conv_app_nth)
    have top: "ts' ! Suc i \<in> set (take (Suc (Suc i)) ts)" using sets tk by auto
    have "\<exists>s. bubble_sort ts' i = Some s \<and> mset s = mset ts' \<and> sorted_wrt cmd_le s"
    proof (rule "2.IH" [OF t(1) refl False])
      show "names_ok ts'" using names_ok_mset [OF m [symmetric] "2.prems"(1)] .
      show "i < length ts'" using "2.prems"(2) t(5) by simp
      show "sorted_wrt cmd_le (drop (Suc i) ts')"
        unfolding d using "2.prems"(3,4) top t(3) by simp
      show "\<forall>x \<in> set (take (Suc i) ts'). \<forall>y \<in> set (drop (Suc i) ts'). cmd_le x y"
      proof (intro ballI)
        fix x y
        assume x: "x \<in> set (take (Suc i) ts')" and y: "y \<in> set (drop (Suc i) ts')"
        have "x \<in> set (take (Suc (Suc i)) ts)" using x sets tk by auto
        then show "cmd_le x y" using y t(3,4) d "2.prems"(4) by auto
      qed
    qed
    then show ?thesis using t(1) False m by simp
  qed
qed


section \<open>Properties\<close>

definition sample_table :: "cmd_tbl list" where
  "sample_table =
     [\<lparr>cmd_name = ''setenv'', maxargs = 16, repeatable = False, cmd_fn = 0, cmd_usage = None, cmd_help = None\<rparr>,
      \<lparr>cmd_name = ''run'', maxargs = 16, repeatable = True, cmd_fn = 1, cmd_usage = None, cmd_help = None\<rparr>,
      \<lparr>cmd_name = ''echo'', maxargs = 16, repeatable = True, cmd_fn = 2, cmd_usage = None, cmd_help = None\<rparr>]"

text \<open>
  C18: command lookup: a command word, cut at its first dot, selects the first command with
  exactly this name if there is one; otherwise the command it abbreviates if exactly one name
  starts with it; otherwise none.  The lookup always returns.
\<close>

theorem find_cmd_correct:
  assumes "wf_table table" "nonul s"
  shows "find_cmd table (cstr s) = Some (find_spec table (takeWhile (\<lambda>c. c \<noteq> CHR ''.'') s))"
  using assms by (rule find_cmd_eq)

theorem find_cmd_correct_witness:
  "find_cmd sample_table (cstr ''ec.b'') = Some (Some (sample_table ! 2))"
proof -
  have "find_cmd sample_table (cstr ''ec.b'') =
      Some (find_spec sample_table (takeWhile (\<lambda>c. c \<noteq> CHR ''.'') ''ec.b''))"
    by (rule find_cmd_correct) (simp_all add: wf_table_def sample_table_def)
  then show ?thesis by (simp add: find_spec_def sample_table_def)
qed

text \<open>
  C20: the bubble sort of \<open>help\<close> (with its early stop after a pass without swaps) returns the
  commands of the table in ascending order of their names, each as often as in the table.
\<close>

theorem help_sorts:
  assumes "names_ok ts" "ts \<noteq> []"
  shows "\<exists>ts'. bubble_sort ts (length ts - 1) = Some ts' \<and> mset ts' = mset ts \<and>
    sorted_wrt (\<lambda>a b. \<not> str_less (cmd_name b) (cmd_name a)) ts'"
  using bubble_sort_ok [of ts "length ts - 1"] assms
  by (simp add: cmd_le_def [abs_def])

theorem help_sorts_witness:
  "\<exists>ts'. bubble_sort sample_table (length sample_table - 1) = Some ts' \<and> mset ts' = mset sample_table \<and>
    sorted_wrt (\<lambda>a b. \<not> str_less (cmd_name b) (cmd_name a)) ts'"
  by (rule help_sorts) (simp_all add: names_ok_def ascii7_def sample_table_def)

text \<open>
  \<open>test\<close> inverts the unary operators: \<open>test -z s\<close> returns 0 (true for the shell) exactly when
  \<open>s\<close> is not empty, and \<open>test -n s\<close> exactly when it is empty, while \<open>test a = b\<close> returns 0
  exactly when the strings are equal.
\<close>

theorem test_unary_inverted:
  assumes "nonul s" "nonul a" "nonul b" "a \<notin> {''!'', ''-o'', ''-a'', ''-z'', ''-n''}"
  shows "do_test [cstr ''-z'', cstr s] = Some (if s = [] then 1 else 0) \<and>
    do_test [cstr ''-n'', cstr s] = Some (if s = [] then 0 else 1) \<and>
    do_test [cstr a, cstr ''='', cstr b] = Some (if a = b then 0 else 1)"
proof -
  have streq: "streq (cstr x) y = Some (x = y)" if "nonul x" "nonul y" for x y
    using that strcmp_cstr_returns [OF that] strcmp_cstr_zero_iff [OF that] by (auto simp: streq_def)
  note [simp] = strlen_cstr streq test_loop.simps [of "[]"] test_combine_def
  have z: "test_loop [cstr ''-z'', cstr s] e l (-1) = Some (if s = [] then 0 else 1)" for e l
    using assms by (subst test_loop.simps) (simp del: cstr_Cons)
  have n: "test_loop [cstr ''-n'', cstr s] e l (-1) = Some (if s = [] then 1 else 0)" for e l
    using assms by (subst test_loop.simps) (simp del: cstr_Cons)
  have cmp: "test_compare (cstr a) (cstr ''='') (cstr b) = Some (Some (a = b))"
    using assms strcmp_cstr_returns [of a b] strcmp_cstr_zero_iff [of a b]
    by (auto simp: test_compare_def simp del: cstr_Cons)
  have eq: "test_loop [cstr a, cstr ''='', cstr b] e l (-1) = Some (of_bool (a = b))" for e l
    using assms cmp by (subst test_loop.simps) (simp del: cstr_Cons)
  show ?thesis using assms z n eq by (simp add: do_test_def Let_def del: cstr_Cons)
qed

theorem test_unary_inverted_witness:
  "do_test [cstr ''-z'', cstr []] = Some (if [] = ([] :: string) then 1 else 0) \<and>
    do_test [cstr ''-n'', cstr []] = Some (if [] = ([] :: string) then 0 else 1) \<and>
    do_test [cstr ''q'', cstr ''='', cstr ''q''] = Some (if ''q'' = ''q'' then 0 else 1)"
  by (rule test_unary_inverted) simp_all

end
