(* ===== verification/Cli.thy ===== *)
theory Cli
  imports Environment_Props Command
begin

text \<open>
  The command line (\<open>common/main.c\<close>): splitting a line into arguments, expanding variables,
  running the commands of a line, \<open>run\<close>, reading a line with its editing keys, the countdown
  before the automatic boot and the main loop.  What a command does is the argument \<open>exec\<close>: the
  handler of a table entry, with the flags and the argument vector it gets.
\<close>

definition CFG_CBSIZE :: nat where "CFG_CBSIZE = 256"
definition CFG_MAXARGS :: nat where "CFG_MAXARGS = 16"
definition CMD_FLAG_REPEAT :: nat where "CMD_FLAG_REPEAT = 1"
definition CMD_FLAG_BOOTD :: nat where "CMD_FLAG_BOOTD = 2"

text \<open>The number of the function \<open>do_bootd\<close> in the command table.\<close>

definition do_bootd :: nat where "do_bootd = 0"

type_synonym handler = "cmd_tbl \<Rightarrow> nat \<Rightarrow> nat \<Rightarrow> buf option list \<Rightarrow> board \<Rightarrow> (int \<times> board) option"

section \<open>Arguments\<close>

text \<open>
  \<open>parse_line\<close>: the line with NULs after the arguments and the starts of the arguments; the
  Boolean says that the vector has been ended with NULL.  With too many arguments it has not.
\<close>

function parse_line_loop :: "buf \<Rightarrow> nat \<Rightarrow> nat list \<Rightarrow> (buf \<times> nat list \<times> bool) option" where
  "parse_line_loop line i args =
     (if length args < CFG_MAXARGS then
        (case skip_blanks line i of
           None \<Rightarrow> None
         | Some i \<Rightarrow>
             (case load line i of
                None \<Rightarrow> None
              | Some c \<Rightarrow>
                  if c = NUL then Some (line, args, True)
                  else
                    (case skip_word line i of
                       None \<Rightarrow> None
                     | Some j \<Rightarrow>
                         (case load line j of
                            None \<Rightarrow> None
                          | Some d \<Rightarrow>
                              if d = NUL then Some (line, args @ [i], True)
                              else
                                (case store line j NUL of
                                   None \<Rightarrow> None
                                 | Some line \<Rightarrow> parse_line_loop line (Suc j) (args @ [i]))))))
      else Some (line, args, False))"
  by pat_completeness auto
termination by (relation "measure (\<lambda>(_, _, args). CFG_MAXARGS - length args)") auto

declare parse_line_loop.simps [simp del]

definition parse_line :: "buf \<Rightarrow> 'a console_scheme \<Rightarrow> (nat \<times> buf option list \<times> 'a console_scheme) option" where
  "parse_line line st =
     do { (line, args, ended) \<leftarrow> parse_line_loop line 0 [];
          st \<leftarrow> (if ended then Some st
                else printf (''** Too many args (max. %d) **'' @ [CHR 0x0A]) [VWord (of_nat CFG_MAXARGS)] st);
          Some (length args, map (\<lambda>i. Some (drop i line)) args @ (if ended then [None] else []), st) }"

section \<open>Variables in a command\<close>

text \<open>\<open>while ((*envval) && outputcnt) { *(output++) = *(envval++); outputcnt--; }\<close>\<close>

fun copy_value :: "buf \<Rightarrow> nat \<Rightarrow> string \<Rightarrow> (nat \<times> string) option" where
  "copy_value [] outputcnt out = None"
| "copy_value (c # v) outputcnt out =
     (if c \<noteq> NUL \<and> outputcnt \<noteq> 0 then copy_value v (outputcnt - 1) (out @ [c])
      else Some (outputcnt, out))"

text \<open>
  One character \<open>c\<close> of the input; \<open>input\<close> is the pointer after it.  The states are those of the
  code: 0 text, 1 after a dollar, 2 in a name, 3 in single quotes.  The result is the state, the
  free space, \<open>varname_start\<close> and the output so far.
\<close>

definition macro_step ::
  "board \<Rightarrow> nat \<Rightarrow> char \<Rightarrow> char \<Rightarrow> buf \<Rightarrow> nat \<Rightarrow> buf \<Rightarrow> string \<Rightarrow> (nat \<times> nat \<times> buf \<times> string) option" where
  "macro_step st state c prev input outputcnt varname out =
     (if state = 0 then
        if c = CHR 0x27 \<and> prev \<noteq> CHR 0x5C then Some (3, outputcnt, varname, out)
        else if c = CHR ''$'' \<and> prev \<noteq> CHR 0x5C then Some (1, outputcnt, varname, out)
        else Some (0, outputcnt - 1, varname, out @ [c])
      else if state = 1 then
        if c = CHR ''('' \<or> c = CHR ''{'' then Some (2, outputcnt, input, out)
        else if outputcnt - 1 \<noteq> 0 then Some (0, outputcnt - 2, varname, out @ [CHR ''$'', c])
        else Some (0, outputcnt - 1, varname, out @ [CHR ''$''])
      else if state = 2 then
        if c = CHR '')'' \<or> c = CHR ''}'' then
          do { val \<leftarrow> getenv (take (length varname - length input - 1) varname @ [NUL]) st;
               (case val of
                  None \<Rightarrow> Some (0, outputcnt, varname, out)
                | Some v \<Rightarrow>
                    do { (outputcnt, out) \<leftarrow> copy_value v outputcnt out;
                         Some (0, outputcnt, varname, out) }) }
        else Some (2, outputcnt, varname, out)
      else
        if c = CHR 0x27 \<and> prev \<noteq> CHR 0x5C then Some (0, outputcnt, varname, out)
        else Some (3, outputcnt - 1, varname, out @ [c]))"

function macro_loop ::
  "board \<Rightarrow> buf \<Rightarrow> nat \<Rightarrow> nat \<Rightarrow> nat \<Rightarrow> char \<Rightarrow> buf \<Rightarrow> string \<Rightarrow> (nat \<times> string) option" where
  "macro_loop st input inputcnt outputcnt state prev varname out =
     (if inputcnt \<noteq> 0 \<and> outputcnt \<noteq> 0 then
        (case input of
           [] \<Rightarrow> None
         | c # input \<Rightarrow>
             if state \<noteq> 3 \<and> c = CHR 0x5C \<and> prev \<noteq> CHR 0x5C then
               (if inputcnt - 1 = 0 then Some (outputcnt, out)
                else
                  (case input of
                     [] \<Rightarrow> None
                   | d # input \<Rightarrow>
                       (case macro_step st state d c input outputcnt varname out of
                          None \<Rightarrow> None
                        | Some (state, outputcnt, varname, out) \<Rightarrow>
                            macro_loop st input (inputcnt - 2) outputcnt state d varname out)))
             else
               (case macro_step st state c prev input outputcnt varname out of
                  None \<Rightarrow> None
                | Some (state, outputcnt, varname, out) \<Rightarrow>
                    macro_loop st input (inputcnt - 1) outputcnt state c varname out))
      else Some (outputcnt, out))"
  by pat_completeness auto
termination by (relation "measure (\<lambda>(_, _, inputcnt, _). inputcnt)") auto

declare macro_loop.simps [simp del]

text \<open>
  The output buffer has \<open>CFG_CBSIZE\<close> bytes; the result is the part that has been written.  The
  final NUL is there only if there is room for it.
\<close>

definition process_macros :: "board \<Rightarrow> buf \<Rightarrow> buf option" where
  "process_macros st input =
     do { inputcnt \<leftarrow> strlen input;
          (outputcnt, out) \<leftarrow> macro_loop st input inputcnt CFG_CBSIZE 0 NUL [] [];
          Some (if outputcnt \<noteq> 0 then out @ [NUL] else out) }"

section \<open>Running commands\<close>

text \<open>
  The separator of the command that starts at \<open>str\<close>: a semicolon outside quotes that is not
  escaped, or the end.  For a quote in the first place the code reads the byte before the buffer.
\<close>

function find_sep :: "buf \<Rightarrow> nat \<Rightarrow> nat \<Rightarrow> bool \<Rightarrow> nat option" where
  "find_sep b str sep inquotes =
     (case load b sep of
        None \<Rightarrow> None
      | Some c \<Rightarrow>
          if c = NUL then Some sep
          else if c = CHR 0x27 then
            (if sep = 0 then None
             else
               (case load b (sep - 1) of
                  None \<Rightarrow> None
                | Some p \<Rightarrow> find_sep b str (Suc sep) (if p \<noteq> CHR 0x5C then \<not> inquotes else inquotes)))
          else if \<not> inquotes \<and> c = CHR '';'' \<and> sep \<noteq> str then
            (case load b (sep - 1) of
               None \<Rightarrow> None
             | Some p \<Rightarrow> if p \<noteq> CHR 0x5C then Some sep else find_sep b str (Suc sep) inquotes)
          else find_sep b str (Suc sep) inquotes)"
  by pat_completeness auto
termination by (relation "measure (\<lambda>(b, _, sep, _). length b - sep)") (auto simp: load_eq_Some_iff)

declare find_sep.simps [simp del]

lemma find_sep_ge: "find_sep b str sep q = Some k \<Longrightarrow> sep \<le> k \<and> k < length b"
proof (induction b str sep q rule: find_sep.induct)
  case (1 b str sep q)
  from "1.prems" "1.IH" show ?case
    by (subst (asm) find_sep.simps) (fastforce split: option.splits if_splits simp: load_eq_Some_iff)
qed

text \<open>
  One command: the flags, the factor for \<open>repeatable\<close>, the new \<open>rc\<close> (if it changes) and the
  state; the last component says that control-C was pressed.
\<close>

definition run_token ::
  "cmd_tbl list \<Rightarrow> handler \<Rightarrow> buf \<Rightarrow> nat \<Rightarrow> board \<Rightarrow> (nat \<times> bool \<times> int option \<times> board \<times> bool) option" where
  "run_token table exec token flag st =
     do { finaltoken \<leftarrow> process_macros st token;
          (argc, argv, st) \<leftarrow> parse_line finaltoken st;
          p \<leftarrow> load argv 0;
          name \<leftarrow> p;
          c \<leftarrow> find_cmd table name;
          (case c of
             None \<Rightarrow>
               do { st \<leftarrow> printf (''Unknown command '' @ [CHR 0x27] @ ''%s'' @ [CHR 0x27] @ '' - try '' @
                              [CHR 0x27] @ ''help'' @ [CHR 0x27, CHR 0x0A]) [VStr (Some name)] st;
                    Some (flag, True, Some (-1), st, False) }
           | Some t \<Rightarrow>
               if argc > maxargs t then
                 do { st \<leftarrow> printf (''Usage:'' @ [CHR 0x0A] @ ''%s'' @ [CHR 0x0A])
                              [VStr (map_option cstr (cmd_usage t))] st;
                      Some (flag, True, Some (-1), st, False) }
               else if cmd_fn t = do_bootd \<and> flag AND CMD_FLAG_BOOTD \<noteq> 0 then
                 do { st \<leftarrow> puts (cstr ([CHR 0x27] @ ''bootd'' @ [CHR 0x27] @ '' recursion detected'' @
                              [CHR 0x0A])) st;
                      Some (flag, True, Some (-1), st, False) }
               else
                 let flag = (if cmd_fn t = do_bootd then flag OR CMD_FLAG_BOOTD else flag)
                 in do { (r, st) \<leftarrow> exec t flag argc argv st;
                         Some (flag, repeatable t, if r \<noteq> 0 then Some (-1) else None, st, had_ctrlc st) }) }"

function run_loop ::
  "cmd_tbl list \<Rightarrow> handler \<Rightarrow> buf \<Rightarrow> nat \<Rightarrow> nat \<Rightarrow> bool \<Rightarrow> int \<Rightarrow> board \<Rightarrow> (int \<times> board) option" where
  "run_loop table exec b str flag rep rc st =
     (case load b str of
        None \<Rightarrow> None
      | Some c \<Rightarrow>
          if c = NUL then Some (if rc \<noteq> 0 then rc else of_bool rep, st)
          else
            (case find_sep b str str False of
               None \<Rightarrow> None
             | Some sep \<Rightarrow>
                 (case load b sep of
                    None \<Rightarrow> None
                  | Some d \<Rightarrow>
                      (case (if d \<noteq> NUL then store b sep NUL else Some b) of
                         None \<Rightarrow> None
                       | Some b' \<Rightarrow>
                           (case run_token table exec (drop str b') flag st of
                              None \<Rightarrow> None
                            | Some (flag', r, rc', st', stopped) \<Rightarrow>
                                if stopped then Some (0, st')
                                else
                                  (if d \<noteq> NUL then
                                     run_loop table exec b' (Suc sep) flag' (rep \<and> r)
                                       (case rc' of None \<Rightarrow> rc | Some x \<Rightarrow> x) st'
                                   else
                                     Some (case rc' of
                                         None \<Rightarrow> if rc \<noteq> 0 then rc else of_bool (rep \<and> r)
                                       | Some x \<Rightarrow> if x \<noteq> 0 then x else of_bool (rep \<and> r), st'))))))) "
  by pat_completeness auto
termination
  by (relation "measure (\<lambda>(_, _, b, str, _). length b - str)")
    (auto simp: load_eq_Some_iff store_eq_Some_iff dest!: find_sep_ge split: if_splits)

declare run_loop.simps [simp del]

definition run_command ::
  "cmd_tbl list \<Rightarrow> handler \<Rightarrow> buf option \<Rightarrow> nat \<Rightarrow> board \<Rightarrow> (int \<times> board) option" where
  "run_command table exec cmd flag st =
     (let st = clear_ctrlc st
      in case cmd of
           None \<Rightarrow> Some (-1, st)
         | Some s \<Rightarrow>
             do { c \<leftarrow> load s 0;
                  if c = NUL then Some (-1, st)
                  else
                    do { n \<leftarrow> strlen s;
                         if n \<ge> CFG_CBSIZE then
                           do { st \<leftarrow> puts (cstr (''## Command too long!'' @ [CHR 0x0A])) st; Some (-1, st) }
                         else
                           do { cmdbuf \<leftarrow> strcpy (replicate CFG_CBSIZE NUL) s;
                                run_loop table exec cmdbuf 0 flag True 0 st } } })"


text \<open>\<open>run\<close>: \<open>names\<close> are the arguments after the command word.\<close>

fun run_vars :: "cmd_tbl list \<Rightarrow> handler \<Rightarrow> nat \<Rightarrow> buf list \<Rightarrow> board \<Rightarrow> (int \<times> board) option" where
  "run_vars table exec flag [] st = Some (0, st)"
| "run_vars table exec flag (n # ns) st =
     do { arg \<leftarrow> getenv n st;
          (case arg of
             None \<Rightarrow>
               do { st \<leftarrow> printf (''## Error: '' @ [CHR 0x22] @ ''%s'' @ [CHR 0x22] @ '' not defined'' @
                              [CHR 0x0A]) [VStr (Some n)] st;
                    Some (1, st) }
           | Some cmd \<Rightarrow>
               do { (r, st) \<leftarrow> run_command table exec (Some cmd) flag st;
                    if r = -1 then Some (1, st) else run_vars table exec flag ns st }) }"

definition do_run ::
  "cmd_tbl list \<Rightarrow> handler \<Rightarrow> cmd_tbl \<Rightarrow> nat \<Rightarrow> buf list \<Rightarrow> board \<Rightarrow> (int \<times> board) option" where
  "do_run table exec cmdtp flag names st =
     (if names = [] then
        do { st \<leftarrow> printf (''Usage:'' @ [CHR 0x0A] @ ''%s'' @ [CHR 0x0A])
                     [VStr (map_option cstr (cmd_usage cmdtp))] st;
             Some (1, st) }
      else run_vars table exec flag names st)"

section \<open>Reading a line\<close>

definition erase_seq :: buf where "erase_seq = cstr [CHR 0x08, CHR '' '', CHR 0x08]"
definition tab_seq :: buf where "tab_seq = cstr (replicate 8 (CHR '' ''))"

fun puts_times :: "nat \<Rightarrow> buf \<Rightarrow> 'a console_scheme \<Rightarrow> 'a console_scheme option" where
  "puts_times 0 s st = Some st"
| "puts_times (Suc n) s st = do { st \<leftarrow> puts s st; puts_times n s st }"

text \<open>Retyping the characters before the deleted tab.\<close>

fun retype :: "string \<Rightarrow> int \<Rightarrow> 'a console_scheme \<Rightarrow> (int \<times> 'a console_scheme) option" where
  "retype [] col st = Some (col, st)"
| "retype (c # s) col st =
     (if c = TAB then
        do { st \<leftarrow> puts (drop (nat (col mod 8)) tab_seq) st; retype s (col + (8 - col mod 8)) st }
      else do { st \<leftarrow> putc c st; retype s (col + 1) st })"

text \<open>\<open>n\<close> is both the number of characters and the position of \<open>p\<close> in the buffer.\<close>

definition delete_char ::
  "buf \<Rightarrow> nat \<Rightarrow> int \<Rightarrow> int \<Rightarrow> 'a console_scheme \<Rightarrow> (nat \<times> int \<times> 'a console_scheme) option" where
  "delete_char b n col plen st =
     (if n = 0 then Some (n, col, st)
      else
        do { c \<leftarrow> load b (n - 1);
             if c = TAB then
               do { st \<leftarrow> puts_times (nat (col - plen)) erase_seq st;
                    (col, st) \<leftarrow> retype (take (n - 1) b) (if col > plen then plen else col) st;
                    Some (n - 1, col, st) }
             else
               do { st \<leftarrow> puts erase_seq st; Some (n - 1, col - 1, st) } })"

text \<open>The loop of control-W after the first deletion.\<close>

function erase_word ::
  "buf \<Rightarrow> nat \<Rightarrow> int \<Rightarrow> int \<Rightarrow> 'a console_scheme \<Rightarrow> (nat \<times> int \<times> 'a console_scheme) option" where
  "erase_word b n col plen st =
     (if n > 0 then
        (case load b n of
           None \<Rightarrow> None
         | Some c \<Rightarrow>
             if c \<noteq> CHR '' '' then
               (case delete_char b n col plen st of
                  None \<Rightarrow> None
                | Some (n', col', st') \<Rightarrow>
                    if n' < n then erase_word b n' col' plen st' else None)
             else Some (n, col, st))
      else Some (n, col, st))"
  by pat_completeness auto
termination by (relation "measure (\<lambda>(_, n, _). n)") auto

declare erase_word.simps [simp del]

text \<open>
  The loop of \<open>readline\<close>: it does not end when no end of line arrives.  The result is the number
  of characters (or -1) and the buffer.
\<close>

partial_function (option) readline_loop ::
  "int \<Rightarrow> buf \<Rightarrow> nat \<Rightarrow> int \<Rightarrow> board \<Rightarrow> (int \<times> buf \<times> board) option" where
  "readline_loop plen b n col st =
     do { (k, st) \<leftarrow> getc st;
          let c = char_of (nat (k mod 256))
          in if c = CHR 0x0D \<or> c = CHR 0x0A then
               do { b \<leftarrow> store b n NUL;
                    st \<leftarrow> puts (cstr [CHR 0x0D, CHR 0x0A]) st;
                    Some (int n, b, st) }
             else if c = NUL then readline_loop plen b n col st
             else if c = CHR 0x03 then
               do { b \<leftarrow> store b 0 NUL; Some (-1, b, st) }
             else if c = CHR 0x15 then
               do { st \<leftarrow> puts_times (nat (col - plen)) erase_seq st;
                    readline_loop plen b 0 (if col > plen then plen else col) st }
             else if c = CHR 0x17 then
               do { (n, col, st) \<leftarrow> delete_char b n col plen st;
                    (n, col, st) \<leftarrow> erase_word b n col plen st;
                    readline_loop plen b n col st }
             else if c = CHR 0x08 \<or> c = CHR 0x7F then
               do { (n, col, st) \<leftarrow> delete_char b n col plen st;
                    readline_loop plen b n col st }
             else if n < CFG_CBSIZE - 2 then
               if c = TAB then
                 do { st \<leftarrow> puts (drop (nat (col mod 8)) tab_seq) st;
                      b \<leftarrow> store b n c;
                      readline_loop plen b (Suc n) (col + (8 - col mod 8)) st }
               else
                 do { st \<leftarrow> putc c st;
                      b \<leftarrow> store b n c;
                      readline_loop plen b (Suc n) (col + 1) st }
             else
               do { st \<leftarrow> putc (CHR 0x07) st; readline_loop plen b n col st } }"

definition readline :: "string option \<Rightarrow> buf \<Rightarrow> board \<Rightarrow> (int \<times> buf \<times> board) option" where
  "readline prompt console_buffer st =
     (case prompt of
        None \<Rightarrow> readline_loop 0 console_buffer 0 0 st
      | Some p \<Rightarrow>
          do { st \<leftarrow> puts (cstr p) st;
               readline_loop (int (length p)) console_buffer 0 (int (length p)) st })"

section \<open>The automatic boot\<close>

text \<open>Up to 100 polls of the console, 10 milliseconds apart; a key press is consumed.\<close>

fun poll_key :: "nat \<Rightarrow> 'a console_scheme \<Rightarrow> (bool \<times> 'a console_scheme) option" where
  "poll_key 0 st = Some (False, st)"
| "poll_key (Suc i) st =
     do { (t, st) \<leftarrow> tstc st;
          if t \<noteq> 0 then do { (_, st) \<leftarrow> getc st; Some (True, st) }
          else do { st \<leftarrow> udelay 10000 st; poll_key i st } }"

fun countdown :: "nat \<Rightarrow> 'a console_scheme \<Rightarrow> (bool \<times> 'a console_scheme) option" where
  "countdown 0 st = Some (False, st)"
| "countdown (Suc n) st =
     do { (key, st) \<leftarrow> poll_key 100 st;
          st \<leftarrow> printf ([CHR 0x08, CHR 0x08, CHR 0x08] @ ''%2d '')
                  [VWord (if key then 0 else of_nat n)] st;
          if key then Some (True, st) else countdown n st }"

definition abortboot :: "int \<Rightarrow> 'a console_scheme \<Rightarrow> (bool \<times> 'a console_scheme) option" where
  "abortboot bootdelay st =
     do { st \<leftarrow> printf ''Hit any key to stop autoboot: %2d '' [VWord (of_int bootdelay)] st;
          (abort, st) \<leftarrow> countdown (nat bootdelay) st;
          st \<leftarrow> putc (CHR 0x0A) st;
          Some (abort, st) }"

section \<open>The main loop\<close>

definition CFG_PROMPT :: string where "CFG_PROMPT = ''ASAP18xx#''"
definition CONFIG_BOOTDELAY :: int where "CONFIG_BOOTDELAY = 5"

text \<open>
  The command lines with the boot arguments, for the two values of the partition index, and the
  MAC address part.
\<close>

definition bootargs_format :: "bool \<Rightarrow> string" where
  "bootargs_format first =
     ''setenv bootargs mem=%dM console=/dev/ttyS4,115200 root=/dev/mtdblock1 init=/init mtdparts=NAND:'' @
     (if first then ''2M@0M(boot),14M@2M(root),-@16M(yaffs)'' else ''9M@0M(boot),7M@9M(root),-@16M(yaffs)'')"

definition macaddr_format :: string where
  "macaddr_format = '' macaddr=%c%c:%c%c:%c%c:%c%c:%c%c:%c%c''"

text \<open>\<open>cmdline\<close> is an array of 128 characters on the stack; \<open>mac\<close> holds 12 characters.\<close>

definition main_cmdline :: "bool \<Rightarrow> u32 \<Rightarrow> u32 \<Rightarrow> buf \<Rightarrow> buf option" where
  "main_cmdline first ramsize_MB magic mac =
     do { (cmdline, _, _) \<leftarrow> vsprintf (replicate 128 NUL) (cstr (bootargs_format first)) [VWord ramsize_MB];
          if magic = 0x55AA55AA then
            do { k \<leftarrow> strlen cmdline;
                 (rest, _, _) \<leftarrow> vsprintf (drop k cmdline)
                    (cstr (macaddr_format @ [CHR '' '', CHR 0x0D, CHR 0x0A]))
                    (map (\<lambda>c. VWord (of_nat (code c))) (take 12 mac));
                 Some (take k cmdline @ rest) }
          else Some cmdline }"

text \<open>The part before the command loop: the boot command, the boot arguments, the board's boot.\<close>

definition main_boot ::
  "cmd_tbl list \<Rightarrow> handler \<Rightarrow> bool \<Rightarrow> u32 \<Rightarrow> u32 \<Rightarrow> buf \<Rightarrow> board \<Rightarrow> board option" where
  "main_boot table exec first ramsize_MB magic mac st =
     do { s \<leftarrow> getenv (cstr ''bootdelay'') st;
          bootdelay \<leftarrow> (case s of
              Some v \<Rightarrow> map_option (\<lambda>(w, _). sint w) (simple_strtol v 10)
            | None \<Rightarrow> Some CONFIG_BOOTDELAY);
          s \<leftarrow> getenv (cstr ''bootcmd'') st;
          st \<leftarrow> (if bootdelay \<ge> 0 \<and> s \<noteq> None then
                   do { (abort, st) \<leftarrow> abortboot bootdelay st;
                        if abort then Some st
                        else map_option snd (run_command table exec s 0 st) }
                 else Some st);
          cmdline \<leftarrow> main_cmdline first ramsize_MB magic mac;
          st \<leftarrow> printf (bootargs_format first @ [CHR '' '', CHR 0x0A]) [VWord ramsize_MB] st;
          st \<leftarrow> printf macaddr_format (map (\<lambda>c. VWord (of_nat (code c))) (take 12 mac)) st;
          (_, st) \<leftarrow> run_command table exec (Some cmdline) 0 st;
          map_option snd (run_command table exec (Some (cstr ''bootm 0x20800000'')) 0 st) }"

text \<open>
  One round of the command loop: \<open>lastcommand\<close>, \<open>console_buffer\<close> and \<open>rc\<close> are carried along.
\<close>

definition main_step ::
  "cmd_tbl list \<Rightarrow> handler \<Rightarrow> buf \<times> buf \<times> int \<times> board \<Rightarrow> (buf \<times> buf \<times> int \<times> board) option" where
  "main_step table exec = (\<lambda>(lastcommand, console_buffer, rc, st).
     do { (len, console_buffer, st) \<leftarrow> readline (Some CFG_PROMPT) console_buffer st;
          lastcommand \<leftarrow> (if len > 0 then strcpy lastcommand console_buffer else Some lastcommand);
          (rc, st) \<leftarrow> (if len = -1 then
                          do { st \<leftarrow> puts (cstr (''<INTERRUPT>'' @ [CHR 0x0A])) st; Some (rc, st) }
                        else if hd lastcommand = CHR '' '' then Some (rc, st)
                        else run_command table exec (Some lastcommand)
                               (if len = 0 then CMD_FLAG_REPEAT else 0) st);
          lastcommand \<leftarrow> (if rc \<le> 0 then store lastcommand 0 NUL else Some lastcommand);
          Some (lastcommand, console_buffer, rc, st) })"

end
