(* ===== verification/Cli_Props.thy ===== *)
theory Cli_Props
  imports Cli
begin

text \<open>
  What the command line does: \<open>parse_line\<close> splits a line into its words, \<open>process_macros\<close> replaces
  the references to variables by their values, \<open>run_command\<close> runs the commands of a line one after
  the other, and \<open>readline\<close> applies the editing keys.
\<close>

section \<open>Splitting into words\<close>

definition blank :: "char \<Rightarrow> bool" where
  "blank c \<longleftrightarrow> c = CHR '' '' \<or> c = TAB"

function words :: "string \<Rightarrow> string list" where
  "words s =
     (let s1 = dropWhile blank s
      in if s1 = [] then []
         else takeWhile (\<lambda>c. \<not> blank c) s1 # words (dropWhile (\<lambda>c. \<not> blank c) s1))"
  by pat_completeness auto
termination
proof (relation "measure length", goal_cases)
  case (2 s s1)
  then obtain c cs where "s1 = c # cs" by (meson list.exhaust)
  then have "\<not> blank c" using 2 hd_dropWhile [of blank s] by simp
  then have "length (dropWhile (\<lambda>c. \<not> blank c) s1) \<le> length cs"
    using \<open>s1 = c # cs\<close> by (simp add: length_dropWhile_le)
  moreover have "length s1 \<le> length s" using 2 by (simp add: length_dropWhile_le)
  ultimately show ?case using \<open>s1 = c # cs\<close> by simp
qed simp

declare words.simps [simp del]

lemma load_after: "load (pre @ c # r) (length pre) = Some c"
  by (simp add: load_def)

lemma skip_blanks_eq:
  "list_all blank b \<Longrightarrow> \<not> blank c \<Longrightarrow>
   skip_blanks (pre @ b @ c # r) (length pre) = Some (length pre + length b)"
proof (induction b arbitrary: pre)
  case Nil
  then show ?case by (subst skip_blanks.simps) (simp add: load_after blank_def)
next
  case (Cons x b)
  then show ?case
    using Cons.IH [of "pre @ [x]"] by (subst skip_blanks.simps) (simp add: load_after blank_def)
qed

lemma skip_word_eq:
  "list_all (\<lambda>c. \<not> blank c \<and> c \<noteq> NUL) w \<Longrightarrow> blank c \<or> c = NUL \<Longrightarrow>
   skip_word (pre @ w @ c # r) (length pre) = Some (length pre + length w)"
proof (induction w arbitrary: pre)
  case Nil
  then show ?case by (subst skip_word.simps) (auto simp add: load_after blank_def)
next
  case (Cons x w)
  then show ?case
    using Cons.IH [of "pre @ [x]"] by (subst skip_word.simps) (simp add: load_after blank_def)
qed

text \<open>A string that is not blank, cut into blanks, a word and the rest.\<close>

lemma cut_word:
  assumes "dropWhile blank s \<noteq> []" "nonul s"
  obtains b w t where "s = b @ w @ t" "list_all blank b" "w \<noteq> []"
    "list_all (\<lambda>c. \<not> blank c \<and> c \<noteq> NUL) w" "t = [] \<or> blank (hd t)" "words s = w # words t"
    "nonul t" "t \<noteq> [] \<longrightarrow> words s = w # words (tl t)"
proof -
  let ?b = "takeWhile blank s" and ?s1 = "dropWhile blank s"
  let ?w = "takeWhile (\<lambda>c. \<not> blank c) ?s1" and ?t = "dropWhile (\<lambda>c. \<not> blank c) ?s1"
  have s: "s = ?b @ ?w @ ?t" by simp
  have b: "list_all blank ?b" by (auto simp: list_all_iff dest: set_takeWhileD)
  have hd: "\<not> blank (hd ?s1)" using assms(1) by (rule hd_dropWhile)
  then have w: "?w \<noteq> []" using assms(1) by (cases ?s1) auto
  have nn: "NUL \<notin> set ?w" "NUL \<notin> set ?t"
    using assms(2) s unfolding nonul_def by (metis Un_iff set_append)+
  have wn: "list_all (\<lambda>c. \<not> blank c \<and> c \<noteq> NUL) ?w"
    using nn by (auto simp: list_all_iff dest: set_takeWhileD)
  have t: "?t = [] \<or> blank (hd ?t)" using hd_dropWhile [of "\<lambda>c. \<not> blank c" ?s1] by auto
  have ws: "words s = ?w # words ?t" using assms(1) by (subst words.simps) (simp add: Let_def)
  have "words ?t = words (tl ?t)" if ne: "?t \<noteq> []"
  proof -
    obtain c cs where c: "?t = c # cs" using ne by (meson list.exhaust)
    then have "blank c" using t by simp
    then have "dropWhile blank (c # cs) = dropWhile blank cs" by simp
    then show ?thesis unfolding c by (subst (1 2) words.simps) simp
  qed
  then have "?t \<noteq> [] \<longrightarrow> words s = ?w # words (tl ?t)" using ws by simp
  then show thesis using that [OF s b w wn t ws] nn(2) unfolding nonul_def by blast
qed

lemma parse_line_loop_eq:
  "\<lbrakk>nonul s; length args \<le> 16\<rbrakk> \<Longrightarrow>
   \<exists>line' idx e. parse_line_loop (pre @ s @ NUL # r) (length pre) args = Some (line', args @ idx, e) \<and>
     take (length pre) line' = pre \<and>
     map (\<lambda>i. str_at (drop i line')) idx = map Some (take (16 - length args) (words s)) \<and>
     (length args + length (words s) < 16 \<longrightarrow> e) \<and> (16 < length args + length (words s) \<longrightarrow> \<not> e)"
proof (induction "16 - length args" arbitrary: pre s args)
  case 0
  then show ?case by (subst parse_line_loop.simps) (auto simp: CFG_MAXARGS_def)
next
  case (Suc k)
  then have a: "length args < CFG_MAXARGS" by (simp add: CFG_MAXARGS_def)
  show ?case
  proof (cases "dropWhile blank s = []")
    case True
    then have b: "list_all blank s" by (auto simp: list_all_iff dropWhile_eq_Nil_conv)
    have "skip_blanks (pre @ s @ NUL # r) (length pre) = Some (length pre + length s)"
      using b by (rule skip_blanks_eq) (simp add: blank_def)
    moreover have "load (pre @ s @ NUL # r) (length pre + length s) = Some NUL"
      using load_after [of "pre @ s"] by simp
    moreover have "words s = []" using True by (simp add: words.simps)
    ultimately show ?thesis using a Suc.prems
      by (subst parse_line_loop.simps) (auto simp: CFG_MAXARGS_def)
  next
    case False
    obtain b w t where c: "s = b @ w @ t" "list_all blank b" "w \<noteq> []"
      "list_all (\<lambda>c. \<not> blank c \<and> c \<noteq> NUL) w" "t = [] \<or> blank (hd t)" "words s = w # words t"
      "nonul t" "t \<noteq> [] \<longrightarrow> words s = w # words (tl t)"
      using cut_word [OF False Suc.prems(1)] by blast
    obtain x xs where x: "w = x # xs" "\<not> blank x" "x \<noteq> NUL" using c(3,4) by (cases w) auto
    have nw: "nonul w" using c(4) by (auto simp: nonul_def list_all_iff)
    let ?d = "pre @ s @ NUL # r" and ?i = "length pre + length b"
    have 1: "skip_blanks ?d (length pre) = Some ?i"
      using skip_blanks_eq [OF c(2) x(2), of pre "xs @ t @ NUL # r"] c(1) x by simp
    have 2: "load ?d ?i = Some x" using load_after [of "pre @ b" x] c(1) x by simp
    show ?thesis
    proof (cases t)
      case Nil
      have "skip_word ?d ?i = Some (?i + length w)"
        using skip_word_eq [OF c(4), of NUL "pre @ b" r] c(1) Nil by simp
      moreover have "load ?d (?i + length w) = Some NUL"
        using load_after [of "pre @ b @ w" NUL r] c(1) Nil by (simp add: add.assoc)
      moreover have "str_at (drop ?i ?d) = Some w"
        using c(1) Nil nw by (simp add: str_at_append)
      moreover have "words s = [w]" using c(6) Nil by (simp add: words.simps)
      moreover have "take (16 - length args) [w] = [w]" using a by (simp add: CFG_MAXARGS_def take_Cons')
      ultimately show ?thesis using a 1 2 x Suc.prems
        by (subst parse_line_loop.simps) (auto simp: CFG_MAXARGS_def)
    next
      case (Cons y t')
      then have y: "blank y" "y \<noteq> NUL" using c(5,7) by auto
      have 3: "skip_word ?d ?i = Some (?i + length w)"
        using skip_word_eq [OF c(4), of y "pre @ b" "t' @ NUL # r"] c(1) Cons y by simp
      have 4: "load ?d (?i + length w) = Some y"
        using load_after [of "pre @ b @ w" y] c(1) Cons by (simp add: add.assoc)
      let ?pre = "pre @ b @ w @ [NUL]"
      have 5: "store ?d (?i + length w) NUL = Some (?pre @ t' @ NUL # r)"
        using store_append_length [of "pre @ b @ w" y "t' @ NUL # r" NUL] c(1) Cons by (simp add: add.assoc)
      have step: "parse_line_loop ?d (length pre) args =
          parse_line_loop (?pre @ t' @ NUL # r) (length ?pre) (args @ [?i])"
        using a 1 2 3 4 5 x y by (subst parse_line_loop.simps) (simp add: add.assoc)
      have k: "k = 16 - length (args @ [?i])" "length (args @ [?i]) \<le> 16" "nonul t'"
        using Suc.hyps(2) a c(7) Cons by (auto simp: CFG_MAXARGS_def)
      obtain line' idx e where ih:
        "parse_line_loop (?pre @ t' @ NUL # r) (length ?pre) (args @ [?i]) = Some (line', (args @ [?i]) @ idx, e)"
        "take (length ?pre) line' = ?pre"
        "map (\<lambda>i. str_at (drop i line')) idx = map Some (take (16 - length (args @ [?i])) (words t'))"
        "length (args @ [?i]) + length (words t') < 16 \<longrightarrow> e"
        "16 < length (args @ [?i]) + length (words t') \<longrightarrow> \<not> e"
        using Suc.hyps(1) [OF k(1,3,2), of ?pre] by blast
      have l: "line' = ?pre @ drop (length ?pre) line'" using ih(2) by (metis append_take_drop_id)
      have "drop ?i line' = w @ NUL # drop (length ?pre) line'" by (subst l) simp
      then have w: "str_at (drop ?i line') = Some w" using nw by (simp add: str_at_append)
      have ws: "words s = w # words t'" using c(8) Cons by simp
      have tk: "take (16 - length args) (words s) = w # take (16 - length (args @ [?i])) (words t')"
        using a ws by (simp add: CFG_MAXARGS_def take_Cons')
      show ?thesis
      proof (intro exI conjI)
        show "parse_line_loop ?d (length pre) args = Some (line', args @ (?i # idx), e)"
          using step ih(1) by simp
        show "take (length pre) line' = pre" by (subst l) simp
        show "map (\<lambda>i. str_at (drop i line')) (?i # idx) = map Some (take (16 - length args) (words s))"
          unfolding tk using w ih(3) by simp
      qed (use ih(4,5) ws in auto)
    qed
  qed
qed


section \<open>Expanding variables\<close>

text \<open>A command as plain text and references to variables.\<close>

datatype piece = Text string | Var string

definition text_char :: "char \<Rightarrow> bool" where
  "text_char c \<longleftrightarrow> c \<noteq> NUL \<and> c \<noteq> CHR ''$'' \<and> c \<noteq> CHR 0x5C \<and> c \<noteq> CHR 0x27"

definition var_char :: "char \<Rightarrow> bool" where
  "var_char c \<longleftrightarrow> c \<noteq> NUL \<and> c \<noteq> CHR '')'' \<and> c \<noteq> CHR ''}'' \<and> c \<noteq> CHR 0x5C \<and> c \<noteq> CHR ''=''"

definition wf_pieces :: "piece list \<Rightarrow> bool" where
  "wf_pieces ps \<longleftrightarrow> (\<forall>p \<in> set ps. case p of Text s \<Rightarrow> list_all text_char s | Var n \<Rightarrow> list_all var_char n)"

fun render :: "piece list \<Rightarrow> string" where
  "render [] = []"
| "render (Text s # ps) = s @ render ps"
| "render (Var n # ps) = ''${'' @ n @ ''}'' @ render ps"

fun expand :: "(string \<Rightarrow> string option) \<Rightarrow> piece list \<Rightarrow> string" where
  "expand val [] = []"
| "expand val (Text s # ps) = s @ expand val ps"
| "expand val (Var n # ps) = (case val n of None \<Rightarrow> [] | Some v \<Rightarrow> v) @ expand val ps"

lemma copy_value_eq: "nonul v \<Longrightarrow>
    copy_value (v @ NUL # r) k out = Some (k - length v, out @ take k v)"
proof (induction v arbitrary: k out)
  case (Cons c v)
  then show ?case by (cases k) auto
qed simp

lemma macro_loop_full: "macro_loop st inp n 0 state prev vn out = Some (0, out)"
  by (simp add: macro_loop.simps)

lemma macro_loop_done: "macro_loop st inp 0 k state prev vn out = Some (k, out)"
  by (simp add: macro_loop.simps)

lemma macro_text:
  "\<lbrakk>list_all text_char s; prev \<noteq> CHR 0x5C\<rbrakk> \<Longrightarrow>
   \<exists>prev'. prev' \<noteq> CHR 0x5C \<and>
     macro_loop st (s @ rest) (length s + n) k 0 prev vn out =
     macro_loop st rest n (k - length s) 0 prev' vn (out @ take k s)"
proof (induction s arbitrary: prev k out)
  case Nil
  then show ?case by auto
next
  case (Cons c s)
  show ?case
  proof (cases k)
    case 0
    then show ?thesis using Cons.prems by (auto simp: macro_loop_full)
  next
    case (Suc j)
    have "text_char c" and ts: "list_all text_char s" using Cons.prems by simp_all
    then have c: "c \<noteq> CHR ''$''" "c \<noteq> CHR 0x5C" "c \<noteq> CHR 0x27" "list_all text_char s"
      by (simp_all only: text_char_def simp_thms)
    have "macro_loop st ((c # s) @ rest) (length (c # s) + n) k 0 prev vn out =
        macro_loop st (s @ rest) (length s + n) j 0 c vn (out @ [c])"
      using c Suc by (subst macro_loop.simps) (simp add: macro_step_def)
    then show ?thesis
      using Cons.IH [OF c(4,2), of j "out @ [c]"] Suc by auto
  qed
qed

lemma macro_name:
  "\<lbrakk>list_all var_char s; k \<noteq> 0; prev \<noteq> CHR 0x5C\<rbrakk> \<Longrightarrow>
   \<exists>prev'. prev' \<noteq> CHR 0x5C \<and>
     macro_loop st (s @ rest) (length s + n) k 2 prev vn out = macro_loop st rest n k 2 prev' vn out"
proof (induction s arbitrary: prev)
  case Nil
  then show ?case by auto
next
  case (Cons c s)
  have "var_char c" and ts: "list_all var_char s" using Cons.prems by simp_all
  then have c: "c \<noteq> CHR '')''" "c \<noteq> CHR ''}''" "c \<noteq> CHR 0x5C" "list_all var_char s"
    by (simp_all only: var_char_def simp_thms)
  have "macro_loop st ((c # s) @ rest) (length (c # s) + n) k 2 prev vn out =
      macro_loop st (s @ rest) (length s + n) k 2 c vn out"
    using c Cons.prems by (subst macro_loop.simps) (simp add: macro_step_def)
  then show ?case using Cons.IH [OF c(4) Cons.prems(2) c(3)] by auto
qed

lemma macro_var:
  assumes name: "list_all var_char name" and k: "k \<noteq> 0" and prev: "prev \<noteq> CHR 0x5C"
    and val: "getenv (cstr name) st = Some p" "\<forall>b. p = Some b \<longrightarrow> str_at b = Some v" "p = None \<longrightarrow> v = []"
  shows "\<exists>vn'. macro_loop st (''${'' @ name @ ''}'' @ rest) (length name + 3 + n) k 0 prev vn out =
    macro_loop st rest n (k - length v) 0 (CHR ''}'') vn' (out @ take k v)"
proof -
  let ?in = "name @ ''}'' @ rest"
  have 1: "macro_loop st (''${'' @ ?in) (length name + 3 + n) k 0 prev vn out =
      macro_loop st (CHR ''{'' # ?in) (length name + 2 + n) k 1 (CHR ''$'') vn out"
    using prev k by (subst macro_loop.simps) (simp add: macro_step_def)
  have 2: "macro_loop st (CHR ''{'' # ?in) (length name + 2 + n) k 1 (CHR ''$'') vn out =
      macro_loop st ?in (length name + (n + 1)) k 2 (CHR ''{'') ?in out"
    using k by (subst macro_loop.simps) (simp add: macro_step_def)
  obtain prev' where 3: "prev' \<noteq> CHR 0x5C" "macro_loop st ?in (length name + (n + 1)) k 2 (CHR ''{'') ?in out =
      macro_loop st (''}'' @ rest) (n + 1) k 2 prev' ?in out"
    using macro_name [OF name k, of "CHR ''{''" st "''}'' @ rest" "n + 1" ?in out] by auto
  have "take (length ?in - length rest - 1) ?in @ [NUL] = cstr name" by (simp add: cstr_def)
  then have "macro_step st 2 (CHR ''}'') prev' rest k ?in out = Some (0, k - length v, ?in, out @ take k v)"
  proof (cases p)
    case (Some b)
    then obtain r where "b = v @ NUL # r" "nonul v" using val(2) str_at_Some [of b v] by auto
    then show ?thesis
      using \<open>take (length ?in - length rest - 1) ?in @ [NUL] = cstr name\<close> Some val(1)
        copy_value_eq [of v r k out]
      by (simp add: macro_step_def)
  qed (use val in \<open>simp add: macro_step_def\<close>)
  then have "macro_loop st (''}'' @ rest) (n + 1) k 2 prev' ?in out =
      macro_loop st rest n (k - length v) 0 (CHR ''}'') ?in (out @ take k v)"
    using k by (subst macro_loop.simps) simp
  then show ?thesis using 1 2 3 by auto
qed

lemma macro_loop_pieces:
  assumes vals: "\<And>n. Var n \<in> set ps \<Longrightarrow> \<exists>p. getenv (cstr n) st = Some p \<and>
      (case val n of None \<Rightarrow> p = None | Some v \<Rightarrow> \<exists>b. p = Some b \<and> str_at b = Some v)"
  shows "\<lbrakk>wf_pieces ps; prev \<noteq> CHR 0x5C\<rbrakk> \<Longrightarrow>
    macro_loop st (render ps @ rest) (length (render ps)) k 0 prev vn out =
      Some (k - length (expand val ps), out @ take k (expand val ps))"
  using vals
proof (induction ps arbitrary: k prev vn out)
  case Nil
  then show ?case by (simp add: macro_loop_done)
next
  case (Cons p ps)
  have w: "wf_pieces ps" using Cons.prems by (simp add: wf_pieces_def)
  note IH = Cons.IH [OF w _ Cons.prems(3)]
  show ?case
  proof (cases p)
    case (Text s)
    obtain prev' where "prev' \<noteq> CHR 0x5C"
      "macro_loop st (s @ render ps @ rest) (length s + length (render ps)) k 0 prev vn out =
       macro_loop st (render ps @ rest) (length (render ps)) (k - length s) 0 prev' vn (out @ take k s)"
      using macro_text [of s prev st "render ps @ rest" "length (render ps)" k vn out] Cons.prems Text
      by (auto simp: wf_pieces_def)
    then show ?thesis using IH Text by (simp add: take_append)
  next
    case (Var n)
    show ?thesis
    proof (cases "k = 0")
      case True
      then show ?thesis by (simp add: macro_loop_full)
    next
      case False
      obtain q where q: "getenv (cstr n) st = Some q"
        "case val n of None \<Rightarrow> q = None | Some v \<Rightarrow> \<exists>b. q = Some b \<and> str_at b = Some v"
        using Cons.prems(3) [of n] Var by auto
      define v where "v = (case val n of None \<Rightarrow> [] | Some v \<Rightarrow> v)"
      have v: "\<forall>b. q = Some b \<longrightarrow> str_at b = Some v" "q = None \<longrightarrow> v = []"
        using q(2) by (auto simp: v_def split: option.splits)
      obtain vn' where "macro_loop st (''${'' @ n @ ''}'' @ render ps @ rest) (length n + 3 + length (render ps)) k 0 prev vn out =
          macro_loop st (render ps @ rest) (length (render ps)) (k - length v) 0 (CHR ''}'') vn' (out @ take k v)"
        using macro_var [OF _ False Cons.prems(2) q(1) v, of "render ps @ rest" "length (render ps)" vn out]
          Cons.prems(1) Var by (auto simp: wf_pieces_def)
      then show ?thesis
        using IH [of "CHR ''}''" "k - length v" vn' "out @ take k v"] Var
        by (simp add: v_def take_append numeral_eq_Suc)
    qed
  qed
qed

lemma parse_line_eq:
  assumes "nonul s"
  shows "\<exists>argv. map (\<lambda>a. Option.bind a str_at) argv = map Some (take CFG_MAXARGS (words s)) \<and>
    (length (words s) < CFG_MAXARGS \<longrightarrow>
       parse_line (s @ NUL # r) st = Some (length (words s), argv @ [None], st)) \<and>
    (length (words s) > CFG_MAXARGS \<and> \<not> devinit st \<longrightarrow>
       parse_line (s @ NUL # r) st = Some (CFG_MAXARGS, argv,
         st\<lparr>serial_tx := serial_tx st @ on_wire (''** Too many args (max. 16) **'' @ [CHR 0x0A])\<rparr>))"
proof -
  obtain line' idx e where p: "parse_line_loop (s @ NUL # r) 0 [] = Some (line', idx, e)"
    "map (\<lambda>i. str_at (drop i line')) idx = map Some (take 16 (words s))"
    "length (words s) < 16 \<longrightarrow> e" "16 < length (words s) \<longrightarrow> \<not> e"
    using parse_line_loop_eq [OF assms, of "[]" "[]" r] by auto
  let ?argv = "map (\<lambda>i. Some (drop i line')) idx"
  have l: "length idx = min 16 (length (words s))"
    using arg_cong [OF p(2), of length] by simp
  have msg: "printf (''** Too many args (max. %d) **'' @ [CHR 0x0A]) [VWord (of_nat CFG_MAXARGS)] st =
      Some (st\<lparr>serial_tx := serial_tx st @ on_wire (''** Too many args (max. 16) **'' @ [CHR 0x0A])\<rparr>)"
    if "\<not> devinit st"
  proof (rule printf_serial [OF that])
    show "vsprintf_loop (cstr (''** Too many args (max. %d) **'' @ [CHR 0x0A])) [VWord (of_nat CFG_MAXARGS)] [] [] =
        Some (''** Too many args (max. 16) **'' @ [CHR 0x0A], [])" by code_simp
  qed (simp_all add: CFG_PBSIZE_def)
  show ?thesis
  proof (intro exI [of _ ?argv] conjI impI)
    show "map (\<lambda>a. Option.bind a str_at) ?argv = map Some (take CFG_MAXARGS (words s))"
      using p(2) by (simp add: CFG_MAXARGS_def comp_def)
  next
    assume "length (words s) < CFG_MAXARGS"
    then show "parse_line (s @ NUL # r) st = Some (length (words s), ?argv @ [None], st)"
      using p(1,3) l by (simp add: parse_line_def CFG_MAXARGS_def)
  next
    assume "length (words s) > CFG_MAXARGS \<and> \<not> devinit st"
    then show "parse_line (s @ NUL # r) st = Some (CFG_MAXARGS, ?argv,
         st\<lparr>serial_tx := serial_tx st @ on_wire (''** Too many args (max. 16) **'' @ [CHR 0x0A])\<rparr>)"
      using p(1,4) l msg by (simp add: parse_line_def CFG_MAXARGS_def)
  qed
qed



section \<open>The output of the macro expansion\<close>

lemma render_expand_vals:
  assumes "env_ok st" "env_name n"
  shows "\<exists>p. getenv (cstr n) st = Some p \<and>
      (case env_value n st of None \<Rightarrow> p = None | Some v \<Rightarrow> \<exists>b. p = Some b \<and> str_at b = Some v)"
proof -
  obtain es where es: "env_entries st es" using assms(1) by (auto simp: env_ok_def)
  show ?thesis using getenv_entries [OF assms(1) es assms(2)] env_value_entries [OF assms(1) es assms(2)]
    by simp
qed

lemma nonul_render: "wf_pieces ps \<Longrightarrow> nonul (render ps)"
proof (induction ps rule: render.induct)
  case (2 s ps)
  then show ?case by (auto simp: wf_pieces_def nonul_def list_all_iff text_char_def)
next
  case (3 n ps)
  then show ?case by (auto simp: wf_pieces_def nonul_def list_all_iff var_char_def)
qed simp



section \<open>What follows the NUL does not matter\<close>

lemma macro_step_rest:
  assumes "state = 2 \<longrightarrow> (\<exists>u. v = u @ s @ r \<and> v' = u @ s @ r' \<and> u \<noteq> [])"
  shows "(macro_step st state c prev (s @ r) k v out = None \<and>
      macro_step st state c prev (s @ r') k v' out = None) \<or>
    (\<exists>state1 k1 v1 v1' out1. macro_step st state c prev (s @ r) k v out = Some (state1, k1, v1, out1) \<and>
      macro_step st state c prev (s @ r') k v' out = Some (state1, k1, v1', out1) \<and>
      (state1 = 2 \<longrightarrow> (\<exists>u. v1 = u @ s @ r \<and> v1' = u @ s @ r')))"
proof (cases "state = 2")
  case True
  then obtain u where u: "v = u @ s @ r" "v' = u @ s @ r'" "u \<noteq> []" using assms by blast
  have t: "take (length v - length (s @ r) - 1) v = take (length u - 1) u"
    "take (length v' - length (s @ r') - 1) v' = take (length u - 1) u" using u by simp_all
  show ?thesis
    using True u unfolding macro_step_def t
    by (auto split: option.splits bind_splits)
next
  case False
  then show ?thesis by (auto simp: macro_step_def)
qed

lemma macro_loop_char:
  assumes "n \<noteq> 0" "k \<noteq> 0" "\<not> (state \<noteq> 3 \<and> c = CHR 0x5C \<and> prev \<noteq> CHR 0x5C)"
  shows "macro_loop st (c # t) n k state prev v out =
    (case macro_step st state c prev t k v out of None \<Rightarrow> None
     | Some (state1, k1, v1, out1) \<Rightarrow> macro_loop st t (n - 1) k1 state1 c v1 out1)"
  using assms by (subst macro_loop.simps) auto

lemma macro_loop_escape:
  assumes "n > 1" "k \<noteq> 0" "state \<noteq> 3 \<and> c = CHR 0x5C \<and> prev \<noteq> CHR 0x5C"
  shows "macro_loop st (c # d # t) n k state prev v out =
    (case macro_step st state d c t k v out of None \<Rightarrow> None
     | Some (state1, k1, v1, out1) \<Rightarrow> macro_loop st t (n - 2) k1 state1 d v1 out1)"
  using assms by (subst macro_loop.simps) auto

lemma macro_loop_rest:
  "\<lbrakk>state = 2 \<longrightarrow> (\<exists>u. v = u @ s @ r \<and> v' = u @ s @ r'); n \<le> length s\<rbrakk> \<Longrightarrow>
   macro_loop st (s @ r) n k state prev v out = macro_loop st (s @ r') n k state prev v' out"
proof (induction s arbitrary: state v v' n k prev out rule: length_induct)
  case (1 s)
  show ?case
  proof (cases "n \<noteq> 0 \<and> k \<noteq> 0")
    case False
    then show ?thesis by (subst (1 2) macro_loop.simps) auto
  next
    case nk: True
    then obtain c t where s: "s = c # t" using 1 by (cases s) auto
    have c1: "state = 2 \<longrightarrow> (\<exists>u. v = u @ t @ r \<and> v' = u @ t @ r' \<and> u \<noteq> [])"
      using 1(2) s by (metis append_Cons append_is_Nil_conv append_assoc append_Nil list.distinct(1))
    show ?thesis
    proof (cases "state \<noteq> 3 \<and> c = CHR 0x5C \<and> prev \<noteq> CHR 0x5C")
      case False
      from macro_step_rest [OF c1, of st c prev k out] show ?thesis
      proof (elim disjE exE conjE)
        fix state1 k1 v1 v1' out1
        assume m: "macro_step st state c prev (t @ r) k v out = Some (state1, k1, v1, out1)"
          "macro_step st state c prev (t @ r') k v' out = Some (state1, k1, v1', out1)"
          "state1 = 2 \<longrightarrow> (\<exists>u. v1 = u @ t @ r \<and> v1' = u @ t @ r')"
        have "macro_loop st (t @ r) (n - 1) k1 state1 c v1 out1 = macro_loop st (t @ r') (n - 1) k1 state1 c v1' out1"
          by (rule 1(1) [rule_format, OF _ m(3) [rule_format]]) (use 1(3) s in auto)
        then show ?thesis using False s nk m by (simp add: macro_loop_char)
      qed (use False s nk in \<open>simp add: macro_loop_char\<close>)
    next
      case esc: True
      show ?thesis
      proof (cases "n = 1")
        case True
        then show ?thesis using esc s nk by (subst (1 2) macro_loop.simps) simp
      next
        case False
        then obtain d t' where t: "t = d # t'" using nk 1(3) s by (cases t) auto
        have c2: "state = 2 \<longrightarrow> (\<exists>u. v = u @ t' @ r \<and> v' = u @ t' @ r' \<and> u \<noteq> [])"
          using c1 t by (metis append_Cons append_is_Nil_conv append_assoc append_Nil list.distinct(1))
        from macro_step_rest [OF c2, of st d c k out] show ?thesis
        proof (elim disjE exE conjE)
          fix state1 k1 v1 v1' out1
          assume m: "macro_step st state d c (t' @ r) k v out = Some (state1, k1, v1, out1)"
            "macro_step st state d c (t' @ r') k v' out = Some (state1, k1, v1', out1)"
            "state1 = 2 \<longrightarrow> (\<exists>u. v1 = u @ t' @ r \<and> v1' = u @ t' @ r')"
          have "macro_loop st (t' @ r) (n - 2) k1 state1 d v1 out1 = macro_loop st (t' @ r') (n - 2) k1 state1 d v1' out1"
            by (rule 1(1) [rule_format, OF _ m(3) [rule_format]]) (use 1(3) s t in auto)
          then show ?thesis using False esc s t nk m by (simp add: macro_loop_escape)
        qed (use False esc s t nk in \<open>simp add: macro_loop_escape\<close>)
      qed
    qed
  qed
qed

lemma process_macros_rest:
  assumes "nonul s"
  shows "process_macros st (s @ NUL # r) = process_macros st (cstr s)"
  using assms macro_loop_rest [of 0 "[]" s "NUL # r" "[]" "[NUL]" "length s" st CFG_CBSIZE NUL "[]"]
  by (simp add: process_macros_def cstr_def strlen_append)

section \<open>The commands of a line\<close>

definition seq_char :: "char \<Rightarrow> bool" where
  "seq_char c \<longleftrightarrow> c \<noteq> NUL \<and> c \<noteq> CHR '';'' \<and> c \<noteq> CHR 0x5C \<and> c \<noteq> CHR 0x27"

definition seq_command :: "string \<Rightarrow> bool" where
  "seq_command c \<longleftrightarrow> c \<noteq> [] \<and> list_all seq_char c"

fun command_line :: "string list \<Rightarrow> string" where
  "command_line [] = []"
| "command_line [c] = c"
| "command_line (c # cs) = c @ '';'' @ command_line cs"

text \<open>The commands one after the other: the reference for \<open>run_command\<close>.\<close>

fun run_all :: "cmd_tbl list \<Rightarrow> handler \<Rightarrow> string list \<Rightarrow> nat \<Rightarrow> bool \<Rightarrow> int \<Rightarrow> board \<Rightarrow> (int \<times> board) option" where
  "run_all table exec [] flag rep rc st = Some (if rc \<noteq> 0 then rc else of_bool rep, st)"
| "run_all table exec (c # cs) flag rep rc st =
     (case run_token table exec (cstr c) flag st of
        None \<Rightarrow> None
      | Some (flag', r, rc', st', stopped) \<Rightarrow>
          if stopped then Some (0, st')
          else run_all table exec cs flag' (rep \<and> r) (case rc' of None \<Rightarrow> rc | Some x \<Rightarrow> x) st')"

lemma run_token_rest: "nonul s \<Longrightarrow> run_token table exec (s @ NUL # r) flag st = run_token table exec (cstr s) flag st"
  by (simp add: run_token_def process_macros_rest)

lemma seq_command_nonul: "seq_command c \<Longrightarrow> nonul c"
  by (auto simp: seq_command_def seq_char_def nonul_def list_all_iff)

lemma find_sep_simple:
  assumes "d = NUL \<or> d = CHR '';''"
  shows "list_all seq_char c2 \<Longrightarrow> list_all seq_char c1 \<Longrightarrow> c1 @ c2 \<noteq> [] \<Longrightarrow>
    find_sep (pre @ c1 @ c2 @ d # r) (length pre) (length pre + length c1) False =
      Some (length pre + length c1 + length c2)"
proof (induction c2 arbitrary: c1)
  case Nil
  then obtain x xs where c1: "c1 = xs @ [x]" by (cases c1 rule: rev_cases) auto
  then have x: "seq_char x" using Nil by simp
  have 1: "load (pre @ c1 @ d # r) (length pre + length c1) = Some d"
    using load_after [of "pre @ c1" d r] by simp
  have 2: "load (pre @ c1 @ d # r) (length pre + length c1 - 1) = Some x"
    using load_after [of "pre @ xs" x "d # r"] c1 by simp
  have 3: "x \<noteq> CHR 0x5C" using x by (simp only: seq_char_def simp_thms)
  show ?case using assms 1 2 3 c1 by (subst find_sep.simps) auto
next
  case (Cons x c2)
  then have x: "x \<noteq> NUL" "x \<noteq> CHR '';''" "x \<noteq> CHR 0x27" "list_all seq_char c2" "seq_char x"
    by (simp_all, simp_all add: seq_char_def)
  have 1: "load (pre @ c1 @ (x # c2) @ d # r) (length pre + length c1) = Some x"
    using load_after [of "pre @ c1" x "c2 @ d # r"] by simp
  have "find_sep (pre @ c1 @ (x # c2) @ d # r) (length pre) (Suc (length pre + length c1)) False =
      Some (length pre + length c1 + length (x # c2))"
    using Cons.IH [of "c1 @ [x]"] x Cons.prems(2) by simp
  then show ?case using 1 x by (subst find_sep.simps) simp
qed

lemma run_loop_end: "run_loop table exec (pre @ NUL # r) (length pre) flag rep rc st =
    Some (if rc \<noteq> 0 then rc else of_bool rep, st)"
  by (subst run_loop.simps) (simp add: load_after)

lemma run_loop_command:
  assumes c: "seq_command c" and d: "d = NUL \<or> d = CHR '';''"
  shows "run_loop table exec (pre @ c @ d # r) (length pre) flag rep rc st =
    (case run_token table exec (cstr c) flag st of
        None \<Rightarrow> None
      | Some (flag', a, rc', st', stopped) \<Rightarrow>
          if stopped then Some (0, st')
          else let rc'' = (case rc' of None \<Rightarrow> rc | Some x \<Rightarrow> x)
            in if d = NUL then Some (if rc'' \<noteq> 0 then rc'' else of_bool (rep \<and> a), st')
               else run_loop table exec ((pre @ c @ [NUL]) @ r) (length (pre @ c @ [NUL])) flag' (rep \<and> a) rc'' st')"
proof -
  let ?b = "pre @ c @ d # r"
  obtain x xs where x: "c = x # xs" using c by (cases c) (auto simp: seq_command_def)
  then have "seq_char x" using c by (simp add: seq_command_def)
  then have "x \<noteq> NUL" by (simp only: seq_char_def simp_thms)
  then have 1: "load ?b (length pre) = Some x" "x \<noteq> NUL" using x load_after [of pre x] by simp_all
  have 2: "find_sep ?b (length pre) (length pre) False = Some (length pre + length c)"
    using find_sep_simple [OF d, of c "[]" pre r] c by (simp add: seq_command_def)
  have 3: "load ?b (length pre + length c) = Some d" using load_after [of "pre @ c" d r] by simp
  have 4: "store ?b (length pre + length c) NUL = Some (pre @ c @ NUL # r)"
    using store_append_length [of "pre @ c" d r NUL] by simp
  have 5: "run_token table exec (c @ NUL # r) flag st = run_token table exec (cstr c) flag st"
    using run_token_rest [OF seq_command_nonul [OF c]] .
  show ?thesis
  proof (cases "d = NUL")
    case True
    then show ?thesis using 1 2 3 5
      by (subst run_loop.simps) (auto split: option.splits prod.splits)
  next
    case False
    then show ?thesis using 1 2 3 4 5
      by (subst run_loop.simps) (auto split: option.splits prod.splits)
  qed
qed

lemma run_loop_all:
  "list_all seq_command cs \<Longrightarrow>
   run_loop table exec (pre @ command_line cs @ NUL # r) (length pre) flag rep rc st =
     run_all table exec cs flag rep rc st"
proof (induction cs arbitrary: pre flag rep rc st rule: command_line.induct)
  case 1
  then show ?case by (simp add: run_loop_end)
next
  case (2 c)
  then show ?case
    using run_loop_command [of c NUL table exec pre r flag rep rc st]
    by (auto split: option.splits prod.splits)
next
  case (3 c c' cs)
  have "run_loop table exec ((pre @ c @ [NUL]) @ command_line (c' # cs) @ NUL # r) (length (pre @ c @ [NUL])) flag rep rc st =
      run_all table exec (c' # cs) flag rep rc st" for flag rep rc st
    using 3 by (intro "3.IH") simp
  then show ?case
    using run_loop_command [of c "CHR '';''" table exec pre "command_line (c' # cs) @ NUL # r" flag rep rc st] "3.prems"
    by (cases "run_token table exec (cstr c) flag st")
      (auto simp del: run_all.simps(2) simp add: run_all.simps(2) [of _ _ c] Let_def)
qed

text \<open>C25: \<open>run_command\<close> runs the commands of a line separated by semicolons one after the other,
  also after one that failed: variables are expanded when a command's turn comes, control-C ends
  the line, and the result is -1 if a command failed, else whether all are repeatable.\<close>

theorem run_command_sequence:
  assumes "list_all seq_command cs" "cs \<noteq> []" "length (command_line cs) < CFG_CBSIZE"
  shows "run_command table exec (Some (cstr (command_line cs))) flag st =
    run_all table exec cs flag True 0 (clear_ctrlc st)"
proof -
  let ?s = "command_line cs"
  have n: "nonul ?s \<and> (\<exists>x xs. ?s = x # xs \<and> x \<noteq> NUL)" using assms(1,2)
  proof (induction cs rule: command_line.induct)
    case (2 c)
    then show ?case using seq_command_nonul [of c] by (cases c) (auto simp: seq_command_def)
  next
    case (3 c c' cs)
    then show ?case using seq_command_nonul [of c] by (cases c) (auto simp: seq_command_def)
  qed simp
  then obtain x xs where x: "load (cstr ?s) 0 = Some x" "x \<noteq> NUL" by auto
  have "strcpy (replicate CFG_CBSIZE NUL) (cstr ?s) = Some (?s @ NUL # drop (Suc (length ?s)) (replicate CFG_CBSIZE NUL))"
    using n assms(3) by (simp add: strcpy_cstr)
  then show ?thesis
    using x n assms run_loop_all [OF assms(1), of table exec "[]" "drop (Suc (length ?s)) (replicate CFG_CBSIZE NUL)" flag True 0 "clear_ctrlc st"]
    by (simp add: run_command_def strlen_cstr)
qed

theorem run_command_sequence_witness:
  "run_command sample_table (\<lambda>_ _ _ _ st. Some (0, st)) (Some (cstr (command_line [''echo a'', ''run $(x)'']))) 0 sample_board =
    run_all sample_table (\<lambda>_ _ _ _ st. Some (0, st)) [''echo a'', ''run $(x)''] 0 True 0 (clear_ctrlc sample_board)"
  by (rule run_command_sequence) (simp_all add: seq_command_def seq_char_def CFG_CBSIZE_def)


section \<open>One command\<close>

lemma words_length: "w \<in> set (words s) \<Longrightarrow> length w \<le> length s"
proof (induction s rule: words.induct)
  case (1 s)
  let ?s1 = "dropWhile blank s"
  have 1: "length (takeWhile (\<lambda>c. \<not> blank c) ?s1) \<le> length s"
    "length (dropWhile (\<lambda>c. \<not> blank c) ?s1) \<le> length s"
    using length_takeWhile_le [of "\<lambda>c. \<not> blank c" ?s1] length_dropWhile_le [of blank s]
      length_dropWhile_le [of "\<lambda>c. \<not> blank c" ?s1] by linarith+
  show ?case using "1.prems" "1.IH" [OF refl] 1
    by (subst (asm) words.simps) (fastforce simp: Let_def split: if_splits)
qed

lemma strlen_rest: "nonul s \<Longrightarrow> strlen (s @ NUL # r) = strlen (cstr s)"
  by (simp add: strlen_append strlen_cstr)

lemma strncmp_rest: "nonul s \<Longrightarrow> strncmp (s @ NUL # r) t k = strncmp (cstr s) t k"
proof (induction s arbitrary: t k)
  case Nil
  then show ?case by (cases t; cases k) (auto simp: Let_def)
next
  case (Cons c s)
  then show ?case by (cases t; cases k) (auto simp: Let_def)
qed

lemma find_loop_rest: "nonul s \<Longrightarrow>
    find_loop table (s @ NUL # r) k temp n = find_loop table (cstr s) k temp n"
  by (induction table arbitrary: temp n) (simp_all add: strncmp_rest cong: if_cong)

lemma find_cmd_rest: "nonul s \<Longrightarrow> find_cmd table (s @ NUL # r) = find_cmd table (cstr s)"
proof -
  assume s: "nonul s"
  have 1: "strchr (s @ NUL # r) (CHR ''.'') = strchr (cstr s) (CHR ''.'')"
    using strchr_eq [OF s, of "CHR ''.''" r] strchr_eq [OF s, of "CHR ''.''" "[]"] by (simp add: cstr_def)
  show "find_cmd table (s @ NUL # r) = find_cmd table (cstr s)"
    unfolding find_cmd_def 1 strlen_rest [OF s] find_loop_rest [OF s] ..
qed

definition plain_command :: "string \<Rightarrow> bool" where
  "plain_command c \<longleftrightarrow> seq_command c \<and> list_all text_char c \<and> length c < CFG_CBSIZE \<and>
     words c \<noteq> [] \<and> length (words c) < CFG_MAXARGS"

definition usage_format :: string where
  "usage_format = ''Usage:'' @ [CHR 0x0A] @ ''%s'' @ [CHR 0x0A]"

definition unknown_format :: string where
  "unknown_format = ''Unknown command '' @ [CHR 0x27] @ ''%s'' @ [CHR 0x27] @ '' - try '' @
     [CHR 0x27] @ ''help'' @ [CHR 0x27, CHR 0x0A]"

definition bootd_message :: string where
  "bootd_message = [CHR 0x27] @ ''bootd'' @ [CHR 0x27] @ '' recursion detected'' @ [CHR 0x0A]"

lemma process_macros_text:
  assumes "list_all text_char c" "length c < CFG_CBSIZE"
  shows "process_macros st (cstr c) = Some (cstr c)"
proof -
  have w: "wf_pieces [Text c]" using assms(1) by (simp add: wf_pieces_def)
  have "macro_loop st (render [Text c] @ [NUL]) (length (render [Text c])) CFG_CBSIZE 0 NUL [] [] =
      Some (CFG_CBSIZE - length (expand (\<lambda>_. None) [Text c]), [] @ take CFG_CBSIZE (expand (\<lambda>_. None) [Text c]))"
    by (rule macro_loop_pieces [OF _ w]) simp_all
  then show ?thesis using assms nonul_render [OF w]
    by (simp add: process_macros_def strlen_cstr) (simp add: cstr_def)
qed

text \<open>The refusals and the call, as the value of one command.\<close>

definition unknown_command :: "buf \<Rightarrow> nat \<Rightarrow> board \<Rightarrow> (nat \<times> bool \<times> int option \<times> board \<times> bool) option" where
  "unknown_command p flag st =
     do { st \<leftarrow> printf unknown_format [VStr (Some p)] st;
          Some (flag, True, Some (-1), st, False) }"

definition call_handler ::
  "handler \<Rightarrow> cmd_tbl \<Rightarrow> nat \<Rightarrow> buf option list \<Rightarrow> nat \<Rightarrow> board \<Rightarrow> (nat \<times> bool \<times> int option \<times> board \<times> bool) option" where
  "call_handler exec t argc argv flag st =
     (if argc > maxargs t then
        do { st \<leftarrow> printf usage_format [VStr (map_option cstr (cmd_usage t))] st;
             Some (flag, True, Some (-1), st, False) }
      else if cmd_fn t = do_bootd \<and> flag AND CMD_FLAG_BOOTD \<noteq> 0 then
        do { st \<leftarrow> puts (cstr bootd_message) st;
             Some (flag, True, Some (-1), st, False) }
      else
        let flag = (if cmd_fn t = do_bootd then flag OR CMD_FLAG_BOOTD else flag)
        in do { (r, st) \<leftarrow> exec t flag argc argv st;
                Some (flag, repeatable t, if r \<noteq> 0 then Some (-1) else None, st, had_ctrlc st) })"

lemma run_token_plain:
  assumes c: "plain_command c" and t: "wf_table table"
  shows "\<exists>argv p r. map (\<lambda>a. Option.bind a str_at) argv = map Some (words c) \<and>
     p = hd (words c) @ NUL # r \<and> nonul (hd (words c)) \<and>
     run_token table exec (cstr c) flag st =
      (case find_spec table (takeWhile (\<lambda>c. c \<noteq> CHR ''.'') (hd (words c))) of
         None \<Rightarrow> unknown_command p flag st
       | Some t \<Rightarrow> call_handler exec t (length (words c)) (argv @ [None]) flag st)"
proof -
  have c1: "nonul c" "list_all text_char c" "length c < CFG_CBSIZE" "words c \<noteq> []" "length (words c) < CFG_MAXARGS"
    using c seq_command_nonul by (auto simp: plain_command_def)
  obtain argv where argv: "map (\<lambda>a. Option.bind a str_at) argv = map Some (words c)"
    "parse_line (cstr c) st = Some (length (words c), argv @ [None], st)"
    using parse_line_eq [OF c1(1), of "[]" st] c1(5) by (auto simp: cstr_def)
  obtain w ws where w: "words c = w # ws" using c1(4) by (cases "words c") auto
  obtain a as where a: "argv = a # as" using argv(1) w by (cases argv) auto
  then have "Option.bind a str_at = Some w" using argv(1) w by simp
  then obtain p where p: "a = Some p" "str_at p = Some w" by (cases a) auto
  then obtain r where r: "p = w @ NUL # r" "nonul w" using str_at_Some by blast
  have f: "find_cmd table p = Some (find_spec table (takeWhile (\<lambda>c. c \<noteq> CHR ''.'') w))"
    unfolding r(1) find_cmd_rest [OF r(2)] using find_cmd_eq [OF t r(2)] .
  have "load (argv @ [None]) 0 = Some (Some p)" using a p by simp
  then have "run_token table exec (cstr c) flag st =
      (case find_spec table (takeWhile (\<lambda>c. c \<noteq> CHR ''.'') w) of
         None \<Rightarrow> unknown_command p flag st
       | Some t \<Rightarrow> call_handler exec t (length (words c)) (argv @ [None]) flag st)"
    unfolding run_token_def usage_format_def unknown_format_def bootd_message_def unknown_command_def
      call_handler_def process_macros_text [OF c1(2,3)] bind.bind_lunit argv(2) prod.case f
    by (simp only: bind.bind_lunit f prod.case)
  then show ?thesis using argv(1) r w by (metis list.sel(1))
qed

fun token_result :: "nat \<times> bool \<times> int option \<times> board \<times> bool \<Rightarrow> int \<times> board" where
  "token_result (flag, r, rc, st, stopped) =
     (if stopped then 0 else (case rc of None \<Rightarrow> of_bool r | Some x \<Rightarrow> if x = 0 then of_bool r else x), st)"

lemma token_result_call: "token_result (flag, rep, if r \<noteq> 0 then Some (-1) else None, st, stopped) =
    (if stopped then 0 else if r \<noteq> 0 then -1 else of_bool rep, st)"
  by simp

lemma token_result_refused: "token_result (flag, True, Some (-1), st, False) = (-1, st)"
  by simp

lemma map_bind: "map_option f (Option.bind m g) = Option.bind m (\<lambda>x. map_option f (g x))"
  by (cases m) simp_all

lemma run_command_token:
  assumes "plain_command c"
  shows "run_command table exec (Some (cstr c)) flag st =
    map_option token_result (run_token table exec (cstr c) flag (clear_ctrlc st))"
proof -
  have "run_command table exec (Some (cstr (command_line [c]))) flag st =
      run_all table exec [c] flag True 0 (clear_ctrlc st)"
    by (rule run_command_sequence) (use assms in \<open>simp_all add: plain_command_def\<close>)
  then show ?thesis by (auto split: option.splits prod.splits)
qed



text \<open>A command that is not in the table gives the message and -1.  The message is formatted
  into the 282 bytes of \<open>printf\<close>, so a first word of 250 characters or more, which fits into a
  line, overflows that buffer.\<close>

theorem run_command_unknown:
  assumes "plain_command c" "wf_table table" "\<not> devinit st"
    and "find_spec table (takeWhile (\<lambda>c. c \<noteq> CHR ''.'') (hd (words c))) = None"
  shows "run_command table exec (Some (cstr c)) flag st =
    (if length (hd (words c)) < 250 then
       Some (-1, (clear_ctrlc st)\<lparr>serial_tx := serial_tx st @ on_wire (''Unknown command '' @ [CHR 0x27] @
         hd (words c) @ [CHR 0x27] @ '' - try '' @ [CHR 0x27] @ ''help'' @ [CHR 0x27, CHR 0x0A])\<rparr>)
     else None)"
proof -
  let ?st = "clear_ctrlc st" and ?w = "hd (words c)"
  let ?out = "''Unknown command '' @ [CHR 0x27] @
         ?w @ [CHR 0x27] @ '' - try '' @ [CHR 0x27] @ ''help'' @ [CHR 0x27, CHR 0x0A]"
  obtain p r where p: "p = ?w @ NUL # r" "nonul ?w"
    "run_token table exec (cstr c) flag ?st =
      unknown_command p flag ?st"
    using run_token_plain [OF assms(1,2), of exec flag ?st] unfolding assms(4) option.case by blast
  have d: "\<not> devinit ?st" using assms(3) by (simp add: clear_ctrlc_def devinit_def)
  have len: "length ?w < 256"
    using words_length [of ?w c] assms(1) by (simp add: plain_command_def CFG_CBSIZE_def)
  have loop: "vsprintf_loop (cstr unknown_format) [VStr (Some p)] [] [] = Some (?out, [])"
    using len p(2) by (simp add: unknown_format_def cstr_def p(1) vsprintf_loop_s del: vsprintf_loop.simps
        add: vsprintf_loop_char vsprintf_loop_end)
  show ?thesis
  proof (cases "length ?w < 250")
    case True
    then have "printf unknown_format [VStr (Some p)] ?st = Some (?st\<lparr>serial_tx := serial_tx ?st @ on_wire ?out\<rparr>)"
      by (intro printf_serial [OF d loop]) (use p(2) in \<open>simp_all add: CFG_PBSIZE_def\<close>)
    then show ?thesis using True p(3) run_command_token [OF assms(1), of table exec flag st]
      by (simp add: unknown_command_def clear_ctrlc_def)
  next
    case False
    then have "printf unknown_format [VStr (Some p)] ?st = None"
      using loop by (simp add: printf_def vsprintf_def CFG_PBSIZE_def)
    then show ?thesis using False p(3) run_command_token [OF assms(1), of table exec flag st]
      by (simp add: unknown_command_def)
  qed
qed

theorem run_command_unknown_witness:
  "run_command sample_table (\<lambda>_ _ _ _ st. Some (0, st)) (Some (cstr ''foo 1'')) 0 sample_board =
    Some (-1, (clear_ctrlc sample_board)\<lparr>serial_tx := serial_tx sample_board @ on_wire (''Unknown command '' @
      [CHR 0x27] @ hd (words ''foo 1'') @ [CHR 0x27] @ '' - try '' @ [CHR 0x27] @ ''help'' @ [CHR 0x27, CHR 0x0A])\<rparr>)"
proof -
  have 1: "plain_command ''foo 1''" by code_simp
  have 2: "wf_table sample_table" by (simp add: wf_table_def sample_table_def)
  have 3: "\<not> devinit sample_board" by (simp add: devinit_def sample_board_def)
  have 4: "find_spec sample_table (takeWhile (\<lambda>c. c \<noteq> CHR ''.'') (hd (words ''foo 1''))) = None"
    by code_simp
  have 5: "length (hd (words ''foo 1'')) < 250" by code_simp
  show ?thesis
    using run_command_unknown [OF 1 2 3 4, of "\<lambda>_ _ _ _ st. Some (0, st)" 0] by (simp only: 5 if_True)
qed

section \<open>Editing a line\<close>

text \<open>The line after one key; \<open>None\<close> is a poll of the empty receiver, which reads as 0.\<close>

definition erase_last_word :: "string \<Rightarrow> string" where
  "erase_last_word s = rev (tl (dropWhile (\<lambda>c. c \<noteq> CHR '' '') (rev s)))"

definition key_edit :: "string \<Rightarrow> char option \<Rightarrow> string" where
  "key_edit s key =
     (case key of
        None \<Rightarrow> s
      | Some c \<Rightarrow>
          if c = NUL then s
          else if c = CHR 0x15 then []
          else if c = CHR 0x17 then erase_last_word s
          else if c = CHR 0x08 \<or> c = CHR 0x7F then butlast s
          else if length s < CFG_CBSIZE - 2 then s @ [c] else s)"

lemma puts_times_sent: "\<not> devinit st \<Longrightarrow> nonul s \<Longrightarrow> \<exists>out. puts_times n (cstr s) st = Some (sent out st)"
proof (induction n arbitrary: st)
  case 0
  then show ?case by (auto intro: exI [of _ "[]"])
next
  case (Suc n)
  then show ?case using Suc.IH [of "sent (on_wire s) st"] by (auto simp: puts_sent simp del: puts_cstr_serial)
qed

lemma tab_seq_drop: "k < 8 \<Longrightarrow> drop k tab_seq = cstr (replicate (8 - k) (CHR '' ''))"
  by (simp add: tab_seq_def cstr_def)

lemma puts_tab: "\<not> devinit st \<Longrightarrow> \<exists>out. puts (drop (nat (col mod 8)) tab_seq) st = Some (sent out st)"
proof -
  assume d: "\<not> devinit st"
  have "nat (col mod 8) < 8" using pos_mod_bound [of 8 col] by linarith
  then show ?thesis using puts_sent [OF d, of "replicate (8 - nat (col mod 8)) (CHR '' '')"]
    by (auto simp: tab_seq_drop nonul_def)
qed

lemma retype_sent: "\<not> devinit st \<Longrightarrow> \<exists>col' out. retype s col st = Some (col', sent out st)"
proof (induction s arbitrary: col st)
  case Nil
  then show ?case by (auto intro: exI [of _ "[]"])
next
  case (Cons c s)
  show ?case
  proof (cases "c = TAB")
    case True
    obtain out where "puts (drop (nat (col mod 8)) tab_seq) st = Some (sent out st)"
      using puts_tab [OF Cons.prems] by blast
    then show ?thesis using True Cons.IH [of "sent out st" "col + (8 - col mod 8)"] Cons.prems by auto
  next
    case False
    then show ?thesis using Cons.IH [of "sent (on_wire [c]) st" "col + 1"] Cons.prems
      by (auto simp: putc_sent simp del: putc_serial)
  qed
qed

lemma erase_seq_nonul: "nonul [CHR 0x08, CHR '' '', CHR 0x08]"
  by simp

lemma delete_char_sent:
  assumes d: "\<not> devinit st" and n: "n \<le> length b"
  shows "\<exists>col' out. delete_char b n col plen st = Some (n - 1, col', sent out st)"
proof (cases "n = 0")
  case True
  then show ?thesis by (auto simp: delete_char_def intro: exI [of _ "[]"])
next
  case False
  then have l: "load b (n - 1) = Some (b ! (n - 1))" using n by simp
  show ?thesis
  proof (cases "b ! (n - 1) = TAB")
    case True
    obtain o1 where o1: "puts_times (nat (col - plen)) erase_seq st = Some (sent o1 st)"
      using puts_times_sent [OF d erase_seq_nonul] by (auto simp: erase_seq_def)
    obtain c2 o2 where "retype (take (n - 1) b) (if col > plen then plen else col) (sent o1 st) =
        Some (c2, sent o2 (sent o1 st))"
      using retype_sent [of "sent o1 st"] d by fastforce
    then show ?thesis using True False l o1 by (auto simp: delete_char_def)
  next
    case nt: False
    then show ?thesis using False l puts_sent [OF d erase_seq_nonul]
      by (auto simp: delete_char_def erase_seq_def)
  qed
qed

lemma erase_word_sent:
  "\<lbrakk>\<not> devinit st; n < length b\<rbrakk> \<Longrightarrow>
   \<exists>col' out. erase_word b n col plen st = Some (length (erase_last_word (take (Suc n) b)), col', sent out st)"
proof (induction n arbitrary: col st)
  case 0
  have "length (erase_last_word (take (Suc 0) b)) = 0"
    using length_dropWhile_le [of "\<lambda>c. c \<noteq> CHR '' ''" "rev (take (Suc 0) b)"]
    by (simp add: erase_last_word_def)
  then show ?case by (subst erase_word.simps) (auto intro: exI [of _ "[]"])
next
  case (Suc n)
  have r: "rev (take (Suc (Suc n)) b) = b ! Suc n # rev (take (Suc n) b)"
    using Suc.prems by (simp add: take_Suc_conv_app_nth)
  show ?case
  proof (cases "b ! Suc n = CHR '' ''")
    case True
    then have "length (erase_last_word (take (Suc (Suc n)) b)) = Suc n"
      using Suc.prems r by (simp add: erase_last_word_def)
    then show ?thesis using True Suc.prems by (subst erase_word.simps) (auto intro: exI [of _ "[]"])
  next
    case False
    then have e: "erase_last_word (take (Suc (Suc n)) b) = erase_last_word (take (Suc n) b)"
      using r by (simp add: erase_last_word_def)
    obtain col1 o1 where 1: "delete_char b (Suc n) col plen st = Some (n, col1, sent o1 st)"
      using delete_char_sent [of st "Suc n" b col plen] Suc.prems by auto
    obtain col2 o2 where "erase_word b n col1 plen (sent o1 st) =
        Some (length (erase_last_word (take (Suc n) b)), col2, sent o2 (sent o1 st))"
      using Suc.IH [of "sent o1 st" col1] Suc.prems by auto
    then show ?thesis using 1 False e Suc.prems by (subst erase_word.simps) auto
  qed
qed

lemma erase_last_word_take: "take (length (erase_last_word s)) s = erase_last_word s"
proof -
  have "suffix (tl (dropWhile (\<lambda>c. c \<noteq> CHR '' '') (rev s))) (rev s)"
    by (meson suffix_dropWhile suffix_order.trans suffix_tl)
  then have "prefix (erase_last_word s) s"
    by (simp add: erase_last_word_def suffix_to_prefix)
  then show ?thesis by (metis append_eq_conv_conj prefix_def)
qed


definition line_key :: "char option \<Rightarrow> bool" where
  "line_key key \<longleftrightarrow> key \<noteq> Some (CHR 0x0D) \<and> key \<noteq> Some (CHR 0x0A) \<and> key \<noteq> Some (CHR 0x03)"

lemma key_edit_length: "length s \<le> CFG_CBSIZE - 2 \<Longrightarrow> length (key_edit s key) \<le> CFG_CBSIZE - 2"
proof -
  assume s: "length s \<le> CFG_CBSIZE - 2"
  have "length (erase_last_word s) \<le> length s"
    using arg_cong [OF erase_last_word_take, of length s] by simp
  then show ?thesis using s by (auto simp: key_edit_def split: option.splits)
qed

text \<open>One key that does not end the line.\<close>

lemma readline_loop_key:
  assumes d: "\<not> devinit st" and rx: "serial_rx st = key # q" and key: "line_key key"
    and b: "length b = CFG_CBSIZE" "n \<le> CFG_CBSIZE - 2"
  shows "\<exists>b' col' out. readline_loop plen b n col st =
      readline_loop plen b' (length (key_edit (take n b) key)) col' (sent out (st\<lparr>serial_rx := q\<rparr>)) \<and>
    length b' = CFG_CBSIZE \<and> take (length (key_edit (take n b) key)) b' = key_edit (take n b) key"
proof -
  let ?st = "st\<lparr>serial_rx := q\<rparr>"
  define c where "c = (case key of None \<Rightarrow> NUL | Some c \<Rightarrow> c)"
  have "key_edit (take n b) key = key_edit (take n b) (Some c)"
    by (simp add: c_def key_edit_def split: option.splits)
  then have e: "key_edit (take n b) key =
      (if c = NUL then take n b
       else if c = CHR 0x15 then []
       else if c = CHR 0x17 then erase_last_word (take n b)
       else if c = CHR 0x08 \<or> c = CHR 0x7F then butlast (take n b)
       else if length (take n b) < CFG_CBSIZE - 2 then take n b @ [c] else take n b)"
    by (simp add: key_edit_def)
  have c: "c \<noteq> CHR 0x0D" "c \<noteq> CHR 0x0A" "c \<noteq> CHR 0x03"
    using key by (auto simp: c_def line_key_def split: option.splits)
  have d': "\<not> devinit ?st" using d by simp
  have ln: "length (take n b) = n" "n < length b" "n \<le> length b" using b by (simp_all add: CFG_CBSIZE_def)
  have g: "getc st = Some (ichar c, ?st)"
    using getc_poll [OF d rx] by (simp add: c_def split: option.splits)
  note unf = readline_loop.simps [of plen b n col st] g bind.bind_lunit prod.case Let_def char_of_ichar
  show ?thesis
  proof (cases "c = NUL \<or> c = CHR 0x15 \<or> c = CHR 0x17 \<or> c = CHR 0x08 \<or> c = CHR 0x7F \<or> \<not> n < CFG_CBSIZE - 2")
    case False
    let ?b = "b[n := c]"
    have t: "take (Suc n) ?b = take n b @ [c]" using ln by (simp add: take_Suc_conv_app_nth)
    have ed: "key_edit (take n b) key = take n b @ [c]" using False ln by (simp add: e)
    have st: "store b n c = Some ?b" using ln by simp
    show ?thesis
    proof (cases "c = TAB")
      case True
      obtain out where "puts (drop (nat (col mod 8)) tab_seq) ?st = Some (sent out ?st)"
        using puts_tab [OF d'] by blast
      then have "readline_loop plen b n col st = readline_loop plen ?b (Suc n) (col + (8 - col mod 8)) (sent out ?st)"
        unfolding unf using False st True by simp
      then show ?thesis using t b ed by fastforce
    next
      case nt: False
      have "readline_loop plen b n col st = readline_loop plen ?b (Suc n) (col + 1) (sent (on_wire [c]) ?st)"
        unfolding unf using False nt c st putc_sent [OF d', of c] by simp
      then show ?thesis using t b ed by fastforce
    qed
  next
    case True
    then consider "c = NUL" | "c = CHR 0x15" | "c = CHR 0x17" | "c = CHR 0x08 \<or> c = CHR 0x7F"
      | "c \<noteq> NUL" "c \<noteq> CHR 0x15" "c \<noteq> CHR 0x17" "c \<noteq> CHR 0x08" "c \<noteq> CHR 0x7F" "\<not> n < CFG_CBSIZE - 2"
      by blast
    then show ?thesis
    proof cases
      case 1
      have "readline_loop plen b n col st = readline_loop plen b n col (sent [] ?st)"
        unfolding unf using 1 by simp
      moreover have "key_edit (take n b) key = take n b" using 1 ln by (simp add: e)
      ultimately show ?thesis
        by (rule_tac x = b in exI, rule_tac x = col in exI, rule_tac x = "[]" in exI) (simp add: b(1) ln(1) del: length_take)
    next
      case 2
      obtain out where "puts_times (nat (col - plen)) erase_seq ?st = Some (sent out ?st)"
        using puts_times_sent [OF d' erase_seq_nonul] by (auto simp: erase_seq_def)
      then have "readline_loop plen b n col st = readline_loop plen b 0 (if col > plen then plen else col) (sent out ?st)"
        unfolding unf using 2 by simp
      then show ?thesis using 2 b by (auto simp: e)
    next
      case 3
      obtain col1 o1 where d1: "delete_char b n col plen ?st = Some (n - 1, col1, sent o1 ?st)"
        using delete_char_sent [OF d' ln(3)] by blast
      have "n - 1 < length b" using ln by simp
      then obtain col2 o2 where d2: "erase_word b (n - 1) col1 plen (sent o1 ?st) =
          Some (length (erase_last_word (take (Suc (n - 1)) b)), col2, sent o2 (sent o1 ?st))"
        using erase_word_sent [of "sent o1 ?st" "n - 1" b col1 plen] d by auto
      have "length (erase_last_word (take (Suc (n - 1)) b)) = length (erase_last_word (take n b))"
      proof (cases n)
        case 0
        then show ?thesis using d2 ln arg_cong [OF erase_word.simps [of b 0 col1 plen "sent o1 ?st"], of "map_option fst"]
          by (simp add: erase_last_word_def)
      qed simp
      then have "readline_loop plen b n col st = readline_loop plen b (length (erase_last_word (take n b))) col2 (sent (o1 @ o2) ?st)"
        unfolding unf using 3 d1 d2 by simp
      moreover have "take (length (erase_last_word (take n b))) b = erase_last_word (take n b)"
        using erase_last_word_take [of "take n b"] arg_cong [OF erase_last_word_take [of "take n b"], of length] ln
        by (simp add: min.absorb1 min_def split: if_splits)
      ultimately show ?thesis using 3 b by (auto simp: e)
    next
      case 4
      obtain col1 o1 where d1: "delete_char b n col plen ?st = Some (n - 1, col1, sent o1 ?st)"
        using delete_char_sent [OF d' ln(3)] by blast
      then have "readline_loop plen b n col st = readline_loop plen b (n - 1) col1 (sent o1 ?st)"
        unfolding unf using 4 by auto
      then show ?thesis using 4 b ln by (fastforce simp: e butlast_conv_take)
    next
      case 5
      have "readline_loop plen b n col st = readline_loop plen b n col (sent (on_wire [CHR 0x07]) ?st)"
        unfolding unf using 5 c putc_sent [OF d', of "CHR 0x07"] by simp
      moreover have "key_edit (take n b) key = take n b" using 5 ln by (simp add: e)
      ultimately show ?thesis
        by (rule_tac x = b in exI, rule_tac x = col in exI, rule_tac x = "on_wire [CHR 0x07]" in exI)
          (simp add: b(1) ln(1) del: length_take)
    qed
  qed
qed


text \<open>The key that ends the line.\<close>

lemma readline_loop_end:
  assumes d: "\<not> devinit st" and rx: "serial_rx st = Some c # q" and c: "c = CHR 0x0D \<or> c = CHR 0x0A"
    and b: "length b = CFG_CBSIZE" "n \<le> CFG_CBSIZE - 2"
  shows "readline_loop plen b n col st =
    Some (int n, b[n := NUL], sent (on_wire [CHR 0x0D, CHR 0x0A]) (st\<lparr>serial_rx := q\<rparr>))"
proof -
  have "getc st = Some (ichar c, st\<lparr>serial_rx := q\<rparr>)" using getc_poll [OF d rx] by simp
  moreover have "n < length b" using b by (simp add: CFG_CBSIZE_def)
  moreover have "puts (cstr [CHR 0x0D, CHR 0x0A]) (st\<lparr>serial_rx := q\<rparr>) =
      Some (sent (on_wire [CHR 0x0D, CHR 0x0A]) (st\<lparr>serial_rx := q\<rparr>))"
    by (rule puts_sent) (use d in simp_all)
  ultimately show ?thesis
    using c by (subst readline_loop.simps) (auto simp: char_of_ichar Let_def)
qed

lemma readline_loop_break:
  assumes d: "\<not> devinit st" and rx: "serial_rx st = Some c # q" and c: "c = CHR 0x03"
    and b: "length b = CFG_CBSIZE"
  shows "readline_loop plen b n col st = Some (-1, b[0 := NUL], st\<lparr>serial_rx := q\<rparr>)"
proof -
  have g: "getc st = Some (ichar c, st\<lparr>serial_rx := q\<rparr>)" using getc_poll [OF d rx] by simp
  have "store b 0 NUL = Some (b[0 := NUL])" using b by (intro store_Some) (simp add: CFG_CBSIZE_def)
  then show ?thesis
    unfolding readline_loop.simps [of plen b n col st] g bind.bind_lunit prod.case Let_def char_of_ichar c
    by simp
qed

lemma sent_rx: "(sent out st)\<lparr>serial_rx := q\<rparr> = sent out (st\<lparr>serial_rx := q\<rparr>)"
  by (simp add: sent_def)

lemma readline_loop_keys:
  "\<lbrakk>\<not> devinit st; serial_rx st = keys @ q; list_all line_key keys; length b = CFG_CBSIZE;
    take (length s) b = s; length s \<le> CFG_CBSIZE - 2\<rbrakk> \<Longrightarrow>
   \<exists>b' col' out. readline_loop plen b (length s) col st =
      readline_loop plen b' (length (foldl key_edit s keys)) col' (sent out (st\<lparr>serial_rx := q\<rparr>)) \<and>
    length b' = CFG_CBSIZE \<and> take (length (foldl key_edit s keys)) b' = foldl key_edit s keys \<and>
    length (foldl key_edit s keys) \<le> CFG_CBSIZE - 2"
proof (induction keys arbitrary: b s col st)
  case Nil
  then have "readline_loop plen b (length s) col st = readline_loop plen b (length s) col (sent [] (st\<lparr>serial_rx := q\<rparr>))"
    by (cases st) simp
  then show ?case using Nil.prems
    by (rule_tac x = b in exI, rule_tac x = col in exI, rule_tac x = "[]" in exI) simp
next
  case (Cons key keys)
  have k: "line_key key" "list_all line_key keys" using Cons.prems by simp_all
  have rx: "serial_rx st = key # (keys @ q)" using Cons.prems by simp
  obtain b1 col1 o1 where 1: "readline_loop plen b (length s) col st =
      readline_loop plen b1 (length (key_edit s key)) col1 (sent o1 (st\<lparr>serial_rx := keys @ q\<rparr>))"
    "length b1 = CFG_CBSIZE" "take (length (key_edit s key)) b1 = key_edit s key"
    using readline_loop_key [OF Cons.prems(1) rx k(1) Cons.prems(4,6), of plen col]
    unfolding Cons.prems(5) by blast
  obtain b2 col2 o2 where "readline_loop plen b1 (length (key_edit s key)) col1 (sent o1 (st\<lparr>serial_rx := keys @ q\<rparr>)) =
      readline_loop plen b2 (length (foldl key_edit (key_edit s key) keys)) col2
        (sent o2 ((sent o1 (st\<lparr>serial_rx := keys @ q\<rparr>))\<lparr>serial_rx := q\<rparr>))"
    "length b2 = CFG_CBSIZE"
    "take (length (foldl key_edit (key_edit s key) keys)) b2 = foldl key_edit (key_edit s key) keys"
    "length (foldl key_edit (key_edit s key) keys) \<le> CFG_CBSIZE - 2"
    using Cons.IH [of "sent o1 (st\<lparr>serial_rx := keys @ q\<rparr>)" b1 "key_edit s key" col1]
      key_edit_length [OF Cons.prems(6), of key] 1(2,3) k(2) Cons.prems(1) by (simp only: devinit_sent devinit_update rx_sent) auto
  then show ?case using 1(1) by (auto simp: sent_rx)
qed

text \<open>C29: \<open>readline\<close> returns as soon as the end of the line arrives, whatever was typed before, with
  the line that the editing keys (backspace, delete, control-U, control-W) leave, of at most 254
  characters and ended with NUL in the buffer of 256; after control-C it returns -1 and the empty line.\<close>

theorem readline_edits:
  assumes "\<not> devinit st" "nonul prompt" "length b = CFG_CBSIZE"
    and "serial_rx st = keys @ Some c # rest" "list_all line_key keys" "\<not> line_key (Some c)"
  shows "\<exists>b' out. readline (Some prompt) b st =
      Some (if c = CHR 0x03 then -1 else int (length (foldl key_edit [] keys)), b',
            st\<lparr>serial_rx := rest, serial_tx := serial_tx st @ on_wire prompt @ out\<rparr>) \<and>
    length b' = CFG_CBSIZE \<and> length (foldl key_edit [] keys) \<le> 254 \<and>
    (if c = CHR 0x03 then take 1 b' = [NUL]
     else take (Suc (length (foldl key_edit [] keys))) b' = cstr (foldl key_edit [] keys))"
proof -
  let ?line = "foldl key_edit [] keys" and ?st = "sent (on_wire prompt) st"
  obtain b1 col1 o1 where 1: "readline_loop (int (length prompt)) b 0 (int (length prompt)) ?st =
      readline_loop (int (length prompt)) b1 (length ?line) col1 (sent o1 (?st\<lparr>serial_rx := Some c # rest\<rparr>))"
    "length b1 = CFG_CBSIZE" "take (length ?line) b1 = ?line" "length ?line \<le> CFG_CBSIZE - 2"
    using readline_loop_keys [of ?st keys "Some c # rest" b "[]" "int (length prompt)" "int (length prompt)"] assms
    by (auto simp: sent_def devinit_def)
  have r: "readline (Some prompt) b st =
      readline_loop (int (length prompt)) b1 (length ?line) col1 (sent o1 (?st\<lparr>serial_rx := Some c # rest\<rparr>))"
    using 1(1) puts_sent [OF assms(1,2)] by (simp add: readline_def del: puts_cstr_serial)
  let ?st1 = "sent o1 (?st\<lparr>serial_rx := Some c # rest\<rparr>)"
  have d: "\<not> devinit ?st1" "serial_rx ?st1 = Some c # rest" using assms(1) by (simp_all add: sent_def)
  have fin: "?st1\<lparr>serial_rx := rest\<rparr> = st\<lparr>serial_rx := rest, serial_tx := serial_tx st @ on_wire prompt @ o1\<rparr>"
    by (cases st) (simp add: sent_def)
  have len: "length ?line < length b1" "length ?line \<le> 254" using 1(2,4) by (simp_all add: CFG_CBSIZE_def)
  consider "c = CHR 0x03" | "c = CHR 0x0D \<or> c = CHR 0x0A" "c \<noteq> CHR 0x03"
    using assms(6) by (auto simp: line_key_def)
  then show ?thesis
  proof cases
    case 1
    have "readline (Some prompt) b st = Some (-1, b1[0 := NUL], ?st1\<lparr>serial_rx := rest\<rparr>)"
      unfolding r using d \<open>c = CHR 0x03\<close> \<open>length b1 = CFG_CBSIZE\<close> by (intro readline_loop_break) simp_all
    moreover have "take 1 (b1[0 := NUL]) = [NUL]"
      using \<open>length b1 = CFG_CBSIZE\<close> by (cases b1) (simp_all add: CFG_CBSIZE_def)
    ultimately show ?thesis using \<open>c = CHR 0x03\<close> \<open>length b1 = CFG_CBSIZE\<close> len(2) unfolding fin
      by (rule_tac x = "b1[0 := NUL]" in exI, rule_tac x = o1 in exI) simp
  next
    case 2
    have "readline (Some prompt) b st = Some (int (length ?line), b1[length ?line := NUL],
        sent (on_wire [CHR 0x0D, CHR 0x0A]) (?st1\<lparr>serial_rx := rest\<rparr>))"
      unfolding r using 1(2,4) by (rule readline_loop_end [OF d 2(1)])
    moreover have "take (Suc (length ?line)) (b1[length ?line := NUL]) = cstr ?line"
      using 1(3) len(1) by (simp add: take_Suc_conv_app_nth cstr_def)
    ultimately show ?thesis using 2 1(2) len(2) unfolding fin
      by (rule_tac x = "b1[length ?line := NUL]" in exI, rule_tac x = "o1 @ on_wire [CHR 0x0D, CHR 0x0A]" in exI)
        (simp add: sent_def)
  qed
qed

lemma readline_edits_witness:
  "\<exists>b' out. readline (Some CFG_PROMPT) (replicate 256 NUL)
      (sample_board\<lparr>serial_rx := map Some [CHR ''a'', CHR ''b'', CHR 0x08] @ [None] @ Some (CHR 0x0D) # []\<rparr>) =
      Some (1, b', sample_board\<lparr>serial_rx := [], serial_tx := serial_tx sample_board @ on_wire CFG_PROMPT @ out\<rparr>) \<and>
    take 2 b' = cstr ''a''"
proof -
  let ?keys = "map Some [CHR ''a'', CHR ''b'', CHR 0x08] @ [None]"
  let ?st = "sample_board\<lparr>serial_rx := ?keys @ Some (CHR 0x0D) # []\<rparr>"
  have l: "foldl key_edit [] ?keys = ''a''" by code_simp
  have "\<exists>b' out. readline (Some CFG_PROMPT) (replicate 256 NUL) ?st =
      Some (if CHR 0x0D = CHR 0x03 then -1 else int (length (foldl key_edit [] ?keys)), b',
            ?st\<lparr>serial_rx := [], serial_tx := serial_tx ?st @ on_wire CFG_PROMPT @ out\<rparr>) \<and>
    length b' = CFG_CBSIZE \<and> length (foldl key_edit [] ?keys) \<le> 254 \<and>
    (if CHR 0x0D = CHR 0x03 then take 1 b' = [NUL]
     else take (Suc (length (foldl key_edit [] ?keys))) b' = cstr (foldl key_edit [] ?keys))"
    by (rule readline_edits) (simp_all add: devinit_def sample_board_def CFG_PROMPT_def CFG_CBSIZE_def line_key_def)
  then show ?thesis unfolding l by (auto simp: numeral_2_eq_2)
qed

section \<open>The boot arguments\<close>

lemma vsprintf_loop_text:
  "list_all (\<lambda>c. c \<noteq> NUL \<and> c \<noteq> CHR ''%'') s \<Longrightarrow>
   vsprintf_loop (s @ fmt) args out ns = vsprintf_loop fmt args (out @ s) ns"
  by (induction s arbitrary: out) (simp_all add: vsprintf_loop_char del: vsprintf_loop.simps)

definition bootargs_tail :: "bool \<Rightarrow> string" where
  "bootargs_tail first = ''M console=/dev/ttyS4,115200 root=/dev/mtdblock1 init=/init mtdparts=NAND:'' @
     (if first then ''2M@0M(boot),14M@2M(root),-@16M(yaffs)'' else ''9M@0M(boot),7M@9M(root),-@16M(yaffs)'')"

lemma bootargs_parts:
  "bootargs_format first = ''setenv bootargs mem='' @ ''%d'' @ bootargs_tail first"
  "list_all (\<lambda>c. c \<noteq> NUL \<and> c \<noteq> CHR ''%'') (bootargs_tail first)"
  "length (bootargs_tail first) \<ge> 107"
  by (cases first; simp add: bootargs_tail_def bootargs_format_def)+

lemma bootargs_output:
  "vsprintf_loop (cstr (bootargs_format first)) [VWord w] [] [] =
     Some (''setenv bootargs mem='' @ sdec w @ bootargs_tail first, [])"
proof -
  have "vsprintf_loop (cstr (bootargs_format first)) [VWord w] [] [] =
      vsprintf_loop (''setenv bootargs mem='' @ (CHR ''%'' # CHR ''d'' # (bootargs_tail first @ [NUL]))) [VWord w] [] []"
    by (simp only: bootargs_parts(1) cstr_def append_assoc append_Cons append_Nil)
  also have "\<dots> = vsprintf_loop (bootargs_tail first @ [NUL]) [] (''setenv bootargs mem='' @ sdec w) []"
    by (subst vsprintf_loop_text) (simp_all add: vsprintf_loop_d del: vsprintf_loop.simps)
  also have "\<dots> = Some (''setenv bootargs mem='' @ sdec w @ bootargs_tail first, [])"
    by (subst vsprintf_loop_text [OF bootargs_parts(2)]) simp
  finally show ?thesis .
qed

lemma sdec_not_Nil: "sdec w \<noteq> []"
  using udec_not_Nil by (simp add: sdec_def)

text \<open>C30: The array for the line with the boot arguments has 128 characters; the line is longer,
  whatever the memory size and the partition index are, so the formatting writes past its end.\<close>

theorem main_cmdline_overflows: "main_cmdline first ramsize_MB magic mac = None"
proof -
  have "length (''setenv bootargs mem='' @ sdec ramsize_MB @ bootargs_tail first) \<ge> 128"
    using bootargs_parts(3) [of first] sdec_not_Nil [of ramsize_MB] by (cases "sdec ramsize_MB") simp_all
  then have "vsprintf (replicate 128 NUL) (cstr (bootargs_format first)) [VWord ramsize_MB] = None"
    unfolding vsprintf_def bootargs_output by simp
  then show ?thesis by (simp add: main_cmdline_def)
qed

end
