(* ===== verification/Srecord.thy ===== *)
theory Srecord
  imports Bytes
begin

text \<open>
  Motorola S-records (\<open>common/s_record.c\<close>): decoding one line of text into its type, address and
  data.  A record is \<open>S\<close>, a type digit, the number of the bytes that follow, the address, the
  data and a checksum byte, all bytes as two hexadecimal digits.
\<close>

section \<open>The decoder\<close>

definition SREC_START :: int where "SREC_START = 0"
definition SREC_DATA2 :: int where "SREC_DATA2 = 1"
definition SREC_DATA3 :: int where "SREC_DATA3 = 2"
definition SREC_DATA4 :: int where "SREC_DATA4 = 3"
definition SREC_COUNT :: int where "SREC_COUNT = 5"
definition SREC_END4 :: int where "SREC_END4 = 7"
definition SREC_END3 :: int where "SREC_END3 = 8"
definition SREC_END2 :: int where "SREC_END2 = 9"
definition SREC_EMPTY :: int where "SREC_EMPTY = 10"
definition SREC_E_BADTYPE :: int where "SREC_E_BADTYPE = -1"
definition SREC_E_NOSREC :: int where "SREC_E_NOSREC = -2"
definition SREC_E_BADCHKS :: int where "SREC_E_BADCHKS = -3"

lemmas srec_codes = SREC_START_def SREC_DATA2_def SREC_DATA3_def SREC_DATA4_def SREC_COUNT_def
  SREC_END4_def SREC_END3_def SREC_END2_def SREC_EMPTY_def SREC_E_BADTYPE_def SREC_E_NOSREC_def
  SREC_E_BADCHKS_def

definition hex1_bin :: "char \<Rightarrow> int" where
  "hex1_bin c =
     (if ichar c \<ge> 48 \<and> ichar c \<le> 57 then ichar c - 48
      else if ichar c \<ge> 97 \<and> ichar c \<le> 102 then ichar c + 10 - 97
      else if ichar c \<ge> 65 \<and> ichar c \<le> 70 then ichar c + 10 - 65
      else -1)"

fun hex2_bin :: "buf \<Rightarrow> int option" where
  "hex2_bin [] = None"
| "hex2_bin (c # s) =
     (let i = hex1_bin c
      in if i < 0 then Some (-1)
         else (case s of
                 [] \<Rightarrow> None
               | d # _ \<Rightarrow> let j = hex1_bin d in Some (if j < 0 then -1 else i * 16 + j)))"

text \<open>Skipping to the first \<open>S\<close> and over it, or to the end of the string.\<close>

fun skip_to_S :: "buf \<Rightarrow> buf option" where
  "skip_to_S [] = None"
| "skip_to_S (c # s) = (if c = NUL then Some (c # s) else if c = CHR ''S'' then Some s else skip_to_S s)"

text \<open>
  What the record type \<open>v\<close> and the length byte \<open>n\<close> give: the type code, the number of address
  bytes and the number of data bytes.
\<close>

definition srec_kind :: "char \<Rightarrow> int \<Rightarrow> (int \<times> nat \<times> int) option" where
  "srec_kind v n =
     (if v = CHR ''0'' then Some (SREC_START, 2, n - 3)
      else if v = CHR ''1'' then Some (SREC_DATA2, 2, n - 3)
      else if v = CHR ''2'' then Some (SREC_DATA3, 3, n - 4)
      else if v = CHR ''3'' then Some (SREC_DATA4, 4, n - 5)
      else if v = CHR ''5'' then Some (SREC_COUNT, 2, 0)
      else if v = CHR ''7'' then Some (SREC_END4, 4, n - 5)
      else if v = CHR ''8'' then Some (SREC_END3, 3, n - 4)
      else if v = CHR ''9'' then Some (SREC_END2, 2, n - 3)
      else None)"

text \<open>
  The address field: \<open>k\<close> bytes still to read.  The result says whether all were hexadecimal; the
  address is what has been read so far.
\<close>

fun srec_addr :: "nat \<Rightarrow> u32 \<Rightarrow> u8 \<Rightarrow> buf \<Rightarrow> (bool \<times> u32 \<times> u8 \<times> buf) option" where
  "srec_addr 0 addr chksum input = Some (True, addr, chksum, input)"
| "srec_addr (Suc k) addr chksum input =
     do { v \<leftarrow> hex2_bin input;
          if v < 0 then Some (False, addr, chksum, input)
          else srec_addr k ((if k = 3 then addr else push_bit 8 addr) + of_int v)
                 (chksum + of_int v) (drop 2 input) }"

text \<open>The data field from byte \<open>i\<close> on, \<open>k\<close> bytes still to read.\<close>

fun srec_data :: "nat \<Rightarrow> nat \<Rightarrow> buf \<Rightarrow> u8 \<Rightarrow> buf \<Rightarrow> (bool \<times> buf \<times> u8 \<times> buf) option" where
  "srec_data i 0 data chksum input = Some (True, data, chksum, input)"
| "srec_data i (Suc k) data chksum input =
     do { v \<leftarrow> hex2_bin input;
          if v < 0 then Some (False, data, chksum, input)
          else do { data \<leftarrow> store data i (char_of (nat v));
                    srec_data (Suc i) k data (chksum + of_int v) (drop 2 input) } }"

text \<open>The result: the return value and the final \<open>*count\<close>, \<open>*addr\<close> and \<open>data\<close>.\<close>

definition srec_decode :: "buf \<Rightarrow> int \<Rightarrow> u32 \<Rightarrow> buf \<Rightarrow> (int \<times> int \<times> u32 \<times> buf) option" where
  "srec_decode input count addr data =
     do { input \<leftarrow> skip_to_S input;
          v \<leftarrow> load input 0;
          if v = NUL then Some (SREC_EMPTY, count, addr, data)
          else
            do { n \<leftarrow> hex2_bin (drop 1 input);
                 if n < 0 then Some (SREC_E_NOSREC, n, addr, data)
                 else
                   (case srec_kind v n of
                      None \<Rightarrow> Some (SREC_E_BADTYPE, n, addr, data)
                    | Some (srec_type, k, count) \<Rightarrow>
                        do { (ok, addr, chksum, input) \<leftarrow> srec_addr k 0 (of_int n) (drop 3 input);
                             if \<not> ok then Some (SREC_E_NOSREC, count, addr, data)
                             else
                               do { (ok, data, chksum, input) \<leftarrow> srec_data 0 (nat count) data chksum input;
                                    if \<not> ok then Some (SREC_E_NOSREC, count, addr, data)
                                    else
                                      do { v \<leftarrow> hex2_bin input;
                                           if v < 0 then Some (SREC_E_NOSREC, count, addr, data)
                                           else if (of_int v :: u8) \<noteq> NOT chksum
                                             then Some (SREC_E_BADCHKS, count, addr, data)
                                           else Some (srec_type, count, addr, data) } } }) } }"

section \<open>Reading bytes\<close>

definition upper_hex :: "nat \<Rightarrow> char" where
  "upper_hex d = (if d < 10 then char_of (48 + d) else char_of (55 + d))"

definition hex_byte :: "char \<Rightarrow> string" where
  "hex_byte c = [upper_hex (code c div 16), upper_hex (code c mod 16)]"

definition hex_bytes :: "buf \<Rightarrow> string" where
  "hex_bytes bs = concat (map hex_byte bs)"

lemma hex1_bin_upper: "d < 16 \<Longrightarrow> hex1_bin (upper_hex d) = int d"
proof -
  have "list_all (\<lambda>d. hex1_bin (upper_hex d) = int d) [0..<16]" by code_simp
  then show "d < 16 \<Longrightarrow> hex1_bin (upper_hex d) = int d" by (rule list_all_upt)
qed

lemma code_div_16: "code c div 16 < 16"
  using nat_of_char_less_256 [of c] by linarith

lemma hex2_bin_byte [simp]: "hex2_bin (hex_byte c @ r) = Some (ichar c)"
proof -
  have "int (code c div 16) * 16 + int (code c mod 16) = int (code c div 16 * 16 + code c mod 16)"
    by (simp only: of_nat_mult of_nat_add of_nat_numeral)
  then have "int (code c div 16) * 16 + int (code c mod 16) = ichar c"
    by (simp only: div_mult_mod_eq ichar_eq_int)
  then show ?thesis
    by (simp add: hex_byte_def hex1_bin_upper code_div_16 Let_def)
qed

lemma hex_byte_length [simp]: "length (hex_byte c) = 2"
  by (simp add: hex_byte_def)

lemma drop_hex_byte [simp]: "drop 2 (hex_byte c @ r) = r"
  by (simp add: hex_byte_def)

lemma hex_bytes_Cons [simp]: "hex_bytes (c # bs) = hex_byte c @ hex_bytes bs"
  by (simp add: hex_bytes_def)

lemma hex_bytes_Nil [simp]: "hex_bytes [] = []"
  by (simp add: hex_bytes_def)

text \<open>The sum of bytes modulo 256.\<close>

definition byte_sum :: "buf \<Rightarrow> u8" where
  "byte_sum bs = sum_list (map of_char bs)"

lemma byte_sum_Cons [simp]: "byte_sum (c # bs) = of_char c + byte_sum bs"
  by (simp add: byte_sum_def)

lemma byte_sum_Nil [simp]: "byte_sum [] = 0"
  by (simp add: byte_sum_def)

lemma of_int_ichar: "(of_int (ichar c) :: 'a :: len word) = of_char c"
  by (metis ichar_eq_int of_int_of_nat_eq of_nat_of_char)

lemma ichar_not_neg [simp]: "\<not> ichar c < 0"
  using ichar_bounds(1) [of c] by linarith

lemma nat_ichar: "nat (ichar c) = code c"
  by (simp add: ichar_eq_int)

lemma srec_data_bytes:
  "i + length ds \<le> length data \<Longrightarrow>
   srec_data i (length ds) data s (hex_bytes ds @ r) =
     Some (True, take i data @ ds @ drop (i + length ds) data, s + byte_sum ds, r)"
proof (induction ds arbitrary: i data s)
  case (Cons c ds)
  then have i: "i < length data" by simp
  have "take (Suc i) (data[i := c]) @ ds @ drop (Suc i + length ds) (data[i := c]) =
      take i data @ (c # ds) @ drop (i + length (c # ds)) data"
    using i by (simp add: take_Suc_conv_app_nth)
  then show ?case using Cons i by (simp add: of_int_ichar nat_ichar add.assoc)
qed simp

definition be_value :: "buf \<Rightarrow> u32" where
  "be_value bs = foldl (\<lambda>a c. push_bit 8 a + of_char c) 0 bs"

lemma srec_addr_bytes:
  "length bs \<le> 3 \<Longrightarrow> srec_addr (length bs) a s (hex_bytes bs @ r) =
     Some (True, foldl (\<lambda>a c. push_bit 8 a + of_char c) a bs, s + byte_sum bs, r)"
  by (induction bs arbitrary: a s) (simp_all add: of_int_ichar add.assoc)

lemma srec_addr_value:
  assumes "length bs \<le> 4"
  shows "srec_addr (length bs) 0 s (hex_bytes bs @ r) = Some (True, be_value bs, s + byte_sum bs, r)"
proof (cases "length bs = 4")
  case True
  then obtain c bs' where "bs = c # bs'" "length bs' = 3" by (cases bs) auto
  then show ?thesis using srec_addr_bytes [of bs' "of_char c" "s + of_char c" r]
    by (simp add: be_value_def of_int_ichar add.assoc numeral_eq_Suc del: hex2_bin.simps)
next
  case False
  then show ?thesis using assms srec_addr_bytes [of bs 0 s r] by (simp add: be_value_def)
qed


section \<open>Records\<close>

text \<open>The digit, the number of address bytes and the type code of the record types with data.\<close>

definition record_kinds :: "(char \<times> nat \<times> int) list" where
  "record_kinds =
     [(CHR ''0'', 2, SREC_START), (CHR ''1'', 2, SREC_DATA2), (CHR ''2'', 3, SREC_DATA3),
      (CHR ''3'', 4, SREC_DATA4), (CHR ''7'', 4, SREC_END4), (CHR ''8'', 3, SREC_END3),
      (CHR ''9'', 2, SREC_END2)]"

text \<open>The text of a record with the given address bytes, data and checksum byte.\<close>

definition record_length :: "buf \<Rightarrow> buf \<Rightarrow> nat" where
  "record_length as ds = length as + length ds + 1"

definition record_text :: "char \<Rightarrow> buf \<Rightarrow> buf \<Rightarrow> char \<Rightarrow> string" where
  "record_text v as ds ck =
     CHR ''S'' # v # hex_byte (char_of (record_length as ds)) @ hex_bytes as @ hex_bytes ds @ hex_byte ck"

definition record_checksum :: "buf \<Rightarrow> buf \<Rightarrow> u8" where
  "record_checksum as ds = NOT (of_nat (record_length as ds) + byte_sum as + byte_sum ds)"

lemma record_kinds_kind:
  "(v, k, t) \<in> set record_kinds \<Longrightarrow> v \<noteq> NUL \<and> srec_kind v n = Some (t, k, n - int k - 1) \<and> k \<le> 4"
  by (auto simp: record_kinds_def srec_kind_def)

lemma skip_to_S_record: "CHR ''S'' \<notin> set pre \<Longrightarrow> nonul pre \<Longrightarrow> skip_to_S (pre @ CHR ''S'' # r) = Some r"
  by (induction pre) auto

lemma srec_decode_text:
  assumes kind: "(v, length as, t) \<in> set record_kinds" and pre: "CHR ''S'' \<notin> set pre" "nonul pre"
    and len: "record_length as ds \<le> 255" "length ds \<le> length data"
  shows "srec_decode (pre @ record_text v as ds ck @ r) count addr data =
    Some (if of_char ck = record_checksum as ds then t else SREC_E_BADCHKS,
          int (length ds), be_value as, ds @ drop (length ds) data)"
proof -
  let ?n = "record_length as ds"
  let ?text = "v # hex_byte (char_of ?n) @ hex_bytes as @ hex_bytes ds @ hex_byte ck @ r"
  have n: "ichar (char_of ?n) = int ?n" using len(1) by (simp add: ichar_eq_int)
  have v: "v \<noteq> NUL" "srec_kind v (int ?n) = Some (t, length as, int (length ds))" "length as \<le> 4"
    using record_kinds_kind [OF kind, of "int ?n"] by (simp_all add: record_length_def)
  have 1: "skip_to_S (pre @ record_text v as ds ck @ r) = Some ?text"
    using skip_to_S_record [OF pre, of ?text] by (simp add: record_text_def)
  have 2: "hex2_bin (drop 1 ?text) = Some (int ?n)" using n by simp
  have 3: "drop 3 ?text = hex_bytes as @ hex_bytes ds @ hex_byte ck @ r"
    by (simp add: hex_byte_def)
  have 4: "srec_addr (length as) 0 (of_int (int ?n)) (hex_bytes as @ hex_bytes ds @ hex_byte ck @ r) =
      Some (True, be_value as, of_nat ?n + byte_sum as, hex_bytes ds @ hex_byte ck @ r)"
    using srec_addr_value [OF v(3)] by simp
  have 5: "srec_data 0 (nat (int (length ds))) data (of_nat ?n + byte_sum as) (hex_bytes ds @ hex_byte ck @ r) =
      Some (True, ds @ drop (length ds) data, NOT (record_checksum as ds), hex_byte ck @ r)"
    using srec_data_bytes [of 0 ds data "of_nat ?n + byte_sum as"] len(2) by (simp add: record_checksum_def)
  have l: "load ?text 0 = Some v" by simp
  have i: "\<not> int ?n < 0" by simp
  show ?thesis
    unfolding srec_decode_def 1 2 3 4 5 l bind.bind_lunit prod.case v(2) option.case hex2_bin_byte
    using v(1) i by (simp add: of_int_ichar)
qed

section \<open>Properties\<close>



text \<open>C31: A single wrong byte in the data of a record, or in its address, is detected.\<close>

theorem srec_single_error:
  assumes "(v, length as, t) \<in> set record_kinds" "record_length as ds \<le> 255" "length ds \<le> length data"
    and "of_char ck = record_checksum as ds" "i < length (as @ ds)" "c \<noteq> (as @ ds) ! i"
  shows "\<exists>n a d. srec_decode (cstr (record_text v (take (length as) ((as @ ds)[i := c]))
      (drop (length as) ((as @ ds)[i := c])) ck)) count addr data = Some (SREC_E_BADCHKS, n, a, d)"
proof -
  let ?bs = "(as @ ds)[i := c]"
  let ?as = "take (length as) ?bs" and ?ds = "drop (length as) ?bs"
  have total: "byte_sum ?as + byte_sum ?ds = byte_sum ?bs"
  proof -
    have "byte_sum (xs @ ys) = byte_sum xs + byte_sum ys" for xs ys
      by (simp add: byte_sum_def)
    then show ?thesis by (metis append_take_drop_id)
  qed
  have upd: "byte_sum (xs[j := c]) = byte_sum xs - of_char (xs ! j) + of_char c" if "j < length xs" for xs j
    using that
  proof (induction xs arbitrary: j)
    case (Cons x xs)
    then show ?case by (cases j) (simp_all add: algebra_simps)
  qed simp
  have app: "byte_sum (as @ ds) = byte_sum as + byte_sum ds" by (simp add: byte_sum_def)
  have ne: "(of_char c :: u8) \<noteq> of_char ((as @ ds) ! i)"
  proof
    assume "(of_char c :: u8) = of_char ((as @ ds) ! i)"
    then have "unat (of_nat (code c) :: u8) = unat (of_nat (code ((as @ ds) ! i)) :: u8)"
      by (simp only: of_nat_of_char)
    then have "code c = code ((as @ ds) ! i)" by (simp add: unat_of_nat)
    then show False using assms(6) by simp
  qed
  have len: "length ?as = length as" "length ?ds = length ds" by simp_all
  have "record_checksum ?as ?ds \<noteq> record_checksum as ds"
  proof -
    have "byte_sum ?as + byte_sum ?ds \<noteq> byte_sum as + byte_sum ds"
      unfolding total using upd [OF assms(5)] app ne by simp
    then show ?thesis by (simp add: record_checksum_def record_length_def add.assoc)
  qed
  then have "of_char ck \<noteq> record_checksum ?as ?ds" using assms(4) by simp
  then have "srec_decode ([] @ record_text v ?as ?ds ck @ [NUL]) count addr data =
      Some (SREC_E_BADCHKS, int (length ?ds), be_value ?as, ?ds @ drop (length ?ds) data)"
    using srec_decode_text [of v ?as t "[]" ?ds data ck "[NUL]" count addr] assms len
    by (simp add: record_length_def)
  then show ?thesis by (auto simp: cstr_def)
qed

theorem srec_single_error_witness:
  "\<exists>n a d. srec_decode (cstr (record_text (CHR ''1'') (take 2 (([CHR 0x12, CHR 0x34] @ [CHR 0xAB])[2 := CHR 0xAC]))
      (drop 2 (([CHR 0x12, CHR 0x34] @ [CHR 0xAB])[2 := CHR 0xAC])) (CHR 0x0A))) 0 0 (replicate 255 NUL) =
    Some (SREC_E_BADCHKS, n, a, d)"
proof -
  have "(of_char (CHR 0x0A) :: u8) = record_checksum [CHR 0x12, CHR 0x34] [CHR 0xAB]"
    by (simp add: record_checksum_def record_length_def)
  then have "\<exists>n a d. srec_decode (cstr (record_text (CHR ''1'')
      (take (length [CHR 0x12, CHR 0x34]) (([CHR 0x12, CHR 0x34] @ [CHR 0xAB])[2 := CHR 0xAC]))
      (drop (length [CHR 0x12, CHR 0x34]) (([CHR 0x12, CHR 0x34] @ [CHR 0xAB])[2 := CHR 0xAC])) (CHR 0x0A)))
      0 0 (replicate 255 NUL) = Some (SREC_E_BADCHKS, n, a, d)"
    by (intro srec_single_error [of "CHR ''1''" _ SREC_DATA2]) (simp_all add: record_kinds_def record_length_def)
  then show ?thesis by simp
qed

end
