(* ===== verification/Flash.thy ===== *)
theory Flash
  imports Environment_Props
begin

text \<open>
  Flash memory: the table of banks and sectors with its protection (\<open>common/flash.c\<close>), the NOR
  writer of the board (\<open>board/as3310/flash.c\<close>), the sector ranges, erasing and protecting of
  \<open>common/cmd_flash.c\<close>, and \<open>saveenv\<close> (\<open>common/env_flash.c\<close>).

  What the chip does with a programming or an erase cycle is not code: the parameter \<open>prog\<close>
  (\<open>erase\<close>) gives the memory after the cycle and whether the chip reported ready before the timeout.
\<close>

section \<open>The state\<close>

record flash_info_t =
  fl_size :: u32
  sector_count :: nat
  flash_id :: u32
  fl_start :: "u32 list"
  fl_protect :: "nat list"

text \<open>The board with its memory, and the position of the spinning wheel.\<close>

record machine = board +
  mem :: "u32 \<Rightarrow> char"
  flash_info :: "flash_info_t list"
  wheel :: nat

text \<open>The memory after the bytes \<open>bs\<close> have been stored from \<open>a\<close> on.\<close>

definition overlay :: "(u32 \<Rightarrow> char) \<Rightarrow> u32 \<Rightarrow> buf \<Rightarrow> u32 \<Rightarrow> char" where
  "overlay m a bs = (\<lambda>x. if unat (x - a) < length bs then bs ! unat (x - a) else m x)"

definition FLASH_UNKNOWN :: u32 where "FLASH_UNKNOWN = 0xFFFF"
definition FLASH_VENDMASK :: u32 where "FLASH_VENDMASK = 0xFFFF0000"
definition FLASH_MAN_INTEL :: u32 where "FLASH_MAN_INTEL = 0x00300000"
definition FLAG_PROTECT_SET :: nat where "FLAG_PROTECT_SET = 1"
definition FLAG_PROTECT_CLEAR :: nat where "FLAG_PROTECT_CLEAR = 2"
definition ERR_OK :: int where "ERR_OK = 0"
definition ERR_TIMOUT :: int where "ERR_TIMOUT = 1"
definition ERR_NOT_ERASED :: int where "ERR_NOT_ERASED = 2"
definition ERR_PROTECTED :: int where "ERR_PROTECTED = 4"
definition ERR_INVAL :: int where "ERR_INVAL = 8"
definition ERR_ALIGN :: int where "ERR_ALIGN = 16"
definition ERR_UNKNOWN_FLASH_VENDOR :: int where "ERR_UNKNOWN_FLASH_VENDOR = 32"
definition ERR_UNKNOWN_FLASH_TYPE :: int where "ERR_UNKNOWN_FLASH_TYPE = 64"
definition ERR_PROG_ERROR :: int where "ERR_PROG_ERROR = 128"

lemmas flash_codes = ERR_OK_def ERR_TIMOUT_def ERR_NOT_ERASED_def ERR_PROTECTED_def ERR_INVAL_def
  ERR_ALIGN_def ERR_UNKNOWN_FLASH_VENDOR_def ERR_UNKNOWN_FLASH_TYPE_def ERR_PROG_ERROR_def

text \<open>An integer stored in a \<open>short\<close>.\<close>

definition short :: "int \<Rightarrow> int" where
  "short n = (n + 32768) mod 65536 - 32768"

section \<open>Protection and banks\<close>

text \<open>The last address of the bank, and the last address of sector \<open>i\<close>.\<close>

definition bank_end :: "flash_info_t \<Rightarrow> u32 option" where
  "bank_end info = map_option (\<lambda>s. s + fl_size info - 1) (load (fl_start info) 0)"

definition sector_end :: "flash_info_t \<Rightarrow> u32 \<Rightarrow> nat \<Rightarrow> u32 option" where
  "sector_end info b_end i =
     (if int i = short (int (sector_count info) - 1) then Some b_end
      else map_option (\<lambda>s. s - 1) (load (fl_start info) (Suc i)))"

fun protect_loop :: "nat \<Rightarrow> u32 \<Rightarrow> u32 \<Rightarrow> u32 \<Rightarrow> nat \<Rightarrow> nat \<Rightarrow> flash_info_t \<Rightarrow> flash_info_t option" where
  "protect_loop flag from until b_end i 0 info = Some info"
| "protect_loop flag from until b_end i (Suc k) info =
     do { end \<leftarrow> sector_end info b_end i;
          s \<leftarrow> load (fl_start info) i;
          info \<leftarrow>
            (if from \<le> end \<and> until \<ge> s then
               if flag AND FLAG_PROTECT_CLEAR \<noteq> 0 then
                 map_option (\<lambda>p. info\<lparr>fl_protect := p\<rparr>) (store (fl_protect info) i 0)
               else if flag AND FLAG_PROTECT_SET \<noteq> 0 then
                 map_option (\<lambda>p. info\<lparr>fl_protect := p\<rparr>) (store (fl_protect info) i 1)
               else Some info
             else Some info);
          protect_loop flag from until b_end (Suc i) k info }"

definition flash_protect :: "nat \<Rightarrow> u32 \<Rightarrow> u32 \<Rightarrow> flash_info_t \<Rightarrow> flash_info_t option" where
  "flash_protect flag from until info =
     do { b_end \<leftarrow> bank_end info;
          if sector_count info = 0 \<or> fl_size info = 0 \<or> until < from then Some info
          else
            do { s \<leftarrow> load (fl_start info) 0;
                 if flash_id info = FLASH_UNKNOWN \<or> until < s \<or> from > b_end then Some info
                 else protect_loop flag from until b_end 0 (sector_count info) info } }"

text \<open>The position of the bank of an address in \<open>flash_info\<close>.\<close>

fun addr2info_from :: "nat \<Rightarrow> flash_info_t list \<Rightarrow> u32 \<Rightarrow> nat option option" where
  "addr2info_from i [] addr = Some None"
| "addr2info_from i (info # infos) addr =
     (if flash_id info = FLASH_UNKNOWN then addr2info_from (Suc i) infos addr
      else do { s \<leftarrow> load (fl_start info) 0;
                if addr \<ge> s \<and> addr \<le> s + fl_size info - 1 then Some (Some i)
                else addr2info_from (Suc i) infos addr })"

definition addr2info :: "flash_info_t list \<Rightarrow> u32 \<Rightarrow> nat option option" where
  "addr2info infos addr = addr2info_from 0 infos addr"

section \<open>Writing to the NOR flash\<close>

definition halfword_at :: "(u32 \<Rightarrow> char) \<Rightarrow> u32 \<Rightarrow> u16" where
  "halfword_at m a = of_char (m a) OR push_bit 8 (of_char (m (a + 1)))"

definition swab16 :: "u16 \<Rightarrow> u16" where
  "swab16 x = push_bit 8 (x AND 0x00ff) OR drop_bit 8 (x AND 0xff00)"

type_synonym program = "u32 \<Rightarrow> u16 \<Rightarrow> (u32 \<Rightarrow> char) \<Rightarrow> bool \<times> (u32 \<Rightarrow> char)"

definition write_data :: "program \<Rightarrow> u32 \<Rightarrow> u16 \<Rightarrow> machine \<Rightarrow> (int \<times> machine) option" where
  "write_data prog dest data st =
     (if halfword_at (mem st) dest AND data \<noteq> data then
        do { st \<leftarrow> printf (''not erased at %08lx (%x)'' @ [CHR 0x0A])
                     [VWord dest, VWord (ucast (halfword_at (mem st) dest))] st;
             Some (2, st) }
      else
        let (ready, m) = prog dest data (mem st)
        in Some (if ready then 0 else 1, st\<lparr>mem := m\<rparr>))"

text \<open>Shifting bytes into \<open>data\<close>: \<open>n\<close> bytes of the memory, and at most \<open>n\<close> bytes of the source.\<close>

fun old_bytes :: "nat \<Rightarrow> u32 \<Rightarrow> (u32 \<Rightarrow> char) \<Rightarrow> u16 \<Rightarrow> u16" where
  "old_bytes 0 cp m data = data"
| "old_bytes (Suc n) cp m data = old_bytes n (cp + 1) m (push_bit 8 data OR of_char (m cp))"

fun src_bytes :: "nat \<Rightarrow> buf \<Rightarrow> nat \<Rightarrow> u16 \<Rightarrow> (nat \<times> buf \<times> nat \<times> u16) option" where
  "src_bytes 0 src cnt data = Some (0, src, cnt, data)"
| "src_bytes (Suc n) src cnt data =
     (if cnt > 0 then
        (case src of
           [] \<Rightarrow> None
         | c # src \<Rightarrow> src_bytes n src (cnt - 1) (push_bit 8 data OR of_char c))
      else Some (Suc n, src, cnt, data))"

definition spin_wheel :: "machine \<Rightarrow> machine option" where
  "spin_wheel st =
     do { c \<leftarrow> load [CHR 0x5C, CHR ''/'', CHR ''-'', NUL] (wheel st);
          st \<leftarrow> printf ([CHR 0x08] @ ''%c'') [VWord (of_nat (code c))] st;
          Some (st\<lparr>wheel := (if Suc (wheel st) = 3 then 0 else Suc (wheel st))\<rparr>) }"

fun write_words :: "program \<Rightarrow> nat \<Rightarrow> u32 \<Rightarrow> buf \<Rightarrow> nat \<Rightarrow> machine \<Rightarrow> (int \<times> u32 \<times> buf \<times> nat \<times> machine) option" where
  "write_words prog count wp src cnt st =
     (if cnt \<ge> 2 then
        (case src_bytes 2 src cnt 0 of
           None \<Rightarrow> None
         | Some (_, src, _, data) \<Rightarrow>
             (case write_data prog wp (swab16 data) st of
                None \<Rightarrow> None
              | Some (rc, st) \<Rightarrow>
                  if rc \<noteq> 0 then Some (rc, wp, src, cnt, st)
                  else if count > 0x800 then
                    (case spin_wheel st of
                       None \<Rightarrow> None
                     | Some st \<Rightarrow> write_words prog 0 (wp + 2) src (cnt - 2) st)
                  else write_words prog (Suc count) (wp + 2) src (cnt - 2) st))
      else Some (0, wp, src, cnt, st))"

declare write_words.simps [simp del]

definition write_buff ::
  "program \<Rightarrow> flash_info_t \<Rightarrow> buf \<Rightarrow> u32 \<Rightarrow> u32 \<Rightarrow> machine \<Rightarrow> (int \<times> machine) option" where
  "write_buff prog info src addr cnt st =
     (if flash_id info = FLASH_UNKNOWN then Some (4, st)
      else
        let wp = addr AND NOT 1; l = unat (addr - wp)
        in do { (rc, wp, src, cnt, st) \<leftarrow>
                  (if l \<noteq> 0 then
                     do { (left, src, cnt, data) \<leftarrow> src_bytes (2 - l) src (unat cnt) (old_bytes l wp (mem st) 0);
                          let data = (if cnt = 0 then old_bytes left (wp + of_nat (2 - left)) (mem st) data else data)
                          in do { (rc, st) \<leftarrow> write_data prog wp (swab16 data) st;
                                  Some (rc, wp + 2, src, cnt, st) } }
                   else Some (0, wp, src, unat cnt, st));
                if rc \<noteq> 0 then Some (rc, st)
                else
                  do { (rc, wp, src, cnt, st) \<leftarrow> write_words prog 0 wp src cnt st;
                       if rc \<noteq> 0 then Some (rc, st)
                       else if cnt = 0 then Some (0, st)
                       else
                         do { (left, _, _, data) \<leftarrow> src_bytes 2 src cnt 0;
                              write_data prog wp
                                (swab16 (old_bytes left (wp + of_nat (2 - left)) (mem st) data)) st } } })"

text \<open>
  \<open>flash_write\<close>: the check of the sectors of the banks \<open>first\<close> to \<open>last\<close>, then the writes.
\<close>

fun protected_sectors :: "u32 \<Rightarrow> u32 \<Rightarrow> flash_info_t \<Rightarrow> u32 \<Rightarrow> nat \<Rightarrow> nat \<Rightarrow> bool option" where
  "protected_sectors addr end info b_end i 0 = Some False"
| "protected_sectors addr end info b_end i (Suc k) =
     do { e_addr \<leftarrow> (if int i = short (int (sector_count info) - 1) then Some b_end
                     else load (fl_start info) (Suc i));
          s \<leftarrow> load (fl_start info) i;
          p \<leftarrow> (if end \<ge> s \<and> addr < e_addr then map_option (\<lambda>p. p \<noteq> 0) (load (fl_protect info) i)
                else Some False);
          if p then Some True else protected_sectors addr end info b_end (Suc i) k }"

fun protected_banks :: "u32 \<Rightarrow> u32 \<Rightarrow> flash_info_t list \<Rightarrow> bool option" where
  "protected_banks addr end [] = Some False"
| "protected_banks addr end (info # infos) =
     do { s \<leftarrow> load (fl_start info) 0;
          p \<leftarrow> protected_sectors addr end info (s + fl_size info) 0 (sector_count info);
          if p then Some True else protected_banks addr end infos }"

fun write_banks :: "program \<Rightarrow> buf \<Rightarrow> u32 \<Rightarrow> u32 \<Rightarrow> flash_info_t list \<Rightarrow> machine \<Rightarrow> (int \<times> machine) option" where
  "write_banks prog src addr cnt [] st = Some (ERR_OK, st)"
| "write_banks prog src addr cnt (info # infos) st =
     (if cnt > 0 then
        do { s \<leftarrow> load (fl_start info) 0;
             let len = s + fl_size info - addr; len = (if len > cnt then cnt else len)
             in do { (rc, st) \<leftarrow> write_buff prog info src addr len st;
                     if rc \<noteq> 0 then Some (rc, st)
                     else write_banks prog (drop (unat len) src) (addr + len) (cnt - len) infos st } }
      else Some (ERR_OK, st))"

definition flash_write :: "program \<Rightarrow> buf \<Rightarrow> u32 \<Rightarrow> u32 \<Rightarrow> machine \<Rightarrow> (int \<times> machine) option" where
  "flash_write prog src addr cnt st =
     (let end = addr + cnt - 1
      in do { info_first \<leftarrow> addr2info (flash_info st) addr;
              info_last \<leftarrow> addr2info (flash_info st) end;
              if cnt = 0 then Some (ERR_OK, st)
              else
                (case (info_first, info_last) of
                   (Some f, Some l) \<Rightarrow>
                     (let banks = drop f (take (Suc l) (flash_info st))
                      in do { p \<leftarrow> protected_banks addr end banks;
                              if p then Some (ERR_PROTECTED, st)
                              else write_banks prog src addr cnt banks st })
                 | _ \<Rightarrow> Some (ERR_INVAL, st)) })"

definition flash_perror :: "int \<Rightarrow> 'a console_scheme \<Rightarrow> 'a console_scheme option" where
  "flash_perror err st =
     (if err = ERR_OK then Some st
      else if err = ERR_TIMOUT then puts (cstr (''Timeout writing to Flash'' @ [CHR 0x0A])) st
      else if err = ERR_NOT_ERASED then puts (cstr (''Flash not Erased'' @ [CHR 0x0A])) st
      else if err = ERR_PROTECTED then
        puts (cstr (''Can'' @ [CHR 0x27] @ ''t write to protected Flash sectors'' @ [CHR 0x0A])) st
      else if err = ERR_INVAL then puts (cstr (''Outside available Flash'' @ [CHR 0x0A])) st
      else if err = ERR_ALIGN then
        puts (cstr (''Start and/or end address not on sector boundary'' @ [CHR 0x0A])) st
      else if err = ERR_UNKNOWN_FLASH_VENDOR then puts (cstr (''Unknown Vendor of Flash'' @ [CHR 0x0A])) st
      else if err = ERR_UNKNOWN_FLASH_TYPE then puts (cstr (''Unknown Type of Flash'' @ [CHR 0x0A])) st
      else if err = ERR_PROG_ERROR then puts (cstr (''General Flash Programming Error'' @ [CHR 0x0A])) st
      else printf (''%s[%d] FIXME: rc=%d'' @ [CHR 0x0A])
             [VStr (Some (cstr ''flash.c'')), VWord 221, VWord (of_int err)] st)"

end
