(* ===== verification/Flash_Cmd.thy ===== *)
theory Flash_Cmd
  imports Flash Command
begin

text \<open>
  The flash commands (\<open>common/cmd_flash.c\<close>) over the sector table, the erase routine of the board
  (\<open>board/as3310/flash.c\<close>), and \<open>saveenv\<close> (\<open>common/env_flash.c\<close>).
\<close>

section \<open>Erasing\<close>

text \<open>
  One erase cycle, given by the address of the sector: whether the chip became ready in time, and
  the memory after it.
\<close>

type_synonym erase = "u32 \<Rightarrow> (u32 \<Rightarrow> char) \<Rightarrow> bool \<times> (u32 \<Rightarrow> char)"

fun count_protected :: "flash_info_t \<Rightarrow> nat \<Rightarrow> nat \<Rightarrow> nat option" where
  "count_protected info sect 0 = Some 0"
| "count_protected info sect (Suc k) =
     do { p \<leftarrow> load (fl_protect info) sect;
          n \<leftarrow> count_protected info (Suc sect) k;
          Some (if p \<noteq> 0 then Suc n else n) }"

fun erase_sectors :: "erase \<Rightarrow> flash_info_t \<Rightarrow> nat \<Rightarrow> nat \<Rightarrow> int \<Rightarrow> machine \<Rightarrow> (int \<times> machine) option" where
  "erase_sectors er info sect 0 rcode st = Some (rcode, st)"
| "erase_sectors er info sect (Suc k) rcode st =
     do { p \<leftarrow> load (fl_protect info) sect;
          if p = 0 then
            do { a \<leftarrow> load (fl_start info) sect;
                 st \<leftarrow> printf ''Erasing sector %2d ... '' [VWord (of_nat sect)] st;
                 let (ready, m) = er a (mem st); st = st\<lparr>mem := m\<rparr>
                 in do { st \<leftarrow> (if ready then Some st else printf (''Timeout'' @ [CHR 0x0A]) [] st);
                         st \<leftarrow> printf ('' done'' @ [CHR 0x0A]) [] st;
                         erase_sectors er info (Suc sect) k (if ready then rcode else 1) st } }
          else erase_sectors er info (Suc sect) k rcode st }"

definition flash_erase :: "erase \<Rightarrow> flash_info_t \<Rightarrow> int \<Rightarrow> int \<Rightarrow> machine \<Rightarrow> (int \<times> machine) option" where
  "flash_erase er info s_first s_last st =
     (if s_first < 0 \<or> s_first > s_last then
        do { st \<leftarrow> (if flash_id info = FLASH_UNKNOWN then printf (''- missing'' @ [CHR 0x0A]) [] st
                   else printf (''- no sectors to erase'' @ [CHR 0x0A]) [] st);
             Some (1, st) }
      else if flash_id info AND FLASH_VENDMASK \<noteq> FLASH_MAN_INTEL then
        do { st \<leftarrow> printf (''Can'' @ [CHR 0x27] @ ''t erase unknown flash type %08lx - aborted'' @ [CHR 0x0A])
                     [VWord (flash_id info)] st;
             Some (1, st) }
      else
        do { prot \<leftarrow> count_protected info (nat s_first) (nat (s_last - s_first + 1));
             st \<leftarrow> (if prot \<noteq> 0 then
                      printf (''- Warning: %d protected sectors will not be erased!'' @ [CHR 0x0A])
                        [VWord (of_nat prot)] st
                    else printf [CHR 0x0A] [] st);
             erase_sectors er info (nat s_first) (nat (s_last - s_first + 1)) 0 st })"

section \<open>Sector ranges\<close>

text \<open>The sectors of one bank that start at \<open>a_first\<close> and end at \<open>a_last\<close>; -1 when there is none.\<close>

fun scan_sectors ::
  "flash_info_t \<Rightarrow> u32 \<Rightarrow> u32 \<Rightarrow> u32 \<Rightarrow> nat \<Rightarrow> nat \<Rightarrow> int \<Rightarrow> int \<Rightarrow> (int \<times> int) option" where
  "scan_sectors info a_first a_last b_end sect 0 sf sl = Some (sf, sl)"
| "scan_sectors info a_first a_last b_end sect (Suc k) sf sl =
     do { end \<leftarrow> sector_end info b_end sect;
          if a_first > end then scan_sectors info a_first a_last b_end (Suc sect) k sf sl
          else
            do { s \<leftarrow> load (fl_start info) sect;
                 if a_last < s then scan_sectors info a_first a_last b_end (Suc sect) k sf sl
                 else scan_sectors info a_first a_last b_end (Suc sect) k
                        (if a_first = s then int sect else sf) (if a_last = end then int sect else sl) } }"

text \<open>
  The banks from position \<open>bank\<close> on.  The result is \<open>rcode\<close>, the lists \<open>s_first\<close> and \<open>s_last\<close>,
  the number of sectors and the state.
\<close>

fun fill_banks ::
  "nat \<Rightarrow> flash_info_t list \<Rightarrow> u32 \<Rightarrow> u32 \<Rightarrow> int list \<Rightarrow> int list \<Rightarrow> int \<Rightarrow> 'a console_scheme \<Rightarrow>
    (int \<times> int list \<times> int list \<times> int \<times> 'a console_scheme) option" where
  "fill_banks bank [] a_first a_last sfs sls n st = Some (0, sfs, sls, n, st)"
| "fill_banks bank (info # infos) a_first a_last sfs sls n st =
     (if a_first \<le> a_last then
        if flash_id info = FLASH_UNKNOWN then fill_banks (Suc bank) infos a_first a_last sfs sls n st
        else
          do { b_end \<leftarrow> bank_end info;
               (sf, sl) \<leftarrow> scan_sectors info a_first a_last b_end 0 (sector_count info) (-1) (-1);
               let s_end = short (int (sector_count info) - 1)
               in if sf \<ge> 0 then
                    (if sl < 0 \<and> \<not> a_last > b_end then
                       do { st \<leftarrow> puts (cstr (''Error: end address not on sector boundary'' @ [CHR 0x0A])) st;
                            Some (1, sfs[bank := sf], sls[bank := sl], n, st) }
                     else
                       let sl = (if sl < 0 then s_end else sl)
                       in if sl < sf then
                            do { st \<leftarrow> puts (cstr (''Error: end sector precedes start sector'' @ [CHR 0x0A])) st;
                                 Some (1, sfs[bank := sf], sls[bank := sl], n, st) }
                          else
                            do { a_first \<leftarrow> (if sl = s_end then Some (b_end + 1)
                                          else load (fl_start info) (nat (sl + 1)));
                                 fill_banks (Suc bank) infos a_first a_last (sfs[bank := sf]) (sls[bank := sl])
                                   (n + (sl - sf + 1)) st })
                  else if sl \<ge> 0 then
                    do { st \<leftarrow> puts (cstr (''Error: cannot span across banks when they are'' @
                               '' mapped in reverse order'' @ [CHR 0x0A])) st;
                         Some (1, sfs[bank := sf], sls[bank := sl], n, st) }
                  else fill_banks (Suc bank) infos a_first a_last sfs sls n st }
      else Some (0, sfs, sls, n, st))"

definition flash_fill_sect_ranges ::
  "flash_info_t list \<Rightarrow> u32 \<Rightarrow> u32 \<Rightarrow> 'a console_scheme \<Rightarrow>
    (int \<times> int list \<times> int list \<times> int \<times> 'a console_scheme) option" where
  "flash_fill_sect_ranges infos a_first a_last st =
     fill_banks 0 infos a_first a_last (replicate (length infos) (-1)) (replicate (length infos) (-1)) 0 st"

fun erase_banks ::
  "erase \<Rightarrow> flash_info_t list \<Rightarrow> int list \<Rightarrow> int list \<Rightarrow> int \<Rightarrow> machine \<Rightarrow> (int \<times> int \<times> machine) option" where
  "erase_banks er (info # infos) (sf # sfs) (sl # sls) erased st =
     (if sf \<ge> 0 then
        do { (rcode, st) \<leftarrow> flash_erase er info sf sl st;
             if rcode = 0 then erase_banks er infos sfs sls (erased + (sl - sf + 1)) st
             else Some (rcode, erased + (sl - sf + 1), st) }
      else erase_banks er infos sfs sls erased st)"
| "erase_banks er _ _ _ erased st = Some (0, erased, st)"

definition flash_sect_erase :: "erase \<Rightarrow> u32 \<Rightarrow> u32 \<Rightarrow> machine \<Rightarrow> (int \<times> machine) option" where
  "flash_sect_erase er addr_first addr_last st =
     do { (rcode, s_first, s_last, planned, st) \<leftarrow>
            flash_fill_sect_ranges (flash_info st) addr_first addr_last st;
          if planned \<noteq> 0 \<and> rcode = 0 then
            do { (rcode, erased, st) \<leftarrow> erase_banks er (flash_info st) s_first s_last 0 st;
                 st \<leftarrow> printf (''Erased %d sectors'' @ [CHR 0x0A]) [VWord (of_int erased)] st;
                 Some (rcode, st) }
          else if rcode = 0 then
            do { st \<leftarrow> puts (cstr (''Error: start and/or end address not on sector boundary'' @ [CHR 0x0A])) st;
                 Some (1, st) }
          else Some (rcode, st) }"

section \<open>Protecting\<close>

fun protect_sectors :: "nat \<Rightarrow> nat \<Rightarrow> nat \<Rightarrow> flash_info_t \<Rightarrow> flash_info_t option" where
  "protect_sectors p i 0 info = Some info"
| "protect_sectors p i (Suc k) info =
     do { l \<leftarrow> store (fl_protect info) i p;
          protect_sectors p (Suc i) k (info\<lparr>fl_protect := l\<rparr>) }"

fun protect_banks ::
  "nat \<Rightarrow> flash_info_t list \<Rightarrow> int list \<Rightarrow> int list \<Rightarrow> int \<Rightarrow> (flash_info_t list \<times> int) option" where
  "protect_banks p (info # infos) (sf # sfs) (sl # sls) n =
     (if flash_id info \<noteq> FLASH_UNKNOWN \<and> sf \<ge> 0 \<and> sf \<le> sl then
        do { info \<leftarrow> protect_sectors p (nat sf) (nat (sl - sf + 1)) info;
             (infos, n) \<leftarrow> protect_banks p infos sfs sls (n + (sl - sf + 1));
             Some (info # infos, n) }
      else
        do { (infos, n) \<leftarrow> protect_banks p infos sfs sls n;
             Some (info # infos, n) })"
| "protect_banks p infos _ _ n = Some (infos, n)"

definition un :: "nat \<Rightarrow> buf option" where
  "un p = Some (cstr (if p \<noteq> 0 then [] else ''Un-''))"

definition flash_sect_protect :: "nat \<Rightarrow> u32 \<Rightarrow> u32 \<Rightarrow> machine \<Rightarrow> (int \<times> machine) option" where
  "flash_sect_protect p addr_first addr_last st =
     do { (rcode, s_first, s_last, planned, st) \<leftarrow>
            flash_fill_sect_ranges (flash_info st) addr_first addr_last st;
          if planned \<noteq> 0 \<and> rcode = 0 then
            do { (infos, n) \<leftarrow> protect_banks p (flash_info st) s_first s_last 0;
                 st \<leftarrow> printf (''%sProtected %d sectors'' @ [CHR 0x0A]) [VStr (un p), VWord (of_int n)]
                        (st\<lparr>flash_info := infos\<rparr>);
                 Some (rcode, st) }
          else if rcode = 0 then
            do { st \<leftarrow> puts (cstr (''Error: start and/or end address not on sector boundary'' @ [CHR 0x0A])) st;
                 Some (1, st) }
          else Some (rcode, st) }"

section \<open>The commands\<close>

text \<open>
  \<open>B:SF[-SL]\<close>: \<open>None\<close> inside when there is no colon, \<open>Some None\<close> for an error, else the bank
  (from 0) and the sectors.
\<close>

definition number_at :: "buf \<Rightarrow> (int \<times> bool) option" where
  "number_at s =
     do { (v, k) \<leftarrow> simple_strtoul s 10;
          c \<leftarrow> load s k;
          Some (sint v, k = 0 \<or> c \<noteq> NUL) }"

definition abbrev_spec :: "flash_info_t list \<Rightarrow> buf \<Rightarrow> (nat \<times> int \<times> int) option option option" where
  "abbrev_spec infos str =
     do { p \<leftarrow> strchr str (CHR '':'');
          (case p of
             None \<Rightarrow> Some None
           | Some k \<Rightarrow>
               do { (bank, bad) \<leftarrow> number_at (take k str @ [NUL]);
                    if bad \<or> bank < 1 \<or> bank > int (length infos) then Some (Some None)
                    else
                      let fp = infos ! nat (bank - 1); str = drop (Suc k) str
                      in if flash_id fp = FLASH_UNKNOWN then Some (Some None)
                         else
                           do { q \<leftarrow> strchr str (CHR ''-'');
                                (sect_first, bad) \<leftarrow> number_at (case q of None \<Rightarrow> str | Some j \<Rightarrow> take j str @ [NUL]);
                                if bad \<or> sect_first \<ge> int (sector_count fp) then Some (Some None)
                                else
                                  (case q of
                                     None \<Rightarrow> Some (Some (Some (nat (bank - 1), sect_first, sect_first)))
                                   | Some j \<Rightarrow>
                                       do { (sect_last, bad) \<leftarrow> number_at (drop (Suc j) str);
                                            if bad \<or> sect_last < sect_first \<or> sect_last \<ge> int (sector_count fp)
                                            then Some (Some None)
                                            else Some (Some (Some (nat (bank - 1), sect_first, sect_last))) }) } }) }"

definition print_usage :: "cmd_tbl \<Rightarrow> 'a console_scheme \<Rightarrow> 'a console_scheme option" where
  "print_usage cmdtp st =
     printf (''Usage:'' @ [CHR 0x0A] @ ''%s'' @ [CHR 0x0A]) [VStr (map_option cstr (cmd_usage cmdtp))] st"

definition bad_bank :: "machine \<Rightarrow> machine option" where
  "bad_bank st = printf (''Only FLASH Banks # 1 ... # %d supported'' @ [CHR 0x0A])
                   [VWord (of_nat (length (flash_info st)))] st"

fun erase_all :: "erase \<Rightarrow> nat \<Rightarrow> flash_info_t list \<Rightarrow> int \<Rightarrow> machine \<Rightarrow> (int \<times> machine) option" where
  "erase_all er bank [] rcode st = Some (rcode, st)"
| "erase_all er bank (info # infos) rcode st =
     do { st \<leftarrow> printf ''Erase Flash Bank # %ld '' [VWord (of_nat bank)] st;
          (rcode, st) \<leftarrow> flash_erase er info 0 (int (sector_count info) - 1) st;
          erase_all er (Suc bank) infos rcode st }"

definition do_flerase :: "erase \<Rightarrow> cmd_tbl \<Rightarrow> buf list \<Rightarrow> machine \<Rightarrow> (int \<times> machine) option" where
  "do_flerase er cmdtp argv st =
     (if length argv < 2 then do { st \<leftarrow> print_usage cmdtp st; Some (1, st) }
      else
        do { all \<leftarrow> streq (argv ! 1) ''all'';
             if all then erase_all er 1 (flash_info st) 0 st
             else
               do { n \<leftarrow> abbrev_spec (flash_info st) (argv ! 1);
                    (case n of
                       Some None \<Rightarrow>
                         do { st \<leftarrow> puts (cstr (''Bad sector specification'' @ [CHR 0x0A])) st; Some (1, st) }
                     | Some (Some (b, sect_first, sect_last)) \<Rightarrow>
                         do { st \<leftarrow> printf ''Erase Flash Sectors %d-%d in Bank # %d ''
                                      [VWord (of_int sect_first), VWord (of_int sect_last), VWord (of_nat (Suc b))] st;
                              info \<leftarrow> load (flash_info st) b;
                              flash_erase er info sect_first sect_last st }
                     | None \<Rightarrow>
                         if length argv \<noteq> 3 then do { st \<leftarrow> print_usage cmdtp st; Some (1, st) }
                         else
                           do { bank_word \<leftarrow> streq (argv ! 1) ''bank'';
                                if bank_word then
                                  do { (bank, _) \<leftarrow> simple_strtoul (argv ! 2) 16;
                                       if bank < 1 \<or> bank > of_nat (length (flash_info st)) then
                                         do { st \<leftarrow> bad_bank st; Some (1, st) }
                                       else
                                         do { st \<leftarrow> printf ''Erase Flash Bank # %ld '' [VWord bank] st;
                                              info \<leftarrow> load (flash_info st) (unat bank - 1);
                                              flash_erase er info 0 (int (sector_count info) - 1) st } }
                                else
                                  do { (addr_first, _) \<leftarrow> simple_strtoul (argv ! 1) 16;
                                       (addr_last, _) \<leftarrow> simple_strtoul (argv ! 2) 16;
                                       if addr_first \<ge> addr_last then
                                         do { st \<leftarrow> print_usage cmdtp st; Some (1, st) }
                                       else flash_sect_erase er addr_first addr_last st } }) } })"

fun protect_all ::
  "nat \<Rightarrow> nat \<Rightarrow> flash_info_t list \<Rightarrow> 'a console_scheme \<Rightarrow> (flash_info_t list \<times> 'a console_scheme) option" where
  "protect_all p bank [] st = Some ([], st)"
| "protect_all p bank (info # infos) st =
     (if flash_id info = FLASH_UNKNOWN then
        map_option (\<lambda>(l, st). (info # l, st)) (protect_all p (Suc bank) infos st)
      else
        do { st \<leftarrow> printf (''%sProtect Flash Bank # %ld'' @ [CHR 0x0A]) [VStr (un p), VWord (of_nat bank)] st;
             info \<leftarrow> protect_sectors p 0 (sector_count info) info;
             (l, st) \<leftarrow> protect_all p (Suc bank) infos st;
             Some (info # l, st) })"

definition set_bank :: "nat \<Rightarrow> flash_info_t \<Rightarrow> machine \<Rightarrow> machine" where
  "set_bank b info st = st\<lparr>flash_info := (flash_info st)[b := info]\<rparr>"

definition protect_range :: "nat \<Rightarrow> cmd_tbl \<Rightarrow> buf list \<Rightarrow> machine \<Rightarrow> (int \<times> machine) option" where
  "protect_range p cmdtp argv st =
     (if length argv \<noteq> 4 then do { st \<leftarrow> print_usage cmdtp st; Some (1, st) }
      else
        do { bank_word \<leftarrow> streq (argv ! 2) ''bank'';
             if bank_word then
               do { (bank, _) \<leftarrow> simple_strtoul (argv ! 3) 16;
                    if bank < 1 \<or> bank > of_nat (length (flash_info st)) then
                      do { st \<leftarrow> bad_bank st; Some (1, st) }
                    else
                      do { st \<leftarrow> printf (''%sProtect Flash Bank # %ld'' @ [CHR 0x0A])
                                   [VStr (un p), VWord bank] st;
                           info \<leftarrow> load (flash_info st) (unat bank - 1);
                           if flash_id info = FLASH_UNKNOWN then
                             do { st \<leftarrow> puts (cstr (''missing or unknown FLASH type'' @ [CHR 0x0A])) st;
                                  Some (1, st) }
                           else
                             do { info \<leftarrow> protect_sectors p 0 (sector_count info) info;
                                  Some (0, set_bank (unat bank - 1) info st) } } }
             else
               do { (addr_first, _) \<leftarrow> simple_strtoul (argv ! 2) 16;
                    (addr_last, _) \<leftarrow> simple_strtoul (argv ! 3) 16;
                    if addr_first \<ge> addr_last then do { st \<leftarrow> print_usage cmdtp st; Some (1, st) }
                    else flash_sect_protect p addr_first addr_last st } })"

definition do_protect :: "cmd_tbl \<Rightarrow> buf list \<Rightarrow> machine \<Rightarrow> (int \<times> machine) option" where
  "do_protect cmdtp argv st =
     (if length argv < 3 then do { st \<leftarrow> print_usage cmdtp st; Some (1, st) }
      else
        do { off \<leftarrow> streq (argv ! 1) ''off'';
             on \<leftarrow> streq (argv ! 1) ''on'';
             if \<not> off \<and> \<not> on then do { st \<leftarrow> print_usage cmdtp st; Some (1, st) }
             else
               let p = (if off then 0 else 1)
               in do { all \<leftarrow> streq (argv ! 2) ''all'';
                       if all then
                         do { (l, st) \<leftarrow> protect_all p 1 (flash_info st) st;
                              Some (0, st\<lparr>flash_info := l\<rparr>) }
                       else
                         do { n \<leftarrow> abbrev_spec (flash_info st) (argv ! 2);
                              (case n of
                                 Some None \<Rightarrow>
                                   do { st \<leftarrow> puts (cstr (''Bad sector specification'' @ [CHR 0x0A])) st;
                                        Some (1, st) }
                               | Some (Some (b, sect_first, sect_last)) \<Rightarrow>
                                   do { st \<leftarrow> printf (''%sProtect Flash Sectors %d-%d in Bank # %d'' @ [CHR 0x0A])
                                                [VStr (un p), VWord (of_int sect_first), VWord (of_int sect_last),
                                                 VWord (of_nat (Suc b))] st;
                                        info \<leftarrow> load (flash_info st) b;
                                        info \<leftarrow> (if sect_first < 0 then None else Some info);
                                        info \<leftarrow> protect_sectors p (nat sect_first) (nat (sect_last - sect_first + 1)) info;
                                        Some (0, set_bank b info st) }
                               | None \<Rightarrow> protect_range p cmdtp argv st) } } })"

section \<open>Saving the environment\<close>

definition CFG_ENV_ADDR :: u32 where "CFG_ENV_ADDR = 0x020000"

text \<open>
  The bytes of an \<open>env_t\<close>, and the \<open>env_t\<close> in the flash with a data area of \<open>n\<close> bytes.  The
  component \<open>flash_env\<close> of the board is the image at \<open>CFG_ENV_ADDR\<close>, which writing changes.
\<close>

definition env_bytes :: "env_t \<Rightarrow> buf" where
  "env_bytes e = le32 (crc e) @ edata e"

definition mem_bytes :: "(u32 \<Rightarrow> char) \<Rightarrow> u32 \<Rightarrow> nat \<Rightarrow> buf" where
  "mem_bytes m a n = map (\<lambda>i. m (a + of_nat i)) [0..<n]"

definition env_at :: "(u32 \<Rightarrow> char) \<Rightarrow> u32 \<Rightarrow> nat \<Rightarrow> env_t" where
  "env_at m a n =
     \<lparr>crc = the (rd_le32 (mem_bytes m a 4)), edata = mem_bytes m (a + 4) n\<rparr>"

definition sync_env :: "machine \<Rightarrow> machine" where
  "sync_env st = st\<lparr>flash_env := env_at (mem st) CFG_ENV_ADDR (length (edata (flash_env st)))\<rparr>"

text \<open>\<open>env_ptr\<close> points to the RAM copy, or to the flash itself before the relocation.\<close>

definition env_buffer :: "machine \<Rightarrow> buf" where
  "env_buffer st =
     (if env_in_ram st then env_bytes (ram_env st)
      else mem_bytes (mem st) CFG_ENV_ADDR (length (edata (flash_env st)) + 4))"

definition saveenv :: "program \<Rightarrow> erase \<Rightarrow> machine \<Rightarrow> (int \<times> machine) option" where
  "saveenv prog er st =
     (let flash_sect_addr = CFG_ENV_ADDR; len = of_nat (length (edata (flash_env st)) + 4);
          end_addr = flash_sect_addr + len - 1
      in do { (r, st) \<leftarrow> flash_sect_protect 0 flash_sect_addr end_addr st;
              if r \<noteq> 0 then Some (1, st)
              else
                do { st \<leftarrow> puts (cstr ''Erasing Flash...'') st;
                     (r, st) \<leftarrow> flash_sect_erase er flash_sect_addr end_addr st;
                     if r \<noteq> 0 then Some (1, sync_env st)
                     else
                       do { st \<leftarrow> puts (cstr ''Writing to Flash... '') st;
                            (rc, st) \<leftarrow> flash_write prog (env_buffer st) flash_sect_addr len st;
                            st \<leftarrow> (if rc \<noteq> 0 then flash_perror rc st
                                  else puts (cstr (''done'' @ [CHR 0x0A])) st);
                            (_, st) \<leftarrow> flash_sect_protect 1 flash_sect_addr end_addr st;
                            Some (if rc \<noteq> 0 then 1 else 0, sync_env st) } } })"

definition do_saveenv :: "program \<Rightarrow> erase \<Rightarrow> machine \<Rightarrow> (int \<times> machine) option" where
  "do_saveenv prog er st =
     do { st \<leftarrow> printf (''Saving Environment to %s...'' @ [CHR 0x0A]) [VStr (Some (cstr ''Flash''))] st;
          (r, st) \<leftarrow> saveenv prog er st;
          Some (if r \<noteq> 0 then 1 else 0, st) }"

end
