(* ===== verification/Flash_Props.thy ===== *)
theory Flash_Props
  imports Flash_Cmd
begin

text \<open>
  Programming through the halfword-wide port changes exactly the addressed bytes; protection is
  changed for exactly the sectors that overlap a range; protected sectors are not written; and an
  environment that has been saved is the one that the next start finds.
\<close>

section \<open>The two bytes of a halfword\<close>

lemma bit_code: "bit (code c) n \<Longrightarrow> n < 8"
proof (rule ccontr)
  assume "bit (code c) n" "\<not> n < 8"
  then have "(256 :: nat) \<le> 2 ^ n" using power_increasing [of 8 n "2 :: nat"] by simp
  then have "code c < 2 ^ n" using nat_of_char_less_256 [of c] by linarith
  then have "code c div 2 ^ n = 0" by (rule div_less)
  then show False using \<open>bit (code c) n\<close> by (simp add: bit_iff_odd)
qed

lemma bit_of_char_word: "bit (of_char c :: u16) n \<longleftrightarrow> n < 8 \<and> bit (code c) n"
proof -
  have "bit (of_nat (code c) :: u16) n \<longleftrightarrow> n < 16 \<and> bit (code c) n"
    by (simp add: bit_simps possible_bit_def)
  then show ?thesis using bit_code [of c n] by (auto simp: of_nat_of_char)
qed

lemma bit_255: "bit (255 :: nat) n \<longleftrightarrow> n < 8"
proof -
  have "(255 :: nat) = mask 8" by (simp add: mask_eq_exp_minus_1)
  then show ?thesis by (simp only: bit_mask_iff) (simp add: possible_bit_def)
qed

text \<open>The halfword with the bytes \<open>lo\<close> and \<open>hi\<close>.\<close>

definition pair :: "char \<Rightarrow> char \<Rightarrow> u16" where
  "pair lo hi = of_char lo OR push_bit 8 (of_char hi)"

lemma bit_pair: "bit (pair lo hi) n \<longleftrightarrow> (n < 8 \<and> bit (code lo) n) \<or> (8 \<le> n \<and> n < 16 \<and> bit (code hi) (n - 8))"
  using bit_code [of hi "n - 8"]
  by (auto simp: pair_def bit_or_iff bit_push_bit_iff bit_of_char_word)

lemma halfword_pair: "halfword_at m a = pair (m a) (m (a + 1))"
  by (simp add: halfword_at_def pair_def)

lemma swab16_masks:
  assumes "\<And>k. bit m1 k \<longleftrightarrow> k < 8" "\<And>k. bit m2 k \<longleftrightarrow> 8 \<le> k \<and> k < 16"
  shows "push_bit 8 ((push_bit 8 (of_char c0) OR of_char c1) AND m1) OR
    drop_bit 8 ((push_bit 8 (of_char c0) OR of_char c1) AND m2) = pair c0 c1"
  by (rule bit_word_eqI) (auto simp: bit_pair bit_or_iff bit_and_iff bit_push_bit_iff bit_drop_bit_eq
        bit_of_char_word assms dest: bit_code)

lemma swab_pair: "swab16 (push_bit 8 (of_char c0) OR of_char c1) = pair c0 c1"
  unfolding swab16_def
proof (rule swab16_masks)
  have "(0xff :: u16) = mask 8" by (simp add: mask_eq_exp_minus_1)
  then have m1: "bit (0xff :: u16) k \<longleftrightarrow> k < 8" for k
    by (simp only: bit_mask_iff) (auto simp: possible_bit_def)
  then show "bit (0x00ff :: u16) k \<longleftrightarrow> k < 8" for k .
  have "(0xff00 :: u16) = push_bit 8 0xff" by (simp add: push_bit_eq_mult)
  then show "bit (0xff00 :: u16) k \<longleftrightarrow> 8 \<le> k \<and> k < 16" for k
    by (simp only: bit_push_bit_iff m1) (auto simp: possible_bit_def)
qed

lemma pair_and: "lo' = CHR 0xFF \<or> lo' = lo \<Longrightarrow> hi' = CHR 0xFF \<or> hi' = hi \<Longrightarrow>
    pair lo' hi' AND pair lo hi = pair lo hi"
  by (rule bit_word_eqI) (auto simp: bit_and_iff bit_pair bit_255)

text \<open>
  What the data sheet of the chip promises: a halfword whose bits are at most cleared is
  programmed, and nothing else changes.
\<close>

definition put_halfword :: "(u32 \<Rightarrow> char) \<Rightarrow> u32 \<Rightarrow> u16 \<Rightarrow> u32 \<Rightarrow> char" where
  "put_halfword m a d = m(a := char_of (unat d), a + 1 := char_of (unat d div 256))"

definition nor_program :: "program \<Rightarrow> bool" where
  "nor_program prog \<longleftrightarrow> (\<forall>a d m. halfword_at m a AND d = d \<longrightarrow> prog a d m = (True, put_halfword m a d))"

lemma unat_pair: "unat (pair lo hi) = code lo + 256 * code hi"
proof -
  have d: "(of_char lo :: u16) AND push_bit 8 (of_char hi) = 0"
    by (rule bit_word_eqI) (auto simp: bit_and_iff bit_push_bit_iff bit_of_char_word)
  have "pair lo hi = of_char lo + push_bit 8 (of_char hi)"
    unfolding pair_def using d by (simp add: disjunctive_add_eq_or)
  also have "\<dots> = of_nat (code lo + 256 * code hi)"
    by (simp add: push_bit_eq_mult of_nat_of_char)
  finally have p: "pair lo hi = of_nat (code lo + 256 * code hi)" .
  have "code lo + 256 * code hi < 65536"
    using nat_of_char_less_256 [of lo] nat_of_char_less_256 [of hi] by linarith
  then show ?thesis by (simp add: p unat_of_nat del: of_nat_add of_nat_mult)
qed

lemma put_pair: "put_halfword m a (pair lo hi) = m(a := lo, a + 1 := hi)"
proof -
  have "char_of (code lo + 256 * code hi) = lo"
  proof -
    have "(char_of (code lo + 256 * code hi) :: char) = char_of ((code lo + 256 * code hi) mod 256)"
      by (simp only: char_of_mod_256)
    also have "(code lo + 256 * code hi) mod 256 = code lo" using nat_of_char_less_256 [of lo] by simp
    finally show ?thesis by simp
  qed
  then show ?thesis by (simp add: put_halfword_def unat_pair)
qed

section \<open>Programming a range\<close>

lemma overlay_Nil [simp]: "overlay m a [] = m"
  by (simp add: overlay_def)

lemma unat_minus_Suc: "(y :: u32) \<noteq> 0 \<Longrightarrow> unat y = Suc (unat (y - 1))"
  using unat_minus_one [of y] by (simp add: unat_gt_0)

lemma unat_minus_one_word_u32: "unat (- 1 :: u32) = 2 ^ 32 - 1"
  by (simp add: unsigned_minus_1_eq_mask mask_eq_exp_minus_1)

lemma overlay_Cons:
  assumes "length (c # bs) \<le> 2 ^ 32"
  shows "overlay m a (c # bs) = overlay (m(a := c)) (a + 1) bs"
proof (rule ext)
  fix x
  show "overlay m a (c # bs) x = overlay (m(a := c)) (a + 1) bs x"
  proof (cases "x = a")
    case True
    have "unat (- 1 :: u32) = 2 ^ 32 - 1" by (simp add: unat_minus_one_word_u32)
    then show ?thesis using True assms by (simp add: overlay_def)
  next
    case False
    then have "unat (x - a) = Suc (unat (x - (a + 1)))"
      using unat_minus_Suc [of "x - a"] by (simp add: algebra_simps)
    then show ?thesis using False by (simp add: overlay_def)
  qed
qed

lemma overlay_append:
  "length (bs @ cs) \<le> 2 ^ 32 \<Longrightarrow>
   overlay m a (bs @ cs) = overlay (overlay m a bs) (a + of_nat (length bs)) cs"
proof (induction bs arbitrary: m a)
  case (Cons b bs)
  then show ?case by (simp add: overlay_Cons [of b] add.assoc)
qed simp

lemma overlay_outside: "length bs \<le> i \<Longrightarrow> i < 2 ^ 32 \<Longrightarrow> overlay m a bs (a + of_nat i) = m (a + of_nat i)"
  by (simp add: overlay_def unat_of_nat)

lemma overlay_inside: "i < length bs \<Longrightarrow> i < 2 ^ 32 \<Longrightarrow> overlay m a bs (a + of_nat i) = bs ! i"
  by (simp add: overlay_def unat_of_nat)

text \<open>Output and the wheel may change besides the memory.\<close>

definition writing :: "machine \<Rightarrow> (u32 \<Rightarrow> char) \<Rightarrow> machine \<Rightarrow> bool" where
  "writing st m st' \<longleftrightarrow> (\<exists>tx w. w < 3 \<and> st' = st\<lparr>serial_tx := tx, mem := m, wheel := w\<rparr>)"

lemma writing_mem: "writing st m st' \<Longrightarrow> mem st' = m"
  by (auto simp: writing_def)

lemma writing_devinit: "writing st m st' \<Longrightarrow> devinit st' = devinit st"
  by (auto simp: writing_def devinit_def)

lemma writing_wheel: "writing st m st' \<Longrightarrow> wheel st' < 3"
  by (auto simp: writing_def)

lemma writing_refl: "wheel st < 3 \<Longrightarrow> writing st (mem st) st"
  unfolding writing_def by (rule exI [of _ "serial_tx st"], rule exI [of _ "wheel st"]) simp

lemma writing_trans: "writing st m st' \<Longrightarrow> writing st' m' st'' \<Longrightarrow> writing st m' st''"
  unfolding writing_def by (elim exE conjE) (rule exI, rule exI, erule conjI, simp)

lemma write_data_ok:
  assumes "nor_program prog" "lo' = CHR 0xFF \<or> lo' = lo" "hi' = CHR 0xFF \<or> hi' = hi"
    "mem st wp = lo'" "mem st (wp + 1) = hi'" "wheel st < 3"
  shows "\<exists>st'. write_data prog wp (pair lo hi) st = Some (0, st') \<and>
    writing st ((mem st)(wp := lo, wp + 1 := hi)) st'"
proof -
  have a: "halfword_at (mem st) wp AND pair lo hi = pair lo hi"
    using assms by (simp add: halfword_pair pair_and)
  then have "prog wp (pair lo hi) (mem st) = (True, (mem st)(wp := lo, wp + 1 := hi))"
    using assms(1) by (simp add: nor_program_def put_pair)
  then show ?thesis using a assms(6)
    by (auto simp: write_data_def writing_def intro!: exI [of _ "serial_tx st"] exI [of _ "wheel st"])
qed


lemma spin_wheel_ok: "\<not> devinit st \<Longrightarrow> wheel st < 3 \<Longrightarrow> \<exists>st'. spin_wheel st = Some st' \<and> writing st (mem st) st'"
proof -
  assume a: "\<not> devinit st" "wheel st < 3"
  let ?w = "[CHR 0x5C, CHR ''/'', CHR ''-'', NUL]"
  have c: "load ?w (wheel st) = Some (?w ! wheel st)" "?w ! wheel st \<noteq> NUL"
    using a(2) by (auto simp: less_Suc_eq numeral_3_eq_3)
  have "vsprintf_loop (cstr ([CHR 0x08] @ ''%c'')) [VWord (of_nat (code (?w ! wheel st)))] [] [] =
      Some ([CHR 0x08, ?w ! wheel st], [])" if "wheel st = i" "i < 3" for i
    using that by (auto simp: less_Suc_eq numeral_3_eq_3) (code_simp+)
  then have p: "printf ([CHR 0x08] @ ''%c'') [VWord (of_nat (code (?w ! wheel st)))] st =
      Some (st\<lparr>serial_tx := serial_tx st @ on_wire [CHR 0x08, ?w ! wheel st]\<rparr>)"
    using a c(2) by (intro printf_serial) (simp_all add: CFG_PBSIZE_def)
  show ?thesis
    unfolding spin_wheel_def c(1) bind.bind_lunit p writing_def
    by (rule exI, rule conjI, rule refl, rule exI [of _ "serial_tx st @ on_wire [CHR 0x08, ?w ! wheel st]"],
        rule exI [of _ "if Suc (wheel st) = 3 then 0 else Suc (wheel st)"]) (use a(2) in simp)
qed

lemma erased_pair:
  assumes "\<forall>i < n. m (wp + of_nat i) = CHR 0xFF" "2 \<le> n"
  shows "m wp = CHR 0xFF" "m (wp + 1) = CHR 0xFF"
  using assms(1) [rule_format, of 0] assms(1) [rule_format, of 1] assms(2) by simp_all

lemma erased_rest:
  fixes wp :: u32
  assumes "\<forall>i < n. m (wp + of_nat i) = CHR 0xFF" "2 \<le> n" "n < 2 ^ 32"
  shows "\<forall>i < n - 2. (m(wp := a, wp + 1 := b)) (wp + 2 + of_nat i) = CHR 0xFF"
proof (intro allI impI)
  fix i assume i: "i < n - 2"
  have e: "wp + 2 + of_nat i = wp + of_nat (i + 2)" by simp
  have "i + 2 < 2 ^ 32" using i assms(3) by linarith
  then have "unat (of_nat (i + 2) :: u32) = i + 2" by (subst unat_of_nat) simp
  then have "(of_nat (i + 2) :: u32) \<noteq> 0" "(of_nat (i + 2) :: u32) \<noteq> 1" by (metis unat_0 add_is_0 zero_neq_numeral)
    (metis \<open>unat (of_nat (i + 2) :: u32) = i + 2\<close> unat_1 add_2_eq_Suc' nat.inject zero_neq_one numeral_1_eq_Suc_0 numerals(1) Zero_not_Suc One_nat_def)
  then have "wp + 2 + of_nat i \<noteq> wp" "wp + 2 + of_nat i \<noteq> wp + 1"
    unfolding e by (metis add_cancel_left_right) (metis \<open>(of_nat (i + 2) :: u32) \<noteq> 1\<close> add_left_cancel)
  moreover have "m (wp + 2 + of_nat i) = CHR 0xFF" unfolding e
  proof -
    have "i + 2 < n" using i by arith
    then show "m (wp + of_nat (i + 2)) = CHR 0xFF" using assms(1) by blast
  qed
  ultimately show "(m(wp := a, wp + 1 := b)) (wp + 2 + of_nat i) = CHR 0xFF" by simp
qed

lemma write_words_ok:
  assumes "nor_program prog"
  shows "\<lbrakk>\<not> devinit st; wheel st < 3; cnt \<le> length src; cnt < 2 ^ 32;
      \<forall>i < cnt. mem st (wp + of_nat i) = CHR 0xFF\<rbrakk> \<Longrightarrow>
    \<exists>st'. write_words prog cn wp src cnt st =
        Some (0, wp + of_nat (2 * (cnt div 2)), drop (2 * (cnt div 2)) src, cnt mod 2, st') \<and>
      writing st (overlay (mem st) wp (take (2 * (cnt div 2)) src)) st'"
proof (induction cnt arbitrary: cn wp src st rule: less_induct)
  case (less cnt)
  show ?case
  proof (cases "cnt \<ge> 2")
    case False
    then have "cnt div 2 = 0" "cnt mod 2 = cnt" by auto
    then show ?thesis using False writing_refl [OF less.prems(2)] by (subst write_words.simps) simp
  next
    case True
    then obtain c0 c1 src' where src: "src = c0 # c1 # src'"
      using less.prems(3) by (cases src; cases "tl src") auto
    have data: "src_bytes 2 src cnt 0 = Some (0, src', cnt - 2, push_bit 8 (of_char c0) OR of_char c1)"
      using True src by (simp add: numeral_2_eq_2)
    have ff: "mem st wp = CHR 0xFF" "mem st (wp + 1) = CHR 0xFF" using erased_pair [OF less.prems(5) True] .
    obtain st1 where st1: "write_data prog wp (pair c0 c1) st = Some (0, st1)"
      "writing st ((mem st)(wp := c0, wp + 1 := c1)) st1"
      using write_data_ok [OF assms _ _ ff less.prems(2), of c0 c1] by auto
    obtain st2 cnt2 where st2: "write_words prog cn wp src cnt st =
        write_words prog cnt2 (wp + 2) src' (cnt - 2) st2" "writing st1 (mem st1) st2"
    proof (cases "cn > 0x800")
      case True
      obtain st2 where "spin_wheel st1 = Some st2" "writing st1 (mem st1) st2"
        using spin_wheel_ok [of st1] less.prems(1) writing_devinit [OF st1(2)] writing_wheel [OF st1(2)] by auto
      moreover from this have "write_words prog cn wp src cnt st = write_words prog 0 (wp + 2) src' (cnt - 2) st2"
        using True \<open>cnt \<ge> 2\<close> data st1(1)
        by (subst write_words.simps [of prog cn wp src cnt st]) (simp add: swab_pair)
      ultimately show ?thesis using that by blast
    next
      case False
      then have "write_words prog cn wp src cnt st = write_words prog (Suc cn) (wp + 2) src' (cnt - 2) st1"
        using \<open>cnt \<ge> 2\<close> data st1(1)
        by (subst write_words.simps [of prog cn wp src cnt st]) (simp add: swab_pair)
      then show ?thesis using that writing_refl [OF writing_wheel [OF st1(2)]] by blast
    qed
    have m2: "mem st2 = (mem st)(wp := c0, wp + 1 := c1)"
      using writing_mem [OF st2(2)] writing_mem [OF st1(2)] by simp
    have w2: "writing st (mem st2) st2" using writing_trans [OF st1(2) st2(2)] m2 writing_mem [OF st1(2)] by simp
    have "\<exists>st'. write_words prog cnt2 (wp + 2) src' (cnt - 2) st2 =
        Some (0, wp + 2 + of_nat (2 * ((cnt - 2) div 2)), drop (2 * ((cnt - 2) div 2)) src', (cnt - 2) mod 2, st') \<and>
      writing st2 (overlay (mem st2) (wp + 2) (take (2 * ((cnt - 2) div 2)) src')) st'"
    proof (rule less.IH)
      show "\<forall>i < cnt - 2. mem st2 (wp + 2 + of_nat i) = CHR 0xFF"
        unfolding m2 using erased_rest [OF less.prems(5) True less.prems(4)] .
    qed (use True less.prems src writing_devinit [OF w2] writing_wheel [OF w2] in simp_all)
    then obtain st' where st': "write_words prog cnt2 (wp + 2) src' (cnt - 2) st2 =
        Some (0, wp + 2 + of_nat (2 * ((cnt - 2) div 2)), drop (2 * ((cnt - 2) div 2)) src', (cnt - 2) mod 2, st')"
      "writing st2 (overlay (mem st2) (wp + 2) (take (2 * ((cnt - 2) div 2)) src')) st'" by blast
    have d: "2 * (cnt div 2) = Suc (Suc (2 * ((cnt - 2) div 2)))" "cnt mod 2 = (cnt - 2) mod 2"
      using True by (simp_all add: le_div_geq le_mod_geq)
    have len: "length (take (2 * (cnt div 2)) src) \<le> 2 ^ 32" using less.prems(4) by simp
    have "overlay (mem st) wp (take (2 * (cnt div 2)) src) =
        overlay (mem st2) (wp + 2) (take (2 * ((cnt - 2) div 2)) src')"
      using len unfolding d src by (simp add: overlay_Cons m2 add.commute [of 2])
    then show ?thesis using st2(1) st' d src writing_trans [OF w2 st'(2)] by (simp add: algebra_simps)
  qed
qed


lemma and_split: "(x AND NOT 1) + (x AND 1) = (x :: u32)"
proof -
  have "(x AND NOT 1) AND (x AND 1) = (x AND x) AND (1 AND NOT 1)"
    by (simp only: and.assoc and.commute and.left_commute)
  then have "(x AND NOT 1) AND (x AND 1) = 0" by (simp only: bit.conj_cancel_right bit.conj_zero_right)
  then have "(x AND NOT 1) + (x AND 1) = (x AND NOT 1) OR (x AND 1)" by (rule disjunctive_add_eq_or)
  also have "\<dots> = x"
    by (rule bit_word_eqI) (auto simp: bit_and_iff bit_or_iff bit_not_iff bit_1_iff simp del: not_one_eq)
  finally show ?thesis .
qed

lemma wp_split: "addr - (addr AND NOT 1 :: u32) = 0 \<or> addr - (addr AND NOT 1 :: u32) = 1"
proof -
  have "addr - (addr AND NOT 1) = addr AND 1" using and_split [of addr] by (simp add: algebra_simps)
  moreover have "addr AND 1 = 0 \<or> addr AND 1 = 1" by (simp add: and_one_eq mod2_eq_if)
  ultimately show ?thesis by simp
qed

text \<open>The bytes after the first halfword.\<close>

definition write_rest :: "program \<Rightarrow> u32 \<Rightarrow> buf \<Rightarrow> nat \<Rightarrow> machine \<Rightarrow> (int \<times> machine) option" where
  "write_rest prog wp s n st =
     do { (rc, wp, src, cnt, st) \<leftarrow> write_words prog 0 wp s n st;
          if rc \<noteq> 0 then Some (rc, st)
          else if cnt = 0 then Some (0, st)
          else
            do { (left, _, _, data) \<leftarrow> src_bytes 2 src cnt 0;
                 write_data prog wp (swab16 (old_bytes left (wp + of_nat (2 - left)) (mem st) data)) st } }"

lemma write_rest_ok:
  assumes "nor_program prog" "length s = n" "n < 2 ^ 32" "\<forall>i < n. mem st (wp + of_nat i) = CHR 0xFF"
    "\<not> devinit st" "wheel st < 3"
  shows "\<exists>st'. write_rest prog wp s n st = Some (0, st') \<and> writing st (overlay (mem st) wp s) st'"
proof -
  let ?k = "2 * (n div 2)" and ?wp2 = "wp + of_nat (2 * (n div 2))"
  obtain st2 where st2: "write_words prog 0 wp s n st = Some (0, ?wp2, drop ?k s, n mod 2, st2)"
    "writing st (overlay (mem st) wp (take ?k s)) st2"
    using write_words_ok [OF assms(1,5,6) _ assms(3,4), of s 0] assms(2) by auto
  show ?thesis
  proof (cases "n mod 2 = 0")
    case True
    then have "?k = n" by (simp add: even_iff_mod_2_eq_zero)
    then show ?thesis using True st2 assms(2) by (simp add: write_rest_def)
  next
    case False
    then have n: "n = Suc ?k" by presburger
    then have "length (drop ?k s) = 1" using assms(2) by simp
    then obtain c where c: "drop ?k s = [c]" by (cases "drop ?k s") simp_all
    have s2: "s = take ?k s @ [c]" using c by (metis append_take_drop_id)
    have len: "length (take ?k s) = ?k" using n assms(2) by simp
    have m2: "mem st2 = overlay (mem st) wp (take ?k s)" using writing_mem [OF st2(2)] .
    have "overlay (mem st) wp (take ?k s) ?wp2 = mem st ?wp2"
      by (rule overlay_outside) (use n len assms(3) in linarith)+
    then have b0: "mem st2 ?wp2 = CHR 0xFF"
      unfolding m2 using assms(4) n by (metis lessI)
    obtain st3 where st3: "write_data prog ?wp2 (pair c (mem st2 (?wp2 + 1))) st2 = Some (0, st3)"
      "writing st2 ((mem st2)(?wp2 := c, ?wp2 + 1 := mem st2 (?wp2 + 1))) st3"
      using write_data_ok [OF assms(1) _ _ b0 refl writing_wheel [OF st2(2)], of c "mem st2 (?wp2 + 1)"] by auto
    have "overlay (mem st) wp s = overlay (mem st2) ?wp2 [c]"
      using overlay_append [of "take ?k s" "[c]" "mem st" wp] s2 len assms(2,3) m2 by simp
    also have "\<dots> = (mem st2)(?wp2 := c)" by (simp add: overlay_Cons)
    also have "\<dots> = (mem st2)(?wp2 := c, ?wp2 + 1 := mem st2 (?wp2 + 1))" by (simp add: fun_eq_iff)
    finally have o: "overlay (mem st) wp s = (mem st2)(?wp2 := c, ?wp2 + 1 := mem st2 (?wp2 + 1))" .
    have d: "src_bytes 2 [c] (Suc 0) 0 = Some (Suc 0, [], 0, of_char c)" by (simp add: numeral_2_eq_2)
    have "n mod 2 = 1" using False by simp
    then have "write_rest prog wp s n st = Some (0, st3)"
      using st2(1) st3(1) by (simp add: write_rest_def c d swab_pair)
    then show ?thesis using writing_trans [OF st2(2) st3(2)] o by simp
  qed
qed

lemma write_buff_even:
  assumes "flash_id info \<noteq> FLASH_UNKNOWN" "addr - (addr AND NOT 1) = 0"
  shows "write_buff prog info src addr cnt st = write_rest prog addr src (unat cnt) st"
proof -
  have "addr AND NOT 1 = addr" using assms(2) by simp
  then show ?thesis using assms(1) by (simp add: write_buff_def write_rest_def Let_def)
qed

lemma write_buff_odd:
  assumes "flash_id info \<noteq> FLASH_UNKNOWN" "addr - (addr AND NOT 1) = 1"
    and "write_data prog (addr - 1) (pair (mem st (addr - 1)) c) st = Some (0, st1)"
    and "unat cnt = 0 \<and> src' = src \<and> c = mem st addr \<or> 0 < unat cnt \<and> src = c # src'"
  shows "write_buff prog info src addr cnt st = write_rest prog (addr + 1) src' (unat cnt - 1) st1"
proof -
  have w: "addr AND NOT 1 = addr - 1" using assms(2) by (simp add: algebra_simps)
  show ?thesis
    unfolding write_buff_def Let_def w
    using assms(1,3,4)
    by (auto simp: write_rest_def swab_pair add.commute [of 1])
qed

lemma write_buff_erased:
  assumes "nor_program prog" "\<not> devinit st" "wheel st < 3" "flash_id info \<noteq> FLASH_UNKNOWN"
    and "length src = unat cnt" "\<forall>i < unat cnt. mem st (addr + of_nat i) = CHR 0xFF"
  shows "\<exists>st'. write_buff prog info src addr cnt st = Some (0, st') \<and> writing st (overlay (mem st) addr src) st'"
proof -
  have lim: "unat cnt < 2 ^ 32" using unsigned_less [of cnt] by simp
  consider "addr - (addr AND NOT 1) = 0" | "addr - (addr AND NOT 1) = 1" using wp_split by blast
  then show ?thesis
  proof cases
    case 1
    show ?thesis unfolding write_buff_even [OF assms(4) 1]
      by (rule write_rest_ok [OF assms(1,5) lim assms(6,2,3)])
  next
    case 2
    let ?lo = "mem st (addr - 1)"
    obtain c src' where c: "unat cnt = 0 \<and> src' = src \<and> c = mem st addr \<or> 0 < unat cnt \<and> src = c # src'"
      using assms(5) by (cases src) auto
    then have len: "length src' = unat cnt - 1" using assms(5) by auto
    have ff: "mem st addr = CHR 0xFF \<or> mem st addr = c" using c assms(6) by force
    have o: "overlay (mem st) addr src = overlay ((mem st)(addr := c)) (addr + 1) src'"
      using c assms(5) lim by (auto simp: overlay_Cons)
    obtain st1 where st1: "write_data prog (addr - 1) (pair ?lo c) st = Some (0, st1)"
      "writing st ((mem st)(addr - 1 := ?lo, addr := c)) st1"
      using write_data_ok [OF assms(1), of ?lo ?lo "mem st addr" c st "addr - 1"] ff assms(3) by auto
    have m1: "mem st1 = (mem st)(addr := c)" using writing_mem [OF st1(2)] by (simp add: fun_eq_iff)
    have rest: "\<forall>i < unat cnt - 1. mem st1 (addr + 1 + of_nat i) = CHR 0xFF"
    proof (intro allI impI)
      fix i assume i: "i < unat cnt - 1"
      then have u: "unat (of_nat (Suc i) :: u32) = Suc i" using lim by (subst unat_of_nat) simp
      then have "of_nat (Suc i) \<noteq> (0 :: u32)" by (metis unat_0 Zero_not_Suc)
      then have "addr + of_nat (Suc i) \<noteq> addr" by simp
      moreover have "mem st (addr + of_nat (Suc i)) = CHR 0xFF" using assms(6) i by (metis Suc_eq_plus1 less_diff_conv)
      ultimately show "mem st1 (addr + 1 + of_nat i) = CHR 0xFF" by (simp add: m1 add.assoc)
    qed
    have "unat cnt - 1 < 2 ^ 32" using lim by linarith
    then obtain st2 where st2: "write_rest prog (addr + 1) src' (unat cnt - 1) st1 = Some (0, st2)"
      "writing st1 (overlay (mem st1) (addr + 1) src') st2"
      using write_rest_ok [OF assms(1) len _ rest] assms(2) writing_devinit [OF st1(2)]
        writing_wheel [OF st1(2)] by auto
    have "write_buff prog info src addr cnt st = Some (0, st2)"
      using write_buff_odd [OF assms(4) 2 st1(1) c] st2(1) by simp
    then show ?thesis using writing_trans [OF st1(2) st2(2)] o m1 by auto
  qed
qed

text \<open>C32: Writing to erased flash: on a chip that programs what its data sheet says, \<open>write_buff\<close>
  succeeds and changes exactly the addressed bytes, for every alignment of the address and every
  count; the other byte of a halfword at the ends of the range keeps its value.\<close>

theorem write_buff_programs:
  assumes "nor_program prog" "\<not> devinit st" "wheel st < 3" "flash_id info \<noteq> FLASH_UNKNOWN"
    and "length src = unat cnt" "\<forall>i < unat cnt. mem st (addr + of_nat i) = CHR 0xFF"
  shows "\<exists>st'. write_buff prog info src addr cnt st = Some (0, st') \<and> writing st (overlay (mem st) addr src) st'"
  by (rule write_buff_erased [OF assms])

text \<open>A chip that always programs.\<close>

definition good_chip :: program where
  "good_chip a d m = (True, put_halfword m a d)"

lemma good_chip_nor: "nor_program good_chip"
  by (simp add: nor_program_def good_chip_def)

definition ex_bank :: flash_info_t where
  "ex_bank = \<lparr>fl_size = 0x30000, sector_count = 3, flash_id = 1, fl_start = [0, 0x10000, 0x20000],
     fl_protect = [1, 0, 0]\<rparr>"

definition ex_machine :: machine where
  "ex_machine = board.extend sample_board
     \<lparr>mem = (\<lambda>_. CHR 0xFF), flash_info = [ex_bank], wheel = 0\<rparr>"

lemma ex_machine_simps [simp]:
  "\<not> devinit ex_machine" "mem ex_machine = (\<lambda>_. CHR 0xFF)" "flash_info ex_machine = [ex_bank]" "wheel ex_machine = 0"
  by (simp_all add: ex_machine_def board.defs sample_board_def devinit_def)

theorem write_buff_programs_witness:
  "\<exists>st'. write_buff good_chip ex_bank ''abc'' 0x20001 3 ex_machine = Some (0, st') \<and>
    writing ex_machine (overlay (mem ex_machine) 0x20001 ''abc'') st'"
  by (rule write_buff_programs [OF good_chip_nor]) (simp_all add: ex_bank_def FLASH_UNKNOWN_def)

section \<open>Sectors and protection\<close>

text \<open>The last address of a bank and of a sector, in a table whose sectors ascend and fill the bank.\<close>

definition bank_last :: "flash_info_t \<Rightarrow> u32" where
  "bank_last info = fl_start info ! 0 + fl_size info - 1"

definition last_addr :: "flash_info_t \<Rightarrow> nat \<Rightarrow> u32" where
  "last_addr info i = (if Suc i = sector_count info then bank_last info else fl_start info ! Suc i - 1)"

definition wf_bank :: "flash_info_t \<Rightarrow> bool" where
  "wf_bank info \<longleftrightarrow> 0 < sector_count info \<and> sector_count info < 32768 \<and>
     length (fl_start info) = sector_count info \<and> length (fl_protect info) = sector_count info \<and>
     fl_size info \<noteq> 0 \<and> unat (fl_start info ! 0) + unat (fl_size info) < 2 ^ 32 \<and>
     (\<forall>i. Suc i < sector_count info \<longrightarrow> fl_start info ! i < fl_start info ! Suc i) \<and>
     fl_start info ! (sector_count info - 1) \<le> bank_last info"

definition in_sector :: "flash_info_t \<Rightarrow> nat \<Rightarrow> u32 \<Rightarrow> bool" where
  "in_sector info i x \<longleftrightarrow> fl_start info ! i \<le> x \<and> x \<le> last_addr info i"

definition touches :: "u32 \<Rightarrow> u32 \<Rightarrow> flash_info_t \<Rightarrow> nat \<Rightarrow> bool" where
  "touches from until info i \<longleftrightarrow> (\<exists>x. from \<le> x \<and> x \<le> until \<and> in_sector info i x)"

lemma short_last: "wf_bank info \<Longrightarrow> (int i = short (int (sector_count info) - 1)) = (Suc i = sector_count info)"
  by (auto simp: wf_bank_def short_def)

lemma bank_end_eq: "wf_bank info \<Longrightarrow> bank_end info = Some (bank_last info)"
  by (simp add: bank_end_def wf_bank_def bank_last_def)

lemma bank_start: "wf_bank info \<Longrightarrow> load (fl_start info) 0 = Some (fl_start info ! 0)"
  by (simp add: wf_bank_def)

lemma sector_end_eq:
  "wf_bank info \<Longrightarrow> i < sector_count info \<Longrightarrow> sector_end info (bank_last info) i = Some (last_addr info i)"
  by (auto simp: sector_end_def short_last last_addr_def) (simp add: wf_bank_def)

lemma word_less_dec: "(a :: u32) < b \<Longrightarrow> x \<le> b - 1 \<longleftrightarrow> x < b"
proof -
  assume "a < b"
  then have "b \<noteq> 0" by auto
  then have "unat (b - 1) = unat b - 1" "0 < unat b" by (simp_all add: unat_minus_one unat_gt_0)
  then show ?thesis by (auto simp: word_le_nat_alt word_less_nat_alt)
qed

lemma start_mono:
  assumes "wf_bank info" "i \<le> j" "j < sector_count info"
  shows "fl_start info ! i \<le> fl_start info ! j"
  using assms(2,3)
proof (induction j rule: dec_induct)
  case (step k)
  then show ?case using assms(1) by (auto simp: wf_bank_def)
qed simp

lemma sector_order:
  assumes "wf_bank info" "i < sector_count info"
  shows "fl_start info ! 0 \<le> fl_start info ! i" "fl_start info ! i \<le> last_addr info i"
    "last_addr info i \<le> bank_last info"
proof -
  show "fl_start info ! 0 \<le> fl_start info ! i" using start_mono [OF assms(1) _ assms(2)] by simp
  have s: "fl_start info ! i < fl_start info ! Suc i" if "Suc i < sector_count info"
    using assms(1) that by (simp add: wf_bank_def)
  have l: "fl_start info ! i \<le> bank_last info" if "i < sector_count info" for i
  proof -
    have "fl_start info ! i \<le> fl_start info ! (sector_count info - 1)"
      by (rule start_mono [OF assms(1)]) (use that in auto)
    also have "\<dots> \<le> bank_last info" using assms(1) by (simp add: wf_bank_def)
    finally show ?thesis .
  qed
  show "fl_start info ! i \<le> last_addr info i"
    using assms(2) s l word_less_dec [OF s] by (auto simp: last_addr_def)
  show "last_addr info i \<le> bank_last info"
  proof (cases "Suc i = sector_count info")
    case False
    then have "Suc i < sector_count info" using assms(2) by simp
    then have "fl_start info ! Suc i - 1 < fl_start info ! Suc i" "fl_start info ! Suc i \<le> bank_last info"
      using word_less_dec [OF s] l by blast+
    then show ?thesis using False by (simp add: last_addr_def)
  qed (simp add: last_addr_def)
qed

lemma touches_iff:
  assumes "wf_bank info" "i < sector_count info" "from \<le> until"
  shows "touches from until info i \<longleftrightarrow> from \<le> last_addr info i \<and> fl_start info ! i \<le> until"
proof
  show "touches from until info i \<Longrightarrow> from \<le> last_addr info i \<and> fl_start info ! i \<le> until"
    unfolding touches_def in_sector_def using order_trans by blast
  assume "from \<le> last_addr info i \<and> fl_start info ! i \<le> until"
  then show "touches from until info i"
    unfolding touches_def in_sector_def
    by (intro exI [of _ "max from (fl_start info ! i)"]) (use assms sector_order(2) in auto)
qed

definition protected_by :: "nat \<Rightarrow> u32 \<Rightarrow> u32 \<Rightarrow> flash_info_t \<Rightarrow> nat \<Rightarrow> nat" where
  "protected_by v from until info i = (if touches from until info i then v else fl_protect info ! i)"

lemma touches_protect [simp]: "touches from until (info\<lparr>fl_protect := p\<rparr>) i = touches from until info i"
  by (simp add: touches_def in_sector_def last_addr_def bank_last_def)

lemma wf_bank_protect: "wf_bank (info\<lparr>fl_protect := p\<rparr>) \<longleftrightarrow> wf_bank (info\<lparr>fl_protect := p\<rparr>) \<and> length p = sector_count info"
  by (auto simp: wf_bank_def)

lemma protect_loop_eq:
  assumes "flag = FLAG_PROTECT_CLEAR \<and> v = 0 \<or> flag = FLAG_PROTECT_SET \<and> v = 1" "from \<le> until"
  shows "\<lbrakk>wf_bank info; i + k = sector_count info\<rbrakk> \<Longrightarrow>
    protect_loop flag from until (bank_last info) i k info =
      Some (info\<lparr>fl_protect := take i (fl_protect info) @ map (protected_by v from until info) [i..<sector_count info]\<rparr>)"
proof (induction k arbitrary: i info)
  case 0
  then have "length (fl_protect info) = i" "i = sector_count info" by (simp_all add: wf_bank_def)
  then show ?case by simp
next
  case (Suc k)
  have n: "i < sector_count info" "i < length (fl_protect info)" "i < length (fl_start info)"
    using Suc.prems by (auto simp: wf_bank_def)
  have set: "(if flag AND FLAG_PROTECT_CLEAR \<noteq> 0 then map_option (\<lambda>p. info\<lparr>fl_protect := p\<rparr>) (store (fl_protect info) i 0)
      else if flag AND FLAG_PROTECT_SET \<noteq> 0 then map_option (\<lambda>p. info\<lparr>fl_protect := p\<rparr>) (store (fl_protect info) i 1)
      else Some info) = Some (info\<lparr>fl_protect := (fl_protect info)[i := v]\<rparr>)"
    using assms(1) n by (auto simp: FLAG_PROTECT_SET_def FLAG_PROTECT_CLEAR_def)
  let ?p = "(fl_protect info)[i := protected_by v from until info i]"
  have step: "protect_loop flag from until (bank_last info) i (Suc k) info =
      protect_loop flag from until (bank_last info) (Suc i) k (info\<lparr>fl_protect := ?p\<rparr>)"
    using n sector_end_eq [OF Suc.prems(1) n(1)] set touches_iff [OF Suc.prems(1) n(1) assms(2)]
    by (auto simp: protected_by_def)
  have wf: "wf_bank (info\<lparr>fl_protect := ?p\<rparr>)" using Suc.prems(1) by (simp add: wf_bank_def bank_last_def)
  have b: "bank_last (info\<lparr>fl_protect := ?p\<rparr>) = bank_last info" by (simp add: bank_last_def)
  have m: "map (protected_by v from until (info\<lparr>fl_protect := ?p\<rparr>)) [Suc i..<sector_count info] =
      map (protected_by v from until info) [Suc i..<sector_count info]"
    by (rule map_cong) (auto simp: protected_by_def)
  have t: "take (Suc i) ?p = take i (fl_protect info) @ [protected_by v from until info i]"
    using n by (simp add: take_Suc_conv_app_nth)
  have u: "[i..<sector_count info] = i # [Suc i..<sector_count info]" using n(1) by (rule upt_conv_Cons)
  have ih: "protect_loop flag from until (bank_last info) (Suc i) k (info\<lparr>fl_protect := ?p\<rparr>) =
      Some (info\<lparr>fl_protect := take (Suc i) ?p @
        map (protected_by v from until (info\<lparr>fl_protect := ?p\<rparr>)) [Suc i..<sector_count info]\<rparr>)"
    using Suc.IH [OF wf, of "Suc i"] Suc.prems(2) by (simp add: b)
  show ?case unfolding step ih m t u by simp
qed

text \<open>
  \<open>flash_protect\<close> on a bank whose sectors ascend and fill it sets or clears the protection of
  exactly the sectors that have an address in the range, and never writes outside the table.
\<close>

theorem flash_protect_exact:
  assumes "wf_bank info" "flash_id info \<noteq> FLASH_UNKNOWN" "from \<le> until"
    and "flag = FLAG_PROTECT_CLEAR \<and> v = 0 \<or> flag = FLAG_PROTECT_SET \<and> v = 1"
  shows "flash_protect flag from until info =
    Some (info\<lparr>fl_protect := map (\<lambda>i. if \<exists>x. from \<le> x \<and> x \<le> until \<and> in_sector info i x then v
      else fl_protect info ! i) [0..<sector_count info]\<rparr>)"
proof -
  have m: "map (\<lambda>i. if \<exists>x. from \<le> x \<and> x \<le> until \<and> in_sector info i x then v else fl_protect info ! i)
      [0..<sector_count info] = map (protected_by v from until info) [0..<sector_count info]"
    by (simp add: protected_by_def touches_def)
  have pos: "sector_count info \<noteq> 0" "fl_size info \<noteq> 0" using assms(1) by (simp_all add: wf_bank_def)
  show ?thesis
  proof (cases "until < fl_start info ! 0 \<or> from > bank_last info")
    case True
    have "\<not> touches from until info i" if "i < sector_count info" for i
      using sector_order [OF assms(1) that] True
      by (subst touches_iff [OF assms(1) that assms(3)]) (auto simp: not_le)
    then have "map (protected_by v from until info) [0..<sector_count info] = map ((!) (fl_protect info)) [0..<sector_count info]"
      by (intro map_cong) (auto simp: protected_by_def)
    also have "\<dots> = fl_protect info" using assms(1) by (metis map_nth wf_bank_def)
    finally show ?thesis
      unfolding m using True assms(3) pos bank_start [OF assms(1)]
      by (auto simp: flash_protect_def bank_end_eq [OF assms(1)] not_less)
  next
    case False
    then show ?thesis
      unfolding m
      using protect_loop_eq [OF assms(4,3,1), of 0 "sector_count info"] assms(2,3) pos bank_start [OF assms(1)]
      by (auto simp: flash_protect_def bank_end_eq [OF assms(1)] dest: leD)
  qed
qed

lemma ex_bank_wf: "wf_bank ex_bank"
proof -
  have "i = 0 \<or> i = 1" if "Suc i < 3" for i using that by arith
  then have "[0, 0x10000, 0x20000] ! i < ([0, 0x10000, 0x20000] :: u32 list) ! Suc i" if "Suc i < 3" for i
    using that by fastforce
  then show ?thesis by (simp add: wf_bank_def ex_bank_def bank_last_def)
qed

theorem flash_protect_exact_witness:
  "flash_protect 1 0x18000 0x20000 ex_bank =
    Some (ex_bank\<lparr>fl_protect := map (\<lambda>i. if \<exists>x. 0x18000 \<le> x \<and> x \<le> 0x20000 \<and> in_sector ex_bank i x then 1
      else fl_protect ex_bank ! i) [0..<sector_count ex_bank]\<rparr>)"
  by (rule flash_protect_exact [OF ex_bank_wf]) (simp_all add: ex_bank_def FLASH_UNKNOWN_def FLAG_PROTECT_SET_def)

lemma last_unat:
  assumes "wf_bank info"
  shows "unat (bank_last info) = unat (fl_start info ! 0) + unat (fl_size info) - 1"
    "unat (fl_start info ! 0 + fl_size info) = unat (fl_start info ! 0) + unat (fl_size info)"
proof -
  show "unat (fl_start info ! 0 + fl_size info) = unat (fl_start info ! 0) + unat (fl_size info)"
    using assms by (simp add: wf_bank_def unat_word_ariths)
  moreover have "0 < unat (fl_size info)" using assms by (simp add: wf_bank_def unat_gt_0)
  ultimately have "fl_start info ! 0 + fl_size info \<noteq> 0" by (metis add_gr_0 less_irrefl unat_0)
  then show "unat (bank_last info) = unat (fl_start info ! 0) + unat (fl_size info) - 1"
    using \<open>unat (fl_start info ! 0 + fl_size info) = _\<close> unfolding bank_last_def by (simp add: unat_minus_one)
qed

lemma protected_sectors_eq:
  assumes "wf_bank info" "addr \<le> until" "until \<le> bank_last info"
  shows "i + k = sector_count info \<Longrightarrow>
    protected_sectors addr until info (fl_start info ! 0 + fl_size info) i k =
      Some (\<exists>j \<ge> i. j < sector_count info \<and> touches addr until info j \<and> fl_protect info ! j \<noteq> 0)"
proof (induction k arbitrary: i)
  case (Suc k)
  have n: "i < sector_count info" "i < length (fl_protect info)" "i < length (fl_start info)"
    using Suc.prems assms(1) by (auto simp: wf_bank_def)
  let ?e = "if Suc i = sector_count info then fl_start info ! 0 + fl_size info else fl_start info ! Suc i"
  have e: "(if int i = short (int (sector_count info) - 1) then Some (fl_start info ! 0 + fl_size info)
      else load (fl_start info) (Suc i)) = Some ?e"
    using assms(1) n unfolding short_last [OF assms(1)] by (auto simp: wf_bank_def)
  have le: "addr < ?e \<longleftrightarrow> addr \<le> last_addr info i"
  proof (cases "Suc i = sector_count info")
    case True
    have "0 < unat (fl_size info)" using assms(1) by (simp add: wf_bank_def unat_gt_0)
    then show ?thesis using True last_unat [OF assms(1)]
      by (auto simp: last_addr_def word_less_nat_alt word_le_nat_alt)
  next
    case False
    then have "fl_start info ! i < fl_start info ! Suc i" using assms(1) n by (simp add: wf_bank_def)
    then show ?thesis using False word_less_dec by (simp add: last_addr_def)
  qed
  have t: "(until \<ge> fl_start info ! i \<and> addr < ?e) = touches addr until info i"
    using touches_iff [OF assms(1) n(1) assms(2)] le by blast
  have split: "(\<exists>j \<ge> i. j < sector_count info \<and> P j) \<longleftrightarrow> P i \<or> (\<exists>j \<ge> Suc i. j < sector_count info \<and> P j)" for P
    using n(1) by (metis Suc_leD Suc_leI le_neq_implies_less order_refl)
  show ?case
    unfolding split [of "\<lambda>j. touches addr until info j \<and> fl_protect info ! j \<noteq> 0"]
    using Suc.IH [of "Suc i"] Suc.prems n t unfolding protected_sectors.simps e by auto
qed simp

lemma flash_write_eq:
  assumes "flash_info st = [info]" "wf_bank info" "flash_id info \<noteq> FLASH_UNKNOWN" "addr \<le> addr + cnt - 1 \<or> cnt = 0"
  shows "flash_write prog src addr cnt st =
    (if cnt = 0 then Some (ERR_OK, st)
     else if addr < fl_start info ! 0 \<or> bank_last info < addr + cnt - 1 then Some (ERR_INVAL, st)
     else if \<exists>j < sector_count info. fl_protect info ! j \<noteq> 0 \<and>
       (\<exists>x. addr \<le> x \<and> x \<le> addr + cnt - 1 \<and> in_sector info j x) then Some (ERR_PROTECTED, st)
     else write_buff prog info src addr cnt st)"
proof -
  let ?z = "addr + cnt - 1"
  have find: "addr2info [info] a = Some (if fl_start info ! 0 \<le> a \<and> a \<le> bank_last info then Some 0 else None)" for a
    using bank_start [OF assms(2)] assms(3) by (simp add: addr2info_def bank_last_def)
  show ?thesis
  proof (cases "cnt = 0 \<or> addr < fl_start info ! 0 \<or> bank_last info < ?z")
    case True
    then show ?thesis using assms(4) find [of addr] find [of ?z]
      by (auto simp: flash_write_def assms(1) Let_def not_le dest: order.strict_trans1)
  next
    case False
    then have le: "addr \<le> ?z" "?z \<le> bank_last info" "fl_start info ! 0 \<le> addr" "cnt \<noteq> 0"
      using assms(4) by auto
    have u: "unat (fl_start info ! 0 + fl_size info - addr) = unat (fl_start info ! 0) + unat (fl_size info) - unat addr"
      using le(1,2) last_unat [OF assms(2)] by (subst unat_sub) (auto simp: word_le_nat_alt)
    have "cnt = ?z - addr + 1" by simp
    then have "unat cnt \<le> unat (?z - addr) + 1"
      by (metis unat_1 unat_word_ariths(1) mod_less_eq_dividend)
    also have "unat (?z - addr) = unat ?z - unat addr" using le(1) by (rule unat_sub)
    finally have c: "unat cnt \<le> unat ?z - unat addr + 1" .
    have "unat addr \<le> unat ?z" "unat ?z \<le> unat (bank_last info)" "0 < unat (fl_size info)"
      using le assms(2) by (simp_all add: word_le_nat_alt wf_bank_def unat_gt_0)
    then have "unat cnt \<le> unat (fl_start info ! 0 + fl_size info - addr)"
      using c last_unat [OF assms(2)] u by linarith
    then have len: "(if fl_start info ! 0 + fl_size info - addr > cnt then cnt
        else fl_start info ! 0 + fl_size info - addr) = cnt"
      by (auto simp: word_less_nat_alt not_less intro!: word_unat_eq_iff [THEN iffD2])
    have p: "protected_banks addr ?z [info] = Some (\<exists>j < sector_count info. touches addr ?z info j \<and> fl_protect info ! j \<noteq> 0)"
      using protected_sectors_eq [OF assms(2) le(1,2), of 0 "sector_count info"] bank_start [OF assms(2)] by simp
    have w: "write_banks prog src addr cnt [info] st = write_buff prog info src addr cnt st"
    proof -
      have "write_banks prog src addr cnt [info] st =
          do { (rc, st) \<leftarrow> write_buff prog info src addr cnt st;
               if rc \<noteq> 0 then Some (rc, st) else Some (0, st) }"
        unfolding write_banks.simps Let_def bank_start [OF assms(2)] bind.bind_lunit len ERR_OK_def
        using le(4) by (simp add: word_gt_0)
      then show ?thesis by (cases "write_buff prog info src addr cnt st") auto
    qed
    have find: "addr2info [info] addr = Some (Some 0)" "addr2info [info] ?z = Some (Some 0)"
      using find [of addr] find [of ?z] le order_trans [OF le(1,2)] order_trans [OF le(3,1)] by simp_all
    have c: "(cnt = 0) = False" "(addr < fl_start info ! 0 \<or> bank_last info < ?z) = False" using le by (simp_all add: not_less)
    have t: "(\<exists>j < sector_count info. fl_protect info ! j \<noteq> 0 \<and>
        (\<exists>x. addr \<le> x \<and> x \<le> ?z \<and> in_sector info j x)) =
      (\<exists>j < sector_count info. touches addr ?z info j \<and> fl_protect info ! j \<noteq> 0)"
      by (simp only: touches_def conj_ac)
    have banks: "drop 0 (take (Suc 0) [info]) = [info]" by simp
    show ?thesis
      unfolding flash_write_def Let_def assms(1) find c t if_False prod.case option.case bind.bind_lunit banks p w ..
  qed
qed

text \<open>
  \<open>flash_write\<close> on the bank of the board, for a range that does not wrap around: nothing to do
  for an empty range; a range that leaves the bank is refused; a range with an address in a
  protected sector is refused, and neither the memory nor anything else changes; every other range
  goes to \<open>write_buff\<close> in one piece.
\<close>

theorem flash_write_guards:
  assumes "flash_info st = [info]" "wf_bank info" "flash_id info \<noteq> FLASH_UNKNOWN" "addr \<le> addr + cnt - 1 \<or> cnt = 0"
  shows "flash_write prog src addr cnt st =
    (if cnt = 0 then Some (ERR_OK, st)
     else if addr < fl_start info ! 0 \<or> bank_last info < addr + cnt - 1 then Some (ERR_INVAL, st)
     else if \<exists>j < sector_count info. fl_protect info ! j \<noteq> 0 \<and>
       (\<exists>x. addr \<le> x \<and> x \<le> addr + cnt - 1 \<and> in_sector info j x) then Some (ERR_PROTECTED, st)
     else write_buff prog info src addr cnt st)"
  by (rule flash_write_eq [OF assms])

theorem flash_write_guards_witness:
  "flash_write good_chip ''abc'' 0x20001 3 ex_machine =
    (if (3 :: u32) = 0 then Some (ERR_OK, ex_machine)
     else if 0x20001 < fl_start ex_bank ! 0 \<or> bank_last ex_bank < 0x20001 + 3 - 1 then Some (ERR_INVAL, ex_machine)
     else if \<exists>j < sector_count ex_bank. fl_protect ex_bank ! j \<noteq> 0 \<and>
       (\<exists>x. 0x20001 \<le> x \<and> x \<le> 0x20001 + 3 - 1 \<and> in_sector ex_bank j x) then Some (ERR_PROTECTED, ex_machine)
     else write_buff good_chip ex_bank ''abc'' 0x20001 3 ex_machine)"
  by (rule flash_write_guards [OF ex_machine_simps(3) ex_bank_wf]) (simp_all add: ex_bank_def FLASH_UNKNOWN_def)

end
