(* ===== verification/Messages.thy ===== *)
theory Messages
  imports Console
begin

text \<open>
  Messages on the console, for the proofs about code that prints: a call of \<open>printf\<close> or \<open>puts\<close>
  before the devices are initialised adds to what has been sent and changes nothing else.
\<close>

text \<open>The effect of printing: something has been put on the serial line.\<close>

definition printed :: "'a console_scheme \<Rightarrow> 'a console_scheme \<Rightarrow> bool" where
  "printed st st' \<longleftrightarrow> (\<exists>tx. st' = st\<lparr>serial_tx := tx\<rparr>)"

lemma printed_devinit: "printed st st' \<Longrightarrow> devinit st' = devinit st"
  by (auto simp: printed_def)

lemma printf_printed:
  assumes "\<not> devinit st" "vsprintf_loop (cstr fmt) args [] [] = Some (out, ns)" "nonul out" "length out < CFG_PBSIZE"
  shows "\<exists>st'. printf fmt args st = Some st' \<and> printed st st'"
  using printf_serial [OF assms] by (auto simp: printed_def)

lemma puts_printed: "\<not> devinit st \<Longrightarrow> nonul s \<Longrightarrow> \<exists>st'. puts (cstr s) st = Some st' \<and> printed st st'"
  by (auto simp: printed_def)

lemma printed_sent: "printed st (sent out st)"
  by (auto simp: printed_def sent_def)

section \<open>Decimal numbers in messages\<close>

lemma number_width_2:
  assumes "\<not> sint w < 0"
  shows "number w 10 2 (-1) (no_flags\<lparr>SIGN := True\<rparr>) =
    Some (replicate (2 - length (udec (unat w))) (CHR '' '') @ udec (unat w))"
proof (cases "w = 0")
  case True
  then show ?thesis by (simp add: number_def no_flags_def udec_def nat_str_def Let_def)
next
  case False
  then have "unat w \<noteq> 0" by (simp add: unat_eq_zero)
  then show ?thesis using assms False
    by (auto simp: number_def no_flags_def udec_def nat_str_def Let_def nat_diff_distrib)
qed

lemma directive_2d:
  assumes "\<not> sint w < 0"
  shows "directive (CHR ''2'' # CHR ''d'' # fmt) n (VWord w # args) =
    Some (replicate (2 - length (udec (unat w))) (CHR '' '') @ udec (unat w), None, fmt, args)"
  by (simp add: directive_def no_flags_def [symmetric] parse_width_def is_digit_def ichar_eq_int
      parse_precision_def parse_qualifier_def convert_def int_base_def int_arg_def number_width_2 [OF assms])


lemma udec_nonul: "nonul (udec n)"
proof -
  have "c \<noteq> NUL" if "c \<in> set (udec n)" for c
  proof -
    have "c = CHR ''0'' \<or> (\<exists>d < 10. c = lower_digits ! d)"
      using that nat_str_chars [of 10 lower_digits n] by (auto simp: udec_def)
    then have "isxdigit c"
    proof
      assume "\<exists>d < 10. c = lower_digits ! d"
      then obtain d where "d < 10" "c = lower_digits ! d" by blast
      then show ?thesis using hex_alphabet_lower by (simp add: hex_alphabet_def)
    next
      assume "c = CHR ''0''"
      then show ?thesis by (simp add: isxdigit_iff)
    qed
    then show ?thesis by auto
  qed
  then show ?thesis by (auto simp: nonul_def)
qed

end
