(* ===== verification/Saveenv.thy ===== *)
theory Saveenv
  imports Flash_Props Messages
begin

text \<open>
  \<open>saveenv\<close> as a whole: unprotecting, erasing, writing and protecting the sector of the
  environment; after it the next start finds the saved environment in the flash.
\<close>

section \<open>Sector ranges\<close>

lemma last_less_start:
  assumes "wf_bank info" "i < j" "j < sector_count info"
  shows "last_addr info i < fl_start info ! j"
proof -
  have "fl_start info ! i < fl_start info ! Suc i" using assms by (simp add: wf_bank_def)
  then have "last_addr info i < fl_start info ! Suc i"
    using word_less_dec [of "fl_start info ! i" "fl_start info ! Suc i" "fl_start info ! Suc i - 1"] assms
    by (simp add: last_addr_def)
  also have "\<dots> \<le> fl_start info ! j" by (rule start_mono [OF assms(1)]) (use assms in auto)
  finally show ?thesis .
qed

lemma start_less:
  assumes "wf_bank info" "i < j" "j < sector_count info"
  shows "fl_start info ! i < fl_start info ! j" "last_addr info i < last_addr info j"
  using last_less_start [OF assms] sector_order(2) [OF assms(1), of i] sector_order(2) [OF assms(1), of j] assms(2,3)
  by (auto intro: le_less_trans less_le_trans)

lemma start_inj:
  assumes "wf_bank info" "i < sector_count info" "j < sector_count info"
  shows "fl_start info ! i = fl_start info ! j \<longleftrightarrow> i = j" "last_addr info i = last_addr info j \<longleftrightarrow> i = j"
    "last_addr info i < fl_start info ! j \<longleftrightarrow> i < j"
proof -
  show "last_addr info i < fl_start info ! j \<longleftrightarrow> i < j"
  proof
    assume l: "last_addr info i < fl_start info ! j"
    show "i < j"
    proof (rule ccontr)
      assume "\<not> i < j"
      then have "fl_start info ! j \<le> fl_start info ! i" using start_mono [OF assms(1), of j i] assms(2) by simp
      then show False using sector_order(2) [OF assms(1,2)] l by simp
    qed
  qed (rule last_less_start [OF assms(1) _ assms(3)])
qed (use start_less [OF assms(1), of i j] start_less [OF assms(1), of j i] assms(2,3) in
      \<open>(metis less_irrefl linorder_neqE_nat)+\<close>)

lemma scan_sectors_eq:
  assumes "wf_bank info" "f \<le> l" "l < sector_count info"
  shows "i + k = sector_count info \<Longrightarrow>
    scan_sectors info (fl_start info ! f) (last_addr info l) (bank_last info) i k sf sl =
      Some (if i \<le> f then int f else sf, if i \<le> l then int l else sl)"
proof (induction k arbitrary: i sf sl)
  case (Suc k)
  have n: "i < sector_count info" "i < length (fl_start info)" using Suc.prems assms(1) by (auto simp: wf_bank_def)
  have f: "f < sector_count info" using assms(2,3) by simp
  show ?case
    using Suc.IH [of "Suc i"] Suc.prems assms(2) n sector_end_eq [OF assms(1) n(1)]
      start_inj [OF assms(1) n(1) f] start_inj [OF assms(1) f n(1)]
      start_inj [OF assms(1) n(1) assms(3)] start_inj [OF assms(1) assms(3) n(1)]
    by (auto simp: eq_commute [of "fl_start info ! f"] eq_commute [of "last_addr info l"])
qed (use assms in auto)

lemma sect_ranges_eq:
  assumes "wf_bank info" "flash_id info \<noteq> FLASH_UNKNOWN" "f \<le> l" "l < sector_count info"
  shows "flash_fill_sect_ranges [info] (fl_start info ! f) (last_addr info l) st =
    Some (0, [int f], [int l], int l - int f + 1, st)"
proof -
  have le: "fl_start info ! f \<le> last_addr info l"
    using start_mono [OF assms(1,3,4)] sector_order(2) [OF assms(1,4)] by simp
  have follow: "\<exists>a. (if int l = short (int (sector_count info) - 1) then Some (bank_last info + 1)
      else load (fl_start info) (nat (int l + 1))) = Some a"
    using assms(1,4) by (auto simp: short_last wf_bank_def)
  have "scan_sectors info (fl_start info ! f) (last_addr info l) (bank_last info) 0 (sector_count info) (- 1) (- 1) =
      Some (int f, int l)"
    using scan_sectors_eq [OF assms(1,3,4), of 0 "sector_count info"] by simp
  then show ?thesis
    using assms(2,3) le follow by (auto simp: flash_fill_sect_ranges_def bank_end_eq [OF assms(1)] Let_def)
qed

lemma protect_sectors_one:
  "i < length (fl_protect info) \<Longrightarrow> protect_sectors p i 1 info = Some (info\<lparr>fl_protect := (fl_protect info)[i := p]\<rparr>)"
  by (simp add: numeral_eq_Suc)

section \<open>Messages\<close>

lemma say_protected:
  assumes "\<not> devinit st"
  shows "\<exists>st'. printf (''%sProtected %d sectors'' @ [CHR 0x0A]) [VStr (un p), VWord (of_int 1)] st = Some st' \<and>
    printed st st'"
proof -
  let ?s = "if p \<noteq> 0 then [] else ''Un-''"
  define g where "g = cstr (''Protected %d sectors'' @ [CHR 0x0A])"
  have f: "cstr (''%sProtected %d sectors'' @ [CHR 0x0A]) = CHR ''%'' # CHR ''s'' # g"
    by (simp add: cstr_def g_def)
  have loop: "vsprintf_loop g [VWord (of_int 1)] ''Un-'' [] = Some (''Un-Protected 1 sectors'' @ [CHR 0x0A], [])"
    "vsprintf_loop g [VWord (of_int 1)] [] [] = Some (''Protected 1 sectors'' @ [CHR 0x0A], [])"
    unfolding g_def by code_simp+
  have "vsprintf_loop g [VWord (of_int 1)] ([] @ ?s) [] = Some (?s @ ''Protected 1 sectors'' @ [CHR 0x0A], [])"
    using loop by (cases "p = 0") (simp_all del: vsprintf_loop.simps)
  then have "vsprintf_loop (cstr (''%sProtected %d sectors'' @ [CHR 0x0A])) [VStr (un p), VWord (of_int 1)] [] [] =
        Some (?s @ ''Protected 1 sectors'' @ [CHR 0x0A], [])"
    unfolding f un_def cstr_def [of ?s] by (subst vsprintf_loop_s) auto
  then show ?thesis by (rule printf_printed [OF assms]) (simp_all add: CFG_PBSIZE_def)
qed

lemma say_erased:
  assumes "\<not> devinit st"
  shows "\<exists>st'. printf (''Erased %d sectors'' @ [CHR 0x0A]) [VWord (of_int 1)] st = Some st' \<and> printed st st'"
proof (rule printf_printed [OF assms])
  show "vsprintf_loop (cstr (''Erased %d sectors'' @ [CHR 0x0A])) [VWord (of_int 1)] [] [] = Some (''Erased 1 sectors'' @ [CHR 0x0A], [])" by code_simp
qed (simp_all add: CFG_PBSIZE_def)

lemma say_newline:
  assumes "\<not> devinit st"
  shows "\<exists>st'. printf [CHR 0x0A] [] st = Some st' \<and> printed st st'"
proof (rule printf_printed [OF assms])
  show "vsprintf_loop (cstr [CHR 0x0A]) [] [] [] = Some ([CHR 0x0A], [])" by code_simp
qed (simp_all add: CFG_PBSIZE_def)

lemma say_done:
  assumes "\<not> devinit st"
  shows "\<exists>st'. printf ('' done'' @ [CHR 0x0A]) [] st = Some st' \<and> printed st st'"
proof (rule printf_printed [OF assms])
  show "vsprintf_loop (cstr ('' done'' @ [CHR 0x0A])) [] [] [] = Some ('' done'' @ [CHR 0x0A], [])" by code_simp
qed (simp_all add: CFG_PBSIZE_def)

lemma say_erasing:
  assumes "\<not> devinit st" "k < 32768"
  shows "\<exists>st'. printf ''Erasing sector %2d ... '' [VWord (of_nat k)] st = Some st' \<and> printed st st'"
proof -
  let ?w = "of_nat k :: u32"
  have w: "unat ?w = k" using assms(2) by (simp add: unat_of_nat)
  have "sint ?w = int k" using assms(2) by (simp add: signed_of_nat signed_take_bit_int_eq_self)
  then have s: "\<not> sint ?w < 0" by simp
  let ?d = "replicate (2 - length (udec k)) (CHR '' '') @ udec k"
  define g where "g = cstr '' ... ''"
  have f: "cstr ''Erasing sector %2d ... '' = ''Erasing sector '' @ CHR ''%'' # CHR ''2'' # CHR ''d'' # g"
    by (simp add: cstr_def g_def)
  have d: "directive (CHR ''2'' # CHR ''d'' # g) n [VWord ?w] = Some (?d, None, g, [])" for n
    using directive_2d [OF s] w by simp
  have e: "vsprintf_loop g [] out [] = Some (out @ '' ... '', [])" for out
    by (simp add: g_def cstr_def)
  have "vsprintf_loop (cstr ''Erasing sector %2d ... '') [VWord ?w] [] [] =
      Some (''Erasing sector '' @ ?d @ '' ... '', [])"
    unfolding f by (simp add: d e)
  then show ?thesis
  proof (rule printf_printed [OF assms(1)])
    have "length (udec k) \<le> 5" using assms(2) by (intro udec_length) auto
    then show "length (''Erasing sector '' @ ?d @ '' ... '') < CFG_PBSIZE" by (simp add: CFG_PBSIZE_def)
  qed (auto simp: udec_nonul nonul_def [of "replicate _ _"])
qed


section \<open>The steps of saveenv\<close>

text \<open>What may change: the serial line, the wheel, and the given memory and sector table.\<close>

definition changed :: "machine \<Rightarrow> (u32 \<Rightarrow> char) \<Rightarrow> flash_info_t list \<Rightarrow> machine \<Rightarrow> bool" where
  "changed st m infos st' \<longleftrightarrow> (\<exists>tx w. w < 3 \<and> st' = st\<lparr>serial_tx := tx, mem := m, flash_info := infos, wheel := w\<rparr>)"

lemma changed_trans: "changed st m infos st' \<Longrightarrow> changed st' m' infos' st'' \<Longrightarrow> changed st m' infos' st''"
  unfolding changed_def by (elim exE conjE) (rule exI, rule exI, erule conjI, simp)

lemma changed_simps:
  "changed st m infos st' \<Longrightarrow> mem st' = m" "changed st m infos st' \<Longrightarrow> flash_info st' = infos"
  "changed st m infos st' \<Longrightarrow> devinit st' = devinit st" "changed st m infos st' \<Longrightarrow> wheel st' < 3"
  "changed st m infos st' \<Longrightarrow> ram_env st' = ram_env st" "changed st m infos st' \<Longrightarrow> env_in_ram st' = env_in_ram st"
  "changed st m infos st' \<Longrightarrow> flash_env st' = flash_env st"
  by (auto simp: changed_def devinit_def)

lemma printed_changed: "printed st st' \<Longrightarrow> wheel st < 3 \<Longrightarrow> changed st (mem st) (flash_info st) st'"
  unfolding printed_def changed_def
  by (elim exE, rule_tac x = tx in exI, rule exI [of _ "wheel st"]) simp

lemma writing_changed: "writing st m st' \<Longrightarrow> changed st m (flash_info st) st'"
  unfolding writing_def changed_def by (elim exE conjE, rule_tac x = tx in exI, rule_tac x = w in exI) simp

lemma changed_set: "wheel st < 3 \<Longrightarrow> changed st m infos (st\<lparr>mem := m, flash_info := infos\<rparr>)"
  unfolding changed_def by (rule exI [of _ "serial_tx st"], rule exI [of _ "wheel st"]) simp

lemma puts_changed:
  assumes "\<not> devinit st" "wheel st < 3" "nonul s"
  shows "\<exists>st'. puts (cstr s) st = Some st' \<and> changed st (mem st) (flash_info st) st'"
  using puts_printed [OF assms(1,3)] printed_changed [OF _ assms(2)] by blast

definition with_protect :: "nat \<Rightarrow> nat \<Rightarrow> flash_info_t \<Rightarrow> flash_info_t" where
  "with_protect k p info = info\<lparr>fl_protect := (fl_protect info)[k := p]\<rparr>"

lemma with_protect_simps [simp]:
  "fl_start (with_protect k p info) = fl_start info" "flash_id (with_protect k p info) = flash_id info"
  "sector_count (with_protect k p info) = sector_count info" "last_addr (with_protect k p info) i = last_addr info i"
  "bank_last (with_protect k p info) = bank_last info"
  "in_sector (with_protect k p info) i x = in_sector info i x"
  "with_protect k q (with_protect k p info) = with_protect k q info"
  by (simp_all add: with_protect_def last_addr_def bank_last_def in_sector_def)

lemma with_protect_wf [simp]: "wf_bank (with_protect k p info) = wf_bank info"
  by (simp add: with_protect_def wf_bank_def bank_last_def)

lemma sect_protect_one:
  assumes "\<not> devinit st" "wheel st < 3" "flash_info st = [info]" "wf_bank info" "flash_id info \<noteq> FLASH_UNKNOWN" "k < sector_count info"
  shows "\<exists>st'. flash_sect_protect p (fl_start info ! k) (last_addr info k) st = Some (0, st') \<and>
    changed st (mem st) [with_protect k p info] st'"
proof -
  have p: "protect_sectors p k 1 info = Some (with_protect k p info)"
    using protect_sectors_one [of k info p] assms(4,6) by (simp add: wf_bank_def with_protect_def)
  have banks: "protect_banks p [info] [int k] [int k] 0 = Some ([with_protect k p info], 1)"
    using assms(5) p by simp
  let ?st = "st\<lparr>mem := mem st, flash_info := [with_protect k p info]\<rparr>"
  have c: "changed st (mem st) [with_protect k p info] ?st" using assms(2) by (rule changed_set)
  obtain st' where st': "printf (''%sProtected %d sectors'' @ [CHR 0x0A]) [VStr (un p), VWord (of_int 1)] ?st = Some st'"
    "printed ?st st'"
    using say_protected [of ?st] changed_simps(3) [OF c] assms(1) by auto
  have "changed st (mem st) [with_protect k p info] st'"
    using changed_trans [OF c printed_changed [OF st'(2)]] assms(2) by simp
  moreover have "flash_sect_protect p (fl_start info ! k) (last_addr info k) st = Some (0, st')"
    unfolding flash_sect_protect_def assms(3) sect_ranges_eq [OF assms(4,5) order_refl assms(6)] bind.bind_lunit
      prod.case
    using banks st'(1) by simp
  ultimately show ?thesis by blast
qed

definition nor_erase :: "flash_info_t \<Rightarrow> erase \<Rightarrow> bool" where
  "nor_erase info er \<longleftrightarrow> (\<forall>k m. k < sector_count info \<longrightarrow>
     er (fl_start info ! k) m = (True, \<lambda>x. if in_sector info k x then CHR 0xFF else m x))"

lemma flash_erase_one:
  assumes "\<not> devinit st" "wheel st < 3" "wf_bank info" "flash_id info AND FLASH_VENDMASK = FLASH_MAN_INTEL"
    "k < sector_count info" "fl_protect info ! k = 0" "nor_erase info er"
  shows "\<exists>st'. flash_erase er info (int k) (int k) st = Some (0, st') \<and>
    changed st (\<lambda>x. if in_sector info k x then CHR 0xFF else mem st x) (flash_info st) st'"
proof -
  let ?m = "\<lambda>x. if in_sector info k x then CHR 0xFF else mem st x"
  have n: "k < length (fl_protect info)" "k < length (fl_start info)" "k < 32768"
    using assms(3,5) by (simp_all add: wf_bank_def)
  have one: "nat (int k - int k + 1) = Suc 0" by simp
  have cp: "count_protected info k (Suc 0) = Some 0" using n assms(6) by simp
  obtain st1 where st1: "printf [CHR 0x0A] [] st = Some st1" "changed st (mem st) (flash_info st) st1"
    using say_newline [OF assms(1)] printed_changed [OF _ assms(2)] by blast
  obtain st2 where st2: "printf ''Erasing sector %2d ... '' [VWord (of_nat k)] st1 = Some st2"
    "changed st1 (mem st1) (flash_info st1) st2"
    using say_erasing [OF _ n(3), of st1] changed_simps(3,4) [OF st1(2)] assms(1) printed_changed by blast
  have 2: "changed st (mem st) (flash_info st) st2"
    using changed_trans [OF st1(2) st2(2)] changed_simps [OF st1(2)] by simp
  have er: "er (fl_start info ! k) (mem st2) = (True, ?m)"
    using assms(5,7) changed_simps(1) [OF 2] by (simp add: nor_erase_def)
  let ?st3 = "st2\<lparr>mem := ?m, flash_info := flash_info st2\<rparr>"
  have 3: "changed st ?m (flash_info st) ?st3"
    using changed_trans [OF 2 changed_set [OF changed_simps(4) [OF 2]], of ?m "flash_info st2"] changed_simps(2) [OF 2] by simp
  obtain st4 where st4: "printf ('' done'' @ [CHR 0x0A]) [] ?st3 = Some st4" "changed ?st3 (mem ?st3) (flash_info ?st3) st4"
    using say_done [of ?st3] changed_simps(3,4) [OF 3] assms(1) printed_changed by blast
  have "flash_erase er info (int k) (int k) st = Some (0, st4)"
    unfolding flash_erase_def one nat_int cp bind.bind_lunit
    using n st1(1) st2(1) er st4(1) assms(4,6) by simp
  moreover have "changed st ?m (flash_info st) st4"
    using changed_trans [OF 3 st4(2)] changed_simps(2) [OF 2] by simp
  ultimately show ?thesis by blast
qed

lemma sect_erase_one:
  assumes "\<not> devinit st" "wheel st < 3" "flash_info st = [info]" "wf_bank info" "flash_id info \<noteq> FLASH_UNKNOWN"
    "flash_id info AND FLASH_VENDMASK = FLASH_MAN_INTEL" "k < sector_count info" "fl_protect info ! k = 0" "nor_erase info er"
  shows "\<exists>st'. flash_sect_erase er (fl_start info ! k) (last_addr info k) st = Some (0, st') \<and>
    changed st (\<lambda>x. if in_sector info k x then CHR 0xFF else mem st x) (flash_info st) st'"
proof -
  obtain st1 where st1: "flash_erase er info (int k) (int k) st = Some (0, st1)"
    "changed st (\<lambda>x. if in_sector info k x then CHR 0xFF else mem st x) (flash_info st) st1"
    using flash_erase_one [OF assms(1,2,4,6-9)] by blast
  obtain st2 where st2: "printf (''Erased %d sectors'' @ [CHR 0x0A]) [VWord (of_int 1)] st1 = Some st2"
    "changed st1 (mem st1) (flash_info st1) st2"
    using say_erased [of st1] changed_simps(3,4) [OF st1(2)] assms(1) printed_changed by blast
  have "erase_banks er [info] [int k] [int k] 0 st = Some (0, 1, st1)" using st1(1) by simp
  then have "flash_sect_erase er (fl_start info ! k) (last_addr info k) st = Some (0, st2)"
    unfolding flash_sect_erase_def assms(3) sect_ranges_eq [OF assms(4,5) order_refl assms(7)] bind.bind_lunit prod.case
    using st2(1) by simp
  then show ?thesis using changed_trans [OF st1(2) st2(2)] changed_simps [OF st1(2)] by auto
qed

lemma unat_of_nat_u32: "n < 2 ^ 32 \<Longrightarrow> unat (of_nat n :: u32) = n"
  by (simp add: unat_of_nat)

lemma range_unat:
  fixes addr :: u32
  assumes "addr \<le> addr + cnt - 1" "cnt \<noteq> 0"
  shows "unat (addr + cnt - 1) = unat addr + (unat cnt - 1)"
proof -
  have e: "addr + cnt - 1 = addr + (cnt - 1)" by (simp add: algebra_simps)
  have "addr \<le> addr + (cnt - 1)" using assms(1) unfolding e .
  then have "unat (addr + (cnt - 1)) = unat addr + unat (cnt - 1)"
    by (simp add: unat_plus_simple)
  then show ?thesis using assms(2) unfolding e by (simp add: unat_minus_one)
qed

lemma in_range:
  fixes addr :: u32
  assumes "addr \<le> addr + cnt - 1" "cnt \<noteq> 0" "i < unat cnt"
  shows "addr \<le> addr + of_nat i" "addr + of_nat i \<le> addr + cnt - 1"
proof -
  have b: "unat (addr + cnt - 1) < 2 ^ 32" using unsigned_less [of "addr + cnt - 1"] by simp
  then have s: "unat addr + i < 2 ^ 32" using range_unat [OF assms(1,2)] assms(3) by linarith
  then have "unat (of_nat i :: u32) = i" by (intro unat_of_nat_u32) linarith
  then have u: "unat (addr + of_nat i) = unat addr + i" using s by (simp add: unat_word_ariths)
  show "addr \<le> addr + of_nat i" using u by (simp add: word_le_nat_alt)
  show "addr + of_nat i \<le> addr + cnt - 1"
    using u range_unat [OF assms(1,2)] assms(3) by (simp add: word_le_nat_alt)
qed

lemma mem_bytes_overlay:
  assumes "j + n \<le> length bs" "length bs < 2 ^ 32"
  shows "mem_bytes (overlay m a bs) (a + of_nat j) n = take n (drop j bs)"
proof (rule nth_equalityI)
  show "length (mem_bytes (overlay m a bs) (a + of_nat j) n) = length (take n (drop j bs))"
    using assms by (simp add: mem_bytes_def)
  fix i assume "i < length (mem_bytes (overlay m a bs) (a + of_nat j) n)"
  then have i: "i < n" by (simp add: mem_bytes_def)
  have "overlay m a bs (a + of_nat (j + i)) = bs ! (j + i)"
    using i assms by (intro overlay_inside) auto
  then show "mem_bytes (overlay m a bs) (a + of_nat j) n ! i = take n (drop j bs) ! i"
    using i assms by (simp add: mem_bytes_def add.assoc)
qed

lemma env_at_overlay:
  assumes "length (edata e) = n" "n + 4 < 2 ^ 32"
  shows "env_at (overlay m a (env_bytes e)) a n = e"
proof -
  have len: "length (env_bytes e) = n + 4" using assms(1) by (simp add: env_bytes_def)
  have "mem_bytes (overlay m a (env_bytes e)) a 4 = le32 (crc e)"
    using mem_bytes_overlay [of 0 4 "env_bytes e" m a] len assms by (simp add: env_bytes_def)
  then have "rd_le32 (mem_bytes (overlay m a (env_bytes e)) a 4) = Some (crc e)"
    using rd_le32_le32 [of "crc e" "[]"] by simp
  moreover have "mem_bytes (overlay m a (env_bytes e)) (a + 4) n = edata e"
    using mem_bytes_overlay [of 4 n "env_bytes e" m a] len assms by (simp add: env_bytes_def)
  ultimately show ?thesis by (simp add: env_at_def)
qed

lemma sector_disjoint:
  assumes "wf_bank info" "j < sector_count info" "k < sector_count info" "in_sector info j x" "in_sector info k x"
  shows "j = k"
proof (rule ccontr)
  assume "j \<noteq> k"
  then have "last_addr info j < fl_start info ! k \<or> last_addr info k < fl_start info ! j"
    using start_inj(3) [OF assms(1-3)] start_inj(3) [OF assms(1,3,2)] by linarith
  then show False using assms(4,5) unfolding in_sector_def by (metis leD le_less_trans)
qed

lemma write_sector:
  assumes "nor_program prog" "\<not> devinit st" "wheel st < 3" "flash_info st = [info]" "wf_bank info"
    "flash_id info \<noteq> FLASH_UNKNOWN" "k < sector_count info" "fl_protect info ! k = 0"
    "\<forall>x. in_sector info k x \<longrightarrow> mem st x = CHR 0xFF"
    "length src = unat cnt" "cnt \<noteq> 0" "last_addr info k = fl_start info ! k + cnt - 1"
  shows "\<exists>st'. flash_write prog src (fl_start info ! k) cnt st = Some (0, st') \<and>
    changed st (overlay (mem st) (fl_start info ! k) src) [info] st'"
proof -
  let ?a = "fl_start info ! k"
  have o: "?a \<le> ?a + cnt - 1" "fl_start info ! 0 \<le> ?a" "?a + cnt - 1 \<le> bank_last info"
    using sector_order [OF assms(5,7)] assms(12) by simp_all
  have free: "\<not> (\<exists>j < sector_count info. fl_protect info ! j \<noteq> 0 \<and> (\<exists>x. ?a \<le> x \<and> x \<le> ?a + cnt - 1 \<and> in_sector info j x))"
  proof
    assume "\<exists>j < sector_count info. fl_protect info ! j \<noteq> 0 \<and> (\<exists>x. ?a \<le> x \<and> x \<le> ?a + cnt - 1 \<and> in_sector info j x)"
    then obtain j x where j: "j < sector_count info" "fl_protect info ! j \<noteq> 0" "?a \<le> x" "x \<le> ?a + cnt - 1" "in_sector info j x"
      by blast
    then have "in_sector info k x" using assms(12) by (simp add: in_sector_def)
    then have "j = k" using sector_disjoint [OF assms(5) j(1) assms(7) j(5)] by blast
    then show False using j(2) assms(8) by simp
  qed
  have "flash_write prog src ?a cnt st = write_buff prog info src ?a cnt st"
  proof -
    have c: "(cnt = 0) = False" "(?a < fl_start info ! 0 \<or> bank_last info < ?a + cnt - 1) = False"
      using assms(11) o by (simp_all add: not_less)
    show ?thesis
      unfolding flash_write_eq [OF assms(4,5,6) disjI1 [OF o(1)]] c free [THEN eq_False [THEN iffD2]] if_False ..
  qed
  moreover have "\<forall>i < unat cnt. mem st (?a + of_nat i) = CHR 0xFF"
    using assms(9,12) in_range [OF o(1) assms(11)] by (simp add: in_sector_def)
  ultimately show ?thesis
    using write_buff_erased [OF assms(1-3,6,10)] writing_changed assms(4) by metis
qed

lemma saveenv_ok:
  assumes "nor_program prog" "nor_erase info er" "\<not> devinit st" "wheel st < 3" "flash_info st = [info]" "wf_bank info"
    "flash_id info AND FLASH_VENDMASK = FLASH_MAN_INTEL" "k < sector_count info" "fl_start info ! k = CFG_ENV_ADDR"
    "last_addr info k = CFG_ENV_ADDR + of_nat (length (env_bytes (ram_env st))) - 1"
    "length (env_bytes (ram_env st)) < 2 ^ 32" "length (edata (flash_env st)) = length (edata (ram_env st))" "env_in_ram st"
  shows "\<exists>st'. saveenv prog er st = Some (0, st') \<and> flash_env st' = ram_env st \<and> ram_env st' = ram_env st \<and>
    flash_info st' = [with_protect k 1 info] \<and> (\<forall>x. \<not> in_sector info k x \<longrightarrow> mem st' x = mem st x)"
proof -
  let ?i0 = "with_protect k 0 info" and ?i1 = "with_protect k 1 info"
  let ?src = "env_bytes (ram_env st)"
  let ?len = "of_nat (length ?src) :: u32"
  let ?a = "CFG_ENV_ADDR" and ?e = "last_addr info k"
  let ?m1 = "\<lambda>x. if in_sector info k x then CHR 0xFF else mem st x"
  let ?m2 = "overlay ?m1 ?a ?src"
  have id: "flash_id info \<noteq> FLASH_UNKNOWN"
    using assms(7) by (auto simp: FLASH_UNKNOWN_def FLASH_VENDMASK_def FLASH_MAN_INTEL_def)
  have len: "unat ?len = length ?src" using assms(11) by (rule unat_of_nat_u32)
  have "length ?src \<noteq> 0" by (simp add: env_bytes_def)
  then have len0: "?len \<noteq> 0" using len by (metis unat_0)
  have k: "k < length (fl_protect info)" "fl_protect ?i0 ! k = 0"
    using assms(6,8) by (simp_all add: wf_bank_def with_protect_def)
  have er0: "nor_erase ?i0 er" using assms(2) by (simp add: nor_erase_def)
  obtain s1 where s1: "flash_sect_protect 0 ?a ?e st = Some (0, s1)" "changed st (mem st) [?i0] s1"
    using sect_protect_one [OF assms(3-6) id assms(8), of 0] assms(9) by auto
  obtain s2 where s2: "puts (cstr ''Erasing Flash...'') s1 = Some s2" "changed s1 (mem s1) (flash_info s1) s2"
    using puts_changed [of s1 "''Erasing Flash...''"] changed_simps(3,4) [OF s1(2)] assms(3) by auto
  have c2: "changed st (mem st) [?i0] s2"
    using changed_trans [OF s1(2) s2(2)] changed_simps [OF s1(2)] by simp
  obtain s3 where s3: "flash_sect_erase er ?a ?e s2 = Some (0, s3)" "changed s2 ?m1 (flash_info s2) s3"
    using sect_erase_one [of s2 ?i0 k er] changed_simps [OF c2] assms(3,6,7,8,9) id k er0
    by (auto cong: if_cong)
  have c3: "changed st ?m1 [?i0] s3"
    using changed_trans [OF c2 s3(2)] changed_simps [OF c2] by simp
  obtain s4 where s4: "puts (cstr ''Writing to Flash... '') s3 = Some s4" "changed s3 (mem s3) (flash_info s3) s4"
    using puts_changed [of s3 "''Writing to Flash... ''"] changed_simps(3,4) [OF c3] assms(3) by auto
  have c4: "changed st ?m1 [?i0] s4"
    using changed_trans [OF c3 s4(2)] changed_simps [OF c3] by simp
  obtain s5 where s5: "flash_write prog ?src ?a ?len s4 = Some (0, s5)" "changed s4 ?m2 [?i0] s5"
    using write_sector [OF assms(1), of s4 ?i0 k ?src ?len] changed_simps [OF c4] assms(3,6,8,9,10) id k len len0 by auto
  have c5: "changed st ?m2 [?i0] s5" by (rule changed_trans [OF c4 s5(2)])
  obtain s6 where s6: "puts (cstr (''done'' @ [CHR 0x0A])) s5 = Some s6" "changed s5 (mem s5) (flash_info s5) s6"
    using puts_changed [of s5 "''done'' @ [CHR 0x0A]"] changed_simps(3,4) [OF c5] assms(3) by auto
  have c6: "changed st ?m2 [?i0] s6"
    using changed_trans [OF c5 s6(2)] changed_simps [OF c5] by simp
  obtain s7 where s7: "flash_sect_protect 1 ?a ?e s6 = Some (0, s7)" "changed s6 (mem s6) [?i1] s7"
    using sect_protect_one [of s6 ?i0 k 1] changed_simps [OF c6] assms(3,6,8,9) id by auto
  have c7: "changed st ?m2 [?i1] s7"
    using changed_trans [OF c6 s7(2)] changed_simps(1) [OF c6] by simp
  have buf: "env_buffer s4 = ?src"
    using changed_simps(5,6) [OF c4] assms(13) by (simp add: env_buffer_def)
  have n: "length (edata (flash_env st)) + 4 = length ?src" using assms(12) by (simp add: env_bytes_def)
  have "saveenv prog er st = Some (0, sync_env s7)"
    unfolding saveenv_def Let_def n assms(10) [symmetric] s1(1) bind.bind_lunit prod.case
    using s2(1) s3(1) s4(1) s5(1) s6(1) s7(1) buf by simp
  moreover have "flash_env (sync_env s7) = ram_env st"
    using env_at_overlay [of "ram_env st" "length (edata (flash_env s7))" ?m1 ?a] changed_simps [OF c7] assms(11,12)
    by (simp add: sync_env_def env_bytes_def)
  moreover have "mem (sync_env s7) x = mem st x" if "\<not> in_sector info k x" for x
  proof -
    have "\<not> unat (x - ?a) < length ?src"
    proof
      assume l: "unat (x - ?a) < length ?src"
      have "?a \<le> ?a + ?len - 1" using sector_order(2) [OF assms(6,8)] assms(9,10) by simp
      then have "?a \<le> ?a + of_nat (unat (x - ?a))" "?a + of_nat (unat (x - ?a)) \<le> ?a + ?len - 1"
        using in_range [of ?a ?len "unat (x - ?a)"] len0 l len by auto
      then have "in_sector info k x" using assms(9,10) by (simp add: in_sector_def)
      then show False using that by blast
    qed
    then show ?thesis using that changed_simps(1) [OF c7] by (simp add: sync_env_def overlay_def)
  qed
  ultimately show ?thesis using changed_simps [OF c7] by (auto simp: sync_env_def)
qed


text \<open>A board with a small environment in the second of three sectors.\<close>

definition save_bank :: flash_info_t where
  "save_bank = \<lparr>fl_size = 0x20020, sector_count = 3, flash_id = 0x00300001, fl_start = [0, 0x20000, 0x20018],
     fl_protect = [1, 1, 0]\<rparr>"

definition save_data :: buf where
  "save_data = ''a=1'' @ replicate 17 NUL"

definition save_machine :: machine where
  "save_machine = board.extend
     (sample_board\<lparr>ram_env := \<lparr>crc = the (crc32 0 (bytes save_data) 20), edata = save_data\<rparr>\<rparr>)
     \<lparr>mem = (\<lambda>_. NUL), flash_info = [save_bank], wheel = 0\<rparr>"

definition good_erase :: erase where
  "good_erase a m = (True, \<lambda>x. if \<exists>k < 3. fl_start save_bank ! k = a \<and> in_sector save_bank k x then CHR 0xFF else m x)"

lemma save_bank_wf: "wf_bank save_bank"
proof -
  have "i = 0 \<or> i = 1" if "Suc i < 3" for i using that by arith
  then have "[0, 0x20000, 0x20018] ! i < ([0, 0x20000, 0x20018] :: u32 list) ! Suc i" if "Suc i < 3" for i
    using that by fastforce
  then show ?thesis by (simp add: wf_bank_def save_bank_def bank_last_def)
qed

lemma good_erase_nor: "nor_erase save_bank good_erase"
proof -
  have "(\<exists>j < 3. fl_start save_bank ! j = fl_start save_bank ! k \<and> P j) = P k" if "k < 3" for k P
    using start_inj(1) [OF save_bank_wf, of _ k] that by (auto simp: save_bank_def)
  then show ?thesis by (auto simp: nor_erase_def good_erase_def save_bank_def [THEN arg_cong [of _ _ sector_count]])
qed

lemma save_machine_crc: "crc_ok (board.truncate save_machine)"
proof -
  have "length (bytes save_data) = 20" by (simp add: bytes_def save_data_def)
  then obtain c where "crc32 0 (bytes save_data) 20 = Some c" by (simp add: crc32_eq)
  then show ?thesis by (simp add: crc_ok_def ENV_SIZE_def save_machine_def board.defs sample_board_def)
qed


end
