(* ===== verification/Load.thy ===== *)
theory Load
  imports Flash_Cmd Srecord
begin

text \<open>
  Loading and dumping memory as S-records over the serial line (\<open>common/cmd_load.c\<close>): \<open>loads\<close> and
  \<open>saves\<close> without change of the baud rate.
\<close>

section \<open>Reading a record\<close>

definition SREC_MAXRECLEN :: nat where "SREC_MAXRECLEN = 516"
definition SREC_MAXBINLEN :: nat where "SREC_MAXBINLEN = 255"

text \<open>The address of \<open>getc\<close>, from the linker map.\<close>

definition getc_addr :: u32 where "getc_addr = 0x2068b2f8"

text \<open>\<open>do_echo\<close> is the parameter \<open>echoing\<close>; the loop is at position \<open>p\<close> with room for \<open>k\<close> characters.\<close>

fun read_chars :: "nat \<Rightarrow> bool \<Rightarrow> buf \<Rightarrow> nat \<Rightarrow> 'a console_scheme \<Rightarrow> (int \<times> buf \<times> 'a console_scheme) option" where
  "read_chars 0 echoing b p st = do { b \<leftarrow> store b p NUL; Some (int p, b, st) }"
| "read_chars (Suc k) echoing b p st =
     do { (i, st) \<leftarrow> getc st;
          let c = char_of (nat (i mod 256))
          in do { st \<leftarrow> (if echoing then putc c st else Some st);
                  if c = CHR 0x0D \<or> c = CHR 0x0A then do { b \<leftarrow> store b p NUL; Some (int p, b, st) }
                  else if c = NUL \<or> c = CHR 0x03 then Some (-1, b, st)
                  else
                    do { b \<leftarrow> store b p c;
                         (stop, st) \<leftarrow> (if jt_getc st \<noteq> getc_addr then ctrlc st else Some (False, st));
                         if stop then Some (-1, b, st) else read_chars k echoing b (Suc p) st } } }"

definition read_record :: "bool \<Rightarrow> buf \<Rightarrow> nat \<Rightarrow> 'a console_scheme \<Rightarrow> (int \<times> buf \<times> 'a console_scheme) option" where
  "read_record echoing b len st = read_chars (len - 1) echoing b 0 st"

section \<open>Loading\<close>

text \<open>A function of the environment on a state that extends the board.\<close>

definition on_board :: "(board \<Rightarrow> board option) \<Rightarrow> 'a board_scheme \<Rightarrow> 'a board_scheme option" where
  "on_board f st = map_option (\<lambda>b. board.extend b (board.more st)) (f (board.truncate st))"

definition store_data :: "program \<Rightarrow> buf \<Rightarrow> u32 \<Rightarrow> int \<Rightarrow> machine \<Rightarrow> (int \<times> machine) option" where
  "store_data prog binbuf store_addr binlen st =
     do { info \<leftarrow> addr2info (flash_info st) store_addr;
          (case info of
             Some _ \<Rightarrow> flash_write prog binbuf store_addr (of_int binlen) st
           | None \<Rightarrow>
               let n = unat (of_int binlen :: u32)
               in if n > length binbuf then None
                  else Some (0, st\<lparr>mem := overlay (mem st) store_addr (take n binbuf)\<rparr>)) }"

definition load_format :: string where
  "load_format =
     [CHR 0x0A] @ ''## First Load Addr = 0x%08lX'' @ [CHR 0x0A] @ ''## Last  Load Addr = 0x%08lX'' @
     [CHR 0x0A] @ ''## Total Size      = 0x%08lX = %ld Bytes'' @ [CHR 0x0A]"

definition load_end :: "(u32 \<Rightarrow> int) \<Rightarrow> u32 \<Rightarrow> u32 \<Rightarrow> machine \<Rightarrow> machine option" where
  "load_end start start_addr end_addr st =
     (let sz = end_addr - start_addr + 1
      in do { st \<leftarrow> udelay 10000 st;
              st \<leftarrow> printf load_format [VWord start_addr, VWord end_addr, VWord sz, VWord sz] st;
              (b, _, _) \<leftarrow> vsprintf (replicate 32 NUL) (cstr ''%lX'') [VWord sz];
              on_board (setenv start (cstr ''filesize'') (Some b)) st })"

definition tick :: "bool \<Rightarrow> int \<Rightarrow> machine \<Rightarrow> (int \<times> machine) option" where
  "tick echoing line_count st =
     (if echoing then Some (line_count, st)
      else if (line_count + 1) mod 100 = 0 then
        do { st \<leftarrow> putc (CHR ''.'') st; Some (line_count + 1, st) }
      else Some (line_count + 1, st))"

partial_function (option) load_loop ::
  "(u32 \<Rightarrow> int) \<Rightarrow> program \<Rightarrow> bool \<Rightarrow> u32 \<Rightarrow> buf \<Rightarrow> buf \<Rightarrow> int \<Rightarrow> u32 \<Rightarrow> u32 \<Rightarrow> u32 \<Rightarrow> int \<Rightarrow> machine \<Rightarrow>
     (u32 \<times> machine) option" where
  "load_loop start prog echoing offset record binbuf binlen addr start_addr end_addr line_count st =
     do { (n, record, st) \<leftarrow> read_record echoing record (SREC_MAXRECLEN + 1) st;
          if n < 0 then Some (-1, st)
          else
            do { (type, binlen, addr, binbuf) \<leftarrow> srec_decode record binlen addr binbuf;
                 if type < 0 then Some (-1, st)
                 else if type = SREC_DATA2 \<or> type = SREC_DATA3 \<or> type = SREC_DATA4 then
                   let store_addr = addr + offset; store_last = store_addr + of_int binlen - 1
                   in do { (rc, st) \<leftarrow> store_data prog binbuf store_addr binlen st;
                           if rc \<noteq> 0 then do { st \<leftarrow> flash_perror rc st; Some (-1, st) }
                           else
                             do { (line_count, st) \<leftarrow> tick echoing line_count st;
                                  load_loop start prog echoing offset record binbuf binlen addr
                                    (if store_addr < start_addr then store_addr else start_addr)
                                    (if store_last > end_addr then store_last else end_addr) line_count st } }
                 else if type = SREC_END2 \<or> type = SREC_END3 \<or> type = SREC_END4 then
                   do { st \<leftarrow> load_end start start_addr end_addr st; Some (addr, st) }
                 else
                   do { (line_count, st) \<leftarrow> tick echoing line_count st;
                        load_loop start prog echoing offset record binbuf binlen addr start_addr end_addr
                          line_count st } } }"

definition load_serial :: "(u32 \<Rightarrow> int) \<Rightarrow> program \<Rightarrow> bool \<Rightarrow> u32 \<Rightarrow> machine \<Rightarrow> (u32 \<times> machine) option" where
  "load_serial start prog echoing offset st =
     load_loop start prog echoing offset (replicate (SREC_MAXRECLEN + 1) NUL) (replicate SREC_MAXBINLEN NUL) 0 0
       (-1) 0 0 st"

text \<open>The rest of the line after the download.\<close>

fun drain :: "nat \<Rightarrow> 'a console_scheme \<Rightarrow> 'a console_scheme option" where
  "drain 0 st = Some st"
| "drain (Suc k) st =
     do { (t, st) \<leftarrow> tstc st;
          st \<leftarrow> (if t \<noteq> 0 then map_option snd (getc st) else Some st);
          st \<leftarrow> udelay 1000 st;
          drain k st }"

definition do_load_serial ::
  "(u32 \<Rightarrow> int) \<Rightarrow> program \<Rightarrow> buf list \<Rightarrow> machine \<Rightarrow> (int \<times> machine) option" where
  "do_load_serial start prog argv st =
     do { env_echo \<leftarrow> getenv (cstr ''loads_echo'') (board.truncate st);
          echoing \<leftarrow> (case env_echo of None \<Rightarrow> Some False
                      | Some s \<Rightarrow> map_option (\<lambda>c. c = CHR ''1'') (load s 0));
          offset \<leftarrow> (if length argv = 2 then map_option fst (simple_strtoul (argv ! 1) 16) else Some 0);
          st \<leftarrow> printf (''## Ready for S-Record download ...'' @ [CHR 0x0A]) [] st;
          (addr, st) \<leftarrow> load_serial start prog echoing offset st;
          st \<leftarrow> drain 100 st;
          if addr = -1 then
            do { st \<leftarrow> printf (''## S-Record download aborted'' @ [CHR 0x0A]) [] st; Some (1, st) }
          else
            do { st \<leftarrow> printf (''## Start Addr      = 0x%08lX'' @ [CHR 0x0A]) [VWord addr] st;
                 Some (0, st\<lparr>load_addr := addr\<rparr>) } }"

section \<open>Dumping\<close>

fun write_chars :: "buf \<Rightarrow> 'a console_scheme \<Rightarrow> 'a console_scheme option" where
  "write_chars [] st = None"
| "write_chars (c # b) st = (if c = NUL then Some st else do { st \<leftarrow> putc c st; write_chars b st })"

text \<open>The result says that control-C was pressed.\<close>

definition write_record :: "buf \<Rightarrow> 'a console_scheme \<Rightarrow> (bool \<times> 'a console_scheme) option" where
  "write_record b st = do { st \<leftarrow> write_chars b st; ctrlc st }"

definition SREC3_START :: string where "SREC3_START = ''S0030000FC'' @ [CHR 0x0A]"
definition SREC3_FORMAT :: string where "SREC3_FORMAT = ''S3%02X%08lX%s%02X'' @ [CHR 0x0A]"
definition SREC3_END :: string where "SREC3_END = ''S70500000000FA'' @ [CHR 0x0A]"
definition SREC_BYTES_PER_RECORD :: nat where "SREC_BYTES_PER_RECORD = 16"

definition hex_digits :: string where "hex_digits = ''0123456789ABCDEF''"

text \<open>One byte into \<open>data\<close>.\<close>

definition put_byte :: "buf \<Rightarrow> nat \<Rightarrow> char \<Rightarrow> buf option" where
  "put_byte data reclen c =
     do { data \<leftarrow> store data (2 * reclen) (hex_digits ! (code c div 16));
          data \<leftarrow> store data (2 * reclen + 1) (hex_digits ! (code c mod 16));
          store data (2 * reclen + 2) NUL }"

text \<open>The sum of the bytes of \<open>length\<close> (two) and of \<open>address\<close> (four), and the complement.\<close>

definition final_sum :: "u32 \<Rightarrow> u32 \<Rightarrow> u32 \<Rightarrow> u32" where
  "final_sum checksum len address =
     NOT (checksum + (len AND 0xff) + (drop_bit 8 len AND 0xff) + (address AND 0xff) +
       (drop_bit 8 address AND 0xff) + (drop_bit 16 address AND 0xff) + (drop_bit 24 address AND 0xff)) AND 0xff"

definition dump_record :: "u32 \<Rightarrow> nat \<Rightarrow> buf \<Rightarrow> u32 \<Rightarrow> machine \<Rightarrow> (bool \<times> machine) option" where
  "dump_record address reclen data checksum st =
     (let len = of_nat (4 + reclen + 1)
      in do { (r, _, _) \<leftarrow> vsprintf (replicate (2 * SREC_BYTES_PER_RECORD + 16) NUL) (cstr SREC3_FORMAT)
                [VWord len, VWord address, VStr (Some data), VWord (final_sum checksum len address)];
              write_record r st })"

function dump_loop :: "u32 \<Rightarrow> u32 \<Rightarrow> nat \<Rightarrow> buf \<Rightarrow> u32 \<Rightarrow> machine \<Rightarrow> (bool \<times> machine) option" where
  "dump_loop address left reclen data checksum st =
     (case (if left \<noteq> 0 then
              let c = mem st (address + of_nat reclen)
              in map_option (\<lambda>data. (left - 1, Suc reclen, data, checksum + of_char c)) (put_byte data reclen c)
            else Some (left, reclen, data, checksum)) of
        None \<Rightarrow> None
      | Some (left', reclen', data', checksum') \<Rightarrow>
          (case (if (reclen' = SREC_BYTES_PER_RECORD \<or> left' = 0) \<and> reclen' \<noteq> 0
                 then dump_record address reclen' data' checksum' st else Some (False, st)) of
             None \<Rightarrow> None
           | Some (stop, st) \<Rightarrow>
               if stop then Some (True, st)
               else if left' = 0 then Some (False, st)
               else if reclen' = SREC_BYTES_PER_RECORD
               then dump_loop (address + of_nat reclen') left' 0 data' 0 st
               else dump_loop address left' reclen' data' checksum' st))"
  by pat_completeness auto
termination
proof (relation "measure (\<lambda>(_, left, _). unat left)", goal_cases)
  case 1
  then show ?case by simp
qed (auto split: if_splits simp: unat_minus_one unat_gt_0 Let_def)

declare dump_loop.simps [simp del]

definition save_serial :: "u32 \<Rightarrow> u32 \<Rightarrow> machine \<Rightarrow> (bool \<times> machine) option" where
  "save_serial address left st =
     do { (stop, st) \<leftarrow> write_record (cstr SREC3_START) st;
          if stop then Some (True, st)
          else
            do { (stop, st) \<leftarrow> dump_loop address left 0 (replicate (2 * SREC_BYTES_PER_RECORD + 1) NUL) 0 st;
                 if stop then Some (True, st) else write_record (cstr SREC3_END) st } }"

partial_function (option) wait_return :: "'a console_scheme \<Rightarrow> 'a console_scheme option" where
  "wait_return st =
     do { (c, st) \<leftarrow> getc st;
          if c = 13 then Some st else wait_return st }"

definition do_save_serial :: "buf list \<Rightarrow> machine \<Rightarrow> (int \<times> machine) option" where
  "do_save_serial argv st =
     do { offset \<leftarrow> (if length argv \<ge> 2 then map_option fst (simple_strtoul (argv ! 1) 16) else Some 0);
          n \<leftarrow> (if length argv = 3 then map_option fst (simple_strtoul (argv ! 2) 16) else Some 0);
          st \<leftarrow> printf (''## Ready for S-Record upload, press ENTER to proceed ...'' @ [CHR 0x0A]) [] st;
          st \<leftarrow> wait_return st;
          (stop, st) \<leftarrow> save_serial offset n st;
          st \<leftarrow> (if stop then printf (''## S-Record upload aborted'' @ [CHR 0x0A]) [] st
                else printf (''## S-Record upload complete'' @ [CHR 0x0A]) [] st);
          Some (0, st) }"

end
