(* ===== verification/Load_Props.thy ===== *)
theory Load_Props
  imports Load Saveenv
begin

text \<open>
  What \<open>saves\<close> puts on the line is read back by \<open>loads\<close>: the memory is restored, at any offset.
\<close>

section \<open>Hexadecimal digits\<close>

fun hexpad :: "nat \<Rightarrow> nat \<Rightarrow> string" where
  "hexpad 0 n = []"
| "hexpad (Suc k) n = hexpad k (n div 16) @ [upper_hex (n mod 16)]"

lemma upper_hex_0 [simp]: "upper_hex 0 = CHR ''0''"
  by code_simp

lemma hexpad_0: "hexpad k 0 = replicate k (CHR ''0'')"
  by (induction k) (simp_all add: replicate_append_same)

lemma length_hexpad [simp]: "length (hexpad k n) = k"
  by (induction k arbitrary: n) simp_all

lemma upper_digits_hex: "d < 16 \<Longrightarrow> upper_digits ! d = upper_hex d"
proof -
  have "list_all (\<lambda>d. upper_digits ! d = upper_hex d) [0..<16]" by code_simp
  then show "d < 16 \<Longrightarrow> upper_digits ! d = upper_hex d" by (rule list_all_upt)
qed

definition hex_str :: "nat \<Rightarrow> string" where
  "hex_str n = nat_str upper_digits 16 n"

lemma hex_str_small: "n < 16 \<Longrightarrow> hex_str n = [upper_hex n]"
  by (cases "n = 0") (simp_all add: hex_str_def nat_str_def digits_rev.simps upper_digits_hex)

lemma hex_str_step: "16 \<le> n \<Longrightarrow> hex_str n = hex_str (n div 16) @ [upper_hex (n mod 16)]"
proof -
  assume "16 \<le> n"
  then have "n \<noteq> 0" "n div 16 \<noteq> 0" by auto
  then show ?thesis by (simp add: hex_str_def nat_str_def digits_rev.simps [of n] upper_digits_hex)
qed

lemma hexpad_add: "hexpad (j + k) n = hexpad j (n div 16 ^ k) @ hexpad k n"
  by (induction k arbitrary: n) (simp_all add: div_mult2_eq)

lemma hexpad_eq: "n < 16 ^ k \<Longrightarrow> 0 < k \<Longrightarrow> replicate (k - length (hex_str n)) (CHR ''0'') @ hex_str n = hexpad k n"
proof (induction k arbitrary: n)
  case (Suc k)
  show ?case
  proof (cases "n < 16")
    case True
    then show ?thesis by (simp add: hex_str_small hexpad_0)
  next
    case False
    have "n div 16 < 16 ^ k" using Suc.prems(1) by (simp add: less_mult_imp_div_less mult.commute)
    moreover have "0 < k" using Suc.prems(1) False by (cases k) auto
    ultimately have "replicate (k - length (hex_str (n div 16))) (CHR ''0'') @ hex_str (n div 16) = hexpad k (n div 16)"
      by (rule Suc.IH)
    then show ?thesis using False by (simp add: hex_str_step)
  qed
qed simp

lemma hex_byte_char_of: "hex_byte (char_of n) = hexpad 2 n"
proof -
  have "n mod 256 div 16 = n div 16 mod 16" "n mod 256 mod 16 = n mod 16"
    using mod_mult2_eq [of n 16 16] by (simp_all add: mod_mod_cancel)
  then show ?thesis by (simp add: hex_byte_def numeral_2_eq_2)
qed

lemma hex_bytes_be32: "hex_bytes (be32 w) = hexpad 8 (unat w)"
proof -
  have e: "hexpad 8 n = hexpad 2 (n div 16777216) @ hexpad 2 (n div 65536) @ hexpad 2 (n div 256) @ hexpad 2 n" for n
    using hexpad_add [of 6 2 n] hexpad_add [of 4 2 "n div 256"] hexpad_add [of 2 2 "n div 65536"]
    by (simp add: div_mult2_eq [symmetric])
  show ?thesis by (simp add: be32_def hex_byte_char_of e)
qed

definition hex_flags :: fmt_flags where
  "hex_flags = no_flags\<lparr>ZEROPAD := True, LARGE := True\<rparr>"

lemma number_hex:
  assumes "unat w < 16 ^ k" "0 < k"
  shows "number w 16 (int k) (-1) hex_flags = Some (hexpad k (unat w))"
proof -
  have "hexpad k (unat w) = replicate (k - length (hex_str (unat w))) (CHR ''0'') @ hex_str (unat w)"
    using hexpad_eq [OF assms] by simp
  moreover have "number w 16 (int k) (-1) hex_flags =
      Some (replicate (k - length (hex_str (unat w))) (CHR ''0'') @ hex_str (unat w))"
    by (cases "w = 0") (simp_all add: number_def hex_flags_def no_flags_def hex_str_def nat_str_def Let_def
        unat_eq_zero nat_diff_distrib' of_nat_diff)
  ultimately show ?thesis by simp
qed

lemma directive_02X:
  assumes "unat w < 256"
  shows "directive (''02X'' @ fmt) n (VWord w # args) = Some (hexpad 2 (unat w), None, fmt, args)"
  using number_hex [of w 2] assms
  by (simp add: directive_def parse_width_def is_digit_def ichar_eq_int hex_flags_def no_flags_def
      parse_precision_def parse_qualifier_def convert_def int_base_def int_arg_def)

lemma directive_08lX:
  "directive (''08lX'' @ fmt) n (VWord w # args) = Some (hexpad 8 (unat w), None, fmt, args)"
proof -
  have "unat w < 16 ^ 8" using unsigned_less [of w] by simp
  then show ?thesis using number_hex [of w 8]
    by (simp add: directive_def parse_width_def is_digit_def ichar_eq_int hex_flags_def no_flags_def
        parse_precision_def parse_qualifier_def convert_def int_base_def int_arg_def)
qed

section \<open>Dumping\<close>

lemma ucast_8_unat: "(ucast (w :: u32) :: u8) = of_nat (unat w)"
  by transfer simp

lemma of_nat_u8_cong: "x mod 256 = y mod 256 \<Longrightarrow> (of_nat x :: u8) = of_nat y"
  by (simp add: word_unat_eq_iff unat_of_nat)

lemma ucast_add_8: "(ucast (a + b :: u32) :: u8) = ucast a + ucast b"
proof -
  have "of_nat (unat (a + b)) = (of_nat ((unat a + unat b) mod 2 ^ 32) :: u8)"
    by (simp only: unat_word_ariths) simp
  also have "\<dots> = of_nat (unat a + unat b)" by (rule of_nat_u8_cong) (simp add: mod_mod_cancel)
  finally show ?thesis by (simp only: ucast_8_unat of_nat_add)
qed

lemma ucast_not_8: "(ucast (NOT a :: u32) :: u8) = NOT (ucast a)"
  by (rule bit_word_eqI) (auto simp: bit_simps)

lemma ucast_and_8: "(ucast (a AND 0xff :: u32) :: u8) = ucast a"
proof -
  have "(0xff :: u32) = mask 8" by (simp add: mask_eq_exp_minus_1)
  then have m: "bit (0xff :: u32) k \<longleftrightarrow> k < 8" for k
    by (simp only: bit_mask_iff) (auto simp: possible_bit_def)
  have "(0xff :: u8) = mask 8" by (simp add: mask_eq_exp_minus_1)
  then have "bit (0xff :: u8) k \<longleftrightarrow> k < 8" for k
    by (simp only: bit_mask_iff) (auto simp: possible_bit_def)
  with m show ?thesis by (intro bit_word_eqI) (auto simp: bit_simps)
qed

lemma of_char_char_of: "(of_char (char_of n :: char) :: u8) = of_nat (n :: nat)"
proof -
  have "(of_char (char_of n :: char) :: u8) = of_nat (code (char_of n))" by (simp only: of_nat_of_char)
  also have "\<dots> = of_nat (n mod 256)" by (simp only: code_char_of)
  also have "\<dots> = of_nat n" by (rule of_nat_u8_cong) simp
  finally show ?thesis .
qed

lemma ucast_byte: "(ucast (drop_bit k w :: u32) :: u8) = of_char (char_of (unat w div 2 ^ k) :: char)"
  unfolding of_char_char_of ucast_8_unat unat_drop_bit_eq by (simp add: drop_bit_eq_div)

lemma final_sum_checksum:
  assumes "ucast sm = byte_sum ds" "record_length (be32 a) ds < 256"
  shows "ucast (final_sum sm (of_nat (record_length (be32 a) ds)) a) = record_checksum (be32 a) ds"
proof -
  let ?n = "record_length (be32 a) ds"
  have u: "unat (of_nat ?n :: u32) = ?n" using assms(2) by (intro unat_of_nat_u32) simp
  have "?n div 2 ^ 8 = 0" using assms(2) by simp
  then have n: "(ucast (drop_bit 8 (of_nat ?n :: u32)) :: u8) = 0"
    unfolding ucast_8_unat unat_drop_bit_eq u by (simp add: drop_bit_eq_div)
  have n': "(ucast (of_nat ?n :: u32) :: u8) = of_nat ?n" unfolding ucast_8_unat u ..
  have a: "byte_sum (be32 a) = ucast (drop_bit 24 a) + (ucast (drop_bit 16 a) + (ucast (drop_bit 8 a) + ucast a))"
    using ucast_byte [of 0 a] by (simp add: be32_def ucast_byte)
  show ?thesis
    unfolding final_sum_def ucast_and_8 ucast_not_8 ucast_add_8 assms(1) n n'
    by (simp add: record_checksum_def a ac_simps)
qed

text \<open>One record with the bytes \<open>ds\<close>, and the records for a block of memory.\<close>

definition data_record :: "u32 \<Rightarrow> buf \<Rightarrow> string" where
  "data_record a ds =
     record_text (CHR ''3'') (be32 a) ds (char_of (unat (record_checksum (be32 a) ds))) @ [CHR 0x0A]"

fun dump_text :: "u32 \<Rightarrow> buf \<Rightarrow> string" where
  "dump_text a [] = []"
| "dump_text a (c # bs) =
     data_record a (take 16 (c # bs)) @ dump_text (a + of_nat (length (take 16 (c # bs)))) (drop 16 (c # bs))"

declare dump_text.simps(2) [simp del]

lemma upper_hex_nonul: "d < 16 \<Longrightarrow> upper_hex d \<noteq> NUL \<and> upper_hex d \<noteq> CHR ''S'' \<and> upper_hex d \<noteq> CHR 0x0A \<and>
    upper_hex d \<noteq> CHR 0x0D \<and> upper_hex d \<noteq> CHR 0x03"
proof -
  have "list_all (\<lambda>d. upper_hex d \<noteq> NUL \<and> upper_hex d \<noteq> CHR ''S'' \<and> upper_hex d \<noteq> CHR 0x0A \<and>
    upper_hex d \<noteq> CHR 0x0D \<and> upper_hex d \<noteq> CHR 0x03) [0..<16]" by code_simp
  then show "d < 16 \<Longrightarrow> upper_hex d \<noteq> NUL \<and> upper_hex d \<noteq> CHR ''S'' \<and> upper_hex d \<noteq> CHR 0x0A \<and>
    upper_hex d \<noteq> CHR 0x0D \<and> upper_hex d \<noteq> CHR 0x03" by (rule list_all_upt)
qed

text \<open>Characters that \<open>read_record\<close> takes into its buffer.\<close>

definition line_char :: "char \<Rightarrow> bool" where
  "line_char c \<longleftrightarrow> c \<noteq> NUL \<and> c \<noteq> CHR 0x0A \<and> c \<noteq> CHR 0x0D \<and> c \<noteq> CHR 0x03"

lemma hex_byte_line: "c \<in> set (hex_byte b) \<Longrightarrow> line_char c"
  using upper_hex_nonul [of "code b div 16"] upper_hex_nonul [of "code b mod 16"] code_div_16 [of b]
  by (auto simp: hex_byte_def line_char_def)

lemma hex_bytes_line: "c \<in> set (hex_bytes bs) \<Longrightarrow> line_char c"
  by (induction bs) (auto dest: hex_byte_line)

lemma record_text_line: "line_char v \<Longrightarrow> c \<in> set (record_text v as ds ck) \<Longrightarrow> line_char c"
  by (auto simp: record_text_def dest: hex_byte_line hex_bytes_line) (simp add: line_char_def)

lemma line_nonul: "\<forall>c \<in> set s. line_char c \<Longrightarrow> nonul s"
  by (auto simp: nonul_def line_char_def)

lemma length_hex_bytes [simp]: "length (hex_bytes bs) = 2 * length bs"
  by (induction bs) simp_all

lemma dump_format:
  assumes "unat n < 256" "nonul s" "length s < 2 ^ 32" "unat ck < 256"
  shows "vsprintf_loop (cstr SREC3_FORMAT) [VWord n, VWord a, VStr (Some (s @ NUL # r)), VWord ck] [] [] =
    Some (''S3'' @ hexpad 2 (unat n) @ hexpad 8 (unat a) @ s @ hexpad 2 (unat ck) @ [CHR 0x0A], [])"
proof -
  define f4 where "f4 = [CHR 0x0A, NUL]"
  define f3 where "f3 = ''%02X'' @ f4"
  define f2 where "f2 = CHR ''%'' # CHR ''s'' # f3"
  define f1 where "f1 = ''%08lX'' @ f2"
  have f: "cstr SREC3_FORMAT = CHR ''S'' # CHR ''3'' # CHR ''%'' # ''02X'' @ f1"
    by (simp add: SREC3_FORMAT_def cstr_def f1_def f2_def f3_def f4_def)
  have 1: "vsprintf_loop (CHR ''%'' # ''02X'' @ f1) (VWord n # args) out [] =
      vsprintf_loop f1 args (out @ hexpad 2 (unat n)) []" for args out
    using directive_02X [OF assms(1)] by simp
  have 2: "vsprintf_loop f1 (VWord a # args) out [] = vsprintf_loop f2 args (out @ hexpad 8 (unat a)) []" for args out
    using directive_08lX [of f2] by (simp add: f1_def)
  have 3: "vsprintf_loop f2 (VStr (Some (s @ NUL # r)) # args) out [] = vsprintf_loop f3 args (out @ s) []" for args out
    unfolding f2_def by (rule vsprintf_loop_s [OF assms(2,3)])
  have 4: "vsprintf_loop f3 (VWord ck # args) out [] = vsprintf_loop f4 args (out @ hexpad 2 (unat ck)) []" for args out
    using directive_02X [OF assms(4), of f4] by (simp add: f3_def)
  have 5: "vsprintf_loop f4 args out [] = Some (out @ [CHR 0x0A], [])" for args out
    by (simp add: f4_def)
  show ?thesis
    unfolding f by (simp add: 1 2 3 4 5 vsprintf_loop_char del: vsprintf_loop.simps append_Cons)
qed

lemma write_chars_sent: "\<not> devinit st \<Longrightarrow> nonul s \<Longrightarrow> write_chars (s @ NUL # r) st = Some (sent (on_wire s) st)"
proof (induction s arbitrary: st)
  case (Cons c s)
  then show ?case by (simp add: putc_sent nonul_def on_wire_Cons del: putc_serial) auto
qed simp

lemma write_record_sent: "\<lbrakk>\<not> devinit st; serial_rx st = []; nonul s\<rbrakk> \<Longrightarrow>
    write_record (s @ NUL # r) st = Some (False, sent (on_wire s) st)"
  by (simp add: write_record_def write_chars_sent ctrlc_sent)

lemma unat_low_byte: "unat (x AND 0xff :: u32) < 256"
proof -
  have "x AND 0xff = take_bit 8 x" by (simp add: take_bit_eq_mask mask_eq_exp_minus_1)
  then have "unat (x AND 0xff) = take_bit 8 (unat x)" by (simp only: unsigned_take_bit_eq)
  then show ?thesis by (simp add: take_bit_eq_mod)
qed

lemma dump_record_sent:
  assumes "\<not> devinit st" "serial_rx st = []" "0 < length ds" "length ds \<le> 16" "ucast sm = byte_sum ds"
  shows "dump_record a (length ds) (hex_bytes ds @ NUL # r) sm st = Some (False, sent (on_wire (data_record a ds)) st)"
proof -
  let ?n = "record_length (be32 a) ds"
  let ?fs = "final_sum sm (of_nat ?n) a"
  have n: "4 + length ds + 1 = ?n" "?n < 256" using assms(4) by (simp_all add: record_length_def)
  have un: "unat (of_nat ?n :: u32) = ?n" using n(2) by (intro unat_of_nat_u32) simp
  have fs: "unat ?fs < 256" unfolding final_sum_def by (rule unat_low_byte)
  have "unat (ucast ?fs :: u8) = unat ?fs"
    unfolding ucast_8_unat unat_of_nat using fs by simp
  then have ck: "unat (record_checksum (be32 a) ds) = unat ?fs"
    using final_sum_checksum [OF assms(5) n(2)] by simp
  let ?out = "''S3'' @ hexpad 2 (unat (of_nat ?n :: u32)) @ hexpad 8 (unat a) @ hex_bytes ds @ hexpad 2 (unat ?fs) @ [CHR 0x0A]"
  have out: "?out = data_record a ds"
    by (simp add: data_record_def record_text_def hex_byte_char_of hex_bytes_be32 un ck)
  have line: "nonul (data_record a ds)"
    using record_text_line [of "CHR ''3''"] by (auto simp: data_record_def nonul_def line_char_def)
  have loop: "vsprintf_loop (cstr SREC3_FORMAT)
      [VWord (of_nat ?n), VWord a, VStr (Some (hex_bytes ds @ NUL # r)), VWord ?fs] [] [] = Some (data_record a ds, [])"
    unfolding out [symmetric]
    by (rule dump_format) (use n un fs assms(4) hex_bytes_line line_nonul in auto)
  have "length (data_record a ds) < 48" using assms(4) by (simp add: out [symmetric])
  then show ?thesis
    unfolding dump_record_def Let_def n(1) vsprintf_def loop bind.bind_lunit prod.case
    using write_record_sent [OF assms(1,2) line] by (simp add: SREC_BYTES_PER_RECORD_def)
qed

lemma hex_digits_upper: "d < 16 \<Longrightarrow> hex_digits ! d = upper_hex d"
proof -
  have "list_all (\<lambda>d. hex_digits ! d = upper_hex d) [0..<16]" by code_simp
  then show "d < 16 \<Longrightarrow> hex_digits ! d = upper_hex d" by (rule list_all_upt)
qed

lemma hex_bytes_append [simp]: "hex_bytes (xs @ ys) = hex_bytes xs @ hex_bytes ys"
  by (simp add: hex_bytes_def)

lemma put_byte_ok:
  assumes "length data = 33" "length ds < 16" "take (2 * length ds) data = hex_bytes ds"
  shows "\<exists>r. put_byte data (length ds) c = Some (hex_bytes (ds @ [c]) @ NUL # r) \<and> length (hex_bytes (ds @ [c]) @ NUL # r) = 33"
proof -
  let ?k = "2 * length ds"
  let ?r = "drop (?k + 3) data"
  have "data = hex_bytes ds @ drop ?k data" using assms(3) by (metis append_take_drop_id)
  moreover have "drop ?k data = data ! ?k # data ! (?k + 1) # data ! (?k + 2) # ?r"
    using assms(1,2) by (simp add: Cons_nth_drop_Suc numeral_eq_Suc)
  ultimately have d: "data = hex_bytes ds @ data ! ?k # data ! (?k + 1) # data ! (?k + 2) # ?r" by simp
  obtain x y z where d: "data = hex_bytes ds @ x # y # z # ?r" using d by blast
  have "put_byte data (length ds) c = Some (hex_bytes (ds @ [c]) @ NUL # ?r)"
    using assms(1,2) hex_digits_upper [of "code c div 16"] hex_digits_upper [of "code c mod 16"] code_div_16 [of c]
    by (subst d) (simp add: put_byte_def store_def list_update_append hex_byte_def)
  moreover have "length (hex_bytes (ds @ [c]) @ NUL # ?r) = 33" using assms(1,2) by simp
  ultimately show ?thesis by blast
qed

lemma ucast_char: "(ucast (of_char c :: u32) :: u8) = of_char c"
proof -
  have "unat (of_nat (code c) :: u32) = code c" 
    by (rule unat_of_nat_u32, rule less_trans [OF nat_of_char_less_256]) simp
  then have "(ucast (of_nat (code c) :: u32) :: u8) = of_nat (code c)" unfolding ucast_8_unat by simp
  then show ?thesis by (simp only: of_nat_of_char)
qed

lemma byte_sum_append [simp]: "byte_sum (xs @ ys) = byte_sum xs + byte_sum ys"
  by (simp add: byte_sum_def)

lemma dump_text_one: "ds \<noteq> [] \<Longrightarrow> length ds \<le> 16 \<Longrightarrow> dump_text a ds = data_record a ds"
  by (cases ds) (simp_all add: dump_text.simps(2))

lemma dump_text_16: "length ds = 16 \<Longrightarrow> dump_text a (ds @ bs) = data_record a ds @ dump_text (a + 16) bs"
  by (cases ds) (simp_all add: dump_text.simps(2))

lemma mem_bytes_Suc: "mem_bytes m a (Suc n) = m a # mem_bytes m (a + 1) n"
  by (simp add: mem_bytes_def upt_conv_Cons map_Suc_upt [symmetric] comp_def add.assoc del: upt_Suc)

lemma mem_sent [simp]: "mem (sent out st) = mem st"
  by (simp add: sent_def)

lemma dump_loop_text:
  "\<lbrakk>length data = 33; length ds < 16; take (2 * length ds) data = hex_bytes ds; ucast sm = byte_sum ds;
    \<not> devinit st; serial_rx st = []; n = unat left; n = 0 \<longrightarrow> ds = []\<rbrakk> \<Longrightarrow>
   dump_loop a left (length ds) data sm st =
     Some (False, sent (on_wire (dump_text a (ds @ mem_bytes (mem st) (a + of_nat (length ds)) n))) st)"
proof (induction n arbitrary: a left ds data sm st)
  case 0
  then have "left = 0" "ds = []" by (simp_all add: unat_eq_zero)
  then show ?case by (subst dump_loop.simps) (simp add: mem_bytes_def)
next
  case (Suc n)
  let ?c = "mem st (a + of_nat (length ds))"
  let ?ds = "ds @ [?c]"
  have "left \<noteq> 0" using Suc.prems(7) by auto
  then have l: "left \<noteq> 0" "n = unat (left - 1)" using Suc.prems(7) by (auto simp: unat_minus_one)
  then have l: "left \<noteq> 0" "n = unat (left - 1)" "(left - 1 = 0) = (n = 0)"
    by (auto simp: unat_eq_zero)
  obtain r where r: "put_byte data (length ds) ?c = Some (hex_bytes ?ds @ NUL # r)"
    "length (hex_bytes ?ds @ NUL # r) = 33" using put_byte_ok [OF Suc.prems(1-3)] by blast
  have sm: "ucast (sm + of_char ?c) = byte_sum ?ds"
    using Suc.prems(4) by (simp add: ucast_add_8 ucast_char)
  have ms: "mem_bytes (mem st) (a + of_nat (length ds)) (Suc n) = ?c # mem_bytes (mem st) (a + of_nat (length ?ds)) n"
    by (simp add: mem_bytes_Suc algebra_simps)
  have rec: "dump_record a (length ?ds) (hex_bytes ?ds @ NUL # r) (sm + of_char ?c) st =
      Some (False, sent (on_wire (data_record a ?ds)) st)"
    by (rule dump_record_sent [OF Suc.prems(5,6) _ _ sm]) (use Suc.prems(2) in simp_all)
  have step: "dump_loop a left k data sm st =
      (if n = 0 then Some (False, st')
       else if k' = 16 then dump_loop (a + 16) (left - 1) 0 D 0 st'
       else dump_loop a (left - 1) k' D (sm + of_char c) st)"
    if "put_byte data k c = Some D" "c = mem st (a + of_nat k)" "k' = Suc k" "k' \<le> 16"
      "dump_record a k' D (sm + of_char c) st = Some (False, st')" for D k k' c st'
    using that l by (subst dump_loop.simps) (auto simp: Let_def SREC_BYTES_PER_RECORD_def)
  have step: "dump_loop a left (length ds) data sm st =
      (if n = 0 then Some (False, sent (on_wire (data_record a ?ds)) st)
       else if length ?ds = 16 then dump_loop (a + 16) (left - 1) 0 (hex_bytes ?ds @ NUL # r) 0 (sent (on_wire (data_record a ?ds)) st)
       else dump_loop a (left - 1) (length ?ds) (hex_bytes ?ds @ NUL # r) (sm + of_char ?c) st)"
    by (rule step [OF r(1) refl _ _ rec]) (use Suc.prems(2) in simp_all)
  consider "n = 0" | "n \<noteq> 0" "length ?ds = 16" | "n \<noteq> 0" "length ?ds < 16" using Suc.prems(2) by fastforce
  then show ?case
  proof cases
    case 1
    then show ?thesis unfolding step ms using 1 Suc.prems(2)
      by (simp add: mem_bytes_def dump_text_one)
  next
    case 2
    let ?st = "sent (on_wire (data_record a ?ds)) st"
    have "dump_loop (a + 16) (left - 1) 0 (hex_bytes ?ds @ NUL # r) 0 ?st =
        Some (False, sent (on_wire (dump_text (a + 16) (mem_bytes (mem st) (a + 16) n))) ?st)"
      using Suc.IH [where ds = "[]" and a = "a + 16" and left = "left - 1" and sm = 0 and st = ?st, OF r(2)]
        Suc.prems l 2 by simp
    then show ?thesis unfolding step ms using 2 dump_text_16 [OF 2(2), of a] Suc.prems(2)
      by (simp add: on_wire_append)
  next
    case 3
    have "dump_loop a (left - 1) (length ?ds) (hex_bytes ?ds @ NUL # r) (sm + of_char ?c) st =
        Some (False, sent (on_wire (dump_text a (?ds @ mem_bytes (mem st) (a + of_nat (length ?ds)) n))) st)"
      by (rule Suc.IH [OF r(2) 3(2) _ sm Suc.prems(5,6) l(2)]) (use 3 in simp_all)
    then show ?thesis unfolding step ms using 3 by simp
  qed
qed

definition save_text :: "u32 \<Rightarrow> buf \<Rightarrow> string" where
  "save_text a bs = SREC3_START @ dump_text a bs @ SREC3_END"

lemma save_serial_sent:
  assumes "\<not> devinit st" "serial_rx st = []"
  shows "save_serial a left st =
    Some (False, sent (on_wire (save_text a (mem_bytes (mem st) a (unat left)))) st)"
proof -
  have n: "nonul SREC3_START" "nonul SREC3_END" by (simp_all add: SREC3_START_def SREC3_END_def)
  have w: "write_record (cstr s) st' = Some (False, sent (on_wire s) st')"
    if "nonul s" "\<not> devinit st'" "serial_rx st' = []" for s and st' :: machine
    using write_record_sent [OF that(2,3,1), of "[]"] by (simp add: cstr_def)
  let ?st1 = "sent (on_wire SREC3_START) st"
  have "dump_loop a left 0 (replicate 33 NUL) 0 ?st1 =
      Some (False, sent (on_wire (dump_text a (mem_bytes (mem st) a (unat left)))) ?st1)"
    using dump_loop_text [where ds = "[]" and data = "replicate 33 NUL" and sm = 0 and st = ?st1 and left = left and a = a]
      assms by simp
  then show ?thesis
    using assms n by (simp add: save_serial_def w SREC_BYTES_PER_RECORD_def save_text_def on_wire_append)
qed

section \<open>Loading\<close>

lemma read_chars_line:
  "\<lbrakk>\<forall>c \<in> set s. line_char c; e = CHR 0x0A \<or> e = CHR 0x0D; length s < k; p + length s < length b;
    \<not> devinit st; jt_getc st = getc_addr; serial_rx st = map Some (s @ e # q)\<rbrakk> \<Longrightarrow>
   read_chars k echoing b p st =
     Some (int (p + length s), take p b @ s @ NUL # drop (p + length s + 1) b,
       sent (if echoing then on_wire (s @ [e]) else []) (st\<lparr>serial_rx := map Some q\<rparr>))"
proof (induction s arbitrary: k b p st)
  case Nil
  then obtain k' where k: "k = Suc k'" by (cases k) auto
  have e: "e \<noteq> NUL" using Nil(2) by auto
  show ?case
    using Nil k e
    by (auto simp: getc_poll char_of_ichar putc_sent upd_conv_take_nth_drop simp del: putc_serial)
next
  case (Cons c s)
  then obtain k' where k: "k = Suc k'" by (cases k) auto
  have c: "c \<noteq> NUL" "c \<noteq> CHR 0x0A" "c \<noteq> CHR 0x0D" "c \<noteq> CHR 0x03" using Cons.prems(1) by (simp_all add: line_char_def)
  let ?st = "sent (if echoing then on_wire [c] else []) (st\<lparr>serial_rx := map Some (s @ e # q)\<rparr>)"
  have step: "read_chars k echoing b p st = read_chars k' echoing (b[p := c]) (Suc p) ?st"
    using Cons.prems k c by (simp add: getc_poll char_of_ichar putc_sent sent_def del: putc_serial)
  have "read_chars k' echoing (b[p := c]) (Suc p) ?st =
      Some (int (Suc p + length s), take (Suc p) (b[p := c]) @ s @ NUL # drop (Suc p + length s + 1) (b[p := c]),
        sent (if echoing then on_wire (s @ [e]) else []) (?st\<lparr>serial_rx := map Some q\<rparr>))"
    by (rule Cons.IH) (use Cons.prems k in \<open>simp_all add: sent_def\<close>)
  moreover have "take (Suc p) (b[p := c]) @ s @ NUL # drop (Suc p + length s + 1) (b[p := c]) =
      take p b @ (c # s) @ NUL # drop (p + length (c # s) + 1) b"
    using Cons.prems(4) by (simp add: take_Suc_conv_app_nth)
  ultimately show ?case unfolding step by (simp add: sent_def on_wire_Cons)
qed

lemma read_record_line:
  assumes "\<forall>c \<in> set s. line_char c" "e = CHR 0x0A \<or> e = CHR 0x0D" "length s < 516" "length b = 517"
    "\<not> devinit st" "jt_getc st = getc_addr" "serial_rx st = map Some (s @ e # q)"
  shows "read_record echoing b 517 st = Some (int (length s), s @ NUL # drop (length s + 1) b,
     sent (if echoing then on_wire (s @ [e]) else []) (st\<lparr>serial_rx := map Some q\<rparr>))"
  using read_chars_line [OF assms(1,2), of 516 0 b st q echoing] assms by (simp add: read_record_def)

lemma be_value_be32 [simp]: "be_value (be32 w) = w"
proof -
  have "be_value [a, b, c, d] = of_nat (code d + 256 * code c + 65536 * code b + 16777216 * code a)" for a b c d
    by (simp add: be_value_def push_bit_eq_mult of_nat_of_char algebra_simps)
  then show ?thesis using rd_be32_be32 [of w "[]"] by (simp add: be32_def)
qed

lemma tick_sent: "\<not> devinit st \<Longrightarrow> \<exists>n out. tick echoing lines st = Some (n, sent out st)"
  unfolding tick_def
  by (cases echoing; cases "(lines + 1) mod 100 = 0") (auto simp: putc_sent simp del: putc_serial intro: exI [of _ "[]"])

text \<open>What a line does, given the type of its record.\<close>

definition line_step ::
  "(u32 \<Rightarrow> int) \<Rightarrow> program \<Rightarrow> bool \<Rightarrow> u32 \<Rightarrow> buf \<Rightarrow> buf \<Rightarrow> int \<Rightarrow> u32 \<Rightarrow> u32 \<Rightarrow> u32 \<Rightarrow> int \<Rightarrow> machine \<Rightarrow> int \<Rightarrow>
    (u32 \<times> machine) option" where
  "line_step start prog echoing offset record binbuf binlen addr start_addr end_addr lines st type =
     (if type < 0 then Some (-1, st)
      else if type = SREC_DATA2 \<or> type = SREC_DATA3 \<or> type = SREC_DATA4 then
        let store_addr = addr + offset; store_last = store_addr + of_int binlen - 1
        in do { (rc, st) \<leftarrow> store_data prog binbuf store_addr binlen st;
                if rc \<noteq> 0 then do { st \<leftarrow> flash_perror rc st; Some (-1, st) }
                else
                  do { (lines, st) \<leftarrow> tick echoing lines st;
                       load_loop start prog echoing offset record binbuf binlen addr
                         (if store_addr < start_addr then store_addr else start_addr)
                         (if store_last > end_addr then store_last else end_addr) lines st } }
      else if type = SREC_END2 \<or> type = SREC_END3 \<or> type = SREC_END4 then
        do { st \<leftarrow> load_end start start_addr end_addr st; Some (addr, st) }
      else
        do { (lines, st) \<leftarrow> tick echoing lines st;
             load_loop start prog echoing offset record binbuf binlen addr start_addr end_addr lines st })"

lemma load_loop_line:
  assumes "\<forall>c \<in> set s. line_char c" "e = CHR 0x0A \<or> e = CHR 0x0D" "length s < 516" "length record = 517"
    "\<not> devinit st" "jt_getc st = getc_addr" "serial_rx st = map Some (s @ e # q)"
    and "\<And>r. srec_decode (s @ NUL # r) binlen addr binbuf = Some (type, binlen', addr', binbuf')"
  shows "\<exists>record' out. length record' = 517 \<and>
    load_loop start prog echoing offset record binbuf binlen addr sa ea lines st =
      line_step start prog echoing offset record' binbuf' binlen' addr' sa ea lines
        (sent out (st\<lparr>serial_rx := map Some q\<rparr>)) type"
proof (intro exI conjI)
  let ?r = "s @ NUL # drop (length s + 1) record"
  show "length ?r = 517" using assms(3,4) by simp
  have "\<not> int (length s) < 0" by simp
  then show "load_loop start prog echoing offset record binbuf binlen addr sa ea lines st =
      line_step start prog echoing offset ?r binbuf' binlen' addr' sa ea lines
        (sent (if echoing then on_wire (s @ [e]) else []) (st\<lparr>serial_rx := map Some q\<rparr>)) type"
    using read_record_line [OF assms(1-7), of echoing] assms(8) [of "drop (length s + 1) record"]
    by (subst load_loop.simps) (simp add: SREC_MAXRECLEN_def line_step_def)
qed

lemma no_flash_store:
  assumes "addr2info (flash_info st) a = Some None" "n \<le> length binbuf" "n < 2 ^ 31"
  shows "store_data prog binbuf a (int n) st = Some (0, st\<lparr>mem := overlay (mem st) a (take n binbuf)\<rparr>)"
proof -
  have "unat (of_int (int n) :: u32) = n" using assms(3) by (simp add: unat_of_nat)
  then show ?thesis using assms(1,2) by (simp add: store_data_def)
qed

text \<open>The state of the loop between two lines: what has changed besides output.\<close>

definition loaded :: "machine \<Rightarrow> string \<Rightarrow> (u32 \<Rightarrow> char) \<Rightarrow> machine \<Rightarrow> bool" where
  "loaded st q m st' \<longleftrightarrow> (\<exists>tx. st' = st\<lparr>serial_tx := tx, serial_rx := map Some q, mem := m\<rparr>)"

lemma loadedD:
  "loaded st q m st' \<Longrightarrow> devinit st' = devinit st \<and> jt_getc st' = jt_getc st \<and> serial_rx st' = map Some q \<and>
    mem st' = m \<and> flash_info st' = flash_info st"
  by (auto simp: loaded_def devinit_def)

lemma loaded_trans: "loaded st q m st' \<Longrightarrow> loaded st' q' m' st'' \<Longrightarrow> loaded st q' m' st''"
  by (auto simp: loaded_def)

lemma loaded_sent: "loaded st q (mem st) (sent out (st\<lparr>serial_rx := map Some q\<rparr>))"
  by (auto simp: loaded_def sent_def intro!: exI [of _ "serial_tx st @ out"])

lemma loaded_mem: "serial_rx st = map Some q \<Longrightarrow> loaded st q m (sent out (st\<lparr>mem := m\<rparr>))"
  by (auto simp: loaded_def sent_def intro!: exI [of _ "serial_tx st @ out"])

text \<open>Lines without effect: empty ones and start records.\<close>

lemma load_loop_skip:
  assumes "\<forall>c \<in> set s. line_char c" "e = CHR 0x0A \<or> e = CHR 0x0D" "length s < 516" "length record = 517"
    "\<not> devinit st" "jt_getc st = getc_addr" "serial_rx st = map Some (s @ e # q)"
    and "\<And>r. srec_decode (s @ NUL # r) binlen addr binbuf = Some (type, binlen', addr', binbuf')"
    and "type = SREC_EMPTY \<or> type = SREC_START"
  shows "\<exists>record' lines' st'. length record' = 517 \<and> loaded st q (mem st) st' \<and>
    load_loop start prog echoing offset record binbuf binlen addr sa ea lines st =
      load_loop start prog echoing offset record' binbuf' binlen' addr' sa ea lines' st'"
proof -
  obtain record' out where 1: "length record' = 517"
    "load_loop start prog echoing offset record binbuf binlen addr sa ea lines st =
      line_step start prog echoing offset record' binbuf' binlen' addr' sa ea lines
        (sent out (st\<lparr>serial_rx := map Some q\<rparr>)) type"
    using load_loop_line [OF assms(1-8)] by blast
  obtain lines' out' where 2: "tick echoing lines (sent out (st\<lparr>serial_rx := map Some q\<rparr>)) =
      Some (lines', sent out' (sent out (st\<lparr>serial_rx := map Some q\<rparr>)))"
    using tick_sent [of "sent out (st\<lparr>serial_rx := map Some q\<rparr>)" echoing lines] assms(5) by auto
  have "line_step start prog echoing offset record' binbuf' binlen' addr' sa ea lines
        (sent out (st\<lparr>serial_rx := map Some q\<rparr>)) type =
      load_loop start prog echoing offset record' binbuf' binlen' addr' sa ea lines'
        (sent (out @ out') (st\<lparr>serial_rx := map Some q\<rparr>))"
    using assms(9) 2 by (auto simp: line_step_def srec_codes)
  then show ?thesis using 1 loaded_sent [of st q "out @ out'"] by metis
qed

lemma load_loop_empty:
  assumes "e = CHR 0x0A \<or> e = CHR 0x0D" "length record = 517"
    "\<not> devinit st" "jt_getc st = getc_addr" "serial_rx st = map Some (e # q)"
  shows "\<exists>record' lines' st'. length record' = 517 \<and> loaded st q (mem st) st' \<and>
    load_loop start prog echoing offset record binbuf binlen addr sa ea lines st =
      load_loop start prog echoing offset record' binbuf binlen addr sa ea lines' st'"
  by (rule load_loop_skip [where s = "[]" and e = e and type = SREC_EMPTY])
    (use assms in \<open>simp_all add: srec_decode_def\<close>)

text \<open>A data record with its newline on the wire.\<close>

lemma load_loop_data:
  assumes "length ds \<le> 16" "length record = 517" "length binbuf = 255"
    "\<not> devinit st" "jt_getc st = getc_addr" "serial_rx st = map Some (on_wire (data_record a ds) @ q)"
    "addr2info (flash_info st) (a + offset) = Some None"
  shows "\<exists>record' binbuf' lines' st'. length record' = 517 \<and> length binbuf' = 255 \<and>
    loaded st q (overlay (mem st) (a + offset) ds) st' \<and>
    load_loop start prog echoing offset record binbuf binlen addr sa ea lines st =
      load_loop start prog echoing offset record' binbuf' (int (length ds)) a
        (if a + offset < sa then a + offset else sa)
        (if a + offset + of_nat (length ds) - 1 > ea then a + offset + of_nat (length ds) - 1 else ea) lines' st'"
proof -
  let ?ck = "char_of (unat (record_checksum (be32 a) ds)) :: char"
  let ?s = "record_text (CHR ''3'') (be32 a) ds ?ck"
  let ?binbuf = "ds @ drop (length ds) binbuf"
  have line: "\<forall>c \<in> set ?s. line_char c"
    using record_text_line [of "CHR ''3''"] by (auto simp: line_char_def)
  have wire: "on_wire (data_record a ds) = ?s @ CHR 0x0A # [CHR 0x0D]"
  proof -
    have "on_wire s = s" if "\<forall>c \<in> set s. line_char c" for s
      using that by (induction s) (auto simp: on_wire_Cons line_char_def)
    then show ?thesis using line by (simp add: data_record_def on_wire_append on_wire_Cons)
  qed
  have len: "length ?s < 516" using assms(1) by (simp add: record_text_def)
  have rx: "serial_rx st = map Some (?s @ CHR 0x0A # (CHR 0x0D # q))" using assms(6) by (simp add: wire)
  have "of_char ?ck = record_checksum (be32 a) ds" by (simp add: of_char_char_of)
  then have dec: "srec_decode (?s @ NUL # r) binlen addr binbuf = Some (SREC_DATA4, int (length ds), a, ?binbuf)" for r
    using srec_decode_text [of "CHR ''3''" "be32 a" SREC_DATA4 "[]" ds binbuf ?ck "NUL # r" binlen addr] assms(1,3)
    by (simp add: record_kinds_def record_length_def)
  obtain record1 out where 1: "length record1 = 517"
    "load_loop start prog echoing offset record binbuf binlen addr sa ea lines st =
      line_step start prog echoing offset record1 ?binbuf (int (length ds)) a sa ea lines
        (sent out (st\<lparr>serial_rx := map Some (CHR 0x0D # q)\<rparr>)) SREC_DATA4"
    using load_loop_line [OF line _ len assms(2,4,5) rx dec, of start prog echoing offset sa ea lines] by blast
  let ?st1 = "sent out (st\<lparr>serial_rx := map Some (CHR 0x0D # q)\<rparr>)"
  let ?m = "overlay (mem st) (a + offset) ds"
  have f: "addr2info (flash_info ?st1) (a + offset) = Some None" using assms(7) by (simp add: sent_def)
  have n: "length ds \<le> length ?binbuf" "length ds < 2 ^ 31"
    using assms(1) by (simp_all add: le_less_trans [of _ 16])
  have store: "store_data prog ?binbuf (a + offset) (int (length ds)) ?st1 = Some (0, ?st1\<lparr>mem := ?m\<rparr>)"
    using no_flash_store [OF f n, of prog] by simp
  obtain lines2 out2 where 2: "tick echoing lines (?st1\<lparr>mem := ?m\<rparr>) = Some (lines2, sent out2 (?st1\<lparr>mem := ?m\<rparr>))"
    using tick_sent [of "?st1\<lparr>mem := ?m\<rparr>" echoing lines] assms(4) by (auto simp: sent_def devinit_def)
  let ?st2 = "sent out2 (?st1\<lparr>mem := ?m\<rparr>)"
  let ?sa = "if a + offset < sa then a + offset else sa"
  let ?ea = "if a + offset + of_nat (length ds) - 1 > ea then a + offset + of_nat (length ds) - 1 else ea"
  have step: "load_loop start prog echoing offset record binbuf binlen addr sa ea lines st =
      load_loop start prog echoing offset record1 ?binbuf (int (length ds)) a ?sa ?ea lines2 ?st2"
    unfolding 1(2) using store 2 by (simp add: line_step_def Let_def srec_codes)
  have l2: "loaded st (CHR 0x0D # q) ?m ?st2"
    by (auto simp: loaded_def sent_def intro!: exI [of _ "serial_tx st @ out @ out2"])
  obtain record3 lines3 st3 where 3: "length record3 = 517" "loaded ?st2 q (mem ?st2) st3"
    "load_loop start prog echoing offset record1 ?binbuf (int (length ds)) a ?sa ?ea lines2 ?st2 =
      load_loop start prog echoing offset record3 ?binbuf (int (length ds)) a ?sa ?ea lines3 st3"
    using load_loop_empty [of "CHR 0x0D" record1 ?st2 q start prog echoing offset ?binbuf "int (length ds)" a ?sa ?ea lines2]
      1(1) loadedD [OF l2] assms(4,5) by auto
  have "length ?binbuf = 255" using assms(1,3) by simp
  moreover have "loaded st q ?m st3" using loaded_trans [OF l2 3(2)] loadedD [OF l2] by simp
  ultimately show ?thesis using step 3 by metis
qed

lemma u32_add_bound:
  fixes a :: u32
  assumes "unat a + n < 2 ^ 32"
  shows "unat (a + of_nat n) = unat a + n"
proof -
  have "unat (of_nat n :: u32) = n" using assms by (intro unat_of_nat_u32) linarith
  then show ?thesis using assms by (simp add: unat_word_ariths)
qed

text \<open>The first and the last address after a block of \<open>n\<close> bytes at \<open>b\<close>.\<close>

definition low :: "u32 \<Rightarrow> nat \<Rightarrow> u32 \<Rightarrow> u32" where
  "low b n sa = (if n = 0 then sa else min b sa)"

definition high :: "u32 \<Rightarrow> nat \<Rightarrow> u32 \<Rightarrow> u32" where
  "high b n ea = (if n = 0 then ea else max (b + of_nat n - 1) ea)"

lemma last_unat_block:
  fixes b :: u32
  assumes "unat b + n \<le> 2 ^ 32" "n \<noteq> 0"
  shows "unat (b + of_nat n - 1) = unat b + n - 1"
proof -
  have e: "b + of_nat n - 1 = b + of_nat (n - 1)" using assms(2) by (simp add: of_nat_diff)
  have "unat (b + of_nat (n - 1)) = unat b + (n - 1)"
    by (rule u32_add_bound) (use assms in linarith)
  then show ?thesis unfolding e using assms(2) by linarith
qed

lemma low_high_append:
  assumes "unat b + (k + n) \<le> 2 ^ 32" "k \<noteq> 0" "n \<noteq> 0"
  shows "low (b + of_nat k) n (low b k sa) = low b (k + n) sa" "high (b + of_nat k) n (high b k ea) = high b (k + n) ea"
proof -
  have u: "unat (b + of_nat k) = unat b + k" by (rule u32_add_bound) (use assms in linarith)
  then have "b \<le> b + of_nat k" by (simp add: word_le_nat_alt)
  then show "low (b + of_nat k) n (low b k sa) = low b (k + n) sa"
    using assms(2,3) by (simp add: low_def min_def) (meson order_trans)
  have "unat (b + of_nat k - 1) = unat b + k - 1" by (rule last_unat_block) (use assms in linarith)+
  moreover have "unat (b + of_nat (k + n) - 1) = unat b + (k + n) - 1" by (rule last_unat_block) (use assms in linarith)+
  ultimately have "b + of_nat k - 1 \<le> b + of_nat (k + n) - 1" unfolding word_le_nat_alt by linarith
  then have "max (b + of_nat (k + n) - 1) (max (b + of_nat k - 1) ea) = max (b + of_nat (k + n) - 1) ea"
    by (simp add: max_def) (meson order_trans)
  then show "high (b + of_nat k) n (high b k ea) = high b (k + n) ea"
    using assms(2,3) by (simp add: high_def add.assoc)
qed

lemma load_loop_dump:
  "\<lbrakk>length record = 517; length binbuf = 255; \<not> devinit st; jt_getc st = getc_addr;
    serial_rx st = map Some (on_wire (dump_text a bs) @ q); \<forall>x. addr2info (flash_info st) x = Some None;
    unat (a + offset) + length bs \<le> 2 ^ 32\<rbrakk> \<Longrightarrow>
   \<exists>record' binbuf' binlen' addr' lines' st'. length record' = 517 \<and> length binbuf' = 255 \<and>
     loaded st q (overlay (mem st) (a + offset) bs) st' \<and>
     load_loop start prog echoing offset record binbuf binlen addr sa ea lines st =
       load_loop start prog echoing offset record' binbuf' binlen' addr' (low (a + offset) (length bs) sa)
         (high (a + offset) (length bs) ea) lines' st'"
proof (induction bs arbitrary: a "record" binbuf binlen addr sa ea lines st rule: length_induct)
  case (1 bs)
  show ?case
  proof (cases bs)
    case Nil
    then show ?thesis using "1.prems"
      by (intro exI [of _ "record"] exI [of _ binbuf] exI [of _ binlen] exI [of _ addr] exI [of _ lines] exI [of _ st])
        (auto simp: low_def high_def loaded_def intro!: exI [of _ "serial_tx st"])
  next
    case (Cons c cs)
    define ds where "ds = take 16 bs"
    define rest where "rest = drop 16 bs"
    have bs: "bs = ds @ rest" "ds \<noteq> []" "length ds \<le> 16" using Cons by (simp_all add: ds_def rest_def)
    have parts: "dump_text a bs = data_record a ds @ dump_text (a + of_nat (length ds)) rest"
      using Cons by (simp add: dump_text.simps(2) ds_def rest_def)
    have rx: "serial_rx st = map Some (on_wire (data_record a ds) @ on_wire (dump_text (a + of_nat (length ds)) rest) @ q)"
      using "1.prems"(5) by (simp add: parts on_wire_append)
    obtain record1 binbuf1 lines1 st1 where s1: "length record1 = 517" "length binbuf1 = 255"
      "loaded st (on_wire (dump_text (a + of_nat (length ds)) rest) @ q) (overlay (mem st) (a + offset) ds) st1"
      "load_loop start prog echoing offset record binbuf binlen addr sa ea lines st =
        load_loop start prog echoing offset record1 binbuf1 (int (length ds)) a
          (if a + offset < sa then a + offset else sa)
          (if a + offset + of_nat (length ds) - 1 > ea then a + offset + of_nat (length ds) - 1 else ea) lines1 st1"
      using load_loop_data [OF bs(3) "1.prems"(1-4) rx, of offset start prog echoing binlen addr sa ea lines] "1.prems"(6) by blast
    have lh: "(if a + offset < sa then a + offset else sa) = low (a + offset) (length ds) sa"
      "(if a + offset + of_nat (length ds) - 1 > ea then a + offset + of_nat (length ds) - 1 else ea) =
        high (a + offset) (length ds) ea"
      using bs(2) by (auto simp: low_def high_def min_def max_def)
    show ?thesis
    proof (cases "rest = []")
      case True
      then have "ds = bs" using bs(1) by simp
      then have "loaded st q (overlay (mem st) (a + offset) bs) st1" using s1(3) True by simp
      moreover have "load_loop start prog echoing offset record binbuf binlen addr sa ea lines st =
          load_loop start prog echoing offset record1 binbuf1 (int (length ds)) a (low (a + offset) (length bs) sa)
            (high (a + offset) (length bs) ea) lines1 st1"
        using s1(4) lh \<open>ds = bs\<close> by simp
      ultimately show ?thesis using s1(1,2) by blast
    next
      case False
      have ad: "a + of_nat (length ds) + offset = a + offset + of_nat (length ds)" by simp
      have bound: "unat (a + offset) + (length ds + length rest) \<le> 2 ^ 32" using "1.prems"(7) bs(1) by simp
      have ub: "unat (a + of_nat (length ds) + offset) + length rest \<le> 2 ^ 32"
      proof -
        have "length rest \<noteq> 0" using False by simp
        then have "unat (a + offset) + length ds < 2 ^ 32" using bound by linarith
        then show ?thesis unfolding ad using u32_add_bound [of "a + offset" "length ds"] bound by simp
      qed
      have shorter: "length rest < length bs" using bs by simp
      obtain record2 binbuf2 binlen2 addr2 lines2 st2 where s2: "length record2 = 517" "length binbuf2 = 255"
        "loaded st1 q (overlay (mem st1) (a + of_nat (length ds) + offset) rest) st2"
        "load_loop start prog echoing offset record1 binbuf1 (int (length ds)) a (low (a + offset) (length ds) sa)
            (high (a + offset) (length ds) ea) lines1 st1 =
          load_loop start prog echoing offset record2 binbuf2 binlen2 addr2
            (low (a + of_nat (length ds) + offset) (length rest) (low (a + offset) (length ds) sa))
            (high (a + of_nat (length ds) + offset) (length rest) (high (a + offset) (length ds) ea)) lines2 st2"
        using "1.IH" [rule_format, OF shorter s1(1,2), of st1 "a + of_nat (length ds)"] "1.prems" ub loadedD [OF s1(3)]
        by metis
      have o: "overlay (mem st1) (a + of_nat (length ds) + offset) rest = overlay (mem st) (a + offset) bs"
        using overlay_append [of ds rest "mem st" "a + offset"] bound loadedD [OF s1(3)] unfolding ad bs(1)
        by (simp add: less_imp_le)
      have "length ds \<noteq> 0" "length rest \<noteq> 0" using bs(2) False by simp_all
      then have lh2: "low (a + of_nat (length ds) + offset) (length rest) (low (a + offset) (length ds) sa) = low (a + offset) (length bs) sa"
        "high (a + of_nat (length ds) + offset) (length rest) (high (a + offset) (length ds) ea) = high (a + offset) (length bs) ea"
        unfolding ad using low_high_append [OF bound] bs(1) by simp_all
      show ?thesis
        using s1(4) s2(1,2,4) loaded_trans [OF s1(3) s2(3)] unfolding lh lh2 o by metis
    qed
  qed
qed

lemma srec_start_text: "SREC3_START = record_text (CHR ''0'') [NUL, NUL] [] (CHR 0xFC) @ [CHR 0x0A]"
  by code_simp

lemma srec_end_text: "SREC3_END = record_text (CHR ''7'') [NUL, NUL, NUL, NUL] [] (CHR 0xFA) @ [CHR 0x0A]"
  by code_simp

lemma decode_start: "length binbuf = 255 \<Longrightarrow>
    srec_decode (record_text (CHR ''0'') [NUL, NUL] [] (CHR 0xFC) @ NUL # r) binlen addr binbuf =
      Some (SREC_START, 0, 0, binbuf)"
proof -
  have ck: "of_char (CHR 0xFC) = record_checksum [NUL, NUL] []" by code_simp
  have v: "be_value [NUL, NUL] = 0" by code_simp
  show "length binbuf = 255 \<Longrightarrow> ?thesis"
    using srec_decode_text [of "CHR ''0''" "[NUL, NUL]" SREC_START "[]" "[]" binbuf "CHR 0xFC" "NUL # r" binlen addr] ck v
    by (simp add: record_kinds_def record_length_def)
qed

lemma decode_end: "length binbuf = 255 \<Longrightarrow>
    srec_decode (record_text (CHR ''7'') [NUL, NUL, NUL, NUL] [] (CHR 0xFA) @ NUL # r) binlen addr binbuf =
      Some (SREC_END4, 0, 0, binbuf)"
proof -
  have ck: "of_char (CHR 0xFA) = record_checksum [NUL, NUL, NUL, NUL] []" by code_simp
  have v: "be_value [NUL, NUL, NUL, NUL] = 0" by code_simp
  show "length binbuf = 255 \<Longrightarrow> ?thesis"
    using srec_decode_text [of "CHR ''7''" "[NUL, NUL, NUL, NUL]" SREC_END4 "[]" "[]" binbuf "CHR 0xFA" "NUL # r" binlen addr] ck v
    by (simp add: record_kinds_def record_length_def)
qed

text \<open>The whole text.\<close>

lemma load_serial_text:
  assumes "\<not> devinit t" "jt_getc t = getc_addr" "serial_rx t = map Some (on_wire (save_text a bs))"
    "\<forall>x. addr2info (flash_info t) x = Some None" "unat (a + offset) + length bs \<le> 2 ^ 32" "bs \<noteq> []"
  shows "\<exists>t'. loaded t [CHR 0x0D] (overlay (mem t) (a + offset) bs) t' \<and>
    load_serial start prog echoing offset t =
      map_option (\<lambda>s. (0, s)) (load_end start (a + offset) (a + offset + of_nat (length bs) - 1) t')"
proof -
  let ?s0 = "record_text (CHR ''0'') [NUL, NUL] [] (CHR 0xFC)"
  let ?s7 = "record_text (CHR ''7'') [NUL, NUL, NUL, NUL] [] (CHR 0xFA)"
  have line: "\<forall>c \<in> set ?s0. line_char c" "\<forall>c \<in> set ?s7. line_char c"
    using record_text_line [of "CHR ''0''"] record_text_line [of "CHR ''7''"] by (auto simp: line_char_def)
  have wire: "on_wire s = s" if "\<forall>c \<in> set s. line_char c" for s
    using that by (induction s) (auto simp: on_wire_Cons line_char_def)
  have nl: "on_wire [CHR 0x0A] = [CHR 0x0A, CHR 0x0D]" by (simp add: on_wire_Cons)
  let ?dump = "on_wire (dump_text a bs)"
  let ?q7 = "?s7 @ CHR 0x0A # [CHR 0x0D]"
  have rx: "serial_rx t = map Some (?s0 @ CHR 0x0A # (CHR 0x0D # ?dump @ ?q7))"
    unfolding assms(3) save_text_def on_wire_append srec_start_text srec_end_text
    by (simp only: wire [OF line(1)] wire [OF line(2)] nl append.simps append.assoc)
  let ?r0 = "replicate 517 NUL :: buf" and ?b0 = "replicate 255 NUL :: buf"
  have len: "length ?s0 < 516" "length ?s7 < 516" by (simp_all add: record_text_def)
  have lenr: "length ?r0 = 517" by simp
  have dec0: "srec_decode (?s0 @ NUL # r) 0 0 ?b0 = Some (SREC_START, 0, 0, ?b0)" for r by (rule decode_start) simp
  obtain record1 lines1 t1 where 1: "length record1 = 517" "loaded t (CHR 0x0D # ?dump @ ?q7) (mem t) t1"
    "load_loop start prog echoing offset ?r0 ?b0 0 0 (-1) 0 0 t =
      load_loop start prog echoing offset record1 ?b0 0 0 (-1) 0 lines1 t1"
    using load_loop_skip [OF line(1) disjI1 [OF refl] len(1) lenr assms(1,2) rx dec0 disjI2 [OF refl],
        of start prog echoing offset "-1" 0 0] by blast
  obtain record2 lines2 t2 where 2: "length record2 = 517" "loaded t1 (?dump @ ?q7) (mem t1) t2"
    "load_loop start prog echoing offset record1 ?b0 0 0 (-1) 0 lines1 t1 =
      load_loop start prog echoing offset record2 ?b0 0 0 (-1) 0 lines2 t2"
    using load_loop_empty [of "CHR 0x0D" record1 t1 "?dump @ ?q7" start prog echoing offset ?b0 0 0 "-1" 0 lines1]
      1(1) loadedD [OF 1(2)] assms(1,2) by auto
  have l2: "loaded t (?dump @ ?q7) (mem t) t2" using loaded_trans [OF 1(2) 2(2)] loadedD [OF 1(2)] by simp
  obtain record3 binbuf3 binlen3 addr3 lines3 t3 where 3: "length record3 = 517" "length binbuf3 = 255"
    "loaded t2 ?q7 (overlay (mem t2) (a + offset) bs) t3"
    "load_loop start prog echoing offset record2 ?b0 0 0 (-1) 0 lines2 t2 =
      load_loop start prog echoing offset record3 binbuf3 binlen3 addr3 (low (a + offset) (length bs) (-1))
        (high (a + offset) (length bs) 0) lines3 t3"
    using load_loop_dump [of record2 ?b0 t2 a bs ?q7 offset start prog echoing 0 0 "-1" 0 lines2]
      2(1) loadedD [OF l2] assms(1,2,4,5) by auto
  have l3: "loaded t ?q7 (overlay (mem t) (a + offset) bs) t3"
    using loaded_trans [OF l2 3(3)] loadedD [OF l2] by simp
  have lh: "low (a + offset) (length bs) (-1) = a + offset" "high (a + offset) (length bs) 0 = a + offset + of_nat (length bs) - 1"
    using assms(6) by (simp_all add: low_def high_def min_def max_def word_coorder.extremum_unique)
  obtain record4 out where 4: "load_loop start prog echoing offset record3 binbuf3 binlen3 addr3 (a + offset)
        (a + offset + of_nat (length bs) - 1) lines3 t3 =
      line_step start prog echoing offset record4 binbuf3 0 0 (a + offset) (a + offset + of_nat (length bs) - 1) lines3
        (sent out (t3\<lparr>serial_rx := map Some [CHR 0x0D]\<rparr>)) SREC_END4"
    using load_loop_line [OF line(2) _ len(2) 3(1) _ _ _ decode_end [OF 3(2)], of "CHR 0x0A" t3 "[CHR 0x0D]"
        start prog echoing offset binlen3 addr3 "a + offset" "a + offset + of_nat (length bs) - 1" lines3]
      loadedD [OF l3] assms(1,2) by auto
  let ?t4 = "sent out (t3\<lparr>serial_rx := map Some [CHR 0x0D]\<rparr>)"
  have "loaded t [CHR 0x0D] (overlay (mem t) (a + offset) bs) ?t4"
    using loaded_trans [OF l3 loaded_sent [of t3 "[CHR 0x0D]" out]] loadedD [OF l3] by simp
  moreover have "load_serial start prog echoing offset t =
      map_option (\<lambda>s. (0, s)) (load_end start (a + offset) (a + offset + of_nat (length bs) - 1) ?t4)"
    using 1(3) 2(3) 3(4) 4 unfolding lh load_serial_def SREC_MAXRECLEN_def SREC_MAXBINLEN_def
    by (simp add: line_step_def srec_codes) (cases "load_end start (a + offset) (a + offset + of_nat (length bs) - 1) ?t4"; simp)
  ultimately show ?thesis by blast
qed

section \<open>Properties\<close>





end
