(* ===== verification/Timer_Props.thy ===== *)
theory Timer_Props
  imports Cli_Props Messages Environment_Props
begin

text \<open>
  What the stopped timer (\<open>Timer\<close>) means for the code that waits: the countdown before the
  automatic boot never ends by itself.
\<close>

lemma say_countdown:
  assumes "\<not> devinit st" "0 < n" "n < 2147483648"
  shows "\<exists>st'. printf ''Hit any key to stop autoboot: %2d '' [VWord (of_int n)] st = Some st' \<and> printed st st'"
proof -
  let ?w = "of_int n :: u32"
  have "sint ?w = n" using assms(2,3) by (simp add: signed_of_int signed_take_bit_int_eq_self)
  then have s: "\<not> sint ?w < 0" using assms(2) by simp
  let ?d = "replicate (2 - length (udec (unat ?w))) (CHR '' '') @ udec (unat ?w)"
  define g where "g = cstr '' ''"
  have f: "cstr ''Hit any key to stop autoboot: %2d '' =
      ''Hit any key to stop autoboot: '' @ CHR ''%'' # CHR ''2'' # CHR ''d'' # g"
    by (simp add: cstr_def g_def)
  have d: "directive (CHR ''2'' # CHR ''d'' # g) k [VWord ?w] = Some (?d, None, g, [])" for k
    by (rule directive_2d [OF s])
  have e: "vsprintf_loop g [] out [] = Some (out @ '' '', [])" for out
    by (simp add: g_def cstr_def)
  have "vsprintf_loop (cstr ''Hit any key to stop autoboot: %2d '') [VWord ?w] [] [] =
      Some (''Hit any key to stop autoboot: '' @ ?d @ '' '', [])"
    unfolding f by (simp add: d e)
  then show ?thesis
  proof (rule printf_printed [OF assms(1)])
    have "unat ?w < 10 ^ 10" using unat_u32_less [of ?w] by simp
    then have "length (udec (unat ?w)) \<le> 10" by (intro udec_length) auto
    then show "length (''Hit any key to stop autoboot: '' @ ?d @ '' '') < CFG_PBSIZE"
      by (simp add: CFG_PBSIZE_def)
  qed (auto simp: udec_nonul nonul_def [of "replicate _ _"])
qed

lemma say_countdown_key:
  assumes "\<not> devinit st"
  shows "\<exists>st'. printf ([CHR 0x08, CHR 0x08, CHR 0x08] @ ''%2d '') [VWord 0] st = Some st' \<and> printed st st'"
proof (rule printf_printed [OF assms])
  show "vsprintf_loop (cstr ([CHR 0x08, CHR 0x08, CHR 0x08] @ ''%2d '')) [VWord 0] [] [] =
      Some ([CHR 0x08, CHR 0x08, CHR 0x08] @ '' 0 '', [])" by code_simp
qed (simp_all add: CFG_PBSIZE_def)

text \<open>The first poll decides: a waiting character ends it, otherwise the delay does not return.\<close>

lemma poll_key_first:
  assumes "\<not> devinit st" "lastdec st = 0" "timestamp st = 0"
  shows "poll_key (Suc k) st =
    (case serial_rx st of Some c # q \<Rightarrow> Some (True, st\<lparr>serial_rx := q\<rparr>) | _ \<Rightarrow> None)"
proof (cases "serial_rx st")
  case Nil
  then show ?thesis using assms
    by (simp add: tstc_def serial_tstc_def udelay_stopped delay_10000)
next
  case (Cons x q)
  then show ?thesis using assms
    by (cases x) (simp_all add: tstc_def serial_tstc_def udelay_stopped delay_10000 getc_def serial_getc_def)
qed

lemma abortboot_decides:
  assumes "lastdec st = 0" "timestamp st = 0" "\<not> devinit st" "0 < n" "n < 2147483648"
  shows "(\<exists>c q. serial_rx st = Some c # q \<and> (\<exists>st'. abortboot n st = Some (True, st'))) \<or>
    (\<forall>c q. serial_rx st \<noteq> Some c # q) \<and> abortboot n st = None"
proof -
  obtain st1 where p: "printf ''Hit any key to stop autoboot: %2d '' [VWord (of_int n)] st = Some st1"
    "printed st st1" using say_countdown [OF assms(3-5)] by blast
  then have st1: "lastdec st1 = 0" "timestamp st1 = 0" "\<not> devinit st1" "serial_rx st1 = serial_rx st"
    using assms by (auto simp: printed_def)
  obtain m where m: "nat n = Suc m" using assms(4) by (cases "nat n") auto
  have poll: "poll_key 100 st1 =
      (case serial_rx st of Some c # q \<Rightarrow> Some (True, st1\<lparr>serial_rx := q\<rparr>) | _ \<Rightarrow> None)"
    using poll_key_first [OF st1(3,1,2), of 99] st1(4) by simp
  show ?thesis
  proof (cases "\<exists>c q. serial_rx st = Some c # q")
    case True
    then obtain c q where rx: "serial_rx st = Some c # q" by blast
    let ?s = "st1\<lparr>serial_rx := q\<rparr>"
    obtain st2 where "printf ([CHR 0x08, CHR 0x08, CHR 0x08] @ ''%2d '') [VWord 0] ?s = Some st2" "printed ?s st2"
      using say_countdown_key [of ?s] st1 by auto
    moreover from this have "putc (CHR 0x0A) st2 = Some (sent (on_wire [CHR 0x0A]) st2)"
      using st1 by (intro putc_sent) (simp add: printed_devinit)
    ultimately have "abortboot n st = Some (True, sent (on_wire [CHR 0x0A]) st2)"
      using p poll rx unfolding abortboot_def m countdown.simps by simp
    then show ?thesis using rx by auto
  next
    case False
    then have "poll_key 100 st1 = None"
      unfolding poll by (auto split: list.splits option.splits)
    then have "abortboot n st = None"
      using p unfolding abortboot_def m countdown.simps by simp
    then show ?thesis using False by blast
  qed
qed

text \<open>C23: With the timer as it is at the start (\<open>timestamp\<close> and \<open>lastdec\<close> are 0, which no read of
  the timer ever changes), the countdown of the automatic boot returns exactly when a character is
  waiting at its first poll, and then reports an abort: without a key press it hangs in the first
  \<open>udelay\<close>, so the boot command is never run.\<close>

theorem autoboot_needs_key:
  assumes "lastdec st = 0" "timestamp st = 0" "\<not> devinit st" "0 < n" "n < 2147483648"
  shows "(\<exists>c q. serial_rx st = Some c # q \<and> (\<exists>st'. abortboot n st = Some (True, st'))) \<or>
    (\<forall>c q. serial_rx st \<noteq> Some c # q) \<and> abortboot n st = None"
  by (rule abortboot_decides [OF assms])

theorem autoboot_needs_key_witness: "abortboot 5 sample_board = None"
  using autoboot_needs_key [of sample_board 5]
  by (simp add: sample_board_def devinit_def)

end
