(* ===== verification/Inet.thy ===== *)
theory Inet
  imports Environment
begin

text \<open>
  Addresses, checksums and header layouts of the network code (\<open>net/net.c\<close>, \<open>include/net.h\<close>).
  An IP address is a \<open>ulong\<close> that holds its four bytes in memory order; a header in a packet
  is the bytes of its fields, which are big-endian.
\<close>

section \<open>Constants\<close>

definition ETHER_HDR_SIZE :: nat where "ETHER_HDR_SIZE = 14"
definition E802_HDR_SIZE :: nat where "E802_HDR_SIZE = 22"
definition VLAN_ETHER_HDR_SIZE :: nat where "VLAN_ETHER_HDR_SIZE = 18"
definition PROT_IP :: u16 where "PROT_IP = 0x0800"
definition PROT_ARP :: u16 where "PROT_ARP = 0x0806"
definition PROT_RARP :: u16 where "PROT_RARP = 0x8035"
definition PROT_VLAN :: u16 where "PROT_VLAN = 0x8100"
definition IPPROTO_ICMP :: nat where "IPPROTO_ICMP = 1"
definition IPPROTO_UDP :: nat where "IPPROTO_UDP = 17"
definition IP_HDR_SIZE_NO_UDP :: nat where "IP_HDR_SIZE_NO_UDP = 20"
definition IP_HDR_SIZE :: nat where "IP_HDR_SIZE = 28"
definition ARP_HDR_SIZE :: nat where "ARP_HDR_SIZE = 28"
definition ARP_ETHER :: u16 where "ARP_ETHER = 1"
definition ARPOP_REQUEST :: u16 where "ARPOP_REQUEST = 1"
definition ARPOP_REPLY :: u16 where "ARPOP_REPLY = 2"
definition RARPOP_REQUEST :: u16 where "RARPOP_REQUEST = 3"
definition RARPOP_REPLY :: u16 where "RARPOP_REPLY = 4"
definition ICMP_ECHO_REPLY :: nat where "ICMP_ECHO_REPLY = 0"
definition ICMP_REDIRECT :: nat where "ICMP_REDIRECT = 5"
definition ICMP_REDIR_HOST :: nat where "ICMP_REDIR_HOST = 1"
definition PKTSIZE_ALIGN :: nat where "PKTSIZE_ALIGN = 1536"
definition VLAN_NONE :: u16 where "VLAN_NONE = 4095"
definition VLAN_IDMASK :: u16 where "VLAN_IDMASK = 0x0fff"

definition NetBcastAddr :: buf where "NetBcastAddr = replicate 6 (CHR 0xFF)"
definition NetEtherNullAddr :: buf where "NetEtherNullAddr = replicate 6 NUL"

text \<open>A \<open>memcpy\<close> or a sequence of field assignments to the buffer \<open>b\<close> from \<open>p\<close> on.\<close>

definition put :: "buf \<Rightarrow> nat \<Rightarrow> buf \<Rightarrow> buf option" where
  "put b p bs = copy_in b p bs (length bs)"

text \<open>\<open>memcpy (dst, src, n)\<close> out of the buffer \<open>b\<close> from \<open>p\<close> on.\<close>

definition get_bytes :: "buf \<Rightarrow> nat \<Rightarrow> nat \<Rightarrow> buf option" where
  "get_bytes b p n = (if p + n \<le> length b then Some (take n (drop p b)) else None)"

section \<open>The Internet checksum\<close>

text \<open>\<open>while (len-- > 0) { xsum += *((ushort *)ptr); ptr += 2; }\<close>\<close>

fun cksum_sum :: "nat \<Rightarrow> buf \<Rightarrow> u32 \<Rightarrow> u32 option" where
  "cksum_sum 0 b xsum = Some xsum"
| "cksum_sum (Suc n) b xsum =
     do { h \<leftarrow> rd_le16 b; cksum_sum n (drop 2 b) (xsum + ucast h) }"

definition cksum_fold :: "u32 \<Rightarrow> u32" where
  "cksum_fold xsum = (xsum AND 0xffff) + drop_bit 16 xsum"

definition NetCksum :: "buf \<Rightarrow> nat \<Rightarrow> u32 option" where
  "NetCksum ptr len =
     map_option (\<lambda>xsum. cksum_fold (cksum_fold xsum) AND 0xffff) (cksum_sum len ptr 0)"

definition NetCksumOk :: "buf \<Rightarrow> nat \<Rightarrow> bool option" where
  "NetCksumOk ptr len = map_option (\<lambda>x. (x + 1) AND 0xfffe = 0) (NetCksum ptr len)"

section \<open>Addresses as strings\<close>

definition ip_to_string :: "u32 \<Rightarrow> buf \<Rightarrow> buf option" where
  "ip_to_string x s =
     (let x = htonl x
      in map_option fst
           (vsprintf s (cstr ''%d.%d.%d.%d'')
              [VWord (drop_bit 24 x AND 0xff), VWord (drop_bit 16 x AND 0xff),
               VWord (drop_bit 8 x AND 0xff), VWord (x AND 0xff)]))"

definition string_to_ip :: "buf option \<Rightarrow> u32 option" where
  "string_to_ip s =
     (case s of None \<Rightarrow> Some 0
      | Some s \<Rightarrow> map_option htonl (parse_ipaddr (Some s)))"

definition VLAN_to_string :: "u16 \<Rightarrow> buf \<Rightarrow> buf option" where
  "VLAN_to_string x s =
     (let x = htons x; x = (if x = 0xffff then VLAN_NONE else x)
      in if x = VLAN_NONE then strcpy s (cstr ''none'')
         else map_option fst (vsprintf s (cstr ''%d'') [VWord (ucast (x AND VLAN_IDMASK))]))"

definition string_to_VLAN :: "buf option \<Rightarrow> u16 option" where
  "string_to_VLAN s =
     (case s of None \<Rightarrow> Some (htons VLAN_NONE)
      | Some s \<Rightarrow>
          do { c \<leftarrow> load s 0;
               if ichar c < ichar (CHR ''0'') \<or> ichar (CHR ''9'') < ichar c then Some (htons VLAN_NONE)
               else map_option (\<lambda>(v, _). htons (ucast v)) (simple_strtoul s 10) })"

definition print_IPaddr :: "u32 \<Rightarrow> 'a console_scheme \<Rightarrow> 'a console_scheme option" where
  "print_IPaddr x st = do { tmp \<leftarrow> ip_to_string x (replicate 16 NUL); puts tmp st }"

definition getenv_IPaddr :: "buf \<Rightarrow> board \<Rightarrow> u32 option" where
  "getenv_IPaddr var st = do { v \<leftarrow> getenv var st; string_to_ip v }"

definition getenv_VLAN :: "buf \<Rightarrow> board \<Rightarrow> u16 option" where
  "getenv_VLAN var st = do { v \<leftarrow> getenv var st; string_to_VLAN v }"

section \<open>Headers\<close>

text \<open>\<open>myvlanid\<close>: 0xFFFF, the default, stands for no VLAN.\<close>

definition own_vlan :: "u16 \<Rightarrow> u16" where
  "own_vlan v = (let v = htons v in if v = 0xffff then VLAN_NONE else v)"

definition tagged :: "u16 \<Rightarrow> bool" where
  "tagged vlan \<longleftrightarrow> own_vlan vlan AND VLAN_IDMASK \<noteq> VLAN_NONE"

definition eth_header :: "u16 \<Rightarrow> buf \<Rightarrow> buf \<Rightarrow> u16 \<Rightarrow> buf" where
  "eth_header vlan dest src prot =
     (if tagged vlan
      then dest @ src @ be16 PROT_VLAN @ be16 (own_vlan vlan AND VLAN_IDMASK) @ be16 prot
      else dest @ src @ be16 prot)"

text \<open>The IP and UDP header that \<open>NetSetIP\<close> constructs, with the given bytes of the checksum.\<close>

definition ip_header :: "u16 \<Rightarrow> u32 \<Rightarrow> u32 \<Rightarrow> nat \<Rightarrow> nat \<Rightarrow> nat \<Rightarrow> buf \<Rightarrow> buf" where
  "ip_header ident src dest dport sport len ck =
     [CHR 0x45, NUL] @ be16 (of_nat (IP_HDR_SIZE + len)) @ be16 ident @ be16 0x4000 @
     [CHR 0xFF, CHR 0x11] @ ck @ le32 src @ le32 dest @
     be16 (of_nat sport) @ be16 (of_nat dport) @ be16 (of_nat (8 + len)) @ [NUL, NUL]"

definition set_ip :: "u16 \<Rightarrow> u32 \<Rightarrow> buf \<Rightarrow> nat \<Rightarrow> u32 \<Rightarrow> nat \<Rightarrow> nat \<Rightarrow> nat \<Rightarrow> buf option" where
  "set_ip ident src b p dest dport sport len =
     do { b \<leftarrow> (if odd len then store b (p + IP_HDR_SIZE + len) NUL else Some b);
          b \<leftarrow> put b p (ip_header ident src dest dport sport len [NUL, NUL]);
          c \<leftarrow> NetCksum (drop p b) (IP_HDR_SIZE_NO_UDP div 2);
          put b (p + 10) (le16 (ucast (NOT c))) }"

end
