(* ===== verification/Inet_Props.thy ===== *)
theory Inet_Props
  imports Inet Messages
begin

text \<open>
  The Internet checksum as a sum modulo \<open>2^16 - 1\<close>: a header into which \<open>NetCksum\<close> has been put is
  accepted by \<open>NetCksumOk\<close>.  Addresses survive printing and reading.
\<close>

section \<open>Writing into packets\<close>

lemma put_eq [buffer_simps]:
  "p + length bs \<le> length b \<Longrightarrow> put b p bs = Some (take p b @ bs @ drop (p + length bs) b)"
  by (simp add: put_def copy_in_eq)

lemma put_length: "put b p bs = Some b' \<Longrightarrow> p + length bs \<le> length b \<Longrightarrow> length b' = length b"
  by (auto simp: put_eq)

lemma get_bytes_append [buffer_simps]:
  "length bs = n \<Longrightarrow> length a = p \<Longrightarrow> get_bytes (a @ bs @ r) p n = Some bs"
  by (simp add: get_bytes_def)

section \<open>Checksums\<close>

text \<open>The sum of the little-endian halfwords, and one folding step, on natural numbers.\<close>

fun hw_sum :: "buf \<Rightarrow> nat" where
  "hw_sum (a # b # r) = code a + 256 * code b + hw_sum r"
| "hw_sum _ = 0"

definition cfold :: "nat \<Rightarrow> nat" where
  "cfold n = n mod 65536 + n div 65536"

lemma hw_sum_append: "even (length a) \<Longrightarrow> hw_sum (a @ b) = hw_sum a + hw_sum b"
  by (induction a rule: hw_sum.induct) auto

lemma hw_sum_bound: "hw_sum a \<le> 65535 * (length a div 2)"
proof (induction a rule: hw_sum.induct)
  case (1 a b r)
  have "code a \<le> 255" "code b \<le> 255" by simp_all
  then have "code a + 256 * code b \<le> 65535" by linarith
  then have "code a + 256 * code b + hw_sum r \<le> 65535 + 65535 * (length r div 2)"
    using 1 by (rule add_mono)
  then show ?case by simp
qed auto

lemma ucast_32_unat: "(ucast (w :: u16) :: u32) = of_nat (unat w)"
  by transfer simp

lemma cksum_sum_eq: "2 * n \<le> length b \<Longrightarrow> cksum_sum n b x = Some (x + of_nat (hw_sum (take (2 * n) b)))"
proof (induction n arbitrary: b x)
  case (Suc n)
  then obtain c d r where b: "b = c # d # r" by (metis Suc_le_length_iff mult_Suc_right add_2_eq_Suc)
  have "code c + 256 * code d < 65536" using code_le_255 [of c] code_le_255 [of d] by linarith
  then have "unat (of_nat (code c + 256 * code d) :: u16) = code c + 256 * code d"
    unfolding unat_of_nat by (intro mod_less) simp
  then have u: "(ucast (of_nat (code c + 256 * code d) :: u16) :: u32) = of_nat (code c + 256 * code d)"
    unfolding ucast_32_unat by simp
  have "2 * n \<le> length r" using Suc.prems b by simp
  then show ?case using Suc.IH [of r] u b by (simp add: add.assoc)
qed simp

lemma cksum_fold_unat: "unat (cksum_fold w) = cfold (unat w)"
proof -
  have low: "unat (w AND 0xffff) = unat w mod 65536"
  proof -
    have "w AND 0xffff = take_bit 16 w" by (simp add: take_bit_eq_mask mask_numeral)
    then show ?thesis by (simp add: unsigned_take_bit_eq take_bit_nat_def)
  qed
  have high: "unat (drop_bit 16 w) = unat w div 65536"
    unfolding unat_drop_bit_eq by (simp add: drop_bit_eq_div)
  have "unat w div 65536 < 65536" using unat_u32_less [of w] by (simp add: div_less_iff_less_mult)
  moreover have "unat w mod 65536 < 65536" by (rule mod_less_divisor) simp
  ultimately have "unat w mod 65536 + unat w div 65536 < 65536 + 65536" by (rule add_strict_mono [rotated])
  then have "cfold (unat w) < 2 ^ LENGTH(32)" unfolding cfold_def by (rule less_trans) simp
  then show ?thesis
    unfolding cksum_fold_def unat_word_ariths(1) low high cfold_def [symmetric] by (rule mod_less)
qed

lemma cfold_split: "n = 65535 * (n div 65536) + cfold n"
proof -
  define q where "q = n div 65536"
  define r where "r = n mod 65536"
  have "n = 65536 * q + r" unfolding q_def r_def by (rule mult_div_mod_eq [symmetric])
  moreover have "cfold n = r + q" by (simp add: cfold_def q_def r_def)
  ultimately show ?thesis unfolding q_def [symmetric] by linarith
qed

lemma cfold_mod: "cfold n mod 65535 = n mod 65535"
  by (subst (2) cfold_split [of n]) simp

lemma cfold_eq_0: "cfold n = 0 \<longleftrightarrow> n = 0"
  using mult_div_mod_eq [of 65536 n] by (auto simp: cfold_def)

lemma cfold_small: "n < 65536 \<Longrightarrow> cfold n = n"
  by (simp add: cfold_def)

lemma cfold_twice:
  assumes "n < 4294967296"
  shows "cfold (cfold n) \<le> 65535"
proof -
  have "n div 65536 \<le> 65535" using assms by (simp add: div_less_iff_less_mult less_Suc_eq_le [symmetric])
  moreover have "n mod 65536 \<le> 65535" by (simp add: less_Suc_eq_le [symmetric])
  ultimately have b: "cfold n \<le> 131070" by (simp add: cfold_def)
  show ?thesis
  proof (cases "cfold n < 65536")
    case False
    then have "cfold n div 65536 = 1" "cfold n mod 65536 = cfold n - 65536"
      using b by (simp_all add: div_nat_eqI mod_if)
    then show ?thesis using b unfolding cfold_def [of "cfold n"] by simp
  qed (simp add: cfold_small)
qed

text \<open>The checksum of a sum of halfwords: the sum modulo 65535, in 1 to 65535 unless it is 0.\<close>

definition cksum_of :: "nat \<Rightarrow> nat" where
  "cksum_of n = cfold (cfold n)"

lemma cksum_of_mod: "cksum_of n mod 65535 = n mod 65535"
  by (simp add: cksum_of_def cfold_mod)

lemma cksum_of_eq_0: "cksum_of n = 0 \<longleftrightarrow> n = 0"
  by (simp add: cksum_of_def cfold_eq_0)

lemma NetCksum_eq:
  assumes "2 * n \<le> length b" "n < 65536"
  shows "NetCksum b n = Some (of_nat (cksum_of (hw_sum (take (2 * n) b))))"
    "cksum_of (hw_sum (take (2 * n) b)) \<le> 65535"
proof -
  let ?h = "hw_sum (take (2 * n) b)"
  have "?h \<le> 65535 * n" using hw_sum_bound [of "take (2 * n) b"] assms(1) by (simp add: min_absorb2)
  also have "\<dots> < 4294967296" using assms(2) by linarith
  finally have h: "?h < 4294967296" .
  then show le: "cksum_of ?h \<le> 65535" unfolding cksum_of_def by (rule cfold_twice)
  have u: "unat (of_nat ?h :: u32) = ?h" using h by (simp add: unat_of_nat)
  let ?c = "cksum_fold (cksum_fold (of_nat ?h))"
  have c: "unat ?c = cksum_of ?h" by (simp add: cksum_fold_unat u cksum_of_def)
  have "?c AND 0xffff = take_bit 16 ?c" by (simp add: take_bit_eq_mask mask_numeral)
  moreover have "unat (take_bit 16 ?c) = cksum_of ?h"
    using le by (simp add: unsigned_take_bit_eq take_bit_nat_def c)
  ultimately have "?c AND 0xffff = of_nat (cksum_of ?h)" by (metis of_nat_unat ucast_id)
  then show "NetCksum b n = Some (of_nat (cksum_of ?h))"
    using assms(1) by (simp add: NetCksum_def cksum_sum_eq)
qed

lemma ucast_not_16:
  assumes "k \<le> 65535"
  shows "unat (ucast (NOT (of_nat k :: u32)) :: u16) = 65535 - k"
proof -
  have "(ucast (NOT (of_nat k :: u32)) :: u16) = NOT (of_nat k)"
    by (rule bit_word_eqI) (simp add: bit_simps)
  also have "\<dots> = 65535 - of_nat k" by (simp add: not_eq_complement)
  also have "unat (65535 - of_nat k :: u16) = 65535 - k"
  proof -
    have k: "unat (of_nat k :: u16) = k" using assms by (simp add: unat_of_nat)
    then have "(of_nat k :: u16) \<le> 65535" using assms by (simp add: word_le_nat_alt)
    then show ?thesis using k by (simp add: unat_sub)
  qed
  finally show ?thesis .
qed

lemma hw_sum_le16: "hw_sum (le16 w) = unat w"
proof -
  have "unat w div 256 < 256" using unat_u16_less [of w] by simp
  then show ?thesis by (simp add: le16_def code_char_of)
qed

text \<open>Putting the complement of the checksum into the zeroed field makes the header pass.\<close>

lemma cksum_insert:
  assumes "even (length a)" "length a + 2 + length c = 2 * n" "n < 65536"
  shows "NetCksumOk (a @ le16 (ucast (NOT (of_nat (cksum_of (hw_sum (a @ [NUL, NUL] @ c))) :: u32))) @ c @ r) n = Some True"
proof -
  define S where "S = hw_sum (a @ [NUL, NUL] @ c)"
  have S: "S = hw_sum a + hw_sum c" by (simp add: S_def hw_sum_append [OF assms(1)])
  have le: "cksum_of S \<le> 65535"
    using NetCksum_eq(2) [of n "a @ [NUL, NUL] @ c"] assms by (simp add: S_def)
  define x where "x = (ucast (NOT (of_nat (cksum_of S) :: u32)) :: u16)"
  have u: "unat x = 65535 - cksum_of S" unfolding x_def by (rule ucast_not_16 [OF le])
  define T where "T = hw_sum (a @ le16 x @ c)"
  have "T = hw_sum a + (hw_sum (le16 x) + hw_sum c)"
    using assms(1) hw_sum_append [of "le16 x" c] by (simp add: T_def hw_sum_append)
  then have T: "T = S + (65535 - cksum_of S)" by (simp add: S u hw_sum_le16)
  have len: "2 * n \<le> length (a @ le16 x @ c @ r)" "take (2 * n) (a @ le16 x @ c @ r) = a @ le16 x @ c"
    using assms(2) by (simp_all flip: append_assoc)
  have "cksum_of T = 65535"
  proof -
    have "(S + (65535 - cksum_of S)) mod 65535 = (S mod 65535 + (65535 - cksum_of S)) mod 65535"
      by (simp add: mod_add_left_eq)
    also have "\<dots> = (cksum_of S mod 65535 + (65535 - cksum_of S)) mod 65535"
      by (simp add: cksum_of_mod)
    also have "\<dots> = (cksum_of S + (65535 - cksum_of S)) mod 65535" by (simp add: mod_add_left_eq)
    also have "\<dots> = 0" using le by simp
    finally have "cksum_of T mod 65535 = 0" by (simp add: cksum_of_mod T)
    moreover have "T \<noteq> 0" using cksum_of_eq_0 [of S] by (cases "S = 0") (auto simp: T)
    then have "cksum_of T \<noteq> 0" by (simp add: cksum_of_eq_0)
    moreover have "cksum_of T \<le> 65535"
      using NetCksum_eq(2) [OF len(1) assms(3)] by (simp only: len(2) T_def)
    ultimately show ?thesis by (auto simp: mod_eq_0_iff_dvd dvd_def)
  qed
  then have "NetCksum (a @ le16 x @ c @ r) n = Some 65535"
    using NetCksum_eq(1) [OF len(1) assms(3)] unfolding len(2) T_def [symmetric] by simp
  then show ?thesis
    by (simp add: NetCksumOk_def x_def S_def)
qed

section \<open>Byte order\<close>

lemma no_bit: "32 \<le> n \<Longrightarrow> \<not> bit (w :: u32) n"
  using bit_imp_le_length [of w n] by auto

lemma bit_htonl: "n < 32 \<Longrightarrow> bit (htonl w) n = bit w (8 * (3 - n div 8) + n mod 8)"
proof -
  have m: "(0xff00 :: u32) = push_bit 8 (mask 8)" by (simp add: mask_numeral)
  assume "n < 32"
  then consider "n < 8" | "8 \<le> n" "n < 16" | "16 \<le> n" "n < 24" | "24 \<le> n" "n < 32" by linarith
  then show ?thesis
  proof cases
    case 1
    then have "n div 8 = 0" "n mod 8 = n" by simp_all
    then show ?thesis using 1 unfolding htonl_def m by (simp add: bit_simps)
  next
    case 2
    then obtain k where k: "n = 8 + k" "k < 8" by (intro that [of "n - 8"]) simp_all
    then have "n div 8 = 1" "n mod 8 = k" by simp_all
    then show ?thesis using k unfolding htonl_def m by (simp add: bit_simps no_bit)
  next
    case 3
    then obtain k where k: "n = 16 + k" "k < 8" by (intro that [of "n - 16"]) simp_all
    then have "n div 8 = 2" "n mod 8 = k" by presburger+
    then show ?thesis using k unfolding htonl_def m by (simp add: bit_simps no_bit)
  next
    case 4
    then obtain k where k: "n = 24 + k" "k < 8" by (intro that [of "n - 24"]) simp_all
    then have "n div 8 = 3" "n mod 8 = k" by presburger+
    then show ?thesis using k unfolding htonl_def m by (simp add: bit_simps no_bit)
  qed
qed

lemma htonl_htonl [simp]: "htonl (htonl w) = w"
proof (rule bit_word_eqI)
  fix n assume "n < LENGTH(32)"
  then have n: "n < 32" by simp
  define q where "q = n div 8"
  define r where "r = n mod 8"
  have qr: "n = 8 * q + r" "r < 8" by (simp_all add: q_def r_def)
  then have "q \<le> 3" using n by linarith
  then have "8 * (3 - q) + r < 32" using qr(2) by linarith
  moreover have "(8 * (3 - q) + r) div 8 = 3 - q" "(8 * (3 - q) + r) mod 8 = r" using qr(2) by simp_all
  ultimately have "bit (htonl (htonl w)) n = bit w (8 * (3 - (3 - q)) + r)"
    using n by (simp only: bit_htonl q_def [symmetric] r_def [symmetric])
  then show "bit (htonl (htonl w)) n = bit w n" using \<open>q \<le> 3\<close> qr by simp
qed

section \<open>Addresses as strings\<close>

text \<open>The four numbers of an address, and putting them together again.\<close>

definition octet :: "u32 \<Rightarrow> nat \<Rightarrow> u32" where
  "octet x k = drop_bit k x AND 0xff"

lemma octet_bound: "unat (octet x k) < 256"
proof -
  have "octet x k = take_bit 8 (drop_bit k x)" by (simp add: octet_def take_bit_eq_mask mask_numeral)
  moreover have "take_bit 8 n < 256" for n :: nat by (simp add: take_bit_nat_def)
  ultimately show ?thesis by (simp add: unsigned_take_bit_eq)
qed

lemma octets_join:
  "push_bit 8 (push_bit 8 (push_bit 8 (octet x 24) OR octet x 16) OR octet x 8) OR octet x 0 = x"
proof (rule bit_word_eqI)
  fix n assume "n < LENGTH(32)"
  then have n: "n < 32" by simp
  have m: "(0xff :: u32) = mask 8" by (simp add: mask_numeral)
  have "n < 8 \<or> (\<exists>k < 8. n = 8 + k) \<or> (\<exists>k < 8. n = 16 + k) \<or> (\<exists>k < 8. n = 24 + k)"
    using n by presburger
  then consider "n < 8" | k where "n = 8 + k" "k < 8" | k where "n = 16 + k" "k < 8"
    | k where "n = 24 + k" "k < 8" by blast
  then show "bit (push_bit 8 (push_bit 8 (push_bit 8 (octet x 24) OR octet x 16) OR octet x 8) OR octet x 0) n = bit x n"
    unfolding octet_def m by cases (auto simp: bit_simps)
qed

lemma octet_0: "x AND 0xff = octet x 0"
  by (simp add: octet_def)

lemma octet_and: "octet x k AND 0xff = octet x k"
  by (simp add: octet_def and.assoc)

definition ip_text :: "u32 \<Rightarrow> string" where
  "ip_text x = (let y = htonl x in
     udec (unat (octet y 24)) @ ''.'' @ udec (unat (octet y 16)) @ ''.'' @
     udec (unat (octet y 8)) @ ''.'' @ udec (unat (octet y 0)))"

lemma sint_of_small: "unat (w :: u32) < 256 \<Longrightarrow> sint w = int (unat w)"
proof -
  assume w: "unat w < 256"
  have "n < 256 \<Longrightarrow> sint (of_nat n :: u32) = int n" for n
    by (simp add: signed_of_nat signed_take_bit_int_eq_self)
  from this [OF w] show ?thesis by simp
qed

lemma sdec_octet: "sdec (octet y k) = udec (unat (octet y k))"
proof -
  have "sint (octet y k) \<ge> 0"
    using sint_of_small [OF octet_bound [of y k]] by simp
  then show ?thesis by (simp add: sdec_def)
qed

lemma ip_to_string_text:
  assumes "16 \<le> length s"
  shows "ip_to_string x s = Some (ip_text x @ NUL # drop (Suc (length (ip_text x))) s)"
    and "length (ip_text x) \<le> 15" and "nonul (ip_text x)"
proof -
  have l: "length (udec (unat (octet y k))) \<le> 3" for y k
    using octet_bound [of y k] by (intro udec_length) simp_all
  show len: "length (ip_text x) \<le> 15"
    using l [of "htonl x" 24] l [of "htonl x" 16] l [of "htonl x" 8] l [of "htonl x" 0] by (simp add: ip_text_def Let_def)
  show "nonul (ip_text x)" by (simp add: ip_text_def Let_def udec_nonul)
  have "vsprintf_loop (cstr ''%d.%d.%d.%d'')
      [VWord (octet y 24), VWord (octet y 16), VWord (octet y 8), VWord (octet y 0)] [] [] =
      Some (udec (unat (octet y 24)) @ ''.'' @ udec (unat (octet y 16)) @ ''.'' @
     udec (unat (octet y 8)) @ ''.'' @ udec (unat (octet y 0)), [])" for y
    by (simp add: cstr_def vsprintf_loop_steps sdec_octet del: vsprintf_loop.simps)
  then show "ip_to_string x s = Some (ip_text x @ NUL # drop (Suc (length (ip_text x))) s)"
    using assms len unfolding ip_to_string_def Let_def octet_def [symmetric] unfolding octet_0
    by (simp add: vsprintf_def ip_text_def Let_def del: vsprintf_loop.simps)
qed

lemma parse_bytes_dot:
  "map_option id (parse_bytes (Suc n) 10 (Some (udec k @ CHR ''.'' # r))) =
    map_option (Cons (of_nat k)) (parse_bytes n 10 (Some r))"
proof -
  have "simple_strtoul (udec k @ CHR ''.'' # r) 10 = Some (of_nat k, length (udec k))"
    by (rule strtoul_udec) (simp_all add: isxdigit_iff)
  then show ?thesis by (cases "parse_bytes n 10 (Some r)") (simp_all add: load_append_length)
qed

lemma parse_bytes_end: "parse_bytes (Suc 0) 10 (Some (udec k @ NUL # r)) = Some [of_nat k]"
proof -
  have "simple_strtoul (udec k @ NUL # r) 10 = Some (of_nat k, length (udec k))"
    by (rule strtoul_udec) simp_all
  then show ?thesis by (simp add: load_append_length)
qed

lemma string_to_ip_text: "string_to_ip (Some (ip_text x @ NUL # r)) = Some x"
proof -
  let ?y = "htonl x"
  have "parse_bytes 4 10 (Some (ip_text x @ NUL # r)) =
      Some [octet ?y 24, octet ?y 16, octet ?y 8, octet ?y 0]"
    using parse_bytes_dot [of 3] parse_bytes_dot [of 2] parse_bytes_dot [of 1] parse_bytes_end
    by (simp add: ip_text_def Let_def option.map_id numeral_3_eq_3 numeral_2_eq_2 eval_nat_numeral del: parse_bytes.simps)
  then have "parse_ipaddr (Some (ip_text x @ NUL # r)) = Some ?y"
    using octets_join [of ?y] by (simp add: parse_ipaddr_def octet_and)
  then show ?thesis by (simp add: string_to_ip_def)
qed

section \<open>The IP header\<close>

lemma length_ip_header [simp]: "length (ip_header i s d dp sp n ck) = 26 + length ck"
  by (simp add: ip_header_def)

text \<open>The checksum that \<open>NetSetIP\<close> puts into the header.\<close>

definition ip_cksum :: "u16 \<Rightarrow> u32 \<Rightarrow> u32 \<Rightarrow> nat \<Rightarrow> buf" where
  "ip_cksum ident src dest len =
     le16 (ucast (NOT (of_nat (cksum_of (hw_sum
       (([CHR 0x45, NUL] @ be16 (of_nat (IP_HDR_SIZE + len)) @ be16 ident @ be16 0x4000 @ [CHR 0xFF, CHR 0x11]) @
        [NUL, NUL] @ (le32 src @ le32 dest)))) :: u32)))"

lemma length_ip_cksum [simp]: "length (ip_cksum i s d n) = 2"
  by (simp add: ip_cksum_def)

lemma ip_header_checked:
  "NetCksumOk (ip_header ident src dest dport sport len (ip_cksum ident src dest len) @ r) 10 = Some True"
proof -
  let ?a = "[CHR 0x45, NUL] @ be16 (of_nat (IP_HDR_SIZE + len)) @ be16 ident @ be16 0x4000 @ [CHR 0xFF, CHR 0x11]"
  have "NetCksumOk (?a @ ip_cksum ident src dest len @ (le32 src @ le32 dest) @
      (be16 (of_nat sport) @ be16 (of_nat dport) @ be16 (of_nat (8 + len)) @ [NUL, NUL] @ r)) 10 = Some True"
    unfolding ip_cksum_def by (rule cksum_insert) simp_all
  then show ?thesis by (simp add: ip_header_def)
qed

lemma set_ip_eq:
  assumes "p + 28 + len + 1 \<le> length b"
  shows "set_ip ident src b p dest dport sport len =
    (let b' = (if odd len then b[p + 28 + len := NUL] else b)
     in Some (take p b' @ ip_header ident src dest dport sport len (ip_cksum ident src dest len) @ drop (p + 28) b'))"
proof -
  let ?b = "if odd len then b[p + 28 + len := NUL] else b"
  let ?a = "[CHR 0x45, NUL] @ be16 (of_nat (IP_HDR_SIZE + len)) @ be16 ident @ be16 0x4000 @ [CHR 0xFF, CHR 0x11]"
  let ?c = "le32 src @ le32 dest"
  let ?d = "be16 (of_nat sport) @ be16 (of_nat dport) @ be16 (of_nat (8 + len)) @ [NUL, NUL]"
  have hdr: "ip_header ident src dest dport sport len ck = ?a @ ck @ ?c @ ?d" for ck
    by (simp add: ip_header_def)
  have b: "length ?b = length b" "(if odd len then store b (p + IP_HDR_SIZE + len) NUL else Some b) = Some ?b"
    using assms by (simp_all add: IP_HDR_SIZE_def)
  let ?m = "take p ?b @ (?a @ [NUL, NUL] @ ?c @ ?d) @ drop (p + 28) ?b"
  have 1: "put ?b p (?a @ [NUL, NUL] @ ?c @ ?d) = Some ?m"
    using put_eq [of p "?a @ [NUL, NUL] @ ?c @ ?d" ?b] assms b(1) by simp
  have tp: "length (take p ?b) = p" using assms b(1) by simp
  have 2: "drop p ?m = (?a @ [NUL, NUL] @ ?c) @ ?d @ drop (p + 28) ?b" using tp by simp
  let ?r = "?d @ drop (p + 28) ?b"
  have "NetCksum ((?a @ [NUL, NUL] @ ?c) @ ?r) 10 =
      Some (of_nat (cksum_of (hw_sum (take 20 ((?a @ [NUL, NUL] @ ?c) @ ?r)))))"
    using NetCksum_eq(1) [of 10 "(?a @ [NUL, NUL] @ ?c) @ ?r"] by simp
  also have "take 20 ((?a @ [NUL, NUL] @ ?c) @ ?r) = ?a @ [NUL, NUL] @ ?c" by simp
  finally have 3: "NetCksum (drop p ?m) (IP_HDR_SIZE_NO_UDP div 2) =
      Some (of_nat (cksum_of (hw_sum (?a @ [NUL, NUL] @ ?c))))"
    unfolding 2 by (simp add: IP_HDR_SIZE_NO_UDP_def)
  have "put ((take p ?b @ ?a) @ [NUL, NUL] @ (?c @ ?d @ drop (p + 28) ?b)) (p + 10) (ip_cksum ident src dest len) =
      Some ((take p ?b @ ?a) @ ip_cksum ident src dest len @ (?c @ ?d @ drop (p + 28) ?b))"
    using tp by (subst put_eq) simp_all
  then have 4: "put ?m (p + 10) (ip_cksum ident src dest len) =
      Some (take p ?b @ (?a @ ip_cksum ident src dest len @ ?c @ ?d) @ drop (p + 28) ?b)" by simp
  show ?thesis
    unfolding set_ip_def b(2) bind.bind_lunit hdr 1 3 Let_def
    using 4 unfolding ip_cksum_def by simp
qed

section \<open>Properties\<close>

text \<open>C35: Printing an address with \<open>ip_to_string\<close> into a buffer of at least 16 bytes stays inside it,
  and \<open>string_to_ip\<close> reads the same address back, for every address.\<close>

theorem ip_string_roundtrip:
  assumes "16 \<le> length s"
  shows "\<exists>b. ip_to_string x s = Some b \<and> length b = length s \<and> string_to_ip (Some b) = Some x"
  using ip_to_string_text(1) [OF assms] ip_to_string_text(2) [of s x] assms string_to_ip_text by simp

theorem ip_string_roundtrip_witness:
  "\<exists>b. ip_to_string 0x0100007f (replicate 16 NUL) = Some b \<and> length b = length (replicate 16 NUL) \<and>
    string_to_ip (Some b) = Some 0x0100007f"
  by (rule ip_string_roundtrip) simp

end
