(* ===== verification/Eth.thy ===== *)
theory Eth
  imports Load Inet
begin

text \<open>
  The network interfaces (\<open>net/eth.c\<close>) and the state of the network code.  The circular list of
  devices is the list \<open>eth_devices\<close> of the board, a pointer to a device its position in it.  The
  drivers are not part of the model: \<open>dev_ready\<close> says which devices initialise at the moment, and
  what is handed to a driver for sending is appended to \<open>eth_out\<close>.
\<close>

section \<open>The state\<close>

text \<open>The functions that are stored in \<open>packetHandler\<close> and in \<open>timeHandler\<close>.\<close>

datatype rxhand =
  startAgainHandler | PingHandler | TftpHandler | DhcpHandler | RarpHandler | NfsHandler

datatype thand =
  startAgainTimeout | PingTimeout | TftpTimeout | BootpTimeout | RarpTimeout | NfsTimeout

text \<open>The three objects that \<open>NetArpWaitPacketMAC\<close> can point to.\<close>

datatype mac_ptr = MAC_Server | MAC_Bcast | MAC_Ping

record net = machine +
  dev_ready :: "nat \<Rightarrow> bool"
  eth_out :: "buf list"
  eth_in :: "(buf \<times> int) list list"
  first_failed :: "nat option"
  NetOurIP :: u32
  NetServerIP :: u32
  NetOurGatewayIP :: u32
  NetOurSubnetMask :: u32
  NetOurEther :: buf
  NetServerEther :: buf
  NetIPID :: u32
  NetOurVLAN :: u16
  NetOurNativeVLAN :: u16
  NetTxPacket :: buf
  NetRxPkt :: buf
  NetArpWaitPacketIP :: u32
  NetArpWaitReplyIP :: u32
  NetArpWaitPacketMAC :: "mac_ptr option"
  NetArpWaitTxPacket :: buf
  NetArpWaitTxPacketSize :: nat
  NetArpWaitTimerStart :: u32
  NetArpWaitTry :: int
  packetHandler :: "rxhand option"
  timeHandler :: "thand option"
  timeStart :: u32
  timeDelta :: u32
  NetState :: int
  NetRestarted :: bool
  NetDevExists :: bool
  NetBootFileXferSize :: u32
  NetBootFileSize :: u16
  NetPingIP :: u32
  ping_mac :: buf
  PingSeqNo :: u16

section \<open>Devices\<close>

definition ETH_STATE_INIT :: int where "ETH_STATE_INIT = 0"
definition ETH_STATE_PASSIVE :: int where "ETH_STATE_PASSIVE = 1"
definition ETH_STATE_ACTIVE :: int where "ETH_STATE_ACTIVE = 2"

definition cur_dev :: "'a board_scheme \<Rightarrow> eth_device option" where
  "cur_dev st = do { i \<leftarrow> eth_current st; load (eth_devices st) i }"

definition set_dev :: "nat \<Rightarrow> (eth_device \<Rightarrow> eth_device) \<Rightarrow> 'a board_scheme \<Rightarrow> 'a board_scheme" where
  "set_dev i f st = st\<lparr>eth_devices := (eth_devices st)[i := f (eth_devices st ! i)]\<rparr>"

text \<open>\<open>eth_current = eth_current->next\<close> on the ring.\<close>

definition next_dev :: "nat \<Rightarrow> 'a board_scheme \<Rightarrow> nat" where
  "next_dev i st = Suc i mod length (eth_devices st)"

fun dev_index :: "nat option \<Rightarrow> nat \<Rightarrow> nat \<Rightarrow> nat option" where
  "dev_index cur i 0 = None"
| "dev_index cur i (Suc n) = (if cur = Some i then Some i else dev_index cur (Suc i) n)"

text \<open>
  The loop of \<open>eth_get_dev_index\<close> goes around the ring: \<open>None\<close> is the endless search for a current
  device that is not in it.
\<close>

definition eth_get_dev_index :: "'a board_scheme \<Rightarrow> int option" where
  "eth_get_dev_index st =
     (if eth_devices st = [] then Some (-1)
      else map_option int (dev_index (eth_current st) 0 (length (eth_devices st))))"

text \<open>\<open>ethact\<close> follows the current device.\<close>

definition update_ethact :: "(u32 \<Rightarrow> int) \<Rightarrow> board \<Rightarrow> board option" where
  "update_ethact start st =
     do { dev \<leftarrow> cur_dev st;
          act \<leftarrow> getenv (cstr ''ethact'') st;
          differs \<leftarrow> (case act of None \<Rightarrow> Some True | Some a \<Rightarrow> map_option (\<lambda>r. r \<noteq> 0) (strcmp a (eth_name dev)));
          if differs then setenv start (cstr ''ethact'') (Some (eth_name dev)) st else Some st }"

definition eth_register :: "(u32 \<Rightarrow> int) \<Rightarrow> eth_device \<Rightarrow> board \<Rightarrow> board option" where
  "eth_register start dev st =
     do { st \<leftarrow> (if eth_devices st = []
                 then update_ethact start (st\<lparr>eth_devices := [dev], eth_current := Some 0\<rparr>)
                 else Some (st\<lparr>eth_devices := eth_devices st @ [dev]\<rparr>));
          Some (set_dev (length (eth_devices st) - 1) (\<lambda>d. d\<lparr>eth_state := ETH_STATE_INIT\<rparr>) st) }"

definition mac_args :: "buf \<Rightarrow> va_arg list" where
  "mac_args m = map (\<lambda>c. VWord (of_nat (code c))) (take 6 m)"

definition mac_format :: string where "mac_format = ''%02X:%02X:%02X:%02X:%02X:%02X'' @ [CHR 0x0A]"

text \<open>One round of the loop of \<open>eth_initialize\<close> over the registered devices.\<close>

definition init_dev :: "nat \<Rightarrow> buf option \<Rightarrow> board \<Rightarrow> board option" where
  "init_dev i ethprime st =
     do { st \<leftarrow> (if i \<noteq> 0 then puts (cstr '', '') st else Some st);
          dev \<leftarrow> load (eth_devices st) i;
          st \<leftarrow> printf ''%s'' [VStr (Some (eth_name dev))] st;
          prime \<leftarrow> (case ethprime of None \<Rightarrow> Some False | Some p \<Rightarrow> map_option (\<lambda>r. r = 0) (strcmp (eth_name dev) p));
          st \<leftarrow> (if prime then puts (cstr '' [PRIME]'') (st\<lparr>eth_current := Some i\<rparr>) else Some st);
          (enetvar, _, _) \<leftarrow> vsprintf (replicate 32 NUL) (cstr (if i \<noteq> 0 then ''eth%daddr'' else ''ethaddr''))
                              [VWord (of_nat i)];
          tmp \<leftarrow> getenv enetvar st;
          env_enetaddr \<leftarrow> parse_enetaddr tmp;
          null \<leftarrow> memcmp env_enetaddr NetEtherNullAddr 6;
          if null = 0 then Some st
          else
            do { own \<leftarrow> memcmp (enetaddr dev) NetEtherNullAddr 6;
                 same \<leftarrow> memcmp (enetaddr dev) env_enetaddr 6;
                 st \<leftarrow> (if own \<noteq> 0 \<and> same \<noteq> 0
                        then do { st \<leftarrow> printf ([CHR 0x0A] @ ''Warning: %s MAC addresses don'' @ [CHR 0x27] @ ''t match:'' @ [CHR 0x0A])
                                         [VStr (Some (eth_name dev))] st;
                                  st \<leftarrow> printf (''Address in SROM is         '' @ mac_format) (mac_args (enetaddr dev)) st;
                                  printf (''Address in environment is  '' @ mac_format) (mac_args env_enetaddr) st }
                        else Some st);
                 Some (set_dev i (\<lambda>d. d\<lparr>enetaddr := env_enetaddr\<rparr>) st) } }"

fun init_devs :: "nat \<Rightarrow> nat \<Rightarrow> buf option \<Rightarrow> board \<Rightarrow> board option" where
  "init_devs i 0 ethprime st = Some st"
| "init_devs i (Suc n) ethprime st = do { st \<leftarrow> init_dev i ethprime st; init_devs (Suc i) n ethprime st }"

fun register_all :: "(u32 \<Rightarrow> int) \<Rightarrow> eth_device list \<Rightarrow> board \<Rightarrow> board option" where
  "register_all start [] st = Some st"
| "register_all start (d # ds) st = do { st \<leftarrow> eth_register start d st; register_all start ds st }"

text \<open>
  \<open>drivers\<close> are the devices that the configured drivers register: none in the configuration of the
  board, where \<open>CONFIG_MAC9260\<close> is commented out.
\<close>

definition eth_initialize :: "(u32 \<Rightarrow> int) \<Rightarrow> eth_device list \<Rightarrow> board \<Rightarrow> (int \<times> board) option" where
  "eth_initialize start drivers st =
     do { st \<leftarrow> register_all start drivers (st\<lparr>eth_devices := [], eth_current := None\<rparr>);
          if eth_devices st = [] then
            do { st \<leftarrow> puts (cstr (''No ethernet found.'' @ [CHR 0x0A])) st; Some (0, st) }
          else
            do { ethprime \<leftarrow> getenv (cstr ''ethprime'') st;
                 st \<leftarrow> init_devs 0 (length (eth_devices st)) ethprime st;
                 st \<leftarrow> (if eth_current st \<noteq> None then update_ethact start st
                        else setenv start (cstr ''ethact'') None st);
                 st \<leftarrow> putc (CHR 0x0A) st;
                 Some (int (length (eth_devices st)), st) } }"

section \<open>The current device\<close>

definition eth_halt :: "'a board_scheme \<Rightarrow> 'a board_scheme" where
  "eth_halt st =
     (case eth_current st of None \<Rightarrow> st
      | Some i \<Rightarrow> set_dev i (\<lambda>d. d\<lparr>eth_state := ETH_STATE_PASSIVE\<rparr>) st)"

text \<open>\<open>eth_send\<close>: what the driver answers is ignored by every caller.\<close>

definition eth_send :: "buf \<Rightarrow> nat \<Rightarrow> 'a net_scheme \<Rightarrow> 'a net_scheme option" where
  "eth_send packet n st =
     (if eth_current st = None then Some st
      else if n \<le> length packet then Some (st\<lparr>eth_out := eth_out st @ [take n packet]\<rparr>)
      else None)"

definition eth_try_another :: "(u32 \<Rightarrow> int) \<Rightarrow> bool \<Rightarrow> 'a net_scheme \<Rightarrow> 'a net_scheme option" where
  "eth_try_another start first_restart st =
     (case eth_current st of None \<Rightarrow> Some st
      | Some i \<Rightarrow>
          do { let st = (if first_restart then st\<lparr>first_failed := Some i\<rparr> else st);
               st \<leftarrow> on_board (update_ethact start) (st\<lparr>eth_current := Some (next_dev i st)\<rparr>);
               Some (if first_failed st = eth_current st then st\<lparr>NetRestartWrap := True\<rparr> else st) })"

text \<open>The walk around the ring visits each device at most once; \<open>k\<close> starts as their number.\<close>

fun eth_init_loop :: "(u32 \<Rightarrow> int) \<Rightarrow> nat \<Rightarrow> nat \<Rightarrow> 'a net_scheme \<Rightarrow> (int \<times> 'a net_scheme) option" where
  "eth_init_loop start old 0 st = None"
| "eth_init_loop start old (Suc k) st =
     do { i \<leftarrow> eth_current st;
          if dev_ready st i then Some (1, set_dev i (\<lambda>d. d\<lparr>eth_state := ETH_STATE_ACTIVE\<rparr>) st)
          else
            do { st \<leftarrow> eth_try_another start False st;
                 if eth_current st = Some old then Some (0, st) else eth_init_loop start old k st } }"

definition eth_init :: "(u32 \<Rightarrow> int) \<Rightarrow> 'a net_scheme \<Rightarrow> (int \<times> 'a net_scheme) option" where
  "eth_init start st =
     (case eth_current st of None \<Rightarrow> Some (0, st)
      | Some old \<Rightarrow> eth_init_loop start old (length (eth_devices st)) st)"

fun find_ethact :: "nat \<Rightarrow> nat \<Rightarrow> buf \<Rightarrow> board \<Rightarrow> (bool \<times> board) option" where
  "find_ethact old 0 act st = None"
| "find_ethact old (Suc k) act st =
     do { i \<leftarrow> eth_current st;
          dev \<leftarrow> load (eth_devices st) i;
          r \<leftarrow> strcmp (eth_name dev) act;
          if r = 0 then Some (True, st)
          else let j = next_dev i st; st = st\<lparr>eth_current := Some j\<rparr>
               in if j = old then Some (False, st) else find_ethact old k act st }"

definition eth_set_current :: "(u32 \<Rightarrow> int) \<Rightarrow> board \<Rightarrow> board option" where
  "eth_set_current start st =
     (case eth_current st of None \<Rightarrow> Some st
      | Some old \<Rightarrow>
          do { act \<leftarrow> getenv (cstr ''ethact'') st;
               (found, st) \<leftarrow> (case act of None \<Rightarrow> Some (False, st)
                              | Some a \<Rightarrow> find_ethact old (length (eth_devices st)) a st);
               if found then Some st
               else do { dev \<leftarrow> cur_dev st; setenv start (cstr ''ethact'') (Some (eth_name dev)) st } })"

definition eth_get_name :: "'a board_scheme \<Rightarrow> buf" where
  "eth_get_name st = (case cur_dev st of None \<Rightarrow> cstr ''unknown'' | Some d \<Rightarrow> eth_name d)"

end
