(* ===== verification/Net.thy ===== *)
theory Net
  imports Eth
begin

text \<open>
  The core of the network code (\<open>net/net.c\<close>): ARP, sending UDP packets, ping, and the dispatch of
  received packets.  The current packet handler is called through the parameter \<open>rx\<close>, which
  is instantiated with the handlers of the protocols in \<open>NetLoop\<close>.
\<close>

section \<open>Handlers and timeouts\<close>

definition ARP_TIMEOUT :: u32 where "ARP_TIMEOUT = 5"
definition ARP_TIMEOUT_COUNT :: int where "ARP_TIMEOUT_COUNT = 5"
definition NETLOOP_CONTINUE :: int where "NETLOOP_CONTINUE = 1"
definition NETLOOP_RESTART :: int where "NETLOOP_RESTART = 2"
definition NETLOOP_SUCCESS :: int where "NETLOOP_SUCCESS = 3"
definition NETLOOP_FAIL :: int where "NETLOOP_FAIL = 4"

definition NetSetHandler :: "rxhand \<Rightarrow> 'a net_scheme \<Rightarrow> 'a net_scheme" where
  "NetSetHandler f st = st\<lparr>packetHandler := Some f\<rparr>"

definition NetSetTimeout :: "u32 \<Rightarrow> thand \<Rightarrow> 'a net_scheme \<Rightarrow> 'a net_scheme" where
  "NetSetTimeout iv f st =
     (if iv = 0 then st\<lparr>timeHandler := None\<rparr>
      else let (t, st) = get_timer 0 st
           in st\<lparr>timeHandler := Some f, timeStart := t, timeDelta := iv\<rparr>)"

definition NetStartAgain :: "(u32 \<Rightarrow> int) \<Rightarrow> 'a net_scheme \<Rightarrow> 'a net_scheme option" where
  "NetStartAgain start st =
     do { nretry \<leftarrow> getenv (cstr ''netretry'') (board.truncate st);
          (noretry, once) \<leftarrow> (case nretry of None \<Rightarrow> Some (False, False)
             | Some s \<Rightarrow> do { n \<leftarrow> strcmp s (cstr ''no''); o1 \<leftarrow> strcmp s (cstr ''once''); Some (n = 0, o1 = 0) });
          if noretry then Some ((eth_halt st)\<lparr>NetState := NETLOOP_FAIL\<rparr>)
          else
            do { st \<leftarrow> eth_try_another start (\<not> NetRestarted st) (eth_halt st);
                 (_, st) \<leftarrow> eth_init start st;
                 if NetRestartWrap st then
                   let st = st\<lparr>NetRestartWrap := False\<rparr>
                   in if NetDevExists st \<and> \<not> once
                      then Some (NetSetHandler startAgainHandler (NetSetTimeout (10 * CFG_HZ) startAgainTimeout st))
                      else Some (st\<lparr>NetState := NETLOOP_FAIL\<rparr>)
                 else Some (st\<lparr>NetState := NETLOOP_RESTART\<rparr>) } }"

section \<open>Headers\<close>

definition NetEthHdrSize :: "'a net_scheme \<Rightarrow> nat" where
  "NetEthHdrSize st =
     (if own_vlan (NetOurVLAN st) AND VLAN_IDMASK = VLAN_NONE then ETHER_HDR_SIZE else VLAN_ETHER_HDR_SIZE)"

text \<open>\<open>NetSetEther\<close> writes at the start of the buffer and returns the size of the header.\<close>

definition NetSetEther :: "buf \<Rightarrow> buf \<Rightarrow> u16 \<Rightarrow> 'a net_scheme \<Rightarrow> (buf \<times> nat) option" where
  "NetSetEther xet addr prot st =
     (let h = eth_header (NetOurVLAN st) addr (NetOurEther st) prot
      in do { b \<leftarrow> put xet 0 h; Some (b, length h) })"

definition NetSetIP :: "buf \<Rightarrow> nat \<Rightarrow> u32 \<Rightarrow> nat \<Rightarrow> nat \<Rightarrow> nat \<Rightarrow> 'a net_scheme \<Rightarrow> (buf \<times> 'a net_scheme) option" where
  "NetSetIP b xip dest dport sport len st =
     do { b \<leftarrow> set_ip (ucast (NetIPID st)) (NetOurIP st) b xip dest dport sport len;
          Some (b, st\<lparr>NetIPID := NetIPID st + 1\<rparr>) }"

text \<open>An ARP packet with the given operation and the 20 bytes of \<open>ar_data\<close>.\<close>

definition arp_packet :: "u16 \<Rightarrow> buf \<Rightarrow> buf" where
  "arp_packet oper data = be16 ARP_ETHER @ be16 PROT_IP @ [CHR 0x06, CHR 0x04] @ be16 oper @ data"

section \<open>Sending\<close>

definition gatewayip_warning :: string where
  "gatewayip_warning = ''## Warning: gatewayip needed but not set'' @ [CHR 0x0A]"

definition ArpRequest :: "'a net_scheme \<Rightarrow> 'a net_scheme option" where
  "ArpRequest st =
     do { (b, pkt) \<leftarrow> NetSetEther (NetTxPacket st) NetBcastAddr PROT_ARP st;
          st \<leftarrow> (if NetArpWaitPacketIP st AND NetOurSubnetMask st \<noteq> NetOurIP st AND NetOurSubnetMask st
                 then do { st \<leftarrow> (if NetOurGatewayIP st = 0 then puts (cstr gatewayip_warning) st else Some st);
                           Some (st\<lparr>NetArpWaitReplyIP := NetOurGatewayIP st\<rparr>) }
                 else Some (st\<lparr>NetArpWaitReplyIP := NetArpWaitPacketIP st\<rparr>));
          b \<leftarrow> put b pkt (arp_packet ARPOP_REQUEST
                 (NetOurEther st @ le32 (NetOurIP st) @ replicate 6 NUL @ le32 (NetArpWaitReplyIP st)));
          eth_send b (pkt + ARP_HDR_SIZE) (st\<lparr>NetTxPacket := b\<rparr>) }"

definition ArpTimeoutCheck :: "(u32 \<Rightarrow> int) \<Rightarrow> 'a net_scheme \<Rightarrow> 'a net_scheme option" where
  "ArpTimeoutCheck start st =
     (if NetArpWaitPacketIP st = 0 then Some st
      else
        let (t, st) = get_timer 0 st
        in if t - NetArpWaitTimerStart st > ARP_TIMEOUT * CFG_HZ then
             let st = st\<lparr>NetArpWaitTry := NetArpWaitTry st + 1\<rparr>
             in if NetArpWaitTry st \<ge> ARP_TIMEOUT_COUNT then
                  do { st \<leftarrow> puts (cstr ([CHR 0x0A] @ ''ARP Retry count exceeded; starting again'' @ [CHR 0x0A])) st;
                       NetStartAgain start (st\<lparr>NetArpWaitTry := 0\<rparr>) }
                else ArpRequest (st\<lparr>NetArpWaitTimerStart := t\<rparr>)
           else Some st)"

definition NetSendPacket :: "buf \<Rightarrow> nat \<Rightarrow> 'a net_scheme \<Rightarrow> 'a net_scheme option" where
  "NetSendPacket pkt len st = eth_send pkt len st"

text \<open>What the pointers to hardware addresses refer to.\<close>

fun mac_of :: "mac_ptr \<Rightarrow> 'a net_scheme \<Rightarrow> buf" where
  "mac_of MAC_Server st = NetServerEther st"
| "mac_of MAC_Ping st = ping_mac st"
| "mac_of MAC_Bcast st = NetBcastAddr"

text \<open>The waiting address is never the broadcast address, which is not all zeros.\<close>

fun set_mac :: "mac_ptr \<Rightarrow> buf \<Rightarrow> 'a net_scheme \<Rightarrow> 'a net_scheme option" where
  "set_mac MAC_Server m st = Some (st\<lparr>NetServerEther := m\<rparr>)"
| "set_mac MAC_Ping m st = Some (st\<lparr>ping_mac := m\<rparr>)"
| "set_mac MAC_Bcast m st = None"

text \<open>\<open>NetArpWaitTry = 1; NetArpWaitTimerStart = get_timer(0); ArpRequest();\<close>\<close>

definition start_arp :: "'a net_scheme \<Rightarrow> 'a net_scheme option" where
  "start_arp st =
     (let st = st\<lparr>NetArpWaitTry := 1\<rparr>; (t, st) = get_timer 0 st
      in ArpRequest (st\<lparr>NetArpWaitTimerStart := t\<rparr>))"

definition NetSendUDPPacket ::
  "mac_ptr \<Rightarrow> u32 \<Rightarrow> nat \<Rightarrow> nat \<Rightarrow> nat \<Rightarrow> 'a net_scheme \<Rightarrow> (int \<times> 'a net_scheme) option" where
  "NetSendUDPPacket ether dest dport sport len st =
     (let dest = (if dest = 0 then 0xFFFFFFFF else dest);
          ether = (if dest = 0xFFFFFFFF then MAC_Bcast else ether)
      in do { null \<leftarrow> memcmp (mac_of ether st) NetEtherNullAddr 6;
              if null = 0 then
                do { let st = st\<lparr>NetArpWaitPacketIP := dest, NetArpWaitPacketMAC := Some ether\<rparr>;
                     (b, pkt) \<leftarrow> NetSetEther (NetArpWaitTxPacket st) (mac_of ether st) PROT_IP st;
                     (b, st) \<leftarrow> NetSetIP b pkt dest dport sport len st;
                     data \<leftarrow> get_bytes (NetTxPacket st) (pkt + IP_HDR_SIZE) len;
                     b \<leftarrow> put b (pkt + IP_HDR_SIZE) data;
                     st \<leftarrow> start_arp (st\<lparr>NetArpWaitTxPacket := b, NetArpWaitTxPacketSize := pkt + IP_HDR_SIZE + len\<rparr>);
                     Some (1, st) }
              else
                do { (b, pkt) \<leftarrow> NetSetEther (NetTxPacket st) (mac_of ether st) PROT_IP st;
                     (b, st) \<leftarrow> NetSetIP b pkt dest dport sport len st;
                     st \<leftarrow> eth_send b (pkt + IP_HDR_SIZE + len) (st\<lparr>NetTxPacket := b\<rparr>);
                     Some (0, st) } })"

section \<open>Ping\<close>

text \<open>The IP header of a ping up to the checksum.\<close>

definition PingSend :: "'a net_scheme \<Rightarrow> (int \<times> 'a net_scheme) option" where
  "PingSend st =
     do { let st = st\<lparr>ping_mac := NetEtherNullAddr, NetArpWaitPacketIP := NetPingIP st,
                      NetArpWaitPacketMAC := Some MAC_Ping\<rparr>;
          (b, pkt) \<leftarrow> NetSetEther (NetArpWaitTxPacket st) (ping_mac st) PROT_IP st;
          b \<leftarrow> put b pkt ([CHR 0x45, NUL] @ be16 (of_nat (IP_HDR_SIZE_NO_UDP + 8)) @ be16 (ucast (NetIPID st)) @
                 be16 0x4000 @ [CHR 0xFF, CHR 0x01] @ [NUL, NUL] @ le32 (NetOurIP st) @ le32 (NetPingIP st));
          let st = st\<lparr>NetIPID := NetIPID st + 1\<rparr>;
          c \<leftarrow> NetCksum (drop pkt b) (IP_HDR_SIZE_NO_UDP div 2);
          b \<leftarrow> put b (pkt + 10) (le16 (ucast (NOT c)));
          b \<leftarrow> put b (pkt + 20) (be16 0x0800 @ [NUL, NUL] @ [NUL, NUL] @ be16 (PingSeqNo st));
          let st = st\<lparr>PingSeqNo := PingSeqNo st + 1\<rparr>;
          c \<leftarrow> NetCksum (drop (pkt + 20) b) 4;
          b \<leftarrow> put b (pkt + 22) (le16 (ucast (NOT c)));
          st \<leftarrow> start_arp (st\<lparr>NetArpWaitTxPacket := b, NetArpWaitTxPacketSize := pkt + IP_HDR_SIZE_NO_UDP + 8\<rparr>);
          Some (1, st) }"

definition ping_timeout :: "'a net_scheme \<Rightarrow> 'a net_scheme" where
  "ping_timeout st = (eth_halt st)\<lparr>NetState := NETLOOP_FAIL\<rparr>"

definition ping_handler :: "buf option \<Rightarrow> 'a net_scheme \<Rightarrow> 'a net_scheme option" where
  "ping_handler pkt st =
     do { p \<leftarrow> pkt;
          tmp \<leftarrow> rd_le32 (drop 12 p);
          Some (if tmp \<noteq> NetPingIP st then st else st\<lparr>NetState := NETLOOP_SUCCESS\<rparr>) }"

definition PingStart :: "'a net_scheme \<Rightarrow> 'a net_scheme option" where
  "PingStart st =
     map_option snd (PingSend (NetSetHandler PingHandler (NetSetTimeout (10 * CFG_HZ) PingTimeout st)))"

section \<open>Receiving\<close>

text \<open>The handlers: packet or null, destination port, source port, length.\<close>

type_synonym 'a rx_dispatch = "rxhand \<Rightarrow> buf option \<Rightarrow> u32 \<Rightarrow> u32 \<Rightarrow> u32 \<Rightarrow> 'a net_scheme \<Rightarrow> 'a net_scheme option"

text \<open>\<open>(*packetHandler) (pkt, dest, src, len)\<close>\<close>

definition call_handler ::
  "'a rx_dispatch \<Rightarrow> buf option \<Rightarrow> u32 \<Rightarrow> u32 \<Rightarrow> u32 \<Rightarrow> 'a net_scheme \<Rightarrow> 'a net_scheme option" where
  "call_handler rx pkt dest src len st =
     do { f \<leftarrow> packetHandler st; rx f pkt dest src len st }"

text \<open>
  The link layer: the protocol, the offset of the packet behind the header, its length and the
  VLAN; the inner \<open>None\<close> is a packet that is dropped.
\<close>

definition link_header :: "buf \<Rightarrow> int \<Rightarrow> 'a net_scheme \<Rightarrow> (u16 \<times> nat \<times> int \<times> u16) option option" where
  "link_header inpkt len st =
     do { x \<leftarrow> rd_be16 (drop 12 inpkt);
          if x < 1514 then
            do { x \<leftarrow> rd_be16 (drop 20 inpkt);
                 Some (Some (x, E802_HDR_SIZE, len - int E802_HDR_SIZE, VLAN_NONE)) }
          else if x \<noteq> PROT_VLAN then Some (Some (x, ETHER_HDR_SIZE, len - int ETHER_HDR_SIZE, VLAN_NONE))
          else if len < int VLAN_ETHER_HDR_SIZE then Some None
          else if htons (NetOurVLAN st) AND VLAN_IDMASK = VLAN_NONE then Some None
          else
            do { cti \<leftarrow> rd_be16 (drop 14 inpkt);
                 x \<leftarrow> rd_be16 (drop 16 inpkt);
                 Some (Some (x, VLAN_ETHER_HDR_SIZE, len - int VLAN_ETHER_HDR_SIZE, cti AND VLAN_IDMASK)) } }"

definition vlan_match :: "u16 \<Rightarrow> 'a net_scheme \<Rightarrow> bool" where
  "vlan_match vlanid st =
     (if own_vlan (NetOurVLAN st) AND VLAN_IDMASK \<noteq> VLAN_NONE then
        (let vlanid = (if vlanid = VLAN_NONE then own_vlan (NetOurNativeVLAN st) AND VLAN_IDMASK else vlanid)
         in vlanid = own_vlan (NetOurVLAN st) AND VLAN_IDMASK)
      else True)"

definition bad_length :: string where "bad_length = ''bad length %d < %d'' @ [CHR 0x0A]"

definition rarp_input :: "'a rx_dispatch \<Rightarrow> buf \<Rightarrow> nat \<Rightarrow> int \<Rightarrow> 'a net_scheme \<Rightarrow> 'a net_scheme option" where
  "rarp_input rx inpkt arp len st =
     (if len < int ARP_HDR_SIZE then
        printf bad_length [VWord (of_int len), VWord (of_nat ARP_HDR_SIZE)] st
      else
        do { op \<leftarrow> rd_be16 (drop (arp + 6) inpkt);
             hrd \<leftarrow> rd_be16 (drop arp inpkt);
             pro \<leftarrow> rd_be16 (drop (arp + 2) inpkt);
             hln \<leftarrow> load inpkt (arp + 4);
             pln \<leftarrow> load inpkt (arp + 5);
             if op \<noteq> RARPOP_REPLY \<or> hrd \<noteq> ARP_ETHER \<or> pro \<noteq> PROT_IP \<or> hln \<noteq> CHR 0x06 \<or> pln \<noteq> CHR 0x04
             then Some st
             else
               do { ip \<leftarrow> rd_le32 (drop (arp + 24) inpkt);
                    srv \<leftarrow> rd_le32 (drop (arp + 14) inpkt);
                    mac \<leftarrow> get_bytes inpkt (arp + 8) 6;
                    call_handler rx None 0 0 0
                      (st\<lparr>NetOurIP := ip, NetServerIP := (if NetServerIP st = 0 then srv else NetServerIP st),
                         NetServerEther := mac\<rparr>) } })"

text \<open>The answer to an ARP request is built in the receive buffer.\<close>

definition arp_answer :: "buf \<Rightarrow> nat \<Rightarrow> 'a net_scheme \<Rightarrow> 'a net_scheme option" where
  "arp_answer inpkt arp st =
     do { src \<leftarrow> get_bytes inpkt 6 6;
          (b, pkt) \<leftarrow> NetSetEther inpkt src PROT_ARP st;
          b \<leftarrow> put b (arp + 6) (be16 ARPOP_REPLY);
          sha \<leftarrow> get_bytes b (arp + 8) 6;
          b \<leftarrow> put b (arp + 18) sha;
          spa \<leftarrow> get_bytes b (arp + 14) 4;
          b \<leftarrow> put b (arp + 24) spa;
          b \<leftarrow> put b (arp + 8) (NetOurEther st);
          b \<leftarrow> put b (arp + 14) (le32 (NetOurIP st));
          eth_send b (pkt + ARP_HDR_SIZE) st }"

text \<open>The reply we wait for releases the waiting packet.\<close>

definition arp_release :: "mac_ptr \<Rightarrow> buf \<Rightarrow> nat \<Rightarrow> 'a net_scheme \<Rightarrow> 'a net_scheme option" where
  "arp_release ptr inpkt arp st =
     do { mac \<leftarrow> get_bytes inpkt (arp + 8) 6;
          st \<leftarrow> set_mac ptr mac st;
          b \<leftarrow> put (NetArpWaitTxPacket st) 0 mac;
          st \<leftarrow> eth_send b (NetArpWaitTxPacketSize st) (st\<lparr>NetArpWaitTxPacket := b\<rparr>);
          Some (st\<lparr>NetArpWaitPacketIP := 0, NetArpWaitTxPacketSize := 0, NetArpWaitPacketMAC := None\<rparr>) }"

text \<open>
  A reply that nobody waits for leaves the inner \<open>switch\<close> by \<open>break\<close> and falls through to the
  case of RARP.
\<close>

definition arp_input :: "'a rx_dispatch \<Rightarrow> buf \<Rightarrow> nat \<Rightarrow> int \<Rightarrow> 'a net_scheme \<Rightarrow> 'a net_scheme option" where
  "arp_input rx inpkt arp len st =
     (if len < int ARP_HDR_SIZE then
        printf bad_length [VWord (of_int len), VWord (of_nat ARP_HDR_SIZE)] st
      else
        do { hrd \<leftarrow> rd_be16 (drop arp inpkt);
             pro \<leftarrow> rd_be16 (drop (arp + 2) inpkt);
             hln \<leftarrow> load inpkt (arp + 4);
             pln \<leftarrow> load inpkt (arp + 5);
             op \<leftarrow> rd_be16 (drop (arp + 6) inpkt);
             target \<leftarrow> rd_le32 (drop (arp + 24) inpkt);
             if hrd \<noteq> ARP_ETHER \<or> pro \<noteq> PROT_IP \<or> hln \<noteq> CHR 0x06 \<or> pln \<noteq> CHR 0x04 then Some st
             else if NetOurIP st = 0 then Some st
             else if target \<noteq> NetOurIP st then Some st
             else if op = ARPOP_REQUEST then arp_answer inpkt arp st
             else if op = ARPOP_REPLY then
               (if NetArpWaitPacketIP st = 0 then rarp_input rx inpkt arp len st
                else case NetArpWaitPacketMAC st of
                  None \<Rightarrow> rarp_input rx inpkt arp len st
                | Some ptr \<Rightarrow>
                    do { tmp \<leftarrow> rd_le32 (drop (arp + 14) inpkt);
                         if tmp = NetArpWaitReplyIP st then arp_release ptr inpkt arp st else Some st })
             else Some st })"

text \<open>The UDP ports and length at the IP header \<open>ip\<close>, and the call of the handler.\<close>

definition udp_input :: "'a rx_dispatch \<Rightarrow> buf \<Rightarrow> nat \<Rightarrow> 'a net_scheme \<Rightarrow> 'a net_scheme option" where
  "udp_input rx inpkt ip st =
     do { dst \<leftarrow> rd_be16 (drop (ip + 22) inpkt);
          src \<leftarrow> rd_be16 (drop (ip + 20) inpkt);
          len \<leftarrow> rd_be16 (drop (ip + 24) inpkt);
          call_handler rx (Some (drop (ip + IP_HDR_SIZE) inpkt)) (ucast dst) (ucast src) (ucast len - 8) st }"

definition icmp_input :: "'a rx_dispatch \<Rightarrow> buf \<Rightarrow> nat \<Rightarrow> 'a net_scheme \<Rightarrow> 'a net_scheme option" where
  "icmp_input rx inpkt ip st =
     do { type \<leftarrow> load inpkt (ip + 20);
          if code type = ICMP_REDIRECT then
            do { cd \<leftarrow> load inpkt (ip + 21);
                 if code cd \<noteq> ICMP_REDIR_HOST then Some st
                 else
                   do { st \<leftarrow> puts (cstr '' ICMP Host Redirect to '') st;
                        gw \<leftarrow> rd_le32 (drop (ip + 24) inpkt);
                        st \<leftarrow> print_IPaddr gw st;
                        st \<leftarrow> putc (CHR '' '') st;
                        udp_input rx inpkt ip st } }
          else if code type = ICMP_ECHO_REPLY then
            do { st \<leftarrow> call_handler rx (Some (drop ip inpkt)) 0 0 0 st; udp_input rx inpkt ip st }
          else Some st }"

definition ip_input :: "'a rx_dispatch \<Rightarrow> buf \<Rightarrow> nat \<Rightarrow> int \<Rightarrow> 'a net_scheme \<Rightarrow> 'a net_scheme option" where
  "ip_input rx inpkt ip len st =
     (if len < int IP_HDR_SIZE then Some st
      else
        do { ip_len \<leftarrow> rd_be16 (drop (ip + 2) inpkt);
             if len < int (unat ip_len) then
               printf (''len bad %d < %d'' @ [CHR 0x0A]) [VWord (of_int len), VWord (ucast ip_len)] st
             else
               do { hl_v \<leftarrow> load inpkt ip;
                    off \<leftarrow> rd_be16 (drop (ip + 6) inpkt);
                    if of_char hl_v AND 0xf0 \<noteq> (0x40 :: u8) then Some st
                    else if off AND 0x1fff \<noteq> 0 then Some st
                    else
                      do { ok \<leftarrow> NetCksumOk (drop ip inpkt) (IP_HDR_SIZE_NO_UDP div 2);
                           if \<not> ok then puts (cstr (''checksum bad'' @ [CHR 0x0A])) st
                           else
                             do { dst \<leftarrow> rd_le32 (drop (ip + 16) inpkt);
                                  if NetOurIP st \<noteq> 0 \<and> dst \<noteq> NetOurIP st \<and> dst \<noteq> 0xFFFFFFFF then Some st
                                  else
                                    do { p \<leftarrow> load inpkt (ip + 9);
                                         if code p = IPPROTO_ICMP then icmp_input rx inpkt ip st
                                         else if code p \<noteq> IPPROTO_UDP then Some st
                                         else udp_input rx inpkt ip st } } } } })"

definition NetReceive :: "'a rx_dispatch \<Rightarrow> buf \<Rightarrow> int \<Rightarrow> 'a net_scheme \<Rightarrow> 'a net_scheme option" where
  "NetReceive rx inpkt len st =
     (let st = st\<lparr>NetRxPkt := inpkt\<rparr>
      in if len < int ETHER_HDR_SIZE then Some st
         else
           do { link \<leftarrow> link_header inpkt len st;
                (case link of None \<Rightarrow> Some st
                 | Some (x, p, len, vlanid) \<Rightarrow>
                     if \<not> vlan_match vlanid st then Some st
                     else if x = PROT_ARP then arp_input rx inpkt p len st
                     else if x = PROT_RARP then rarp_input rx inpkt p len st
                     else if x = PROT_IP then ip_input rx inpkt p len st
                     else Some st) })"

end
