(* ===== verification/Tftp.thy ===== *)
theory Tftp
  imports Net
begin

text \<open>
  Loading a file by TFTP (\<open>net/tftp.c\<close>), and the printing of sizes
  (\<open>lib_generic/display_options.c\<close>).
\<close>

section \<open>Printing sizes\<close>

definition print_size :: "u32 \<Rightarrow> buf \<Rightarrow> 'a console_scheme \<Rightarrow> 'a console_scheme option" where
  "print_size sz s st =
     (let (c, d) = (if sz < push_bit 20 1 then (CHR ''k'', push_bit 10 1) else (CHR ''M'', push_bit 20 1));
          n = sz div d;
          m = (10 * (sz - n * d) + d div 2) div d;
          (m, n) = (if m \<ge> 10 then (m - 10, n + 1) else (m, n))
      in do { st \<leftarrow> printf ''%2ld'' [VWord n] st;
              st \<leftarrow> (if m \<noteq> 0 then printf ''.%ld'' [VWord m] st else Some st);
              printf '' %cB%s'' [VWord (of_nat (code c)), VStr (Some s)] st })"

section \<open>The state\<close>

record tftp = net +
  TftpServerPort :: u32
  TftpOurPort :: u32
  TftpTimeoutCount :: int
  TftpBlock :: u32
  TftpLastBlock :: u32
  TftpBlockWrap :: u32
  TftpBlockWrapOffset :: u32
  TftpState :: int
  tftp_filename :: buf

definition WELL_KNOWN_PORT :: u32 where "WELL_KNOWN_PORT = 69"
definition TFTP_TIMEOUT :: u32 where "TFTP_TIMEOUT = 5"
definition TFTP_TIMEOUT_COUNT :: int where "TFTP_TIMEOUT_COUNT = 10"
definition HASHES_PER_LINE :: u32 where "HASHES_PER_LINE = 65"
definition TFTP_RRQ :: u16 where "TFTP_RRQ = 1"
definition TFTP_DATA :: u16 where "TFTP_DATA = 3"
definition TFTP_ACK :: u16 where "TFTP_ACK = 4"
definition TFTP_ERROR :: u16 where "TFTP_ERROR = 5"
definition TFTP_OACK :: u16 where "TFTP_OACK = 6"
definition STATE_RRQ :: int where "STATE_RRQ = 1"
definition STATE_DATA :: int where "STATE_DATA = 2"
definition STATE_TOO_LARGE :: int where "STATE_TOO_LARGE = 3"
definition STATE_BAD_MAGIC :: int where "STATE_BAD_MAGIC = 4"
definition STATE_OACK :: int where "STATE_OACK = 5"
definition TFTP_BLOCK_SIZE :: u32 where "TFTP_BLOCK_SIZE = 512"
definition TFTP_SEQUENCE_SIZE :: u32 where "TFTP_SEQUENCE_SIZE = push_bit 16 1"

section \<open>Storing and sending\<close>

definition store_block :: "u32 \<Rightarrow> buf \<Rightarrow> u32 \<Rightarrow> 'a tftp_scheme \<Rightarrow> 'a tftp_scheme option" where
  "store_block block src len st =
     (let offset = block * TFTP_BLOCK_SIZE + TftpBlockWrapOffset st;
          newsize = offset + len
      in do { data \<leftarrow> get_bytes src 0 (unat len);
              let st = st\<lparr>mem := overlay (mem st) (load_addr st + offset) data\<rparr>;
              Some (if NetBootFileXferSize st < newsize then st\<lparr>NetBootFileXferSize := newsize\<rparr> else st) })"

text \<open>The UDP payload for the state of the transfer; the numbers of errors are those of TFTP.\<close>

definition tftp_payload :: "'a tftp_scheme \<Rightarrow> buf option" where
  "tftp_payload st =
     (if TftpState st = STATE_RRQ then
        do { name \<leftarrow> str_at (tftp_filename st);
             Some (be16 TFTP_RRQ @ cstr name @ cstr ''octet'' @ cstr ''timeout'' @ cstr (sdec TFTP_TIMEOUT)) }
      else if TftpState st = STATE_DATA \<or> TftpState st = STATE_OACK then
        Some (be16 TFTP_ACK @ be16 (ucast (TftpBlock st)))
      else if TftpState st = STATE_TOO_LARGE then Some (be16 TFTP_ERROR @ be16 3 @ cstr ''File too large'')
      else if TftpState st = STATE_BAD_MAGIC then Some (be16 TFTP_ERROR @ be16 2 @ cstr ''File has bad magic'')
      else Some [])"

definition TftpSend :: "'a tftp_scheme \<Rightarrow> 'a tftp_scheme option" where
  "TftpSend st =
     do { payload \<leftarrow> tftp_payload st;
          b \<leftarrow> put (NetTxPacket st) (NetEthHdrSize st + IP_HDR_SIZE) payload;
          map_option snd
            (NetSendUDPPacket MAC_Server (NetServerIP st) (unat (TftpServerPort st)) (unat (TftpOurPort st))
               (length payload) (st\<lparr>NetTxPacket := b\<rparr>)) }"

section \<open>Receiving\<close>

text \<open>The progress report, and the count of the wrap-arounds of the block number.\<close>

definition tftp_progress :: "'a tftp_scheme \<Rightarrow> 'a tftp_scheme option" where
  "tftp_progress st =
     (if TftpBlock st = 0 then
        let st = st\<lparr>TftpBlockWrap := TftpBlockWrap st + 1,
                   TftpBlockWrapOffset := TftpBlockWrapOffset st + TFTP_BLOCK_SIZE * TFTP_SEQUENCE_SIZE\<rparr>
        in printf ([CHR 0x0A, TAB] @ '' %lu MB reveived'' @ [CHR 0x0A, TAB] @ '' '')
             [VWord (drop_bit 20 (TftpBlockWrapOffset st))] st
      else if (TftpBlock st - 1) mod 10 = 0 then putc (CHR ''#'') st
      else if TftpBlock st mod (10 * HASHES_PER_LINE) = 0 then puts (cstr ([CHR 0x0A, TAB] @ '' '')) st
      else Some st)"

definition first_block_error :: string where
  "first_block_error =
     [CHR 0x0A] @ ''TFTP error: First block is not block 1 (%ld)'' @ [CHR 0x0A] @ ''Starting again'' @
     [CHR 0x0A, CHR 0x0A]"

definition tftp_data :: "(u32 \<Rightarrow> int) \<Rightarrow> buf \<Rightarrow> u32 \<Rightarrow> u32 \<Rightarrow> 'a tftp_scheme \<Rightarrow> 'a tftp_scheme option" where
  "tftp_data start pkt src len st =
     (if len < 2 then Some st
      else
        do { let len = len - 2;
             block \<leftarrow> rd_be16 pkt;
             st \<leftarrow> tftp_progress (st\<lparr>TftpBlock := ucast block\<rparr>);
             let first_block = (TftpState st = STATE_RRQ \<or> TftpState st = STATE_OACK);
             let st = (if first_block
                       then st\<lparr>TftpState := STATE_DATA, TftpServerPort := src, TftpLastBlock := 0,
                               TftpBlockWrap := 0, TftpBlockWrapOffset := 0\<rparr>
                       else st);
             if first_block \<and> TftpBlock st \<noteq> 1 then
               do { st \<leftarrow> printf first_block_error [VWord (TftpBlock st)] st; NetStartAgain start st }
             else if TftpBlock st = TftpLastBlock st then Some st
             else
               do { let st = NetSetTimeout (TFTP_TIMEOUT * CFG_HZ) TftpTimeout (st\<lparr>TftpLastBlock := TftpBlock st\<rparr>);
                    st \<leftarrow> store_block (TftpBlock st - 1) (drop 2 pkt) len st;
                    st \<leftarrow> TftpSend st;
                    if len < TFTP_BLOCK_SIZE then
                      do { st \<leftarrow> puts (cstr ([CHR 0x0A] @ ''done'' @ [CHR 0x0A])) st;
                           Some (st\<lparr>NetState := NETLOOP_SUCCESS\<rparr>) }
                    else Some st } })"

definition tftp_handler ::
  "(u32 \<Rightarrow> int) \<Rightarrow> buf option \<Rightarrow> u32 \<Rightarrow> u32 \<Rightarrow> u32 \<Rightarrow> 'a tftp_scheme \<Rightarrow> 'a tftp_scheme option" where
  "tftp_handler start pkt dest src len st =
     (if dest \<noteq> TftpOurPort st then Some st
      else if TftpState st \<noteq> STATE_RRQ \<and> src \<noteq> TftpServerPort st then Some st
      else if len < 2 then Some st
      else
        do { p \<leftarrow> pkt;
             proto \<leftarrow> rd_be16 p;
             if proto = TFTP_OACK then
               TftpSend (st\<lparr>TftpState := STATE_OACK, TftpServerPort := src\<rparr>)
             else if proto = TFTP_DATA then tftp_data start (drop 2 p) src (len - 2) st
             else if proto = TFTP_ERROR then
               do { e \<leftarrow> rd_be16 (drop 2 p);
                    st \<leftarrow> printf ([CHR 0x0A] @ ''TFTP error: '' @ [CHR 0x27] @ ''%s'' @ [CHR 0x27] @ '' (%d)'' @ [CHR 0x0A])
                            [VStr (Some (drop 4 p)), VWord (ucast e)] st;
                    st \<leftarrow> puts (cstr (''Starting again'' @ [CHR 0x0A, CHR 0x0A])) st;
                    NetStartAgain start st }
             else Some st })"

definition tftp_timeout :: "(u32 \<Rightarrow> int) \<Rightarrow> 'a tftp_scheme \<Rightarrow> 'a tftp_scheme option" where
  "tftp_timeout start st =
     (let st = st\<lparr>TftpTimeoutCount := TftpTimeoutCount st + 1\<rparr>
      in if TftpTimeoutCount st > TFTP_TIMEOUT_COUNT then
           do { st \<leftarrow> puts (cstr ([CHR 0x0A] @ ''Retry count exceeded; starting again'' @ [CHR 0x0A])) st;
                NetStartAgain start st }
         else
           do { st \<leftarrow> puts (cstr ''T '') st;
                TftpSend (NetSetTimeout (TFTP_TIMEOUT * CFG_HZ) TftpTimeout st) })"

section \<open>Starting\<close>

definition tftp_name :: "'a tftp_scheme \<Rightarrow> 'a tftp_scheme option" where
  "tftp_name st =
     do { c \<leftarrow> load (BootFile st) 0;
          if c = NUL then
            do { let ip = htonl (NetOurIP st);
                 (name, _, _) \<leftarrow> vsprintf (replicate 13 NUL) (cstr ''%02lX%02lX%02lX%02lX.img'')
                    [VWord (ip AND 0xFF), VWord (drop_bit 8 ip AND 0xFF), VWord (drop_bit 16 ip AND 0xFF),
                     VWord (drop_bit 24 ip AND 0xFF)];
                 let st = st\<lparr>tftp_filename := name\<rparr>;
                 printf (''*** Warning: no boot file name; using '' @ [CHR 0x27] @ ''%s'' @ [CHR 0x27, CHR 0x0A])
                   [VStr (Some name)] st }
          else Some (st\<lparr>tftp_filename := BootFile st\<rparr>) }"

definition tftp_banner :: "'a tftp_scheme \<Rightarrow> 'a tftp_scheme option" where
  "tftp_banner st =
     do { st \<leftarrow> printf (''Using %s device'' @ [CHR 0x0A]) [VStr (Some (eth_get_name st))] st;
          st \<leftarrow> puts (cstr ''TFTP from server '') st;
          st \<leftarrow> print_IPaddr (NetServerIP st) st;
          st \<leftarrow> puts (cstr ''; our IP address is '') st;
          st \<leftarrow> print_IPaddr (NetOurIP st) st;
          st \<leftarrow> (if NetOurGatewayIP st \<noteq> 0 \<and> NetOurSubnetMask st \<noteq> 0 \<and>
                   NetOurIP st AND NetOurSubnetMask st \<noteq> NetServerIP st AND NetOurSubnetMask st
                 then do { st \<leftarrow> puts (cstr ''; sending through gateway '') st;
                           print_IPaddr (NetOurGatewayIP st) st }
                 else Some st);
          st \<leftarrow> putc (CHR 0x0A) st;
          st \<leftarrow> printf (''Filename '' @ [CHR 0x27] @ ''%s'' @ [CHR 0x27] @ ''.'') [VStr (Some (tftp_filename st))] st;
          st \<leftarrow> (if NetBootFileSize st \<noteq> 0
                 then do { let sz = push_bit 9 (ucast (NetBootFileSize st));
                           st \<leftarrow> printf '' Size is 0x%x Bytes = '' [VWord sz] st;
                           print_size sz (cstr '''') st }
                 else Some st);
          st \<leftarrow> putc (CHR 0x0A) st;
          st \<leftarrow> printf (''Load address: 0x%lx'' @ [CHR 0x0A]) [VWord (load_addr st)] st;
          puts (cstr (''Loading: *'' @ [CHR 0x08])) st }"

definition TftpStart :: "'a tftp_scheme \<Rightarrow> 'a tftp_scheme option" where
  "TftpStart st =
     do { st \<leftarrow> tftp_name st;
          st \<leftarrow> tftp_banner st;
          let st = NetSetHandler TftpHandler (NetSetTimeout (TFTP_TIMEOUT * CFG_HZ) TftpTimeout st);
          let st = st\<lparr>TftpServerPort := WELL_KNOWN_PORT, TftpTimeoutCount := 0, TftpState := STATE_RRQ\<rparr>;
          let (t, st) = get_timer 0 st;
          TftpSend (st\<lparr>TftpOurPort := 1024 + t mod 3072, TftpBlock := 0, NetServerEther := replicate 6 NUL\<rparr>) }"

end
