(* ===== verification/Net_Props.thy ===== *)
theory Net_Props
  imports Tftp Inet_Props Flash_Props
begin

text \<open>
  What travels over the wire: a frame built by the sending functions is accepted by \<open>NetReceive\<close> of a
  machine in the same VLAN and reaches its handler; an unknown hardware address is resolved first.
\<close>

section \<open>Reading what has been written\<close>

lemma rd_be16_drop [buffer_simps]: "length a = n \<Longrightarrow> rd_be16 (drop n (a @ be16 w @ r)) = Some w"
  by simp

lemma length_eth_header: "length d = 6 \<Longrightarrow> length s = 6 \<Longrightarrow>
    length (eth_header v d s p) = (if tagged v then 18 else 14)"
  by (simp add: eth_header_def)

lemma NetEthHdrSize_eq: "NetEthHdrSize st = (if tagged (NetOurVLAN st) then 18 else 14)"
  by (simp add: NetEthHdrSize_def tagged_def ETHER_HDR_SIZE_def VLAN_ETHER_HDR_SIZE_def)

lemma own_vlan_masked:
  "own_vlan v AND VLAN_IDMASK = VLAN_NONE \<longleftrightarrow> htons v AND VLAN_IDMASK = VLAN_NONE"
  by (simp add: own_vlan_def VLAN_NONE_def VLAN_IDMASK_def Let_def)

text \<open>Every frame with a header of our own is accepted by the link layer of a receiver in the same VLAN.\<close>

lemma link_header_own:
  assumes "length d = 6" "length s = 6" "length body + (if tagged v then 18 else 14) = n"
    "\<not> p < 1514" "p \<noteq> PROT_VLAN" "NetOurVLAN st = v"
  shows "\<exists>vl. link_header (eth_header v d s p @ body @ r) (int n) st =
      Some (Some (p, if tagged v then 18 else 14, int (length body), vl)) \<and> vlan_match vl st"
proof (cases "tagged v")
  case True
  let ?t = "own_vlan v AND VLAN_IDMASK"
  have t: "?t \<noteq> VLAN_NONE" "htons v AND VLAN_IDMASK \<noteq> VLAN_NONE"
    using True by (simp_all add: tagged_def own_vlan_masked)
  have "link_header (eth_header v d s p @ body @ r) (int n) st = Some (Some (p, 18, int (length body), ?t))"
  proof -
    have e: "eth_header v d s p @ body @ r = (d @ s) @ be16 PROT_VLAN @ be16 ?t @ be16 p @ body @ r"
      using True by (simp add: eth_header_def)
    have 12: "rd_be16 (drop 12 (eth_header v d s p @ body @ r)) = Some PROT_VLAN"
      unfolding e by (rule rd_be16_drop) (simp add: assms)
    have 14: "rd_be16 (drop 14 (eth_header v d s p @ body @ r)) = Some ?t"
      using rd_be16_drop [of "(d @ s) @ be16 PROT_VLAN" 14 ?t "be16 p @ body @ r"] assms unfolding e by simp
    have 16: "rd_be16 (drop 16 (eth_header v d s p @ body @ r)) = Some p"
      using rd_be16_drop [of "(d @ s) @ be16 PROT_VLAN @ be16 ?t" 16 p "body @ r"] assms unfolding e by simp
    have n: "int n = int (length body) + 18" using assms(3) True by simp
    show ?thesis
      using t(2) assms(6) unfolding link_header_def 12 14 16 n
      by (simp add: PROT_VLAN_def VLAN_ETHER_HDR_SIZE_def and.assoc)
  qed
  moreover have "vlan_match ?t st" using t assms(6) by (simp add: vlan_match_def)
  ultimately show ?thesis using True by auto
next
  case False
  have "rd_be16 (drop 12 (eth_header v d s p @ body @ r)) = Some p"
    using rd_be16_drop [of "d @ s" 12 p "body @ r"] False assms by (simp add: eth_header_def)
  then have "link_header (eth_header v d s p @ body @ r) (int n) st = Some (Some (p, 14, int (length body), VLAN_NONE))"
    using assms False by (simp add: link_header_def ETHER_HDR_SIZE_def)
  moreover have "vlan_match VLAN_NONE st" using False assms(6) by (simp add: vlan_match_def tagged_def)
  ultimately show ?thesis using False by auto
qed

section \<open>UDP\<close>

text \<open>A packet with our IP and UDP header reaches the handler with its ports and its payload.\<close>

definition udp_packet :: "u16 \<Rightarrow> u32 \<Rightarrow> u32 \<Rightarrow> nat \<Rightarrow> nat \<Rightarrow> buf \<Rightarrow> buf" where
  "udp_packet ident src dest dport sport payload =
     ip_header ident src dest dport sport (length payload) (ip_cksum ident src dest (length payload)) @ payload"

lemma ip_header_fields:
  assumes "length ck = 2" "dport < 65536" "sport < 65536" "len < 65508" "length a = p"
  shows "rd_be16 (drop (p + 2) (a @ ip_header i s d dport sport len ck @ r)) = Some (of_nat (28 + len))"
    "load (a @ ip_header i s d dport sport len ck @ r) p = Some (CHR 0x45)"
    "rd_be16 (drop (p + 6) (a @ ip_header i s d dport sport len ck @ r)) = Some 0x4000"
    "load (a @ ip_header i s d dport sport len ck @ r) (p + 9) = Some (CHR 0x11)"
    "rd_le32 (drop (p + 16) (a @ ip_header i s d dport sport len ck @ r)) = Some d"
    "rd_be16 (drop (p + 20) (a @ ip_header i s d dport sport len ck @ r)) = Some (of_nat sport)"
    "rd_be16 (drop (p + 22) (a @ ip_header i s d dport sport len ck @ r)) = Some (of_nat dport)"
    "rd_be16 (drop (p + 24) (a @ ip_header i s d dport sport len ck @ r)) = Some (of_nat (8 + len))"
    "drop (p + 28) (a @ ip_header i s d dport sport len ck @ r) = r"
proof -
  obtain c1 c2 where ck: "ck = [c1, c2]" using assms(1)
    by (auto simp: length_Suc_conv numeral_2_eq_2)
  obtain s1 s2 s3 s4 where s: "le32 s = [s1, s2, s3, s4]" by (simp add: le32_def)
  obtain d1 d2 d3 d4 where d: "le32 d = [d1, d2, d3, d4]" by (simp add: le32_def)
  have rd: "rd_le32 (d1 # d2 # d3 # d4 # xs) = Some d" for xs
    using rd_le32_le32 [of d xs] d by simp
  have be: "rd_be16 (be16 w @ xs) = Some w" for w xs by simp
  note simps = ip_header_def ck s d drop_append assms(5) [symmetric] be16_def IP_HDR_SIZE_def
  show "rd_be16 (drop (p + 2) (a @ ip_header i s d dport sport len ck @ r)) = Some (of_nat (28 + len))"
    using be [of "of_nat (28 + len)"] by (simp add: simps del: rd_be16_be16)
  show "load (a @ ip_header i s d dport sport len ck @ r) p = Some (CHR 0x45)"
    using load_append_length [of a] assms(5) by (simp add: ip_header_def)
  show "rd_be16 (drop (p + 6) (a @ ip_header i s d dport sport len ck @ r)) = Some 0x4000"
    using be [of 0x4000] by (simp add: simps del: rd_be16_be16)
  show "load (a @ ip_header i s d dport sport len ck @ r) (p + 9) = Some (CHR 0x11)"
    by (simp add: load_def simps nth_append)
  show "rd_le32 (drop (p + 16) (a @ ip_header i s d dport sport len ck @ r)) = Some d"
    by (simp add: simps rd del: rd_le32.simps)
  show "rd_be16 (drop (p + 20) (a @ ip_header i s d dport sport len ck @ r)) = Some (of_nat sport)"
    using be [of "of_nat sport"] by (simp add: simps del: rd_be16_be16)
  show "rd_be16 (drop (p + 22) (a @ ip_header i s d dport sport len ck @ r)) = Some (of_nat dport)"
    using be [of "of_nat dport"] by (simp add: simps del: rd_be16_be16)
  show "rd_be16 (drop (p + 24) (a @ ip_header i s d dport sport len ck @ r)) = Some (of_nat (8 + len))"
    using be [of "of_nat (8 + len)"] by (simp add: simps del: rd_be16_be16)
  show "drop (p + 28) (a @ ip_header i s d dport sport len ck @ r) = r"
    using assms(1,5) by simp
qed

lemma ucast_16_32: "n < 65536 \<Longrightarrow> (ucast (of_nat n :: u16) :: u32) = of_nat n"
  by (simp add: ucast_32_unat unat_of_nat)

lemma length_udp_packet [simp]: "length (udp_packet i s d dp sp payload) = 28 + length payload"
  by (simp add: udp_packet_def)

lemma ip_input_udp:
  assumes "dport < 65536" "sport < 65536" "length payload < 65500" "length a = p"
    "NetOurIP st = 0 \<or> dest = NetOurIP st \<or> dest = 0xFFFFFFFF" "packetHandler st = Some f"
  shows "ip_input rx (a @ udp_packet i src dest dport sport payload @ r) p (int (28 + length payload)) st =
    rx f (Some (payload @ r)) (of_nat dport) (of_nat sport) (of_nat (length payload)) st"
proof -
  let ?ck = "ip_cksum i src dest (length payload)"
  define b where "b = a @ ip_header i src dest dport sport (length payload) ?ck @ payload @ r"
  have len: "length payload < 65508" using assms(3) by simp
  note fields = ip_header_fields [OF length_ip_cksum assms(1,2) len assms(4),
      of i src dest i src dest "length payload" "payload @ r", folded b_def]
  have ck: "NetCksumOk (drop p b) (IP_HDR_SIZE_NO_UDP div 2) = Some True"
    using ip_header_checked [of i src dest dport sport "length payload" "payload @ r"] assms(4)
    by (simp add: b_def IP_HDR_SIZE_NO_UDP_def)
  have u: "int (unat (of_nat (28 + length payload) :: u16)) = int (28 + length payload)"
    using assms(3) by (simp add: unat_of_nat del: of_nat_add)
  have hl: "of_char (CHR 0x45) AND 0xf0 = (0x40 :: u8)" by simp
  have "ucast (of_nat (8 + length payload) :: u16) - 8 = (of_nat (length payload) :: u32)"
    using assms(3) ucast_16_32 [of "8 + length payload"] by simp
  then have "udp_input rx b p st = rx f (Some (payload @ r)) (of_nat dport) (of_nat sport) (of_nat (length payload)) st"
    unfolding udp_input_def fields(6-8) using fields(9) assms(1,2,6)
    by (simp add: call_handler_def ucast_16_32 IP_HDR_SIZE_def)
  then have "ip_input rx b p (int (28 + length payload)) st =
      rx f (Some (payload @ r)) (of_nat dport) (of_nat sport) (of_nat (length payload)) st"
    using assms(5) unfolding ip_input_def fields(1-5) bind.bind_lunit u hl ck
    by (auto simp: IP_HDR_SIZE_def IPPROTO_ICMP_def IPPROTO_UDP_def)
  then show ?thesis by (simp add: b_def udp_packet_def)
qed

lemma receive_udp:
  assumes "dport < 65536" "sport < 65536" "length payload < 65500" "length d = 6" "length s = 6"
    "NetOurIP st = 0 \<or> dest = NetOurIP st \<or> dest = 0xFFFFFFFF" "packetHandler st = Some f"
    "NetOurVLAN st = v"
    "n = (if tagged v then 18 else 14) + 28 + length payload"
    "pkt = eth_header v d s PROT_IP @ udp_packet i src dest dport sport payload @ r"
  shows "NetReceive rx pkt (int n) st =
    rx f (Some (payload @ r)) (of_nat dport) (of_nat sport) (of_nat (length payload)) (st\<lparr>NetRxPkt := pkt\<rparr>)"
proof -
  let ?st = "st\<lparr>NetRxPkt := pkt\<rparr>"
  let ?h = "if tagged v then 18 else 14 :: nat"
  let ?u = "udp_packet i src dest dport sport payload"
  have n: "length ?u + ?h = n" using assms(9) by simp
  have p: "\<not> PROT_IP < 1514" "PROT_IP \<noteq> PROT_VLAN" "PROT_IP \<noteq> PROT_ARP" "PROT_IP \<noteq> PROT_RARP"
    by (simp_all add: PROT_IP_def PROT_VLAN_def PROT_ARP_def PROT_RARP_def)
  obtain vl where l: "link_header pkt (int n) ?st = Some (Some (PROT_IP, ?h, int (length ?u), vl))" "vlan_match vl ?st"
    using link_header_own [OF assms(4,5) n p(1,2), of ?st r] assms(8,10) by auto
  have "NetReceive rx pkt (int n) st = ip_input rx pkt ?h (int (28 + length payload)) ?st"
    using l n p(3,4) by (simp add: NetReceive_def Let_def ETHER_HDR_SIZE_def split: if_splits)
  also have "\<dots> = rx f (Some (payload @ r)) (of_nat dport) (of_nat sport) (of_nat (length payload)) ?st"
    unfolding assms(10)
    by (rule ip_input_udp) (use assms in \<open>simp_all add: length_eth_header\<close>)
  finally show ?thesis .
qed

text \<open>Sending: the frame for a known hardware address.\<close>

definition mac_ok :: "buf \<Rightarrow> bool" where
  "mac_ok m \<longleftrightarrow> length m = 6 \<and> m \<noteq> NetEtherNullAddr"

lemma mac_not_null: "mac_ok m \<Longrightarrow> \<exists>k. memcmp m NetEtherNullAddr 6 = Some k \<and> k \<noteq> 0"
proof -
  assume m: "mac_ok m"
  then obtain k where k: "memcmp m NetEtherNullAddr 6 = Some k"
    using memcmp_returns [of 6 m NetEtherNullAddr] by (auto simp: mac_ok_def NetEtherNullAddr_def)
  moreover have "k \<noteq> 0"
    using memcmp_zero_iff [of 6 m NetEtherNullAddr] m k by (auto simp: mac_ok_def NetEtherNullAddr_def)
  ultimately show ?thesis by blast
qed

lemma mac_ok_bcast: "mac_ok NetBcastAddr"
  by (simp add: mac_ok_def NetBcastAddr_def NetEtherNullAddr_def eval_nat_numeral)

definition udp_dest :: "u32 \<Rightarrow> u32" where
  "udp_dest dest = (if dest = 0 then 0xFFFFFFFF else dest)"

definition udp_mac :: "mac_ptr \<Rightarrow> u32 \<Rightarrow> mac_ptr" where
  "udp_mac ether dest = (if udp_dest dest = 0xFFFFFFFF then MAC_Bcast else ether)"

lemma put_take_drop: "length b = n \<Longrightarrow> put b 0 h = Some b' \<Longrightarrow> length h \<le> n \<Longrightarrow> b' = h @ drop (length h) b"
  by (simp add: put_eq)

definition odd_pad :: "buf \<Rightarrow> buf" where
  "odd_pad payload = (if odd (length payload) then [NUL] else [])"

lemma take_list_update_end: "n \<le> k \<Longrightarrow> take n (xs[k := x]) = take n xs"
  by simp

lemma eth_send_ok:
  "eth_current st \<noteq> None \<Longrightarrow> n \<le> length b \<Longrightarrow> eth_send b n st = Some (st\<lparr>eth_out := eth_out st @ [take n b]\<rparr>)"
  by (auto simp: eth_send_def)

lemma send_udp_known:
  assumes "mac_ok (mac_of (udp_mac ether dest) st)" "length (NetOurEther st) = 6"
    "length (NetTxPacket st) = PKTSIZE_ALIGN" "length payload + 47 \<le> PKTSIZE_ALIGN"
    "get_bytes (NetTxPacket st) (NetEthHdrSize st + 28) (length payload) = Some payload"
    "eth_current st \<noteq> None"
  shows "\<exists>b. NetSendUDPPacket ether dest dport sport (length payload) st =
      Some (0, st\<lparr>NetTxPacket := b, NetIPID := NetIPID st + 1,
        eth_out := eth_out st @ [eth_header (NetOurVLAN st) (mac_of (udp_mac ether dest) st) (NetOurEther st) PROT_IP @
          udp_packet (ucast (NetIPID st)) (NetOurIP st) (udp_dest dest) dport sport payload]\<rparr>) \<and>
    length b = PKTSIZE_ALIGN"
proof -
  let ?m = "mac_of (udp_mac ether dest) st"
  let ?h = "eth_header (NetOurVLAN st) ?m (NetOurEther st) PROT_IP"
  let ?n = "length payload"
  define p where "p = NetEthHdrSize st"
  have lh: "length ?h = p" "p \<le> 18"
    using assms(1,2) by (simp_all add: p_def NetEthHdrSize_eq length_eth_header mac_ok_def)
  let ?b0 = "NetTxPacket st"
  have sz: "length ?b0 = 1536" "p + 28 + ?n + 1 \<le> 1536" using assms(3,4) lh(2) by (simp_all add: PKTSIZE_ALIGN_def)
  define b1 where "b1 = ?h @ drop p ?b0"
  have b1: "length b1 = 1536" "take p b1 = ?h" using lh sz by (simp_all add: b1_def)
  have set1: "NetSetEther ?b0 ?m PROT_IP st = Some (b1, p)"
    using lh sz by (simp add: NetSetEther_def put_eq b1_def Let_def)
  define b1' where "b1' = (if odd ?n then b1[p + 28 + ?n := NUL] else b1)"
  let ?hd = "ip_header (ucast (NetIPID st)) (NetOurIP st) (udp_dest dest) dport sport ?n
      (ip_cksum (ucast (NetIPID st)) (NetOurIP st) (udp_dest dest) ?n)"
  define b2 where "b2 = ?h @ ?hd @ drop (p + 28) b1'"
  have "take p b1' = ?h" using b1 lh(1) by (simp add: b1'_def)
  then have set2: "set_ip (ucast (NetIPID st)) (NetOurIP st) b1 p (udp_dest dest) dport sport ?n = Some b2"
    using set_ip_eq [of p ?n b1 "ucast (NetIPID st)" "NetOurIP st" "udp_dest dest" dport sport] b1 sz
    by (simp add: b2_def b1'_def Let_def)
  have l2: "length b2 = 1536" using lh sz b1 by (simp add: b2_def b1'_def)
  have pay: "take ?n (drop (p + 28) b1') = payload"
  proof -
    have "take ?n (drop (p + 28) b1') = take ?n (drop (p + 28) b1)"
      by (simp add: b1'_def take_drop)
    also have "\<dots> = take ?n (drop (p + 28) ?b0)" using lh by (simp add: b1_def add.commute)
    finally show ?thesis using assms(5) by (simp add: get_bytes_def p_def split: if_splits)
  qed
  have frame: "take (p + 28 + ?n) b2 = ?h @ udp_packet (ucast (NetIPID st)) (NetOurIP st) (udp_dest dest) dport sport payload"
    using lh pay by (simp add: b2_def udp_packet_def)
  obtain k where k: "memcmp ?m NetEtherNullAddr 6 = Some k" "k \<noteq> 0" using mac_not_null [OF assms(1)] by blast
  have "eth_send b2 (p + IP_HDR_SIZE + ?n) (st\<lparr>NetIPID := NetIPID st + 1, NetTxPacket := b2\<rparr>) =
      Some (st\<lparr>NetTxPacket := b2, NetIPID := NetIPID st + 1,
        eth_out := eth_out st @ [?h @ udp_packet (ucast (NetIPID st)) (NetOurIP st) (udp_dest dest) dport sport payload]\<rparr>)"
    using assms(6) l2 sz frame by (subst eth_send_ok) (simp_all add: IP_HDR_SIZE_def)
  then have "NetSendUDPPacket ether dest dport sport ?n st = Some (0, st\<lparr>NetTxPacket := b2, NetIPID := NetIPID st + 1,
        eth_out := eth_out st @ [?h @ udp_packet (ucast (NetIPID st)) (NetOurIP st) (udp_dest dest) dport sport payload]\<rparr>)"
    unfolding NetSendUDPPacket_def Let_def udp_dest_def [symmetric] udp_mac_def [symmetric] k(1) bind.bind_lunit
      if_not_P [OF k(2)] set1 prod.case NetSetIP_def set2 by simp
  then show ?thesis using l2 by (auto simp: PKTSIZE_ALIGN_def)
qed

section \<open>ARP\<close>

definition next_hop :: "'a net_scheme \<Rightarrow> u32" where
  "next_hop st =
     (if NetArpWaitPacketIP st AND NetOurSubnetMask st \<noteq> NetOurIP st AND NetOurSubnetMask st
      then NetOurGatewayIP st else NetArpWaitPacketIP st)"

text \<open>The request on the wire.\<close>

definition arp_request_frame :: "'a net_scheme \<Rightarrow> buf" where
  "arp_request_frame st =
     eth_header (NetOurVLAN st) NetBcastAddr (NetOurEther st) PROT_ARP @
     arp_packet ARPOP_REQUEST (NetOurEther st @ le32 (NetOurIP st) @ replicate 6 NUL @ le32 (next_hop st))"

lemma length_arp_packet [simp]: "length (arp_packet opr d) = 8 + length d"
  by (simp add: arp_packet_def)

lemma NetSetEther_ok:
  assumes "length m = 6" "length (NetOurEther st) = 6" "length b = PKTSIZE_ALIGN"
  shows "NetSetEther b m prot st =
    Some (eth_header (NetOurVLAN st) m (NetOurEther st) prot @ drop (NetEthHdrSize st) b, NetEthHdrSize st)"
    "NetEthHdrSize st \<le> 18" "length (eth_header (NetOurVLAN st) m (NetOurEther st) prot) = NetEthHdrSize st"
  using assms by (simp_all add: NetSetEther_def put_eq Let_def length_eth_header NetEthHdrSize_eq PKTSIZE_ALIGN_def)

lemma gatewayip_nonul: "nonul gatewayip_warning"
  by (simp add: gatewayip_warning_def)

lemma ArpRequest_sends:
  assumes "\<not> devinit st" "length (NetOurEther st) = 6" "length (NetTxPacket st) = PKTSIZE_ALIGN"
    "eth_current st \<noteq> None"
  shows "\<exists>b out. ArpRequest st = Some (sent out (st\<lparr>NetArpWaitReplyIP := next_hop st, NetTxPacket := b,
      eth_out := eth_out st @ [arp_request_frame st]\<rparr>)) \<and> length b = PKTSIZE_ALIGN"
proof -
  let ?h = "eth_header (NetOurVLAN st) NetBcastAddr (NetOurEther st) PROT_ARP"
  have lb: "length NetBcastAddr = 6" by (simp add: NetBcastAddr_def)
  note e = NetSetEther_ok [OF lb assms(2,3)]
  define p where "p = NetEthHdrSize st"
  define b1 where "b1 = ?h @ drop p (NetTxPacket st)"
  let ?a = "arp_packet ARPOP_REQUEST (NetOurEther st @ le32 (NetOurIP st) @ replicate 6 NUL @ le32 (next_hop st))"
  define b2 where "b2 = ?h @ ?a @ drop (p + 28) (NetTxPacket st)"
  have sz: "length (NetTxPacket st) = 1536" "p \<le> 18" "length ?h = p"
    using assms(3) e by (simp_all add: PKTSIZE_ALIGN_def p_def)
  have put: "put b1 p ?a = Some b2"
    using sz assms(2) by (subst put_eq) (simp_all add: b1_def b2_def add.commute)
  define out where "out = (if NetArpWaitPacketIP st AND NetOurSubnetMask st \<noteq> NetOurIP st AND NetOurSubnetMask st \<and>
      NetOurGatewayIP st = 0 then on_wire gatewayip_warning else [])"
  have warn: "(if NetArpWaitPacketIP st AND NetOurSubnetMask st \<noteq> NetOurIP st AND NetOurSubnetMask st
        then do { st \<leftarrow> (if NetOurGatewayIP st = 0 then puts (cstr gatewayip_warning) st else Some st);
                  Some (st\<lparr>NetArpWaitReplyIP := NetOurGatewayIP st\<rparr>) }
        else Some (st\<lparr>NetArpWaitReplyIP := NetArpWaitPacketIP st\<rparr>)) =
      Some (sent out (st\<lparr>NetArpWaitReplyIP := next_hop st\<rparr>))"
    using puts_sent [OF assms(1) gatewayip_nonul] by (auto simp: out_def next_hop_def sent_def)
  have "eth_send b2 (p + ARP_HDR_SIZE) ((sent out (st\<lparr>NetArpWaitReplyIP := next_hop st\<rparr>))\<lparr>NetTxPacket := b2\<rparr>) =
      Some (sent out (st\<lparr>NetArpWaitReplyIP := next_hop st, NetTxPacket := b2,
        eth_out := eth_out st @ [arp_request_frame st]\<rparr>))"
    using sz assms(2,4)
    by (subst eth_send_ok) (simp_all add: sent_def b2_def arp_request_frame_def ARP_HDR_SIZE_def)
  then have "ArpRequest st = Some (sent out (st\<lparr>NetArpWaitReplyIP := next_hop st, NetTxPacket := b2,
        eth_out := eth_out st @ [arp_request_frame st]\<rparr>))"
    unfolding ArpRequest_def e(1) [folded p_def] bind.bind_lunit prod.case warn b1_def [symmetric]
    using put by (simp add: sent_def)
  moreover have "length b2 = PKTSIZE_ALIGN" using sz assms(2) by (simp add: b2_def PKTSIZE_ALIGN_def)
  ultimately show ?thesis by blast
qed

text \<open>A packet for an address that is not yet known waits, and a request is on the wire.\<close>

lemma send_udp_unknown:
  assumes "\<not> devinit st" "mac_of ether st = NetEtherNullAddr" "dest \<noteq> 0" "dest \<noteq> 0xFFFFFFFF"
    "length (NetOurEther st) = 6" "length (NetTxPacket st) = PKTSIZE_ALIGN"
    "length (NetArpWaitTxPacket st) = PKTSIZE_ALIGN" "length payload + 47 \<le> PKTSIZE_ALIGN"
    "get_bytes (NetTxPacket st) (NetEthHdrSize st + 28) (length payload) = Some payload"
    "eth_current st \<noteq> None"
  shows "\<exists>st' b w out. NetSendUDPPacket ether dest dport sport (length payload) st = Some (1, st') \<and>
    (\<exists>t. st' = sent out (st\<lparr>timestamp := t, lastdec := 0, NetIPID := NetIPID st + 1, NetTxPacket := b, NetArpWaitTxPacket := w,
        NetArpWaitTxPacketSize := NetEthHdrSize st + 28 + length payload,
        NetArpWaitPacketIP := dest, NetArpWaitPacketMAC := Some ether, NetArpWaitTry := 1, NetArpWaitTimerStart := t,
        NetArpWaitReplyIP := next_hop (st\<lparr>NetArpWaitPacketIP := dest\<rparr>),
        eth_out := eth_out st @ [arp_request_frame (st\<lparr>NetArpWaitPacketIP := dest\<rparr>)]\<rparr>)) \<and>
    length b = PKTSIZE_ALIGN \<and> length w = PKTSIZE_ALIGN \<and>
    take (NetEthHdrSize st + 28 + length payload) w =
      eth_header (NetOurVLAN st) NetEtherNullAddr (NetOurEther st) PROT_IP @
        udp_packet (ucast (NetIPID st)) (NetOurIP st) dest dport sport payload"
proof -
  let ?n = "length payload"
  have ln: "length NetEtherNullAddr = 6" by (simp add: NetEtherNullAddr_def)
  let ?h = "eth_header (NetOurVLAN st) NetEtherNullAddr (NetOurEther st) PROT_IP"
  define p where "p = NetEthHdrSize st"
  define w1 where "w1 = ?h @ drop p (NetArpWaitTxPacket st)"
  let ?s0 = "st\<lparr>NetArpWaitPacketIP := dest, NetArpWaitPacketMAC := Some ether\<rparr>"
  have our: "length (NetOurEther ?s0) = 6" using assms(5) by simp
  note e = NetSetEther_ok [OF ln our assms(7)]
  have hdr: "NetEthHdrSize ?s0 = p" by (simp add: p_def NetEthHdrSize_eq)
  have set1: "NetSetEther (NetArpWaitTxPacket st) NetEtherNullAddr PROT_IP ?s0 = Some (w1, p)"
    using e(1) hdr by (simp add: w1_def)
  have sz: "length (NetArpWaitTxPacket st) = 1536" "length (NetTxPacket st) = 1536" "p \<le> 18" "length ?h = p"
    "p + 28 + ?n + 1 \<le> 1536"
    using e(2) e(3) assms(6-8) hdr by (simp_all add: PKTSIZE_ALIGN_def)
  let ?hd = "ip_header (ucast (NetIPID st)) (NetOurIP st) dest dport sport ?n
      (ip_cksum (ucast (NetIPID st)) (NetOurIP st) dest ?n)"
  define w1' where "w1' = (if odd ?n then w1[p + 28 + ?n := NUL] else w1)"
  have lw: "length w1 = 1536" "length w1' = 1536" "take p w1' = ?h" using sz by (simp_all add: w1_def w1'_def)
  define w2 where "w2 = ?h @ ?hd @ drop (p + 28) w1'"
  have set2: "set_ip (ucast (NetIPID st)) (NetOurIP st) w1 p dest dport sport ?n = Some w2"
    using set_ip_eq [of p ?n w1 "ucast (NetIPID st)" "NetOurIP st" dest dport sport] lw sz
    by (simp add: w2_def w1'_def Let_def)
  define w3 where "w3 = ?h @ ?hd @ payload @ drop (p + 28 + ?n) w2"
  have put: "put w2 (p + 28) payload = Some w3"
    using sz lw by (subst put_eq) (simp_all add: w2_def w3_def)
  have l3: "length w3 = 1536" using sz lw by (simp add: w2_def w3_def)
  have frame: "take (p + 28 + ?n) w3 = ?h @ udp_packet (ucast (NetIPID st)) (NetOurIP st) dest dport sport payload"
    using sz by (simp add: w3_def udp_packet_def)
  have null: "memcmp NetEtherNullAddr NetEtherNullAddr 6 = Some 0"
    by (simp add: NetEtherNullAddr_def eval_nat_numeral)
  define t where "t = timestamp st + lastdec st"
  define s0 where "s0 = ?s0"
  define s1 where "s1 = s0\<lparr>NetIPID := NetIPID st + 1, NetArpWaitTxPacket := w3, NetArpWaitTxPacketSize := p + 28 + ?n,
      NetArpWaitTry := 1, timestamp := t, lastdec := 0, NetArpWaitTimerStart := t\<rparr>"
  obtain b out where arp: "ArpRequest s1 = Some (sent out (s1\<lparr>NetArpWaitReplyIP := next_hop s1, NetTxPacket := b,
      eth_out := eth_out s1 @ [arp_request_frame s1]\<rparr>))" "length b = PKTSIZE_ALIGN"
    using ArpRequest_sends [of s1] assms(1,5,6,10) by (auto simp: devinit_def s1_def s0_def)
  have start: "start_arp (s0\<lparr>NetIPID := NetIPID st + 1, NetArpWaitTxPacket := w3, NetArpWaitTxPacketSize := p + 28 + ?n\<rparr>) =
      ArpRequest s1"
    by (simp add: start_arp_def get_timer_def get_timer_masked_eq s1_def s0_def t_def)
  have m0: "mac_of ether s0 = NetEtherNullAddr" using assms(2) by (cases ether) (simp_all add: s0_def)
  have f0: "NetIPID s0 = NetIPID st" "NetOurIP s0 = NetOurIP st" "NetTxPacket s0 = NetTxPacket st"
    "NetArpWaitTxPacket s0 = NetArpWaitTxPacket st" by (simp_all add: s0_def)
  have get: "get_bytes (NetTxPacket (s0\<lparr>NetIPID := NetIPID st + 1\<rparr>)) (p + IP_HDR_SIZE) ?n = Some payload"
    using assms(9) f0 by (simp add: p_def IP_HDR_SIZE_def)
  have "NetSendUDPPacket ether dest dport sport ?n st =
      do { st \<leftarrow> start_arp (s0\<lparr>NetIPID := NetIPID st + 1, NetArpWaitTxPacket := w3,
             NetArpWaitTxPacketSize := p + IP_HDR_SIZE + ?n\<rparr>); Some (1, st) }"
    unfolding NetSendUDPPacket_def Let_def if_not_P [OF assms(3)] if_not_P [OF assms(4)] assms(2) null bind.bind_lunit
      if_P [OF refl [of "0 :: int"]] s0_def [symmetric] m0 f0(4) set1 [folded s0_def] prod.case NetSetIP_def f0(1,2) set2 get
      put [folded IP_HDR_SIZE_def]
    using put by (simp add: IP_HDR_SIZE_def)
  then have "NetSendUDPPacket ether dest dport sport ?n st =
      Some (1, sent out (s1\<lparr>NetArpWaitReplyIP := next_hop s1, NetTxPacket := b,
      eth_out := eth_out s1 @ [arp_request_frame s1]\<rparr>))"
    using start arp(1) by (simp add: IP_HDR_SIZE_def)
  moreover have h: "next_hop s1 = next_hop (st\<lparr>NetArpWaitPacketIP := dest\<rparr>)"
    "arp_request_frame s1 = arp_request_frame (st\<lparr>NetArpWaitPacketIP := dest\<rparr>)"
    by (simp_all add: next_hop_def arp_request_frame_def s1_def s0_def)
  moreover have "sent out (s1\<lparr>NetArpWaitReplyIP := next_hop s1, NetTxPacket := b,
      eth_out := eth_out s1 @ [arp_request_frame s1]\<rparr>) =
    sent out (st\<lparr>timestamp := t, lastdec := 0, NetIPID := NetIPID st + 1, NetTxPacket := b, NetArpWaitTxPacket := w3,
        NetArpWaitTxPacketSize := NetEthHdrSize st + 28 + length payload,
        NetArpWaitPacketIP := dest, NetArpWaitPacketMAC := Some ether, NetArpWaitTry := 1, NetArpWaitTimerStart := t,
        NetArpWaitReplyIP := next_hop (st\<lparr>NetArpWaitPacketIP := dest\<rparr>),
        eth_out := eth_out st @ [arp_request_frame (st\<lparr>NetArpWaitPacketIP := dest\<rparr>)]\<rparr>)"
    unfolding h by (simp add: s1_def s0_def sent_def p_def)
  ultimately show ?thesis
    using arp(2) l3 frame unfolding PKTSIZE_ALIGN_def p_def by blast
qed

text \<open>The fields of an ARP packet at \<open>p\<close>.\<close>

lemma arp_fields:
  assumes "length a = p" "length sm = 6" "length tm = 6"
    "b = a @ arp_packet opr (sm @ le32 sip @ tm @ le32 tip) @ r"
  shows "rd_be16 (drop p b) = Some ARP_ETHER" "rd_be16 (drop (p + 2) b) = Some PROT_IP"
    "load b (p + 4) = Some (CHR 0x06)" "load b (p + 5) = Some (CHR 0x04)"
    "rd_be16 (drop (p + 6) b) = Some opr" "get_bytes b (p + 8) 6 = Some sm"
    "rd_le32 (drop (p + 14) b) = Some sip" "get_bytes b (p + 18) 6 = Some tm" "rd_le32 (drop (p + 24) b) = Some tip"
proof -
  have b: "b = a @ be16 ARP_ETHER @ be16 PROT_IP @ CHR 0x06 # CHR 0x04 # be16 opr @ sm @ le32 sip @ tm @ le32 tip @ r"
    by (simp add: assms(4) arp_packet_def)
  have d: "drop (p + k) b = drop k (be16 ARP_ETHER @ be16 PROT_IP @ CHR 0x06 # CHR 0x04 # be16 opr @ sm @ le32 sip @ tm @ le32 tip @ r)" for k
    using assms(1) by (simp add: b)
  have n: "load b (p + k) = load (be16 ARP_ETHER @ be16 PROT_IP @ CHR 0x06 # CHR 0x04 # be16 opr @ sm @ le32 sip @ tm @ le32 tip @ r) k" for k
    using assms(1) by (auto simp: b load_def nth_append)
  show "rd_be16 (drop p b) = Some ARP_ETHER" using d [of 0] by simp
  show "rd_be16 (drop (p + 2) b) = Some PROT_IP" unfolding d by simp
  show "load b (p + 4) = Some (CHR 0x06)" "load b (p + 5) = Some (CHR 0x04)"
    unfolding n by (simp_all add: load_def nth_append)
  show "rd_be16 (drop (p + 6) b) = Some opr" unfolding d by (simp add: drop_Cons')
  show "rd_le32 (drop (p + 14) b) = Some sip" unfolding d by (simp add: drop_Cons' assms)
  show "rd_le32 (drop (p + 24) b) = Some tip" unfolding d by (simp add: drop_Cons' assms)
  have l: "length b = p + 28 + length r" using assms by (simp add: b)
  have g: "get_bytes b (p + k) 6 = Some (take 6 (drop (p + k) b))" if "k + 6 \<le> 28" for k
    using that l by (simp add: get_bytes_def)
  show "get_bytes b (p + 8) 6 = Some sm" using g [of 8] d [of 8] assms(2) by (simp add: drop_Cons')
  show "get_bytes b (p + 18) 6 = Some tm" using g [of 18] d [of 18] assms(2,3) by (simp add: drop_Cons')
qed

lemma receive_arp:
  assumes "length d = 6" "length s = 6" "length sm = 6" "length tm = 6" "NetOurIP st \<noteq> 0" "NetOurVLAN st = v"
    "pkt = eth_header v d s PROT_ARP @ arp_packet opr (sm @ le32 sip @ tm @ le32 (NetOurIP st)) @ r"
    "opr = ARPOP_REQUEST \<or> opr = ARPOP_REPLY \<and> NetArpWaitPacketIP st \<noteq> 0 \<and> NetArpWaitPacketMAC st = Some ptr"
  shows "NetReceive rx pkt (int (NetEthHdrSize st + 28)) st =
    (if opr = ARPOP_REQUEST then arp_answer pkt (NetEthHdrSize st) (st\<lparr>NetRxPkt := pkt\<rparr>)
     else if sip = NetArpWaitReplyIP st then arp_release ptr pkt (NetEthHdrSize st) (st\<lparr>NetRxPkt := pkt\<rparr>)
     else Some (st\<lparr>NetRxPkt := pkt\<rparr>))"
proof -
  define st1 where "st1 = st\<lparr>NetRxPkt := pkt\<rparr>"
  let ?h = "if tagged v then 18 else 14 :: nat"
  let ?a = "arp_packet opr (sm @ le32 sip @ tm @ le32 (NetOurIP st))"
  have h: "NetEthHdrSize st = ?h" using assms(6) by (simp add: NetEthHdrSize_eq)
  have la: "length ?a = 28" using assms by simp
  have n: "length ?a + ?h = NetEthHdrSize st + 28" unfolding la h by simp
  have p: "\<not> PROT_ARP < 1514" "PROT_ARP \<noteq> PROT_VLAN" by (simp_all add: PROT_ARP_def PROT_VLAN_def)
  obtain vl where l: "link_header pkt (int (NetEthHdrSize st + 28)) st1 = Some (Some (PROT_ARP, ?h, int (length ?a), vl))"
    "vlan_match vl st1"
    using link_header_own [OF assms(1,2) n p, of st1 r] assms(6,7) by (auto simp: st1_def)
  have lh: "length (eth_header v d s PROT_ARP) = ?h" by (rule length_eth_header [OF assms(1,2)])
  note f = arp_fields [OF lh assms(3,4,7)]
  have st1: "NetOurIP st1 = NetOurIP st" "NetArpWaitPacketIP st1 = NetArpWaitPacketIP st"
    "NetArpWaitPacketMAC st1 = NetArpWaitPacketMAC st" "NetArpWaitReplyIP st1 = NetArpWaitReplyIP st"
    by (simp_all add: st1_def)
  have "arp_input rx pkt ?h (int (length ?a)) st1 =
      (if opr = ARPOP_REQUEST then arp_answer pkt ?h st1
       else if sip = NetArpWaitReplyIP st then arp_release ptr pkt ?h st1 else Some st1)"
    unfolding arp_input_def f bind.bind_lunit la st1
    using assms(5,8) by (auto simp: ARP_HDR_SIZE_def ARPOP_REQUEST_def ARPOP_REPLY_def)
  moreover have "NetReceive rx pkt (int (NetEthHdrSize st + 28)) st = arp_input rx pkt ?h (int (length ?a)) st1"
    using l by (simp add: NetReceive_def Let_def ETHER_HDR_SIZE_def NetEthHdrSize_eq st1_def [symmetric])
  ultimately show ?thesis unfolding h st1_def by simp
qed

lemma arp_release_eq:
  assumes "get_bytes pkt (p + 8) 6 = Some m" "length m = 6" "length (NetArpWaitTxPacket st) = PKTSIZE_ALIGN"
    "NetArpWaitTxPacketSize st \<le> PKTSIZE_ALIGN" "6 \<le> NetArpWaitTxPacketSize st" "eth_current st \<noteq> None"
  shows "arp_release MAC_Server pkt p st =
    Some (st\<lparr>NetServerEther := m, NetArpWaitTxPacket := m @ drop 6 (NetArpWaitTxPacket st),
      eth_out := eth_out st @ [m @ drop 6 (take (NetArpWaitTxPacketSize st) (NetArpWaitTxPacket st))],
      NetArpWaitPacketIP := 0, NetArpWaitTxPacketSize := 0, NetArpWaitPacketMAC := None\<rparr>)"
proof -
  define w where "w = m @ drop 6 (NetArpWaitTxPacket st)"
  have "put (NetArpWaitTxPacket st) 0 m = Some w"
    using assms(2,3) by (simp add: put_eq PKTSIZE_ALIGN_def w_def)
  moreover have "take (NetArpWaitTxPacketSize st) w = m @ drop 6 (take (NetArpWaitTxPacketSize st) (NetArpWaitTxPacket st))"
    using assms(2,5) by (simp add: drop_take w_def)
  moreover have "NetArpWaitTxPacketSize st \<le> length w" using assms(2,3,4) by (simp add: PKTSIZE_ALIGN_def w_def)
  moreover obtain i where "eth_current st = Some i" using assms(6) by auto
  ultimately show ?thesis
    using assms(1) unfolding w_def [symmetric] by (simp add: arp_release_def eth_send_def)
qed

lemma put_over: "length a = p \<Longrightarrow> length x = length y \<Longrightarrow> put (a @ x @ c) p y = Some (a @ y @ c)"
  by (subst put_eq) simp_all

lemma arp_answer_eq:
  assumes "length d = 6" "length s = 6" "length sm = 6" "length tm = 6" "length (NetOurEther st) = 6"
    "NetOurVLAN st = v" "eth_current st \<noteq> None"
    "pkt = eth_header v d s PROT_ARP @ arp_packet opr (sm @ le32 sip @ tm @ le32 tip) @ r"
  shows "arp_answer pkt (NetEthHdrSize st) st =
    Some (st\<lparr>eth_out := eth_out st @ [eth_header v s (NetOurEther st) PROT_ARP @
      arp_packet ARPOP_REPLY (NetOurEther st @ le32 (NetOurIP st) @ sm @ le32 sip)]\<rparr>)"
proof -
  let ?h = "eth_header v d s PROT_ARP" and ?h' = "eth_header v s (NetOurEther st) PROT_ARP"
  define p where "p = NetEthHdrSize st"
  have lh: "length ?h = p" "length ?h' = p"
    using assms(1,2,5,6) by (simp_all add: length_eth_header p_def NetEthHdrSize_eq)
  have "?h = (d @ s) @ drop 12 ?h" using assms(1,2) by (simp add: eth_header_def)
  then have "take 6 (drop 6 pkt) = s" unfolding assms(8) using assms(1,2) by (metis append_assoc append_eq_conv_conj length_append drop_append append_take_drop_id)
  then have src: "get_bytes pkt 6 6 = Some s"
    using lh by (simp add: get_bytes_def assms(8) p_def NetEthHdrSize_eq)
  let ?f = "be16 ARP_ETHER @ be16 PROT_IP @ [CHR 0x06, CHR 0x04]"
  let ?our = "NetOurEther st" and ?ip = "le32 (NetOurIP st)"
  have set: "NetSetEther pkt s PROT_ARP st =
      Some (?h' @ ?f @ be16 opr @ sm @ le32 sip @ tm @ le32 tip @ r, p)"
    using put_over [of "[]" 0 ?h ?h' "?f @ be16 opr @ sm @ le32 sip @ tm @ le32 tip @ r"] lh assms(6)
    by (simp add: NetSetEther_def Let_def assms(8) arp_packet_def)
  define q where "q = ?h' @ ?f"
  have q: "length q = p + 6" using lh by (simp add: q_def)
  have 1: "put (q @ be16 opr @ sm @ le32 sip @ tm @ le32 tip @ r) (p + 6) (be16 ARPOP_REPLY) =
      Some (q @ be16 ARPOP_REPLY @ sm @ le32 sip @ tm @ le32 tip @ r)"
    by (rule put_over) (simp_all add: q)
  let ?q1 = "q @ be16 ARPOP_REPLY"
  have 2: "get_bytes (q @ be16 ARPOP_REPLY @ sm @ le32 sip @ tm @ le32 tip @ r) (p + 8) 6 = Some sm"
    using get_bytes_append [of sm 6 ?q1 "p + 8" "le32 sip @ tm @ le32 tip @ r"] assms(3) q by simp
  have 3: "put (q @ be16 ARPOP_REPLY @ sm @ le32 sip @ tm @ le32 tip @ r) (p + 18) sm =
      Some (q @ be16 ARPOP_REPLY @ sm @ le32 sip @ sm @ le32 tip @ r)"
    using put_over [of "?q1 @ sm @ le32 sip" "p + 18" tm sm "le32 tip @ r"] assms(3,4) q by simp
  have 4: "get_bytes (q @ be16 ARPOP_REPLY @ sm @ le32 sip @ sm @ le32 tip @ r) (p + 14) 4 = Some (le32 sip)"
    using get_bytes_append [of "le32 sip" 4 "?q1 @ sm" "p + 14" "sm @ le32 tip @ r"] assms(3) q by simp
  have 5: "put (q @ be16 ARPOP_REPLY @ sm @ le32 sip @ sm @ le32 tip @ r) (p + 24) (le32 sip) =
      Some (q @ be16 ARPOP_REPLY @ sm @ le32 sip @ sm @ le32 sip @ r)"
    using put_over [of "?q1 @ sm @ le32 sip @ sm" "p + 24" "le32 tip" "le32 sip" r] assms(3) q by simp
  have 6: "put (q @ be16 ARPOP_REPLY @ sm @ le32 sip @ sm @ le32 sip @ r) (p + 8) ?our =
      Some (q @ be16 ARPOP_REPLY @ ?our @ le32 sip @ sm @ le32 sip @ r)"
    using put_over [of ?q1 "p + 8" sm ?our "le32 sip @ sm @ le32 sip @ r"] assms(3,5) q by simp
  have 7: "put (q @ be16 ARPOP_REPLY @ ?our @ le32 sip @ sm @ le32 sip @ r) (p + 14) ?ip =
      Some (q @ be16 ARPOP_REPLY @ ?our @ ?ip @ sm @ le32 sip @ r)"
    using put_over [of "?q1 @ ?our" "p + 14" "le32 sip" ?ip "sm @ le32 sip @ r"] assms(5) q by simp
  have 8: "eth_send (q @ be16 ARPOP_REPLY @ ?our @ ?ip @ sm @ le32 sip @ r) (p + ARP_HDR_SIZE) st =
      Some (st\<lparr>eth_out := eth_out st @ [?h' @ arp_packet ARPOP_REPLY (?our @ ?ip @ sm @ le32 sip)]\<rparr>)"
    using assms(3,5,7) q lh
    by (subst eth_send_ok) (simp_all add: ARP_HDR_SIZE_def arp_packet_def q_def)
  have set': "NetSetEther pkt s PROT_ARP st = Some (q @ be16 opr @ sm @ le32 sip @ tm @ le32 tip @ r, p)"
    using set by (simp add: q_def)
  show ?thesis
    unfolding arp_answer_def src set' bind.bind_lunit prod.case p_def [symmetric] 1 2 3 4 5 6 7 8 ..
qed

section \<open>Two machines\<close>

text \<open>The buffers and addresses have their sizes, and there is a current device.\<close>

definition net_ok :: "'a net_scheme \<Rightarrow> bool" where
  "net_ok st \<longleftrightarrow> \<not> devinit st \<and> length (NetOurEther st) = 6 \<and> length (NetServerEther st) = 6 \<and>
     length (NetTxPacket st) = PKTSIZE_ALIGN \<and> length (NetArpWaitTxPacket st) = PKTSIZE_ALIGN \<and>
     eth_current st \<noteq> None"

text \<open>The exchange that resolves an address and delivers the packet that waited for it.\<close>

lemma udp_resolved:
  assumes a: "net_ok a" "NetServerEther a = NetEtherNullAddr" "NetOurIP a \<noteq> 0"
    and b: "net_ok b" "NetOurIP b = dest" "packetHandler b = Some f" "NetOurVLAN b = NetOurVLAN a"
    and dest: "dest \<noteq> 0" "dest \<noteq> 0xFFFFFFFF" "dest AND NetOurSubnetMask a = NetOurIP a AND NetOurSubnetMask a"
    and data: "length payload + 47 \<le> PKTSIZE_ALIGN" "dport < 65536" "sport < 65536"
      "get_bytes (NetTxPacket a) (NetEthHdrSize a + 28) (length payload) = Some payload"
  shows "\<exists>a1 b1 a2 request reply frame.
    NetSendUDPPacket MAC_Server dest dport sport (length payload) a = Some (1, a1) \<and>
    eth_out a1 = eth_out a @ [request] \<and>
    NetReceive rx (request @ pad) (int (length request)) b = Some b1 \<and> eth_out b1 = eth_out b @ [reply] \<and>
    NetReceive rx (reply @ pad) (int (length reply)) a1 = Some a2 \<and> eth_out a2 = eth_out a1 @ [frame] \<and>
    NetServerEther a2 = NetOurEther b \<and> NetArpWaitPacketIP a2 = 0 \<and>
    NetReceive rx (frame @ pad) (int (length frame)) b1 =
      rx f (Some (payload @ pad)) (of_nat dport) (of_nat sport) (of_nat (length payload))
        (b1\<lparr>NetRxPkt := frame @ pad\<rparr>)"
proof -
  define v where "v = NetOurVLAN a"
  define h where "h = NetEthHdrSize a"
  have hb: "NetEthHdrSize b = h" using b(4) by (simp add: h_def NetEthHdrSize_eq)
  have sizes: "length (NetOurEther a) = 6" "length (NetOurEther b) = 6" "length NetBcastAddr = 6"
    "length NetEtherNullAddr = 6" "length (replicate 6 NUL) = 6"
    using a(1) b(1) by (simp_all add: net_ok_def NetBcastAddr_def NetEtherNullAddr_def)
  have h18: "h = (if tagged v then 18 else 14)" by (simp add: h_def v_def NetEthHdrSize_eq)
  have m: "mac_of MAC_Server a = NetEtherNullAddr" using a(2) by simp
  let ?w = "a\<lparr>NetArpWaitPacketIP := dest\<rparr>"
  let ?ident = "ucast (NetIPID a) :: u16"
  let ?udp = "udp_packet ?ident (NetOurIP a) dest dport sport payload"
  let ?n = "h + 28 + length payload"
  have ok: "\<not> devinit a" "length (NetTxPacket a) = PKTSIZE_ALIGN" "length (NetArpWaitTxPacket a) = PKTSIZE_ALIGN"
    "eth_current a \<noteq> None" using a(1) by (simp_all add: net_ok_def)
  obtain t tx w out a1 where
    s1: "NetSendUDPPacket MAC_Server dest dport sport (length payload) a = Some (1, a1)"
    and a1: "a1 = sent out (a\<lparr>timestamp := t, lastdec := 0, NetIPID := NetIPID a + 1, NetTxPacket := tx,
      NetArpWaitTxPacket := w, NetArpWaitTxPacketSize := ?n, NetArpWaitPacketIP := dest,
      NetArpWaitPacketMAC := Some MAC_Server, NetArpWaitTry := 1, NetArpWaitTimerStart := t,
      NetArpWaitReplyIP := next_hop ?w, eth_out := eth_out a @ [arp_request_frame ?w]\<rparr>)"
    and w: "length w = PKTSIZE_ALIGN" "take ?n w = eth_header v NetEtherNullAddr (NetOurEther a) PROT_IP @ ?udp"
    using send_udp_unknown [OF ok(1) m dest(1,2) sizes(1) ok(2,3) data(1,4) ok(4), of dport sport]
    unfolding h_def v_def by blast
  have hop: "next_hop ?w = dest" using dest(3) by (simp add: next_hop_def)
  let ?req = "arp_request_frame ?w"
  have req: "?req = eth_header v NetBcastAddr (NetOurEther a) PROT_ARP @
      arp_packet ARPOP_REQUEST (NetOurEther a @ le32 (NetOurIP a) @ replicate 6 NUL @ le32 (NetOurIP b))"
    by (simp add: arp_request_frame_def hop b(2) v_def next_hop_def [of ?w, symmetric] del: replicate.simps)
  have lreq: "int (length ?req) = int (NetEthHdrSize b + 28)"
    using sizes by (simp add: req length_eth_header hb h18)
  define rq where "rq = ?req @ pad"
  have rq: "rq = eth_header v NetBcastAddr (NetOurEther a) PROT_ARP @
      arp_packet ARPOP_REQUEST (NetOurEther a @ le32 (NetOurIP a) @ replicate 6 NUL @ le32 (NetOurIP b)) @ pad"
    by (simp add: rq_def req)
  define b' where "b' = b\<lparr>NetRxPkt := rq\<rparr>"
  have b': "NetOurEther b' = NetOurEther b" "NetOurVLAN b' = v" "eth_current b' \<noteq> None"
    "NetEthHdrSize b' = NetEthHdrSize b" "NetOurIP b' = NetOurIP b" "eth_out b' = eth_out b"
    using b by (auto simp: b'_def v_def net_ok_def NetEthHdrSize_eq)
  let ?rep = "eth_header v (NetOurEther a) (NetOurEther b) PROT_ARP @
      arp_packet ARPOP_REPLY (NetOurEther b @ le32 (NetOurIP b) @ NetOurEther a @ le32 (NetOurIP a))"
  define b1 where "b1 = b'\<lparr>eth_out := eth_out b @ [?rep]\<rparr>"
  have ipb: "NetOurIP b \<noteq> 0" using dest(1) b(2) by simp
  have vb: "NetOurVLAN b = v" using b(4) by (simp add: v_def)
  have r1: "NetReceive rx rq (int (length ?req)) b = Some b1"
    using receive_arp [OF sizes(3,1,1,5) ipb vb rq, of undefined rx]
      arp_answer_eq [OF sizes(3,1,1,5) _ b'(2,3) rq] sizes(2) b'
    unfolding lreq by (simp add: b'_def [symmetric] b1_def)
  have lrep: "length ?rep = h + 28" using sizes by (simp add: length_eth_header h18)
  define rp where "rp = ?rep @ pad"
  define a' where "a' = a1\<lparr>NetRxPkt := rp\<rparr>"
  have f1: "NetOurIP a1 = NetOurIP a" "NetOurVLAN a1 = v" "NetEthHdrSize a1 = h" "NetArpWaitPacketIP a1 \<noteq> 0"
    "NetArpWaitPacketMAC a1 = Some MAC_Server" "NetArpWaitReplyIP a1 = NetOurIP b" "eth_out a1 = eth_out a @ [?req]"
    using dest(1) by (simp_all add: a1 sent_def v_def h_def NetEthHdrSize_eq hop b(2))
  have f': "NetArpWaitTxPacket a' = w" "NetArpWaitTxPacketSize a' = ?n" "eth_current a' \<noteq> None" "eth_out a' = eth_out a1"
    using ok(4) by (auto simp: a'_def a1 sent_def)
  let ?frame = "NetOurEther b @ drop 6 (take ?n w)"
  define a2 where "a2 = a'\<lparr>NetServerEther := NetOurEther b, NetArpWaitTxPacket := NetOurEther b @ drop 6 w,
      eth_out := eth_out a1 @ [?frame], NetArpWaitPacketIP := 0, NetArpWaitTxPacketSize := 0, NetArpWaitPacketMAC := None\<rparr>"
  have reppad: "rp = eth_header v (NetOurEther a) (NetOurEther b) PROT_ARP @
      arp_packet ARPOP_REPLY (NetOurEther b @ le32 (NetOurIP b) @ NetOurEther a @ le32 (NetOurIP a1)) @ pad"
    by (simp add: f1 rp_def)
  have mac: "get_bytes rp (h + 8) 6 = Some (NetOurEther b)"
    by (rule arp_fields(6) [OF _ sizes(2,1) reppad]) (simp add: length_eth_header sizes h18)
  have "?n \<le> PKTSIZE_ALIGN" using data(1) h18 by (simp add: PKTSIZE_ALIGN_def split: if_splits)
  then have rel: "arp_release MAC_Server rp h a' = Some a2"
    using arp_release_eq [OF mac sizes(2), of a'] w(1) f' unfolding a2_def by simp
  have r2: "NetReceive rx rp (int (length ?rep)) a1 = Some a2"
    using receive_arp [OF sizes(1,2,2,1) _ f1(2) reppad, of MAC_Server rx] f1 a(3) rel unfolding lrep
    by (simp add: a'_def [symmetric] ARPOP_REPLY_def ARPOP_REQUEST_def)
  have frame: "?frame = eth_header v (NetOurEther b) (NetOurEther a) PROT_IP @ ?udp"
    using sizes unfolding w(2) by (simp add: eth_header_def)
  have r3: "NetReceive rx (?frame @ pad) (int (length ?frame)) b1 =
      rx f (Some (payload @ pad)) (of_nat dport) (of_nat sport) (of_nat (length payload)) (b1\<lparr>NetRxPkt := ?frame @ pad\<rparr>)"
    by (rule receive_udp [OF data(2,3) _ sizes(2,1)])
      (use data(1) b(2,3) sizes b' in \<open>simp_all add: frame PKTSIZE_ALIGN_def b1_def b'_def length_eth_header\<close>)
  show ?thesis
    using s1 f1(7) r1 [unfolded rq_def] r2 [unfolded rp_def] r3
    by (intro exI [of _ a1] exI [of _ b1] exI [of _ a2] exI [of _ ?req] exI [of _ ?rep] exI [of _ ?frame])
      (simp add: b1_def a2_def)
qed

section \<open>Properties\<close>

text \<open>Two machines with the addresses 10.0.0.1 and 10.0.0.2.\<close>

definition sample_net :: "buf \<Rightarrow> u32 \<Rightarrow> buf \<Rightarrow> net" where
  "sample_net ether ip tx = machine.extend (ex_machine\<lparr>eth_devices := [\<lparr>eth_name = cstr ''mac'', enetaddr = ether, eth_state = 2\<rparr>],
       eth_current := Some 0\<rparr>)
     \<lparr>dev_ready = (\<lambda>_. True), eth_out = [], eth_in = [], first_failed = None, NetOurIP = ip, NetServerIP = 0x0200000a,
      NetOurGatewayIP = 0, NetOurSubnetMask = 0x00ffffff, NetOurEther = ether, NetServerEther = replicate 6 NUL,
      NetIPID = 7, NetOurVLAN = 0xffff, NetOurNativeVLAN = 0xffff, NetTxPacket = tx, NetRxPkt = [],
      NetArpWaitPacketIP = 0, NetArpWaitReplyIP = 0, NetArpWaitPacketMAC = None,
      NetArpWaitTxPacket = replicate 1536 NUL, NetArpWaitTxPacketSize = 0, NetArpWaitTimerStart = 0,
      NetArpWaitTry = 0, packetHandler = Some TftpHandler, timeHandler = None, timeStart = 0, timeDelta = 0,
      NetState = 1, NetRestarted = False, NetDevExists = True, NetBootFileXferSize = 0, NetBootFileSize = 0,
      NetPingIP = 0, ping_mac = [], PingSeqNo = 0\<rparr>"

lemma sample_net_simps [simp]:
  "NetOurIP (sample_net e ip tx) = ip" "NetOurEther (sample_net e ip tx) = e" "NetTxPacket (sample_net e ip tx) = tx"
  "NetServerEther (sample_net e ip tx) = NetEtherNullAddr" "NetOurVLAN (sample_net e ip tx) = 0xffff"
  "NetOurSubnetMask (sample_net e ip tx) = 0x00ffffff" "packetHandler (sample_net e ip tx) = Some TftpHandler"
  by (simp_all add: sample_net_def machine.defs NetEtherNullAddr_def)

lemma sample_net_ok: "length e = 6 \<Longrightarrow> length tx = 1536 \<Longrightarrow> net_ok (sample_net e ip tx)"
  by (simp add: net_ok_def sample_net_def machine.defs PKTSIZE_ALIGN_def devinit_def ex_machine_def board.defs sample_board_def)

lemma sample_net_header: "NetEthHdrSize (sample_net e ip tx) = 14"
proof -
  have "htons 0xffff = 0xffff" by code_simp
  then show ?thesis
    by (simp add: NetEthHdrSize_def own_vlan_def VLAN_NONE_def VLAN_IDMASK_def ETHER_HDR_SIZE_def)
qed

text \<open>C21: End to end: a UDP packet of any size that fits the buffers is sent to a machine whose hardware
  address is not known yet.  The sender broadcasts an ARP request, the other machine answers it, the
  answer makes the sender remember the address and release the waiting packet, and that frame makes
  the receiver call its handler with exactly the payload, the ports and the length; every IP checksum
  is accepted, with or without VLAN tags and whatever garbage follows the frames in the buffers.\<close>

theorem udp_end_to_end:
  assumes "net_ok a" "NetServerEther a = NetEtherNullAddr" "NetOurIP a \<noteq> 0"
    and "net_ok b" "NetOurIP b = dest" "packetHandler b = Some f" "NetOurVLAN b = NetOurVLAN a"
    and "dest \<noteq> 0" "dest \<noteq> 0xFFFFFFFF" "dest AND NetOurSubnetMask a = NetOurIP a AND NetOurSubnetMask a"
    and "length payload + 47 \<le> PKTSIZE_ALIGN" "dport < 65536" "sport < 65536"
      "get_bytes (NetTxPacket a) (NetEthHdrSize a + 28) (length payload) = Some payload"
  shows "\<exists>a1 b1 a2 request reply frame.
    NetSendUDPPacket MAC_Server dest dport sport (length payload) a = Some (1, a1) \<and>
    eth_out a1 = eth_out a @ [request] \<and>
    NetReceive rx (request @ pad) (int (length request)) b = Some b1 \<and> eth_out b1 = eth_out b @ [reply] \<and>
    NetReceive rx (reply @ pad) (int (length reply)) a1 = Some a2 \<and> eth_out a2 = eth_out a1 @ [frame] \<and>
    NetServerEther a2 = NetOurEther b \<and> NetArpWaitPacketIP a2 = 0 \<and>
    NetReceive rx (frame @ pad) (int (length frame)) b1 =
      rx f (Some (payload @ pad)) (of_nat dport) (of_nat sport) (of_nat (length payload))
        (b1\<lparr>NetRxPkt := frame @ pad\<rparr>)"
  by (rule udp_resolved [OF assms])

theorem udp_end_to_end_witness:
  "\<exists>a1 b1 a2 request reply frame.
    NetSendUDPPacket MAC_Server 0x0200000a 69 1024 (length ''hello'')
      (sample_net ''abcdef'' 0x0100000a (replicate 42 NUL @ ''hello'' @ replicate 1489 NUL)) = Some (1, a1) \<and>
    eth_out a1 = eth_out (sample_net ''abcdef'' 0x0100000a (replicate 42 NUL @ ''hello'' @ replicate 1489 NUL)) @ [request] \<and>
    NetReceive (\<lambda>_ _ _ _ _ st. Some st) (request @ [NUL]) (int (length request))
      (sample_net ''ghijkl'' 0x0200000a (replicate 1536 NUL)) = Some b1 \<and>
    eth_out b1 = eth_out (sample_net ''ghijkl'' 0x0200000a (replicate 1536 NUL)) @ [reply] \<and>
    NetReceive (\<lambda>_ _ _ _ _ st. Some st) (reply @ [NUL]) (int (length reply)) a1 = Some a2 \<and>
    eth_out a2 = eth_out a1 @ [frame] \<and>
    NetServerEther a2 = NetOurEther (sample_net ''ghijkl'' 0x0200000a (replicate 1536 NUL)) \<and> NetArpWaitPacketIP a2 = 0 \<and>
    NetReceive (\<lambda>_ _ _ _ _ st. Some st) (frame @ [NUL]) (int (length frame)) b1 =
      (\<lambda>_ _ _ _ _ st. Some st) TftpHandler (Some (''hello'' @ [NUL])) (of_nat 69) (of_nat 1024) (of_nat (length ''hello''))
        (b1\<lparr>NetRxPkt := frame @ [NUL]\<rparr>)"
  by (rule udp_end_to_end)
    (simp_all add: sample_net_ok sample_net_header PKTSIZE_ALIGN_def get_bytes_def)

end
