(* ===== verification/Tftp_Props.thy ===== *)
theory Tftp_Props
  imports Net_Props Load_Props
begin

text \<open>
  A TFTP transfer: whatever blocks the server repeats, the file arrives in memory as it is, through
  any number of wrap-arounds of the 16-bit block number.
\<close>

section \<open>Sending and printing\<close>

lemma TftpSend_ok:
  assumes "net_ok st" "mac_ok (NetServerEther st)" "tftp_payload st = Some payload" "length payload \<le> 1400"
  shows "\<exists>b. TftpSend st = Some (st\<lparr>NetTxPacket := b, NetIPID := NetIPID st + 1,
      eth_out := eth_out st @
        [eth_header (NetOurVLAN st) (mac_of (udp_mac MAC_Server (NetServerIP st)) st) (NetOurEther st) PROT_IP @
         udp_packet (ucast (NetIPID st)) (NetOurIP st) (udp_dest (NetServerIP st)) (unat (TftpServerPort st))
           (unat (TftpOurPort st)) payload]\<rparr>) \<and> length b = PKTSIZE_ALIGN"
proof -
  define p where "p = NetEthHdrSize st + 28"
  have p: "p + length payload \<le> 1536" "p \<le> 46" using assms(4) by (simp_all add: p_def NetEthHdrSize_eq)
  have ok: "length (NetTxPacket st) = 1536" "length (NetOurEther st) = 6" "eth_current st \<noteq> None"
    using assms(1) by (simp_all add: net_ok_def PKTSIZE_ALIGN_def)
  define b where "b = take p (NetTxPacket st) @ payload @ drop (p + length payload) (NetTxPacket st)"
  have put: "put (NetTxPacket st) p payload = Some b" using p ok by (simp add: put_eq b_def)
  let ?st = "st\<lparr>NetTxPacket := b\<rparr>"
  have hdr: "NetEthHdrSize ?st + 28 = p" by (simp add: p_def NetEthHdrSize_eq)
  have m: "mac_of (udp_mac MAC_Server (NetServerIP st)) ?st = mac_of (udp_mac MAC_Server (NetServerIP st)) st"
    by (simp add: udp_mac_def)
  have mac: "mac_ok (mac_of (udp_mac MAC_Server (NetServerIP st)) ?st)"
    using assms(2) mac_ok_bcast by (simp add: udp_mac_def)
  have get: "get_bytes (NetTxPacket ?st) (NetEthHdrSize ?st + 28) (length payload) = Some payload"
    unfolding hdr using get_bytes_append [of payload "length payload" "take p (NetTxPacket st)" p] p ok
    by (simp add: b_def)
  have len: "length (NetTxPacket ?st) = PKTSIZE_ALIGN" using p ok by (simp add: b_def PKTSIZE_ALIGN_def)
  have small: "length payload + 47 \<le> PKTSIZE_ALIGN" using assms(4) by (simp add: PKTSIZE_ALIGN_def)
  obtain b' where "NetSendUDPPacket MAC_Server (NetServerIP st) (unat (TftpServerPort st)) (unat (TftpOurPort st))
      (length payload) ?st = Some (0, ?st\<lparr>NetTxPacket := b', NetIPID := NetIPID ?st + 1,
      eth_out := eth_out ?st @
        [eth_header (NetOurVLAN ?st) (mac_of (udp_mac MAC_Server (NetServerIP st)) ?st) (NetOurEther ?st) PROT_IP @
         udp_packet (ucast (NetIPID ?st)) (NetOurIP ?st) (udp_dest (NetServerIP st)) (unat (TftpServerPort st))
           (unat (TftpOurPort st)) payload]\<rparr>)" "length b' = PKTSIZE_ALIGN"
    using send_udp_known [OF mac _ len small get] ok by fastforce
  then show ?thesis
    using put by (intro exI [of _ b']) (simp add: TftpSend_def assms(3) p_def [symmetric] IP_HDR_SIZE_def m)
qed

lemma directive_lu: "directive (CHR ''l'' # CHR ''u'' # fmt) n (VWord w # args) = Some (udec (unat w), None, fmt, args)"
  by (simp add: directive_def no_flags_def [symmetric] parse_width_def is_digit_def ichar_eq_int
      parse_precision_def parse_qualifier_def convert_def int_base_def int_arg_def number_unsigned udec_def)

lemma say_wrap:
  assumes "\<not> devinit st"
  shows "\<exists>out. printf ([CHR 0x0A, TAB] @ '' %lu MB reveived'' @ [CHR 0x0A, TAB] @ '' '') [VWord w] st = Some (sent out st)"
proof -
  define g where "g = cstr ('' MB reveived'' @ [CHR 0x0A, TAB] @ '' '')"
  let ?out = "[CHR 0x0A, TAB] @ '' '' @ udec (unat w) @ '' MB reveived'' @ [CHR 0x0A, TAB] @ '' ''"
  have f: "cstr ([CHR 0x0A, TAB] @ '' %lu MB reveived'' @ [CHR 0x0A, TAB] @ '' '') =
      [CHR 0x0A, TAB] @ '' '' @ CHR ''%'' # CHR ''l'' # CHR ''u'' # g" by (simp add: cstr_def g_def)
  have e: "vsprintf_loop g [] o1 [] = Some (o1 @ '' MB reveived'' @ [CHR 0x0A, TAB] @ '' '', [])" for o1
    by (simp add: g_def cstr_def)
  have l: "vsprintf_loop (cstr ([CHR 0x0A, TAB] @ '' %lu MB reveived'' @ [CHR 0x0A, TAB] @ '' '')) [VWord w] [] [] =
      Some (?out, [])"
    unfolding f by (simp add: directive_lu e)
  have "unat w < 10 ^ 10" using unat_u32_less [of w] by simp
  then have "length (udec (unat w)) \<le> 10" by (intro udec_length) auto
  then have "printf ([CHR 0x0A, TAB] @ '' %lu MB reveived'' @ [CHR 0x0A, TAB] @ '' '') [VWord w] st =
      Some (st\<lparr>serial_tx := serial_tx st @ on_wire ?out\<rparr>)"
    by (intro printf_serial [OF assms l]) (simp_all add: udec_nonul CFG_PBSIZE_def)
  then show ?thesis by (auto simp: sent_def)
qed

lemma progress_block: "\<lbrakk>\<not> devinit st; TftpBlock st \<noteq> 0\<rbrakk> \<Longrightarrow> \<exists>out. tftp_progress st = Some (sent out st)"
  using putc_sent [of st "CHR ''#''"] puts_sent [of st "[CHR 0x0A, TAB] @ '' ''"] sent_Nil [of st]
  unfolding tftp_progress_def by (auto intro: exI [of _ "[]"])

lemma progress_wrap: "\<lbrakk>\<not> devinit st; TftpBlock st = 0\<rbrakk> \<Longrightarrow> \<exists>out. tftp_progress st = Some (sent out
    (st\<lparr>TftpBlockWrap := TftpBlockWrap st + 1, TftpBlockWrapOffset := TftpBlockWrapOffset st + 33554432\<rparr>))"
  using say_wrap [of "st\<lparr>TftpBlockWrap := TftpBlockWrap st + 1, TftpBlockWrapOffset := TftpBlockWrapOffset st + 33554432\<rparr>"]
  by (auto simp: tftp_progress_def Let_def TFTP_BLOCK_SIZE_def TFTP_SEQUENCE_SIZE_def devinit_def)

section \<open>Blocks\<close>

definition block_data :: "buf \<Rightarrow> nat \<Rightarrow> buf" where
  "block_data file k = take 512 (drop (512 * k) file)"

text \<open>The packet with block number \<open>k + 1\<close> of the file, in a receive buffer.\<close>

definition data_packet :: "buf \<Rightarrow> nat \<Rightarrow> buf \<Rightarrow> buf" where
  "data_packet file k r = be16 TFTP_DATA @ be16 (of_nat (k + 1)) @ block_data file k @ r"

definition deliver ::
  "(u32 \<Rightarrow> int) \<Rightarrow> u32 \<Rightarrow> u32 \<Rightarrow> buf \<Rightarrow> buf \<Rightarrow> nat \<Rightarrow> 'a tftp_scheme \<Rightarrow> 'a tftp_scheme option" where
  "deliver start port src file r k st =
     tftp_handler start (Some (data_packet file k r)) port src (of_nat (4 + length (block_data file k))) st"

text \<open>
  What a delivery leaves alone: the board except for the output and the time stamp, the handler, the
  packets to come, the addresses; and no timeout becomes due.
\<close>

definition quiet :: "'a net_scheme \<Rightarrow> bool" where
  "quiet st \<longleftrightarrow> timeHandler st = None \<or> timestamp st + lastdec st - timeStart st \<le> timeDelta st"

definition keeps :: "'a net_scheme \<Rightarrow> 'a net_scheme \<Rightarrow> bool" where
  "keeps st st' \<longleftrightarrow>
     board.truncate st' = (board.truncate st)\<lparr>timestamp := timestamp st', lastdec := lastdec st', serial_tx := serial_tx st'\<rparr> \<and>
     packetHandler st' = packetHandler st \<and> eth_in st' = eth_in st \<and> NetOurIP st' = NetOurIP st \<and>
     NetOurVLAN st' = NetOurVLAN st \<and> NetArpWaitPacketIP st' = NetArpWaitPacketIP st \<and> (quiet st \<longrightarrow> quiet st')"

lemma keeps_trans: "keeps st st' \<Longrightarrow> keeps st' st'' \<Longrightarrow> keeps st st''"
  by (simp add: keeps_def board.truncate_def)

lemma keeps_refl: "keeps st st"
  by (simp add: keeps_def board.truncate_def)

text \<open>The state after \<open>k\<close> blocks of \<open>file\<close>.\<close>

definition downloading :: "u32 \<Rightarrow> u32 \<Rightarrow> buf \<Rightarrow> (u32 \<Rightarrow> char) \<Rightarrow> u32 \<Rightarrow> nat \<Rightarrow> 'a tftp_scheme \<Rightarrow> bool" where
  "downloading port src file m addr k st \<longleftrightarrow>
     net_ok st \<and> mac_ok (NetServerEther st) \<and> TftpOurPort st = port \<and> load_addr st = addr \<and>
     mem st = overlay m addr (take (512 * k) file) \<and>
     NetBootFileXferSize st = of_nat (min (512 * k) (length file)) \<and>
     (if k = 0 then TftpState st = STATE_RRQ
      else TftpState st = STATE_DATA \<and> TftpServerPort st = src \<and> TftpLastBlock st = of_nat (k mod 65536) \<and>
        TftpBlockWrapOffset st = of_nat (33554432 * (k div 65536)))"

lemma block_length: "length (block_data file k) \<le> 512"
  by (simp add: block_data_def)

lemma ucast_of_nat_16: "(ucast (of_nat n :: u16) :: u32) = of_nat (n mod 65536)"
  by (simp add: ucast_32_unat unat_of_nat)

lemma store_block_ok:
  assumes "length data = n" "n \<le> 512"
  shows "store_block block (data @ r) (of_nat n) st =
    (let off = block * 512 + TftpBlockWrapOffset st;
         st' = st\<lparr>mem := overlay (mem st) (load_addr st + off) data\<rparr>
     in Some (if NetBootFileXferSize st < off + of_nat n then st'\<lparr>NetBootFileXferSize := off + of_nat n\<rparr> else st'))"
proof -
  have "unat (of_nat n :: u32) = n" using assms(2) by (simp add: unat_of_nat)
  then show ?thesis
    using assms(1) by (simp add: store_block_def get_bytes_def Let_def TFTP_BLOCK_SIZE_def)
qed

text \<open>The position of a block: the wrap offset undoes the wrap of its number.\<close>

lemma block_offset:
  "(of_nat (Suc k mod 65536) - 1) * 512 + of_nat (33554432 * (Suc k div 65536)) = (of_nat (512 * k) :: u32)"
proof -
  have "512 * (Suc k mod 65536) + 33554432 * (Suc k div 65536) = 512 * Suc k"
  proof -
    define q where "q = Suc k div 65536"
    define r where "r = Suc k mod 65536"
    have "Suc k = 65536 * q + r" unfolding q_def r_def by (rule mult_div_mod_eq [symmetric])
    then have "512 * Suc k = 512 * (65536 * q + r)" by (rule arg_cong)
    then show ?thesis unfolding q_def [symmetric] r_def [symmetric] by simp
  qed
  then have "(of_nat (512 * (Suc k mod 65536) + 33554432 * (Suc k div 65536)) :: u32) = of_nat (512 * Suc k)"
    by simp
  then show ?thesis by (simp add: algebra_simps)
qed

lemma wrap_step:
  "(if Suc k mod 65536 = 0 then of_nat (33554432 * (k div 65536)) + 33554432 else of_nat (33554432 * (k div 65536))) =
    (of_nat (33554432 * (Suc k div 65536)) :: u32)"
  by (simp add: div_Suc)

text \<open>What \<open>tftp_data\<close> does behind its checks: storing, acknowledging, and the end of the file.\<close>

definition accept_block :: "buf \<Rightarrow> u32 \<Rightarrow> 'a tftp_scheme \<Rightarrow> 'a tftp_scheme option" where
  "accept_block data len st =
     do { let st = NetSetTimeout (TFTP_TIMEOUT * CFG_HZ) TftpTimeout (st\<lparr>TftpLastBlock := TftpBlock st\<rparr>);
          st \<leftarrow> store_block (TftpBlock st - 1) data len st;
          st \<leftarrow> TftpSend st;
          if len < TFTP_BLOCK_SIZE then
            do { st \<leftarrow> puts (cstr ([CHR 0x0A] @ ''done'' @ [CHR 0x0A])) st;
                 Some (st\<lparr>NetState := NETLOOP_SUCCESS\<rparr>) }
          else Some st }"

definition started :: "u32 \<Rightarrow> 'a tftp_scheme \<Rightarrow> 'a tftp_scheme" where
  "started src st = st\<lparr>TftpState := STATE_DATA, TftpServerPort := src, TftpLastBlock := 0,
     TftpBlockWrap := 0, TftpBlockWrapOffset := 0\<rparr>"

lemma deliver_data:
  assumes "downloading port src file m addr k st"
  shows "deliver start port src file r k' st =
    tftp_data start (be16 (of_nat (k' + 1)) @ block_data file k' @ r) src (of_nat (2 + length (block_data file k'))) st"
proof -
  let ?n = "length (block_data file k')"
  have "4 + ?n < 2 ^ 32" using block_length [of "file" k'] by simp
  then have "unat (of_nat (4 + ?n) :: u32) = 4 + ?n" by (intro unat_of_nat_u32)
  then have "\<not> (of_nat (4 + ?n) :: u32) < 2" by (simp add: word_less_nat_alt del: of_nat_add)
  moreover have "(of_nat (4 + ?n) :: u32) - 2 = of_nat (2 + ?n)" by simp
  moreover have "TftpOurPort st = port" "TftpState st = STATE_RRQ \<or> TftpServerPort st = src"
    using assms by (auto simp: downloading_def split: if_splits)
  ultimately show ?thesis
    by (auto simp: deliver_def tftp_handler_def data_packet_def TFTP_DATA_def TFTP_OACK_def simp del: of_nat_add)
qed

lemma data_step:
  assumes "n \<le> 512" "length data = n"
    "tftp_progress (st\<lparr>TftpBlock := of_nat (b mod 65536)\<rparr>) = Some st1" "TftpState st1 = TftpState st"
    "TftpBlock st1 = of_nat (b mod 65536)"
  shows "tftp_data start (be16 (of_nat b) @ data @ r) src (of_nat (2 + n)) st =
    (if TftpState st = STATE_RRQ \<or> TftpState st = STATE_OACK then
       (if TftpBlock st1 \<noteq> 1 then
          do { st \<leftarrow> printf first_block_error [VWord (TftpBlock st1)] (started src st1); NetStartAgain start st }
        else accept_block (data @ r) (of_nat n) (started src st1))
     else if TftpBlock st1 = TftpLastBlock st1 then Some st1
     else accept_block (data @ r) (of_nat n) st1)"
proof -
  have "2 + n < 2 ^ 32" using assms(1) by simp
  then have "unat (of_nat (2 + n) :: u32) = 2 + n" by (intro unat_of_nat_u32)
  then have "\<not> (of_nat (2 + n) :: u32) < 2" by (simp add: word_less_nat_alt del: of_nat_add)
  moreover have "(of_nat (2 + n) :: u32) - 2 = of_nat n" by simp
  ultimately show ?thesis
    using assms(3-5)
    by (auto simp: tftp_data_def Let_def ucast_of_nat_16 accept_block_def started_def simp del: of_nat_add)
qed

text \<open>Accepting the next block in sequence.\<close>

lemma accept_next:
  assumes "net_ok st" "mac_ok (NetServerEther st)" "TftpState st = STATE_DATA" "load_addr st = addr"
    "TftpBlock st = of_nat (Suc k mod 65536)" "TftpBlockWrapOffset st = of_nat (33554432 * (Suc k div 65536))"
    "TftpServerPort st = src" "TftpOurPort st = port"
    "mem st = overlay m addr (take (512 * k) file)"
    "NetBootFileXferSize st = of_nat (min (512 * k) (length file))"
    "512 * k \<le> length file" "length file < 2 ^ 32"
  shows "\<exists>st'. accept_block (block_data file k @ r) (of_nat (length (block_data file k))) st = Some st' \<and>
    downloading port src file m addr (Suc k) st' \<and> keeps st st' \<and>
    NetState st' = (if length (block_data file k) < 512 then NETLOOP_SUCCESS else NetState st)"
proof -
  let ?d = "block_data file k" and ?n = "length (block_data file k)"
  have n: "?n = min 512 (length file - 512 * k)" by (simp add: block_data_def min.commute)
  define t where "t = timestamp st + lastdec st"
  define st1 where "st1 = st\<lparr>TftpLastBlock := TftpBlock st, timestamp := t, lastdec := 0,
      timeHandler := Some TftpTimeout, timeStart := t, timeDelta := TFTP_TIMEOUT * CFG_HZ\<rparr>"
  have "TFTP_TIMEOUT * CFG_HZ \<noteq> 0" by (simp add: TFTP_TIMEOUT_def CFG_HZ_value)
  then have s1: "NetSetTimeout (TFTP_TIMEOUT * CFG_HZ) TftpTimeout (st\<lparr>TftpLastBlock := TftpBlock st\<rparr>) = st1"
    by (simp add: NetSetTimeout_def get_timer_def get_timer_masked_eq st1_def t_def)
  have off: "(TftpBlock st1 - 1) * 512 + TftpBlockWrapOffset st1 = of_nat (512 * k)"
    unfolding st1_def using assms(5,6) block_offset [of k] by simp
  have sz: "512 * k + ?n = min (512 * Suc k) (length file)" 
  proof -
    obtain d where "length file = 512 * k + d" using assms(11) le_Suc_ex by blast
    then show ?thesis unfolding n by (simp add: min_def)
  qed
  define new where "new = (of_nat (512 * k) + of_nat ?n :: u32)"
  have new: "new = of_nat (min (512 * Suc k) (length file))" unfolding new_def sz [symmetric] by simp
  have bounds: "unat (of_nat (512 * k) :: u32) = 512 * k" "unat new = 512 * k + ?n"
  proof -
    show "unat (of_nat (512 * k) :: u32) = 512 * k" using assms(11,12) by (intro unat_of_nat_u32) linarith
    have "min (512 * Suc k) (length file) < 2 ^ 32" using assms(12) by linarith
    then show "unat new = 512 * k + ?n" unfolding new sz by (rule unat_of_nat_u32)
  qed
  have old: "NetBootFileXferSize st = of_nat (512 * k)" using assms(10,11) by (simp add: min_def del: of_nat_mult)
  define m' where "m' = overlay (mem st) (addr + of_nat (512 * k)) ?d"
  have m': "m' = overlay m addr (take (512 * Suc k) file)"
  proof -
    have "take (512 * Suc k) file = take (512 * k) file @ ?d"
      by (simp add: block_data_def take_add [symmetric] add.commute)
    moreover have "length (take (512 * k) file @ ?d) \<le> 2 ^ 32" using assms(12) sz by simp
    ultimately show ?thesis
      using overlay_append [of "take (512 * k) file" ?d m addr] assms(9,11) by (simp add: m'_def min_absorb2)
  qed
  define st2 where "st2 = st1\<lparr>mem := m', NetBootFileXferSize := new\<rparr>"
  have lt: "NetBootFileXferSize st < new \<longleftrightarrow> 0 < ?n"
    unfolding old word_less_nat_alt bounds by simp
  have f1: "load_addr st1 = addr" "mem st1 = mem st" "NetBootFileXferSize st1 = NetBootFileXferSize st"
    using assms(4) by (simp_all add: st1_def)
  have s2: "store_block (TftpBlock st1 - 1) (?d @ r) (of_nat ?n) st1 = Some st2"
  proof -
    have "store_block (TftpBlock st1 - 1) (?d @ r) (of_nat ?n) st1 =
        Some (if NetBootFileXferSize st < new then st1\<lparr>mem := m', NetBootFileXferSize := new\<rparr> else st1\<lparr>mem := m'\<rparr>)"
      unfolding store_block_ok [OF refl block_length [of "file" k]] Let_def off f1 new_def [symmetric] m'_def [symmetric] ..
    also have "\<dots> = Some st2"
    proof (cases "0 < ?n")
      case True
      then show ?thesis unfolding st2_def using lt by (simp only: if_True)
    next
      case False
      then have "new = NetBootFileXferSize st1" unfolding f1 old new_def by simp
      then have "st2 = st1\<lparr>mem := m'\<rparr>" by (simp add: st2_def)
      then show ?thesis using False lt by (simp only: if_False)
    qed
    finally show ?thesis .
  qed
  have ok2: "net_ok st2" "mac_ok (NetServerEther st2)" using assms(1,2) by (simp_all add: st2_def st1_def net_ok_def devinit_def)
  have pay: "tftp_payload st2 = Some (be16 TFTP_ACK @ be16 (ucast (TftpBlock st2)))"
    using assms(3) by (simp add: tftp_payload_def st2_def st1_def STATE_DATA_def STATE_RRQ_def)
  obtain b eo where s3: "TftpSend st2 = Some (st2\<lparr>NetTxPacket := b, NetIPID := NetIPID st2 + 1, eth_out := eo\<rparr>)"
    "length b = PKTSIZE_ALIGN"
    using TftpSend_ok [OF ok2 pay] by auto
  define st3 where "st3 = st2\<lparr>NetTxPacket := b, NetIPID := NetIPID st2 + 1, eth_out := eo\<rparr>"
  have d3: "downloading port src file m addr (Suc k) (sent out (st3\<lparr>NetState := x\<rparr>))" for out x
  proof -
    define y where "y = sent out (st3\<lparr>NetState := x\<rparr>)"
    have ok: "net_ok y" using ok2(1) s3(2) by (simp add: y_def net_ok_def st3_def sent_def devinit_def)
    have f: "NetServerEther y = NetServerEther st" "TftpOurPort y = TftpOurPort st" "load_addr y = load_addr st"
      "mem y = m'" "NetBootFileXferSize y = new" "TftpState y = TftpState st" "TftpServerPort y = TftpServerPort st"
      "TftpLastBlock y = TftpBlock st" "TftpBlockWrapOffset y = TftpBlockWrapOffset st"
      by (simp_all add: y_def st3_def st2_def st1_def sent_def)
    have "downloading port src file m addr (Suc k) y"
      unfolding downloading_def f m' new using ok assms(2-8) by (simp only: nat.simps if_False simp_thms)
    then show ?thesis by (simp add: y_def)
  qed
  have k3: "keeps st (sent out (st3\<lparr>NetState := x\<rparr>))" for out x
  proof -
    have "timestamp st3 + lastdec st3 - timeStart st3 \<le> timeDelta st3" by (simp add: st3_def st2_def st1_def)
    then show ?thesis by (simp add: keeps_def quiet_def sent_def st3_def st2_def st1_def board.truncate_def)
  qed
  have nn: "(of_nat ?n :: u32) < TFTP_BLOCK_SIZE \<longleftrightarrow> ?n < 512"
    using block_length [of "file" k] by (simp add: word_less_nat_alt TFTP_BLOCK_SIZE_def unat_of_nat)
  have run: "accept_block (?d @ r) (of_nat ?n) st =
      (if ?n < 512 then
         do { st \<leftarrow> puts (cstr ([CHR 0x0A] @ ''done'' @ [CHR 0x0A])) st3; Some (st\<lparr>NetState := NETLOOP_SUCCESS\<rparr>) }
       else Some st3)"
    unfolding accept_block_def s1 Let_def s2 bind.bind_lunit s3(1) nn st3_def [symmetric] ..
  show ?thesis
  proof (cases "?n < 512")
    case True
    have "puts (cstr ([CHR 0x0A] @ ''done'' @ [CHR 0x0A])) st3 = Some (sent (on_wire ([CHR 0x0A] @ ''done'' @ [CHR 0x0A])) st3)"
      using d3 [of "[]" "NetState st3"] by (intro puts_sent) (simp_all add: downloading_def net_ok_def)
    then have "accept_block (?d @ r) (of_nat ?n) st =
        Some (sent (on_wire ([CHR 0x0A] @ ''done'' @ [CHR 0x0A])) (st3\<lparr>NetState := NETLOOP_SUCCESS\<rparr>))"
      using True run by (simp add: sent_def)
    then show ?thesis using d3 [of _ NETLOOP_SUCCESS] k3 [of _ NETLOOP_SUCCESS] True by (auto simp: sent_def)
  next
    case False
    have e: "sent [] (st3\<lparr>NetState := NetState st3\<rparr>) = st3" and n3: "NetState st3 = NetState st"
      by (simp_all add: sent_def st3_def st2_def st1_def)
    show ?thesis
      using False run n3 d3 [of "[]" "NetState st3", unfolded e] k3 [of "[]" "NetState st3", unfolded e] by simp
  qed
qed

lemma progress_ok:
  assumes "\<not> devinit st" "b < 65536"
  shows "\<exists>out w. tftp_progress (st\<lparr>TftpBlock := of_nat b\<rparr>) = Some (sent out (st\<lparr>TftpBlock := of_nat b, TftpBlockWrap := w,
    TftpBlockWrapOffset := TftpBlockWrapOffset st + (if b = 0 then 33554432 else 0)\<rparr>))"
proof (cases "b = 0")
  case True
  then show ?thesis using progress_wrap [of "st\<lparr>TftpBlock := of_nat b\<rparr>"] assms(1) by (fastforce simp: devinit_def)
next
  case False
  have "unat (of_nat b :: u32) = b" using assms(2) by (simp add: unat_of_nat)
  then have "(of_nat b :: u32) \<noteq> 0" using False by (metis unat_0)
  then obtain out where "tftp_progress (st\<lparr>TftpBlock := of_nat b\<rparr>) = Some (sent out (st\<lparr>TftpBlock := of_nat b\<rparr>))"
    using progress_block [of "st\<lparr>TftpBlock := of_nat b\<rparr>"] assms(1) by (auto simp: devinit_def)
  then show ?thesis using False
    by (intro exI [of _ out] exI [of _ "TftpBlockWrap st"]) simp
qed

lemma of_nat_eq_16:
  assumes "a < 65536" "b < 65536"
  shows "(of_nat a :: u32) = of_nat b \<longleftrightarrow> a = b"
proof -
  have "unat (of_nat a :: u32) = a" by (rule unat_of_nat_u32) (use assms in simp)
  moreover have "unat (of_nat b :: u32) = b" by (rule unat_of_nat_u32) (use assms in simp)
  ultimately show ?thesis by metis
qed

lemma deliver_next:
  assumes "downloading port src file m addr k st" "512 * k \<le> length file" "length file < 2 ^ 32"
  shows "\<exists>st'. deliver start port src file r k st = Some st' \<and> downloading port src file m addr (Suc k) st' \<and>
    keeps st st' \<and>
    NetState st' = (if length (block_data file k) < 512 then NETLOOP_SUCCESS else NetState st)"
proof -
  let ?d = "block_data file k" and ?n = "length (block_data file k)"
  note dl = assms(1) [unfolded downloading_def]
  have dev: "\<not> devinit st" using dl by (simp add: net_ok_def)
  have b: "Suc k mod 65536 < 65536" by simp
  obtain out w where pr: "tftp_progress (st\<lparr>TftpBlock := of_nat (Suc k mod 65536)\<rparr>) =
      Some (sent out (st\<lparr>TftpBlock := of_nat (Suc k mod 65536), TftpBlockWrap := w,
        TftpBlockWrapOffset := TftpBlockWrapOffset st + (if Suc k mod 65536 = 0 then 33554432 else 0)\<rparr>))"
    using progress_ok [OF dev b] by blast
  define st1 where "st1 = sent out (st\<lparr>TftpBlock := of_nat (Suc k mod 65536), TftpBlockWrap := w,
        TftpBlockWrapOffset := TftpBlockWrapOffset st + (if Suc k mod 65536 = 0 then 33554432 else 0)\<rparr>)"
  have f1: "TftpState st1 = TftpState st" "TftpBlock st1 = of_nat (Suc k mod 65536)" "NetState st1 = NetState st"
    "TftpLastBlock st1 = TftpLastBlock st" "mem st1 = mem st" "load_addr st1 = load_addr st"
    "NetBootFileXferSize st1 = NetBootFileXferSize st" "TftpServerPort st1 = TftpServerPort st"
    "TftpOurPort st1 = TftpOurPort st" "NetServerEther st1 = NetServerEther st" "keeps st st1"
    "TftpBlockWrapOffset st1 = TftpBlockWrapOffset st + (if Suc k mod 65536 = 0 then 33554432 else 0)"
    by (simp_all add: st1_def sent_def keeps_def quiet_def board.truncate_def)
  have ok1: "net_ok st1" using dl by (simp add: st1_def net_ok_def sent_def devinit_def)
  have step: "deliver start port src file r k st =
    (if TftpState st = STATE_RRQ \<or> TftpState st = STATE_OACK then
       (if TftpBlock st1 \<noteq> 1 then
          do { st \<leftarrow> printf first_block_error [VWord (TftpBlock st1)] (started src st1); NetStartAgain start st }
        else accept_block (?d @ r) (of_nat ?n) (started src st1))
     else if TftpBlock st1 = TftpLastBlock st1 then Some st1
     else accept_block (?d @ r) (of_nat ?n) st1)"
    unfolding deliver_data [OF assms(1)] Suc_eq_plus1 [symmetric]
    by (rule data_step [OF block_length refl pr [folded st1_def] f1(1,2)])
  show ?thesis
  proof (cases "k = 0")
    case True
    define st2 where "st2 = started src st1"
    have f2: "NetState st2 = NetState st"
      using f1 by (simp add: st2_def started_def)
    have "keeps st1 st2" by (simp add: st2_def started_def keeps_def quiet_def board.truncate_def)
    then have k2: "keeps st st2" using f1(11) keeps_trans by blast
    have "\<exists>st'. accept_block (?d @ r) (of_nat ?n) st2 = Some st' \<and>
        downloading port src file m addr (Suc k) st' \<and> keeps st2 st' \<and>
        NetState st' = (if ?n < 512 then NETLOOP_SUCCESS else NetState st2)"
      by (rule accept_next) (use dl ok1 f1 True assms(2,3) in \<open>simp_all add: st2_def started_def net_ok_def devinit_def\<close>)
    moreover have "TftpState st = STATE_RRQ" "TftpBlock st1 = 1" using dl True f1(2) by simp_all
    then have "deliver start port src file r k st = accept_block (?d @ r) (of_nat ?n) st2"
      unfolding step st2_def by simp
    ultimately show ?thesis using keeps_trans [OF k2] unfolding f2 by metis
  next
    case False
    have s: "TftpState st = STATE_DATA" using dl False by simp
    have ne: "TftpBlock st1 \<noteq> TftpLastBlock st1"
      using dl False of_nat_eq_16 [of "Suc k mod 65536" "k mod 65536"] by (simp add: f1 mod_Suc)
    have wo: "TftpBlockWrapOffset st1 = of_nat (33554432 * (Suc k div 65536))"
      using dl False wrap_step [of k] by (simp add: f1 split: if_splits)
    have "\<exists>st'. accept_block (?d @ r) (of_nat ?n) st1 = Some st' \<and>
        downloading port src file m addr (Suc k) st' \<and> keeps st1 st' \<and>
        NetState st' = (if ?n < 512 then NETLOOP_SUCCESS else NetState st1)"
      by (rule accept_next [OF ok1 _ _ _ f1(2) wo])
        (use dl f1 False assms(2,3) in \<open>simp_all\<close>)
    moreover have "deliver start port src file r k st = accept_block (?d @ r) (of_nat ?n) st1"
      unfolding step s using ne by (simp add: STATE_DATA_def STATE_RRQ_def STATE_OACK_def)
    ultimately show ?thesis using keeps_trans [OF f1(11)] unfolding f1(3) by metis
  qed
qed

text \<open>A repeated block is ignored, unless its number is 0.\<close>

lemma deliver_again:
  assumes "downloading port src file m addr (Suc k) st" "Suc k mod 65536 \<noteq> 0"
  shows "\<exists>st'. deliver start port src file r k st = Some st' \<and> downloading port src file m addr (Suc k) st' \<and>
    keeps st st' \<and> NetState st' = NetState st"
proof -
  note dl = assms(1) [unfolded downloading_def]
  have dev: "\<not> devinit st" using dl by (simp add: net_ok_def)
  have b: "Suc k mod 65536 < 65536" by simp
  obtain out w where pr: "tftp_progress (st\<lparr>TftpBlock := of_nat (Suc k mod 65536)\<rparr>) =
      Some (sent out (st\<lparr>TftpBlock := of_nat (Suc k mod 65536), TftpBlockWrap := w,
        TftpBlockWrapOffset := TftpBlockWrapOffset st\<rparr>))"
    using progress_ok [OF dev b] assms(2) by auto
  define st1 where "st1 = sent out (st\<lparr>TftpBlock := of_nat (Suc k mod 65536), TftpBlockWrap := w,
        TftpBlockWrapOffset := TftpBlockWrapOffset st\<rparr>)"
  have f1: "TftpState st1 = TftpState st" "TftpBlock st1 = of_nat (Suc k mod 65536)" "TftpLastBlock st1 = TftpLastBlock st"
    by (simp_all add: st1_def sent_def)
  have s: "TftpState st = STATE_DATA" "TftpLastBlock st = of_nat (Suc k mod 65536)" using dl by simp_all
  have "deliver start port src file r k st = Some st1"
    unfolding deliver_data [OF assms(1)] Suc_eq_plus1 [symmetric]
      data_step [OF block_length refl pr [folded st1_def] f1(1,2)] f1
    using s by (simp add: STATE_DATA_def STATE_RRQ_def STATE_OACK_def)
  moreover have "downloading port src file m addr (Suc k) st1"
    using dl unfolding downloading_def by (simp add: st1_def sent_def net_ok_def devinit_def)
  moreover have "keeps st st1" "NetState st1 = NetState st"
    by (simp_all add: st1_def sent_def keeps_def quiet_def board.truncate_def)
  ultimately show ?thesis by blast
qed

section \<open>A whole transfer\<close>

fun deliver_all ::
  "(u32 \<Rightarrow> int) \<Rightarrow> u32 \<Rightarrow> u32 \<Rightarrow> buf \<Rightarrow> buf \<Rightarrow> nat list \<Rightarrow> 'a tftp_scheme \<Rightarrow> 'a tftp_scheme option" where
  "deliver_all start port src file r [] st = Some st"
| "deliver_all start port src file r (k # ks) st =
     do { st \<leftarrow> deliver start port src file r k st; deliver_all start port src file r ks st }"

text \<open>The blocks \<open>0, \<dots>, n - 1\<close>, the \<open>k\<close>-th sent again \<open>reps k\<close> times, and the last block.\<close>

definition schedule :: "(nat \<Rightarrow> nat) \<Rightarrow> nat \<Rightarrow> nat list" where
  "schedule reps n = concat (map (\<lambda>k. replicate (Suc (reps k)) k) [0..<n])"

lemma deliver_all_append:
  "deliver_all start port src file r (xs @ ys) st =
    do { st \<leftarrow> deliver_all start port src file r xs st; deliver_all start port src file r ys st }"
  by (induction xs arbitrary: st) (auto split: Option.bind_splits)

lemma deliver_repeats:
  assumes "downloading port src file m addr (Suc k) st" "0 < n \<longrightarrow> Suc k mod 65536 \<noteq> 0"
  shows "\<exists>st'. deliver_all start port src file r (replicate n k) st = Some st' \<and>
    downloading port src file m addr (Suc k) st' \<and> keeps st st' \<and> NetState st' = NetState st"
  using assms
proof (induction n arbitrary: st)
  case (Suc n)
  then obtain st1 where "deliver start port src file r k st = Some st1" "downloading port src file m addr (Suc k) st1"
    "keeps st st1" "NetState st1 = NetState st"
    using deliver_again by blast
  moreover obtain st2 where "deliver_all start port src file r (replicate n k) st1 = Some st2"
    "downloading port src file m addr (Suc k) st2" "keeps st1 st2" "NetState st2 = NetState st1"
    using Suc.IH [of st1] Suc.prems(2) calculation by auto
  ultimately show ?case using keeps_trans [of st st1 st2] by auto
qed (simp add: keeps_refl)

lemma deliver_schedule:
  assumes "downloading port src file m addr 0 st" "512 * n \<le> length file" "length file < 2 ^ 32"
    "\<forall>k < n. 65536 dvd Suc k \<longrightarrow> reps k = 0"
  shows "\<exists>st'. deliver_all start port src file r (schedule reps n) st = Some st' \<and>
    downloading port src file m addr n st' \<and> keeps st st' \<and> NetState st' = NetState st"
  using assms(2,4)
proof (induction n)
  case 0
  then show ?case using assms(1) by (simp add: schedule_def keeps_refl)
next
  case (Suc n)
  then obtain st1 where s1: "deliver_all start port src file r (schedule reps n) st = Some st1"
    "downloading port src file m addr n st1" "keeps st st1" "NetState st1 = NetState st"
    by auto
  have "512 * n \<le> length file" using Suc.prems(1) by simp
  then obtain st2 where s2: "deliver start port src file r n st1 = Some st2" "downloading port src file m addr (Suc n) st2"
    "keeps st1 st2" "NetState st2 = (if length (block_data file n) < 512 then NETLOOP_SUCCESS else NetState st1)"
    using deliver_next [OF s1(2) _ assms(3)] by blast
  have full: "\<not> length (block_data file n) < 512" using Suc.prems(1) by (simp add: block_data_def)
  have again: "0 < reps n \<longrightarrow> Suc n mod 65536 \<noteq> 0" using Suc.prems(2) by (auto simp: dvd_eq_mod_eq_0)
  then obtain st3 where s3: "deliver_all start port src file r (replicate (reps n) n) st2 = Some st3"
    "downloading port src file m addr (Suc n) st3" "keeps st2 st3" "NetState st3 = NetState st2"
    using deliver_repeats [OF s2(2) again] by metis
  have sch: "schedule reps (Suc n) = schedule reps n @ n # replicate (reps n) n" by (simp add: schedule_def)
  have "deliver_all start port src file r (schedule reps (Suc n)) st = Some st3"
    unfolding sch deliver_all_append s1(1) deliver_all.simps s2(1) bind.bind_lunit s3(1) ..
  moreover have "keeps st st3" using s1(3) s2(3) s3(3) keeps_trans by blast
  moreover have "NetState st3 = NetState st" using s1(4) s2(4) s3(4) full by (simp only: if_False)
  ultimately show ?case using s3(2) by blast
qed


lemma block_data_past: "length file \<le> 512 * k \<Longrightarrow> block_data file k = []"
  by (simp add: block_data_def)

lemma deliver_last:
  assumes "downloading port src file m addr 0 st" "length file < 2 ^ 32" "N = length file div 512"
    "\<forall>k < N. 65536 dvd Suc k \<longrightarrow> reps k = 0"
  shows "\<exists>st'. deliver_all start port src file r (schedule reps N @ [N]) st = Some st' \<and>
    mem st' = overlay m addr file \<and> NetBootFileXferSize st' = of_nat (length file) \<and> NetState st' = NETLOOP_SUCCESS"
proof -
  define d where "d = length file mod 512"
  have len: "length file = 512 * N + d" unfolding d_def assms(3) by simp
  have d: "d < 512" by (simp add: d_def)
  have n: "512 * N \<le> length file" by (simp add: len)
  obtain st1 where s1: "deliver_all start port src file r (schedule reps N) st = Some st1"
    "downloading port src file m addr N st1"
    using deliver_schedule [OF assms(1) n assms(2,4)] by blast
  obtain st2 where s2: "deliver start port src file r N st1 = Some st2" "downloading port src file m addr (Suc N) st2"
    "NetState st2 = (if length (block_data file N) < 512 then NETLOOP_SUCCESS else NetState st1)"
    using deliver_next [OF s1(2) n assms(2)] by blast
  have "length (block_data file N) < 512" using d by (simp add: block_data_def len)
  moreover have "take (512 * Suc N) file = file" "min (512 * Suc N) (length file) = length file"
    using d by (simp_all add: len)
  moreover have "deliver_all start port src file r (schedule reps N @ [N]) st = Some st2"
    unfolding deliver_all_append s1(1) deliver_all.simps s2(1) bind.bind_lunit ..
  ultimately show ?thesis using s2(2,3) by (simp only: downloading_def if_True) blast
qed

lemma deliver_wrap_again:
  assumes "downloading port src file m addr (Suc k) st" "65536 dvd Suc k"
  shows "\<exists>st'. deliver start port src file r k st = Some st' \<and> mem st' = mem st \<and>
    TftpBlockWrapOffset st' = TftpBlockWrapOffset st + 33554432"
proof -
  note dl = assms(1) [unfolded downloading_def]
  have dev: "\<not> devinit st" using dl by (simp add: net_ok_def)
  have z: "Suc k mod 65536 = 0" using assms(2) by (simp add: dvd_eq_mod_eq_0)
  have b: "Suc k mod 65536 < 65536" by simp
  define st1 where "st1 out w = sent out (st\<lparr>TftpBlock := of_nat (Suc k mod 65536), TftpBlockWrap := w,
        TftpBlockWrapOffset := TftpBlockWrapOffset st + 33554432\<rparr>)" for out w
  obtain out w where pr: "tftp_progress (st\<lparr>TftpBlock := of_nat (Suc k mod 65536)\<rparr>) = Some (st1 out w)"
    using progress_ok [OF dev b] z unfolding st1_def by auto
  have f1: "TftpState (st1 out w) = TftpState st" "TftpBlock (st1 out w) = of_nat (Suc k mod 65536)"
    "TftpLastBlock (st1 out w) = TftpLastBlock st"
    by (simp_all add: st1_def sent_def)
  have s: "TftpState st = STATE_DATA" "TftpLastBlock st = of_nat (Suc k mod 65536)" using dl by simp_all
  have "deliver start port src file r k st = Some (st1 out w)"
    unfolding deliver_data [OF assms(1)] Suc_eq_plus1 [symmetric]
      data_step [OF block_length refl pr f1(1,2)] f1
    using s by (simp add: STATE_DATA_def STATE_RRQ_def STATE_OACK_def)
  then show ?thesis by (simp add: st1_def sent_def)
qed

definition sample_tftp :: "int \<Rightarrow> u32 \<Rightarrow> (u32 \<Rightarrow> char) \<Rightarrow> u32 \<Rightarrow> u32 \<Rightarrow> u32 \<Rightarrow> tftp" where
  "sample_tftp state port m addr lb off = net.extend
     (sample_net ''abcdef'' 0x0100000a (replicate 1536 NUL)
        \<lparr>NetServerEther := ''ghijkl'', mem := m, load_addr := addr, NetBootFileXferSize := off\<rparr>)
     \<lparr>TftpServerPort = 2000, TftpOurPort = port, TftpTimeoutCount = 0, TftpBlock = 0, TftpLastBlock = lb,
      TftpBlockWrap = 0, TftpBlockWrapOffset = off, TftpState = state, tftp_filename = cstr ''image''\<rparr>"

lemma sample_tftp_simps [simp]:
  "TftpOurPort (sample_tftp s p m a l f) = p" "TftpState (sample_tftp s p m a l f) = s"
  "TftpServerPort (sample_tftp s p m a l f) = 2000" "TftpLastBlock (sample_tftp s p m a l f) = l"
  "TftpBlockWrapOffset (sample_tftp s p m a l f) = f" "mem (sample_tftp s p m a l f) = m"
  "load_addr (sample_tftp s p m a l f) = a" "NetBootFileXferSize (sample_tftp s p m a l f) = f"
  "NetServerEther (sample_tftp s p m a l f) = ''ghijkl''"
  by (simp_all add: sample_tftp_def net.defs)

lemma sample_tftp_ok: "net_ok (sample_tftp s p m a l f)"
  using sample_net_ok [where e = "''abcdef''" and tx = "replicate 1536 NUL" and ip = "0x0100000a"]
  by (simp add: sample_tftp_def net.defs net_ok_def devinit_def PKTSIZE_ALIGN_def)

lemma sample_mac_ok: "mac_ok ''ghijkl''"
  by code_simp





end
