(* ===== verification/Nfs.thy ===== *)
theory Nfs
  imports Tftp
begin

text \<open>
  Loading a file by NFS (\<open>net/nfs.c\<close>): the port lookups, mounting, looking up the file, reading it,
  following symbolic links, and unmounting, each a remote procedure call over UDP.
\<close>

section \<open>The state\<close>

text \<open>
  \<open>nfs_path\<close> always points to the start of \<open>nfs_path_buff\<close>; \<open>nfs_filename\<close> points into it.
\<close>

record nfs = tftp +
  fs_mounted :: bool
  rpc_id :: u32
  nfs_offset :: u32
  nfs_len :: u32
  dirfh :: buf
  filefh :: buf
  NfsServerIP :: u32
  NfsSrvMountPort :: u32
  NfsSrvNfsPort :: u32
  NfsOurPort :: u32
  NfsTimeoutCount :: int
  NfsState :: int
  default_filename :: buf
  nfs_filename :: nat
  nfs_path_buff :: buf

definition NFS_TIMEOUT :: u32 where "NFS_TIMEOUT = 10"
definition STATE_PRCLOOKUP_PROG_MOUNT_REQ :: int where "STATE_PRCLOOKUP_PROG_MOUNT_REQ = 1"
definition STATE_PRCLOOKUP_PROG_NFS_REQ :: int where "STATE_PRCLOOKUP_PROG_NFS_REQ = 2"
definition STATE_MOUNT_REQ :: int where "STATE_MOUNT_REQ = 3"
definition STATE_UMOUNT_REQ :: int where "STATE_UMOUNT_REQ = 4"
definition STATE_LOOKUP_REQ :: int where "STATE_LOOKUP_REQ = 5"
definition STATE_READ_REQ :: int where "STATE_READ_REQ = 6"
definition STATE_READLINK_REQ :: int where "STATE_READLINK_REQ = 7"
definition SUNRPC_PORT :: u32 where "SUNRPC_PORT = 111"
definition PROG_PORTMAP :: u32 where "PROG_PORTMAP = 100000"
definition PROG_NFS :: u32 where "PROG_NFS = 100003"
definition PROG_MOUNT :: u32 where "PROG_MOUNT = 100005"
definition MSG_CALL :: u32 where "MSG_CALL = 0"
definition PORTMAP_GETPORT :: u32 where "PORTMAP_GETPORT = 3"
definition MOUNT_ADDENTRY :: u32 where "MOUNT_ADDENTRY = 1"
definition MOUNT_UMOUNTALL :: u32 where "MOUNT_UMOUNTALL = 4"
definition NFS_LOOKUP :: u32 where "NFS_LOOKUP = 4"
definition NFS_READLINK :: u32 where "NFS_READLINK = 5"
definition NFS_READ :: u32 where "NFS_READ = 6"
definition NFS_FHSIZE :: nat where "NFS_FHSIZE = 32"
definition NFSERR_ISDIR :: int where "NFSERR_ISDIR = 21"
definition NFSERR_INVAL :: int where "NFSERR_INVAL = 22"
definition NFS_READ_SIZE :: int where "NFS_READ_SIZE = 1024"

text \<open>The sizes of \<open>struct rpc_t\<close> and of the header of a reply, and the offset of its data.\<close>

definition RPC_SIZE :: nat where "RPC_SIZE = 2048"
definition REPLY_SIZE :: nat where "REPLY_SIZE = 100"
definition REPLY_DATA :: nat where "REPLY_DATA = 24"

section \<open>Storing and paths\<close>

definition nfs_store_block :: "buf \<Rightarrow> u32 \<Rightarrow> u32 \<Rightarrow> 'a nfs_scheme \<Rightarrow> 'a nfs_scheme option" where
  "nfs_store_block src offset len st =
     (let newsize = offset + len
      in do { data \<leftarrow> get_bytes src 0 (unat len);
              let st = st\<lparr>mem := overlay (mem st) (load_addr st + offset) data\<rparr>;
              Some (if NetBootFileXferSize st < offset + len then st\<lparr>NetBootFileXferSize := newsize\<rparr> else st) })"

text \<open>The result is an offset in the path; \<open>-1\<close>, in front of it, when there is no slash.\<close>

fun basename_down :: "buf \<Rightarrow> nat \<Rightarrow> int option" where
  "basename_down path 0 = Some (-1)"
| "basename_down path (Suc i) =
     do { c \<leftarrow> load path i;
          if c = CHR ''/'' then Some (int i + 1) else basename_down path i }"

definition basename :: "buf \<Rightarrow> int option" where
  "basename path = do { n \<leftarrow> strlen path; basename_down path n }"

definition dirname :: "buf \<Rightarrow> buf option" where
  "dirname path =
     do { fname \<leftarrow> basename path;
          let fname = fname - 1;
          if fname < 0 then None else store path (nat fname) NUL }"

text \<open>\<open>nfs_filename = basename (nfs_path); nfs_path = dirname (nfs_path);\<close>\<close>

definition split_path :: "'a nfs_scheme \<Rightarrow> 'a nfs_scheme option" where
  "split_path st =
     do { f \<leftarrow> basename (nfs_path_buff st);
          p \<leftarrow> dirname (nfs_path_buff st);
          Some (st\<lparr>nfs_filename := nat f, nfs_path_buff := p\<rparr>) }"

section \<open>Requests\<close>

definition rpc_add_credentials :: buf where
  "rpc_add_credentials =
     (let hostname = ([] :: buf); hostnamelen = length hostname; hl = (hostnamelen + 3) div 4 * 4
      in be32 1 @ be32 (of_nat (hl + 20)) @ be32 0 @ be32 (of_nat hostnamelen) @
         hostname @ replicate (hl - hostnamelen) NUL @ be32 0 @ be32 0 @ be32 0 @ be32 0 @ be32 0)"

text \<open>A string argument: its length, the characters, padding to whole words.\<close>

definition rpc_string :: "string \<Rightarrow> buf" where
  "rpc_string s = be32 (of_nat (length s)) @ s @ replicate ((length s + 3) div 4 * 4 - length s) NUL"

definition rpc_req :: "u32 \<Rightarrow> u32 \<Rightarrow> buf \<Rightarrow> 'a nfs_scheme \<Rightarrow> 'a nfs_scheme option" where
  "rpc_req rpc_prog rpc_proc data st =
     do { let id = rpc_id st + 1;
          let st = st\<lparr>rpc_id := id\<rparr>;
          let pkt = be32 id @ be32 MSG_CALL @ be32 2 @ be32 rpc_prog @ be32 2 @ be32 rpc_proc @ data;
          if length pkt > RPC_SIZE then None
          else
            do { b \<leftarrow> put (NetTxPacket st) (NetEthHdrSize st + IP_HDR_SIZE) pkt;
                 let sport = (if rpc_prog = PROG_PORTMAP then SUNRPC_PORT
                              else if rpc_prog = PROG_MOUNT then NfsSrvMountPort st else NfsSrvNfsPort st);
                 map_option snd
                   (NetSendUDPPacket MAC_Server (NfsServerIP st) (unat sport) (unat (NfsOurPort st)) (length pkt)
                      (st\<lparr>NetTxPacket := b\<rparr>)) } }"

definition rpc_lookup_req :: "u32 \<Rightarrow> u32 \<Rightarrow> 'a nfs_scheme \<Rightarrow> 'a nfs_scheme option" where
  "rpc_lookup_req prog ver st =
     rpc_req PROG_PORTMAP PORTMAP_GETPORT
       (be32 0 @ be32 0 @ be32 0 @ be32 0 @ be32 prog @ be32 ver @ be32 17 @ be32 0) st"

definition nfs_mount_req :: "'a nfs_scheme \<Rightarrow> 'a nfs_scheme option" where
  "nfs_mount_req st =
     do { path \<leftarrow> str_at (nfs_path_buff st);
          rpc_req PROG_MOUNT MOUNT_ADDENTRY (rpc_add_credentials @ rpc_string path) st }"

definition nfs_umountall_req :: "'a nfs_scheme \<Rightarrow> 'a nfs_scheme option" where
  "nfs_umountall_req st =
     (if NfsSrvMountPort st = -1 \<or> \<not> fs_mounted st then Some st
      else rpc_req PROG_MOUNT MOUNT_UMOUNTALL rpc_add_credentials st)"

definition nfs_readlink_req :: "'a nfs_scheme \<Rightarrow> 'a nfs_scheme option" where
  "nfs_readlink_req st = rpc_req PROG_NFS NFS_READLINK (rpc_add_credentials @ filefh st) st"

definition nfs_lookup_req :: "'a nfs_scheme \<Rightarrow> 'a nfs_scheme option" where
  "nfs_lookup_req st =
     do { fname \<leftarrow> str_at (drop (nfs_filename st) (nfs_path_buff st));
          rpc_req PROG_NFS NFS_LOOKUP (rpc_add_credentials @ dirfh st @ rpc_string fname) st }"

definition nfs_read_req :: "u32 \<Rightarrow> u32 \<Rightarrow> 'a nfs_scheme \<Rightarrow> 'a nfs_scheme option" where
  "nfs_read_req offset readlen st =
     rpc_req PROG_NFS NFS_READ (rpc_add_credentials @ filefh st @ be32 offset @ be32 readlen @ be32 0) st"

definition NfsSend :: "'a nfs_scheme \<Rightarrow> 'a nfs_scheme option" where
  "NfsSend st =
     (if NfsState st = STATE_PRCLOOKUP_PROG_MOUNT_REQ then rpc_lookup_req PROG_MOUNT 1 st
      else if NfsState st = STATE_PRCLOOKUP_PROG_NFS_REQ then rpc_lookup_req PROG_NFS 2 st
      else if NfsState st = STATE_MOUNT_REQ then nfs_mount_req st
      else if NfsState st = STATE_UMOUNT_REQ then nfs_umountall_req st
      else if NfsState st = STATE_LOOKUP_REQ then nfs_lookup_req st
      else if NfsState st = STATE_READ_REQ then nfs_read_req (nfs_offset st) (nfs_len st) st
      else if NfsState st = STATE_READLINK_REQ then nfs_readlink_req st
      else Some st)"

section \<open>Replies\<close>

text \<open>
  The packet is copied to a \<open>struct rpc_t\<close> on the stack.  Behind the packet the structure is not
  initialised; reading there is \<open>None\<close>.
\<close>

definition rpc_reply :: "buf \<Rightarrow> u32 \<Rightarrow> buf option" where
  "rpc_reply pkt len = (if unat len > RPC_SIZE then None else get_bytes pkt 0 (unat len))"

text \<open>\<open>w1 || w2 || \<dots>\<close> on the words at the given offsets.\<close>

fun any_set :: "buf \<Rightarrow> nat list \<Rightarrow> bool option" where
  "any_set b [] = Some False"
| "any_set b (i # is) = do { w \<leftarrow> rd_be32 (drop i b); if w \<noteq> 0 then Some True else any_set b is }"

text \<open>The reply is rejected by its number or one of the status words.\<close>

definition rejected :: "nat list \<Rightarrow> buf \<Rightarrow> 'a nfs_scheme \<Rightarrow> bool option" where
  "rejected status reply st =
     do { id \<leftarrow> rd_be32 reply;
          if id \<noteq> rpc_id st then Some True else any_set reply status }"

definition rpc_lookup_reply :: "u32 \<Rightarrow> buf \<Rightarrow> u32 \<Rightarrow> 'a nfs_scheme \<Rightarrow> (int \<times> 'a nfs_scheme) option" where
  "rpc_lookup_reply prog pkt len st =
     do { reply \<leftarrow> rpc_reply pkt len;
          bad \<leftarrow> rejected [8, 12, 20] reply st;
          if bad then Some (-1, st)
          else
            do { port \<leftarrow> rd_be32 (drop REPLY_DATA reply);
                 Some (0, if prog = PROG_MOUNT then st\<lparr>NfsSrvMountPort := port\<rparr>
                          else if prog = PROG_NFS then st\<lparr>NfsSrvNfsPort := port\<rparr> else st) } }"

definition nfs_mount_reply :: "buf \<Rightarrow> u32 \<Rightarrow> 'a nfs_scheme \<Rightarrow> (int \<times> 'a nfs_scheme) option" where
  "nfs_mount_reply pkt len st =
     do { reply \<leftarrow> rpc_reply pkt len;
          bad \<leftarrow> rejected [8, 12, 20, REPLY_DATA] reply st;
          if bad then Some (-1, st)
          else do { fh \<leftarrow> get_bytes reply (REPLY_DATA + 4) NFS_FHSIZE;
                    Some (0, st\<lparr>fs_mounted := True, dirfh := fh\<rparr>) } }"

definition nfs_umountall_reply :: "buf \<Rightarrow> u32 \<Rightarrow> 'a nfs_scheme \<Rightarrow> (int \<times> 'a nfs_scheme) option" where
  "nfs_umountall_reply pkt len st =
     do { reply \<leftarrow> rpc_reply pkt len;
          bad \<leftarrow> rejected [8, 12, 20] reply st;
          Some (if bad then (-1, st) else (0, st\<lparr>fs_mounted := False, dirfh := replicate NFS_FHSIZE NUL\<rparr>)) }"

definition nfs_lookup_reply :: "buf \<Rightarrow> u32 \<Rightarrow> 'a nfs_scheme \<Rightarrow> (int \<times> 'a nfs_scheme) option" where
  "nfs_lookup_reply pkt len st =
     do { reply \<leftarrow> rpc_reply pkt len;
          bad \<leftarrow> rejected [8, 12, 20, REPLY_DATA] reply st;
          if bad then Some (-1, st)
          else do { fh \<leftarrow> get_bytes reply (REPLY_DATA + 4) NFS_FHSIZE; Some (0, st\<lparr>filefh := fh\<rparr>) } }"

text \<open>A relative link is appended to the path, an absolute one replaces it.\<close>

definition nfs_readlink_reply :: "buf \<Rightarrow> u32 \<Rightarrow> 'a nfs_scheme \<Rightarrow> (int \<times> 'a nfs_scheme) option" where
  "nfs_readlink_reply pkt len st =
     do { reply \<leftarrow> rpc_reply pkt len;
          bad \<leftarrow> rejected [8, 12, 20, REPLY_DATA] reply st;
          if bad then Some (-1, st)
          else
            do { rlen \<leftarrow> rd_be32 (drop (REPLY_DATA + 4) reply);
                 c \<leftarrow> load reply (REPLY_DATA + 8);
                 target \<leftarrow> get_bytes reply (REPLY_DATA + 8) (unat rlen);
                 if c \<noteq> CHR ''/'' then
                   do { p \<leftarrow> strcat (nfs_path_buff st) (cstr ''/'');
                        pathlen \<leftarrow> strlen p;
                        p \<leftarrow> put p pathlen target;
                        p \<leftarrow> store p (pathlen + unat rlen + 1) NUL;
                        Some (0, st\<lparr>nfs_path_buff := p\<rparr>) }
                 else
                   do { p \<leftarrow> put (nfs_path_buff st) 0 target;
                        p \<leftarrow> store p (unat rlen) NUL;
                        Some (0, st\<lparr>nfs_path_buff := p\<rparr>) } } }"

definition nfs_progress :: "'a nfs_scheme \<Rightarrow> 'a nfs_scheme option" where
  "nfs_progress st =
     do { let offset = sint (nfs_offset st);
          st \<leftarrow> (if nfs_offset st \<noteq> 0 \<and> (NFS_READ_SIZE div 2 * 10 * 65) dvd offset
                 then puts (cstr ([CHR 0x0A, TAB] @ '' '')) st else Some st);
          if (NFS_READ_SIZE div 2 * 10) dvd offset then putc (CHR ''#'') st else Some st }"

text \<open>The header is copied whatever the length of the packet is.\<close>

definition nfs_read_reply :: "buf \<Rightarrow> 'a nfs_scheme \<Rightarrow> (int \<times> 'a nfs_scheme) option" where
  "nfs_read_reply pkt st =
     do { reply \<leftarrow> get_bytes pkt 0 REPLY_SIZE;
          id \<leftarrow> rd_be32 reply;
          if id \<noteq> rpc_id st then Some (-1, st)
          else
            do { bad \<leftarrow> any_set reply [8, 12, 20, REPLY_DATA];
                 if bad then
                   do { refused \<leftarrow> any_set reply [8, 20];
                        status \<leftarrow> rd_be32 (drop REPLY_DATA reply);
                        Some (if refused then -9999 else sint (- status), st) }
                 else
                   do { st \<leftarrow> nfs_progress st;
                        rlen \<leftarrow> rd_be32 (drop (REPLY_DATA + 72) reply);
                        st \<leftarrow> nfs_store_block (drop REPLY_SIZE pkt) (nfs_offset st) rlen st;
                        Some (sint rlen, st) } } }"

section \<open>The state machine\<close>

definition nfs_goto :: "int \<Rightarrow> 'a nfs_scheme \<Rightarrow> 'a nfs_scheme option" where
  "nfs_goto s st = NfsSend (st\<lparr>NfsState := s\<rparr>)"

definition nfs_error :: "string \<Rightarrow> string" where
  "nfs_error s = ''*** ERROR: '' @ s @ [CHR 0x0A]"

definition nfs_handler :: "buf option \<Rightarrow> u32 \<Rightarrow> u32 \<Rightarrow> u32 \<Rightarrow> 'a nfs_scheme \<Rightarrow> 'a nfs_scheme option" where
  "nfs_handler packet dest src len st =
     (if dest \<noteq> NfsOurPort st then Some st
      else if NfsState st = STATE_PRCLOOKUP_PROG_MOUNT_REQ then
        do { pkt \<leftarrow> packet;
             (_, st) \<leftarrow> rpc_lookup_reply PROG_MOUNT pkt len st;
             nfs_goto STATE_PRCLOOKUP_PROG_NFS_REQ st }
      else if NfsState st = STATE_PRCLOOKUP_PROG_NFS_REQ then
        do { pkt \<leftarrow> packet;
             (_, st) \<leftarrow> rpc_lookup_reply PROG_NFS pkt len st;
             nfs_goto STATE_MOUNT_REQ st }
      else if NfsState st = STATE_MOUNT_REQ then
        do { pkt \<leftarrow> packet;
             (r, st) \<leftarrow> nfs_mount_reply pkt len st;
             if r \<noteq> 0 then do { st \<leftarrow> puts (cstr (nfs_error ''Cannot mount'')) st; nfs_goto STATE_UMOUNT_REQ st }
             else nfs_goto STATE_LOOKUP_REQ st }
      else if NfsState st = STATE_UMOUNT_REQ then
        do { pkt \<leftarrow> packet;
             (r, st) \<leftarrow> nfs_umountall_reply pkt len st;
             if r \<noteq> 0
             then do { st \<leftarrow> puts (cstr (nfs_error ''Cannot umount'')) st; Some (st\<lparr>NetState := NETLOOP_FAIL\<rparr>) }
             else do { st \<leftarrow> puts (cstr ([CHR 0x0A] @ ''done'' @ [CHR 0x0A])) st;
                       Some (st\<lparr>NetState := NETLOOP_SUCCESS\<rparr>) } }
      else if NfsState st = STATE_LOOKUP_REQ then
        do { pkt \<leftarrow> packet;
             (r, st) \<leftarrow> nfs_lookup_reply pkt len st;
             if r \<noteq> 0 then do { st \<leftarrow> puts (cstr (nfs_error ''File lookup fail'')) st; nfs_goto STATE_UMOUNT_REQ st }
             else nfs_goto STATE_READ_REQ (st\<lparr>nfs_offset := 0, nfs_len := of_int NFS_READ_SIZE\<rparr>) }
      else if NfsState st = STATE_READLINK_REQ then
        do { pkt \<leftarrow> packet;
             (r, st) \<leftarrow> nfs_readlink_reply pkt len st;
             if r \<noteq> 0 then do { st \<leftarrow> puts (cstr (nfs_error ''Symlink fail'')) st; nfs_goto STATE_UMOUNT_REQ st }
             else do { st \<leftarrow> split_path st; nfs_goto STATE_MOUNT_REQ st } }
      else if NfsState st = STATE_READ_REQ then
        do { pkt \<leftarrow> packet;
             (rlen, st) \<leftarrow> nfs_read_reply pkt st;
             if rlen > 0 then NfsSend (st\<lparr>nfs_offset := nfs_offset st + of_int rlen\<rparr>)
             else if rlen = - NFSERR_ISDIR \<or> rlen = - NFSERR_INVAL then nfs_goto STATE_READLINK_REQ st
             else nfs_goto STATE_UMOUNT_REQ st }
      else Some st)"

definition nfs_timeout :: "'a nfs_scheme \<Rightarrow> 'a nfs_scheme option" where
  "nfs_timeout st =
     do { st \<leftarrow> puts (cstr (''Timeout'' @ [CHR 0x0A])) st; Some (st\<lparr>NetState := NETLOOP_FAIL\<rparr>) }"

section \<open>Starting\<close>

text \<open>The path and the server: the boot file may name the server in front of a colon.\<close>

definition nfs_name :: "'a nfs_scheme \<Rightarrow> 'a nfs_scheme option" where
  "nfs_name st =
     do { c \<leftarrow> load (BootFile st) 0;
          if c = NUL then
            do { let ip = htonl (NetOurIP st);
                 (name, _, _) \<leftarrow> vsprintf (default_filename st) (cstr ''/nfsroot/%02lX%02lX%02lX%02lX.img'')
                    [VWord (ip AND 0xFF), VWord (drop_bit 8 ip AND 0xFF), VWord (drop_bit 16 ip AND 0xFF),
                     VWord (drop_bit 24 ip AND 0xFF)];
                 p \<leftarrow> strcpy (nfs_path_buff st) name;
                 let st = st\<lparr>default_filename := name, nfs_path_buff := p\<rparr>;
                 printf (''*** Warning: no boot file name; using '' @ [CHR 0x27] @ ''%s'' @ [CHR 0x27, CHR 0x0A])
                   [VStr (Some p)] st }
          else
            do { colon \<leftarrow> strchr (BootFile st) (CHR '':'');
                 (case colon of
                    Some i \<Rightarrow>
                      do { ip \<leftarrow> string_to_ip (Some (BootFile st));
                           p \<leftarrow> strcpy (nfs_path_buff st) (drop (i + 1) (BootFile st));
                           Some (st\<lparr>NfsServerIP := ip, nfs_path_buff := p\<rparr>) }
                  | None \<Rightarrow>
                      do { p \<leftarrow> strcpy (nfs_path_buff st) (BootFile st);
                           Some (st\<lparr>nfs_path_buff := p\<rparr>) }) } }"

definition nfs_banner :: "'a nfs_scheme \<Rightarrow> 'a nfs_scheme option" where
  "nfs_banner st =
     do { st \<leftarrow> printf (''Using %s device'' @ [CHR 0x0A]) [VStr (Some (eth_get_name st))] st;
          st \<leftarrow> puts (cstr ''File transfer via NFS from server '') st;
          st \<leftarrow> print_IPaddr (NfsServerIP st) st;
          st \<leftarrow> puts (cstr ''; our IP address is '') st;
          st \<leftarrow> print_IPaddr (NetOurIP st) st;
          st \<leftarrow> (if NetOurGatewayIP st \<noteq> 0 \<and> NetOurSubnetMask st \<noteq> 0 \<and>
                   NetOurIP st AND NetOurSubnetMask st \<noteq> NetServerIP st AND NetOurSubnetMask st
                 then do { st \<leftarrow> puts (cstr ''; sending through gateway '') st;
                           print_IPaddr (NetOurGatewayIP st) st }
                 else Some st);
          st \<leftarrow> printf ([CHR 0x0A] @ ''Filename '' @ [CHR 0x27] @ ''%s/%s'' @ [CHR 0x27] @ ''.'')
                 [VStr (Some (nfs_path_buff st)), VStr (Some (drop (nfs_filename st) (nfs_path_buff st)))] st;
          st \<leftarrow> (if NetBootFileSize st \<noteq> 0
                 then do { let sz = push_bit 9 (ucast (NetBootFileSize st));
                           st \<leftarrow> printf '' Size is 0x%x Bytes = '' [VWord sz] st;
                           print_size sz (cstr '''') st }
                 else Some st);
          printf ([CHR 0x0A] @ ''Load address: 0x%lx'' @ [CHR 0x0A] @ ''Loading: *'' @ [CHR 0x08])
            [VWord (load_addr st)] st }"

definition NfsStart :: "'a nfs_scheme \<Rightarrow> 'a nfs_scheme option" where
  "NfsStart st =
     do { st \<leftarrow> nfs_name (st\<lparr>NfsServerIP := NetServerIP st\<rparr>);
          st \<leftarrow> split_path st;
          st \<leftarrow> nfs_banner st;
          let st = NetSetHandler NfsHandler (NetSetTimeout (NFS_TIMEOUT * CFG_HZ) NfsTimeout st);
          NfsSend (st\<lparr>NfsTimeoutCount := 0, NfsState := STATE_PRCLOOKUP_PROG_MOUNT_REQ, NfsOurPort := 1000,
                     NetServerEther := replicate 6 NUL\<rparr>) }"

end
