(* ===== verification/Bootp.thy ===== *)
theory Bootp
  imports Nfs
begin

text \<open>
  Getting an address: BOOTP and DHCP (\<open>net/bootp.c\<close>, built with DHCP, so that BOOTP requests also use
  the DHCP handler) and RARP (\<open>net/rarp.c\<close>).
\<close>

section \<open>The state\<close>

datatype dhcp_state_t = INIT | INIT_REBOOT | REBOOTING | SELECTING | REQUESTING | REBINDING | BOUND | RENEWING

record bootp = nfs +
  BootpID :: u32
  BootpTry :: int
  dhcp_state :: dhcp_state_t
  dhcp_leasetime :: u32
  NetDHCPServerIP :: u32
  NetOurDNSIP :: u32
  NetOurHostName :: buf
  NetOurRootPath :: buf
  NetOurNISDomain :: buf
  RarpTry :: int

definition BOOTP_VENDOR_MAGIC :: u32 where "BOOTP_VENDOR_MAGIC = 0x63825363"
definition BOOTP_TIMEOUT :: u32 where "BOOTP_TIMEOUT = 5"
definition BOOTP_TIMEOUT_COUNT :: int where "BOOTP_TIMEOUT_COUNT = 5"
definition SELECT_TIMEOUT :: u32 where "SELECT_TIMEOUT = 3"
definition RARP_TIMEOUT :: u32 where "RARP_TIMEOUT = 5"
definition RARP_TIMEOUT_COUNT :: int where "RARP_TIMEOUT_COUNT = 5"
definition PORT_BOOTPS :: u32 where "PORT_BOOTPS = 67"
definition PORT_BOOTPC :: u32 where "PORT_BOOTPC = 68"
definition CONFIG_DHCP_MIN_EXT_LEN :: nat where "CONFIG_DHCP_MIN_EXT_LEN = 64"
definition OPT_SIZE :: nat where "OPT_SIZE = 312"
definition BOOTP_HDR_SIZE :: nat where "BOOTP_HDR_SIZE = 548"
definition BOOTP_SIZE :: nat where "BOOTP_SIZE = ETHER_HDR_SIZE + IP_HDR_SIZE + BOOTP_HDR_SIZE"
definition PKTSIZE :: nat where "PKTSIZE = 1518"
definition OP_BOOTREQUEST :: nat where "OP_BOOTREQUEST = 1"
definition OP_BOOTREPLY :: nat where "OP_BOOTREPLY = 2"
definition HWT_ETHER :: nat where "HWT_ETHER = 1"
definition HWL_ETHER :: nat where "HWL_ETHER = 6"
definition DHCP_DISCOVER :: nat where "DHCP_DISCOVER = 1"
definition DHCP_OFFER :: nat where "DHCP_OFFER = 2"
definition DHCP_REQUEST :: nat where "DHCP_REQUEST = 3"
definition DHCP_ACK :: nat where "DHCP_ACK = 5"
definition DHCP_NAK :: nat where "DHCP_NAK = 6"

text \<open>The offsets of the fields of \<open>Bootp_t\<close>.\<close>

definition bp_id :: nat where "bp_id = 4"
definition bp_secs :: nat where "bp_secs = 8"
definition bp_ciaddr :: nat where "bp_ciaddr = 12"
definition bp_yiaddr :: nat where "bp_yiaddr = 16"
definition bp_siaddr :: nat where "bp_siaddr = 20"
definition bp_chaddr :: nat where "bp_chaddr = 28"
definition bp_file :: nat where "bp_file = 108"
definition bp_vend :: nat where "bp_vend = 236"

section \<open>Requests\<close>

definition DhcpExtended :: "nat \<Rightarrow> u32 \<Rightarrow> u32 \<Rightarrow> buf" where
  "DhcpExtended message_type server requested =
     (let e = [CHR 0x63, CHR 0x82, CHR 0x53, CHR 0x63, CHR 0x35, CHR 0x01, char_of message_type,
               CHR 0x39, CHR 0x02, char_of ((576 - 312 + OPT_SIZE) div 256), char_of ((576 - 312 + OPT_SIZE) mod 256)] @
              (if server \<noteq> 0 then [CHR 0x36, CHR 0x04] @ be32 (htonl server) else []) @
              (if requested \<noteq> 0 then [CHR 0x32, CHR 0x04] @ be32 (htonl requested) else []) @
              [CHR 0x37, CHR 0x04, CHR 0x01, CHR 0x03, CHR 0x0C, CHR 0x11, CHR 0xFF]
      in e @ replicate (Suc CONFIG_DHCP_MIN_EXT_LEN - length e) NUL)"

text \<open>The start of a request at \<open>bp\<close>: operation, hardware type and length, hop count, seconds.\<close>

definition bootp_head :: "u32 \<Rightarrow> buf \<Rightarrow> nat \<Rightarrow> buf option" where
  "bootp_head t b bp =
     do { b \<leftarrow> put b bp [char_of OP_BOOTREQUEST, char_of HWT_ETHER, char_of HWL_ETHER, NUL];
          put b (bp + bp_secs) (be16 (ucast (t div CFG_HZ))) }"

text \<open>The IP header, written last, and the sending of both requests.\<close>

definition bootp_transmit :: "buf \<Rightarrow> nat \<Rightarrow> nat \<Rightarrow> 'a bootp_scheme \<Rightarrow> (nat \<times> 'a bootp_scheme) option" where
  "bootp_transmit b iphdr ext_len st =
     do { let pktlen = BOOTP_SIZE - OPT_SIZE + ext_len;
          let iplen = BOOTP_HDR_SIZE - OPT_SIZE + ext_len;
          (b, st) \<leftarrow> NetSetIP b iphdr 0xFFFFFFFF (unat PORT_BOOTPS) (unat PORT_BOOTPC) iplen st;
          Some (pktlen, st\<lparr>NetTxPacket := b\<rparr>) }"

definition BootpRequest :: "'a bootp_scheme \<Rightarrow> 'a bootp_scheme option" where
  "BootpRequest st =
     do { let st = st\<lparr>dhcp_state := INIT, BootpTry := BootpTry st + 1\<rparr>;
          st \<leftarrow> printf (''BOOTP broadcast %d'' @ [CHR 0x0A]) [VWord (of_int (BootpTry st))] st;
          b \<leftarrow> memset (NetTxPacket st) NUL PKTSIZE;
          (b, iphdr) \<leftarrow> NetSetEther b NetBcastAddr PROT_IP st;
          let bp = iphdr + IP_HDR_SIZE;
          let (t, st) = get_timer 0 st;
          b \<leftarrow> bootp_head t b bp;
          b \<leftarrow> put b (bp + bp_ciaddr) (replicate 16 NUL);
          mac \<leftarrow> get_bytes (NetOurEther st) 0 6;
          b \<leftarrow> put b (bp + bp_chaddr) mac;
          name \<leftarrow> get_bytes b (bp + bp_file) 128;
          name \<leftarrow> copy_filename name (BootFile st) 128;
          b \<leftarrow> put b (bp + bp_file) name;
          let ext = DhcpExtended DHCP_DISCOVER 0 0;
          b \<leftarrow> put b (bp + bp_vend) ext;
          id \<leftarrow> rd_be32 (drop 2 mac);
          let (t, st) = get_timer 0 st;
          let st = st\<lparr>BootpID := htonl (id + t)\<rparr>;
          b \<leftarrow> put b (bp + bp_id) (le32 (BootpID st));
          (pktlen, st) \<leftarrow> bootp_transmit b iphdr (length ext) st;
          let st = NetSetHandler DhcpHandler ((NetSetTimeout (SELECT_TIMEOUT * CFG_HZ) BootpTimeout st)\<lparr>dhcp_state := SELECTING\<rparr>);
          NetSendPacket (NetTxPacket st) pktlen st }"

definition DhcpRequest :: "'a bootp_scheme \<Rightarrow> 'a bootp_scheme option" where
  "DhcpRequest st = BootpRequest st"

definition DhcpSendRequestPkt :: "buf \<Rightarrow> 'a bootp_scheme \<Rightarrow> 'a bootp_scheme option" where
  "DhcpSendRequestPkt offer st =
     do { b \<leftarrow> memset (NetTxPacket st) NUL PKTSIZE;
          (b, iphdr) \<leftarrow> NetSetEther b NetBcastAddr PROT_IP st;
          let bp = iphdr + IP_HDR_SIZE;
          let (t, st) = get_timer 0 st;
          b \<leftarrow> bootp_head t b bp;
          addrs \<leftarrow> get_bytes offer bp_ciaddr 16;
          b \<leftarrow> put b (bp + bp_ciaddr) addrs;
          mac \<leftarrow> get_bytes (NetOurEther st) 0 6;
          b \<leftarrow> put b (bp + bp_chaddr) mac;
          id \<leftarrow> get_bytes offer bp_id 4;
          b \<leftarrow> put b (bp + bp_id) id;
          offered \<leftarrow> rd_le32 (drop (bp + bp_yiaddr) b);
          let ext = DhcpExtended DHCP_REQUEST (NetDHCPServerIP st) offered;
          b \<leftarrow> put b (bp + bp_vend) ext;
          (pktlen, st) \<leftarrow> bootp_transmit b iphdr (length ext) st;
          NetSendPacket (NetTxPacket st) pktlen st }"

section \<open>Replies\<close>

definition BootpCheckPkt :: "buf option \<Rightarrow> u32 \<Rightarrow> u32 \<Rightarrow> u32 \<Rightarrow> 'a bootp_scheme \<Rightarrow> int option" where
  "BootpCheckPkt packet dest src len st =
     (if dest \<noteq> PORT_BOOTPC \<or> src \<noteq> PORT_BOOTPS then Some (-1)
      else if len < of_nat (BOOTP_HDR_SIZE - OPT_SIZE) then Some (-2)
      else
        do { bp \<leftarrow> packet;
             oper \<leftarrow> load bp 0;
             if code oper \<notin> {OP_BOOTREQUEST, OP_BOOTREPLY, DHCP_OFFER, DHCP_ACK, DHCP_NAK} then Some (-3)
             else
               do { htype \<leftarrow> load bp 1;
                    if code htype \<noteq> HWT_ETHER then Some (-4)
                    else
                      do { hlen \<leftarrow> load bp 2;
                           if code hlen \<noteq> HWL_ETHER then Some (-5)
                           else
                             do { id \<leftarrow> rd_le32 (drop bp_id bp);
                                  Some (if id \<noteq> BootpID st then -6 else 0) } } } })"

definition BootpCopyNetParams :: "(u32 \<Rightarrow> int) \<Rightarrow> buf \<Rightarrow> 'a bootp_scheme \<Rightarrow> 'a bootp_scheme option" where
  "BootpCopyNetParams start bp st =
     do { yiaddr \<leftarrow> rd_le32 (drop bp_yiaddr bp);
          siaddr \<leftarrow> rd_le32 (drop bp_siaddr bp);
          mac \<leftarrow> get_bytes (NetRxPkt st) 6 6;
          let st = st\<lparr>NetOurIP := yiaddr, NetServerIP := (if siaddr \<noteq> 0 then siaddr else NetServerIP st),
                     NetServerEther := mac\<rparr>;
          n \<leftarrow> strlen (drop bp_file bp);
          name \<leftarrow> (if n > 0 then copy_filename (BootFile st) (drop bp_file bp) 128 else Some (BootFile st));
          let st = st\<lparr>BootFile := name\<rparr>;
          c \<leftarrow> load name 0;
          if c \<noteq> NUL then on_board (setenv start (cstr ''bootfile'') (Some name)) st else Some st }"

definition truncate_sz :: "string \<Rightarrow> nat \<Rightarrow> nat \<Rightarrow> 'a console_scheme \<Rightarrow> (nat \<times> 'a console_scheme) option" where
  "truncate_sz name maxlen curlen st =
     (if curlen \<ge> maxlen then
        do { st \<leftarrow> printf (''*** WARNING: %s is too long (%d - max: %d) - truncated'' @ [CHR 0x0A])
                    [VStr (Some (cstr name)), VWord (of_nat curlen), VWord (of_nat maxlen)] st;
             Some (maxlen - 1, st) }
      else Some (curlen, st))"

text \<open>A string option is copied to a field of \<open>n\<close> bytes and terminated.\<close>

definition string_option :: "string \<Rightarrow> buf \<Rightarrow> buf \<Rightarrow> nat \<Rightarrow> 'a console_scheme \<Rightarrow> (buf \<times> 'a console_scheme) option" where
  "string_option name field popt oplen st =
     do { (n, st) \<leftarrow> truncate_sz name (length field) oplen st;
          data \<leftarrow> get_bytes popt 2 n;
          field \<leftarrow> put field 0 data;
          field \<leftarrow> store field n NUL;
          Some (field, st) }"

definition dhcp_option :: "buf \<Rightarrow> 'a bootp_scheme \<Rightarrow> 'a bootp_scheme option" where
  "dhcp_option popt st =
     do { c \<leftarrow> load popt 0;
          oplen \<leftarrow> load popt 1;
          if code c = 1 then do { ip \<leftarrow> rd_le32 (drop 2 popt); Some (st\<lparr>NetOurSubnetMask := ip\<rparr>) }
          else if code c = 3 then do { ip \<leftarrow> rd_le32 (drop 2 popt); Some (st\<lparr>NetOurGatewayIP := ip\<rparr>) }
          else if code c = 6 then do { ip \<leftarrow> rd_le32 (drop 2 popt); Some (st\<lparr>NetOurDNSIP := ip\<rparr>) }
          else if code c = 12 then
            do { (field, st) \<leftarrow> string_option ''Host Name'' (NetOurHostName st) popt (code oplen) st;
                 Some (st\<lparr>NetOurHostName := field\<rparr>) }
          else if code c = 15 then Some st
          else if code c = 17 then
            do { (field, st) \<leftarrow> string_option ''Root Path'' (NetOurRootPath st) popt (code oplen) st;
                 Some (st\<lparr>NetOurRootPath := field\<rparr>) }
          else if code c = 51 then do { t \<leftarrow> rd_le32 (drop 2 popt); Some (st\<lparr>dhcp_leasetime := t\<rparr>) }
          else if code c = 53 then Some st
          else if code c = 54 then do { ip \<leftarrow> rd_le32 (drop 2 popt); Some (st\<lparr>NetDHCPServerIP := ip\<rparr>) }
          else if code c = 58 \<or> code c = 59 then Some st
          else printf (''*** Unhandled DHCP Option in OFFER/ACK: %d'' @ [CHR 0x0A]) [VWord (of_nat (code c))] st }"

text \<open>\<open>n\<close> is the distance to the end.\<close>

function dhcp_options :: "buf \<Rightarrow> nat \<Rightarrow> 'a bootp_scheme \<Rightarrow> 'a bootp_scheme option" where
  "dhcp_options popt n st =
     (if n = 0 then Some st
      else
        do { c \<leftarrow> load popt 0;
             if c = CHR 0xFF then Some st
             else
               do { oplen \<leftarrow> load popt 1;
                    st \<leftarrow> dhcp_option popt st;
                    dhcp_options (drop (code oplen + 2) popt) (n - (code oplen + 2)) st } })"
  by pat_completeness auto
termination by (relation "measure (\<lambda>(_, n, _). n)") auto

declare dhcp_options.simps [simp del]

definition DhcpOptionsProcess :: "buf \<Rightarrow> 'a bootp_scheme \<Rightarrow> 'a bootp_scheme option" where
  "DhcpOptionsProcess popt st = dhcp_options popt BOOTP_HDR_SIZE st"

function scan_options :: "buf \<Rightarrow> int option" where
  "scan_options popt =
     do { c \<leftarrow> load popt 0;
          if c = CHR 0xFF then Some (-1)
          else if code c = 53 then map_option ichar (load popt 2)
          else do { n \<leftarrow> load popt 1; scan_options (drop (code n + 2) popt) } }"
  by pat_completeness auto
termination by (relation "measure length") (auto simp: load_def split: if_splits)

declare scan_options.simps [simp del]

definition DhcpMessageType :: "buf \<Rightarrow> int option" where
  "DhcpMessageType popt =
     do { magic \<leftarrow> rd_le32 popt;
          if magic \<noteq> htonl BOOTP_VENDOR_MAGIC then Some (-1) else scan_options (drop 4 popt) }"

text \<open>The options of a reply, behind their magic number.\<close>

definition reply_options :: "buf \<Rightarrow> 'a bootp_scheme \<Rightarrow> 'a bootp_scheme option" where
  "reply_options bp st =
     do { magic \<leftarrow> rd_le32 (drop bp_vend bp);
          if magic = htonl BOOTP_VENDOR_MAGIC then DhcpOptionsProcess (drop (bp_vend + 4) bp) st else Some st }"

text \<open>The setting of \<open>autoload\<close> decides what is started when the address is known.\<close>

definition autoload :: "'a bootp_scheme \<Rightarrow> 'a bootp_scheme option" where
  "autoload st =
     do { s \<leftarrow> getenv (cstr ''autoload'') (board.truncate st);
          (case s of
             None \<Rightarrow> TftpStart st
           | Some s \<Rightarrow>
               do { c \<leftarrow> load s 0;
                    if c = CHR ''n'' then Some (st\<lparr>NetState := NETLOOP_SUCCESS\<rparr>)
                    else do { r \<leftarrow> strcmp s (cstr ''NFS''); if r = 0 then NfsStart st else TftpStart st } }) }"

definition dhcp_handler ::
  "(u32 \<Rightarrow> int) \<Rightarrow> buf option \<Rightarrow> u32 \<Rightarrow> u32 \<Rightarrow> u32 \<Rightarrow> 'a bootp_scheme \<Rightarrow> 'a bootp_scheme option" where
  "dhcp_handler start packet dest src len st =
     do { r \<leftarrow> BootpCheckPkt packet dest src len st;
          if r \<noteq> 0 then Some st
          else
            do { bp \<leftarrow> packet;
                 if dhcp_state st = SELECTING then
                   do { st \<leftarrow> reply_options bp (st\<lparr>dhcp_state := REQUESTING\<rparr>);
                        st \<leftarrow> BootpCopyNetParams start bp st;
                        DhcpSendRequestPkt bp (NetSetTimeout (BOOTP_TIMEOUT * CFG_HZ) BootpTimeout st) }
                 else if dhcp_state st = REQUESTING then
                   do { t \<leftarrow> DhcpMessageType (drop bp_vend bp);
                        if t = int DHCP_ACK then
                          do { st \<leftarrow> reply_options bp st;
                               st \<leftarrow> BootpCopyNetParams start bp st;
                               st \<leftarrow> puts (cstr ''DHCP client bound to address '') (st\<lparr>dhcp_state := BOUND\<rparr>);
                               st \<leftarrow> print_IPaddr (NetOurIP st) st;
                               st \<leftarrow> putc (CHR 0x0A) st;
                               autoload st }
                        else Some st }
                 else puts (cstr (''DHCP: INVALID STATE'' @ [CHR 0x0A])) st } }"

definition retry_exceeded :: string where
  "retry_exceeded = [CHR 0x0A] @ ''Retry count exceeded; starting again'' @ [CHR 0x0A]"

definition bootp_timeout :: "(u32 \<Rightarrow> int) \<Rightarrow> 'a bootp_scheme \<Rightarrow> 'a bootp_scheme option" where
  "bootp_timeout start st =
     (if BootpTry st \<ge> BOOTP_TIMEOUT_COUNT then
        do { st \<leftarrow> puts (cstr retry_exceeded) st; NetStartAgain start st }
      else BootpRequest (NetSetTimeout (BOOTP_TIMEOUT * CFG_HZ) BootpTimeout st))"

section \<open>RARP\<close>

text \<open>The handler ignores its arguments.\<close>

definition rarp_handler :: "'a bootp_scheme \<Rightarrow> 'a bootp_scheme option" where
  "rarp_handler st = autoload st"

definition RarpRequest :: "'a bootp_scheme \<Rightarrow> 'a bootp_scheme option" where
  "RarpRequest st =
     do { let st = st\<lparr>RarpTry := RarpTry st + 1\<rparr>;
          st \<leftarrow> printf (''RARP broadcast %d'' @ [CHR 0x0A]) [VWord (of_int (RarpTry st))] st;
          (b, pkt) \<leftarrow> NetSetEther (NetTxPacket st) NetBcastAddr PROT_RARP st;
          mac \<leftarrow> get_bytes (NetOurEther st) 0 6;
          b \<leftarrow> put b pkt (arp_packet RARPOP_REQUEST (mac @ le32 (NetOurIP st) @ mac @ replicate 4 (CHR 0xFF)));
          st \<leftarrow> NetSendPacket b (pkt + ARP_HDR_SIZE) (st\<lparr>NetTxPacket := b\<rparr>);
          Some (NetSetHandler RarpHandler (NetSetTimeout (RARP_TIMEOUT * CFG_HZ) RarpTimeout st)) }"

definition rarp_timeout :: "(u32 \<Rightarrow> int) \<Rightarrow> 'a bootp_scheme \<Rightarrow> 'a bootp_scheme option" where
  "rarp_timeout start st =
     (if RarpTry st \<ge> RARP_TIMEOUT_COUNT then
        do { st \<leftarrow> puts (cstr retry_exceeded) st; NetStartAgain start st }
      else RarpRequest (NetSetTimeout (RARP_TIMEOUT * CFG_HZ) RarpTimeout st))"

end
