(* ===== verification/Net_Loop.thy ===== *)
theory Net_Loop
  imports Bootp
begin

text \<open>
  The main loop of the network code (\<open>NetLoop\<close> and its helpers in \<open>net/net.c\<close>), where the handlers
  are tied to the protocols, and the commands that use it (\<open>common/cmd_net.c\<close>).
\<close>

datatype proto_t = BOOTP | RARP | ARP | TFTP | DHCP | PING | DNS | NFS | CDP

section \<open>Handlers\<close>

text \<open>\<open>(*packetHandler) (\<dots>)\<close> and \<open>(*x) ()\<close> for a timeout.\<close>

fun rx_call :: "(u32 \<Rightarrow> int) \<Rightarrow> rxhand \<Rightarrow> buf option \<Rightarrow> u32 \<Rightarrow> u32 \<Rightarrow> u32 \<Rightarrow> bootp \<Rightarrow> bootp option" where
  "rx_call start startAgainHandler pkt dest src len st = Some st"
| "rx_call start PingHandler pkt dest src len st = ping_handler pkt st"
| "rx_call start TftpHandler pkt dest src len st = tftp_handler start pkt dest src len st"
| "rx_call start DhcpHandler pkt dest src len st = dhcp_handler start pkt dest src len st"
| "rx_call start RarpHandler pkt dest src len st = rarp_handler st"
| "rx_call start NfsHandler pkt dest src len st = nfs_handler pkt dest src len st"

fun time_call :: "(u32 \<Rightarrow> int) \<Rightarrow> thand \<Rightarrow> bootp \<Rightarrow> bootp option" where
  "time_call start startAgainTimeout st = Some (st\<lparr>NetState := NETLOOP_RESTART\<rparr>)"
| "time_call start PingTimeout st = Some (ping_timeout st)"
| "time_call start TftpTimeout st = tftp_timeout start st"
| "time_call start BootpTimeout st = bootp_timeout start st"
| "time_call start RarpTimeout st = rarp_timeout start st"
| "time_call start NfsTimeout st = nfs_timeout st"

text \<open>
  \<open>eth_rx\<close>: the driver hands the packets that have arrived since the last call to \<open>NetReceive\<close>;
  when \<open>eth_in\<close> is used up, no more packets arrive.
\<close>

fun receive_all :: "(u32 \<Rightarrow> int) \<Rightarrow> (buf \<times> int) list \<Rightarrow> bootp \<Rightarrow> bootp option" where
  "receive_all start [] st = Some st"
| "receive_all start ((pkt, len) # ps) st =
     do { st \<leftarrow> NetReceive (rx_call start) pkt len st; receive_all start ps st }"

definition eth_rx :: "(u32 \<Rightarrow> int) \<Rightarrow> bootp \<Rightarrow> bootp option" where
  "eth_rx start st =
     (if eth_current st = None then Some st
      else case eth_in st of [] \<Rightarrow> Some st
        | ps # rest \<Rightarrow> receive_all start ps (st\<lparr>eth_in := rest\<rparr>))"

section \<open>Starting a protocol\<close>

definition net_error :: "string \<Rightarrow> string" where
  "net_error s = ''*** ERROR: '' @ s @ [CHR 0x0A]"

definition check_ether :: "(u32 \<Rightarrow> int) \<Rightarrow> bootp \<Rightarrow> (int \<times> bootp) option" where
  "check_ether start st =
     do { null \<leftarrow> memcmp (NetOurEther st) NetEtherNullAddr 6;
          if null \<noteq> 0 then Some (0, st)
          else
            do { num \<leftarrow> eth_get_dev_index st;
                 if num = -1 then
                   do { st \<leftarrow> puts (cstr (net_error ''No ethernet found.'')) st; Some (1, st) }
                 else
                   do { st \<leftarrow> (if num = 0
                               then puts (cstr (net_error ([CHR 0x60] @ ''ethaddr'' @ [CHR 0x27] @ '' not set''))) st
                               else printf (net_error ([CHR 0x60] @ ''eth%daddr'' @ [CHR 0x27] @ '' not set''))
                                      [VWord (of_int num)] st);
                        st \<leftarrow> NetStartAgain start st;
                        Some (2, st) } } }"

definition check_own_ip :: "(u32 \<Rightarrow> int) \<Rightarrow> bootp \<Rightarrow> (int \<times> bootp) option" where
  "check_own_ip start st =
     (if NetOurIP st = 0 then
        do { st \<leftarrow> puts (cstr (net_error ([CHR 0x60] @ ''ipaddr'' @ [CHR 0x27] @ '' not set''))) st; Some (1, st) }
      else check_ether start st)"

definition check_server_ip :: "(u32 \<Rightarrow> int) \<Rightarrow> bootp \<Rightarrow> (int \<times> bootp) option" where
  "check_server_ip start st =
     (if NetServerIP st = 0 then
        do { st \<leftarrow> puts (cstr (net_error ([CHR 0x60] @ ''serverip'' @ [CHR 0x27] @ '' not set''))) st; Some (1, st) }
      else check_own_ip start st)"

fun net_check_prereq :: "(u32 \<Rightarrow> int) \<Rightarrow> proto_t \<Rightarrow> bootp \<Rightarrow> (int \<times> bootp) option" where
  "net_check_prereq start PING st =
     (if NetPingIP st = 0 then
        do { st \<leftarrow> puts (cstr (net_error ''ping address not given'')) st; Some (1, st) }
      else check_own_ip start st)"
| "net_check_prereq start NFS st = check_server_ip start st"
| "net_check_prereq start TFTP st = check_server_ip start st"
| "net_check_prereq start DHCP st = check_ether start st"
| "net_check_prereq start RARP st = check_ether start st"
| "net_check_prereq start BOOTP st = check_ether start st"
| "net_check_prereq start CDP st = check_ether start st"
| "net_check_prereq start ARP st = Some (0, st)"
| "net_check_prereq start DNS st = Some (0, st)"

definition net_vlans :: "bootp \<Rightarrow> bootp option" where
  "net_vlans st =
     do { v \<leftarrow> getenv_VLAN (cstr ''vlan'') (board.truncate st);
          n \<leftarrow> getenv_VLAN (cstr ''nvlan'') (board.truncate st);
          Some (st\<lparr>NetOurVLAN := v, NetOurNativeVLAN := n\<rparr>) }"

definition net_server :: "bootp \<Rightarrow> bootp option" where
  "net_server st =
     do { ip \<leftarrow> getenv_IPaddr (cstr ''serverip'') (board.truncate st); Some (st\<lparr>NetServerIP := ip\<rparr>) }"

text \<open>The first \<open>switch (protocol)\<close>: the addresses from the environment.\<close>

definition net_addresses :: "proto_t \<Rightarrow> bootp \<Rightarrow> bootp option" where
  "net_addresses protocol st =
     (if protocol \<in> {NFS, PING, TFTP} then
        do { gw \<leftarrow> getenv_IPaddr (cstr ''gatewayip'') (board.truncate st);
             mask \<leftarrow> getenv_IPaddr (cstr ''netmask'') (board.truncate st);
             st \<leftarrow> net_vlans (st\<lparr>NetOurIP := bi_ip_addr st, NetOurGatewayIP := gw, NetOurSubnetMask := mask\<rparr>);
             if protocol = PING then Some st else net_server st }
      else if protocol \<in> {BOOTP, RARP} then
        do { st \<leftarrow> net_server (st\<lparr>NetOurIP := 0\<rparr>); st \<leftarrow> net_vlans st; net_vlans st }
      else if protocol = CDP then net_vlans st
      else Some st)"

fun net_start :: "proto_t \<Rightarrow> bootp \<Rightarrow> bootp option" where
  "net_start TFTP st = TftpStart st"
| "net_start DHCP st = do { st \<leftarrow> net_server (st\<lparr>NetOurIP := 0\<rparr>); DhcpRequest st }"
| "net_start BOOTP st = BootpRequest (st\<lparr>BootpTry := 0\<rparr>)"
| "net_start RARP st = RarpRequest (st\<lparr>RarpTry := 0\<rparr>)"
| "net_start PING st = PingStart st"
| "net_start NFS st = NfsStart st"
| "net_start CDP st = Some st"
| "net_start ARP st = Some st"
| "net_start DNS st = Some st"

text \<open>
  From the label \<open>restart\<close> to the loop.  The result \<open>Some r\<close> is a return of \<open>NetLoop\<close>.
\<close>

definition net_restart :: "(u32 \<Rightarrow> int) \<Rightarrow> proto_t \<Rightarrow> bootp \<Rightarrow> (int option \<times> bootp) option" where
  "net_restart start protocol st =
     do { dev \<leftarrow> cur_dev st;
          mac \<leftarrow> get_bytes (enetaddr dev) 0 6;
          st \<leftarrow> net_addresses protocol (st\<lparr>NetOurEther := mac, NetState := NETLOOP_CONTINUE\<rparr>);
          (c, st) \<leftarrow> net_check_prereq start protocol st;
          if c = 1 then Some (Some (-1), st)
          else if c = 2 then Some (None, st)
          else
            do { st \<leftarrow> net_start protocol (st\<lparr>NetDevExists := True\<rparr>);
                 Some (None, st\<lparr>NetBootFileXferSize := 0\<rparr>) } }"

section \<open>The loop\<close>

definition net_timeout :: "(u32 \<Rightarrow> int) \<Rightarrow> bootp \<Rightarrow> bootp option" where
  "net_timeout start st =
     (case timeHandler st of None \<Rightarrow> Some st
      | Some x \<Rightarrow>
          let (t, st) = get_timer 0 st
          in if t - timeStart st > timeDelta st then time_call start x (st\<lparr>timeHandler := None\<rparr>) else Some st)"

definition net_success :: "(u32 \<Rightarrow> int) \<Rightarrow> bootp \<Rightarrow> (int \<times> bootp) option" where
  "net_success start st =
     do { st \<leftarrow> (if NetBootFileXferSize st > 0 then
                  do { let n = NetBootFileXferSize st;
                       st \<leftarrow> printf (''Bytes transferred = %ld (%lx hex)'' @ [CHR 0x0A]) [VWord n, VWord n] st;
                       (b, _, _) \<leftarrow> vsprintf (replicate 10 NUL) (cstr ''%lx'') [VWord n];
                       st \<leftarrow> on_board (setenv start (cstr ''filesize'') (Some b)) st;
                       (b, _, _) \<leftarrow> vsprintf b (cstr ''%lX'') [VWord (load_addr st)];
                       on_board (setenv start (cstr ''fileaddr'') (Some b)) st }
                else Some st);
          let st = eth_halt st;
          Some (sint (NetBootFileXferSize st), st) }"

text \<open>One round; \<open>Some r\<close> is a return of \<open>NetLoop\<close>.\<close>

definition net_round :: "(u32 \<Rightarrow> int) \<Rightarrow> proto_t \<Rightarrow> bootp \<Rightarrow> (int option \<times> bootp) option" where
  "net_round start protocol st =
     do { st \<leftarrow> eth_rx start st;
          (c, st) \<leftarrow> ctrlc st;
          if c then
            do { st \<leftarrow> puts (cstr ([CHR 0x0A] @ ''Abort'' @ [CHR 0x0A])) (eth_halt st); Some (Some (-1), st) }
          else
            do { st \<leftarrow> ArpTimeoutCheck start st;
                 st \<leftarrow> net_timeout start st;
                 if NetState st = NETLOOP_RESTART then net_restart start protocol (st\<lparr>NetRestarted := True\<rparr>)
                 else if NetState st = NETLOOP_SUCCESS then
                   do { (r, st) \<leftarrow> net_success start st; Some (Some r, st) }
                 else if NetState st = NETLOOP_FAIL then Some (Some (-1), st)
                 else Some (None, st) } }"

partial_function (option) net_rounds :: "(u32 \<Rightarrow> int) \<Rightarrow> proto_t \<Rightarrow> bootp \<Rightarrow> (int \<times> bootp) option" where
  "net_rounds start protocol st =
     do { (r, st) \<leftarrow> net_round start protocol st;
          (case r of Some r \<Rightarrow> Some (r, st) | None \<Rightarrow> net_rounds start protocol st) }"

definition NetLoop :: "(u32 \<Rightarrow> int) \<Rightarrow> proto_t \<Rightarrow> bootp \<Rightarrow> (int \<times> bootp) option" where
  "NetLoop start protocol st =
     do { let st = st\<lparr>NetRestarted := False, NetDevExists := False, NetArpWaitPacketMAC := None,
                     NetArpWaitPacketIP := 0, NetArpWaitReplyIP := 0, NetArpWaitTxPacketSize := 0\<rparr>;
          st \<leftarrow> on_board (eth_set_current start) (eth_halt st);
          (r, st) \<leftarrow> eth_init start st;
          if r < 0 then Some (-1, st)
          else
            do { (r, st) \<leftarrow> net_restart start protocol st;
                 (case r of Some r \<Rightarrow> Some (r, st) | None \<Rightarrow> net_rounds start protocol st) } }"

section \<open>Commands\<close>

definition save_ip :: "(u32 \<Rightarrow> int) \<Rightarrow> string \<Rightarrow> u32 \<Rightarrow> bootp \<Rightarrow> bootp option" where
  "save_ip start name ip st =
     (if ip \<noteq> 0 then
        do { tmp \<leftarrow> ip_to_string ip (replicate 22 NUL);
             on_board (setenv start (cstr name) (Some tmp)) st }
      else Some st)"

definition save_string :: "(u32 \<Rightarrow> int) \<Rightarrow> string \<Rightarrow> buf \<Rightarrow> bootp \<Rightarrow> bootp option" where
  "save_string start name s st =
     do { c \<leftarrow> load s 0;
          if c \<noteq> NUL then on_board (setenv start (cstr name) (Some s)) st else Some st }"

definition netboot_update_env :: "(u32 \<Rightarrow> int) \<Rightarrow> bootp \<Rightarrow> bootp option" where
  "netboot_update_env start st =
     do { st \<leftarrow> save_ip start ''gatewayip'' (NetOurGatewayIP st) st;
          st \<leftarrow> save_ip start ''netmask'' (NetOurSubnetMask st) st;
          st \<leftarrow> save_string start ''hostname'' (NetOurHostName st) st;
          st \<leftarrow> save_string start ''rootpath'' (NetOurRootPath st) st;
          st \<leftarrow> save_ip start ''ipaddr'' (NetOurIP st) st;
          st \<leftarrow> save_ip start ''serverip'' (NetServerIP st) st;
          st \<leftarrow> save_ip start ''dnsip'' (NetOurDNSIP st) st;
          save_string start ''domain'' (NetOurNISDomain st) st }"

text \<open>The load address and the boot file from the arguments; \<open>None\<close> inside is a wrong number of them.\<close>

definition netboot_args :: "buf list \<Rightarrow> bootp \<Rightarrow> bootp option option" where
  "netboot_args argv st =
     do { s \<leftarrow> getenv (cstr ''loadaddr'') (board.truncate st);
          st \<leftarrow> (case s of None \<Rightarrow> Some st
                | Some s \<Rightarrow> do { (a, _) \<leftarrow> simple_strtoul s 16; Some (st\<lparr>load_addr := a\<rparr>) });
          (case argv of
             [_] \<Rightarrow> Some (Some st)
           | [_, arg] \<Rightarrow>
               do { c \<leftarrow> load arg 0;
                    if c = CHR 0x22
                    then do { f \<leftarrow> copy_filename (BootFile st) arg 128; Some (Some (st\<lparr>BootFile := f\<rparr>)) }
                    else do { (a, _) \<leftarrow> simple_strtoul arg 16; Some (Some (st\<lparr>load_addr := a\<rparr>)) } }
           | [_, addr, name] \<Rightarrow>
               do { (a, _) \<leftarrow> simple_strtoul addr 16;
                    f \<leftarrow> copy_filename (BootFile st) name 128;
                    Some (Some (st\<lparr>load_addr := a, BootFile := f\<rparr>)) }
           | _ \<Rightarrow> Some None) }"

text \<open>\<open>bootm\<close> is the command that boots the loaded image.\<close>

definition netboot_common ::
  "(u32 \<Rightarrow> int) \<Rightarrow> (bootp \<Rightarrow> (int \<times> bootp) option) \<Rightarrow> proto_t \<Rightarrow> cmd_tbl \<Rightarrow> buf list \<Rightarrow> bootp \<Rightarrow>
     (int \<times> bootp) option" where
  "netboot_common start bootm proto cmdtp argv st =
     do { args \<leftarrow> netboot_args argv st;
          (case args of
             None \<Rightarrow>
               do { st \<leftarrow> printf (''Usage:'' @ [CHR 0x0A] @ ''%s'' @ [CHR 0x0A])
                           [VStr (map_option cstr (cmd_usage cmdtp))] st;
                    Some (1, st) }
           | Some st \<Rightarrow>
               do { (n, st) \<leftarrow> NetLoop start proto st;
                    if n < 0 then Some (1, st)
                    else
                      do { st \<leftarrow> netboot_update_env start st;
                           if n = 0 then Some (0, st)
                           else
                             do { s \<leftarrow> getenv (cstr ''autostart'') (board.truncate st);
                                  yes \<leftarrow> (case s of None \<Rightarrow> Some False
                                         | Some s \<Rightarrow> map_option (\<lambda>r. r = 0) (strcmp s (cstr ''yes'')));
                                  if yes then
                                    do { st \<leftarrow> printf (''Automatic boot of image at addr 0x%08lX ...'' @ [CHR 0x0A])
                                                [VWord (load_addr st)] st;
                                         bootm st }
                                  else Some (0, st) } } }) }"

definition do_ping :: "(u32 \<Rightarrow> int) \<Rightarrow> cmd_tbl \<Rightarrow> buf list \<Rightarrow> bootp \<Rightarrow> (int \<times> bootp) option" where
  "do_ping start cmdtp argv st =
     (if length argv < 2 then Some (-1, st)
      else
        do { host \<leftarrow> load argv 1;
             ip \<leftarrow> string_to_ip (Some host);
             let st = st\<lparr>NetPingIP := ip\<rparr>;
             if ip = 0 then
               do { st \<leftarrow> printf (''Usage:'' @ [CHR 0x0A] @ ''%s'' @ [CHR 0x0A])
                           [VStr (map_option cstr (cmd_usage cmdtp))] st;
                    Some (-1, st) }
             else
               do { (r, st) \<leftarrow> NetLoop start PING st;
                    if r < 0 then
                      do { st \<leftarrow> printf (''ping failed; host %s is not alive'' @ [CHR 0x0A]) [VStr (Some host)] st;
                           Some (1, st) }
                    else
                      do { st \<leftarrow> printf (''host %s is alive'' @ [CHR 0x0A]) [VStr (Some host)] st;
                           Some (0, st) } } })"

end
