(* ===== verification/Net_Loop_Props.thy ===== *)
theory Net_Loop_Props
  imports Net_Loop Tftp_Props
begin

text \<open>
  What \<open>NetLoop\<close> does with a whole transfer (\<open>Net_Loop\<close>): the rounds receive the packets, the file
  is in memory, and the environment says its size and its address.
\<close>

section \<open>Values that are longer than their text\<close>

lemma copy_str_buffer: "nonul s \<Longrightarrow> copy_str d k (s @ NUL # r) = copy_str d k (cstr s)"
  by (induction s arbitrary: d k) (simp_all add: cstr_def)

lemma append_entry_buffer:
  "nonul s \<Longrightarrow> append_entry d name [s @ NUL # r] = append_entry d name [cstr s]"
proof -
  assume s: "nonul s"
  have c: "copy_args d k c [s @ NUL # r] = copy_args d k c [cstr s]" for d k c
    by (simp add: copy_str_buffer [OF s])
  show ?thesis
    unfolding append_entry_def c by (simp add: strlen_append strlen_cstr s)
qed

lemma setenv_delete_plain:
  "plain_name name \<Longrightarrow> setenv_delete start argc (cstr name) x env nxt st = setenv_delete start argc (cstr name) y env nxt st"
  unfolding setenv_delete_def by (simp only: setenv_console_plain setenv_baudrate_plain bind.bind_lunit prod.case)

lemma setenv_buffer:
  assumes "plain_name name" "nonul s"
  shows "setenv start (cstr name) (Some (s @ NUL # r)) st = setenv start (cstr name) (Some (cstr s)) st"
proof -
  have d: "setenv_delete start 3 (cstr name) (Some (s @ NUL # r)) =
      setenv_delete start 3 (cstr name) (Some (cstr s))"
    by (intro ext setenv_delete_plain assms)
  have e: "setenv_ethaddr (cstr name) x = Some" "setenv_effects (cstr name) v = Some" for x v
    by (intro ext setenv_ethaddr_plain setenv_effects_plain assms)+
  show ?thesis
    unfolding setenv_def do_setenv0_def by (simp add: e append_entry_buffer assms cong: if_cong) (simp only: d)
qed

lemma flat_filter: "length (flat (filter P es)) \<le> length (flat es)"
  by (induction es) (auto simp: flat_def)

text \<open>\<open>setenv\<close> of a value that fits.\<close>

lemma setenv_fits:
  assumes "env_ok b" "env_entries b es" "plain_name name" "nonul s"
    "length (flat es) + length name + length s + 3 \<le> ENV_SIZE b"
  shows "\<exists>b'. setenv start (cstr name) (Some (s @ NUL # r)) b = Some b' \<and> env_ok b' \<and> crc_ok b' \<and>
    ENV_SIZE b' = ENV_SIZE b \<and> load_addr b' = load_addr b \<and> env_entries b' (filter (\<lambda>p. fst p \<noteq> name) es @ [(name, s)])"
proof -
  have "\<not> length (flat (filter (\<lambda>p. fst p \<noteq> name) es)) + length name + length s + 3 > ENV_SIZE b"
    using flat_filter [of "\<lambda>p. fst p \<noteq> name" es] assms(5) by linarith
  then show ?thesis
    using do_setenv_one [OF assms(1-4), of start "''setenv''"] unfolding setenv_buffer [OF assms(3,4)]
    by (auto simp: setenv_def)
qed

section \<open>The end of a transfer\<close>

definition hex :: "nat \<Rightarrow> string" where
  "hex n = nat_str lower_digits 16 n"

definition HEX :: "nat \<Rightarrow> string" where
  "HEX n = nat_str upper_digits 16 n"

lemma directive_lx: "directive (CHR ''l'' # CHR ''x'' # fmt) n (VWord w # args) = Some (hex (unat w), None, fmt, args)"
  by (simp add: directive_def no_flags_def [symmetric] parse_width_def is_digit_def ichar_eq_int
      parse_precision_def parse_qualifier_def convert_def int_base_def int_arg_def number_unsigned hex_def)

lemma directive_lX: "directive (CHR ''l'' # CHR ''X'' # fmt) n (VWord w # args) = Some (HEX (unat w), None, fmt, args)"
proof -
  have "number w 16 (-1) (-1) (no_flags\<lparr>LARGE := True\<rparr>) = Some (HEX (unat w))"
    by (auto simp: number_def no_flags_def nat_str_def Let_def unat_eq_zero HEX_def)
  then show ?thesis
    by (simp add: directive_def no_flags_def [symmetric] parse_width_def is_digit_def ichar_eq_int
        parse_precision_def parse_qualifier_def convert_def int_base_def int_arg_def)
qed

lemma directive_ld: "directive (CHR ''l'' # CHR ''d'' # fmt) n (VWord w # args) = Some (sdec w, None, fmt, args)"
  by (simp add: directive_def no_flags_def [symmetric] parse_width_def is_digit_def ichar_eq_int
      parse_precision_def parse_qualifier_def convert_def int_base_def int_arg_def number_decimal)

lemma nat_str_length: "2 \<le> b \<Longrightarrow> n < b ^ k \<Longrightarrow> 0 < k \<Longrightarrow> length (nat_str al b n) \<le> k"
  by (simp add: nat_str_def digits_rev_length)

lemma hex_length: "length (hex (unat (w :: u32))) \<le> 8" "length (HEX (unat w)) \<le> 8"
  using unat_u32_less [of w] by (auto simp: hex_def HEX_def intro!: nat_str_length)

lemma nat_str_nonul:
  assumes "list_all (\<lambda>i. al ! i \<noteq> NUL) [0..<16]"
  shows "nonul (nat_str al 16 n)"
proof -
  have "NUL \<notin> insert (CHR ''0'') ((!) al ` {..<16})"
  proof
    assume "NUL \<in> insert (CHR ''0'') ((!) al ` {..<16})"
    moreover have "NUL \<noteq> CHR ''0''" by simp
    ultimately obtain i where "i < 16" "NUL = al ! i" by blast
    then show False using list_all_upt [OF assms, of i] by simp
  qed
  moreover have "set (nat_str al 16 n) \<subseteq> insert (CHR ''0'') ((!) al ` {..<16})"
    by (rule nat_str_chars) simp
  ultimately show ?thesis unfolding nonul_def by blast
qed

lemma hex_nonul: "nonul (hex n)" "nonul (HEX n)"
  unfolding hex_def HEX_def by (rule nat_str_nonul, code_simp)+

lemma print_hex:
  "vsprintf (replicate 10 NUL) (cstr ''%lx'') [VWord w] =
     Some (hex (unat w) @ NUL # replicate (9 - length (hex (unat w))) NUL, length (hex (unat w)), [])"
  "\<exists>r. length b = 10 \<longrightarrow> vsprintf b (cstr ''%lX'') [VWord w] = Some (HEX (unat w) @ NUL # r, length (HEX (unat w)), [])"
proof -
  have e: "vsprintf_loop [NUL] [] out [] = Some (out, [])" for out by simp
  have c: "cstr ''%lx'' = CHR ''%'' # CHR ''l'' # CHR ''x'' # [NUL]" "cstr ''%lX'' = CHR ''%'' # CHR ''l'' # CHR ''X'' # [NUL]"
    by (simp_all add: cstr_def)
  show "vsprintf (replicate 10 NUL) (cstr ''%lx'') [VWord w] =
     Some (hex (unat w) @ NUL # replicate (9 - length (hex (unat w))) NUL, length (hex (unat w)), [])"
    using hex_length(1) [of w] by (simp add: vsprintf_def c directive_lx drop_replicate)
  show "\<exists>r. length b = 10 \<longrightarrow> vsprintf b (cstr ''%lX'') [VWord w] = Some (HEX (unat w) @ NUL # r, length (HEX (unat w)), [])"
    using hex_length(2) [of w] by (auto simp: vsprintf_def c directive_lX)
qed

lemma say_transferred:
  assumes "\<not> devinit st"
  shows "\<exists>out. printf (''Bytes transferred = %ld (%lx hex)'' @ [CHR 0x0A]) [VWord w, VWord w] st = Some (sent out st)"
proof -
  define g where "g = cstr ('' hex)'' @ [CHR 0x0A])"
  define h where "h = '' ('' @ CHR ''%'' # CHR ''l'' # CHR ''x'' # g"
  have f: "cstr (''Bytes transferred = %ld (%lx hex)'' @ [CHR 0x0A]) =
      ''Bytes transferred = '' @ CHR ''%'' # CHR ''l'' # CHR ''d'' # h"
    by (simp add: cstr_def g_def h_def)
  have e: "vsprintf_loop g [] out [] = Some (out @ '' hex)'' @ [CHR 0x0A], [])" for out
    by (simp add: g_def cstr_def)
  have h: "vsprintf_loop h [VWord w] out [] = Some (out @ '' ('' @ hex (unat w) @ '' hex)'' @ [CHR 0x0A], [])" for out
    unfolding h_def by (simp add: directive_lx e)
  let ?out = "''Bytes transferred = '' @ sdec w @ '' ('' @ hex (unat w) @ '' hex)'' @ [CHR 0x0A]"
  have l: "vsprintf_loop (cstr (''Bytes transferred = %ld (%lx hex)'' @ [CHR 0x0A])) [VWord w, VWord w] [] [] = Some (?out, [])"
    unfolding f by (simp add: directive_ld h)
  have "length (sdec w) \<le> 11"
    using udec_length [of "unat w" 10] udec_length [of "unat (- w)" 10] unat_u32_less [of w] unat_u32_less [of "- w"]
    by (auto simp: sdec_def)
  then have "length ?out < CFG_PBSIZE" using hex_length(1) [of w] by (simp add: CFG_PBSIZE_def)
  moreover have "nonul ?out"
    using hex_nonul(1) [of "unat w"] udec_nonul by (auto simp: sdec_def)
  ultimately show ?thesis
    using printf_serial [OF assms l] by (auto simp: sent_def)
qed

lemma board_extend: "board.truncate (board.extend b m) = b" "board.more (board.extend b m) = m" for b :: board
  by (cases b; simp add: board.defs)+

text \<open>What lies outside the board is not touched by its functions, nor by \<open>eth_halt\<close>.\<close>

lemma outside:
  "NetBootFileXferSize (board.extend b (board.more st)) = NetBootFileXferSize st"
  "mem (board.extend b (board.more st)) = mem st" "eth_in (board.extend b (board.more st)) = eth_in st"
  "NetBootFileXferSize (eth_halt st) = NetBootFileXferSize st" "mem (eth_halt st) = mem st" "eth_in (eth_halt st) = eth_in st"
  for st :: "'a net_scheme"
proof -
  show "NetBootFileXferSize (board.extend b (board.more st)) = NetBootFileXferSize st"
    "mem (board.extend b (board.more st)) = mem st" "eth_in (board.extend b (board.more st)) = eth_in st"
    by (cases st; simp add: board.defs)+
  show "NetBootFileXferSize (eth_halt st) = NetBootFileXferSize st" "mem (eth_halt st) = mem st" "eth_in (eth_halt st) = eth_in st"
    by (simp_all add: eth_halt_def set_dev_def split: option.splits)
qed

lemma env_ok_update:
  "env_ok (b\<lparr>serial_tx := tx\<rparr>) = env_ok b" "ENV_SIZE (b\<lparr>serial_tx := tx\<rparr>) = ENV_SIZE b"
  "env_entries (b\<lparr>serial_tx := tx\<rparr>) es = env_entries b es"
  "env_ok (b\<lparr>eth_devices := ds\<rparr>) = env_ok b" "crc_ok (b\<lparr>eth_devices := ds\<rparr>) = crc_ok b"
  "env_entries (b\<lparr>eth_devices := ds\<rparr>) es = env_entries b es"
  "env_ok (b\<lparr>timestamp := t, lastdec := l\<rparr>) = env_ok b"
  "ENV_SIZE (b\<lparr>timestamp := t, lastdec := l\<rparr>) = ENV_SIZE b"
  "env_entries (b\<lparr>timestamp := t, lastdec := l\<rparr>) es = env_entries b es"
  by (simp_all add: env_ok_def ENV_SIZE_def env_entries_def devinit_def crc_ok_def)

text \<open>The environment with the size and the address of the file.\<close>

definition loaded_env :: "(string \<times> string) list \<Rightarrow> nat \<Rightarrow> u32 \<Rightarrow> (string \<times> string) list" where
  "loaded_env es n addr =
     filter (\<lambda>p. fst p \<noteq> ''fileaddr'') (filter (\<lambda>p. fst p \<noteq> ''filesize'') es @ [(''filesize'', hex n)]) @
       [(''fileaddr'', HEX (unat addr))]"

lemma file_names: "plain_name ''filesize''" "plain_name ''fileaddr''"
  by (simp_all add: plain_name_def special_names_def env_name_def)

lemma flat_snoc: "length (flat (es @ [(n, v)])) = length (flat es) + length n + length v + 2"
  by (simp add: flat_def entry_def)

lemma net_success_ok:
  assumes ok: "env_ok (board.truncate st)" "env_entries (board.truncate st) es"
    and room: "length (flat es) + 40 \<le> ENV_SIZE (board.truncate st)"
    and n: "NetBootFileXferSize st = of_nat n" "0 < n" "n < 2 ^ 31"
  shows "\<exists>st' b. net_success start st = Some (int n, st') \<and> st' = eth_halt (board.extend b (board.more st)) \<and>
    env_ok b \<and> crc_ok b \<and> env_entries b (loaded_env es n (load_addr st))"
proof -
  let ?w = "NetBootFileXferSize st"
  have w: "unat ?w = n" using n by (simp add: unat_of_nat_u32)
  have pos: "?w > 0" using w n(2) by (simp add: word_less_nat_alt)
  have sw: "sint ?w = int n" using n by (simp add: signed_of_nat signed_take_bit_int_eq_self)
  define b0 where "b0 = board.truncate st"
  have dev: "\<not> devinit st" using ok(1) by (simp add: env_ok_def devinit_def board.truncate_def)
  obtain out where p: "printf (''Bytes transferred = %ld (%lx hex)'' @ [CHR 0x0A]) [VWord ?w, VWord ?w] st = Some (sent out st)"
    using say_transferred [OF dev, of ?w] by blast
  define b1 where "b1 = b0\<lparr>serial_tx := serial_tx st @ out\<rparr>"
  have t1: "board.truncate (sent out st) = b1" "board.more (sent out st) = board.more st"
    by (simp_all add: b1_def b0_def sent_def board.truncate_def)
  have ok1: "env_ok b1" "env_entries b1 es" "ENV_SIZE b1 = ENV_SIZE b0"
    using ok unfolding b1_def b0_def env_ok_update by simp_all
  let ?s = "hex n"
  let ?r = "replicate (9 - length (hex n)) NUL"
  have len: "length (hex n) \<le> 8" "length (HEX (unat (load_addr st))) \<le> 8"
    using hex_length(1) [of ?w] hex_length(2) unfolding w by blast+
  obtain b2 where s2: "setenv start (cstr ''filesize'') (Some (?s @ NUL # ?r)) b1 = Some b2"
    and ok2: "env_ok b2" "ENV_SIZE b2 = ENV_SIZE b1"
      "env_entries b2 (filter (\<lambda>p. fst p \<noteq> ''filesize'') es @ [(''filesize'', ?s)])"
    and l2: "load_addr b2 = load_addr b1"
    using setenv_fits [OF ok1(1,2) file_names(1) hex_nonul(1) [of n], of start ?r] room len(1) ok1(3)
    by (auto simp: b0_def)
  define st2 where "st2 = board.extend b2 (board.more st)"
  have o2: "on_board (setenv start (cstr ''filesize'') (Some (?s @ NUL # ?r))) (sent out st) = Some st2"
    unfolding on_board_def t1 s2 st2_def by simp
  have t2: "board.truncate st2 = b2" "board.more st2 = board.more st"
    unfolding st2_def by (simp_all add: board_extend)
  have "load_addr st2 = load_addr (board.truncate st2)" "load_addr b1 = load_addr st"
    by (simp_all add: board.truncate_def b1_def b0_def)
  then have la: "load_addr st2 = load_addr st" using t2(1) l2 by simp
  have buf: "length (?s @ NUL # ?r) = 10" using len(1) by simp
  obtain r where x: "vsprintf (?s @ NUL # ?r) (cstr ''%lX'') [VWord (load_addr st)] =
      Some (HEX (unat (load_addr st)) @ NUL # r, length (HEX (unat (load_addr st))), [])"
    using print_hex(2) [of "?s @ NUL # ?r" "load_addr st"] buf by blast
  let ?a = "HEX (unat (load_addr st))"
  have "length (flat (filter (\<lambda>p. fst p \<noteq> ''filesize'') es @ [(''filesize'', ?s)])) \<le> length (flat es) + 18"
    using flat_filter [of "\<lambda>p. fst p \<noteq> ''filesize''" es] len(1) by (simp add: flat_snoc)
  then have fits: "length (flat (filter (\<lambda>p. fst p \<noteq> ''filesize'') es @ [(''filesize'', ?s)])) + length ''fileaddr'' +
      length ?a + 3 \<le> ENV_SIZE b2"
    using room len(2) ok1(3) ok2(2) by (simp add: b0_def)
  obtain b3 where s3: "setenv start (cstr ''fileaddr'') (Some (?a @ NUL # r)) b2 = Some b3"
    and ok3: "env_ok b3" "crc_ok b3" "env_entries b3 (loaded_env es n (load_addr st))"
    using setenv_fits [OF ok2(1,3) file_names(2) hex_nonul(2) fits, of start r] unfolding loaded_env_def by blast
  have o3: "on_board (setenv start (cstr ''fileaddr'') (Some (?a @ NUL # r))) st2 = Some (board.extend b3 (board.more st))"
    unfolding on_board_def t2 s3 by simp
  have "net_success start st = Some (int n, eth_halt (board.extend b3 (board.more st)))"
    unfolding net_success_def Let_def if_P [OF pos] p bind.bind_lunit print_hex(1) w prod.case o2 la x o3
      outside sw ..
  then show ?thesis using ok3 by blast
qed

section \<open>Rounds of the loop\<close>

text \<open>What the packets of the transfer leave of the board: the timer and the output have moved on.\<close>

definition same_board :: "'a net_scheme \<Rightarrow> 'a net_scheme \<Rightarrow> bool" where
  "same_board st st' \<longleftrightarrow>
     board.truncate st' = (board.truncate st)\<lparr>timestamp := timestamp st', lastdec := lastdec st', serial_tx := serial_tx st'\<rparr>"

lemma same_board_trans: "same_board st st' \<Longrightarrow> same_board st' st'' \<Longrightarrow> same_board st st''"
  by (simp add: same_board_def board.truncate_def)

lemma same_board_refl: "same_board st st"
  by (simp add: same_board_def board.truncate_def)

lemma same_board_rx: "same_board st st' \<Longrightarrow> serial_rx st' = serial_rx st"
  by (simp add: same_board_def board.truncate_def)

text \<open>A frame that carries block \<open>k\<close> of the file to our port, from any station.\<close>

definition carries ::
  "u16 \<Rightarrow> u32 \<Rightarrow> u32 \<Rightarrow> u32 \<Rightarrow> buf \<Rightarrow> nat \<Rightarrow> buf \<times> int \<Rightarrow> bool" where
  "carries v dip port src file k f \<longleftrightarrow>
     (\<exists>d s ident sip r. length d = 6 \<and> length s = 6 \<and>
        f = (eth_header v d s PROT_IP @ udp_packet ident sip dip (unat port) (unat src) (data_packet file k []) @ r,
             int ((if tagged v then 18 else 14) + 28 + length (data_packet file k []))))"

text \<open>The blocks that have been accepted when \<open>ks\<close> arrive: the next one, or the last one again.\<close>

fun after :: "nat \<Rightarrow> nat \<Rightarrow> nat list \<Rightarrow> nat option" where
  "after n k [] = Some k"
| "after n k (b # bs) =
     (if b = k \<and> b \<le> n then after n (Suc k) bs
      else if Suc b = k \<and> k mod 65536 \<noteq> 0 then after n k bs else None)"

definition loading ::
  "u16 \<Rightarrow> u32 \<Rightarrow> u32 \<Rightarrow> u32 \<Rightarrow> buf \<Rightarrow> (u32 \<Rightarrow> char) \<Rightarrow> u32 \<Rightarrow> nat \<Rightarrow> bootp \<Rightarrow> bool" where
  "loading v dip port src file m addr k st \<longleftrightarrow>
     downloading port src file m addr k st \<and> packetHandler st = Some TftpHandler \<and> NetOurIP st = dip \<and>
     NetOurVLAN st = v \<and> NetArpWaitPacketIP st = 0 \<and> quiet st \<and>
     NetState st = (if k \<le> length file div 512 then NETLOOP_CONTINUE else NETLOOP_SUCCESS)"

lemma after_bound: "after n k ks = Some k' \<Longrightarrow> k \<le> Suc n \<Longrightarrow> k' \<le> Suc n"
  by (induction ks arbitrary: k) (auto split: if_splits)

lemma after_append: "after n k (xs @ ys) = Option.bind (after n k xs) (\<lambda>k. after n k ys)"
  by (induction xs arbitrary: k) auto

lemma data_packet_split: "data_packet file k [] @ r = data_packet file k r"
  "length (data_packet file k []) = 4 + length (block_data file k)"
  by (simp_all add: data_packet_def)

text \<open>A frame is a call of \<open>deliver\<close>.\<close>

lemma receive_frame:
  assumes "loading v dip port src file m addr k' st" "carries v dip port src file k f"
    "port < 65536" "src < 65536"
  shows "\<exists>pkt r. NetReceive (rx_call start) (fst f) (snd f) st = deliver start port src file r k (st\<lparr>NetRxPkt := pkt\<rparr>)"
proof -
  obtain d s ident sip r where f: "length d = 6" "length s = 6"
    "fst f = eth_header v d s PROT_IP @ udp_packet ident sip dip (unat port) (unat src) (data_packet file k []) @ r"
    "snd f = int ((if tagged v then 18 else 14) + 28 + length (data_packet file k []))"
    using assms(2) by (auto simp: carries_def)
  have p: "unat port < 65536" "unat src < 65536" using assms(3,4) by (simp_all add: word_less_nat_alt)
  have l: "length (data_packet file k []) < 65500"
    using block_length [of "file" k] by (simp add: data_packet_split)
  have st: "NetOurIP st = 0 \<or> dip = NetOurIP st \<or> dip = 0xFFFFFFFF" "packetHandler st = Some TftpHandler" "NetOurVLAN st = v"
    using assms(1) by (simp_all add: loading_def)
  show ?thesis
    using receive_udp [OF p l f(1,2) st refl f(3), of "rx_call start"]
    by (intro exI [of _ "fst f"] exI [of _ r]) (simp add: f(4) deliver_def data_packet_split)
qed

lemma quiet_ignores: "quiet (st\<lparr>NetRxPkt := p\<rparr>) = quiet st" "quiet (st\<lparr>eth_in := q\<rparr>) = quiet st"
  by (simp_all add: quiet_def)

lemma net_ok_ignores: "net_ok (st\<lparr>NetRxPkt := p\<rparr>) = net_ok st" "net_ok (st\<lparr>eth_in := q\<rparr>) = net_ok st"
  "net_ok (st\<lparr>timestamp := t, lastdec := l\<rparr>) = net_ok st"
  by (simp_all add: net_ok_def devinit_def)

lemma loading_ignores:
  "loading v dip port src file m addr k (st\<lparr>NetRxPkt := p\<rparr>) = loading v dip port src file m addr k st"
  "loading v dip port src file m addr k (st\<lparr>eth_in := q\<rparr>) = loading v dip port src file m addr k st"
  by (simp_all add: loading_def downloading_def quiet_ignores net_ok_ignores)

lemma div_le: "(k \<le> n div 512) = (512 * k \<le> n)" for k n :: nat
  by (simp add: less_eq_div_iff_mult_less_eq mult.commute)

lemma block_short: "512 * k \<le> length file \<Longrightarrow> length (block_data file k) < 512 \<longleftrightarrow> \<not> Suc k \<le> length file div 512"
  unfolding div_le by (auto simp: block_data_def)

text \<open>One frame.\<close>

lemma loading_next:
  assumes "loading v dip port src file m addr k st" "carries v dip port src file k f"
    "port < 65536" "src < 65536" "length file < 2 ^ 32" "k \<le> length file div 512"
  shows "\<exists>st'. NetReceive (rx_call start) (fst f) (snd f) st = Some st' \<and> loading v dip port src file m addr (Suc k) st' \<and>
    same_board st st' \<and> eth_in st' = eth_in st"
proof -
  obtain pkt r where r: "NetReceive (rx_call start) (fst f) (snd f) st = deliver start port src file r k (st\<lparr>NetRxPkt := pkt\<rparr>)"
    using receive_frame [OF assms(1-4)] by blast
  define st1 where "st1 = st\<lparr>NetRxPkt := pkt\<rparr>"
  have l1: "loading v dip port src file m addr k st1" unfolding st1_def loading_ignores by (rule assms(1))
  then have d1: "downloading port src file m addr k st1" by (simp add: loading_def)
  have le: "512 * k \<le> length file" using assms(6) by (simp add: div_le)
  obtain st' where s: "deliver start port src file r k st1 = Some st'" "downloading port src file m addr (Suc k) st'"
    "keeps st1 st'" "NetState st' = (if length (block_data file k) < 512 then NETLOOP_SUCCESS else NetState st1)"
    using deliver_next [OF d1 le assms(5)] by blast
  have b: "same_board st st'" "eth_in st' = eth_in st"
    using s(3) by (simp_all add: keeps_def same_board_def st1_def board.truncate_def)
  have "NetState st' = (if Suc k \<le> length file div 512 then NETLOOP_CONTINUE else NETLOOP_SUCCESS)"
    unfolding s(4) block_short [OF le] using l1 assms(6) by (auto simp: loading_def)
  then have "loading v dip port src file m addr (Suc k) st'"
    using s(2,3) l1 unfolding loading_def keeps_def by simp
  then show ?thesis using r s(1) b unfolding st1_def by (intro exI [of _ st']) simp
qed

lemma loading_again:
  assumes "loading v dip port src file m addr (Suc k) st" "carries v dip port src file k f"
    "port < 65536" "src < 65536" "Suc k mod 65536 \<noteq> 0"
  shows "\<exists>st'. NetReceive (rx_call start) (fst f) (snd f) st = Some st' \<and> loading v dip port src file m addr (Suc k) st' \<and>
    same_board st st' \<and> eth_in st' = eth_in st"
proof -
  obtain pkt r where r: "NetReceive (rx_call start) (fst f) (snd f) st = deliver start port src file r k (st\<lparr>NetRxPkt := pkt\<rparr>)"
    using receive_frame [OF assms(1-4)] by blast
  define st1 where "st1 = st\<lparr>NetRxPkt := pkt\<rparr>"
  have l1: "loading v dip port src file m addr (Suc k) st1" unfolding st1_def loading_ignores by (rule assms(1))
  then have d1: "downloading port src file m addr (Suc k) st1" by (simp add: loading_def)
  obtain st' where s: "deliver start port src file r k st1 = Some st'" "downloading port src file m addr (Suc k) st'"
    "keeps st1 st'" "NetState st' = NetState st1"
    using deliver_again [OF d1 assms(5)] by blast
  have b: "same_board st st'" "eth_in st' = eth_in st"
    using s(3) by (simp_all add: keeps_def same_board_def st1_def board.truncate_def)
  have "loading v dip port src file m addr (Suc k) st'"
    using s(2,3,4) l1 unfolding loading_def keeps_def by simp
  then show ?thesis using r s(1) b unfolding st1_def by (intro exI [of _ st']) simp
qed

text \<open>The frames of one poll.\<close>

lemma receive_all_ok:
  assumes "loading v dip port src file m addr k st" "list_all2 (carries v dip port src file) ks fs"
    "after (length file div 512) k ks = Some k'" "port < 65536" "src < 65536" "length file < 2 ^ 32"
  shows "\<exists>st'. receive_all start fs st = Some st' \<and> loading v dip port src file m addr k' st' \<and>
    same_board st st' \<and> eth_in st' = eth_in st"
  using assms(1-3)
proof (induction ks arbitrary: k st fs)
  case Nil
  then show ?case by (simp add: same_board_refl)
next
  case (Cons b ks)
  obtain f fs' where fs: "fs = f # fs'" "carries v dip port src file b f" "list_all2 (carries v dip port src file) ks fs'"
    using Cons.prems(2) by (auto simp: list_all2_Cons1)
  have "\<exists>k1 st1. NetReceive (rx_call start) (fst f) (snd f) st = Some st1 \<and>
      loading v dip port src file m addr k1 st1 \<and> same_board st st1 \<and> eth_in st1 = eth_in st \<and>
      after (length file div 512) k1 ks = Some k'"
  proof (cases "b = k \<and> b \<le> length file div 512")
    case True
    then show ?thesis
      using loading_next [OF Cons.prems(1) _ assms(4,5,6), of f start] fs(2) Cons.prems(3) by auto
  next
    case False
    then have k: "Suc b = k" "Suc b mod 65536 \<noteq> 0" "after (length file div 512) k ks = Some k'"
      using Cons.prems(3) by (auto split: if_splits)
    then show ?thesis
      using loading_again [OF _ fs(2) assms(4,5), of m addr st start] Cons.prems(1) by blast
  qed
  then obtain k1 st1 where s: "NetReceive (rx_call start) (fst f) (snd f) st = Some st1"
    "loading v dip port src file m addr k1 st1" "same_board st st1" "eth_in st1 = eth_in st"
    "after (length file div 512) k1 ks = Some k'" by blast
  obtain st' where "receive_all start fs' st1 = Some st'" "loading v dip port src file m addr k' st'"
    "same_board st1 st'" "eth_in st' = eth_in st1"
    using Cons.IH [OF s(2) fs(3) s(5)] by blast
  then show ?case using s(1,3,4) same_board_trans fs(1) by (cases f) auto
qed

text \<open>The rest of a round: nothing was typed, and no timeout has passed.\<close>

lemma ctrlc_idle: "serial_rx st = [] \<Longrightarrow> \<not> devinit st \<Longrightarrow> ctrlc st = Some (False, st)"
  by (simp add: ctrlc_def tstc_def serial_tstc_def)

lemma net_timeout_quiet:
  assumes "quiet st"
  shows "\<exists>t l. net_timeout start st = Some (st\<lparr>timestamp := t, lastdec := l\<rparr>) \<and> quiet (st\<lparr>timestamp := t, lastdec := l\<rparr>)"
proof (cases "timeHandler st")
  case None
  have "st\<lparr>timestamp := timestamp st, lastdec := lastdec st\<rparr> = st" by simp
  moreover have "net_timeout start st = Some st" using None by (simp add: net_timeout_def)
  ultimately show ?thesis using assms by metis
next
  case (Some x)
  then have le: "timestamp st + lastdec st - timeStart st \<le> timeDelta st" using assms by (simp add: quiet_def)
  show ?thesis
    by (rule exI [of _ "timestamp st + lastdec st"], rule exI [of _ 0])
      (simp add: Some le leD [OF le] net_timeout_def get_timer_def get_timer_masked_eq quiet_def)
qed

lemma loading_timer:
  assumes "loading v dip port src file m addr k st" "quiet (st\<lparr>timestamp := t, lastdec := l\<rparr>)"
  shows "loading v dip port src file m addr k (st\<lparr>timestamp := t, lastdec := l\<rparr>)"
  using assms by (simp add: loading_def downloading_def net_ok_ignores)

lemma net_round_ok:
  assumes "loading v dip port src file m addr k st" "list_all2 (carries v dip port src file) ks fs"
    "after (length file div 512) k ks = Some k'" "port < 65536" "src < 65536" "length file < 2 ^ 32"
    "eth_in st = fs # rest" "serial_rx st = []"
  shows "\<exists>st'. net_round start TFTP st =
      (if k' \<le> length file div 512 then Some (None, st')
       else do { (r, st) \<leftarrow> net_success start st'; Some (Some r, st) }) \<and>
    loading v dip port src file m addr k' st' \<and> same_board st st' \<and> eth_in st' = rest"
proof -
  have dev: "\<not> devinit st" "eth_current st \<noteq> None"
    using assms(1) by (simp_all add: loading_def downloading_def net_ok_def)
  define st0 where "st0 = st\<lparr>eth_in := rest\<rparr>"
  have l0: "loading v dip port src file m addr k st0" unfolding st0_def loading_ignores by (rule assms(1))
  have b0: "same_board st st0" "eth_in st0 = rest" by (simp_all add: same_board_def st0_def board.truncate_def)
  obtain st1 where s1: "receive_all start fs st0 = Some st1" "loading v dip port src file m addr k' st1"
    "same_board st0 st1" "eth_in st1 = eth_in st0"
    using receive_all_ok [OF l0 assms(2-6)] by blast
  have rx: "eth_rx start st = Some st1"
    using dev(2) s1(1) assms(7) by (auto simp: eth_rx_def st0_def)
  have b1: "same_board st st1" using b0(1) s1(3) by (rule same_board_trans)
  have i1: "serial_rx st1 = []" "\<not> devinit st1" "NetArpWaitPacketIP st1 = 0" "quiet st1"
    using same_board_rx [OF b1] assms(8) s1(2) by (simp_all add: loading_def downloading_def net_ok_def)
  obtain t l where t: "net_timeout start st1 = Some (st1\<lparr>timestamp := t, lastdec := l\<rparr>)"
    "quiet (st1\<lparr>timestamp := t, lastdec := l\<rparr>)" using net_timeout_quiet [OF i1(4)] by blast
  define st2 where "st2 = st1\<lparr>timestamp := t, lastdec := l\<rparr>"
  have l2: "loading v dip port src file m addr k' st2" unfolding st2_def by (rule loading_timer [OF s1(2) t(2)])
  have "same_board st1 st2" by (simp add: same_board_def st2_def board.truncate_def)
  then have b2: "same_board st st2" using b1 same_board_trans by blast
  have e2: "eth_in st2 = rest" using s1(4) b0(2) by (simp add: st2_def)
  have arp: "ArpTimeoutCheck start st1 = Some st1" using i1(3) by (simp add: ArpTimeoutCheck_def)
  have state: "NetState st2 = (if k' \<le> length file div 512 then NETLOOP_CONTINUE else NETLOOP_SUCCESS)"
    using l2 by (simp add: loading_def)
  have "net_round start TFTP st =
      (if k' \<le> length file div 512 then Some (None, st2)
       else do { (r, st) \<leftarrow> net_success start st2; Some (Some r, st) })"
    unfolding net_round_def rx bind.bind_lunit ctrlc_idle [OF i1(1,2)] prod.case if_False arp t(1) st2_def [symmetric] state
    by (simp add: NETLOOP_CONTINUE_def NETLOOP_SUCCESS_def NETLOOP_RESTART_def NETLOOP_FAIL_def)
  then show ?thesis using l2 b2 e2 by blast
qed

lemma after_mono: "after n k ks = Some k' \<Longrightarrow> k \<le> k'"
  by (induction ks arbitrary: k) (auto split: if_splits dest: Suc_leD)

lemma net_rounds_ok:
  assumes "port < 65536" "src < 65536" "length file < 2 ^ 32" "k' \<le> length file div 512"
    "after (length file div 512) k (concat kss) = Some k'"
    "after (length file div 512) k' ks = Some (Suc (length file div 512))"
    "list_all2 (list_all2 (carries v dip port src file)) kss fss" "list_all2 (carries v dip port src file) ks fs"
    "loading v dip port src file m addr k st" "eth_in st = fss @ fs # rest" "serial_rx st = []"
  shows "\<exists>st'. net_rounds start TFTP st = net_success start st' \<and>
    loading v dip port src file m addr (Suc (length file div 512)) st' \<and> same_board st st' \<and> eth_in st' = rest"
  using assms(5,7,9-11)
proof (induction kss arbitrary: k st fss)
  case Nil
  then have k: "k = k'" "fss = []" by simp_all
  obtain st' where "net_round start TFTP st = do { (r, st) \<leftarrow> net_success start st'; Some (Some r, st) }"
    "loading v dip port src file m addr (Suc (length file div 512)) st'" "same_board st st'" "eth_in st' = rest"
    using net_round_ok [OF _ assms(8) assms(6) assms(1-3), of m addr st rest start] Nil k by auto
  then show ?case
    by (intro exI [of _ st'], subst net_rounds.simps) (auto split: Option.bind_splits)
next
  case (Cons js kss)
  obtain gs fss' where f: "fss = gs # fss'" "list_all2 (carries v dip port src file) js gs"
    "list_all2 (list_all2 (carries v dip port src file)) kss fss'"
    using Cons.prems(2) by (auto simp: list_all2_Cons1)
  obtain k1 where k1: "after (length file div 512) k js = Some k1" "after (length file div 512) k1 (concat kss) = Some k'"
    using Cons.prems(1) by (auto simp: after_append split: Option.bind_splits)
  have le: "k1 \<le> length file div 512" using after_mono [OF k1(2)] assms(4) by simp
  have e: "eth_in st = gs # (fss' @ fs # rest)" using Cons.prems(4) f(1) by simp
  obtain st1 where s1: "net_round start TFTP st = Some (None, st1)" "loading v dip port src file m addr k1 st1"
    "same_board st st1" "eth_in st1 = fss' @ fs # rest"
    using net_round_ok [OF Cons.prems(3) f(2) k1(1) assms(1-3) e Cons.prems(5), of start] le by auto
  have rx: "serial_rx st1 = []" using same_board_rx [OF s1(3)] Cons.prems(5) by simp
  obtain st' where s': "net_rounds start TFTP st1 = net_success start st'"
    "loading v dip port src file m addr (Suc (length file div 512)) st'" "same_board st1 st'" "eth_in st' = rest"
    using Cons.IH [OF k1(2) f(3) s1(2,4) rx] by blast
  have "net_rounds start TFTP st = net_rounds start TFTP st1"
    by (subst net_rounds.simps) (simp add: s1(1))
  then show ?case using s' same_board_trans [OF s1(3)] by auto
qed

section \<open>The whole loop\<close>

lemma loaded_value:
  assumes "env_ok b" "env_entries b es" "env_ok b'" "env_entries b' (loaded_env es n addr)" "env_name name"
  shows "env_value name b' =
    (if name = ''fileaddr'' then Some (HEX (unat addr)) else if name = ''filesize'' then Some (hex n) else env_value name b)"
proof -
  have f: "map_of (filter (\<lambda>p. fst p \<noteq> m) es) name = (if name = m then None else map_of es name)" for m and es :: "(string \<times> string) list"
    by (induction es) auto
  have "map_of (loaded_env es n addr) name =
      (if name = ''fileaddr'' then Some (HEX (unat addr)) else if name = ''filesize'' then Some (hex n) else map_of es name)"
    unfolding loaded_env_def map_of_append map_add_def f by (simp split: option.splits)
  then show ?thesis
    using env_value_entries [OF assms(3,4,5)] env_value_entries [OF assms(1,2,5)] by simp
qed

lemma same_board_env:
  assumes "same_board st st'" "env_ok (board.truncate st)" "env_entries (board.truncate st) es"
  shows "env_ok (board.truncate st')" "env_entries (board.truncate st') es"
    "ENV_SIZE (board.truncate st') = ENV_SIZE (board.truncate st)"
  using assms(2,3) unfolding assms(1) [unfolded same_board_def]
  by (simp_all add: env_ok_def env_entries_def ENV_SIZE_def devinit_def)

lemma truncate_halt: "\<exists>ds. board.truncate (eth_halt st) = (board.truncate st)\<lparr>eth_devices := ds\<rparr>"
proof -
  have "board.truncate st = (board.truncate st)\<lparr>eth_devices := eth_devices (board.truncate st)\<rparr>" by simp
  then show ?thesis
    by (cases "eth_current st") (auto simp: eth_halt_def set_dev_def board.truncate_def)
qed

lemma loop_completes:
  assumes "loading v dip port src file m addr 0 st" "port < 65536" "src < 65536" "file \<noteq> []" "length file < 2 ^ 31"
    "list_all2 (list_all2 (carries v dip port src file)) kss fss" "list_all2 (carries v dip port src file) ks fs"
    "after (length file div 512) 0 (concat kss) = Some k" "k \<le> length file div 512"
    "after (length file div 512) k ks = Some (Suc (length file div 512))"
    "eth_in st = fss @ fs # rest" "serial_rx st = []"
    "env_ok (board.truncate st)" "env_entries (board.truncate st) es"
    "length (flat es) + 40 \<le> ENV_SIZE (board.truncate st)"
  shows "\<exists>st'. net_rounds start TFTP st = Some (int (length file), st') \<and> mem st' = overlay m addr file \<and>
    eth_in st' = rest \<and> env_ok (board.truncate st') \<and> crc_ok (board.truncate st') \<and>
    (\<forall>name. env_name name \<longrightarrow> env_value name (board.truncate st') =
      (if name = ''fileaddr'' then Some (HEX (unat addr)) else if name = ''filesize'' then Some (hex (length file))
       else env_value name (board.truncate st)))"
proof -
  have len: "length file < 2 ^ 32" using assms(5) by simp
  obtain st1 where r: "net_rounds start TFTP st = net_success start st1"
    and l: "loading v dip port src file m addr (Suc (length file div 512)) st1"
    and b: "same_board st st1" and e: "eth_in st1 = rest"
    using net_rounds_ok [OF assms(2,3) len assms(9,8,10,6,7,1,11,12)] by blast
  have full: "length file \<le> 512 * Suc (length file div 512)"
    using div_mod_decomp [of "length file" 512] mod_less_divisor [of 512 "length file"] by simp
  have d: "mem st1 = overlay m addr file" "NetBootFileXferSize st1 = of_nat (length file)" "load_addr st1 = addr"
    using l full unfolding loading_def downloading_def by simp_all
  note env = same_board_env [OF b assms(13,14)]
  have n: "0 < length file" using assms(4) by simp
  have room: "length (flat es) + 40 \<le> ENV_SIZE (board.truncate st1)" using assms(15) env(3) by simp
  obtain st' b' where s: "net_success start st1 = Some (int (length file), st')"
    "st' = eth_halt (board.extend b' (board.more st1))"
    "env_ok b'" "crc_ok b'" "env_entries b' (loaded_env es (length file) addr)"
    using net_success_ok [OF env(1,2) room d(2) n assms(5), of start] unfolding d(3) by blast
  obtain ds where t: "board.truncate st' = b'\<lparr>eth_devices := ds\<rparr>"
    using truncate_halt [of "board.extend b' (board.more st1)"] unfolding s(2) board_extend by blast
  have ok: "env_ok (board.truncate st')" "crc_ok (board.truncate st')"
    "env_entries (board.truncate st') (loaded_env es (length file) addr)"
    using s(3-5) unfolding t env_ok_update by simp_all
  show ?thesis
    using r s(1) d(1) e ok loaded_value [OF assms(13,14) ok(1,3)] by (auto simp: s(2) outside)
qed

definition sample_loop :: "(buf \<times> int) list list \<Rightarrow> bootp" where
  "sample_loop q = nfs.extend (tftp.extend
     ((sample_tftp STATE_RRQ 1030 (\<lambda>_. NUL) 0x20000000 0 0)
        \<lparr>flash_env := \<lparr>crc = 0, edata = replicate 64 NUL\<rparr>,
         ram_env := \<lparr>crc = 0, edata = ''a=1'' @ NUL # NUL # replicate 59 NUL\<rparr>, eth_in := q\<rparr>)
     \<lparr>fs_mounted = False, rpc_id = 0, nfs_offset = 0, nfs_len = 0, dirfh = [], filefh = [], NfsServerIP = 0,
      NfsSrvMountPort = 0, NfsSrvNfsPort = 0, NfsOurPort = 0, NfsTimeoutCount = 0, NfsState = 0,
      default_filename = [], nfs_filename = 0, nfs_path_buff = []\<rparr>)
     \<lparr>BootpID = 0, BootpTry = 0, dhcp_state = INIT, dhcp_leasetime = 0, NetDHCPServerIP = 0, NetOurDNSIP = 0,
      NetOurHostName = [], NetOurRootPath = [], NetOurNISDomain = [], RarpTry = 0\<rparr>"

definition sample_frame :: "buf \<Rightarrow> nat \<Rightarrow> buf \<times> int" where
  "sample_frame file k =
     (eth_header 0xffff ''abcdef'' ''ghijkl'' PROT_IP @
        udp_packet 7 0x0200000a 0x0100000a (unat (1030 :: u32)) (unat (2000 :: u32)) (data_packet file k []) @ ''pad'',
      int ((if tagged 0xffff then 18 else 14) + 28 + length (data_packet file k [])))"

lemma sample_carries: "carries 0xffff 0x0100000a 1030 2000 file k (sample_frame file k)"
  unfolding carries_def sample_frame_def
  by (rule exI [of _ "''abcdef''"], rule exI [of _ "''ghijkl''"], intro exI conjI) simp_all

lemma sample_loading: "loading 0xffff 0x0100000a 1030 2000 file (\<lambda>_. NUL) 0x20000000 0 (sample_loop q)"
  using sample_tftp_ok [of STATE_RRQ 1030 "\<lambda>_. NUL" "0x20000000" 0 0] sample_mac_ok
  by (simp add: loading_def downloading_def sample_loop_def nfs.defs tftp.defs net_ok_def devinit_def quiet_def
      NETLOOP_CONTINUE_def sample_tftp_def net.defs sample_net_def machine.defs ex_machine_def board.defs sample_board_def)

definition sample_file :: buf where
  "sample_file = replicate 600 (CHR ''x'')"

definition sample_run :: bootp where
  "sample_run = sample_loop [[sample_frame sample_file 0, sample_frame sample_file 0], [], [sample_frame sample_file 1], []]"



end
