(* ===== verification/Ecc.thy ===== *)
theory Ecc
  imports Prelude
begin

unbundle bit_operations_syntax

text \<open>
  The correction of NAND pages (\<open>board/as3310/ecc.c\<close>).  The error report of the decoder hardware is an
  argument: the DMA program that produces it is not modelled.
\<close>

section \<open>The correction\<close>

definition ECC_UNCORRECTABLE :: int where "ECC_UNCORRECTABLE = -1"
definition ECC_NOERROR :: int where "ECC_NOERROR = 0"
definition ECC_CORRECTED :: int where "ECC_CORRECTED = 1"

definition xor_at :: "u32 list \<Rightarrow> nat \<Rightarrow> u32 \<Rightarrow> u32 list option" where
  "xor_at ws i msk = do { w \<leftarrow> load ws i; store ws i (w XOR msk) }"

text \<open>
  An odd index is the lower half of word \<open>(index + 1) / 2 - 1\<close>, an even one the upper half of word
  \<open>index / 2 - 1\<close>; index 0 is in front of the array.
\<close>

definition ecc_fix :: "u32 list \<Rightarrow> u32 \<Rightarrow> u32 \<Rightarrow> u32 list option" where
  "ecc_fix ws index msk =
     (if index AND 1 = 0 then
        (if unat index < 2 then None else xor_at ws (unat index div 2 - 1) (push_bit 16 msk))
      else xor_at ws ((unat index + 1) div 2 - 1) msk)"

fun ecc_correct :: "u32 list \<Rightarrow> u32 list \<Rightarrow> u32 list \<Rightarrow> (u32 list \<times> u32 list) option" where
  "ecc_correct [] datafrom parityadd = Some (datafrom, parityadd)"
| "ecc_correct (r # rs) datafrom parityadd =
     (if r = 0 then Some (datafrom, parityadd)
      else
        let index = signed_drop_bit 16 r; msk = r AND 0x0000ffff
        in if index AND 0x8000 = 0x8000 then
             do { p \<leftarrow> ecc_fix parityadd (index AND 0x0fff) msk; ecc_correct rs datafrom p }
           else
             do { d \<leftarrow> ecc_fix datafrom index msk; ecc_correct rs d parityadd })"

definition EccDecodeCheck :: "u32 list \<Rightarrow> u32 list \<Rightarrow> u32 list \<Rightarrow> (int \<times> u32 list \<times> u32 list) option" where
  "EccDecodeCheck report datafrom parityadd =
     do { r0 \<leftarrow> load report 0;
          if r0 = 0 then Some (ECC_NOERROR, datafrom, parityadd)
          else if r0 = 0x100403f7 then Some (ECC_UNCORRECTABLE, datafrom, parityadd)
          else if length report < 9 then None
          else do { (d, p) \<leftarrow> ecc_correct (take 8 (drop 1 report)) datafrom parityadd;
                    Some (ECC_CORRECTED, d, p) } }"

section \<open>Halfwords\<close>

fun halves :: "u32 list \<Rightarrow> u16 list" where
  "halves [] = []"
| "halves (w # ws) = ucast w # ucast (drop_bit 16 w) # halves ws"

lemma length_halves [simp]: "length (halves ws) = 2 * length ws"
  by (induction ws) simp_all

lemma bit_ucast_16: "bit (ucast (w :: u32) :: u16) n \<longleftrightarrow> n < 16 \<and> bit w n"
  by (auto simp: bit_simps)

lemma half_inj:
  assumes "(ucast v :: u16) = ucast w" "(ucast (drop_bit 16 v) :: u16) = ucast (drop_bit 16 w)"
  shows "(v :: u32) = w"
proof (rule bit_word_eqI)
  fix n
  assume n: "n < LENGTH(32)"
  have "bit (ucast v :: u16) n = bit (ucast w :: u16) n"
    "bit (ucast (drop_bit 16 v) :: u16) (n - 16) = bit (ucast (drop_bit 16 w) :: u16) (n - 16)"
    using assms by simp_all
  then show "bit v n = bit w n"
    using n by (cases "n < 16") (auto simp: bit_ucast_16 bit_drop_bit_eq)
qed

lemma halves_inj: "halves v = halves w \<Longrightarrow> v = w"
proof (induction v arbitrary: w)
  case Nil
  then show ?case by (cases w) simp_all
next
  case (Cons a v)
  then show ?case using half_inj by (cases w) auto
qed

definition flip :: "nat \<Rightarrow> u16 \<Rightarrow> u16 list \<Rightarrow> u16 list" where
  "flip i m hs = hs[i - 1 := hs ! (i - 1) XOR m]"

lemma halves_nth:
  assumes "k < length ws"
  shows "halves ws ! (2 * k) = ucast (ws ! k)" "halves ws ! Suc (2 * k) = ucast (drop_bit 16 (ws ! k))"
proof -
  have "halves ws ! (2 * k) = ucast (ws ! k) \<and> halves ws ! Suc (2 * k) = ucast (drop_bit 16 (ws ! k))"
    using assms
  proof (induction ws arbitrary: k)
    case (Cons w ws)
    then show ?case by (cases k) simp_all
  qed simp
  then show "halves ws ! (2 * k) = ucast (ws ! k)" "halves ws ! Suc (2 * k) = ucast (drop_bit 16 (ws ! k))" by auto
qed

lemma halves_update:
  "k < length ws \<Longrightarrow>
    halves (ws[k := w]) = (halves ws)[2 * k := ucast w, Suc (2 * k) := ucast (drop_bit 16 w)]"
proof (induction ws arbitrary: k)
  case (Cons a ws)
  then show ?case by (cases k) simp_all
qed simp

lemma low_half_xor:
  "(ucast (w XOR ucast (m :: u16)) :: u16) = ucast (w :: u32) XOR m"
  "(ucast (drop_bit 16 (w XOR ucast m)) :: u16) = ucast (drop_bit 16 w)"
  "(ucast (w XOR push_bit 16 (ucast m)) :: u16) = ucast w"
  "(ucast (drop_bit 16 (w XOR push_bit 16 (ucast m))) :: u16) = ucast (drop_bit 16 w) XOR m"
  by (rule bit_word_eqI, auto simp: bit_simps dest: bit_imp_le_length)+

lemma list_update_nth_id: "i < length xs \<Longrightarrow> x = xs ! i \<Longrightarrow> xs[i := x] = xs"
  by simp

lemma xor_at_low:
  assumes "k < length ws"
  shows "\<exists>v. xor_at ws k (ucast m) = Some v \<and> halves v = flip (2 * k + 1) m (halves ws)"
proof -
  have "halves (ws[k := ws ! k XOR ucast m]) = flip (2 * k + 1) m (halves ws)"
    using assms unfolding halves_update [OF assms] low_half_xor halves_nth [OF assms, symmetric] flip_def
    by (simp add: list_update_swap list_update_nth_id)
  then show ?thesis using assms by (simp add: xor_at_def load_def store_def)
qed

lemma xor_at_high:
  assumes "k < length ws"
  shows "\<exists>v. xor_at ws k (push_bit 16 (ucast m)) = Some v \<and> halves v = flip (2 * k + 2) m (halves ws)"
proof -
  have "halves (ws[k := ws ! k XOR push_bit 16 (ucast m)]) = flip (2 * k + 2) m (halves ws)"
    using assms unfolding halves_update [OF assms] low_half_xor halves_nth [OF assms, symmetric] flip_def
    by simp
  then show ?thesis using assms by (simp add: xor_at_def load_def store_def)
qed

section \<open>Reports\<close>

text \<open>An error is at a halfword of the data or of the parity, counted from 1.\<close>

datatype ecc_error = Data_error nat u16 | Parity_error nat u16

fun report_word :: "ecc_error \<Rightarrow> u32" where
  "report_word (Data_error i m) = push_bit 16 (of_nat i) OR ucast m"
| "report_word (Parity_error i m) = push_bit 16 (0x8000 OR of_nat i) OR ucast m"

fun in_range :: "nat \<Rightarrow> nat \<Rightarrow> ecc_error \<Rightarrow> bool" where
  "in_range nd np (Data_error i m) \<longleftrightarrow> 1 \<le> i \<and> i \<le> 2 * nd \<and> i < 0x8000"
| "in_range nd np (Parity_error i m) \<longleftrightarrow> 1 \<le> i \<and> i \<le> 2 * np \<and> i < 0x1000"

fun data_flip :: "ecc_error \<Rightarrow> u16 list \<Rightarrow> u16 list" where
  "data_flip (Data_error i m) hs = flip i m hs"
| "data_flip (Parity_error i m) hs = hs"

fun parity_flip :: "ecc_error \<Rightarrow> u16 list \<Rightarrow> u16 list" where
  "parity_flip (Data_error i m) hs = hs"
| "parity_flip (Parity_error i m) hs = flip i m hs"

lemma ecc_fix_half:
  assumes "1 \<le> i" "i \<le> 2 * length ws" "i < 0x8000"
  shows "\<exists>v. ecc_fix ws (of_nat i) (ucast m) = Some v \<and> halves v = flip i m (halves ws)"
proof -
  have u: "unat (of_nat i :: u32) = i" using assms(3) by (simp add: unat_of_nat)
  have odd_iff: "(of_nat i :: u32) AND 1 = 0 \<longleftrightarrow> even i"
    by (simp add: and_one_eq mod2_eq_if)
  show ?thesis
  proof (cases "even i")
    case True
    then obtain k where k: "i = 2 * k" by blast
    then obtain j where j: "k = Suc j" using assms(1) by (cases k) auto
    have "j < length ws" using assms(2) k j by simp
    then show ?thesis
      using xor_at_high [of j ws m] odd_iff u True unfolding ecc_fix_def k j by simp
  next
    case False
    then obtain k where k: "i = 2 * k + 1" by (metis oddE)
    have "k < length ws" using assms(2) k by simp
    then show ?thesis
      using xor_at_low [of k ws m] odd_iff u False unfolding ecc_fix_def k by simp
  qed
qed


lemma small_bit: "k < 2 ^ n \<Longrightarrow> n \<le> j \<Longrightarrow> \<not> bit (k :: nat) j"
  by (metis bit_take_bit_iff linorder_not_less take_bit_nat_eq_self)

lemma data_word:
  assumes "i < 0x8000" "1 \<le> i"
  shows "report_word (Data_error i m) \<noteq> 0" "signed_drop_bit 16 (report_word (Data_error i m)) = of_nat i"
    "report_word (Data_error i m) AND 0xffff = ucast m" "(of_nat i :: u32) AND 0x8000 \<noteq> 0x8000"
proof -
  have b: "\<not> bit i j" if "15 \<le> j" for j using small_bit [of i 15] assms(1) that by simp
  have 1: "signed_drop_bit 16 (report_word (Data_error i m)) = of_nat i"
    by (rule bit_word_eqI) (auto simp: bit_simps b dest: bit_imp_le_length)
  have u: "unat (of_nat i :: u32) = i" using assms(1) by (simp add: unat_of_nat)
  then have "(of_nat i :: u32) \<noteq> 0" using assms(2) by (metis not_one_le_zero unat_0)
  then show "report_word (Data_error i m) \<noteq> 0" using 1 by fastforce
  show "signed_drop_bit 16 (report_word (Data_error i m)) = of_nat i" by (rule 1)
  have f: "(0xffff :: u32) = Bit_Operations.mask 16" by (simp add: mask_eq_exp_minus_1)
  show "report_word (Data_error i m) AND 0xffff = ucast m"
    unfolding f by (rule bit_word_eqI) (auto simp: bit_simps dest: bit_imp_le_length)
  have "\<not> bit ((of_nat i :: u32) AND 0x8000) 15" using b by (simp add: bit_simps)
  moreover have "bit (0x8000 :: u32) 15" by simp
  ultimately show "(of_nat i :: u32) AND 0x8000 \<noteq> 0x8000" by metis
qed

declare report_word.simps [simp del]

lemma bit_0x8000: "bit (0x8000 :: u32) n \<longleftrightarrow> n = 15"
proof -
  have "(0x8000 :: u32) = push_bit 15 1" by (simp add: push_bit_eq_mult)
  then show ?thesis by (simp only: bit_simps) auto
qed

lemma bit_parity_word:
  "bit (report_word (Parity_error i m)) j \<longleftrightarrow>
    (if j < 16 then bit m j else j < 32 \<and> (j = 31 \<or> bit i (j - 16)))"
proof -
  define c where "c = (0x8000 :: u32)"
  have c: "bit c n \<longleftrightarrow> n = 15" for n unfolding c_def by (rule bit_0x8000)
  have "bit (report_word (Parity_error i m)) j \<longleftrightarrow>
      (16 \<le> j \<and> j < 32 \<and> (j - 16 = 15 \<or> bit i (j - 16))) \<or> bit m j \<and> j < 32"
    unfolding report_word.simps c_def [symmetric]
    by (simp add: bit_or_iff bit_push_bit_iff bit_unsigned_iff bit_of_nat_iff c) auto
  moreover have "bit m j \<Longrightarrow> j < 16" using bit_imp_le_length [of m j] by simp
  ultimately show ?thesis by (cases "j < 16") auto
qed

lemma parity_word:
  assumes "i < 0x1000"
  shows "report_word (Parity_error i m) \<noteq> 0"
    "signed_drop_bit 16 (report_word (Parity_error i m)) AND 0x8000 = 0x8000"
    "signed_drop_bit 16 (report_word (Parity_error i m)) AND 0x0fff = of_nat i"
    "report_word (Parity_error i m) AND 0xffff = ucast m"
proof -
  let ?w = "report_word (Parity_error i m)"
  have b: "bit i j \<Longrightarrow> j < 12" for j using small_bit [of i 12 j] assms by fastforce
  have e: "(0x0fff :: u32) = Bit_Operations.mask 12" "(0xffff :: u32) = Bit_Operations.mask 16"
    by (simp_all add: mask_eq_exp_minus_1)
  have s: "bit (signed_drop_bit 16 ?w) 15" by (simp add: bit_signed_drop_bit_iff bit_parity_word)
  then show "signed_drop_bit 16 ?w AND 0x8000 = 0x8000"
    by (intro bit_word_eqI) (unfold bit_and_iff bit_0x8000, blast)
  have "bit ?w 31" unfolding bit_parity_word by simp
  then show "?w \<noteq> 0" by (rule contrapos_pn) (simp only: bit_0_eq bot_apply bot_bool_def simp_thms)
  show "signed_drop_bit 16 ?w AND 0x0fff = of_nat i"
    unfolding e by (rule bit_word_eqI) (auto simp: bit_simps bit_parity_word dest: b)
  show "?w AND 0xffff = ucast m"
    unfolding e by (rule bit_word_eqI) (auto simp: bit_simps bit_parity_word dest: bit_imp_le_length)
qed

section \<open>Correction\<close>

lemma ecc_correct_report:
  assumes "\<forall>e \<in> set es. in_range (length d) (length p) e" "rest = [] \<or> hd rest = 0"
  shows "\<exists>d' p'. ecc_correct (map report_word es @ rest) d p = Some (d', p') \<and>
    halves d' = fold data_flip es (halves d) \<and> halves p' = fold parity_flip es (halves p)"
  using assms(1)
proof (induction es arbitrary: d p)
  case Nil
  then show ?case using assms(2) by (cases rest) simp_all
next
  case (Cons e es)
  have keep: "length v = length w" if "halves v = flip i m (halves w)" for v w i m
    using arg_cong [OF that, of length] by (simp add: flip_def)
  show ?case
  proof (cases e)
    case (Data_error i m)
    then have r: "1 \<le> i" "i \<le> 2 * length d" "i < 0x8000" using Cons.prems by auto
    obtain v where v: "ecc_fix d (of_nat i) (ucast m) = Some v" "halves v = flip i m (halves d)"
      using ecc_fix_half [OF r] by blast
    have "\<forall>e \<in> set es. in_range (length v) (length p) e" using Cons.prems keep [OF v(2)] by simp
    from Cons.IH [OF this] show ?thesis
      using data_word(1-3) [OF r(3,1), of m] data_word(4) [OF r(3,1)] v by (auto simp: Data_error Let_def simp del: report_word.simps)
  next
    case (Parity_error i m)
    then have r: "1 \<le> i" "i \<le> 2 * length p" "i < 0x1000" using Cons.prems by auto
    obtain v where v: "ecc_fix p (of_nat i) (ucast m) = Some v" "halves v = flip i m (halves p)"
      using ecc_fix_half [OF r(1,2)] r(3) by auto
    have "\<forall>e \<in> set es. in_range (length d) (length v) e" using Cons.prems keep [OF v(2)] by simp
    from Cons.IH [OF this] show ?thesis
      using parity_word [OF r(3), of m] v by (auto simp: Parity_error Let_def simp del: report_word.simps)
  qed
qed

lemma flip_flip: "flip i m (flip i m hs) = hs"
  by (cases "i - 1 < length hs") (simp_all add: flip_def xor.assoc list_update_beyond)

lemma flip_commute: "flip i m (flip j n hs) = flip j n (flip i m hs)"
proof (cases "i - 1 = j - 1")
  case True
  then show ?thesis
    by (cases "i - 1 < length hs") (simp_all add: flip_def xor.assoc xor.left_commute xor.commute list_update_beyond)
next
  case False
  then show ?thesis by (simp add: flip_def list_update_swap)
qed

lemma data_flip_twice: "data_flip e (data_flip e hs) = hs"
  by (cases e) (simp_all add: flip_flip)

lemma parity_flip_twice: "parity_flip e (parity_flip e hs) = hs"
  by (cases e) (simp_all add: flip_flip)

lemma data_flip_commute: "data_flip e (data_flip f hs) = data_flip f (data_flip e hs)"
  by (cases e; cases f) (simp_all add: flip_commute)

lemma parity_flip_commute: "parity_flip e (parity_flip f hs) = parity_flip f (parity_flip e hs)"
  by (cases e; cases f) (simp_all add: flip_commute)

lemma fold_twice:
  assumes "\<And>e x. f e (f e x) = x" "\<And>e e' x. f e (f e' x) = f e' (f e x)"
  shows "fold f es (fold f es x) = x"
proof -
  have out: "fold f es (f e x) = f e (fold f es x)" for es e x
    by (induction es arbitrary: x) (simp_all, metis assms(2))
  show ?thesis by (induction es arbitrary: x) (simp_all add: out assms(1))
qed

lemma ecc_restores:
  assumes "r0 \<noteq> 0" "r0 \<noteq> 0x100403f7" "length es \<le> 8"
    "\<forall>e \<in> set es. in_range (length d0) (length p0) e"
    "halves d = fold data_flip es (halves d0)" "halves p = fold parity_flip es (halves p0)"
  shows "EccDecodeCheck (r0 # map report_word es @ replicate (8 - length es) 0) d p = Some (ECC_CORRECTED, d0, p0)"
proof -
  have len: "length (fold data_flip es hs) = length hs" "length (fold parity_flip es hs) = length hs" for hs
  proof -
    have "length (data_flip e hs) = length hs" "length (parity_flip e hs) = length hs" for e hs
      by (cases e; simp add: flip_def)+
    then show "length (fold data_flip es hs) = length hs" "length (fold parity_flip es hs) = length hs"
      by (induction es arbitrary: hs) simp_all
  qed
  have "length d = length d0" "length p = length p0"
    using arg_cong [OF assms(5), of length] arg_cong [OF assms(6), of length] by (simp_all add: len)
  then have range: "\<forall>e \<in> set es. in_range (length d) (length p) e" using assms(4) by simp
  have rest: "replicate (8 - length es) 0 = [] \<or> hd (replicate (8 - length es) 0) = (0 :: u32)"
    by (cases "8 - length es") simp_all
  obtain d' p' where c: "ecc_correct (map report_word es @ replicate (8 - length es) 0) d p = Some (d', p')"
    "halves d' = fold data_flip es (halves d)" "halves p' = fold parity_flip es (halves p)"
    using ecc_correct_report [OF range rest] by blast
  have "halves d' = halves d0" unfolding c(2) assms(5) by (rule fold_twice [OF data_flip_twice data_flip_commute])
  moreover have "halves p' = halves p0"
    unfolding c(3) assms(6) by (rule fold_twice [OF parity_flip_twice parity_flip_commute])
  ultimately have "d' = d0" "p' = p0" by (auto dest: halves_inj)
  then show ?thesis using assms(1-3) c(1) by (simp add: EccDecodeCheck_def load_def)
qed

text \<open>C38: The correction of a NAND page: when data and parity differ from what was written in exactly
  the up to eight halfwords that the report of the decoder names, in any order, even with repeated
  positions, \<open>EccDecodeCheck\<close> restores every word of both and reports the correction.\<close>

theorem EccDecodeCheck_restores:
  assumes "r0 \<noteq> 0" "r0 \<noteq> 0x100403f7" "length es \<le> 8"
    "\<forall>e \<in> set es. in_range (length d0) (length p0) e"
    "halves d = fold data_flip es (halves d0)" "halves p = fold parity_flip es (halves p0)"
  shows "EccDecodeCheck (r0 # map report_word es @ replicate (8 - length es) 0) d p = Some (ECC_CORRECTED, d0, p0)"
  using assms by (rule ecc_restores)

theorem EccDecodeCheck_restores_witness:
  "EccDecodeCheck (1 # map report_word [Data_error 3 0x8001, Parity_error 2 0x00ff, Data_error 2 1] @
      replicate (8 - length [Data_error 3 0x8001, Parity_error 2 0x00ff, Data_error 2 1]) 0)
      [0x12355678, 0x9abc5ef1] [0x11ee1111] =
    Some (ECC_CORRECTED, [0x12345678, 0x9abcdef0], [0x11111111])"
proof (rule EccDecodeCheck_restores)
  show "halves [0x12355678, 0x9abc5ef1] =
      fold data_flip [Data_error 3 0x8001, Parity_error 2 0x00ff, Data_error 2 1] (halves [0x12345678, 0x9abcdef0])"
    by code_simp
  show "halves [0x11ee1111] =
      fold parity_flip [Data_error 3 0x8001, Parity_error 2 0x00ff, Data_error 2 1] (halves [0x11111111])"
    by code_simp
qed simp_all

end
