(* ===== verification/Image_Header.thy ===== *)
theory Image_Header
  imports Tftp
begin

text \<open>
  Boot images (\<open>common/cmd_bootm.c\<close>, \<open>include/image.h\<close>): the header, its printing, the checks of
  \<open>iminfo\<close>, and \<open>imls\<close>.  The global \<open>header\<close> is copied from the image before each use, so it is a
  local buffer here.
\<close>

section \<open>Headers\<close>

definition IH_MAGIC :: u32 where "IH_MAGIC = 0x27051956"
definition IH_NMLEN :: nat where "IH_NMLEN = 32"
definition IH_OS_NETBSD :: nat where "IH_OS_NETBSD = 2"
definition IH_OS_LINUX :: nat where "IH_OS_LINUX = 5"
definition IH_OS_RTEMS :: nat where "IH_OS_RTEMS = 18"
definition IH_CPU_ARM :: nat where "IH_CPU_ARM = 2"
definition IH_TYPE_STANDALONE :: nat where "IH_TYPE_STANDALONE = 1"
definition IH_TYPE_KERNEL :: nat where "IH_TYPE_KERNEL = 2"
definition IH_TYPE_RAMDISK :: nat where "IH_TYPE_RAMDISK = 3"
definition IH_TYPE_MULTI :: nat where "IH_TYPE_MULTI = 4"
definition IH_COMP_NONE :: nat where "IH_COMP_NONE = 0"
definition IH_COMP_GZIP :: nat where "IH_COMP_GZIP = 1"

text \<open>The size of \<open>image_header_t\<close> and the offsets of its fields.\<close>

definition HEADER_SIZE :: nat where "HEADER_SIZE = 64"
definition ih_hcrc :: nat where "ih_hcrc = 4"
definition ih_size :: nat where "ih_size = 12"
definition ih_load :: nat where "ih_load = 16"
definition ih_ep :: nat where "ih_ep = 20"
definition ih_dcrc :: nat where "ih_dcrc = 24"
definition ih_os :: nat where "ih_os = 28"
definition ih_arch :: nat where "ih_arch = 29"
definition ih_type :: nat where "ih_type = 30"
definition ih_comp :: nat where "ih_comp = 31"
definition ih_name :: nat where "ih_name = 32"

definition mem_be32 :: "(u32 \<Rightarrow> char) \<Rightarrow> u32 \<Rightarrow> u32 option" where
  "mem_be32 m a = rd_be32 (mem_bytes m a 4)"

section \<open>Printing a header\<close>

definition os_name :: "nat \<Rightarrow> string" where
  "os_name n =
     (if n = 0 then ''Invalid OS'' else if n = 2 then ''NetBSD'' else if n = 5 then ''Linux''
      else if n = 14 then ''VxWorks'' else if n = 16 then ''QNX'' else if n = 17 then ''U-Boot''
      else if n = 18 then ''RTEMS'' else ''Unknown OS'')"

definition arch_name :: "nat \<Rightarrow> string" where
  "arch_name n =
     (if n = 0 then ''Invalid CPU'' else if n = 1 then ''Alpha'' else if n = 2 then ''ARM''
      else if n = 3 then ''Intel x86'' else if n = 4 then ''IA64'' else if n = 5 then ''MIPS''
      else if n = 6 then ''MIPS 64 Bit'' else if n = 7 then ''PowerPC'' else if n = 8 then ''IBM S390''
      else if n = 9 then ''SuperH'' else if n = 10 then ''SPARC'' else if n = 11 then ''SPARC 64 Bit''
      else if n = 12 then ''M68K'' else if n = 14 then ''Microblaze'' else ''Unknown Architecture'')"

definition type_name :: "nat \<Rightarrow> string" where
  "type_name n =
     (if n = 0 then ''Invalid Image'' else if n = 1 then ''Standalone Program'' else if n = 2 then ''Kernel Image''
      else if n = 3 then ''RAMDisk Image'' else if n = 4 then ''Multi-File Image'' else if n = 5 then ''Firmware''
      else if n = 6 then ''Script'' else ''Unknown Image'')"

definition comp_name :: "nat \<Rightarrow> string" where
  "comp_name n =
     (if n = 0 then ''uncompressed'' else if n = 1 then ''gzip compressed'' else if n = 2 then ''bzip2 compressed''
      else ''unknown compression'')"

definition print_type :: "buf \<Rightarrow> 'a console_scheme \<Rightarrow> 'a console_scheme option" where
  "print_type hdr st =
     do { os \<leftarrow> load hdr ih_os;
          arch \<leftarrow> load hdr ih_arch;
          type \<leftarrow> load hdr ih_type;
          comp \<leftarrow> load hdr ih_comp;
          printf ''%s %s %s (%s)''
            [VStr (Some (cstr (arch_name (code arch)))), VStr (Some (cstr (os_name (code os)))),
             VStr (Some (cstr (type_name (code type)))), VStr (Some (cstr (comp_name (code comp))))] st }"

text \<open>The table of image lengths ends with a zero.\<close>

partial_function (option) print_contents ::
  "u32 \<Rightarrow> u32 \<Rightarrow> 'a machine_scheme \<Rightarrow> 'a machine_scheme option" where
  "print_contents i len_ptr st =
     do { len \<leftarrow> mem_be32 (mem st) len_ptr;
          if len = 0 then Some st
          else do { st \<leftarrow> printf ''   Image %d: %8ld Bytes = '' [VWord i, VWord len] st;
                    st \<leftarrow> print_size len (cstr [CHR 0x0A]) st;
                    print_contents (i + 1) (len_ptr + 4) st } }"

text \<open>
  \<open>contents\<close> is the address behind the header, where the table of a multi-file image is; \<open>None\<close> when
  the header is the global variable, which nothing follows.
\<close>

definition print_image_hdr :: "buf \<Rightarrow> u32 option \<Rightarrow> 'a machine_scheme \<Rightarrow> 'a machine_scheme option" where
  "print_image_hdr hdr contents st =
     do { st \<leftarrow> printf (''   Image Name:   %.*s'' @ [CHR 0x0A])
                 [VWord (of_nat IH_NMLEN), VStr (Some (drop ih_name hdr))] st;
          st \<leftarrow> puts (cstr ''   Image Type:   '') st;
          st \<leftarrow> print_type hdr st;
          n \<leftarrow> rd_be32 (drop ih_size hdr);
          st \<leftarrow> printf ([CHR 0x0A] @ ''   Data Size:    %d Bytes = '') [VWord n] st;
          st \<leftarrow> print_size n (cstr [CHR 0x0A]) st;
          ld \<leftarrow> rd_be32 (drop ih_load hdr);
          ep \<leftarrow> rd_be32 (drop ih_ep hdr);
          st \<leftarrow> printf (''   Load Address: %08x'' @ [CHR 0x0A] @ ''   Entry Point:  %08x'' @ [CHR 0x0A])
                 [VWord ld, VWord ep] st;
          type \<leftarrow> load hdr ih_type;
          if code type = IH_TYPE_MULTI then
            do { len_ptr \<leftarrow> contents;
                 st \<leftarrow> puts (cstr (''   Contents:'' @ [CHR 0x0A])) st;
                 print_contents 0 len_ptr st }
          else Some st }"

section \<open>Checking an image\<close>

text \<open>The header with a blank CRC field, and whether its CRC is the one that was in the field.\<close>

definition header_crc :: "buf \<Rightarrow> (buf \<times> bool) option" where
  "header_crc hdr =
     do { checksum \<leftarrow> rd_be32 (drop ih_hcrc hdr);
          hdr \<leftarrow> put hdr ih_hcrc (be32 0);
          c \<leftarrow> crc32 0 (bytes hdr) HEADER_SIZE;
          Some (hdr, c = checksum) }"

definition data_crc_ok :: "buf \<Rightarrow> u32 \<Rightarrow> 'a machine_scheme \<Rightarrow> bool option" where
  "data_crc_ok hdr data st =
     do { len \<leftarrow> rd_be32 (drop ih_size hdr);
          c \<leftarrow> crc32 0 (bytes (mem_bytes (mem st) data (unat len))) (unat len);
          dcrc \<leftarrow> rd_be32 (drop ih_dcrc hdr);
          Some (c = dcrc) }"

definition image_info :: "u32 \<Rightarrow> 'a machine_scheme \<Rightarrow> (int \<times> 'a machine_scheme) option" where
  "image_info addr st =
     do { st \<leftarrow> printf ([CHR 0x0A] @ ''## Checking Image at %08lx ...'' @ [CHR 0x0A]) [VWord addr] st;
          let hdr = mem_bytes (mem st) addr HEADER_SIZE;
          magic \<leftarrow> rd_be32 hdr;
          if magic \<noteq> IH_MAGIC then
            do { st \<leftarrow> puts (cstr (''   Bad Magic Number'' @ [CHR 0x0A])) st; Some (1, st) }
          else
            do { (hdr, ok) \<leftarrow> header_crc hdr;
                 if \<not> ok then
                   do { st \<leftarrow> puts (cstr (''   Bad Header Checksum'' @ [CHR 0x0A])) st; Some (1, st) }
                 else
                   do { let data = addr + of_nat HEADER_SIZE;
                        st \<leftarrow> print_image_hdr (mem_bytes (mem st) addr HEADER_SIZE) (Some data) st;
                        st \<leftarrow> puts (cstr ''   Verifying Checksum ... '') st;
                        ok \<leftarrow> data_crc_ok hdr data st;
                        if \<not> ok then
                          do { st \<leftarrow> puts (cstr (''   Bad Data CRC'' @ [CHR 0x0A])) st; Some (1, st) }
                        else do { st \<leftarrow> puts (cstr (''OK'' @ [CHR 0x0A])) st; Some (0, st) } } } }"

fun iminfo_args :: "int \<Rightarrow> buf list \<Rightarrow> 'a machine_scheme \<Rightarrow> (int \<times> 'a machine_scheme) option" where
  "iminfo_args rcode [] st = Some (rcode, st)"
| "iminfo_args rcode (arg # args) st =
     do { (addr, _) \<leftarrow> simple_strtoul arg 16;
          (r, st) \<leftarrow> image_info addr st;
          iminfo_args (if r \<noteq> 0 then 1 else rcode) args st }"

definition do_iminfo :: "buf list \<Rightarrow> 'a machine_scheme \<Rightarrow> (int \<times> 'a machine_scheme) option" where
  "do_iminfo argv st =
     (if length argv < 2 then image_info (load_addr st) st else iminfo_args 0 (drop 1 argv) st)"

text \<open>One sector start of \<open>imls\<close>.\<close>

definition imls_sector :: "u32 \<Rightarrow> 'a machine_scheme \<Rightarrow> 'a machine_scheme option" where
  "imls_sector hdr_addr st =
     do { let hdr = mem_bytes (mem st) hdr_addr HEADER_SIZE;
          magic \<leftarrow> rd_be32 hdr;
          if hdr_addr = 0 \<or> magic \<noteq> IH_MAGIC then Some st
          else
            do { (_, ok) \<leftarrow> header_crc hdr;
                 if \<not> ok then Some st
                 else
                   do { let data = hdr_addr + of_nat HEADER_SIZE;
                        st \<leftarrow> printf (''Image at %08lX:'' @ [CHR 0x0A]) [VWord hdr_addr] st;
                        st \<leftarrow> print_image_hdr hdr (Some data) st;
                        st \<leftarrow> puts (cstr ''   Verifying Checksum ... '') st;
                        ok \<leftarrow> data_crc_ok hdr data st;
                        st \<leftarrow> (if ok then Some st else puts (cstr (''   Bad Data CRC'' @ [CHR 0x0A])) st);
                        puts (cstr (''OK'' @ [CHR 0x0A])) st } } }"

definition CFG_MAX_FLASH_SECT :: nat where "CFG_MAX_FLASH_SECT = 35"

fun imls_sectors :: "flash_info_t \<Rightarrow> nat \<Rightarrow> nat \<Rightarrow> 'a machine_scheme \<Rightarrow> 'a machine_scheme option" where
  "imls_sectors info j 0 st = Some st"
| "imls_sectors info j (Suc n) st =
     do { a \<leftarrow> load (fl_start info) j; st \<leftarrow> imls_sector a st; imls_sectors info (Suc j) n st }"

fun imls_banks :: "flash_info_t list \<Rightarrow> 'a machine_scheme \<Rightarrow> 'a machine_scheme option" where
  "imls_banks [] st = Some st"
| "imls_banks (info # infos) st =
     do { st \<leftarrow> (if flash_id info = FLASH_UNKNOWN then Some st else imls_sectors info 0 CFG_MAX_FLASH_SECT st);
          imls_banks infos st }"

definition do_imls :: "'a machine_scheme \<Rightarrow> (int \<times> 'a machine_scheme) option" where
  "do_imls st = do { st \<leftarrow> imls_banks (flash_info st) st; Some (0, st) }"

end
