(* ===== verification/Bootm.thy ===== *)
theory Bootm
  imports Image_Header
begin

text \<open>
  Booting an image (\<open>common/cmd_bootm.c\<close>) and the tags for the Linux kernel (\<open>lib_arm/armlinux.c\<close>).
  The decompression of zlib and what a started program does are not part of the model: the result
  says where control goes.
\<close>

section \<open>The tags of the kernel\<close>

record boot_info =
  bi_arch_number :: u32
  bi_boot_params :: u32
  bi_dram :: "(u32 \<times> u32) list"

definition ATAG_NONE :: u32 where "ATAG_NONE = 0"
definition ATAG_CORE :: u32 where "ATAG_CORE = 0x54410001"
definition ATAG_MEM :: u32 where "ATAG_MEM = 0x54410002"
definition ATAG_CMDLINE :: u32 where "ATAG_CMDLINE = 0x54410009"

text \<open>A tag at the pointer \<open>params\<close>: its size in words, its number, its data; then the next pointer.\<close>

definition put_tag :: "u32 \<Rightarrow> u32 \<Rightarrow> buf \<Rightarrow> u32 \<times> (u32 \<Rightarrow> char) \<Rightarrow> u32 \<times> (u32 \<Rightarrow> char)" where
  "put_tag words tag data p = (fst p + 4 * words, overlay (snd p) (fst p) (le32 words @ le32 tag @ data))"

definition setup_start_tag :: "boot_info \<Rightarrow> u32 \<times> (u32 \<Rightarrow> char) \<Rightarrow> u32 \<times> (u32 \<Rightarrow> char)" where
  "setup_start_tag bd p = put_tag 5 ATAG_CORE (le32 0 @ le32 0 @ le32 0) (bi_boot_params bd, snd p)"

fun setup_memory_tags :: "(u32 \<times> u32) list \<Rightarrow> u32 \<times> (u32 \<Rightarrow> char) \<Rightarrow> u32 \<times> (u32 \<Rightarrow> char)" where
  "setup_memory_tags [] p = p"
| "setup_memory_tags ((start, n) # banks) p =
     setup_memory_tags banks (put_tag 4 ATAG_MEM (le32 n @ le32 start) p)"

definition setup_commandline_tag :: "buf option \<Rightarrow> u32 \<times> (u32 \<Rightarrow> char) \<Rightarrow> (u32 \<times> (u32 \<Rightarrow> char)) option" where
  "setup_commandline_tag commandline p =
     (case commandline of
        None \<Rightarrow> Some p
      | Some cmd \<Rightarrow>
          do { s \<leftarrow> str_at cmd;
               let s = dropWhile (\<lambda>c. c = CHR '' '') s;
               if s = [] then Some p
               else Some (put_tag (of_nat ((8 + length s + 1 + 4) div 4)) ATAG_CMDLINE (cstr s) p) })"

definition setup_end_tag :: "u32 \<times> (u32 \<Rightarrow> char) \<Rightarrow> u32 \<times> (u32 \<Rightarrow> char)" where
  "setup_end_tag p = (fst p, overlay (snd p) (fst p) (le32 0 @ le32 ATAG_NONE))"

definition setup_tags :: "boot_info \<Rightarrow> buf option \<Rightarrow> (u32 \<Rightarrow> char) \<Rightarrow> (u32 \<Rightarrow> char) option" where
  "setup_tags bd commandline m =
     do { let p = setup_start_tag bd (0, m);
          let p = setup_memory_tags (bi_dram bd) p;
          p \<leftarrow> setup_commandline_tag commandline p;
          Some (snd (setup_end_tag p)) }"

section \<open>Starting\<close>

text \<open>Where control goes: back to the caller, to a program, or to a reset of the board.\<close>

datatype boot_end =
  Returned int | Kernel u32 u32 u32 | Loader u32 u32 buf | Rtems u32 | Application u32 "buf list" | Reset

text \<open>\<open>for (i = 1; len_ptr[i]; ++i) data += 4;\<close> with \<open>p\<close> at \<open>len_ptr[i]\<close>.\<close>

partial_function (option) skip_lengths :: "(u32 \<Rightarrow> char) \<Rightarrow> u32 \<Rightarrow> u32 \<Rightarrow> u32 option" where
  "skip_lengths m p data =
     do { w \<leftarrow> mem_be32 m p; if w = 0 then Some data else skip_lengths m (p + 4) (data + 4) }"

text \<open>A ramdisk given as the second argument; \<open>False\<close> is a reset.\<close>

definition load_ramdisk :: "bool \<Rightarrow> u32 \<Rightarrow> 'a machine_scheme \<Rightarrow> (bool \<times> 'a machine_scheme) option" where
  "load_ramdisk verify addr st =
     do { st \<leftarrow> printf (''## Loading Ramdisk Image at %08lx ...'' @ [CHR 0x0A]) [VWord addr] st;
          let hdr = mem_bytes (mem st) addr HEADER_SIZE;
          magic \<leftarrow> rd_be32 hdr;
          if magic \<noteq> IH_MAGIC then
            do { st \<leftarrow> printf (''Bad Magic Number'' @ [CHR 0x0A]) [] st; Some (False, st) }
          else
            do { (hdr, ok) \<leftarrow> header_crc hdr;
                 if \<not> ok then
                   do { st \<leftarrow> printf (''Bad Header Checksum'' @ [CHR 0x0A]) [] st; Some (False, st) }
                 else
                   do { st \<leftarrow> print_image_hdr hdr None st;
                        let data = addr + of_nat HEADER_SIZE;
                        st \<leftarrow> (if verify then printf ''   Verifying Checksum ... '' [] st else Some st);
                        ok \<leftarrow> (if verify then data_crc_ok hdr data st else Some True);
                        if \<not> ok then
                          do { st \<leftarrow> printf (''Bad Data CRC'' @ [CHR 0x0A]) [] st; Some (False, st) }
                        else
                          do { st \<leftarrow> (if verify then printf (''OK'' @ [CHR 0x0A]) [] st else Some st);
                               os \<leftarrow> load hdr ih_os;
                               arch \<leftarrow> load hdr ih_arch;
                               type \<leftarrow> load hdr ih_type;
                               if code os \<noteq> IH_OS_LINUX \<or> code arch \<noteq> IH_CPU_ARM \<or> code type \<noteq> IH_TYPE_RAMDISK then
                                 do { st \<leftarrow> printf (''No Linux ARM Ramdisk Image'' @ [CHR 0x0A]) [] st; Some (False, st) }
                               else Some (True, st) } } } }"

text \<open>
  The addresses of the initial ramdisk are computed, but \<open>CONFIG_INITRD_TAG\<close> is not set for the board
  and nothing is passed to the kernel.
\<close>

definition find_ramdisk ::
  "buf list \<Rightarrow> bool \<Rightarrow> buf \<Rightarrow> u32 \<Rightarrow> 'a machine_scheme \<Rightarrow> (bool \<times> 'a machine_scheme) option" where
  "find_ramdisk argv verify hdr len_ptr st =
     (if length argv \<ge> 3 then
        do { arg \<leftarrow> load argv 2;
             (addr, _) \<leftarrow> simple_strtoul arg 16;
             load_ramdisk verify addr st }
      else
        do { type \<leftarrow> load hdr ih_type;
             second \<leftarrow> mem_be32 (mem st) (len_ptr + 4);
             if code type = IH_TYPE_MULTI \<and> second \<noteq> 0
             then do { _ \<leftarrow> skip_lengths (mem st) (len_ptr + 4) (len_ptr + 8); Some (True, st) }
             else Some (True, st) })"

definition do_bootm_linux ::
  "boot_info \<Rightarrow> buf list \<Rightarrow> buf \<Rightarrow> u32 \<Rightarrow> bool \<Rightarrow> 'a machine_scheme \<Rightarrow> (boot_end \<times> 'a machine_scheme) option" where
  "do_bootm_linux bd argv hdr len_ptr verify st =
     do { commandline \<leftarrow> getenv (cstr ''bootargs'') (board.truncate st);
          theKernel \<leftarrow> rd_be32 (drop ih_ep hdr);
          (go, st) \<leftarrow> find_ramdisk argv verify hdr len_ptr st;
          if \<not> go then Some (Reset, st)
          else
            do { m \<leftarrow> setup_tags bd commandline (mem st);
                 st \<leftarrow> printf ([CHR 0x0A] @ ''Xungao Booting ...'' @ [CHR 0x0A, CHR 0x0A]) [] (st\<lparr>mem := m\<rparr>);
                 Some (Kernel theKernel (bi_arch_number bd) (bi_boot_params bd), st) } }"

fun join_args :: "buf list \<Rightarrow> buf option" where
  "join_args [] = Some []"
| "join_args [a] = str_at a"
| "join_args (a # b # as) =
     do { s \<leftarrow> str_at a; rest \<leftarrow> join_args (b # as); Some (s @ CHR '' '' # rest) }"

text \<open>The entry is used as it is in the header, in network byte order.\<close>

definition do_bootm_netbsd ::
  "buf list \<Rightarrow> u32 \<Rightarrow> buf \<Rightarrow> u32 \<Rightarrow> 'a machine_scheme \<Rightarrow> (boot_end \<times> 'a machine_scheme) option" where
  "do_bootm_netbsd argv addr hdr len_ptr st =
     do { type \<leftarrow> load hdr ih_type;
          second \<leftarrow> mem_be32 (mem st) (len_ptr + 4);
          let img_addr = (if code type = IH_TYPE_MULTI \<and> second \<noteq> 0 then addr else 0);
          cmdline \<leftarrow> (if length argv > 2 then join_args (drop 2 argv)
                     else do { s \<leftarrow> getenv (cstr ''bootargs'') (board.truncate st);
                               (case s of None \<Rightarrow> Some [] | Some s \<Rightarrow> str_at s) });
          loader \<leftarrow> rd_le32 (drop ih_ep hdr);
          st \<leftarrow> printf (''## Transferring control to NetBSD stage-2 loader (at address %08lx) ...'' @ [CHR 0x0A])
                 [VWord loader] st;
          Some (Loader loader img_addr (cstr cmdline), st) }"

definition do_bootm_rtems :: "buf \<Rightarrow> 'a machine_scheme \<Rightarrow> (boot_end \<times> 'a machine_scheme) option" where
  "do_bootm_rtems hdr st =
     do { entry \<leftarrow> rd_le32 (drop ih_ep hdr);
          st \<leftarrow> printf (''## Transferring control to RTEMS (at address %08lx) ...'' @ [CHR 0x0A]) [VWord entry] st;
          Some (Rtems entry, st) }"

section \<open>Decompression\<close>

text \<open>\<open>while (src[i++] != 0);\<close>\<close>

partial_function (option) skip_zero :: "(u32 \<Rightarrow> char) \<Rightarrow> u32 \<Rightarrow> u32 \<Rightarrow> u32 option" where
  "skip_zero m src i = (if m (src + i) = NUL then Some (i + 1) else skip_zero m src (i + 1))"

text \<open>
  The library zlib is a parameter: the result of \<open>inflateInit2\<close>, and \<open>inflate\<close> on \<open>next_in\<close>,
  \<open>avail_in\<close>, \<open>next_out\<close>, \<open>avail_out\<close> with its result, the memory and \<open>next_out\<close> after it.
\<close>

record zlib =
  inflate_init :: int
  inflate_run :: "(u32 \<Rightarrow> char) \<Rightarrow> u32 \<Rightarrow> u32 \<Rightarrow> u32 \<Rightarrow> u32 \<Rightarrow> int \<times> (u32 \<Rightarrow> char) \<times> u32"

definition gunzip_header :: "(u32 \<Rightarrow> char) \<Rightarrow> u32 \<Rightarrow> u32 option" where
  "gunzip_header m src =
     do { let flags = (of_char (m (src + 3)) :: u32);
          let i = (if flags AND 4 \<noteq> 0
                   then 12 + of_char (m (src + 10)) + push_bit 8 (of_char (m (src + 11))) else 10);
          i \<leftarrow> (if flags AND 8 \<noteq> 0 then skip_zero m src i else Some i);
          i \<leftarrow> (if flags AND 0x10 \<noteq> 0 then skip_zero m src i else Some i);
          Some (if flags AND 2 \<noteq> 0 then i + 2 else i) }"

definition gunzip ::
  "zlib \<Rightarrow> u32 \<Rightarrow> u32 \<Rightarrow> u32 \<Rightarrow> u32 \<Rightarrow> 'a machine_scheme \<Rightarrow> (int \<times> u32 \<times> 'a machine_scheme) option" where
  "gunzip z dst dstlen src len st =
     (if code (mem st (src + 2)) \<noteq> 8 \<or> (of_char (mem st (src + 3)) :: u32) AND 0xe0 \<noteq> 0 then
        do { st \<leftarrow> puts (cstr (''Error: Bad gzipped data'' @ [CHR 0x0A])) st; Some (-1, len, st) }
      else
        do { i \<leftarrow> gunzip_header (mem st) src;
             if sint i \<ge> sint len then
               do { st \<leftarrow> puts (cstr (''Error: gunzip out of data in header'' @ [CHR 0x0A])) st; Some (-1, len, st) }
             else if inflate_init z \<noteq> 0 then
               do { st \<leftarrow> printf (''Error: inflateInit2() returned %d'' @ [CHR 0x0A]) [VWord (of_int (inflate_init z))] st;
                    Some (-1, len, st) }
             else
               do { let (r, m, next_out) = inflate_run z (mem st) (src + i) (len - i) dst dstlen;
                    let st = st\<lparr>mem := m\<rparr>;
                    if r \<noteq> 0 \<and> r \<noteq> 1 then
                      do { st \<leftarrow> printf (''Error: inflate() returned %d'' @ [CHR 0x0A]) [VWord (of_int r)] st;
                           Some (-1, len, st) }
                    else Some (0, next_out - dst, st) } })"


section \<open>The command\<close>

text \<open>
  The first \<open>switch\<close> on the type: what is printed as its name, where the data are, their length and the
  load address.  A load address on the command line is stored in the header, where it is read in
  network byte order.  The inner \<open>None\<close> is a type that cannot be booted.
\<close>

definition bootm_type ::
  "buf list \<Rightarrow> buf \<Rightarrow> u32 \<Rightarrow> 'a machine_scheme \<Rightarrow> (string \<times> u32 \<times> u32 \<times> u32) option option" where
  "bootm_type argv hdr data st =
     do { type \<leftarrow> load hdr ih_type;
          len \<leftarrow> rd_be32 (drop ih_size hdr);
          ld \<leftarrow> rd_be32 (drop ih_load hdr);
          if code type = IH_TYPE_STANDALONE then
            if length argv > 2 then
              do { arg \<leftarrow> load argv 2; (a, _) \<leftarrow> simple_strtoul arg 16;
                   Some (Some (''Standalone Application'', data, len, htonl a)) }
            else Some (Some (''Standalone Application'', data, len, ld))
          else if code type = IH_TYPE_KERNEL then Some (Some (''Kernel Image'', data, len, ld))
          else if code type = IH_TYPE_MULTI then
            do { len \<leftarrow> mem_be32 (mem st) data;
                 start \<leftarrow> skip_lengths (mem st) (data + 4) (data + 8);
                 Some (Some (''Multi-File Image'', start, len, ld)) }
          else Some None }"

text \<open>
  The second \<open>switch\<close> brings the image to its load address: the new length, or (inside) the end
  of the command.
\<close>

definition bootm_load ::
  "zlib \<Rightarrow> buf \<Rightarrow> u32 \<Rightarrow> string \<Rightarrow> u32 \<Rightarrow> u32 \<Rightarrow> u32 \<Rightarrow> 'a machine_scheme \<Rightarrow>
     ((boot_end + u32) \<times> 'a machine_scheme) option" where
  "bootm_load z hdr addr name data len ld st =
     do { comp \<leftarrow> load hdr ih_comp;
          if code comp = IH_COMP_NONE then
            if ld = addr then
              do { st \<leftarrow> printf ''   XIP %s ... '' [VStr (Some (cstr name))] st; Some (Inr len, st) }
            else Some (Inr len, st\<lparr>mem := overlay (mem st) ld (mem_bytes (mem st) data (unat len))\<rparr>)
          else if code comp = IH_COMP_GZIP then
            do { st \<leftarrow> printf ''   Uncompressing %s ... '' [VStr (Some (cstr name))] st;
                 (r, len, st) \<leftarrow> gunzip z ld 0x400000 data len st;
                 if r \<noteq> 0 then
                   do { st \<leftarrow> puts (cstr (''GUNZIP ERROR - must RESET board to recover'' @ [CHR 0x0A])) st;
                        Some (Inl Reset, st) }
                 else Some (Inr len, st) }
          else
            do { st \<leftarrow> printf (''Unimplemented compression type %d'' @ [CHR 0x0A]) [VWord (of_nat (code comp))] st;
                 Some (Inl (Returned 1), st) } }"

definition bootm_standalone ::
  "(u32 \<Rightarrow> int) \<Rightarrow> buf list \<Rightarrow> buf \<Rightarrow> u32 \<Rightarrow> 'a machine_scheme \<Rightarrow> (boot_end \<times> 'a machine_scheme) option" where
  "bootm_standalone start argv hdr len st =
     do { s \<leftarrow> getenv (cstr ''autostart'') (board.truncate st);
          no \<leftarrow> (case s of None \<Rightarrow> Some False | Some s \<Rightarrow> map_option (\<lambda>r. r = 0) (strcmp s (cstr ''no'')));
          if no then
            do { (b, _, _) \<leftarrow> vsprintf (replicate 32 NUL) (cstr ''%lX'') [VWord len];
                 st \<leftarrow> on_board (setenv start (cstr ''filesize'') (Some b)) st;
                 Some (Returned 0, st) }
          else do { ep \<leftarrow> rd_be32 (drop ih_ep hdr); Some (Application ep (drop 1 argv), st) } }"

definition bootm_start ::
  "(u32 \<Rightarrow> int) \<Rightarrow> boot_info \<Rightarrow> buf list \<Rightarrow> u32 \<Rightarrow> buf \<Rightarrow> u32 \<Rightarrow> u32 \<Rightarrow> bool \<Rightarrow> 'a machine_scheme \<Rightarrow>
     (boot_end \<times> 'a machine_scheme) option" where
  "bootm_start start bd argv addr hdr len_ptr len verify st =
     do { type \<leftarrow> load hdr ih_type;
          os \<leftarrow> load hdr ih_os;
          if code type = IH_TYPE_STANDALONE then bootm_standalone start argv hdr len st
          else if code os = IH_OS_NETBSD then do_bootm_netbsd argv addr hdr len_ptr st
          else if code os = IH_OS_RTEMS then do_bootm_rtems hdr st
          else do_bootm_linux bd argv hdr len_ptr verify st }"

text \<open>Behind the checks of the header; the data CRC is not verified (the code is commented out).\<close>

definition bootm_image ::
  "zlib \<Rightarrow> (u32 \<Rightarrow> int) \<Rightarrow> boot_info \<Rightarrow> cmd_tbl \<Rightarrow> buf list \<Rightarrow> u32 \<Rightarrow> buf \<Rightarrow> bool \<Rightarrow> 'a machine_scheme \<Rightarrow>
     (boot_end \<times> 'a machine_scheme) option" where
  "bootm_image z start bd cmdtp argv addr hdr verify st =
     do { st \<leftarrow> print_image_hdr (mem_bytes (mem st) addr HEADER_SIZE) (Some (addr + of_nat HEADER_SIZE)) st;
          let len_ptr = addr + of_nat HEADER_SIZE;
          arch \<leftarrow> load hdr ih_arch;
          if code arch \<noteq> IH_CPU_ARM then
            do { st \<leftarrow> printf (''Unsupported Architecture 0x%x'' @ [CHR 0x0A]) [VWord (of_nat (code arch))] st;
                 Some (Returned 1, st) }
          else
            do { t \<leftarrow> bootm_type argv hdr len_ptr st;
                 (case t of
                    None \<Rightarrow>
                      do { st \<leftarrow> printf (''Wrong Image Type for %s command'' @ [CHR 0x0A])
                                  [VStr (Some (cstr (cmd_name cmdtp)))] st;
                           Some (Returned 1, st) }
                  | Some (name, data, len, ld) \<Rightarrow>
                      do { (r, st) \<leftarrow> bootm_load z hdr addr name data len ld st;
                           (case r of
                              Inl e \<Rightarrow> Some (e, st)
                            | Inr len \<Rightarrow>
                                do { st \<leftarrow> puts (cstr (''OK'' @ [CHR 0x0A])) st;
                                     bootm_start start bd argv addr hdr len_ptr len verify st }) }) } }"

definition do_bootm ::
  "zlib \<Rightarrow> (u32 \<Rightarrow> int) \<Rightarrow> boot_info \<Rightarrow> cmd_tbl \<Rightarrow> buf list \<Rightarrow> 'a machine_scheme \<Rightarrow>
     (boot_end \<times> 'a machine_scheme) option" where
  "do_bootm z start bd cmdtp argv st =
     do { s \<leftarrow> getenv (cstr ''verify'') (board.truncate st);
          verify \<leftarrow> (case s of None \<Rightarrow> Some True | Some s \<Rightarrow> map_option (\<lambda>c. c \<noteq> CHR ''n'') (load s 0));
          addr \<leftarrow> (if length argv < 2 then Some (load_addr st)
                  else do { arg \<leftarrow> load argv 1; map_option fst (simple_strtoul arg 16) });
          st \<leftarrow> printf (''## Booting image at %08lx ...'' @ [CHR 0x0A]) [VWord addr] st;
          let hdr = mem_bytes (mem st) addr HEADER_SIZE;
          magic \<leftarrow> rd_be32 hdr;
          if magic \<noteq> IH_MAGIC then
            do { st \<leftarrow> puts (cstr (''Bad Magic Number'' @ [CHR 0x0A])) st; Some (Returned 1, st) }
          else
            do { (hdr, ok) \<leftarrow> header_crc hdr;
                 if \<not> ok then
                   do { st \<leftarrow> puts (cstr (''Bad Header Checksum'' @ [CHR 0x0A])) st; Some (Returned 1, st) }
                 else bootm_image z start bd cmdtp argv addr hdr verify st } }"

end
