(* ===== verification/Bootm_Props.thy ===== *)
theory Bootm_Props
  imports Bootm Load_Props
begin

text \<open>
  The tags for the kernel: what the kernel reads from them is the memory map and the command line.
\<close>

section \<open>Tags in memory\<close>

lemma overlay_self: "overlay m a (mem_bytes m a n) = m"
proof
  fix x
  show "overlay m a (mem_bytes m a n) x = m x" by (simp add: overlay_def mem_bytes_def)
qed

lemma length_mem_bytes [simp]: "length (mem_bytes m a n) = n"
  by (simp add: mem_bytes_def)

text \<open>Bytes that are skipped belong to the overlay with the value they have.\<close>

lemma overlay_gap:
  assumes "length bs + g \<le> 2 ^ 32"
  shows "overlay m a (bs @ mem_bytes (overlay m a bs) (a + of_nat (length bs)) g) = overlay m a bs"
proof -
  have "length (bs @ mem_bytes (overlay m a bs) (a + of_nat (length bs)) g) \<le> 2 ^ 32" using assms by simp
  from overlay_append [OF this, of m a] show ?thesis unfolding overlay_self .
qed

definition tag_bytes :: "u32 \<Rightarrow> u32 \<Rightarrow> buf \<Rightarrow> buf" where
  "tag_bytes words tag data = le32 words @ le32 tag @ data"

lemma drop_le32: "drop 4 (le32 w @ r) = r" "drop 8 (le32 w @ le32 v @ r) = r" "drop 8 (le32 w @ r) = drop 4 r"
  by (simp_all add: le32_def)

lemma length_tag_bytes [simp]: "length (tag_bytes w t d) = 8 + length d"
  by (simp add: tag_bytes_def)

lemma put_tag_append:
  assumes "4 * unat words = 8 + length data + g" "length bs + 8 + length data + g \<le> 2 ^ 32"
  shows "\<exists>gap. length gap = g \<and>
    put_tag words tag data (a + of_nat (length bs), overlay m a bs) =
      (a + of_nat (length (bs @ tag_bytes words tag (data @ gap))), overlay m a (bs @ tag_bytes words tag (data @ gap)))"
proof -
  let ?bs = "bs @ tag_bytes words tag data"
  define gap where "gap = mem_bytes (overlay m a ?bs) (a + of_nat (length ?bs)) g"
  have len: "length ?bs + g \<le> 2 ^ 32" using assms(2) by simp
  have "overlay (overlay m a bs) (a + of_nat (length bs)) (tag_bytes words tag data) = overlay m a ?bs"
    using overlay_append [of bs "tag_bytes words tag data" m a] len by simp
  also have "\<dots> = overlay m a (?bs @ gap)" unfolding gap_def by (rule overlay_gap [OF len, symmetric])
  finally have o1: "overlay (overlay m a bs) (a + of_nat (length bs)) (tag_bytes words tag data) =
      overlay m a (bs @ tag_bytes words tag (data @ gap))" by (simp add: tag_bytes_def)
  have "4 * words = of_nat (4 * unat words)" by simp
  also have "\<dots> = of_nat (8 + length data + g)" unfolding assms(1) ..
  finally have "a + of_nat (length bs) + 4 * words = a + of_nat (length (bs @ tag_bytes words tag (data @ gap)))"
    by (simp add: gap_def add.assoc)
  then show ?thesis
    using o1 by (intro exI [of _ gap]) (simp add: put_tag_def gap_def tag_bytes_def)
qed

section \<open>Reading the tags\<close>

datatype tag_view = Core_tag u32 u32 u32 | Mem_tag u32 u32 | Cmdline_tag string

definition view_tag :: "u32 \<Rightarrow> buf \<Rightarrow> tag_view option" where
  "view_tag tag data =
     (if tag = ATAG_CORE then
        do { f \<leftarrow> rd_le32 data; p \<leftarrow> rd_le32 (drop 4 data); r \<leftarrow> rd_le32 (drop 8 data); Some (Core_tag f p r) }
      else if tag = ATAG_MEM then
        do { n \<leftarrow> rd_le32 data; s \<leftarrow> rd_le32 (drop 4 data); Some (Mem_tag s n) }
      else if tag = ATAG_CMDLINE then map_option Cmdline_tag (str_at data)
      else None)"

text \<open>The loop \<open>for_each_tag\<close> of the kernel, for at most \<open>n\<close> tags.\<close>

fun parse_tags :: "(u32 \<Rightarrow> char) \<Rightarrow> nat \<Rightarrow> u32 \<Rightarrow> tag_view list option" where
  "parse_tags m 0 p = None"
| "parse_tags m (Suc n) p =
     do { words \<leftarrow> rd_le32 (mem_bytes m p 4);
          if words = 0 then Some []
          else
            do { tag \<leftarrow> rd_le32 (mem_bytes m (p + 4) 4);
                 v \<leftarrow> view_tag tag (mem_bytes m (p + 8) (4 * unat words - 8));
                 vs \<leftarrow> parse_tags m n (p + 4 * words);
                 Some (v # vs) } }"

lemma mem_bytes_part:
  assumes "length (pre @ bs @ post) < 2 ^ 32"
  shows "mem_bytes (overlay m a (pre @ bs @ post)) (a + of_nat (length pre)) (length bs) = bs"
  using mem_bytes_overlay [of "length pre" "length bs" "pre @ bs @ post" m a] assms by simp

lemma parse_tag:
  assumes "4 * unat words = 8 + length data" "length (pre @ tag_bytes words tag data @ post) < 2 ^ 32"
    "B = pre @ tag_bytes words tag data @ post"
  shows "parse_tags (overlay m a B) (Suc n) (a + of_nat (length pre)) =
    do { v \<leftarrow> view_tag tag data;
         vs \<leftarrow> parse_tags (overlay m a B) n (a + of_nat (length (pre @ tag_bytes words tag data)));
         Some (v # vs) }"
proof -
  let ?p = "a + of_nat (length pre) :: u32"
  have w: "words \<noteq> 0" using assms(1) by auto
  have l: "length (le32 x) = 4" for x by (simp add: le32_def)
  have 1: "mem_bytes (overlay m a B) ?p 4 = le32 words"
    using mem_bytes_part [of pre "le32 words" "le32 tag @ data @ post" m a] assms(2) unfolding assms(3)
    by (simp add: tag_bytes_def l)
  have 2: "mem_bytes (overlay m a B) (?p + 4) 4 = le32 tag"
    using mem_bytes_part [of "pre @ le32 words" "le32 tag" "data @ post" m a] assms(2) unfolding assms(3)
    by (simp add: tag_bytes_def l add.assoc)
  have 3: "mem_bytes (overlay m a B) (?p + 8) (4 * unat words - 8) = data"
    using mem_bytes_part [of "pre @ le32 words @ le32 tag" "data" "post" m a] assms(2) unfolding assms(3)
    by (simp add: tag_bytes_def l add.assoc assms(1))
  have "4 * words = of_nat (4 * unat words)" by simp
  also have "\<dots> = of_nat (8 + length data)" unfolding assms(1) ..
  finally have 4: "?p + 4 * words = a + of_nat (length (pre @ tag_bytes words tag data))" by (simp add: add.assoc)
  have r: "rd_le32 (le32 x) = Some x" for x using rd_le32_le32 [of x "[]"] by simp
  show ?thesis unfolding parse_tags.simps 1 2 3 4 r bind.bind_lunit if_not_P [OF w] ..
qed

lemma parse_end:
  assumes "length (pre @ le32 0 @ post) < 2 ^ 32"
  shows "parse_tags (overlay m a (pre @ le32 0 @ post)) (Suc n) (a + of_nat (length pre)) = Some []"
proof -
  have "mem_bytes (overlay m a (pre @ le32 0 @ post)) (a + of_nat (length pre)) 4 = le32 0"
    using mem_bytes_part [of pre "le32 0" post m a] assms by (simp add: length_le32)
  moreover have "rd_le32 (le32 0) = Some 0" using rd_le32_le32 [of 0 "[]"] by simp
  ultimately show ?thesis unfolding parse_tags.simps by (simp only: bind.bind_lunit if_True refl)
qed


definition all_bytes :: "(u32 \<times> u32 \<times> buf) list \<Rightarrow> buf" where
  "all_bytes ts = concat (map (\<lambda>(w, t, d). tag_bytes w t d) ts)"

lemma all_bytes_simps [simp]:
  "all_bytes [] = []" "all_bytes ((w, t, d) # ts) = tag_bytes w t d @ all_bytes ts"
  "all_bytes (ts @ us) = all_bytes ts @ all_bytes us"
  by (simp_all add: all_bytes_def)

definition good_tag :: "u32 \<times> u32 \<times> buf \<Rightarrow> tag_view \<Rightarrow> bool" where
  "good_tag x v \<longleftrightarrow> (case x of (w, t, d) \<Rightarrow> 4 * unat w = 8 + length d \<and> view_tag t d = Some v)"

lemma parse_all:
  assumes "list_all2 good_tag ts vs" "B = pre @ all_bytes ts @ le32 0 @ post" "length B < 2 ^ 32"
  shows "parse_tags (overlay m a B) (Suc (length ts)) (a + of_nat (length pre)) = Some vs"
  using assms
proof (induction ts vs arbitrary: pre rule: list_all2_induct)
  case Nil
  then show ?case using parse_end [of pre post] by simp
next
  case (Cons x ts v vs)
  obtain w t d where x: "x = (w, t, d)" by (cases x)
  have good: "4 * unat w = 8 + length d" "view_tag t d = Some v" using Cons.hyps(1) by (simp_all add: good_tag_def x)
  have B: "B = pre @ tag_bytes w t d @ all_bytes ts @ le32 0 @ post"
    "B = (pre @ tag_bytes w t d) @ all_bytes ts @ le32 0 @ post"
    using Cons.prems(1) by (simp_all add: x)
  have len: "length (pre @ tag_bytes w t d @ all_bytes ts @ le32 0 @ post) < 2 ^ 32" using Cons.prems(2) B(1) by simp
  show ?case
    unfolding list.size add_Suc_right add_0_right parse_tag [OF good(1) len B(1)] good(2) bind.bind_lunit
      Cons.IH [OF B(2) Cons.prems(2)] ..
qed

section \<open>The tags that are set up\<close>

definition mem_tag :: "u32 \<times> u32 \<Rightarrow> u32 \<times> u32 \<times> buf" where
  "mem_tag bank = (4, ATAG_MEM, le32 (snd bank) @ le32 (fst bank))"

lemma put_whole_tag:
  assumes "4 * unat words = 8 + length data" "length bs + 8 + length data \<le> 2 ^ 32"
  shows "put_tag words tag data (a + of_nat (length bs), overlay m a bs) =
    (a + of_nat (length (bs @ tag_bytes words tag data)), overlay m a (bs @ tag_bytes words tag data))"
  using put_tag_append [of words data 0 bs tag a m] assms by auto

lemma memory_tags:
  "length bs + 16 * length banks \<le> 2 ^ 32 \<Longrightarrow>
    setup_memory_tags banks (a + of_nat (length bs), overlay m a bs) =
      (a + of_nat (length (bs @ all_bytes (map mem_tag banks))), overlay m a (bs @ all_bytes (map mem_tag banks)))"
proof (induction banks arbitrary: bs)
  case (Cons bank banks)
  obtain s n where b: "bank = (s, n)" by (cases bank)
  have "put_tag 4 ATAG_MEM (le32 n @ le32 s) (a + of_nat (length bs), overlay m a bs) =
      (a + of_nat (length (bs @ tag_bytes 4 ATAG_MEM (le32 n @ le32 s))),
       overlay m a (bs @ tag_bytes 4 ATAG_MEM (le32 n @ le32 s)))"
    using Cons.prems by (intro put_whole_tag) simp_all
  then show ?case
    using Cons.IH [of "bs @ tag_bytes 4 ATAG_MEM (le32 n @ le32 s)"] Cons.prems
    by (simp add: b mem_tag_def)
qed simp

text \<open>The command line as the kernel gets it: without leading blanks, and only when something is left.\<close>

definition cmdline_of :: "buf option \<Rightarrow> string option" where
  "cmdline_of commandline =
     (case commandline of None \<Rightarrow> None
      | Some b \<Rightarrow> (case str_at b of None \<Rightarrow> None
                   | Some s \<Rightarrow> let s = dropWhile (\<lambda>c. c = CHR '' '') s in if s = [] then None else Some s))"

definition cmdline_words :: "string \<Rightarrow> nat" where
  "cmdline_words s = (length s + 13) div 4"

lemma commandline_tag:
  assumes "commandline = None \<or> (\<exists>s. str_at (the commandline) = Some s)"
    "length bs + (case cmdline_of commandline of None \<Rightarrow> 0 | Some s \<Rightarrow> 4 * cmdline_words s) \<le> 2 ^ 32"
  shows "\<exists>ts. setup_commandline_tag commandline (a + of_nat (length bs), overlay m a bs) =
      Some (a + of_nat (length (bs @ all_bytes ts)), overlay m a (bs @ all_bytes ts)) \<and>
    list_all2 good_tag ts (case cmdline_of commandline of None \<Rightarrow> [] | Some s \<Rightarrow> [Cmdline_tag s]) \<and>
    length (all_bytes ts) = (case cmdline_of commandline of None \<Rightarrow> 0 | Some s \<Rightarrow> 4 * cmdline_words s)"
proof (cases "cmdline_of commandline")
  case None
  then have "setup_commandline_tag commandline p = Some p" for p
    using assms(1) by (cases commandline) (auto simp: setup_commandline_tag_def cmdline_of_def Let_def split: if_splits)
  then show ?thesis using None by (intro exI [of _ "[]"]) simp
next
  case (Some s)
  then obtain b s0 where b: "commandline = Some b" "str_at b = Some s0" "s = dropWhile (\<lambda>c. c = CHR '' '') s0" "s \<noteq> []"
    by (auto simp: cmdline_of_def Let_def split: option.splits if_splits)
  define w where "w = cmdline_words s"
  define g where "g = 4 * w - 8 - Suc (length s)"
  have w: "4 * w = 8 + Suc (length s) + g" unfolding g_def w_def cmdline_words_def by simp
  have le: "length bs + 4 * w \<le> 2 ^ 32" using assms(2) Some by (simp add: w_def)
  then have "w < 2 ^ 32" by simp
  then have u: "unat (of_nat w :: u32) = w" by (rule unat_of_nat_u32)
  have c: "setup_commandline_tag commandline p = Some (put_tag (of_nat w) ATAG_CMDLINE (cstr s) p)" for p
  proof -
    have "(8 + length s + 1 + 4) div 4 = w" by (simp add: w_def cmdline_words_def add.commute)
    then show ?thesis
      unfolding setup_commandline_tag_def b(1) option.case b(2) bind.bind_lunit Let_def b(3) [symmetric]
        if_not_P [OF b(4)] by (simp only:)
  qed
  have nonul: "nonul s" using str_at_Some [OF b(2)] b(3) by (auto simp: nonul_def dest: set_dropWhileD)
  obtain gap where gap: "put_tag (of_nat w) ATAG_CMDLINE (cstr s) (a + of_nat (length bs), overlay m a bs) =
      (a + of_nat (length (bs @ tag_bytes (of_nat w) ATAG_CMDLINE (cstr s @ gap))),
       overlay m a (bs @ tag_bytes (of_nat w) ATAG_CMDLINE (cstr s @ gap)))" "length gap = g"
    using put_tag_append [of "of_nat w" "cstr s" g bs ATAG_CMDLINE a m] w le unfolding u by auto
  have "view_tag ATAG_CMDLINE (cstr s @ gap) = Some (Cmdline_tag s)"
    using nonul by (simp add: view_tag_def ATAG_CMDLINE_def ATAG_CORE_def ATAG_MEM_def cstr_def str_at_append)
  then have "good_tag (of_nat w, ATAG_CMDLINE, cstr s @ gap) (Cmdline_tag s)"
    using w gap(2) u by (simp add: good_tag_def)
  then show ?thesis
    using c gap w Some by (intro exI [of _ "[(of_nat w, ATAG_CMDLINE, cstr s @ gap)]"]) (simp add: w_def)
qed


definition kernel_view :: "boot_info \<Rightarrow> buf option \<Rightarrow> tag_view list" where
  "kernel_view bd commandline =
     Core_tag 0 0 0 # map (\<lambda>(start, n). Mem_tag start n) (bi_dram bd) @
     (case cmdline_of commandline of None \<Rightarrow> [] | Some s \<Rightarrow> [Cmdline_tag s])"

definition tags_size :: "boot_info \<Rightarrow> buf option \<Rightarrow> nat" where
  "tags_size bd commandline =
     28 + 16 * length (bi_dram bd) + (case cmdline_of commandline of None \<Rightarrow> 0 | Some s \<Rightarrow> 4 * cmdline_words s)"

lemma length_mem_tags: "length (all_bytes (map mem_tag banks)) = 16 * length banks"
  by (induction banks) (simp_all add: mem_tag_def)

lemma good_mem_tags: "list_all2 good_tag (map mem_tag banks) (map (\<lambda>(start, n). Mem_tag start n) banks)"
  by (induction banks)
    (auto simp: good_tag_def mem_tag_def view_tag_def ATAG_MEM_def ATAG_CORE_def le32_def [symmetric] drop_le32
      rd_le32_le32 [of _ "[]", simplified])

lemma setup_tags_parsed:
  assumes "commandline = None \<or> (\<exists>s. str_at (the commandline) = Some s)"
    "tags_size bd commandline < 2 ^ 32"
  shows "\<exists>m'. setup_tags bd commandline m = Some m' \<and>
    parse_tags m' (Suc (length (kernel_view bd commandline))) (bi_boot_params bd) = Some (kernel_view bd commandline) \<and>
    (\<forall>i. tags_size bd commandline \<le> i \<and> i < 2 ^ 32 \<longrightarrow>
      m' (bi_boot_params bd + of_nat i) = m (bi_boot_params bd + of_nat i))"
proof -
  let ?a = "bi_boot_params bd" and ?mems = "map mem_tag (bi_dram bd)"
  define core where "core = (5 :: u32, ATAG_CORE, le32 0 @ le32 0 @ le32 0)"
  define c where "c = (case cmdline_of commandline of None \<Rightarrow> 0 | Some s \<Rightarrow> 4 * cmdline_words s)"
  have sz: "28 + 16 * length (bi_dram bd) + c < 2 ^ 32" using assms(2) by (simp add: tags_size_def c_def)
  have core: "good_tag core (Core_tag 0 0 0)" "length (all_bytes [core]) = 20"
    by (simp_all add: core_def good_tag_def view_tag_def drop_le32 rd_le32_le32 [of _ "[]", simplified])
  have "setup_start_tag bd (0, m) = (?a + of_nat (length (all_bytes [core])), overlay m ?a (all_bytes [core]))"
    using put_whole_tag [of 5 "le32 0 @ le32 0 @ le32 0" "[]" ATAG_CORE ?a m]
    by (simp add: setup_start_tag_def core_def)
  then have mems: "setup_memory_tags (bi_dram bd) (setup_start_tag bd (0, m)) =
      (?a + of_nat (length (all_bytes (core # ?mems))), overlay m ?a (all_bytes (core # ?mems)))"
    using memory_tags [of "all_bytes [core]" "bi_dram bd" ?a m] sz core(2) by (cases core) simp
  have lm: "length (all_bytes (core # ?mems)) = 20 + 16 * length (bi_dram bd)"
    using core(2) by (cases core) (simp add: length_mem_tags)
  obtain ts where ts: "setup_commandline_tag commandline
      (?a + of_nat (length (all_bytes (core # ?mems))), overlay m ?a (all_bytes (core # ?mems))) =
      Some (?a + of_nat (length (all_bytes (core # ?mems) @ all_bytes ts)), overlay m ?a (all_bytes (core # ?mems) @ all_bytes ts))"
    "list_all2 good_tag ts (case cmdline_of commandline of None \<Rightarrow> [] | Some s \<Rightarrow> [Cmdline_tag s])"
    "length (all_bytes ts) = c"
    using commandline_tag [OF assms(1), of "all_bytes (core # ?mems)" ?a m] sz lm by (auto simp: c_def)
  define B where "B = all_bytes (core # ?mems @ ts) @ le32 0 @ le32 ATAG_NONE"
  have lenB: "length B = tags_size bd commandline"
    using lm ts(3) by (cases core) (simp add: B_def tags_size_def c_def)
  have run: "setup_tags bd commandline m = Some (overlay m ?a B)"
  proof -
    have "overlay m ?a B = overlay (overlay m ?a (all_bytes (core # ?mems @ ts)))
        (?a + of_nat (length (all_bytes (core # ?mems @ ts)))) (le32 0 @ le32 ATAG_NONE)"
      unfolding B_def by (rule overlay_append) (use lenB assms(2) B_def in simp)
    moreover have "all_bytes (core # ?mems) @ all_bytes ts = all_bytes (core # ?mems @ ts)" by (cases core) simp
    ultimately show ?thesis
      unfolding setup_tags_def mems Let_def ts(1) bind.bind_lunit by (simp add: setup_end_tag_def)
  qed
  have parse: "parse_tags (overlay m ?a B) (Suc (length (core # ?mems @ ts))) (?a + of_nat (length ([] :: buf))) =
      Some (kernel_view bd commandline)"
  proof (rule parse_all)
    show "list_all2 good_tag (core # ?mems @ ts) (kernel_view bd commandline)"
      using core(1) ts(2) good_mem_tags by (simp add: kernel_view_def list_all2_appendI)
    show "B = [] @ all_bytes (core # ?mems @ ts) @ le32 0 @ le32 ATAG_NONE" by (simp add: B_def)
    show "length B < 2 ^ 32" using lenB assms(2) by simp
  qed
  have len: "length (core # ?mems @ ts) = length (kernel_view bd commandline)"
    using ts(2) by (auto simp: kernel_view_def dest: list_all2_lengthD)
  have outside: "overlay m ?a B (?a + of_nat i) = m (?a + of_nat i)"
    if "tags_size bd commandline \<le> i" "i < 2 ^ 32" for i
    using overlay_outside [of B i m ?a] lenB that by simp
  show ?thesis
  proof (intro exI conjI allI impI)
    show "setup_tags bd commandline m = Some (overlay m ?a B)" by (rule run)
    show "parse_tags (overlay m ?a B) (Suc (length (kernel_view bd commandline))) ?a = Some (kernel_view bd commandline)"
      using parse unfolding len list.size(3) by (simp del: parse_tags.simps)
  qed (use outside in blast)
qed

text \<open>C39: The tags that are set up for the kernel, read as the kernel reads them from the address of
  the boot parameters, are the core tag, one tag for each bank of memory, and the value of \<open>bootargs\<close>
  without its leading blanks (no tag when nothing is left), for every command line that fits; no byte
  behind the tags changes.\<close>

theorem kernel_tags:
  assumes "commandline = None \<or> (\<exists>s. str_at (the commandline) = Some s)"
    "tags_size bd commandline < 2 ^ 32"
  shows "\<exists>m'. setup_tags bd commandline m = Some m' \<and>
    parse_tags m' (Suc (length (kernel_view bd commandline))) (bi_boot_params bd) = Some (kernel_view bd commandline) \<and>
    (\<forall>i. tags_size bd commandline \<le> i \<and> i < 2 ^ 32 \<longrightarrow>
      m' (bi_boot_params bd + of_nat i) = m (bi_boot_params bd + of_nat i))"
  using assms by (rule setup_tags_parsed)

theorem kernel_tags_witness:
  "\<exists>m'. setup_tags \<lparr>bi_arch_number = 1, bi_boot_params = 0x20000100, bi_dram = [(0x20000000, 0x1000000)]\<rparr>
      (Some (cstr ''  mem=16M'')) (\<lambda>_. NUL) = Some m' \<and>
    parse_tags m' (Suc (length (kernel_view
      \<lparr>bi_arch_number = 1, bi_boot_params = 0x20000100, bi_dram = [(0x20000000, 0x1000000)]\<rparr> (Some (cstr ''  mem=16M'')))))
      (bi_boot_params \<lparr>bi_arch_number = 1, bi_boot_params = 0x20000100, bi_dram = [(0x20000000, 0x1000000)]\<rparr>) =
      Some (kernel_view
        \<lparr>bi_arch_number = 1, bi_boot_params = 0x20000100, bi_dram = [(0x20000000, 0x1000000)]\<rparr> (Some (cstr ''  mem=16M''))) \<and>
    (\<forall>i. tags_size \<lparr>bi_arch_number = 1, bi_boot_params = 0x20000100, bi_dram = [(0x20000000, 0x1000000)]\<rparr>
        (Some (cstr ''  mem=16M'')) \<le> i \<and> i < 2 ^ 32 \<longrightarrow>
      m' (bi_boot_params \<lparr>bi_arch_number = 1, bi_boot_params = 0x20000100, bi_dram = [(0x20000000, 0x1000000)]\<rparr> + of_nat i) =
      NUL)"
  by (rule kernel_tags)
    (simp_all add: tags_size_def cmdline_of_def cmdline_words_def cstr_def)

end
