(* ===== verification/Memory.thy ===== *)
theory Memory
  imports Cli Flash_Cmd
begin

text \<open>
  The memory commands (\<open>common/cmd_mem.c\<close>) and the test of integers and strings
  (\<open>common/cmd_itest.c\<close>).  An access to a word or a halfword at an address that is not a multiple of
  its size is undefined in C and a fault or an access elsewhere on the processor: the result is
  \<^const>\<open>None\<close>.  A store is a store to memory; \<open>cp\<close> to flash goes through \<open>flash_write\<close>.
\<close>

section \<open>State and accesses\<close>

record memory = machine +
  dp_last_addr :: u32
  dp_last_size :: u32
  dp_last_length :: u32
  mm_last_addr :: u32
  mm_last_size :: u32
  base_address :: u32
  console_buffer :: buf

definition CMD_FLAG_REPEAT :: u32 where "CMD_FLAG_REPEAT = 1"

definition on_machine :: "(machine \<Rightarrow> ('r \<times> machine) option) \<Rightarrow> 'a machine_scheme \<Rightarrow> ('r \<times> 'a machine_scheme) option" where
  "on_machine f st =
     map_option (\<lambda>(r, b). (r, machine.extend b (machine.more st))) (f (machine.truncate st))"

text \<open>An object of 1, 2 or 4 bytes; every other size is taken as 1 by the code.\<close>

definition rd_obj :: "int \<Rightarrow> (u32 \<Rightarrow> char) \<Rightarrow> u32 \<Rightarrow> u32 option" where
  "rd_obj sz m a =
     (if sz = 4 then if a mod 4 = 0 then rd_le32 (mem_bytes m a 4) else None
      else if sz = 2 then if a mod 2 = 0 then map_option ucast (rd_le16 (mem_bytes m a 2)) else None
      else Some (of_nat (code (m a))))"

definition obj_bytes :: "int \<Rightarrow> u32 \<Rightarrow> buf" where
  "obj_bytes sz v =
     (if sz = 4 then le32 v else if sz = 2 then le16 (ucast v) else [char_of (unat v mod 256)])"

definition wr_obj :: "int \<Rightarrow> u32 \<Rightarrow> u32 \<Rightarrow> (u32 \<Rightarrow> char) \<Rightarrow> (u32 \<Rightarrow> char) option" where
  "wr_obj sz a v m =
     (if sz = 4 \<and> a mod 4 \<noteq> 0 \<or> sz = 2 \<and> a mod 2 \<noteq> 0 then None
      else Some (overlay m a (obj_bytes sz v)))"

definition store_obj :: "int \<Rightarrow> u32 \<Rightarrow> u32 \<Rightarrow> 'a machine_scheme \<Rightarrow> 'a machine_scheme option" where
  "store_obj sz a v st = do { m \<leftarrow> wr_obj sz a v (mem st); Some (st\<lparr>mem := m\<rparr>) }"

definition cmd_get_data_size :: "buf \<Rightarrow> int \<Rightarrow> int option" where
  "cmd_get_data_size arg default_size =
     do { len \<leftarrow> strlen arg;
          if len > 2 then
            do { dot \<leftarrow> load arg (len - 2);
                 if dot = CHR ''.'' then
                   do { c \<leftarrow> load arg (len - 1);
                        Some (if c = CHR ''b'' then 1 else if c = CHR ''w'' then 2 else if c = CHR ''l'' then 4
                              else if c = CHR ''s'' then -2 else -1) }
                 else Some default_size }
          else Some default_size }"

definition strtoul_arg :: "buf list \<Rightarrow> nat \<Rightarrow> u32 option" where
  "strtoul_arg argv i = do { s \<leftarrow> load argv i; map_option fst (simple_strtoul s 16) }"

definition mem_usage :: "cmd_tbl \<Rightarrow> 'a console_scheme \<Rightarrow> (int \<times> 'a console_scheme) option" where
  "mem_usage cmdtp st =
     do { st \<leftarrow> printf (''Usage:'' @ [CHR 0x0A] @ ''%s'' @ [CHR 0x0A]) [VStr (map_option cstr (cmd_usage cmdtp))] st;
          Some (1, st) }"

text \<open>\<open>printf\<close> of an object with as many digits as it has.\<close>

definition obj_format :: "int \<Rightarrow> string" where
  "obj_format sz = (if sz = 4 then '' %08x'' else if sz = 2 then '' %04x'' else '' %02x'')"

section \<open>Display\<close>

definition DISP_LINE_LEN :: nat where "DISP_LINE_LEN = 16"

text \<open>
  One line.  A line is whole objects, because the number of bytes is a multiple of the size and
  \<open>linebytes\<close> is 16 or all that is left; the bytes read are kept for the characters.
\<close>

fun md_objects :: "int \<Rightarrow> nat \<Rightarrow> u32 \<Rightarrow> buf \<Rightarrow> 'a machine_scheme \<Rightarrow> (u32 \<times> buf \<times> 'a machine_scheme) option" where
  "md_objects sz 0 addr linebuf st = Some (addr, linebuf, st)"
| "md_objects sz (Suc k) addr linebuf st =
     do { v \<leftarrow> rd_obj sz (mem st) addr;
          st \<leftarrow> printf (obj_format sz) [VWord v] st;
          md_objects sz k (addr + of_int sz) (linebuf @ obj_bytes sz v) st }"

fun md_chars :: "buf \<Rightarrow> 'a console_scheme \<Rightarrow> 'a console_scheme option" where
  "md_chars [] st = Some st"
| "md_chars (c # cp) st =
     do { st \<leftarrow> (if code c < 0x20 \<or> code c > 0x7e then putc (CHR ''.'') st
                else printf ''%c'' [VWord (of_nat (code c))] st);
          md_chars cp st }"

function md_lines :: "int \<Rightarrow> u32 \<Rightarrow> nat \<Rightarrow> 'a machine_scheme \<Rightarrow> (int \<times> u32 \<times> 'a machine_scheme) option" where
  "md_lines sz addr nbytes st =
     (let linebytes = min nbytes DISP_LINE_LEN
      in do { st \<leftarrow> printf ''%08lx:'' [VWord addr] st;
              (addr, linebuf, st) \<leftarrow> md_objects sz (linebytes div nat sz) addr [] st;
              st \<leftarrow> puts (cstr ''    '') st;
              st \<leftarrow> md_chars linebuf st;
              st \<leftarrow> putc (CHR 0x0A) st;
              (c, st) \<leftarrow> ctrlc st;
              if c then Some (1, addr, st)
              else if nbytes - linebytes > 0 then md_lines sz addr (nbytes - linebytes) st
              else Some (0, addr, st) })"
  by pat_completeness auto
termination by (relation "measure (\<lambda>(sz, addr, nbytes, st). nbytes)") (auto simp: DISP_LINE_LEN_def)

declare md_lines.simps [simp del]

definition do_mem_md :: "cmd_tbl \<Rightarrow> u32 \<Rightarrow> buf list \<Rightarrow> 'a memory_scheme \<Rightarrow> (int \<times> 'a memory_scheme) option" where
  "do_mem_md cmdtp flag argv st =
     (let addr = dp_last_addr st; sz = sint (dp_last_size st); len = dp_last_length st
      in if length argv < 2 then mem_usage cmdtp st
         else
           do { args \<leftarrow> (if flag AND CMD_FLAG_REPEAT = 0 then
                           do { arg0 \<leftarrow> load argv 0;
                                sz \<leftarrow> cmd_get_data_size arg0 4;
                                if sz < 0 then Some None
                                else
                                  do { a \<leftarrow> strtoul_arg argv 1;
                                       len \<leftarrow> (if length argv > 2 then strtoul_arg argv 2 else Some len);
                                       Some (Some (sz, a + base_address st, len)) } }
                         else Some (Some (sz, addr, len)));
                (case args of
                   None \<Rightarrow> Some (1, st)
                 | Some (sz, addr, len) \<Rightarrow>
                     do { (rc, addr, st) \<leftarrow> md_lines sz addr (unat (len * of_int sz)) st;
                          Some (rc, st\<lparr>dp_last_addr := addr, dp_last_length := len, dp_last_size := of_int sz\<rparr>) }) })"

section \<open>Writing, comparing, copying\<close>

fun mw_loop :: "int \<Rightarrow> nat \<Rightarrow> u32 \<Rightarrow> u32 \<Rightarrow> 'a machine_scheme \<Rightarrow> 'a machine_scheme option" where
  "mw_loop sz 0 addr writeval st = Some st"
| "mw_loop sz (Suc cnt) addr writeval st =
     do { st \<leftarrow> store_obj sz addr writeval st; mw_loop sz cnt (addr + of_int sz) writeval st }"

definition do_mem_mw :: "cmd_tbl \<Rightarrow> buf list \<Rightarrow> 'a memory_scheme \<Rightarrow> (int \<times> 'a memory_scheme) option" where
  "do_mem_mw cmdtp argv st =
     (if length argv < 3 \<or> length argv > 4 then mem_usage cmdtp st
      else
        do { arg0 \<leftarrow> load argv 0;
             sz \<leftarrow> cmd_get_data_size arg0 4;
             if sz < 1 then Some (1, st)
             else
               do { addr \<leftarrow> strtoul_arg argv 1;
                    writeval \<leftarrow> strtoul_arg argv 2;
                    cnt \<leftarrow> (if length argv = 4 then strtoul_arg argv 3 else Some 1);
                    st \<leftarrow> mw_loop sz (unat cnt) (addr + base_address st) writeval st;
                    Some (0, st) } })"

definition differ_format :: "int \<Rightarrow> string" where
  "differ_format sz =
     (if sz = 4 then ''word at 0x%08lx (0x%08lx) != word at 0x%08lx (0x%08lx)'' @ [CHR 0x0A]
      else if sz = 2 then ''halfword at 0x%08lx (0x%04x) != halfword at 0x%08lx (0x%04x)'' @ [CHR 0x0A]
      else ''byte at 0x%08lx (0x%02x) != byte at 0x%08lx (0x%02x)'' @ [CHR 0x0A])"

fun cmp_loop :: "int \<Rightarrow> nat \<Rightarrow> u32 \<Rightarrow> u32 \<Rightarrow> u32 \<Rightarrow> 'a machine_scheme \<Rightarrow> (int \<times> u32 \<times> 'a machine_scheme) option" where
  "cmp_loop sz 0 addr1 addr2 ngood st = Some (0, ngood, st)"
| "cmp_loop sz (Suc cnt) addr1 addr2 ngood st =
     do { v1 \<leftarrow> rd_obj sz (mem st) addr1;
          v2 \<leftarrow> rd_obj sz (mem st) addr2;
          if v1 \<noteq> v2 then
            do { st \<leftarrow> printf (differ_format sz) [VWord addr1, VWord v1, VWord addr2, VWord v2] st;
                 Some (1, ngood, st) }
          else cmp_loop sz cnt (addr1 + of_int sz) (addr2 + of_int sz) (ngood + 1) st }"

definition obj_name :: "int \<Rightarrow> string" where
  "obj_name sz = (if sz = 4 then ''word'' else if sz = 2 then ''halfword'' else ''byte'')"

definition do_mem_cmp :: "cmd_tbl \<Rightarrow> buf list \<Rightarrow> 'a memory_scheme \<Rightarrow> (int \<times> 'a memory_scheme) option" where
  "do_mem_cmp cmdtp argv st =
     (if length argv \<noteq> 4 then mem_usage cmdtp st
      else
        do { arg0 \<leftarrow> load argv 0;
             sz \<leftarrow> cmd_get_data_size arg0 4;
             if sz < 0 then Some (1, st)
             else
               do { addr1 \<leftarrow> strtoul_arg argv 1;
                    addr2 \<leftarrow> strtoul_arg argv 2;
                    cnt \<leftarrow> strtoul_arg argv 3;
                    (rcode, ngood, st) \<leftarrow> cmp_loop sz (unat cnt) (addr1 + base_address st) (addr2 + base_address st) 0 st;
                    st \<leftarrow> printf (''Total of %ld %s%s were the same'' @ [CHR 0x0A])
                           [VWord ngood, VStr (Some (cstr (obj_name sz))),
                            VStr (Some (cstr (if ngood = 1 then '''' else ''s'')))] st;
                    Some (rcode, st) } })"

fun cp_loop :: "int \<Rightarrow> nat \<Rightarrow> u32 \<Rightarrow> u32 \<Rightarrow> 'a machine_scheme \<Rightarrow> 'a machine_scheme option" where
  "cp_loop sz 0 addr dest st = Some st"
| "cp_loop sz (Suc cnt) addr dest st =
     do { v \<leftarrow> rd_obj sz (mem st) addr;
          st \<leftarrow> store_obj sz dest v st;
          cp_loop sz cnt (addr + of_int sz) (dest + of_int sz) st }"

definition do_mem_cp :: "program \<Rightarrow> cmd_tbl \<Rightarrow> buf list \<Rightarrow> 'a memory_scheme \<Rightarrow> (int \<times> 'a memory_scheme) option" where
  "do_mem_cp prog cmdtp argv st =
     (if length argv \<noteq> 4 then mem_usage cmdtp st
      else
        do { arg0 \<leftarrow> load argv 0;
             sz \<leftarrow> cmd_get_data_size arg0 4;
             if sz < 0 then Some (1, st)
             else
               do { a \<leftarrow> strtoul_arg argv 1;
                    d \<leftarrow> strtoul_arg argv 2;
                    cnt \<leftarrow> strtoul_arg argv 3;
                    let addr = a + base_address st;
                    let dest = d + base_address st;
                    if cnt = 0 then do { st \<leftarrow> puts (cstr (''Zero length ???'' @ [CHR 0x0A])) st; Some (1, st) }
                    else
                      do { info \<leftarrow> addr2info (flash_info st) dest;
                           (case info of
                              Some _ \<Rightarrow>
                                do { st \<leftarrow> puts (cstr ''Copy to Flash... '') st;
                                     let n = cnt * of_int sz;
                                     (rc, st) \<leftarrow> on_machine (flash_write prog (mem_bytes (mem st) addr (unat n)) dest n) st;
                                     if rc \<noteq> 0 then do { st \<leftarrow> flash_perror rc st; Some (1, st) }
                                     else do { st \<leftarrow> puts (cstr (''done'' @ [CHR 0x0A])) st; Some (0, st) } }
                            | None \<Rightarrow>
                                do { st \<leftarrow> cp_loop sz (unat cnt) addr dest st; Some (0, st) }) } } })"

definition do_mem_base :: "buf list \<Rightarrow> 'a memory_scheme \<Rightarrow> (int \<times> 'a memory_scheme) option" where
  "do_mem_base argv st =
     do { st \<leftarrow> (if length argv > 1 then do { b \<leftarrow> strtoul_arg argv 1; Some (st\<lparr>base_address := b\<rparr>) } else Some st);
          st \<leftarrow> printf (''Base Address: 0x%08lx'' @ [CHR 0x0A]) [VWord (base_address st)] st;
          Some (0, st) }"

section \<open>Loops without an end\<close>

text \<open>Reading one object, and reading a range, again and again.\<close>

fun read_range :: "int \<Rightarrow> nat \<Rightarrow> u32 \<Rightarrow> (u32 \<Rightarrow> char) \<Rightarrow> unit option" where
  "read_range sz 0 addr m = Some ()"
| "read_range sz (Suc i) addr m =
     do { _ \<leftarrow> rd_obj sz m addr;
          read_range sz i (addr + (if sz = 4 then 4 else if sz = 2 then 2 else 1)) m }"

partial_function (option) read_forever :: "int \<Rightarrow> nat \<Rightarrow> u32 \<Rightarrow> (u32 \<Rightarrow> char) \<Rightarrow> unit option" where
  "read_forever sz len addr m = do { _ \<leftarrow> read_range sz len addr m; read_forever sz len addr m }"

definition do_mem_loop :: "cmd_tbl \<Rightarrow> buf list \<Rightarrow> 'a memory_scheme \<Rightarrow> (int \<times> 'a memory_scheme) option" where
  "do_mem_loop cmdtp argv st =
     (if length argv < 3 then mem_usage cmdtp st
      else
        do { arg0 \<leftarrow> load argv 0;
             sz \<leftarrow> cmd_get_data_size arg0 4;
             if sz < 0 then Some (1, st)
             else
               do { addr \<leftarrow> strtoul_arg argv 1;
                    len \<leftarrow> strtoul_arg argv 2;
                    _ \<leftarrow> read_forever sz (unat len) addr (mem st);
                    None } })"

definition CFG_MEMTEST_START :: u32 where "CFG_MEMTEST_START = 0x20000000"
definition CFG_MEMTEST_END :: u32 where "CFG_MEMTEST_END = 0x24000000"

partial_function (option) mtest_write ::
  "u32 \<Rightarrow> u32 \<Rightarrow> u32 \<Rightarrow> u32 \<Rightarrow> 'a machine_scheme \<Rightarrow> 'a machine_scheme option" where
  "mtest_write incr addr end val st =
     (if addr < end then
        do { st \<leftarrow> store_obj 4 addr val st; mtest_write incr (addr + 4) end (val + incr) st }
      else Some st)"

definition mtest_error_format :: string where
  "mtest_error_format = [CHR 0x0A] @ ''Mem error @ 0x%08X: found %08lX, expected %08lX'' @ [CHR 0x0A]"

partial_function (option) mtest_read ::
  "u32 \<Rightarrow> u32 \<Rightarrow> u32 \<Rightarrow> u32 \<Rightarrow> 'a machine_scheme \<Rightarrow> 'a machine_scheme option" where
  "mtest_read incr addr end val st =
     (if addr < end then
        do { readback \<leftarrow> rd_obj 4 (mem st) addr;
             st \<leftarrow> (if readback \<noteq> val then printf mtest_error_format [VWord addr, VWord readback, VWord val] st
                   else Some st);
             mtest_read incr (addr + 4) end (val + incr) st }
      else Some st)"

text \<open>The test runs until control-C; \<open>rcode\<close> is set when an error is found but never returned.\<close>

partial_function (option) mtest_loop ::
  "u32 \<Rightarrow> u32 \<Rightarrow> u32 \<Rightarrow> u32 \<Rightarrow> 'a machine_scheme \<Rightarrow> (int \<times> 'a machine_scheme) option" where
  "mtest_loop start end pattern incr st =
     do { (c, st) \<leftarrow> ctrlc st;
          if c then do { st \<leftarrow> putc (CHR 0x0A) st; Some (1, st) }
          else
            do { st \<leftarrow> printf ([CHR 0x0D] @ ''Pattern %08lX  Writing...%12s'' @ replicate 10 (CHR 0x08))
                        [VWord pattern, VStr (Some (cstr ''''))] st;
                 st \<leftarrow> mtest_write incr start end pattern st;
                 st \<leftarrow> puts (cstr ''Reading...'') st;
                 st \<leftarrow> mtest_read incr start end pattern st;
                 mtest_loop start end (if pattern AND 0x80000000 \<noteq> 0 then - pattern else NOT pattern) (- incr) st } }"

definition do_mem_mtest :: "buf list \<Rightarrow> 'a memory_scheme \<Rightarrow> (int \<times> 'a memory_scheme) option" where
  "do_mem_mtest argv st =
     do { start \<leftarrow> (if length argv > 1 then strtoul_arg argv 1 else Some CFG_MEMTEST_START);
          end \<leftarrow> (if length argv > 2 then strtoul_arg argv 2 else Some CFG_MEMTEST_END);
          pattern \<leftarrow> (if length argv > 3 then strtoul_arg argv 3 else Some 0);
          mtest_loop start end pattern 1 st }"

section \<open>Modifying\<close>

text \<open>The loop of \<open>mod_mem\<close>; the result is the last address.\<close>

partial_function (option) mod_loop :: "bool \<Rightarrow> int \<Rightarrow> u32 \<Rightarrow> memory \<Rightarrow> (u32 \<times> memory) option" where
  "mod_loop incrflag sz addr st =
     do { st \<leftarrow> printf ''%08lx:'' [VWord addr] st;
          v \<leftarrow> rd_obj sz (mem st) addr;
          st \<leftarrow> printf (obj_format sz) [VWord v] st;
          (nbytes, buf, b) \<leftarrow> readline (Some '' ? '') (console_buffer st) (board.truncate st);
          let st = (board.extend b (board.more st))\<lparr>console_buffer := buf\<rparr>;
          back \<leftarrow> (if nbytes = 1 then map_option (\<lambda>c. c = CHR ''-'') (load buf 0) else Some False);
          if nbytes = 0 \<or> back then
            mod_loop incrflag sz
              (if incrflag then if nbytes \<noteq> 0 then addr - of_int sz else addr + of_int sz else addr) st
          else
            do { (i, endp) \<leftarrow> simple_strtoul buf 16;
                 if endp \<noteq> 0 then
                   do { st \<leftarrow> store_obj sz addr i st;
                        mod_loop incrflag sz (if incrflag then addr + of_int sz else addr) st }
                 else Some (addr, st) } }"

definition mod_mem :: "cmd_tbl \<Rightarrow> bool \<Rightarrow> u32 \<Rightarrow> buf list \<Rightarrow> memory \<Rightarrow> (int \<times> memory) option" where
  "mod_mem cmdtp incrflag flag argv st =
     (if length argv \<noteq> 2 then mem_usage cmdtp st
      else
        do { args \<leftarrow> (if flag AND CMD_FLAG_REPEAT = 0 then
                        do { arg0 \<leftarrow> load argv 0;
                             sz \<leftarrow> cmd_get_data_size arg0 4;
                             if sz < 0 then Some None
                             else do { a \<leftarrow> strtoul_arg argv 1; Some (Some (sz, a + base_address st)) } }
                      else Some (Some (sint (mm_last_size st), mm_last_addr st)));
             (case args of
                None \<Rightarrow> Some (1, st)
              | Some (sz, addr) \<Rightarrow>
                  do { (addr, st) \<leftarrow> mod_loop incrflag sz addr st;
                       Some (0, st\<lparr>mm_last_addr := addr, mm_last_size := of_int sz\<rparr>) }) })"

definition do_mem_mm :: "cmd_tbl \<Rightarrow> u32 \<Rightarrow> buf list \<Rightarrow> memory \<Rightarrow> (int \<times> memory) option" where
  "do_mem_mm cmdtp flag argv st = mod_mem cmdtp True flag argv st"

definition do_mem_nm :: "cmd_tbl \<Rightarrow> u32 \<Rightarrow> buf list \<Rightarrow> memory \<Rightarrow> (int \<times> memory) option" where
  "do_mem_nm cmdtp flag argv st = mod_mem cmdtp False flag argv st"

section \<open>Checksum\<close>

definition do_mem_crc :: "cmd_tbl \<Rightarrow> buf list \<Rightarrow> 'a memory_scheme \<Rightarrow> (int \<times> 'a memory_scheme) option" where
  "do_mem_crc cmdtp argv st =
     (if length argv < 3 then mem_usage cmdtp st
      else
        do { a \<leftarrow> strtoul_arg argv 1;
             let addr = a + base_address st;
             len \<leftarrow> strtoul_arg argv 2;
             crc \<leftarrow> crc32 0 (bytes (mem_bytes (mem st) addr (unat len))) (unat len);
             st \<leftarrow> printf (''CRC32 for %08lx ... %08lx ==> %08lx'' @ [CHR 0x0A])
                    [VWord addr, VWord (addr + len - 1), VWord crc] st;
             st \<leftarrow> (if length argv > 3 then do { ptr \<leftarrow> strtoul_arg argv 3; store_obj 4 ptr crc st } else Some st);
             Some (0, st) })"

section \<open>The command \<open>itest\<close>\<close>

datatype opcode = EQ | NE | LT | GT | LE | GE

definition op_table :: "(string \<times> opcode) list" where
  "op_table =
     [(''-lt'', LT), (''<'', LT), (''-gt'', GT), (''>'', GT), (''-eq'', EQ), (''=='', EQ), (''-ne'', NE), (''!='', NE),
      (''<>'', NE), (''-ge'', GE), (''>='', GE), (''-le'', LE), (''<='', LE)]"

fun compare_op :: "opcode \<Rightarrow> int \<Rightarrow> int \<Rightarrow> bool" where
  "compare_op EQ l r = (l = r)"
| "compare_op NE l r = (l \<noteq> r)"
| "compare_op LT l r = (l < r)"
| "compare_op GT l r = (l > r)"
| "compare_op LE l r = (l \<le> r)"
| "compare_op GE l r = (l \<ge> r)"

text \<open>
  \<open>1 << (w * 8)\<close> with \<open>w = 4\<close> is undefined in C; the shift of the processor gives 0, and the mask is
  all ones.
\<close>

definition evalexp :: "(u32 \<Rightarrow> char) \<Rightarrow> buf \<Rightarrow> nat \<Rightarrow> u32 option" where
  "evalexp m s w =
     do { c \<leftarrow> load s 0;
          l \<leftarrow> (if c = CHR ''*'' then do { (p, _) \<leftarrow> simple_strtoul (drop 1 s) 16; rd_obj 4 m p }
                else map_option fst (simple_strtoul s 16));
          Some (l AND (push_bit (w * 8) 1 - 1)) }"

text \<open>The string at an address; \<open>None\<close> when it has no end.\<close>

partial_function (option) mem_string :: "(u32 \<Rightarrow> char) \<Rightarrow> u32 \<Rightarrow> buf option" where
  "mem_string m a = (if m a = NUL then Some [NUL] else do { s \<leftarrow> mem_string m (a + 1); Some (m a # s) })"

definition evalstr :: "(u32 \<Rightarrow> char) \<Rightarrow> buf \<Rightarrow> buf option" where
  "evalstr m s =
     do { c \<leftarrow> load s 0;
          if c = CHR ''*'' then do { (p, _) \<leftarrow> simple_strtoul (drop 1 s) 16; mem_string m p } else Some s }"

definition stringcomp :: "(u32 \<Rightarrow> char) \<Rightarrow> buf \<Rightarrow> buf \<Rightarrow> opcode \<Rightarrow> bool option" where
  "stringcomp m s t op =
     do { l \<leftarrow> evalstr m s;
          r \<leftarrow> evalstr m t;
          a \<leftarrow> strlen l;
          b \<leftarrow> strlen r;
          p \<leftarrow> strncmp l r (min a b);
          Some (compare_op op p 0) }"

definition arithcomp :: "(u32 \<Rightarrow> char) \<Rightarrow> buf \<Rightarrow> buf \<Rightarrow> opcode \<Rightarrow> nat \<Rightarrow> bool option" where
  "arithcomp m s t op w =
     do { l \<leftarrow> evalexp m s w; r \<leftarrow> evalexp m t w; Some (compare_op op (sint l) (sint r)) }"

fun find_op :: "(string \<times> opcode) list \<Rightarrow> buf \<Rightarrow> nat \<Rightarrow> opcode option option" where
  "find_op [] op len = Some None"
| "find_op ((s, k) # tbl) op len =
     do { r \<leftarrow> strncmp op (cstr s) len;
          n \<leftarrow> strlen (cstr s);
          if r = 0 \<and> len = n then Some (Some k) else find_op tbl op len }"

definition binary_test :: "buf \<Rightarrow> buf \<Rightarrow> buf \<Rightarrow> nat \<Rightarrow> 'a machine_scheme \<Rightarrow> (bool \<times> 'a machine_scheme) option" where
  "binary_test op arg1 arg2 w st =
     do { len \<leftarrow> strlen op;
          k \<leftarrow> find_op op_table op len;
          (case k of
             Some k \<Rightarrow>
               do { r \<leftarrow> (if w = 0 then stringcomp (mem st) arg1 arg2 k else arithcomp (mem st) arg1 arg2 k w); Some (r, st) }
           | None \<Rightarrow>
               do { st \<leftarrow> printf (''Unknown operator '' @ [CHR 0x27] @ ''%s'' @ [CHR 0x27, CHR 0x0A]) [VStr (Some op)] st;
                    Some (False, st) }) }"

definition do_itest :: "cmd_tbl \<Rightarrow> buf list \<Rightarrow> 'a machine_scheme \<Rightarrow> (int \<times> 'a machine_scheme) option" where
  "do_itest cmdtp argv st =
     (if length argv \<noteq> 4 then mem_usage cmdtp st
      else
        do { arg0 \<leftarrow> load argv 0; arg1 \<leftarrow> load argv 1; arg2 \<leftarrow> load argv 2; arg3 \<leftarrow> load argv 3;
             w \<leftarrow> cmd_get_data_size arg0 4;
             (v, st) \<leftarrow> (if w = 1 \<or> w = 2 \<or> w = 4 then binary_test arg2 arg1 arg3 (nat w) st
                        else if w = -2 then binary_test arg2 arg1 arg3 0 st
                        else do { st \<leftarrow> puts (cstr (''Invalid data width specifier'' @ [CHR 0x0A])) st; Some (False, st) });
             Some (of_bool (\<not> v), st) })"

end
