(* ===== verification/Memory_Props.thy ===== *)
theory Memory_Props
  imports Memory Net_Loop_Props Bootm_Props
begin

text \<open>
  What the memory commands do (\<open>Memory\<close>): \<open>cp\<close> copies exactly the range, and \<open>cmp\<close> then finds no
  difference.
\<close>

section \<open>Objects\<close>

lemma char_of_low: "char_of (code c + 256 * n :: nat) = c"
proof -
  have "char_of ((code c + 256 * n) mod 256) = char_of (code c)" by simp
  then show ?thesis by (simp del: mod_mult_self2)
qed

lemma digit_less: "n < m \<Longrightarrow> code c + 256 * n < 256 * m"
proof -
  assume "n < m"
  moreover have "code c < 256" by simp
  ultimately show ?thesis by linarith
qed

lemma digit_div: "(code c + 256 * n) div 256 = n"
proof -
  have "(code c + 256 * n) div 256 = n + code c div 256" by (rule div_mult_self2) simp
  moreover have "code c div 256 = 0" by (rule div_less) simp
  ultimately show ?thesis by simp
qed

lemma le32_rd: "rd_le32 [a, b, c, d] = Some v \<Longrightarrow> le32 v = [a, b, c, d]"
proof -
  assume "rd_le32 [a, b, c, d] = Some v"
  then have v: "v = of_nat (code a + 256 * (code b + 256 * (code c + 256 * code d)))"
    by (simp add: algebra_simps)
  have lt: "code a < 256" "code b < 256" "code c < 256" "code d < 256" by simp_all
  have "code a + 256 * (code b + 256 * (code c + 256 * code d)) < 256 * (256 * (256 * 256))"
    by (intro digit_less lt)
  then have "code a + 256 * (code b + 256 * (code c + 256 * code d)) < 2 ^ 32" 
    by (rule order_less_le_trans) simp
  then have u: "unat v = code a + 256 * (code b + 256 * (code c + 256 * code d))"
    unfolding v by (rule unat_of_nat_u32)
  have q: "unat v div 256 = code b + 256 * (code c + 256 * code d)" unfolding u by (rule digit_div)
  have "unat v div 65536 = unat v div 256 div 256" by (simp add: div_mult2_eq [symmetric])
  then have r: "unat v div 65536 = code c + 256 * code d" unfolding q by (simp only: digit_div)
  have "unat v div 16777216 = unat v div 65536 div 256" by (simp add: div_mult2_eq [symmetric])
  then have s: "unat v div 16777216 = code d + 256 * 0" unfolding r digit_div by simp
  show ?thesis
    unfolding le32_def q r s list.map unfolding u char_of_low ..
qed

lemma le16_rd: "rd_le16 [a, b] = Some v \<Longrightarrow> le16 v = [a, b]"
proof -
  assume "rd_le16 [a, b] = Some v"
  then have v: "v = of_nat (code a + 256 * code b)" by simp
  have lt: "code a < 256" "code b < 256" by simp_all
  have "code a + 256 * code b < 256 * 256" by (intro digit_less lt)
  then have "(code a + 256 * code b) mod 2 ^ 16 = code a + 256 * code b" by simp
  then have u: "unat v = code a + 256 * code b" unfolding v unat_of_nat by simp
  have "unat v mod 256 = code a" "unat v div 256 = code b" unfolding u using lt by simp_all
  then show ?thesis by (simp add: le16_def)
qed

lemma aligned_step:
  assumes "k \<in> {1, 2, 4}" "(a :: u32) mod of_nat k = 0"
  shows "(a + of_nat k) mod of_nat k = 0"
proof -
  have k: "unat (of_nat k :: u32) = k" "k dvd 2 ^ 32" using assms(1) by (auto simp: unat_of_nat)
  have "unat a mod k = 0" using assms(2) k(1) by (metis unat_mod_distrib unat_0)
  then have "unat (a + of_nat k) mod k = 0"
    using k by (simp add: unat_word_ariths(1) mod_mod_cancel)
  then have "unat ((a + of_nat k) mod of_nat k) = 0" using k(1) by (simp add: unat_mod_distrib)
  then show ?thesis by (simp add: unat_eq_zero)
qed

lemma mem_bytes_add: "mem_bytes m a (i + j) = mem_bytes m a i @ mem_bytes m (a + of_nat i) j"
  by (induction i arbitrary: a) (simp_all add: mem_bytes_Suc, simp add: mem_bytes_def, simp add: algebra_simps)

lemma mem_bytes_4: "mem_bytes m a 4 = [m a, m (a + 1), m (a + 2), m (a + 3)]"
  by (simp add: mem_bytes_def numeral_eq_Suc)

lemma mem_bytes_2: "mem_bytes m a 2 = [m a, m (a + 1)]"
  by (simp add: mem_bytes_def numeral_eq_Suc)

text \<open>What is read from an aligned object, written elsewhere, is a copy of its bytes.\<close>

lemma rd_obj_ok:
  assumes "k \<in> {1, 2, 4 :: nat}" "a mod of_nat k = 0"
  shows "\<exists>v. rd_obj (int k) m a = Some v \<and> obj_bytes (int k) v = mem_bytes m a k"
proof -
  consider "k = 1" | "k = 2" | "k = 4" using assms(1) by blast
  then show ?thesis
  proof cases
    case 1
    have "code (m a) < 2 ^ 32" by (rule order_less_le_trans [of _ 256]) simp_all
    then have "unat (of_nat (code (m a)) :: u32) = code (m a)" by (rule unat_of_nat_u32)
    then show ?thesis by (simp add: 1 rd_obj_def obj_bytes_def mem_bytes_def)
  next
    case 2
    obtain w where w: "rd_le16 [m a, m (a + 1)] = Some w" by simp
    have "(ucast (ucast w :: u32) :: u16) = w" by (simp add: unsigned_ucast_eq take_bit_word_eq_self)
    then show ?thesis
      using assms(2) w le16_rd [OF w] by (simp add: 2 rd_obj_def obj_bytes_def mem_bytes_2)
  next
    case 3
    obtain w where w: "rd_le32 [m a, m (a + 1), m (a + 2), m (a + 3)] = Some w" by simp
    show ?thesis
      using assms(2) w le32_rd [OF w] by (simp add: 3 rd_obj_def obj_bytes_def mem_bytes_4)
  qed
qed

lemma store_obj_ok:
  assumes "k \<in> {1, 2, 4 :: nat}" "a mod of_nat k = 0"
  shows "store_obj (int k) a v st = Some (st\<lparr>mem := overlay (mem st) a (obj_bytes (int k) v)\<rparr>)"
proof -
  have "int k = 4 \<Longrightarrow> of_nat k = (4 :: u32)" "int k = 2 \<Longrightarrow> of_nat k = (2 :: u32)" by auto
  then have "\<not> (int k = 4 \<and> a mod 4 \<noteq> 0 \<or> int k = 2 \<and> a mod 2 \<noteq> 0)" using assms(2) by metis
  then show ?thesis unfolding store_obj_def wr_obj_def by simp
qed

text \<open>Equal bytes are equal values.\<close>

lemma obj_bytes_inj:
  assumes "k \<in> {1, 2, 4 :: nat}" "a mod of_nat k = 0" "d mod of_nat k = 0"
    "rd_obj (int k) m a = Some v" "rd_obj (int k) m d = Some w" "mem_bytes m a k = mem_bytes m d k"
  shows "v = w"
proof -
  consider "k = 1" | "k = 2" | "k = 4" using assms(1) by blast
  then show ?thesis
  proof cases
    case 1
    then show ?thesis using assms(4-6) by (simp add: rd_obj_def mem_bytes_def)
  qed (use assms(2-6) in \<open>auto simp: rd_obj_def\<close>)
qed

section \<open>Copying\<close>

text \<open>Bytes that the target does not reach.\<close>

lemma mem_bytes_untouched:
  assumes "length bs \<le> unat (a - d)" "n + unat (a - d) \<le> 2 ^ 32"
  shows "mem_bytes (overlay m d bs) a n = mem_bytes m a n"
proof -
  have "overlay m d bs (a + of_nat i) = m (a + of_nat i)" if "i < n" for i
  proof -
    have "a + of_nat i = d + of_nat (unat (a - d) + i)" by simp
    moreover have "overlay m d bs (d + of_nat (unat (a - d) + i)) = m (d + of_nat (unat (a - d) + i))"
      by (rule overlay_outside) (use assms that in simp_all)
    ultimately show ?thesis by simp
  qed
  then show ?thesis by (simp add: mem_bytes_def)
qed

lemma cp_loop_ok:
  assumes "k \<in> {1, 2, 4}" "a mod of_nat k = 0" "d mod of_nat k = 0" "n * k + unat (a - d) \<le> 2 ^ 32"
  shows "cp_loop (int k) n a d st = Some (st\<lparr>mem := overlay (mem st) d (mem_bytes (mem st) a (n * k))\<rparr>)"
  using assms(2-4)
proof (induction n arbitrary: a d st)
  case 0
  then show ?case by (simp add: mem_bytes_def)
next
  case (Suc n)
  obtain v where v: "rd_obj (int k) (mem st) a = Some v" "obj_bytes (int k) v = mem_bytes (mem st) a k"
    using rd_obj_ok [OF assms(1) Suc.prems(1)] by blast
  let ?m = "overlay (mem st) d (mem_bytes (mem st) a k)"
  have s: "store_obj (int k) d v st = Some (st\<lparr>mem := ?m\<rparr>)"
    using store_obj_ok [OF assms(1) Suc.prems(2), of v st] unfolding v(2) .
  have len: "k + n * k + unat (a - d) \<le> 2 ^ 32" using Suc.prems(3) by (simp add: algebra_simps)
  have e: "(a + of_nat k) - (d + of_nat k) = a - d" by simp
  have ih: "cp_loop (int k) n (a + of_nat k) (d + of_nat k) (st\<lparr>mem := ?m\<rparr>) =
      Some (st\<lparr>mem := overlay ?m (d + of_nat k) (mem_bytes ?m (a + of_nat k) (n * k))\<rparr>)"
    using Suc.IH [OF aligned_step [OF assms(1) Suc.prems(1)] aligned_step [OF assms(1) Suc.prems(2)], of "st\<lparr>mem := ?m\<rparr>"]
      len e by simp
  have same: "mem_bytes ?m (a + of_nat k) (n * k) = mem_bytes (mem st) (a + of_nat k) (n * k)"
  proof (cases "n = 0")
    case True
    then show ?thesis by (simp add: mem_bytes_def)
  next
    case False
    have k: "0 < k" using assms(1) by auto
    have lt: "k + unat (a - d) < 2 ^ 32" using len False k by (cases n) simp_all
    have "unat (a + of_nat k - d) = unat ((a - d) + of_nat k)" by (simp add: algebra_simps)
    also have "\<dots> = (unat (a - d) + k) mod 2 ^ 32" by (simp add: unat_word_ariths(1) unat_of_nat mod_add_right_eq)
    also have "\<dots> = unat (a - d) + k" using lt by simp
    finally have u: "unat (a + of_nat k - d) = unat (a - d) + k" .
    show ?thesis by (rule mem_bytes_untouched) (use u len in simp_all)
  qed
  have "overlay (mem st) d (mem_bytes (mem st) a (Suc n * k)) =
      overlay ?m (d + of_nat k) (mem_bytes (mem st) (a + of_nat k) (n * k))"
    using overlay_append [of "mem_bytes (mem st) a k" "mem_bytes (mem st) (a + of_nat k) (n * k)" "mem st" d] len
    by (simp add: mem_bytes_add [symmetric])
  then show ?case using ih same by (simp add: v(1) s)
qed

lemma cmp_loop_same:
  assumes "k \<in> {1, 2, 4}" "a mod of_nat k = 0" "d mod of_nat k = 0"
    "mem_bytes (mem st) a (n * k) = mem_bytes (mem st) d (n * k)"
  shows "cmp_loop (int k) n a d g st = Some (0, g + of_nat n, st)"
  using assms(2-4)
proof (induction n arbitrary: a d g)
  case (Suc n)
  obtain v w where v: "rd_obj (int k) (mem st) a = Some v" "obj_bytes (int k) v = mem_bytes (mem st) a k"
    and w: "rd_obj (int k) (mem st) d = Some w" "obj_bytes (int k) w = mem_bytes (mem st) d k"
    using rd_obj_ok [OF assms(1) Suc.prems(1)] rd_obj_ok [OF assms(1) Suc.prems(2)] by blast
  have m: "mem_bytes (mem st) a k = mem_bytes (mem st) d k"
    "mem_bytes (mem st) (a + of_nat k) (n * k) = mem_bytes (mem st) (d + of_nat k) (n * k)"
    using Suc.prems(3) by (simp_all add: mem_bytes_add)
  have "v = w" using v w m(1) obj_bytes_inj [OF assms(1) Suc.prems(1,2)] by metis
  then show ?case
    using v(1) w(1) Suc.IH [OF aligned_step [OF assms(1) Suc.prems(1)] aligned_step [OF assms(1) Suc.prems(2)] m(2)]
    by (simp add: algebra_simps)
qed simp

section \<open>The commands\<close>

lemma loop_s:
  assumes "nonul s" "length s \<le> 8"
  shows "vsprintf_loop (CHR ''%'' # CHR ''s'' # fmt) (VStr (Some (cstr s)) # args) out ns =
    vsprintf_loop fmt args (out @ s) ns"
  using vsprintf_loop_s [of s fmt "[]" args out ns] assms by (simp add: cstr_def del: vsprintf_loop.simps)

lemma say_total:
  assumes "\<not> devinit st" "nonul u" "length u \<le> 1"
  shows "\<exists>out. printf (''Total of %ld %s%s were the same'' @ [CHR 0x0A])
    [VWord w, VStr (Some (cstr (obj_name sz))), VStr (Some (cstr u))] st = Some (sent out st)"
proof -
  define g where "g = cstr ('' were the same'' @ [CHR 0x0A])"
  define h where "h = CHR '' '' # CHR ''%'' # CHR ''s'' # CHR ''%'' # CHR ''s'' # g"
  have f: "cstr (''Total of %ld %s%s were the same'' @ [CHR 0x0A]) =
      ''Total of '' @ CHR ''%'' # CHR ''l'' # CHR ''d'' # h"
    by (simp add: cstr_def g_def h_def)
  have n: "nonul (obj_name sz)" "length (obj_name sz) \<le> 8" by (simp_all add: obj_name_def)
  have u: "length u \<le> 8" using assms(3) by simp
  have e: "vsprintf_loop g [] out [] = Some (out @ '' were the same'' @ [CHR 0x0A], [])" for out
    by (simp add: g_def cstr_def)
  have h: "vsprintf_loop h [VStr (Some (cstr (obj_name sz))), VStr (Some (cstr u))] out [] =
      Some (out @ '' '' @ obj_name sz @ u @ '' were the same'' @ [CHR 0x0A], [])" for out
    unfolding h_def by (simp add: vsprintf_loop_char loop_s [OF n] loop_s [OF assms(2) u] e del: vsprintf_loop.simps)
  let ?out = "''Total of '' @ sdec w @ '' '' @ obj_name sz @ u @ '' were the same'' @ [CHR 0x0A]"
  have l: "vsprintf_loop (cstr (''Total of %ld %s%s were the same'' @ [CHR 0x0A]))
      [VWord w, VStr (Some (cstr (obj_name sz))), VStr (Some (cstr u))] [] [] = Some (?out, [])"
    unfolding f by (simp add: directive_ld h)
  have "length ?out < CFG_PBSIZE" using n(2) assms(3) sdec_length [of w] by (simp add: CFG_PBSIZE_def)
  moreover have "nonul ?out" using n(1) assms(2) udec_nonul by (auto simp: sdec_def)
  ultimately show ?thesis
    using printf_serial [OF assms(1) l] by (auto simp: sent_def)
qed

lemma unat_neg: "x \<noteq> 0 \<Longrightarrow> unat x + unat (- x) = 2 ^ 32" for x :: u32
proof -
  assume x: "x \<noteq> 0"
  define n where "n = unat x + unat (- x)"
  have "n mod 2 ^ 32 = unat (x + - x)" unfolding n_def by (simp only: unat_word_ariths(1)) simp
  then have "n mod 2 ^ 32 = 0" by simp
  moreover have "0 < n" "n < 2 * 2 ^ 32"
    using x unat_u32_less [of x] unat_u32_less [of "- x"] by (simp_all add: n_def unat_gt_0)
  ultimately obtain q where "n = 2 ^ 32 * q" "0 < q" "q < 2" by auto
  then show ?thesis unfolding n_def by simp
qed

lemma cp_command:
  assumes "k \<in> {1, 2, 4}" "argv = [name, x, y, z]" "cmd_get_data_size name 4 = Some (int k)"
    "strtoul_arg argv 1 = Some a" "strtoul_arg argv 2 = Some d" "strtoul_arg argv 3 = Some n"
    "s = a + base_address st" "t = d + base_address st" "s mod of_nat k = 0" "t mod of_nat k = 0"
    "unat n * k + unat (s - t) \<le> 2 ^ 32" "n \<noteq> 0" "addr2info (flash_info st) t = Some None"
  shows "do_mem_cp prog cmdtp argv st = Some (0, st\<lparr>mem := overlay (mem st) t (mem_bytes (mem st) s (unat n * k))\<rparr>)"
proof -
  have a: "\<not> length argv \<noteq> 4" "load argv 0 = Some name" using assms(2) by (simp_all add: load_def)
  have k: "\<not> int k < 0" by simp
  note c = cp_loop_ok [OF assms(1,9-11), of st]
  show ?thesis
    unfolding do_mem_cp_def if_not_P [OF a(1)] a(2) assms(3-6) bind.bind_lunit if_not_P [OF k] Let_def
      assms(7,8) [symmetric] if_not_P [OF assms(12)] assms(13) option.case c ..
qed

lemma cmp_command:
  assumes "k \<in> {1, 2, 4}" "argv = [name, x, y, z]" "cmd_get_data_size name 4 = Some (int k)"
    "strtoul_arg argv 1 = Some a" "strtoul_arg argv 2 = Some d" "strtoul_arg argv 3 = Some n"
    "s = a + base_address st" "t = d + base_address st" "s mod of_nat k = 0" "t mod of_nat k = 0"
    "mem_bytes (mem st) s (unat n * k) = mem_bytes (mem st) t (unat n * k)" "\<not> devinit st"
  shows "\<exists>out. do_mem_cmp cmdtp argv st = Some (0, sent out st)"
proof -
  have a: "\<not> length argv \<noteq> 4" "load argv 0 = Some name" using assms(2) by (simp_all add: load_def)
  have k: "\<not> int k < 0" by simp
  have u: "nonul (if n = 1 then '''' else ''s'')" "length (if n = 1 then '''' else ''s'') \<le> 1" by simp_all
  have "cmp_loop (int k) (unat n) s t 0 st = Some (0, n, st)"
    using cmp_loop_same [OF assms(1,9-11), of 0] by simp
  moreover obtain out where "printf (''Total of %ld %s%s were the same'' @ [CHR 0x0A])
    [VWord n, VStr (Some (cstr (obj_name (int k)))), VStr (Some (cstr (if n = 1 then '''' else ''s'')))] st = Some (sent out st)"
    using say_total [OF assms(12) u, of n "int k"] by blast
  ultimately have "do_mem_cmp cmdtp argv st = Some (0, sent out st)"
    unfolding do_mem_cmp_def if_not_P [OF a(1)] a(2) assms(3-6) bind.bind_lunit if_not_P [OF k] assms(7,8) [symmetric]
    by simp
  then show ?thesis by blast
qed

lemma copy_and_compare:
  assumes "k \<in> {1, 2, 4}" "cmd_get_data_size cp 4 = Some (int k)" "cmd_get_data_size cmp 4 = Some (int k)"
    "simple_strtoul x 16 = Some (a, i)" "simple_strtoul y 16 = Some (d, j)" "simple_strtoul z 16 = Some (n, l)"
    "s = a + base_address st" "t = d + base_address st" "s mod of_nat k = 0" "t mod of_nat k = 0"
    "unat n * k + unat (s - t) \<le> 2 ^ 32" "unat n * k + unat (t - s) \<le> 2 ^ 32" "n \<noteq> 0"
    "addr2info (flash_info st) t = Some None" "\<not> devinit st"
    "m = overlay (mem st) t (mem_bytes (mem st) s (unat n * k))"
  shows "do_mem_cp prog cmdtp [cp, x, y, z] st = Some (0, st\<lparr>mem := m\<rparr>) \<and>
    (\<exists>out. do_mem_cmp cmdtp' [cmp, x, y, z] (st\<lparr>mem := m\<rparr>) = Some (0, sent out (st\<lparr>mem := m\<rparr>)))"
proof
  have args: "strtoul_arg [c, x, y, z] 1 = Some a" "strtoul_arg [c, x, y, z] 2 = Some d" "strtoul_arg [c, x, y, z] 3 = Some n" for c
    using assms(4-6) by (simp_all add: strtoul_arg_def load_def)
  show "do_mem_cp prog cmdtp [cp, x, y, z] st = Some (0, st\<lparr>mem := m\<rparr>)"
    unfolding assms(16) by (rule cp_command [OF assms(1) refl assms(2) args assms(7-11,13,14)])
  let ?n = "unat n * k"
  have full: "?n \<le> 2 ^ 32" using assms(11) by simp
  have same: "mem_bytes m s ?n = mem_bytes m t ?n"
  proof (cases "s = t")
    case False
    have "unat (s - t) + unat (t - s) = 2 ^ 32" using unat_neg [of "s - t"] False by simp
    then have le: "?n \<le> unat (s - t)" using assms(12) by linarith
    have lt: "?n < 2 ^ 32" by (rule le_less_trans [OF le]) (use unat_u32_less [of "s - t"] in simp)
    have "mem_bytes m s ?n = mem_bytes (mem st) s ?n"
      unfolding assms(16) by (rule mem_bytes_untouched) (use le assms(11) in simp_all)
    moreover have "mem_bytes m t ?n = mem_bytes (mem st) s ?n"
      using mem_bytes_overlay [of 0 ?n "mem_bytes (mem st) s ?n" "mem st" t] lt unfolding assms(16) by simp
    ultimately show ?thesis by simp
  qed simp
  show "\<exists>out. do_mem_cmp cmdtp' [cmp, x, y, z] (st\<lparr>mem := m\<rparr>) = Some (0, sent out (st\<lparr>mem := m\<rparr>))"
    by (rule cmp_command [where s = s and t = t, OF assms(1) refl assms(3) args])
      (use assms(7-10,15) same in \<open>simp_all add: devinit_def\<close>)
qed

definition sample_memory :: memory where
  "sample_memory = machine.extend ex_machine
     \<lparr>dp_last_addr = 0, dp_last_size = 0, dp_last_length = 0x40, mm_last_addr = 0, mm_last_size = 0, base_address = 0x100,
      console_buffer = replicate 256 NUL\<rparr>"

lemma sample_memory_simps:
  "mem sample_memory = (\<lambda>_. CHR 0xFF)" "base_address sample_memory = 0x100" "flash_info sample_memory = [ex_bank]"
  "\<not> devinit sample_memory"
  by (simp_all add: sample_memory_def machine.defs ex_machine_def board.defs devinit_def sample_board_def)

definition sample_entry :: "string \<Rightarrow> cmd_tbl" where
  "sample_entry name =
     \<lparr>cmd_name = name, maxargs = 4, repeatable = True, cmd_fn = 0, cmd_usage = Some name, cmd_help = None\<rparr>"

text \<open>C40: \<open>cp\<close> copies and \<open>cmp\<close> confirms it: for a target outside the flash and ranges that do not overlap,
  with addresses that are multiples of the size of the objects, \<open>cp\<close> changes the target range to the bytes
  of the source range and nothing else of the state, and \<open>cmp\<close> with the same arguments returns 0.  The
  addresses are relative to the base address.\<close>

theorem copy_then_compare:
  assumes "k \<in> {1, 2, 4}" "cmd_get_data_size cp 4 = Some (int k)" "cmd_get_data_size cmp 4 = Some (int k)"
    "simple_strtoul x 16 = Some (a, i)" "simple_strtoul y 16 = Some (d, j)" "simple_strtoul z 16 = Some (n, l)"
    "s = a + base_address st" "t = d + base_address st" "s mod of_nat k = 0" "t mod of_nat k = 0"
    "unat n * k + unat (s - t) \<le> 2 ^ 32" "unat n * k + unat (t - s) \<le> 2 ^ 32" "n \<noteq> 0"
    "addr2info (flash_info st) t = Some None" "\<not> devinit st"
    "m = overlay (mem st) t (mem_bytes (mem st) s (unat n * k))"
  shows "do_mem_cp prog cmdtp [cp, x, y, z] st = Some (0, st\<lparr>mem := m\<rparr>) \<and>
    (\<exists>out. do_mem_cmp cmdtp' [cmp, x, y, z] (st\<lparr>mem := m\<rparr>) = Some (0, sent out (st\<lparr>mem := m\<rparr>)))"
  using assms by (rule copy_and_compare)

theorem copy_then_compare_witness:
  "do_mem_cp good_chip (sample_entry ''cp'') [cstr ''cp.w'', cstr ''20000000'', cstr ''20000100'', cstr ''10''] sample_memory =
      Some (0, sample_memory\<lparr>mem := overlay (\<lambda>_. CHR 0xFF) 0x20000200 (mem_bytes (\<lambda>_. CHR 0xFF) 0x20000100 (16 * 2))\<rparr>) \<and>
    (\<exists>out. do_mem_cmp (sample_entry ''cmp'') [cstr ''cmp.w'', cstr ''20000000'', cstr ''20000100'', cstr ''10'']
        (sample_memory\<lparr>mem := overlay (\<lambda>_. CHR 0xFF) 0x20000200 (mem_bytes (\<lambda>_. CHR 0xFF) 0x20000100 (16 * 2))\<rparr>) =
      Some (0, sent out
        (sample_memory\<lparr>mem := overlay (\<lambda>_. CHR 0xFF) 0x20000200 (mem_bytes (\<lambda>_. CHR 0xFF) 0x20000100 (16 * 2))\<rparr>)))"
proof (rule copy_then_compare [where k = 2 and a = "0x20000000" and d = "0x20000100" and n = 16 and s = "0x20000100" and
      t = "0x20000200"])
  show "cmd_get_data_size (cstr ''cp.w'') 4 = Some (int 2)" "cmd_get_data_size (cstr ''cmp.w'') 4 = Some (int 2)"
    by code_simp+
  show "simple_strtoul (cstr ''20000000'') 16 = Some (0x20000000, 8)"
    "simple_strtoul (cstr ''20000100'') 16 = Some (0x20000100, 8)" "simple_strtoul (cstr ''10'') 16 = Some (16, 2)"
    by code_simp+
  show "addr2info (flash_info sample_memory) 0x20000200 = Some None"
    unfolding sample_memory_simps by code_simp
  show "\<not> devinit sample_memory" by (rule sample_memory_simps)
qed (simp_all add: sample_memory_simps)

end
