(* ===== verification/Kermit.thy ===== *)
theory Kermit
  imports Load
begin

unbundle bit_operations_syntax

text \<open>
  The binary download with the Kermit protocol (\<open>loadb\<close> in \<open>common/cmd_load.c\<close>): the packet receiver with
  its sequence numbers, check sums and saved states, and the replies.  \<open>char\<close> is unsigned.  The pointers
  \<open>os_data_init\<close> and \<open>os_data_char\<close> have one value each, \<open>bin_data_init\<close> and \<open>bin_data_char\<close>.
\<close>

section \<open>Characters\<close>

definition START_CHAR :: char where "START_CHAR = CHR 0x01"
definition ETX_CHAR :: char where "ETX_CHAR = CHR 0x03"
definition END_CHAR :: char where "END_CHAR = CHR 0x0D"
definition K_ESCAPE :: char where "K_ESCAPE = CHR 0x23"
definition SEND_TYPE :: char where "SEND_TYPE = CHR ''S''"
definition DATA_TYPE :: char where "DATA_TYPE = CHR ''D''"
definition ACK_TYPE :: char where "ACK_TYPE = CHR ''Y''"
definition NACK_TYPE :: char where "NACK_TYPE = CHR ''N''"
definition BREAK_TYPE :: char where "BREAK_TYPE = CHR ''B''"

definition tochar :: "int \<Rightarrow> char" where
  "tochar x = char_of (nat ((x + 32) mod 256))"

definition untochar :: "char \<Rightarrow> int" where
  "untochar c = (ichar c - 32) mod 256"

text \<open>\<open>(new_char & 0xE0) == 0\<close>\<close>

definition control :: "char \<Rightarrow> bool" where
  "control c \<longleftrightarrow> (of_nat (code c) :: u8) AND 0xE0 = 0"

definition ktrans :: "char \<Rightarrow> char" where
  "ktrans c =
     (let w = of_nat (code c) :: u8
      in if w AND 0x60 = 0x40 then char_of (unat (w AND NOT 0x40))
         else if w AND 0x7f = 0x3f then char_of (unat (w OR 0x40))
         else c)"

text \<open>The check of a sum of characters.\<close>

definition kcheck :: "int \<Rightarrow> int" where
  "kcheck s = (s + (s div 64) mod 4) mod 64"

fun chk_total :: "buf \<Rightarrow> int \<Rightarrow> int option" where
  "chk_total [] t = None"
| "chk_total (c # b) t = (if c = NUL then Some t else chk_total b (t + ichar c))"

definition chk1 :: "buf \<Rightarrow> int option" where
  "chk1 b = map_option kcheck (chk_total b 0)"

section \<open>State\<close>

record kermit = machine +
  his_eol :: char
  his_pad_count :: int
  his_pad_char :: char
  his_quote :: char
  a_b :: buf
  os_data_state :: int
  os_data_state_saved :: int
  os_data_count :: int
  os_data_count_saved :: int
  os_data_addr :: u32
  os_data_addr_saved :: u32
  bin_start_address :: u32
  k_data_escape :: int
  k_data_escape_saved :: int
  send_parms :: buf
  send_ptr :: nat

section \<open>Replies\<close>

fun send_pads :: "nat \<Rightarrow> char \<Rightarrow> 'a console_scheme \<Rightarrow> 'a console_scheme option" where
  "send_pads 0 c st = Some st"
| "send_pads (Suc n) c st = do { st \<leftarrow> putc c st; send_pads n c st }"

definition send_pad :: "'a kermit_scheme \<Rightarrow> 'a kermit_scheme option" where
  "send_pad st = send_pads (nat (his_pad_count st)) (his_pad_char st) st"

fun send_chars :: "buf \<Rightarrow> 'a console_scheme \<Rightarrow> 'a console_scheme option" where
  "send_chars [] st = None"
| "send_chars (c # p) st = (if c = NUL then Some st else do { st \<leftarrow> putc c st; send_chars p st })"

definition s1_sendpacket :: "buf \<Rightarrow> 'a kermit_scheme \<Rightarrow> 'a kermit_scheme option" where
  "s1_sendpacket packet st = do { st \<leftarrow> send_pad st; send_chars packet st }"

text \<open>Consecutive stores.\<close>

fun store_all :: "buf \<Rightarrow> nat \<Rightarrow> char list \<Rightarrow> buf option" where
  "store_all b i [] = Some b"
| "store_all b i (c # cs) = do { b \<leftarrow> store b i c; store_all b (Suc i) cs }"

definition send_reply :: "char \<Rightarrow> int \<Rightarrow> 'a kermit_scheme \<Rightarrow> 'a kermit_scheme option" where
  "send_reply type n st =
     do { b \<leftarrow> store_all (a_b st) 0 [START_CHAR, tochar 3, tochar n, type, NUL];
          c \<leftarrow> chk1 (drop 1 b);
          b \<leftarrow> store_all b 4 [tochar c, his_eol st, NUL];
          s1_sendpacket b (st\<lparr>a_b := b\<rparr>) }"

definition send_ack :: "int \<Rightarrow> 'a kermit_scheme \<Rightarrow> 'a kermit_scheme option" where
  "send_ack n st = send_reply ACK_TYPE n st"

definition send_nack :: "int \<Rightarrow> 'a kermit_scheme \<Rightarrow> 'a kermit_scheme option" where
  "send_nack n st = send_reply NACK_TYPE n st"

section \<open>Data\<close>

definition bin_data_init :: "'a kermit_scheme \<Rightarrow> 'a kermit_scheme" where
  "bin_data_init st = st\<lparr>os_data_state := 0, os_data_count := 0, os_data_addr := bin_start_address st\<rparr>"

definition os_data_save :: "'a kermit_scheme \<Rightarrow> 'a kermit_scheme" where
  "os_data_save st =
     st\<lparr>os_data_state_saved := os_data_state st, os_data_count_saved := os_data_count st,
        os_data_addr_saved := os_data_addr st\<rparr>"

definition os_data_restore :: "'a kermit_scheme \<Rightarrow> 'a kermit_scheme" where
  "os_data_restore st =
     st\<lparr>os_data_state := os_data_state_saved st, os_data_count := os_data_count_saved st,
        os_data_addr := os_data_addr_saved st\<rparr>"

definition bin_data_char :: "char \<Rightarrow> 'a kermit_scheme \<Rightarrow> 'a kermit_scheme" where
  "bin_data_char c st =
     (if os_data_state st = 0 then
        st\<lparr>mem := (mem st)(os_data_addr st := c), os_data_addr := os_data_addr st + 1, os_data_count := os_data_count st - 1\<rparr>
      else st)"

definition set_kerm_bin_mode :: "u32 \<Rightarrow> 'a kermit_scheme \<Rightarrow> 'a kermit_scheme" where
  "set_kerm_bin_mode addr st = st\<lparr>bin_start_address := addr\<rparr>"

definition k_data_init :: "'a kermit_scheme \<Rightarrow> 'a kermit_scheme" where
  "k_data_init st = bin_data_init (st\<lparr>k_data_escape := 0\<rparr>)"

definition k_data_save :: "'a kermit_scheme \<Rightarrow> 'a kermit_scheme" where
  "k_data_save st = os_data_save (st\<lparr>k_data_escape_saved := k_data_escape st\<rparr>)"

definition k_data_restore :: "'a kermit_scheme \<Rightarrow> 'a kermit_scheme" where
  "k_data_restore st = os_data_restore (st\<lparr>k_data_escape := k_data_escape_saved st\<rparr>)"

definition k_data_char :: "char \<Rightarrow> 'a kermit_scheme \<Rightarrow> 'a kermit_scheme" where
  "k_data_char c st =
     (if k_data_escape st \<noteq> 0 then (bin_data_char (ktrans c) st)\<lparr>k_data_escape := 0\<rparr>
      else if c = his_quote st then st\<lparr>k_data_escape := 1\<rparr>
      else bin_data_char c st)"

section \<open>The parameters of the sender\<close>

definition SEND_DATA_SIZE :: nat where "SEND_DATA_SIZE = 20"

text \<open>What is answered to each parameter, in order; a missing parameter ends the reply.\<close>

definition parm_replies :: "char list list" where
  "parm_replies =
     [[tochar 94], [tochar 1], [tochar 0], [CHR 0x40], [tochar (ichar END_CHAR)], ''#'', ''N'', ''1'', ''N'',
      [tochar 2, tochar 0, tochar 94, tochar 94]]"

definition protocol_defaults :: "'a kermit_scheme \<Rightarrow> 'a kermit_scheme" where
  "protocol_defaults st = st\<lparr>his_eol := END_CHAR, his_pad_count := 0, his_pad_char := NUL, his_quote := K_ESCAPE\<rparr>"

definition read_parm :: "nat \<Rightarrow> nat \<Rightarrow> (char \<Rightarrow> 'a kermit_scheme \<Rightarrow> 'a kermit_scheme) \<Rightarrow> 'a kermit_scheme \<Rightarrow> 'a kermit_scheme option" where
  "read_parm nb i f st =
     (if i < nb then do { c \<leftarrow> load (send_parms st) i; Some (f c st) } else Some st)"

definition handle_send_packet :: "int \<Rightarrow> 'a kermit_scheme \<Rightarrow> 'a kermit_scheme option" where
  "handle_send_packet n st =
     do { let st = protocol_defaults st;
          let st = (if send_ptr st = SEND_DATA_SIZE - 1 then st\<lparr>send_ptr := send_ptr st - 1\<rparr> else st);
          let nb = send_ptr st;
          st \<leftarrow> read_parm nb 2 (\<lambda>c. his_pad_count_update (\<lambda>_. untochar c)) st;
          st \<leftarrow> read_parm nb 3 (\<lambda>c. his_pad_char_update (\<lambda>_. ktrans c)) st;
          st \<leftarrow> read_parm nb 4 (\<lambda>c. his_eol_update (\<lambda>_. char_of (nat (untochar c)))) st;
          st \<leftarrow> read_parm nb 5 (\<lambda>c. his_quote_update (\<lambda>_. c)) st;
          let reply = concat (take nb parm_replies);
          let len = 3 + length reply;
          b \<leftarrow> store_all (a_b st) 4 reply;
          b \<leftarrow> store_all b 0 [START_CHAR, tochar (int len), tochar n, ACK_TYPE];
          b \<leftarrow> store b (len + 1) NUL;
          c \<leftarrow> chk1 (drop 1 b);
          b \<leftarrow> store_all b (len + 1) [tochar c, his_eol st, NUL];
          s1_sendpacket b (st\<lparr>a_b := b\<rparr>) }"

section \<open>Receiving packets\<close>

text \<open>The local variables of \<open>k_recv\<close> that outlive a packet.\<close>

record krecv =
  k_state :: char
  k_state_saved :: char
  k_n :: int
  last_n :: int

text \<open>Waiting for the start of a packet; \<open>False\<close> is control-C.\<close>

partial_function (option) wait_start :: "'a kermit_scheme \<Rightarrow> (bool \<times> 'a kermit_scheme) option" where
  "wait_start st =
     do { (c, st) \<leftarrow> getc st;
          if c = ichar START_CHAR then Some (True, st)
          else if c = ichar ETX_CHAR then Some (False, st)
          else wait_start st }"

text \<open>The next character of a packet; \<open>None\<close> inside is \<open>goto packet_error\<close>.\<close>

definition k_getc :: "'a console_scheme \<Rightarrow> (char option \<times> 'a console_scheme) option" where
  "k_getc st =
     do { (c, st) \<leftarrow> getc st;
          let c = char_of (nat (c mod 256));
          Some (if control c then None else Some c, st) }"

text \<open>\<open>while (length > 1)\<close>, with the sum of the characters; \<open>None\<close> inside is an error.\<close>

fun k_body :: "nat \<Rightarrow> char \<Rightarrow> int \<Rightarrow> 'a kermit_scheme \<Rightarrow> (int option \<times> 'a kermit_scheme) option" where
  "k_body 0 state s st = Some (Some s, st)"
| "k_body (Suc k) state s st =
     do { (c, st) \<leftarrow> k_getc st;
          (case c of
             None \<Rightarrow> Some (None, st)
           | Some c \<Rightarrow>
               do { st \<leftarrow> (if state = DATA_TYPE then Some (k_data_char c st)
                          else if state = SEND_TYPE then
                            do { b \<leftarrow> store (send_parms st) (send_ptr st) c;
                                 let p = Suc (send_ptr st);
                                 Some (st\<lparr>send_parms := b, send_ptr := if p \<ge> SEND_DATA_SIZE then p - 1 else p\<rparr>) }
                          else Some st);
                    k_body k state (s + ichar c) st }) }"

text \<open>The data, the check and the end of the packet; the result says that the packet is good.\<close>

definition k_rest :: "int \<Rightarrow> int \<Rightarrow> krecv \<Rightarrow> 'a kermit_scheme \<Rightarrow> (bool \<times> 'a kermit_scheme) option" where
  "k_rest len s kr st =
     do { (r, st) \<leftarrow> k_body (nat (len - 1)) (k_state kr) s st;
          (case r of
             None \<Rightarrow> Some (False, st)
           | Some s \<Rightarrow>
               do { (c, st) \<leftarrow> k_getc st;
                    if c \<noteq> Some (tochar (kcheck s)) then Some (False, st)
                    else do { (e, st) \<leftarrow> getc st; Some (e = ichar END_CHAR, st) } }) }"

text \<open>The two characters of an extended length and the check of the header.\<close>

definition k_extended :: "int \<Rightarrow> krecv \<Rightarrow> 'a kermit_scheme \<Rightarrow> (bool \<times> 'a kermit_scheme) option" where
  "k_extended s kr st =
     do { (hi, st) \<leftarrow> k_getc st;
          (case hi of
             None \<Rightarrow> Some (False, st)
           | Some hi \<Rightarrow>
               do { (lo, st) \<leftarrow> k_getc st;
                    (case lo of
                       None \<Rightarrow> Some (False, st)
                     | Some lo \<Rightarrow>
                         do { let s = s + ichar hi + ichar lo;
                              (c, st) \<leftarrow> k_getc st;
                              (case c of
                                 None \<Rightarrow> Some (False, st)
                               | Some c \<Rightarrow>
                                   if c \<noteq> tochar (kcheck s) then Some (False, st)
                                   else k_rest (untochar hi * 95 + untochar lo) (s + ichar c) kr st) }) }) }"

text \<open>A repeated sequence number takes the state back, a new one saves it.\<close>

definition k_number :: "int \<Rightarrow> krecv \<Rightarrow> 'a kermit_scheme \<Rightarrow> krecv \<times> 'a kermit_scheme" where
  "k_number n kr st =
     (if n = last_n kr then (kr\<lparr>k_n := n, k_state := k_state_saved kr\<rparr>, k_data_restore st)
      else (kr\<lparr>k_n := n, last_n := n, k_state_saved := k_state kr\<rparr>, k_data_save st))"

definition k_packet :: "krecv \<Rightarrow> 'a kermit_scheme \<Rightarrow> (bool \<times> krecv \<times> 'a kermit_scheme) option" where
  "k_packet kr st =
     do { (l, st) \<leftarrow> k_getc st;
          (case l of
             None \<Rightarrow> Some (False, kr, st)
           | Some l \<Rightarrow>
               do { (q, st) \<leftarrow> k_getc st;
                    (case q of
                       None \<Rightarrow> Some (False, kr, st)
                     | Some q \<Rightarrow>
                         do { let (kr, st) = k_number (untochar q) kr st;
                              (t, st) \<leftarrow> k_getc st;
                              (case t of
                                 None \<Rightarrow> Some (False, kr, st)
                               | Some t \<Rightarrow>
                                   do { let kr = kr\<lparr>k_state := t\<rparr>;
                                        let len = untochar l - 2;
                                        let s = ichar l + ichar q + ichar t;
                                        (good, st) \<leftarrow> (if len = -2 then k_extended s kr st else k_rest len s kr st);
                                        Some (good, kr, st) }) }) }) }"

definition k_answer :: "bool \<Rightarrow> krecv \<Rightarrow> 'a kermit_scheme \<Rightarrow> (bool \<times> krecv \<times> 'a kermit_scheme) option" where
  "k_answer good kr st =
     (if \<not> good then
        do { st \<leftarrow> send_nack (k_n kr) (k_data_restore st); Some (False, kr\<lparr>k_state := k_state_saved kr\<rparr>, st) }
      else if k_state kr = SEND_TYPE then do { st \<leftarrow> handle_send_packet (k_n kr) st; Some (False, kr, st) }
      else do { st \<leftarrow> send_ack (k_n kr) st; Some (k_state kr = BREAK_TYPE, kr, st) })"

text \<open>The main loop; the result is what \<open>k_recv\<close> returns.\<close>

partial_function (option) k_loop :: "krecv \<Rightarrow> 'a kermit_scheme \<Rightarrow> (u32 \<times> 'a kermit_scheme) option" where
  "k_loop kr st =
     do { (go, st) \<leftarrow> wait_start (st\<lparr>send_ptr := 0\<rparr>);
          if \<not> go then Some (0, st)
          else
            do { (good, kr, st) \<leftarrow> k_packet kr st;
                 (quit, kr, st) \<leftarrow> k_answer good kr st;
                 if quit then Some (os_data_addr st - bin_start_address st, st) else k_loop kr st } }"

definition k_recv :: "'a kermit_scheme \<Rightarrow> (u32 \<times> 'a kermit_scheme) option" where
  "k_recv st =
     k_loop \<lparr>k_state = NUL, k_state_saved = NUL, k_n = 0, last_n = -1\<rparr>
       (k_data_save (k_data_init (protocol_defaults st)))"

section \<open>The command\<close>

definition load_serial_bin :: "(u32 \<Rightarrow> int) \<Rightarrow> u32 \<Rightarrow> 'a kermit_scheme \<Rightarrow> (u32 \<times> 'a kermit_scheme) option" where
  "load_serial_bin start offset st =
     do { (sz, st) \<leftarrow> k_recv (set_kerm_bin_mode offset st);
          st \<leftarrow> drain 100 st;
          st \<leftarrow> printf (''## Total Size      = 0x%08x = %d Bytes'' @ [CHR 0x0A]) [VWord sz, VWord sz] st;
          (b, _, _) \<leftarrow> vsprintf (replicate 32 NUL) (cstr ''%X'') [VWord sz];
          st \<leftarrow> on_board (setenv start (cstr ''filesize'') (Some b)) st;
          Some (offset, st) }"

definition CFG_LOAD_ADDR :: u32 where "CFG_LOAD_ADDR = 0x20000000"

partial_function (option) wait_key :: "int \<Rightarrow> 'a console_scheme \<Rightarrow> 'a console_scheme option" where
  "wait_key key st = do { (c, st) \<leftarrow> getc st; if c = key then Some st else wait_key key st }"

text \<open>\<open>serial_setbrg\<close> programs the serial port.\<close>

definition switch_baudrate :: "string \<Rightarrow> u32 \<Rightarrow> int \<Rightarrow> 'a board_scheme \<Rightarrow> 'a board_scheme option" where
  "switch_baudrate key_name rate key st =
     do { st \<leftarrow> printf (''## Switch baudrate to %d bps and press '' @ key_name @ '' ...'' @ [CHR 0x0A]) [VWord rate] st;
          st \<leftarrow> udelay 50000 st;
          st \<leftarrow> udelay 50000 (st\<lparr>baudrate := rate\<rparr>);
          wait_key key st }"

definition do_load_serial_bin :: "(u32 \<Rightarrow> int) \<Rightarrow> buf list \<Rightarrow> 'a kermit_scheme \<Rightarrow> (int \<times> 'a kermit_scheme) option" where
  "do_load_serial_bin start argv st =
     do { s \<leftarrow> getenv (cstr ''loadaddr'') (board.truncate st);
          offset \<leftarrow> (case s of None \<Rightarrow> Some CFG_LOAD_ADDR | Some s \<Rightarrow> map_option fst (simple_strtoul s 16));
          let current_baudrate = baudrate st;
          offset \<leftarrow> (if length argv \<ge> 2 then do { s \<leftarrow> load argv 1; map_option fst (simple_strtoul s 16) } else Some offset);
          rate \<leftarrow> (if length argv = 3 then
                     do { s \<leftarrow> load argv 2;
                          (r, _) \<leftarrow> simple_strtoul s 10;
                          Some (if r = 0 then current_baudrate else r) }
                   else Some current_baudrate);
          st \<leftarrow> (if rate \<noteq> current_baudrate then switch_baudrate ''ENTER'' rate 0x0D st else Some st);
          st \<leftarrow> printf (''## Ready for binary (kermit) download to 0x%08lX at %d bps...'' @ [CHR 0x0A])
                 [VWord offset, VWord rate] st;
          (addr, st) \<leftarrow> load_serial_bin start offset st;
          (rcode, st) \<leftarrow> (if addr = -1 then
                            do { st \<leftarrow> printf (''## Binary (kermit) download aborted'' @ [CHR 0x0A]) [] (st\<lparr>load_addr := 0\<rparr>);
                                 Some (1, st) }
                          else
                            do { st \<leftarrow> printf (''## Start Addr      = 0x%08lX'' @ [CHR 0x0A]) [VWord addr] st;
                                 Some (0, st\<lparr>load_addr := addr\<rparr>) });
          st \<leftarrow> (if rate \<noteq> current_baudrate then switch_baudrate ''ESC'' current_baudrate 0x1B st else Some st);
          Some (rcode, st) }"

end
