(* ===== verification/Kermit_Props.thy ===== *)
theory Kermit_Props
  imports Kermit Memory_Props
begin

text \<open>
  What the Kermit receiver (\<open>Kermit\<close>) promises: a session in which every packet arrives in the end, after
  any number of damaged or repeated copies, puts the file into memory; and what a damaged header does.
\<close>

section \<open>Characters\<close>

lemma control_iff: "control c \<longleftrightarrow> code c < 32"
proof -
  have "list_all (\<lambda>n. ((of_nat n :: u8) AND 0xE0 = 0) = (n < 32)) [0..<256]" by code_simp
  from list_all_upt [OF this, of "code c"] show ?thesis by (simp add: control_def)
qed

lemma code_tochar: "0 \<le> x \<Longrightarrow> x < 96 \<Longrightarrow> code (tochar x) = nat x + 32"
  by (simp add: tochar_def nat_add_distrib)

lemma tochar_ok: "0 \<le> x \<Longrightarrow> x < 96 \<Longrightarrow> \<not> control (tochar x)" "0 \<le> x \<Longrightarrow> x < 96 \<Longrightarrow> untochar (tochar x) = x"
  by (simp_all add: control_iff code_tochar untochar_def ichar_eq_int)

lemma kcheck_range: "0 \<le> kcheck s" "kcheck s < 64"
  by (simp_all add: kcheck_def)

section \<open>Reading characters\<close>

lemma getc_some: "\<lbrakk>\<not> devinit st; serial_rx st = Some c # q\<rbrakk> \<Longrightarrow> getc st = Some (ichar c, st\<lparr>serial_rx := q\<rparr>)"
  by (simp add: getc_def serial_getc_def)

lemma getc_none: "\<lbrakk>\<not> devinit st; serial_rx st = None # q\<rbrakk> \<Longrightarrow> getc st = Some (0, st\<lparr>serial_rx := q\<rparr>)"
  by (simp add: getc_def serial_getc_def)

lemma char_ichar: "char_of (nat (ichar c mod 256)) = c"
  by (simp add: ichar_eq_int)

lemma k_getc_some: "\<lbrakk>\<not> devinit st; serial_rx st = Some c # q\<rbrakk> \<Longrightarrow>
    k_getc st = Some (if control c then None else Some c, st\<lparr>serial_rx := q\<rparr>)"
  by (simp add: k_getc_def getc_some char_ichar)

lemma k_getc_rx: "\<not> devinit st \<Longrightarrow>
    k_getc (st\<lparr>serial_rx := Some c # q\<rparr>) = Some (if control c then None else Some c, st\<lparr>serial_rx := q\<rparr>)"
  using k_getc_some [of "st\<lparr>serial_rx := Some c # q\<rparr>" c q] by (simp add: devinit_def)

lemma getc_rx: "\<not> devinit st \<Longrightarrow> getc (st\<lparr>serial_rx := Some c # q\<rparr>) = Some (ichar c, st\<lparr>serial_rx := q\<rparr>)"
  using getc_some [of "st\<lparr>serial_rx := Some c # q\<rparr>" c q] by (simp add: devinit_def)

text \<open>What may stand between packets.\<close>

definition idle :: "char option list \<Rightarrow> bool" where
  "idle g \<longleftrightarrow> Some START_CHAR \<notin> set g \<and> Some ETX_CHAR \<notin> set g"

lemma ichar_inj: "ichar c = ichar d \<longleftrightarrow> c = d"
  by (simp add: ichar_eq_int)

lemma wait_start_idle:
  "\<lbrakk>\<not> devinit st; idle g; serial_rx st = g @ Some START_CHAR # q\<rbrakk> \<Longrightarrow> wait_start st = Some (True, st\<lparr>serial_rx := q\<rparr>)"
proof (induction g arbitrary: st)
  case Nil
  then show ?case by (subst wait_start.simps) (simp add: getc_some)
next
  case (Cons x g)
  have i: "idle g" using Cons.prems(2) by (simp add: idle_def)
  show ?case
  proof (cases x)
    case None
    have ih: "wait_start (st\<lparr>serial_rx := g @ Some START_CHAR # q\<rparr>) = Some (True, st\<lparr>serial_rx := q\<rparr>)"
      using Cons.IH [of "st\<lparr>serial_rx := g @ Some START_CHAR # q\<rparr>"] Cons.prems i by (simp add: devinit_def)
    have "getc st = Some (0, st\<lparr>serial_rx := g @ Some START_CHAR # q\<rparr>)"
      using Cons.prems None by (simp add: getc_none)
    moreover have "ichar START_CHAR \<noteq> 0" "ichar ETX_CHAR \<noteq> 0" by (simp_all add: START_CHAR_def ETX_CHAR_def ichar_eq_int)
    ultimately show ?thesis using ih by (subst wait_start.simps) simp
  next
    case (Some c)
    have ih: "wait_start (st\<lparr>serial_rx := g @ Some START_CHAR # q\<rparr>) = Some (True, st\<lparr>serial_rx := q\<rparr>)"
      using Cons.IH [of "st\<lparr>serial_rx := g @ Some START_CHAR # q\<rparr>"] Cons.prems i by (simp add: devinit_def)
    have "getc st = Some (ichar c, st\<lparr>serial_rx := g @ Some START_CHAR # q\<rparr>)"
      using Cons.prems Some by (simp add: getc_some)
    moreover have "c \<noteq> START_CHAR" "c \<noteq> ETX_CHAR" using Cons.prems(2) Some by (auto simp: idle_def)
    ultimately show ?thesis using ih by (subst wait_start.simps) (simp add: ichar_inj)
  qed
qed

section \<open>Data\<close>

text \<open>The bytes that data characters stand for, and whether an escape is open.\<close>

fun kdecode :: "int \<Rightarrow> string \<Rightarrow> string \<times> int" where
  "kdecode e [] = ([], e)"
| "kdecode e (c # cs) =
     (if e \<noteq> 0 then let (d, e) = kdecode 0 cs in (ktrans c # d, e)
      else if c = CHR 0x23 then kdecode 1 cs
      else let (d, e) = kdecode 0 cs in (c # d, e))"

lemma kdecode_length: "length (fst (kdecode e cs)) \<le> length cs"
proof (induction cs arbitrary: e)
  case (Cons c cs)
  have "length (fst (kdecode 1 cs)) \<le> Suc (length cs)" using Cons.IH [of 1] by (rule le_SucI)
  then show ?case using Cons.IH [of 0] by (auto simp: case_prod_beta)
qed simp

text \<open>How a sender quotes a byte.\<close>

definition kquote :: "char \<Rightarrow> string" where
  "kquote c =
     (if code c mod 128 < 32 \<or> code c mod 128 = 127 then [CHR 0x23, char_of (unat ((of_nat (code c) :: u8) XOR 0x40))]
      else if c = CHR 0x23 then [CHR 0x23, CHR 0x23] else [c])"

definition kencode :: "string \<Rightarrow> string" where
  "kencode bs = concat (map kquote bs)"

lemma u8_char: "of_nat (code (char_of (unat w))) = w" "code (char_of (unat w)) = unat w" for w :: u8
proof -
  have "unat w < 2 ^ LENGTH(8)" by (rule unsigned_less)
  then have "unat w mod 256 = unat w" by simp
  then show "of_nat (code (char_of (unat w))) = w" "code (char_of (unat w)) = unat w" by simp_all
qed

lemma quoted_ctl:
  "list_all (\<lambda>n. ((of_nat n :: u8) XOR 0x40) AND 0x60 = 0x40 \<and> ((of_nat n :: u8) XOR 0x40) AND 0xBF = of_nat n \<and>
     32 \<le> (of_nat n :: u8) XOR 0x40) ([0..<32] @ [128..<160])"
  by code_simp

lemma quoted_del:
  "list_all (\<lambda>n. ((of_nat n :: u8) XOR 0x40) AND 0x60 \<noteq> 0x40 \<and> ((of_nat n :: u8) XOR 0x40) AND 0x7f = 0x3f \<and>
     ((of_nat n :: u8) XOR 0x40) OR 0x40 = of_nat n \<and> 32 \<le> (of_nat n :: u8) XOR 0x40) [127, 255]"
  by code_simp

lemma ktrans_quoted:
  assumes "code c mod 128 < 32 \<or> code c mod 128 = 127"
  shows "ktrans (char_of (unat ((of_nat (code c) :: u8) XOR 0x40))) = c"
    "32 \<le> code (char_of (unat ((of_nat (code c) :: u8) XOR 0x40)))"
proof -
  define w where "w = (of_nat (code c) :: u8) XOR 0x40"
  have lt: "code c < 256" by simp
  have c: "char_of (unat (of_nat (code c) :: u8)) = c" using lt by (simp add: unat_of_nat)
  have n: "NOT (0x40 :: u8) = 0xBF" by simp
  consider "code c \<in> set ([0..<32] @ [128..<160])" | "code c \<in> set [127, 255]"
  proof -
    have "code c - 128 < 128" using lt by linarith
    then have "code c mod 128 = (if code c < 128 then code c else code c - 128)"
      by (simp add: le_mod_geq)
    then have "code c < 32 \<or> 128 \<le> code c \<and> code c < 160 \<or> code c = 127 \<or> code c = 255"
      using assms lt by (auto split: if_splits)
    then have "code c \<in> set ([0..<32] @ [128..<160]) \<or> code c \<in> set [127, 255]"
      unfolding set_append set_upt by auto
    then show thesis using that by blast
  qed
  then have "ktrans (char_of (unat w)) = c \<and> 32 \<le> w"
  proof cases
    case 1
    then have "w AND 0x60 = 0x40" "w AND 0xBF = of_nat (code c)" "32 \<le> w"
      using quoted_ctl unfolding list_all_iff w_def by blast+
    then show ?thesis unfolding ktrans_def u8_char(1) Let_def n by (simp only: c if_True simp_thms)
  next
    case 2
    then have "w AND 0x60 \<noteq> 0x40" "w AND 0x7f = 0x3f" "w OR 0x40 = of_nat (code c)" "32 \<le> w"
      using quoted_del unfolding list_all_iff w_def by blast+
    then show ?thesis unfolding ktrans_def u8_char(1) Let_def by (simp only: c if_True if_False simp_thms)
  qed
  then show "ktrans (char_of (unat ((of_nat (code c) :: u8) XOR 0x40))) = c"
    "32 \<le> code (char_of (unat ((of_nat (code c) :: u8) XOR 0x40)))"
    unfolding w_def [symmetric] u8_char(2) by (simp_all add: word_le_nat_alt)
qed

lemma ktrans_hash: "ktrans (CHR 0x23) = CHR 0x23"
  by (simp add: ktrans_def)

lemma kquote_ok: "kdecode 0 (kquote c @ cs) = (let (d, e) = kdecode 0 cs in (c # d, e))" "\<forall>x \<in> set (kquote c). \<not> control x"
proof -
  show "kdecode 0 (kquote c @ cs) = (let (d, e) = kdecode 0 cs in (c # d, e))"
    unfolding kquote_def using ktrans_quoted(1) [of c] ktrans_hash by simp
  have "code c < 32 \<Longrightarrow> code c mod 128 < 32" by simp
  then show "\<forall>x \<in> set (kquote c). \<not> control x"
    unfolding kquote_def using ktrans_quoted(2) [of c] by (auto simp: control_iff not_less)
qed

lemma kencode_decode: "kdecode 0 (kencode bs) = (bs, 0)"
proof (induction bs)
  case (Cons c bs)
  then show ?case using kquote_ok(1) [of c "kencode bs"] by (simp add: kencode_def)
qed (simp add: kencode_def)

lemma kencode_control: "\<forall>x \<in> set (kencode bs). \<not> control x"
  using kquote_ok(2) by (auto simp: kencode_def)

text \<open>What data characters do to the state.\<close>

definition put_data :: "string \<Rightarrow> int \<Rightarrow> 'a kermit_scheme \<Rightarrow> 'a kermit_scheme" where
  "put_data ds e st =
     st\<lparr>mem := overlay (mem st) (os_data_addr st) ds, os_data_addr := os_data_addr st + of_nat (length ds),
        os_data_count := os_data_count st - int (length ds), k_data_escape := e\<rparr>"

lemma put_data_Nil: "put_data [] (k_data_escape st) st = st"
  by (simp add: put_data_def)

lemma fold_k_data:
  assumes "os_data_state st = 0" "his_quote st = CHR 0x23" "length cs < 2 ^ 32"
  shows "fold k_data_char cs st = put_data (fst (kdecode (k_data_escape st) cs)) (snd (kdecode (k_data_escape st) cs)) st"
  using assms
proof (induction cs arbitrary: st)
  case Nil
  then show ?case by (simp add: put_data_Nil)
next
  case (Cons c cs)
  define st1 where "st1 = k_data_char c st"
  have p: "os_data_state st1 = 0" "his_quote st1 = CHR 0x23"
    using Cons.prems by (simp_all add: st1_def k_data_char_def bin_data_char_def)
  have ih: "fold k_data_char cs st1 =
      put_data (fst (kdecode (k_data_escape st1) cs)) (snd (kdecode (k_data_escape st1) cs)) st1"
    by (rule Cons.IH [OF p]) (use Cons.prems(3) in simp)
  have long: "length (d # fst (kdecode 0 cs)) \<le> 2 ^ 32" for d
    using kdecode_length [of 0 cs] Cons.prems(3) by simp
  have "put_data (fst (kdecode (k_data_escape st1) cs)) (snd (kdecode (k_data_escape st1) cs)) st1 =
      put_data (fst (kdecode (k_data_escape st) (c # cs))) (snd (kdecode (k_data_escape st) (c # cs))) st"
    using Cons.prems(1,2) overlay_Cons [OF long, of "mem st" "os_data_addr st"]
    by (auto simp: st1_def k_data_char_def bin_data_char_def put_data_def case_prod_beta algebra_simps)
  then show ?case using ih by (simp add: st1_def)
qed

section \<open>Packets\<close>

definition send_char :: "char \<Rightarrow> 'a kermit_scheme \<Rightarrow> 'a kermit_scheme" where
  "send_char c st = st\<lparr>send_parms := (send_parms st)[send_ptr st := c],
     send_ptr := if Suc (send_ptr st) \<ge> SEND_DATA_SIZE then send_ptr st else Suc (send_ptr st)\<rparr>"

definition k_step :: "char \<Rightarrow> char \<Rightarrow> 'a kermit_scheme \<Rightarrow> 'a kermit_scheme" where
  "k_step t c st = (if t = DATA_TYPE then k_data_char c st else if t = SEND_TYPE then send_char c st else st)"

lemma k_step_rx: "k_step t c (st\<lparr>serial_rx := x\<rparr>) = (k_step t c st)\<lparr>serial_rx := x\<rparr>"
  by (auto simp: k_step_def k_data_char_def bin_data_char_def send_char_def)

lemma fold_k_step_rx: "fold (k_step t) cs (st\<lparr>serial_rx := x\<rparr>) = (fold (k_step t) cs st)\<lparr>serial_rx := x\<rparr>"
  by (induction cs arbitrary: st) (simp_all add: k_step_rx)

definition parms_room :: "char \<Rightarrow> 'a kermit_scheme \<Rightarrow> bool" where
  "parms_room t st \<longleftrightarrow> (t = SEND_TYPE \<longrightarrow> length (send_parms st) = SEND_DATA_SIZE \<and> send_ptr st < SEND_DATA_SIZE)"

lemma k_step_keeps: "devinit (k_step t c st) = devinit st" "parms_room t st \<Longrightarrow> parms_room t (k_step t c st)"
  by (auto simp: k_step_def k_data_char_def bin_data_char_def send_char_def devinit_def parms_room_def SEND_DATA_SIZE_def)

lemma k_body_ok:
  assumes "\<not> devinit st" "\<forall>c \<in> set body. \<not> control c" "serial_rx st = map Some body @ q" "parms_room t st"
  shows "k_body (length body) t s st =
    Some (Some (s + sum_list (map ichar body)), (fold (k_step t) body st)\<lparr>serial_rx := q\<rparr>)"
  using assms
proof (induction body arbitrary: s st)
  case Nil
  then have "st\<lparr>serial_rx := q\<rparr> = st" by simp
  then show ?case by simp
next
  case (Cons c cs)
  let ?st = "st\<lparr>serial_rx := map Some cs @ q\<rparr>"
  have g: "k_getc st = Some (Some c, ?st)"
    using k_getc_some [OF Cons.prems(1), of c "map Some cs @ q"] Cons.prems(2,3) by simp
  have step: "(if t = DATA_TYPE then Some (k_data_char c ?st)
        else if t = SEND_TYPE then
          do { b \<leftarrow> store (send_parms ?st) (send_ptr ?st) c;
               let p = Suc (send_ptr ?st);
               Some (?st\<lparr>send_parms := b, send_ptr := if p \<ge> SEND_DATA_SIZE then p - 1 else p\<rparr>) }
        else Some ?st) = Some (k_step t c ?st)"
    using Cons.prems(4) by (auto simp: k_step_def send_char_def parms_room_def store_def Let_def)
  have s1: "k_step t c ?st = (k_step t c st)\<lparr>serial_rx := map Some cs @ q\<rparr>" by (rule k_step_rx)
  have pre: "\<not> devinit (k_step t c ?st)" "parms_room t (k_step t c ?st)" "serial_rx (k_step t c ?st) = map Some cs @ q"
    using Cons.prems(1,4) k_step_keeps(1) [of t c st] k_step_keeps(2) [of t st c] by (simp_all add: s1 devinit_def parms_room_def)
  have "k_body (length cs) t (s + ichar c) (k_step t c ?st) =
      Some (Some (s + ichar c + sum_list (map ichar cs)), (fold (k_step t) cs (k_step t c ?st))\<lparr>serial_rx := q\<rparr>)"
    by (rule Cons.IH [OF pre(1) _ pre(3,2)]) (use Cons.prems(2) in simp)
  also have "(fold (k_step t) cs (k_step t c ?st))\<lparr>serial_rx := q\<rparr> = (fold (k_step t) (c # cs) st)\<lparr>serial_rx := q\<rparr>"
    unfolding s1 fold_k_step_rx by simp
  finally show ?case
    using g step by (simp add: add.assoc)
qed

text \<open>A frame behind its start character, with any check and end.\<close>

definition ksum :: "int \<Rightarrow> char \<Rightarrow> string \<Rightarrow> int" where
  "ksum n t body = ichar (tochar (int (length body) + 3)) + ichar (tochar n) + ichar t + sum_list (map ichar body)"

definition right_check :: "int \<Rightarrow> char \<Rightarrow> string \<Rightarrow> char" where
  "right_check n t body = tochar (kcheck (ksum n t body))"

definition kframe :: "int \<Rightarrow> char \<Rightarrow> string \<Rightarrow> char \<Rightarrow> char \<Rightarrow> string" where
  "kframe n t body c e = tochar (int (length body) + 3) # tochar n # t # body @ [c, e]"

lemma k_rest_ok:
  assumes "\<not> devinit st" "\<forall>c \<in> set body. \<not> control c" "serial_rx st = map Some body @ Some c # Some e # q"
    "parms_room (k_state kr) st" "s + sum_list (map ichar body) = x"
  shows "k_rest (int (length body) + 1) s kr st =
    Some (c = tochar (kcheck x) \<and> e = END_CHAR,
      (fold (k_step (k_state kr)) body st)\<lparr>serial_rx := if c = tochar (kcheck x) then q else Some e # q\<rparr>)"
proof -
  let ?f = "fold (k_step (k_state kr)) body st"
  have b: "k_body (length body) (k_state kr) s st = Some (Some x, ?f\<lparr>serial_rx := Some c # Some e # q\<rparr>)"
    using k_body_ok [OF assms(1-4), of s] assms(5) by simp
  have "devinit ?f = devinit st" by (induction body arbitrary: st) (simp_all add: k_step_keeps)
  then have dev: "\<not> devinit ?f" using assms(1) by simp
  have g: "k_getc (?f\<lparr>serial_rx := Some c # Some e # q\<rparr>) =
      Some (if control c then None else Some c, ?f\<lparr>serial_rx := Some e # q\<rparr>)"
    by (rule k_getc_rx [OF dev])
  have h: "getc (?f\<lparr>serial_rx := Some e # q\<rparr>) = Some (ichar e, ?f\<lparr>serial_rx := q\<rparr>)"
    by (rule getc_rx [OF dev])
  have n: "\<not> control (tochar (kcheck x))" using kcheck_range [of x] by (intro tochar_ok) simp_all
  show ?thesis
  proof (cases "c = tochar (kcheck x)")
    case True
    then show ?thesis using n b g h by (simp add: k_rest_def ichar_inj nat_add_distrib)
  next
    case False
    then show ?thesis using b g by (simp add: k_rest_def nat_add_distrib)
  qed
qed

lemma k_number_rx: "k_number n kr (st\<lparr>serial_rx := x\<rparr>) =
    (case k_number n kr st of (kr, st) \<Rightarrow> (kr, st\<lparr>serial_rx := x\<rparr>))"
  by (simp add: k_number_def k_data_restore_def k_data_save_def os_data_restore_def os_data_save_def)

lemma k_number_keeps:
  "k_number n kr st = (kr1, st1) \<Longrightarrow> devinit st1 = devinit st \<and> serial_rx st1 = serial_rx st \<and> k_n kr1 = n \<and> last_n kr1 = n \<and>
     parms_room t st1 = parms_room t st"
  by (auto simp: k_number_def k_data_restore_def k_data_save_def os_data_restore_def os_data_save_def devinit_def
      parms_room_def split: if_splits)

lemma k_packet_frame:
  assumes "\<not> devinit st" "\<forall>c \<in> set body. \<not> control c" "length body \<le> 91" "\<not> control t" "0 \<le> n" "n < 64"
    "serial_rx st = map Some (kframe n t body c e) @ q" "parms_room t st" "k_number n kr st = (kr1, st1)"
  shows "k_packet kr st = Some (c = right_check n t body \<and> e = END_CHAR, kr1\<lparr>k_state := t\<rparr>,
    (fold (k_step t) body st1)\<lparr>serial_rx := if c = right_check n t body then q else Some e # q\<rparr>)"
proof -
  let ?l = "tochar (int (length body) + 3)"
  let ?q3 = "map Some body @ Some c # Some e # q"
  have rx: "serial_rx st = Some ?l # Some (tochar n) # Some t # ?q3" using assms(7) by (simp add: kframe_def)
  have dev: "\<not> devinit st1" "\<not> devinit (st1\<lparr>serial_rx := ?q3\<rparr>)"
    using assms(1) k_number_keeps [OF assms(9)] by (simp_all add: devinit_def)
  have l: "untochar ?l = int (length body) + 3" "\<not> control ?l" using assms(3) by (simp_all add: tochar_ok)
  have nn: "untochar (tochar n) = n" "\<not> control (tochar n)" using assms(5,6) by (simp_all add: tochar_ok)
  have g1: "k_getc st = Some (Some ?l, st\<lparr>serial_rx := Some (tochar n) # Some t # ?q3\<rparr>)"
    using k_getc_some [OF assms(1) rx] l(2) by simp
  have g2: "k_getc (st\<lparr>serial_rx := Some (tochar n) # Some t # ?q3\<rparr>) = Some (Some (tochar n), st\<lparr>serial_rx := Some t # ?q3\<rparr>)"
    using k_getc_rx [OF assms(1), of "tochar n" "Some t # ?q3"] nn(2) by simp
  have num: "k_number n kr (st\<lparr>serial_rx := Some t # ?q3\<rparr>) = (kr1, st1\<lparr>serial_rx := Some t # ?q3\<rparr>)"
    unfolding k_number_rx assms(9) by simp
  have g3: "k_getc (st1\<lparr>serial_rx := Some t # ?q3\<rparr>) = Some (Some t, st1\<lparr>serial_rx := ?q3\<rparr>)"
    using k_getc_rx [OF dev(1), of t ?q3] assms(4) by simp
  let ?kr = "kr1\<lparr>k_state := t\<rparr>"
  have room: "parms_room (k_state ?kr) (st1\<lparr>serial_rx := ?q3\<rparr>)"
    using assms(8) k_number_keeps [OF assms(9), of t] by (simp add: parms_room_def)
  have rest: "k_rest (int (length body) + 1) (ichar ?l + ichar (tochar n) + ichar t) ?kr (st1\<lparr>serial_rx := ?q3\<rparr>) =
      Some (c = right_check n t body \<and> e = END_CHAR,
        (fold (k_step t) body st1)\<lparr>serial_rx := if c = right_check n t body then q else Some e # q\<rparr>)"
    using k_rest_ok [OF dev(2) assms(2) _ room, of c e q "ichar ?l + ichar (tochar n) + ichar t" "ksum n t body"]
    by (simp add: ksum_def right_check_def fold_k_step_rx)
  have len: "untochar ?l - 2 = int (length body) + 1" "untochar ?l - 2 \<noteq> -2" using l(1) by simp_all
  show ?thesis
    unfolding k_packet_def g1 bind.bind_lunit prod.case option.case g2 nn(1) num Let_def g3 if_not_P [OF len(2)]
    unfolding len(1) rest by simp
qed

section \<open>Replies\<close>

lemma chk1_returns: "NUL \<in> set b \<Longrightarrow> \<exists>x. chk1 b = Some x"
proof -
  have "NUL \<in> set b \<Longrightarrow> \<exists>x. chk_total b t = Some x" for t by (induction b arbitrary: t) auto
  then show "NUL \<in> set b \<Longrightarrow> ?thesis" by (auto simp: chk1_def)
qed

lemma send_pads_ok: "\<not> devinit st \<Longrightarrow> \<exists>out. send_pads n c st = Some (sent out st)"
proof (induction n arbitrary: st)
  case 0
  have "send_pads 0 c st = Some (sent [] st)" by simp
  then show ?case by blast
next
  case (Suc n)
  obtain out where "send_pads n c (sent (on_wire [c]) st) = Some (sent out (sent (on_wire [c]) st))"
    using Suc.IH [of "sent (on_wire [c]) st"] Suc.prems by auto
  then show ?case using putc_sent [OF Suc.prems, of c] by auto
qed

lemma send_chars_ok: "\<lbrakk>\<not> devinit st; NUL \<in> set p\<rbrakk> \<Longrightarrow> \<exists>out. send_chars p st = Some (sent out st)"
proof (induction p arbitrary: st)
  case (Cons c p)
  show ?case
  proof (cases "c = NUL")
    case True
    then have "send_chars (c # p) st = Some (sent [] st)" by simp
    then show ?thesis by blast
  next
    case False
    then obtain out where "send_chars p (sent (on_wire [c]) st) = Some (sent out (sent (on_wire [c]) st))"
      using Cons.IH [of "sent (on_wire [c]) st"] Cons.prems by auto
    then show ?thesis using putc_sent [OF Cons.prems(1), of c] False by auto
  qed
qed simp

lemma s1_sendpacket_ok: "\<lbrakk>\<not> devinit st; NUL \<in> set p\<rbrakk> \<Longrightarrow> \<exists>out. s1_sendpacket p st = Some (sent out st)"
proof -
  assume a: "\<not> devinit st" "NUL \<in> set p"
  obtain o1 where 1: "send_pad st = Some (sent o1 st)" using send_pads_ok [OF a(1)] unfolding send_pad_def by blast
  obtain o2 where "send_chars p (sent o1 st) = Some (sent o2 (sent o1 st))" using send_chars_ok [of "sent o1 st" p] a by auto
  then show ?thesis using 1 by (auto simp: s1_sendpacket_def)
qed

lemma store_all_ok: "i + length cs \<le> length b \<Longrightarrow> store_all b i cs = Some (take i b @ cs @ drop (i + length cs) b)"
proof (induction cs arbitrary: b i)
  case (Cons c cs)
  have "store b i c = Some (b[i := c])" using Cons.prems by (simp add: store_def)
  moreover have "take (Suc i) (b[i := c]) = take i b @ [c]" using Cons.prems by (simp add: take_Suc_conv_app_nth)
  ultimately show ?case using Cons.IH [of "Suc i" "b[i := c]"] Cons.prems by simp
qed simp

lemma send_reply_ok:
  assumes "\<not> devinit st" "length (a_b st) = 24"
  shows "\<exists>out b. send_reply t n st = Some (sent out (st\<lparr>a_b := b\<rparr>)) \<and> length b = 24"
proof -
  define b1 where "b1 = [START_CHAR, tochar 3, tochar n, t, NUL] @ drop 5 (a_b st)"
  have s1: "store_all (a_b st) 0 [START_CHAR, tochar 3, tochar n, t, NUL] = Some b1"
    using store_all_ok [of 0 "[START_CHAR, tochar 3, tochar n, t, NUL]" "a_b st"] assms(2) by (simp add: b1_def eval_nat_numeral)
  have l1: "length b1 = 24" using assms(2) by (simp add: b1_def)
  have "NUL \<in> set (drop 1 b1)" by (simp add: b1_def)
  then obtain c where c: "chk1 (drop 1 b1) = Some c" using chk1_returns by blast
  define b2 where "b2 = take 4 b1 @ [tochar c, his_eol st, NUL] @ drop 7 b1"
  have s2: "store_all b1 4 [tochar c, his_eol st, NUL] = Some b2"
    using store_all_ok [of 4 "[tochar c, his_eol st, NUL]" b1] l1 by (simp add: b2_def)
  have l2: "length b2 = 24" "NUL \<in> set b2" using l1 by (simp_all add: b2_def)
  obtain out where o: "s1_sendpacket b2 (st\<lparr>a_b := b2\<rparr>) = Some (sent out (st\<lparr>a_b := b2\<rparr>))"
    using s1_sendpacket_ok [of "st\<lparr>a_b := b2\<rparr>" b2] assms(1) l2(2) by (auto simp: devinit_def)
  have "send_reply t n st = Some (sent out (st\<lparr>a_b := b2\<rparr>))"
    unfolding send_reply_def s1 bind.bind_lunit c s2 o ..
  then show ?thesis using l2(1) by blast
qed

text \<open>The reply to the parameters; the quote character stays the default one.\<close>

definition parms_ok :: "string \<Rightarrow> bool" where
  "parms_ok body \<longleftrightarrow> length body \<le> 18 \<and> (5 < length body \<longrightarrow> body ! 5 = CHR 0x23)"

lemma read_parm_ok: "nb \<le> length (send_parms st) \<Longrightarrow> read_parm nb i f st = Some (if i < nb then f (send_parms st ! i) st else st)"
  by (simp add: read_parm_def load_def)

lemma parm_replies_length: "length (concat (take nb parm_replies)) \<le> 13"
proof -
  have "list_all (\<lambda>k. length (concat (take k parm_replies)) \<le> 13) [0..<11]" by code_simp
  then have "length (concat (take (min nb 10) parm_replies)) \<le> 13" by (rule list_all_upt) simp
  moreover have "take (min nb 10) parm_replies = take nb parm_replies"
    by (cases "nb \<le> 10") (simp_all add: parm_replies_def min_def)
  ultimately show ?thesis by simp
qed

lemma handle_send_packet_ok:
  assumes "\<not> devinit st" "length (a_b st) = 24" "length (send_parms st) = 20" "send_ptr st = length body" "parms_ok body"
    "take (length body) (send_parms st) = body"
  shows "\<exists>out b e p c. handle_send_packet n st = Some (sent out (st\<lparr>a_b := b, his_eol := e, his_pad_count := p,
    his_pad_char := c, his_quote := CHR 0x23\<rparr>)) \<and> length b = 24"
proof -
  let ?nb = "length body"
  have nb: "?nb \<le> 18" "?nb \<noteq> 19" using assms(5) by (simp_all add: parms_ok_def)
  define st0 where "st0 = protocol_defaults st"
  have p0: "send_ptr st0 = ?nb" "send_parms st0 = send_parms st" "a_b st0 = a_b st"
    using assms(4) by (simp_all add: st0_def protocol_defaults_def)
  define P where "P = send_parms st"
  have lP: "?nb \<le> length P" using nb(1) assms(3) by (simp add: P_def)
  have q: "5 < ?nb \<Longrightarrow> P ! 5 = CHR 0x23"
    using assms(5,6) unfolding parms_ok_def P_def by (metis nth_take)
  define st1 where "st1 = (if 2 < ?nb then his_pad_count_update (\<lambda>_. untochar (P ! 2)) st0 else st0)"
  define st2 where "st2 = (if 3 < ?nb then his_pad_char_update (\<lambda>_. ktrans (P ! 3)) st1 else st1)"
  define st3 where "st3 = (if 4 < ?nb then his_eol_update (\<lambda>_. char_of (nat (untochar (P ! 4)))) st2 else st2)"
  define st4 where "st4 = (if 5 < ?nb then his_quote_update (\<lambda>_. P ! 5) st3 else st3)"
  obtain p c e where upd: "st1 = st0\<lparr>his_pad_count := p\<rparr>" "st2 = st1\<lparr>his_pad_char := c\<rparr>" "st3 = st2\<lparr>his_eol := e\<rparr>"
  proof (rule that)
    show "st1 = st0\<lparr>his_pad_count := his_pad_count st1\<rparr>" "st2 = st1\<lparr>his_pad_char := his_pad_char st2\<rparr>"
      "st3 = st2\<lparr>his_eol := his_eol st3\<rparr>" by (simp_all add: st1_def st2_def st3_def)
  qed
  have "st4 = st3\<lparr>his_quote := CHR 0x23\<rparr>"
    using q by (simp add: st4_def upd st0_def protocol_defaults_def K_ESCAPE_def)
  then have eq4: "st4 = st\<lparr>his_eol := e, his_pad_count := p, his_pad_char := c, his_quote := CHR 0x23\<rparr>"
    by (simp add: upd st0_def protocol_defaults_def)
  have s: "send_parms st1 = P" "send_parms st2 = P" "send_parms st3 = P"
    by (simp_all add: upd st0_def protocol_defaults_def P_def)
  have 1: "read_parm ?nb 2 (\<lambda>c. his_pad_count_update (\<lambda>_. untochar c)) st0 = Some st1"
    using read_parm_ok [of ?nb st0 2] lP p0(2) by (simp add: P_def st1_def)
  have 2: "read_parm ?nb 3 (\<lambda>c. his_pad_char_update (\<lambda>_. ktrans c)) st1 = Some st2"
    using read_parm_ok [of ?nb st1 3] lP s by (simp add: st2_def)
  have 3: "read_parm ?nb 4 (\<lambda>c. his_eol_update (\<lambda>_. char_of (nat (untochar c)))) st2 = Some st3"
    using read_parm_ok [of ?nb st2 4] lP s by (simp add: st3_def)
  have 4: "read_parm ?nb 5 (\<lambda>c. his_quote_update (\<lambda>_. c)) st3 = Some st4"
    using read_parm_ok [of ?nb st3 5] lP s by (simp add: st4_def)
  define rep where "rep = concat (take ?nb parm_replies)"
  define len where "len = 3 + length rep"
  have len: "len \<le> 16" using parm_replies_length [of ?nb] by (simp add: len_def rep_def)
  have l: "length (a_b st4) = 24" using assms(2) by (simp add: eq4)
  define b1 where "b1 = take 4 (a_b st4) @ rep @ drop (4 + length rep) (a_b st4)"
  have b1: "store_all (a_b st4) 4 rep = Some b1" "length b1 = 24"
    using store_all_ok [of 4 rep "a_b st4"] l len by (simp_all add: b1_def len_def)
  let ?h = "[START_CHAR, tochar (int len), tochar n, ACK_TYPE]"
  define b2 where "b2 = ?h @ drop 4 b1"
  have b2: "store_all b1 0 ?h = Some b2" "length b2 = 24"
    using store_all_ok [of 0 ?h b1] b1(2) by (simp_all add: b2_def eval_nat_numeral)
  define b3 where "b3 = b2[len + 1 := NUL]"
  have b3: "store b2 (len + 1) NUL = Some b3" "length b3 = 24" using b2(2) len by (simp_all add: b3_def store_def)
  have "drop 1 b3 ! len = NUL" "len < length (drop 1 b3)" using b2(2) len by (simp_all add: b3_def)
  then have "NUL \<in> set (drop 1 b3)" by (metis nth_mem)
  then obtain x where x: "chk1 (drop 1 b3) = Some x" using chk1_returns by blast
  let ?t = "[tochar x, his_eol st4, NUL]"
  define b4 where "b4 = take (len + 1) b3 @ ?t @ drop (len + 4) b3"
  have fit: "len + 1 + length ?t \<le> length b3" using b3(2) len by simp
  have b4: "store_all b3 (len + 1) ?t = Some b4" "NUL \<in> set b4"
    using store_all_ok [OF fit] by (simp_all add: b4_def eval_nat_numeral)
  have lb4: "length b4 = 24" using fit b3(2) len by (simp add: b4_def)
  have dev: "\<not> devinit (st4\<lparr>a_b := b4\<rparr>)" using assms(1) by (simp add: eq4 devinit_def)
  obtain out where o: "s1_sendpacket b4 (st4\<lparr>a_b := b4\<rparr>) = Some (sent out (st4\<lparr>a_b := b4\<rparr>))"
    using s1_sendpacket_ok [OF dev b4(2)] by blast
  have c: "(if send_ptr st0 = SEND_DATA_SIZE - 1 then st0\<lparr>send_ptr := send_ptr st0 - 1\<rparr> else st0) = st0"
    using p0(1) nb(2) by (simp add: SEND_DATA_SIZE_def)
  have "handle_send_packet n st = Some (sent out (st4\<lparr>a_b := b4\<rparr>))"
    unfolding handle_send_packet_def Let_def st0_def [symmetric] c unfolding p0(1) 1 2 3 4 bind.bind_lunit rep_def [symmetric]
      len_def [symmetric] b1(1) b2(1) b3(1) x b4(1) o ..
  also have "st4\<lparr>a_b := b4\<rparr> = st\<lparr>a_b := b4, his_eol := e, his_pad_count := p, his_pad_char := c, his_quote := CHR 0x23\<rparr>"
    by (simp add: eq4)
  finally show ?thesis using lb4 by blast
qed

section \<open>Sessions\<close>

text \<open>What holds between packets while a file is received at \<open>addr\<close>.\<close>

definition kinv :: "u32 \<Rightarrow> 'a kermit_scheme \<Rightarrow> bool" where
  "kinv addr st \<longleftrightarrow> \<not> devinit st \<and> length (a_b st) = 24 \<and> length (send_parms st) = SEND_DATA_SIZE \<and>
     os_data_state st = 0 \<and> os_data_state_saved st = 0 \<and> his_quote st = CHR 0x23 \<and> bin_start_address st = addr"

text \<open>The file is received up to an address; a position is one, and no escape is open.\<close>

definition at_pos :: "u32 \<Rightarrow> 'a kermit_scheme \<Rightarrow> bool" where
  "at_pos a st \<longleftrightarrow> os_data_addr st = a \<and> k_data_escape st = 0"

definition saved_pos :: "u32 \<Rightarrow> 'a kermit_scheme \<Rightarrow> bool" where
  "saved_pos a st \<longleftrightarrow> os_data_addr_saved st = a \<and> k_data_escape_saved st = 0"

text \<open>The receiver takes the data of packet \<open>n\<close> at \<open>a\<close>: the packet is new, or it is a copy of the last one.\<close>

definition ready :: "u32 \<Rightarrow> int \<Rightarrow> krecv \<Rightarrow> 'a kermit_scheme \<Rightarrow> bool" where
  "ready a n kr st \<longleftrightarrow> (if n = last_n kr then saved_pos a st else at_pos a st)"

lemma k_number_ready:
  assumes "kinv addr st" "ready a n kr st" "k_number n kr st = (kr1, st1)"
  shows "kinv addr st1" "at_pos a st1" "saved_pos a st1" "mem st1 = mem st" "k_n kr1 = n" "last_n kr1 = n" "send_ptr st1 = send_ptr st"
  using assms
  by (auto simp: kinv_def ready_def k_number_def k_data_restore_def k_data_save_def os_data_restore_def os_data_save_def
      at_pos_def saved_pos_def devinit_def split: if_splits)

lemma fold_send_char:
  assumes "send_ptr st + length cs < SEND_DATA_SIZE" "length (send_parms st) = SEND_DATA_SIZE"
  shows "fold send_char cs st = st\<lparr>send_parms := take (send_ptr st) (send_parms st) @ cs @ drop (send_ptr st + length cs) (send_parms st),
    send_ptr := send_ptr st + length cs\<rparr>"
  using assms
proof (induction cs arbitrary: st)
  case (Cons c cs)
  have s: "send_char c st = st\<lparr>send_parms := (send_parms st)[send_ptr st := c], send_ptr := Suc (send_ptr st)\<rparr>"
    using Cons.prems(1) by (simp add: send_char_def)
  have ih: "fold send_char cs (send_char c st) = (send_char c st)\<lparr>send_parms := take (send_ptr (send_char c st)) (send_parms (send_char c st)) @ cs @
      drop (send_ptr (send_char c st) + length cs) (send_parms (send_char c st)), send_ptr := send_ptr (send_char c st) + length cs\<rparr>"
    by (rule Cons.IH) (use Cons.prems in \<open>simp_all add: s\<close>)
  have "take (Suc (send_ptr st)) ((send_parms st)[send_ptr st := c]) = take (send_ptr st) (send_parms st) @ [c]"
    using Cons.prems by (simp add: take_Suc_conv_app_nth)
  then show ?case using ih by (simp add: s)
qed simp

text \<open>The data of a frame.\<close>

definition frame_data :: "char \<Rightarrow> string \<Rightarrow> string \<times> int" where
  "frame_data t body = (if t = DATA_TYPE then kdecode 0 body else ([], 0))"

lemma frame_data_length: "length (fst (frame_data t body)) \<le> length body"
  by (simp add: frame_data_def kdecode_length)

lemma types_differ: "SEND_TYPE \<noteq> DATA_TYPE" "BREAK_TYPE \<noteq> DATA_TYPE" "BREAK_TYPE \<noteq> SEND_TYPE"
  by (simp_all add: SEND_TYPE_def DATA_TYPE_def BREAK_TYPE_def)

lemma fold_k_step:
  assumes "kinv addr st" "at_pos a st" "send_ptr st = 0" "length body \<le> 91" "t = SEND_TYPE \<longrightarrow> length body \<le> 18"
  obtains st1 where "st1 = fold (k_step t) body st" "kinv addr st1" "saved_pos x st1 = saved_pos x st"
    "mem st1 = overlay (mem st) a (fst (frame_data t body))" "os_data_addr st1 = a + of_nat (length (fst (frame_data t body)))"
    "k_data_escape st1 = snd (frame_data t body)"
    "t = SEND_TYPE \<longrightarrow> send_ptr st1 = length body \<and> take (length body) (send_parms st1) = body"
proof -
  consider "t = DATA_TYPE" | "t = SEND_TYPE" "t \<noteq> DATA_TYPE" | "t \<noteq> DATA_TYPE" "t \<noteq> SEND_TYPE" by blast
  then show thesis
  proof cases
    case 1
    have s: "k_step t = k_data_char" using 1 by (intro ext) (simp add: k_step_def)
    have l: "length body < 2 ^ 32" using assms(4) by simp
    have f: "fold (k_step t) body st = put_data (fst (kdecode 0 body)) (snd (kdecode 0 body)) st"
      unfolding s using fold_k_data [of st body] assms(1,2) l by (simp add: kinv_def at_pos_def)
    show thesis
      by (rule that [OF f [symmetric]]) (use 1 assms(1,2) types_differ in
          \<open>simp_all add: put_data_def kinv_def devinit_def saved_pos_def frame_data_def at_pos_def\<close>)
  next
    case 2
    have s: "k_step t = send_char" using 2 by (intro ext) (simp add: k_step_def)
    have f: "fold (k_step t) body st =
        st\<lparr>send_parms := body @ drop (length body) (send_parms st), send_ptr := length body\<rparr>"
      unfolding s using fold_send_char [of st body] assms(1,3,5) 2 by (simp add: kinv_def SEND_DATA_SIZE_def)
    show thesis
      by (rule that [OF f [symmetric]]) (use 2 assms(1,2,5) in
          \<open>simp_all add: kinv_def devinit_def saved_pos_def frame_data_def at_pos_def SEND_DATA_SIZE_def\<close>)
  next
    case 3
    have s: "k_step t = (\<lambda>c st. st)" using 3 by (intro ext) (simp add: k_step_def)
    have f: "fold (k_step t) body st = st" unfolding s by (induction body) simp_all
    show thesis
      by (rule that [OF f [symmetric]]) (use 3 assms(1,2) in \<open>simp_all add: frame_data_def at_pos_def\<close>)
  qed
qed

text \<open>One frame, up to the answer.\<close>

lemma kinv_rx [simp]: "kinv addr (st\<lparr>serial_rx := x\<rparr>) = kinv addr st" "at_pos a (st\<lparr>serial_rx := x\<rparr>) = at_pos a st"
  "saved_pos a (st\<lparr>serial_rx := x\<rparr>) = saved_pos a st" "ready a n kr (st\<lparr>serial_rx := x\<rparr>) = ready a n kr st"
  "kinv addr (st\<lparr>send_ptr := y\<rparr>) = kinv addr st" "ready a n kr (st\<lparr>send_ptr := y\<rparr>) = ready a n kr st"
  by (simp_all add: kinv_def devinit_def at_pos_def saved_pos_def ready_def)

definition after_answer :: "bool \<times> krecv \<times> 'a kermit_scheme \<Rightarrow> (u32 \<times> 'a kermit_scheme) option" where
  "after_answer = (\<lambda>(quit, kr, st). if quit then Some (os_data_addr st - bin_start_address st, st) else k_loop kr st)"

lemma frame_step:
  assumes "kinv addr st" "ready a n kr st" "idle g" "serial_rx st = g @ map Some (START_CHAR # kframe n t body c e) @ q"
    "\<forall>c \<in> set body. \<not> control c" "length body \<le> 91" "t = SEND_TYPE \<longrightarrow> length body \<le> 18" "\<not> control t" "0 \<le> n" "n < 64"
  obtains kr1 st1 where "k_loop kr st = k_answer (c = right_check n t body \<and> e = END_CHAR) kr1 st1 \<bind> after_answer"
    "kinv addr st1" "k_n kr1 = n" "last_n kr1 = n" "k_state kr1 = t" "saved_pos a st1"
    "mem st1 = overlay (mem st) a (fst (frame_data t body))" "os_data_addr st1 = a + of_nat (length (fst (frame_data t body)))"
    "k_data_escape st1 = snd (frame_data t body)"
    "t = SEND_TYPE \<longrightarrow> send_ptr st1 = length body \<and> take (length body) (send_parms st1) = body"
    "serial_rx st1 = (if c = right_check n t body then q else Some e # q)"
proof -
  define sta where "sta = st\<lparr>send_ptr := 0\<rparr>"
  have a: "kinv addr sta" "ready a n kr sta" "send_ptr sta = 0" "mem sta = mem st" "\<not> devinit sta"
    using assms(1,2) by (simp_all add: sta_def) (simp_all add: kinv_def devinit_def)?
  let ?f = "map Some (kframe n t body c e) @ q"
  have w: "wait_start sta = Some (True, sta\<lparr>serial_rx := ?f\<rparr>)"
    by (rule wait_start_idle [OF a(5) assms(3)]) (simp add: sta_def assms(4))
  define stb where "stb = sta\<lparr>serial_rx := ?f\<rparr>"
  have b: "kinv addr stb" "ready a n kr stb" "send_ptr stb = 0" "mem stb = mem st" "\<not> devinit stb" "serial_rx stb = ?f"
    using a by (simp_all add: stb_def devinit_def)
  obtain kr0 st0 where num: "k_number n kr stb = (kr0, st0)" by (rule prod.exhaust)
  note k = k_number_ready [OF b(1,2) num]
  obtain st1 where f: "st1 = fold (k_step t) body st0" "kinv addr st1" "saved_pos a st1 = saved_pos a st0"
    "mem st1 = overlay (mem st0) a (fst (frame_data t body))" "os_data_addr st1 = a + of_nat (length (fst (frame_data t body)))"
    "k_data_escape st1 = snd (frame_data t body)"
    "t = SEND_TYPE \<longrightarrow> send_ptr st1 = length body \<and> take (length body) (send_parms st1) = body"
    using fold_k_step [OF k(1,2) _ assms(6,7)] k(7) b(3) by metis
  have room: "parms_room t stb" using b(1,3) by (simp add: parms_room_def kinv_def SEND_DATA_SIZE_def)
  let ?r = "if c = right_check n t body then q else Some e # q"
  have p: "k_packet kr stb = Some (c = right_check n t body \<and> e = END_CHAR, kr0\<lparr>k_state := t\<rparr>, st1\<lparr>serial_rx := ?r\<rparr>)"
    unfolding f(1) by (rule k_packet_frame [OF b(5) assms(5,6,8-10) b(6) room num])
  have "k_loop kr st = k_answer (c = right_check n t body \<and> e = END_CHAR) (kr0\<lparr>k_state := t\<rparr>) (st1\<lparr>serial_rx := ?r\<rparr>) \<bind> after_answer"
    by (subst k_loop.simps) (simp add: sta_def [symmetric] w stb_def [symmetric] p after_answer_def)
  then show thesis
    by (rule that) (use f k b(4) in simp_all)
qed


text \<open>The answers.\<close>

lemma kinv_reply [simp]:
  "kinv addr (sent out st) = kinv addr st" "at_pos a (sent out st) = at_pos a st" "saved_pos a (sent out st) = saved_pos a st"
  "kinv addr (st\<lparr>a_b := b, his_eol := e, his_pad_count := p, his_pad_char := c, his_quote := CHR 0x23\<rparr>) \<longleftrightarrow>
     kinv addr (st\<lparr>a_b := b, his_quote := CHR 0x23\<rparr>)"
  by (simp_all add: sent_def kinv_def devinit_def at_pos_def saved_pos_def)

lemma answer_bad:
  assumes "kinv addr st" "saved_pos a st" "k_n kr = n" "last_n kr = n"
  obtains kr1 st1 where "k_answer False kr st = Some (False, kr1, st1)" "kinv addr st1" "last_n kr1 = n"
    "at_pos a st1" "saved_pos a st1" "mem st1 = mem st" "serial_rx st1 = serial_rx st"
proof -
  let ?r = "k_data_restore st"
  have r: "\<not> devinit ?r" "length (a_b ?r) = 24"
    using assms(1) by (simp_all add: kinv_def devinit_def k_data_restore_def os_data_restore_def)
  obtain out b where o: "send_nack n ?r = Some (sent out (?r\<lparr>a_b := b\<rparr>))" "length b = 24"
    using send_reply_ok [OF r] unfolding send_nack_def by blast
  have "k_answer False kr st = Some (False, kr\<lparr>k_state := k_state_saved kr\<rparr>, sent out (?r\<lparr>a_b := b\<rparr>))"
    by (simp add: k_answer_def assms(3) o(1))
  then show thesis
    by (rule that)
      (use assms o(2) in \<open>simp_all add: kinv_def devinit_def k_data_restore_def os_data_restore_def saved_pos_def at_pos_def sent_def\<close>)
qed

lemma answer_good:
  assumes "kinv addr st" "k_n kr = n"
    "k_state kr = SEND_TYPE \<longrightarrow> send_ptr st = length body \<and> take (length body) (send_parms st) = body \<and> parms_ok body"
  obtains st1 where "k_answer True kr st = Some (k_state kr = BREAK_TYPE, kr, st1)" "kinv addr st1"
    "at_pos a st1 = at_pos a st" "saved_pos a' st1 = saved_pos a' st" "os_data_addr st1 = os_data_addr st"
    "mem st1 = mem st" "serial_rx st1 = serial_rx st"
proof (cases "k_state kr = SEND_TYPE")
  case True
  have r: "\<not> devinit st" "length (a_b st) = 24" "length (send_parms st) = 20"
    using assms(1) by (simp_all add: kinv_def SEND_DATA_SIZE_def)
  obtain out b e p c where o: "handle_send_packet n st = Some (sent out (st\<lparr>a_b := b, his_eol := e, his_pad_count := p,
      his_pad_char := c, his_quote := CHR 0x23\<rparr>))" "length b = 24"
    using handle_send_packet_ok [OF r, of body n] assms(3) True by blast
  show thesis
    by (rule that [of "sent out (st\<lparr>a_b := b, his_eol := e, his_pad_count := p, his_pad_char := c, his_quote := CHR 0x23\<rparr>)"])
      (use assms(1,2) True o types_differ in \<open>simp_all add: k_answer_def kinv_def devinit_def saved_pos_def at_pos_def sent_def\<close>)
next
  case False
  have r: "\<not> devinit st" "length (a_b st) = 24" using assms(1) by (simp_all add: kinv_def)
  obtain out b where o: "send_ack n st = Some (sent out (st\<lparr>a_b := b\<rparr>))" "length b = 24"
    using send_reply_ok [OF r] unfolding send_ack_def by blast
  show thesis
    by (rule that [of "sent out (st\<lparr>a_b := b\<rparr>)"])
      (use assms(1,2) False o in \<open>simp_all add: k_answer_def kinv_def devinit_def saved_pos_def at_pos_def sent_def\<close>)
qed

subsection \<open>Packets and their copies\<close>

text \<open>What a sender sends: its parameters, data, or any other packet but the last.\<close>

datatype kpacket = Parms string | Data string | Other char string

fun ptype :: "kpacket \<Rightarrow> char" where
  "ptype (Parms ps) = SEND_TYPE"
| "ptype (Data bs) = DATA_TYPE"
| "ptype (Other t b) = t"

fun pbody :: "kpacket \<Rightarrow> string" where
  "pbody (Parms ps) = ps"
| "pbody (Data bs) = kencode bs"
| "pbody (Other t b) = b"

fun pdata :: "kpacket \<Rightarrow> string" where
  "pdata (Data bs) = bs"
| "pdata _ = []"

definition packet_ok :: "kpacket \<Rightarrow> bool" where
  "packet_ok p \<longleftrightarrow> length (pbody p) \<le> 91 \<and> list_all (\<lambda>c. \<not> control c) (pbody p) \<and>
     (case p of Parms ps \<Rightarrow> parms_ok ps | Data bs \<Rightarrow> True
      | Other t b \<Rightarrow> \<not> control t \<and> t \<notin> {SEND_TYPE, DATA_TYPE, BREAK_TYPE})"

text \<open>
  A copy of a packet on the wire: what is received before it, its body, its check and its end.  A damaged copy
  has the length and the header of the packet; it fails the check or has a wrong end.
\<close>

type_synonym copy = "char option list \<times> string \<times> char \<times> char"

definition copy_wire :: "int \<Rightarrow> char \<Rightarrow> copy \<Rightarrow> char option list" where
  "copy_wire n t = (\<lambda>(g, b, c, e). g @ map Some (START_CHAR # kframe n t b c e))"

definition intact :: "int \<Rightarrow> char \<Rightarrow> string \<Rightarrow> copy \<Rightarrow> bool" where
  "intact n t body = (\<lambda>(g, b, c, e). b = body \<and> c = right_check n t body \<and> e = END_CHAR)"

definition copy_ok :: "int \<Rightarrow> char \<Rightarrow> string \<Rightarrow> copy \<Rightarrow> bool" where
  "copy_ok n t body = (\<lambda>(g, b, c, e). idle g \<and> length b = length body \<and> list_all (\<lambda>x. \<not> control x) b \<and>
     (if c = right_check n t b then b = body else idle [Some e]))"

lemma frame_data_packet: "packet_ok p \<Longrightarrow> frame_data (ptype p) (pbody p) = (pdata p, 0)"
  using types_differ by (cases p) (simp_all add: frame_data_def packet_ok_def kencode_decode)

lemma packet_okD: "packet_ok p \<Longrightarrow> \<not> control (ptype p)" "packet_ok p \<Longrightarrow> ptype p = SEND_TYPE \<longrightarrow> parms_ok (pbody p)"
  "packet_ok p \<Longrightarrow> ptype p \<noteq> BREAK_TYPE" "packet_ok p \<Longrightarrow> length (pbody p) \<le> 91"
proof -
  have "\<not> control SEND_TYPE" "\<not> control DATA_TYPE" by (simp_all add: control_iff SEND_TYPE_def DATA_TYPE_def)
  then show "packet_ok p \<Longrightarrow> \<not> control (ptype p)" by (cases p) (simp_all add: packet_ok_def)
  show "packet_ok p \<Longrightarrow> ptype p = SEND_TYPE \<longrightarrow> parms_ok (pbody p)" "packet_ok p \<Longrightarrow> ptype p \<noteq> BREAK_TYPE"
    "packet_ok p \<Longrightarrow> length (pbody p) \<le> 91"
    using types_differ by (cases p; simp add: packet_ok_def)+
qed

text \<open>The file so far is in memory, and nothing far behind it has changed.\<close>

definition received :: "(u32 \<Rightarrow> char) \<Rightarrow> u32 \<Rightarrow> string \<Rightarrow> nat \<Rightarrow> (u32 \<Rightarrow> char) \<Rightarrow> bool" where
  "received m addr bs lim m' \<longleftrightarrow> mem_bytes m' addr (length bs) = bs \<and>
     (\<forall>i. lim \<le> i \<longrightarrow> i < 2 ^ 32 \<longrightarrow> m' (addr + of_nat i) = m (addr + of_nat i))"

lemma received_overlay:
  assumes "received m addr bs lim m1" "length bs + length d \<le> lim" "length bs + length d < 2 ^ 32"
  shows "received m addr bs lim (overlay m1 (addr + of_nat (length bs)) d)"
    "received m addr (bs @ d) lim (overlay m1 (addr + of_nat (length bs)) d)"
proof -
  let ?a = "addr + of_nat (length bs)" and ?m = "overlay m1 (addr + of_nat (length bs)) d"
  have inside: "mem_bytes ?m ?a (length d) = d" using mem_bytes_overlay [of 0 "length d" d m1 ?a] assms(3) by simp
  have before: "mem_bytes ?m addr (length bs) = bs"
  proof (cases "length bs = 0")
    case False
    have u: "unat (of_nat (length bs) :: u32) = length bs" using assms(3) by (simp add: unat_of_nat)
    then have nz: "(of_nat (length bs) :: u32) \<noteq> 0" using False by auto
    have "addr - ?a = - of_nat (length bs)" by simp
    then have "unat (addr - ?a) + length bs = 2 ^ 32" using unat_neg [OF nz] u by simp
    then have "mem_bytes ?m addr (length bs) = mem_bytes m1 addr (length bs)"
      by (intro mem_bytes_untouched) (use assms(3) in linarith)+
    then show ?thesis using assms(1) by (simp add: received_def)
  qed (simp add: mem_bytes_def)
  have after: "?m (addr + of_nat i) = m (addr + of_nat i)" if i: "lim \<le> i" "i < 2 ^ 32" for i
  proof -
    have "addr + of_nat i = ?a + of_nat (i - length bs)" using assms(2) i by (simp add: of_nat_diff)
    then have "?m (addr + of_nat i) = m1 (addr + of_nat i)"
      using overlay_outside [of d "i - length bs" m1 ?a] assms(2) i by simp
    then show ?thesis using assms(1) i by (simp add: received_def)
  qed
  show "received m addr bs lim ?m" "received m addr (bs @ d) lim ?m"
    using before after inside by (simp_all add: received_def mem_bytes_add)
qed


text \<open>One copy of a packet.\<close>

lemma copy_step:
  assumes st: "kinv addr st" "ready (addr + of_nat (length bs)) n kr st" "idle r" "serial_rx st = r @ copy_wire n t cp @ q"
    and p: "copy_ok n t body cp" "length body \<le> 91" "\<not> control t" "t = SEND_TYPE \<longrightarrow> parms_ok body" "frame_data t body = (d, 0)"
    and n: "0 \<le> n" "n < 64" and m: "received m addr bs lim (mem st)" "length bs + 91 \<le> lim" "lim < 2 ^ 32"
  obtains kr1 st1 r1 where "k_loop kr st = after_answer (intact n t body cp \<and> t = BREAK_TYPE, kr1, st1)"
    "kinv addr st1" "last_n kr1 = n" "saved_pos (addr + of_nat (length bs)) st1" "idle r1" "serial_rx st1 = r1 @ q"
    "received m addr bs lim (mem st1)"
    "intact n t body cp \<Longrightarrow> r1 = [] \<and> at_pos (addr + of_nat (length (bs @ d))) st1 \<and> received m addr (bs @ d) lim (mem st1)"
proof -
  let ?a = "addr + of_nat (length bs)"
  obtain g b c e where cp: "cp = (g, b, c, e)" by (cases cp)
  have ok: "idle (r @ g)" "length b = length body" "\<forall>x \<in> set b. \<not> control x"
    "c = right_check n t b \<longrightarrow> b = body" "c \<noteq> right_check n t b \<longrightarrow> idle [Some e]"
    using p(1) st(3) by (auto simp: copy_ok_def cp idle_def list_all_iff split: if_splits)
  have rx: "serial_rx st = (r @ g) @ map Some (START_CHAR # kframe n t b c e) @ q" by (simp add: st(4) copy_wire_def cp)
  have lb: "length b \<le> 91" "t = SEND_TYPE \<longrightarrow> length b \<le> 18" using ok(2) p(2,4) by (simp_all add: parms_ok_def)
  obtain kr1 st1 where f: "k_loop kr st = k_answer (c = right_check n t b \<and> e = END_CHAR) kr1 st1 \<bind> after_answer"
    "kinv addr st1" "k_n kr1 = n" "last_n kr1 = n" "k_state kr1 = t" "saved_pos ?a st1"
    "mem st1 = overlay (mem st) ?a (fst (frame_data t b))" "os_data_addr st1 = ?a + of_nat (length (fst (frame_data t b)))"
    "k_data_escape st1 = snd (frame_data t b)"
    "t = SEND_TYPE \<longrightarrow> send_ptr st1 = length b \<and> take (length b) (send_parms st1) = b"
    "serial_rx st1 = (if c = right_check n t b then q else Some e # q)"
    by (rule frame_step [OF st(1,2) ok(1) rx ok(3) lb p(3) n])
  have ld: "length (fst (frame_data t b)) \<le> 91" using frame_data_length [of t b] lb(1) by (rule order_trans)
  have fits: "length bs + length (fst (frame_data t b)) \<le> lim" "length bs + length (fst (frame_data t b)) < 2 ^ 32"
    using ld m(2,3) by linarith+
  have ov: "received m addr bs lim (mem st1)" "received m addr (bs @ fst (frame_data t b)) lim (mem st1)"
    unfolding f(7) using received_overlay [OF m(1) fits] by simp_all
  have int: "intact n t body cp \<longleftrightarrow> c = right_check n t b \<and> e = END_CHAR" using ok(4) by (auto simp: intact_def cp)
  show thesis
  proof (cases "intact n t body cp")
    case True
    then have b: "b = body" "c = right_check n t b" "e = END_CHAR" using ok(4) int by simp_all
    obtain st2 where g: "k_answer True kr1 st1 = Some (k_state kr1 = BREAK_TYPE, kr1, st2)" "kinv addr st2"
      "at_pos (?a + of_nat (length d)) st2 = at_pos (?a + of_nat (length d)) st1" "saved_pos ?a st2 = saved_pos ?a st1"
      "mem st2 = mem st1" "serial_rx st2 = serial_rx st1"
      by (rule answer_good [OF f(2,3), of body]) (use f(5,10) b(1) p(4) in auto)
    show thesis
    proof (rule that)
      show "k_loop kr st = after_answer (intact n t body cp \<and> t = BREAK_TYPE, kr1, st2)"
        using f(1,5) b(2,3) g(1) True by simp
      show "kinv addr st2" "last_n kr1 = n" "saved_pos ?a st2" by (fact g(2) f(4))+ (simp add: g(4) f(6))
      show "idle []" "serial_rx st2 = [] @ q" using f(11) b(2) g(6) by (simp_all add: idle_def)
      show "received m addr bs lim (mem st2)" using ov(1) g(5) by simp
      have "at_pos (?a + of_nat (length d)) st1" using f(8,9) b(1) p(5) by (simp add: at_pos_def)
      then show "[] = [] \<and> at_pos (addr + of_nat (length (bs @ d))) st2 \<and> received m addr (bs @ d) lim (mem st2)"
        using ov(2) g(3,5) b(1) p(5) by (simp add: add.assoc)
    qed
  next
    case False
    obtain kr2 st2 where g: "k_answer False kr1 st1 = Some (False, kr2, st2)" "kinv addr st2" "last_n kr2 = n"
      "at_pos ?a st2" "saved_pos ?a st2" "mem st2 = mem st1" "serial_rx st2 = serial_rx st1"
      by (rule answer_bad [OF f(2,6,3,4)])
    let ?r = "if c = right_check n t b then [] else [Some e]"
    show thesis
    proof (rule that)
      show "k_loop kr st = after_answer (intact n t body cp \<and> t = BREAK_TYPE, kr2, st2)"
        using f(1) False unfolding int [symmetric] by (simp add: g(1))
      show "kinv addr st2" "last_n kr2 = n" "saved_pos ?a st2" by (fact g)+
      show "idle ?r" "serial_rx st2 = ?r @ q" using f(11) g(7) ok(5) by (simp_all add: idle_def)
      show "received m addr bs lim (mem st2)" using ov(1) g(6) by simp
    qed (use False in simp)
  qed
qed

text \<open>All the copies of a packet, of which the last is intact.\<close>

lemma copies_run:
  assumes "kinv addr st" "ready (addr + of_nat (length bs)) n kr st" "idle r"
    "serial_rx st = r @ concat (map (copy_wire n t) cps) @ q" "list_all (copy_ok n t body) cps" "cps \<noteq> []" "intact n t body (last cps)"
    and p: "length body \<le> 91" "\<not> control t" "t = SEND_TYPE \<longrightarrow> parms_ok body" "frame_data t body = (d, 0)" "t \<noteq> BREAK_TYPE"
    and n: "0 \<le> n" "n < 64" and m: "received m addr bs lim (mem st)" "length bs + 91 \<le> lim" "lim < 2 ^ 32"
  obtains kr1 st1 where "k_loop kr st = k_loop kr1 st1" "kinv addr st1" "last_n kr1 = n"
    "saved_pos (addr + of_nat (length bs)) st1" "at_pos (addr + of_nat (length (bs @ d))) st1" "serial_rx st1 = q"
    "received m addr bs lim (mem st1)" "received m addr (bs @ d) lim (mem st1)"
  using assms(1-7) m(1)
proof (induction cps arbitrary: thesis kr st r)
  case (Cons cp cps)
  have rx: "serial_rx st = r @ copy_wire n t cp @ concat (map (copy_wire n t) cps) @ q" using Cons.prems(5) by simp
  have ok: "copy_ok n t body cp" using Cons.prems(6) by simp
  obtain kr1 st1 r1 where s: "k_loop kr st = after_answer (intact n t body cp \<and> t = BREAK_TYPE, kr1, st1)"
    "kinv addr st1" "last_n kr1 = n" "saved_pos (addr + of_nat (length bs)) st1" "idle r1"
    "serial_rx st1 = r1 @ concat (map (copy_wire n t) cps) @ q" "received m addr bs lim (mem st1)"
    "intact n t body cp \<Longrightarrow> r1 = [] \<and> at_pos (addr + of_nat (length (bs @ d))) st1 \<and> received m addr (bs @ d) lim (mem st1)"
    by (rule copy_step [OF Cons.prems(2-4) rx ok p(1-4) n Cons.prems(9) m(2,3)]) blast
  have l: "k_loop kr st = k_loop kr1 st1" using s(1) p(5) by (simp add: after_answer_def)
  show ?case
  proof (cases "cps = []")
    case True
    then have "intact n t body cp" using Cons.prems(8) by simp
    then show thesis using Cons.prems(1) [OF l s(2-4)] s(6-8) True by simp
  next
    case False
    have rd: "ready (addr + of_nat (length bs)) n kr1 st1" using s(3,4) by (simp add: ready_def)
    obtain kr2 st2 where i: "k_loop kr1 st1 = k_loop kr2 st2" "kinv addr st2" "last_n kr2 = n"
      "saved_pos (addr + of_nat (length bs)) st2" "at_pos (addr + of_nat (length (bs @ d))) st2" "serial_rx st2 = q"
      "received m addr bs lim (mem st2)" "received m addr (bs @ d) lim (mem st2)"
      by (rule Cons.IH [OF _ s(2) rd s(5,6) _ False _ s(7)]) (use Cons.prems(6,8) False in auto)
    show thesis by (rule Cons.prems(1) [OF _ i(2-8)]) (simp add: l i(1))
  qed
qed simp


subsection \<open>Whole sessions\<close>

type_synonym sending = "kpacket \<times> copy list"

definition arrives :: "nat \<Rightarrow> sending \<Rightarrow> bool" where
  "arrives i = (\<lambda>(p, cps). packet_ok p \<and> cps \<noteq> [] \<and> list_all (copy_ok (int (i mod 64)) (ptype p) (pbody p)) cps \<and>
     intact (int (i mod 64)) (ptype p) (pbody p) (last cps))"

fun session :: "nat \<Rightarrow> sending list \<Rightarrow> bool" where
  "session i [] = True"
| "session i (s # ss) = (arrives i s \<and> session (Suc i) ss)"

fun wire :: "nat \<Rightarrow> sending list \<Rightarrow> char option list" where
  "wire i [] = []"
| "wire i ((p, cps) # ss) = concat (map (copy_wire (int (i mod 64)) (ptype p)) cps) @ wire (Suc i) ss"

definition contents :: "sending list \<Rightarrow> string" where
  "contents ss = concat (map (\<lambda>(p, cps). pdata p) ss)"

text \<open>The last packet: damaged copies, and an intact one.\<close>

definition closing :: "nat \<Rightarrow> copy list \<Rightarrow> bool" where
  "closing i cps \<longleftrightarrow> cps \<noteq> [] \<and> list_all (copy_ok (int (i mod 64)) BREAK_TYPE []) cps \<and>
     list_all (\<lambda>cp. \<not> intact (int (i mod 64)) BREAK_TYPE [] cp) (butlast cps) \<and> intact (int (i mod 64)) BREAK_TYPE [] (last cps)"

definition closing_wire :: "nat \<Rightarrow> copy list \<Rightarrow> char option list" where
  "closing_wire i cps = concat (map (copy_wire (int (i mod 64)) BREAK_TYPE) cps)"

lemma contents_simps [simp]: "contents [] = []" "contents ((p, cps) # ss) = pdata p @ contents ss"
  "contents (ss @ ss') = contents ss @ contents ss'"
  by (simp_all add: contents_def)

lemma idle_Nil [simp]: "idle []"
  by (simp add: idle_def)

lemma next_number: "int (Suc i mod 64) \<noteq> int (i mod 64)"
proof -
  have "Suc i mod 64 = (if Suc (i mod 64) = 64 then 0 else Suc (i mod 64))" by (rule mod_Suc)
  then show ?thesis by (auto split: if_splits)
qed

text \<open>The file up to packet \<open>i\<close> has been received, and the last packet began at a saved position.\<close>

definition between :: "(u32 \<Rightarrow> char) \<Rightarrow> u32 \<Rightarrow> nat \<Rightarrow> string \<Rightarrow> nat \<Rightarrow> krecv \<Rightarrow> 'a kermit_scheme \<Rightarrow> bool" where
  "between m addr i bs lim kr st \<longleftrightarrow> kinv addr st \<and> ready (addr + of_nat (length bs)) (int (i mod 64)) kr st \<and>
     received m addr bs lim (mem st)"

lemma packet_run:
  assumes "arrives i (p, cps)" "between m addr i bs lim kr st" "idle r" "serial_rx st = r @ wire i [(p, cps)] @ q"
    "length bs + 91 \<le> lim" "lim < 2 ^ 32"
  obtains kr1 st1 where "k_loop kr st = k_loop kr1 st1" "serial_rx st1 = q" "between m addr (Suc i) (bs @ pdata p) lim kr1 st1"
    "saved_pos (addr + of_nat (length bs)) st1" "received m addr bs lim (mem st1)" "last_n kr1 = int (i mod 64)"
proof -
  have pk: "packet_ok p" and a: "cps \<noteq> []" "list_all (copy_ok (int (i mod 64)) (ptype p) (pbody p)) cps"
    "intact (int (i mod 64)) (ptype p) (pbody p) (last cps)" using assms(1) by (simp_all add: arrives_def)
  have b: "kinv addr st" "ready (addr + of_nat (length bs)) (int (i mod 64)) kr st" "received m addr bs lim (mem st)"
    using assms(2) by (simp_all add: between_def)
  have rx: "serial_rx st = r @ concat (map (copy_wire (int (i mod 64)) (ptype p)) cps) @ q" using assms(4) by simp
  have n: "0 \<le> int (i mod 64)" "int (i mod 64) < 64" by simp_all
  note d = packet_okD [OF pk] frame_data_packet [OF pk]
  obtain kr1 st1 where s: "k_loop kr st = k_loop kr1 st1" "kinv addr st1" "last_n kr1 = int (i mod 64)"
    "saved_pos (addr + of_nat (length bs)) st1" "at_pos (addr + of_nat (length (bs @ pdata p))) st1" "serial_rx st1 = q"
    "received m addr bs lim (mem st1)" "received m addr (bs @ pdata p) lim (mem st1)"
    by (rule copies_run [OF b(1,2) assms(3) rx a(2,1,3) d(4,1,2,5,3) n b(3) assms(5,6)])
  have "between m addr (Suc i) (bs @ pdata p) lim kr1 st1"
    using s(2,3,5,8) next_number [of i] by (simp add: between_def ready_def)
  then show thesis by (rule that [OF s(1,6) _ s(4,7,3)])
qed

lemma session_run:
  assumes "session i ss" "between m addr i bs lim kr st" "idle r" "serial_rx st = r @ wire i ss @ q"
    "length (bs @ contents ss) + 91 \<le> lim" "lim < 2 ^ 32"
  obtains kr1 st1 r1 where "k_loop kr st = k_loop kr1 st1" "idle r1" "serial_rx st1 = r1 @ q"
    "between m addr (i + length ss) (bs @ contents ss) lim kr1 st1"
  using assms(1-5)
proof (induction ss arbitrary: thesis i bs kr st r)
  case Nil
  show ?case by (rule Nil(1) [of kr st r]) (use Nil in simp_all)
next
  case (Cons s ss)
  obtain p cps where s: "s = (p, cps)" by (cases s)
  have w: "wire i (s # ss) = wire i [(p, cps)] @ wire (Suc i) ss" by (simp add: s)
  have rx: "serial_rx st = r @ wire i [(p, cps)] @ (wire (Suc i) ss @ q)" using Cons.prems(5) unfolding w by simp
  have ar: "arrives i (p, cps)" "session (Suc i) ss" using Cons.prems(2) by (simp_all add: s)
  have l: "length bs + 91 \<le> lim" "length ((bs @ pdata p) @ contents ss) + 91 \<le> lim" using Cons.prems(6) by (simp_all add: s)
  obtain kr1 st1 where 1: "k_loop kr st = k_loop kr1 st1" "serial_rx st1 = wire (Suc i) ss @ q"
    "between m addr (Suc i) (bs @ pdata p) lim kr1 st1"
    by (rule packet_run [OF ar(1) Cons.prems(3,4) rx l(1) assms(6)])
  obtain kr2 st2 r2 where 2: "k_loop kr1 st1 = k_loop kr2 st2" "idle r2" "serial_rx st2 = r2 @ q"
    "between m addr (Suc i + length ss) ((bs @ pdata p) @ contents ss) lim kr2 st2"
    by (rule Cons.IH [OF _ ar(2) 1(3) idle_Nil _ l(2)]) (use 1(2) in auto)
  show ?case by (rule Cons.prems(1) [of kr2 st2 r2]) (use 1 2 s in simp_all)
qed

lemma closing_run:
  assumes "closing i cps" "between m addr i bs lim kr st" "idle r" "serial_rx st = r @ closing_wire i cps @ q"
    "length bs + 91 \<le> lim" "lim < 2 ^ 32"
  shows "\<exists>st1. k_loop kr st = Some (of_nat (length bs), st1) \<and> serial_rx st1 = q \<and> received m addr bs lim (mem st1)"
  using assms(1-4)
proof (induction cps arbitrary: kr st r)
  case Nil
  then show ?case by (simp add: closing_def)
next
  case (Cons cp cps)
  let ?n = "int (i mod 64)"
  have rx: "serial_rx st = r @ copy_wire ?n BREAK_TYPE cp @ (closing_wire i cps @ q)"
    using Cons.prems(4) by (simp add: closing_wire_def)
  have ok: "copy_ok ?n BREAK_TYPE [] cp" using Cons.prems(1) by (simp add: closing_def)
  have b: "kinv addr st" "ready (addr + of_nat (length bs)) ?n kr st" "received m addr bs lim (mem st)"
    using Cons.prems(2) by (simp_all add: between_def)
  have t: "length ([] :: string) \<le> 91" "\<not> control BREAK_TYPE" "BREAK_TYPE = SEND_TYPE \<longrightarrow> parms_ok []"
    "frame_data BREAK_TYPE [] = ([], 0)" "0 \<le> ?n" "?n < 64"
    using types_differ by (simp_all add: frame_data_def control_iff) (simp add: BREAK_TYPE_def)
  obtain kr1 st1 r1 where s: "k_loop kr st = after_answer (intact ?n BREAK_TYPE [] cp \<and> BREAK_TYPE = BREAK_TYPE, kr1, st1)"
    "kinv addr st1" "last_n kr1 = ?n" "saved_pos (addr + of_nat (length bs)) st1" "idle r1"
    "serial_rx st1 = r1 @ closing_wire i cps @ q" "received m addr bs lim (mem st1)"
    "intact ?n BREAK_TYPE [] cp \<Longrightarrow> r1 = [] \<and> at_pos (addr + of_nat (length (bs @ []))) st1 \<and> received m addr (bs @ []) lim (mem st1)"
    by (rule copy_step [OF b(1,2) Cons.prems(3) rx ok t b(3) assms(5,6)]) blast
  show ?case
  proof (cases "cps = []")
    case True
    then have i: "intact ?n BREAK_TYPE [] cp" using Cons.prems(1) by (simp add: closing_def)
    have "k_loop kr st = Some (os_data_addr st1 - bin_start_address st1, st1)" using s(1) i by (simp add: after_answer_def)
    moreover have "os_data_addr st1 = addr + of_nat (length bs)" "bin_start_address st1 = addr"
      using s(2,8) i by (simp_all add: at_pos_def kinv_def)
    ultimately show ?thesis using s(6,7,8) i True by (simp add: closing_wire_def)
  next
    case False
    then have c: "closing i cps" "\<not> intact ?n BREAK_TYPE [] cp" using Cons.prems(1) by (simp_all add: closing_def)
    have l: "k_loop kr st = k_loop kr1 st1" using s(1) c(2) by (simp add: after_answer_def)
    have bt: "between m addr i bs lim kr1 st1" using s(2,3,4,7) by (simp add: between_def ready_def)
    show ?thesis unfolding l by (rule Cons.IH [OF c(1) bt s(5,6)])
  qed
qed


text \<open>The start of the receiver.\<close>

definition receiver_ok :: "'a kermit_scheme \<Rightarrow> bool" where
  "receiver_ok st \<longleftrightarrow> \<not> devinit st \<and> length (a_b st) = 24 \<and> length (send_parms st) = SEND_DATA_SIZE"

lemma k_recv_between:
  assumes "receiver_ok st"
  obtains kr st0 where "k_recv st = k_loop kr st0" "between (mem st) (bin_start_address st) 0 [] lim kr st0" "serial_rx st0 = serial_rx st"
proof -
  let ?s = "k_data_save (k_data_init (protocol_defaults st))"
  have "between (mem st) (bin_start_address st) 0 [] lim \<lparr>k_state = NUL, k_state_saved = NUL, k_n = 0, last_n = -1\<rparr> ?s"
    "serial_rx ?s = serial_rx st"
    using assms
    by (simp_all add: between_def receiver_ok_def kinv_def devinit_def k_data_save_def k_data_init_def protocol_defaults_def
        os_data_save_def bin_data_init_def ready_def at_pos_def received_def mem_bytes_def K_ESCAPE_def)
  then show thesis by (intro that [OF k_recv_def])
qed

lemma download:
  assumes "receiver_ok st" "session 0 ss" "closing (length ss) cps" "serial_rx st = wire 0 ss @ closing_wire (length ss) cps @ q"
    "lim = length (contents ss) + 91" "lim < 2 ^ 32"
  shows "\<exists>st'. k_recv st = Some (of_nat (length (contents ss)), st') \<and> serial_rx st' = q \<and>
    mem_bytes (mem st') (bin_start_address st) (length (contents ss)) = contents ss \<and>
    (\<forall>i. lim \<le> i \<longrightarrow> i < 2 ^ 32 \<longrightarrow> mem st' (bin_start_address st + of_nat i) = mem st (bin_start_address st + of_nat i))"
proof -
  obtain kr0 st0 where 0: "k_recv st = k_loop kr0 st0" "between (mem st) (bin_start_address st) 0 [] lim kr0 st0"
    "serial_rx st0 = serial_rx st" by (rule k_recv_between [OF assms(1)])
  obtain kr1 st1 r1 where 1: "k_loop kr0 st0 = k_loop kr1 st1" "idle r1" "serial_rx st1 = r1 @ closing_wire (length ss) cps @ q"
    "between (mem st) (bin_start_address st) (0 + length ss) ([] @ contents ss) lim kr1 st1"
    by (rule session_run [OF assms(2) 0(2) idle_Nil _ _ assms(6)]) (use 0(3) assms(4,5) in auto)
  show ?thesis
    using closing_run [OF assms(3) _ 1(2,3) _ assms(6), of "mem st" "bin_start_address st" "contents ss"] 1(4) assms(5) 0(1) 1(1)
    by (auto simp: received_def)
qed

text \<open>A damaged header: a start character, and a control character in place of the length.\<close>

lemma header_step:
  assumes "kinv addr st" "serial_rx st = Some START_CHAR # Some x # q" "control x" "saved_pos a st"
  obtains kr1 st1 where "k_loop kr st = k_loop kr1 st1" "kinv addr st1" "last_n kr1 = last_n kr" "at_pos a st1"
    "mem st1 = mem st" "serial_rx st1 = q"
proof -
  define sta where "sta = st\<lparr>send_ptr := 0\<rparr>"
  have a: "\<not> devinit sta" "serial_rx sta = [] @ Some START_CHAR # Some x # q"
    using assms(1,2) by (simp_all add: sta_def kinv_def devinit_def)
  have w: "wait_start sta = Some (True, sta\<lparr>serial_rx := Some x # q\<rparr>)" by (rule wait_start_idle [OF a(1) idle_Nil a(2)])
  define stb where "stb = sta\<lparr>serial_rx := q\<rparr>"
  have p: "k_packet kr (sta\<lparr>serial_rx := Some x # q\<rparr>) = Some (False, kr, stb)"
    unfolding k_packet_def by (simp add: k_getc_rx [OF a(1)] assms(3) stb_def)
  let ?r = "k_data_restore stb"
  have r: "\<not> devinit ?r" "length (a_b ?r) = 24"
    using assms(1) by (simp_all add: stb_def sta_def kinv_def devinit_def k_data_restore_def os_data_restore_def)
  obtain out b where o: "send_nack (k_n kr) ?r = Some (sent out (?r\<lparr>a_b := b\<rparr>))" "length b = 24"
    using send_reply_ok [OF r] unfolding send_nack_def by blast
  have "k_loop kr st = k_loop (kr\<lparr>k_state := k_state_saved kr\<rparr>) (sent out (?r\<lparr>a_b := b\<rparr>))"
    by (subst k_loop.simps) (simp add: sta_def [symmetric] w p k_answer_def o(1))
  then show thesis
    by (rule that)
      (use assms(1,4) o(2) in \<open>simp_all add: stb_def sta_def kinv_def devinit_def k_data_restore_def os_data_restore_def
         saved_pos_def at_pos_def sent_def\<close>)
qed

lemma packet_lost:
  assumes "receiver_ok st" "session 0 ss" "arrives (length ss) (p, cps)" "session (Suc (length ss)) ss'"
    "closing (Suc (length ss) + length ss') cps'" "control x"
    "serial_rx st = wire 0 ss @ wire (length ss) [(p, cps)] @ [Some START_CHAR, Some x] @ wire (Suc (length ss)) ss' @
       closing_wire (Suc (length ss) + length ss') cps' @ q"
    "length (contents (ss @ (p, cps) # ss')) + 91 < 2 ^ 32"
  shows "\<exists>st'. k_recv st = Some (of_nat (length (contents (ss @ ss'))), st') \<and> serial_rx st' = q \<and>
    mem_bytes (mem st') (bin_start_address st) (length (contents (ss @ ss'))) = contents (ss @ ss')"
proof -
  define lim where "lim = length (contents (ss @ (p, cps) # ss')) + 91"
  have l: "lim < 2 ^ 32" using assms(8) by (simp add: lim_def)
  obtain kr0 st0 where 0: "k_recv st = k_loop kr0 st0" "between (mem st) (bin_start_address st) 0 [] lim kr0 st0"
    "serial_rx st0 = serial_rx st" by (rule k_recv_between [OF assms(1)])
  let ?a = "bin_start_address st"
  obtain kr1 st1 r1 where 1: "k_loop kr0 st0 = k_loop kr1 st1" "idle r1"
    "serial_rx st1 = r1 @ wire (length ss) [(p, cps)] @ [Some START_CHAR, Some x] @ wire (Suc (length ss)) ss' @
       closing_wire (Suc (length ss) + length ss') cps' @ q"
    "between (mem st) ?a (0 + length ss) ([] @ contents ss) lim kr1 st1"
    by (rule session_run [OF assms(2) 0(2) idle_Nil _ _ l]) (use 0(3) assms(7) in \<open>auto simp: lim_def\<close>)
  have l1: "length (contents ss) + 91 \<le> lim" by (simp add: lim_def)
  have b1: "between (mem st) ?a (length ss) (contents ss) lim kr1 st1" using 1(4) by simp
  obtain kr2 st2 where 2: "k_loop kr1 st1 = k_loop kr2 st2"
    "serial_rx st2 = [Some START_CHAR, Some x] @ wire (Suc (length ss)) ss' @ closing_wire (Suc (length ss) + length ss') cps' @ q"
    "between (mem st) ?a (Suc (length ss)) (contents ss @ pdata p) lim kr2 st2" "saved_pos (?a + of_nat (length (contents ss))) st2"
    "received (mem st) ?a (contents ss) lim (mem st2)" "last_n kr2 = int (length ss mod 64)"
    by (rule packet_run [OF assms(3) b1 1(2,3) l1 l])
  have k2: "kinv ?a st2" using 2(3) by (simp add: between_def)
  obtain kr3 st3 where 3: "k_loop kr2 st2 = k_loop kr3 st3" "kinv ?a st3" "last_n kr3 = last_n kr2"
    "at_pos (?a + of_nat (length (contents ss))) st3" "mem st3 = mem st2"
    "serial_rx st3 = wire (Suc (length ss)) ss' @ closing_wire (Suc (length ss) + length ss') cps' @ q"
    by (rule header_step [OF k2 _ assms(6) 2(4)]) (use 2(2) in auto)
  have b3: "between (mem st) ?a (Suc (length ss)) (contents ss) lim kr3 st3"
    using 3(2-5) 2(5,6) next_number [of "length ss"] by (simp add: between_def ready_def)
  obtain kr4 st4 r4 where 4: "k_loop kr3 st3 = k_loop kr4 st4" "idle r4"
    "serial_rx st4 = r4 @ closing_wire (Suc (length ss) + length ss') cps' @ q"
    "between (mem st) ?a (Suc (length ss) + length ss') (contents ss @ contents ss') lim kr4 st4"
    by (rule session_run [OF assms(4) b3 idle_Nil _ _ l]) (use 3(6) in \<open>auto simp: lim_def\<close>)
  have l4: "length (contents ss @ contents ss') + 91 \<le> lim" by (simp add: lim_def)
  show ?thesis
    using closing_run [OF assms(5) 4(4,2,3) l4 l] 0(1) 1(1) 2(1) 3(1) 4(1) by (auto simp: received_def)
qed


text \<open>Behind the download: with the stopped timer the wait for the rest of the line never ends.\<close>

lemma drain_stuck:
  assumes "lastdec st = 0" "timestamp st = 0" "\<not> devinit st"
  shows "drain 100 st = None"
proof -
  have d: "delay_ticks 1000 \<noteq> 0" by (simp add: delay_ticks_def CFG_HZ_value)
  have u: "udelay 1000 (st\<lparr>serial_rx := q\<rparr>) = None" for q using udelay_stopped [of "st\<lparr>serial_rx := q\<rparr>" 1000] assms(1,2) d by simp
  have "serial_rx st = q \<Longrightarrow> drain (Suc k) st = None" for k q
    using assms(3) u [of q] u [of "tl q"] udelay_stopped [OF assms(1,2), of 1000] d
    by (cases "serial_rx st"; cases "hd (serial_rx st)")
      (auto simp: tstc_def serial_tstc_def getc_def serial_getc_def devinit_def)
  from this [of _ 99] show ?thesis by simp
qed

section \<open>Properties\<close>

text \<open>A session for examples: the parameters, four bytes of data after a damaged copy, and the end after a damaged copy.\<close>

definition sample_parms :: kpacket where "sample_parms = Parms ''~* @-#N1''"
definition sample_data :: kpacket where "sample_data = Data [CHR 0x01, CHR 0x23, CHR 0x41, CHR 0xFF]"

definition sent_copy :: "int \<Rightarrow> char \<Rightarrow> string \<Rightarrow> copy" where
  "sent_copy n t b = ([None, Some (CHR 0x0A)], b, right_check n t b, END_CHAR)"

definition damaged_copy :: "string \<Rightarrow> copy" where
  "damaged_copy b = ([], b, CHR 0x21, CHR 0x0D)"

definition sample_session :: "sending list" where
  "sample_session =
     [(sample_parms, [sent_copy 0 SEND_TYPE (pbody sample_parms)]),
      (sample_data, [damaged_copy ''#A##B#?'', sent_copy 1 DATA_TYPE (pbody sample_data)])]"

definition sample_closing :: "int \<Rightarrow> copy list" where
  "sample_closing n = [damaged_copy [], sent_copy n BREAK_TYPE []]"

definition sample_kermit :: "char option list \<Rightarrow> kermit" where
  "sample_kermit rx = machine.extend (ex_machine\<lparr>serial_rx := rx\<rparr>)
     \<lparr>his_eol = NUL, his_pad_count = 0, his_pad_char = NUL, his_quote = NUL, a_b = replicate 24 NUL, os_data_state = 0,
      os_data_state_saved = 0, os_data_count = 0, os_data_count_saved = 0, os_data_addr = 0, os_data_addr_saved = 0,
      bin_start_address = 0x20000000, k_data_escape = 0, k_data_escape_saved = 0, send_parms = replicate 20 NUL, send_ptr = 0\<rparr>"

lemma sample_kermit_simps:
  "receiver_ok (sample_kermit rx)" "serial_rx (sample_kermit rx) = rx" "bin_start_address (sample_kermit rx) = 0x20000000"
  "mem (sample_kermit rx) = (\<lambda>_. CHR 0xFF)"
  by (simp_all add: sample_kermit_def machine.defs ex_machine_def board.defs devinit_def sample_board_def receiver_ok_def
      SEND_DATA_SIZE_def)



text \<open>C8: A damaged header loses data: when a start character and a control character arrive after a packet that
  has been received and acknowledged, the receiver goes back to where that packet began, and the rest of the
  session, intact in every packet, is stored in its place.  The result is the file without the packet.\<close>

theorem kermit_header_loses_packet:
  assumes "receiver_ok st" "session 0 ss" "arrives (length ss) (p, cps)" "session (Suc (length ss)) ss'"
    "closing (Suc (length ss) + length ss') cps'" "control x"
    "serial_rx st = wire 0 ss @ wire (length ss) [(p, cps)] @ [Some START_CHAR, Some x] @ wire (Suc (length ss)) ss' @
       closing_wire (Suc (length ss) + length ss') cps' @ q"
    "length (contents (ss @ (p, cps) # ss')) + 91 < 2 ^ 32"
  shows "\<exists>st'. k_recv st = Some (of_nat (length (contents (ss @ ss'))), st') \<and> serial_rx st' = q \<and>
    mem_bytes (mem st') (bin_start_address st) (length (contents (ss @ ss'))) = contents (ss @ ss')"
  using assms by (rule packet_lost)

definition sample_rest :: "sending list" where
  "sample_rest = [(Data ''ok'', [sent_copy 2 DATA_TYPE (pbody (Data ''ok''))])]"

theorem kermit_header_loses_packet_witness:
  "\<exists>st'. k_recv (sample_kermit (wire 0 (take 1 sample_session) @ wire 1 [sample_session ! 1] @
       [Some START_CHAR, Some (CHR 0x02)] @ wire 2 sample_rest @ closing_wire 3 (sample_closing 3) @ [])) = Some (2, st') \<and>
     serial_rx st' = [] \<and> mem_bytes (mem st') 0x20000000 2 = ''ok''"
proof -
  let ?ss = "take 1 sample_session"
  let ?w = "wire 0 ?ss @ wire 1 [sample_session ! 1] @ [Some START_CHAR, Some (CHR 0x02)] @ wire 2 sample_rest @
    closing_wire 3 (sample_closing 3) @ []"
  obtain p cps where p: "sample_session ! 1 = (p, cps)" by (cases "sample_session ! 1")
  have l: "length ?ss = 1" "length sample_rest = 1" by (simp_all add: sample_session_def sample_rest_def)
  have c: "contents (?ss @ sample_rest) = ''ok''" "contents (?ss @ (sample_session ! 1) # sample_rest) = [CHR 0x01, CHR 0x23, CHR 0x41, CHR 0xFF] @ ''ok''"
    by code_simp+
  have s: "session 0 ?ss" "arrives (length ?ss) (sample_session ! 1)" "session (Suc (length ?ss)) sample_rest"
    "closing (Suc (length ?ss) + length sample_rest) (sample_closing 3)" "control (CHR 0x02)" by code_simp+
  have rx: "serial_rx (sample_kermit ?w) = wire 0 ?ss @ wire (length ?ss) [(p, cps)] @ [Some START_CHAR, Some (CHR 0x02)] @
      wire (Suc (length ?ss)) sample_rest @ closing_wire (Suc (length ?ss) + length sample_rest) (sample_closing 3) @ []"
    unfolding sample_kermit_simps l p by (simp add: numeral_2_eq_2 numeral_3_eq_3)
  have small: "length (contents (?ss @ (p, cps) # sample_rest)) + 91 < 2 ^ 32" unfolding p [symmetric] c by simp
  show ?thesis
    using kermit_header_loses_packet [OF sample_kermit_simps(1) s(1) s(2) [unfolded p] s(3-5) rx small]
    unfolding c sample_kermit_simps by (auto simp: mem_bytes_Suc mem_bytes_2 mem_bytes_def [of _ _ 0])
qed

end
