(* ===== verification/Nand.thy ===== *)
theory Nand
  imports Flash_Cmd Bytes
begin

unbundle bit_operations_syntax

text \<open>
  The NAND driver of the board (\<open>board/as3310/flash.c\<close>): identifying the chip with the table of known
  chips, and the programs for the DMA engine that read, write and erase it.  The engine with the chip
  behind it is a parameter: it takes the packages of a program, the memory and the state of the chip, and
  gives the memory and the chip afterwards and whether the program came to its end in time.  Local arrays
  that the engine writes are in memory, at an address that is an argument.
\<close>

section \<open>Programs for the DMA engine\<close>

text \<open>The buffer of a package: bytes of local variables, or an address in memory.\<close>

datatype dma_buffer = Local buf | At u32

record dma_pkg =
  CTRL :: u32
  BUFFER :: dma_buffer
  CMD0 :: u32

type_synonym 'c engine = "dma_pkg list \<Rightarrow> (u32 \<Rightarrow> char) \<Rightarrow> 'c \<Rightarrow> bool \<times> (u32 \<Rightarrow> char) \<times> 'c"

text \<open>The entries of the chip table.\<close>

record nand_param =
  NfType :: u8
  ShiftBlockPage :: u8
  DeviceZone :: u8
  ExtAddr :: u8

record nand_chip_table =
  max_devid :: nat
  max_maker :: nat
  max_mlc :: nat
  ParaTable :: "nand_param list"
  MLCParaTable :: "nand_param list"
  DevidTable :: "u8 list"
  LvDevidTable :: "u8 list"
  MakerTable :: "u8 list"
  MLCTable :: "u8 list"

record nand_info =
  maker_code :: u8
  dev_id :: u8
  extra_1 :: u8
  extra_2 :: u8
  extra_3 :: u32
  page_shift :: u32
  block_shift :: u32
  row_cycles :: u32
  col_cycles :: u32

record 'c nand = machine +
  nand_cycles :: u8
  nand_row_cycles :: u8
  nand_col_cycles :: u8
  nand_page_shift :: u8
  nand_block_shift :: u8
  nand_current_cen :: u32
  nand_info_s :: nand_info
  chip :: 'c

definition select_nand_cen :: "u8 \<Rightarrow> ('c, 'a) nand_scheme \<Rightarrow> ('c, 'a) nand_scheme" where
  "select_nand_cen cen st = st\<lparr>nand_current_cen := ucast cen\<rparr>"

definition start_nand_dma_routine ::
  "'c engine \<Rightarrow> dma_pkg list \<Rightarrow> ('c, 'a) nand_scheme \<Rightarrow> ('c, 'a) nand_scheme option" where
  "start_nand_dma_routine engine pkgs st =
     (case engine pkgs (mem st) (chip st) of
        (ended, m, c) \<Rightarrow>
          let st = st\<lparr>mem := m, chip := c\<rparr>
          in if ended then Some st else puts (cstr (''DMA No Ready'' @ [CHR 0x0A])) st)"

text \<open>
  The packages: a command byte, address bytes, waiting until the chip is ready, reading and writing words.
\<close>

definition cmd_pkg :: "u32 \<Rightarrow> nat \<Rightarrow> dma_pkg" where
  "cmd_pkg cen c = \<lparr>CTRL = 0x000110c6, BUFFER = Local [char_of c], CMD0 = 0x20820001 + push_bit 20 cen\<rparr>"

definition addr_pkg :: "u32 \<Rightarrow> u8 \<Rightarrow> buf \<Rightarrow> dma_pkg" where
  "addr_pkg cen cycles b =
     \<lparr>CTRL = 0x000010c6 + push_bit 16 (ucast cycles), BUFFER = Local (take (unat cycles) b),
      CMD0 = 0x20840000 + push_bit 20 cen + ucast cycles\<rparr>"

definition wait_pkg :: "u32 \<Rightarrow> u32 \<Rightarrow> dma_pkg" where
  "wait_pkg ctrl cen = \<lparr>CTRL = ctrl, BUFFER = Local [], CMD0 = 0x2b800000 + push_bit 20 cen\<rparr>"

definition read_pkg :: "u32 \<Rightarrow> u32 \<Rightarrow> u32 \<Rightarrow> dma_pkg" where
  "read_pkg cen buffer n =
     \<lparr>CTRL = 0x000010c1 + push_bit 18 n, BUFFER = At buffer, CMD0 = 0x21800000 + push_bit 20 cen + push_bit 2 n\<rparr>"

definition write_pkg :: "u32 \<Rightarrow> u32 \<Rightarrow> u32 \<Rightarrow> dma_pkg" where
  "write_pkg cen buffer n =
     \<lparr>CTRL = 0x000010c6 + push_bit 18 n, BUFFER = At buffer, CMD0 = 0x20800000 + push_bit 20 cen + push_bit 2 n\<rparr>"

section \<open>Addresses\<close>

definition lo8 :: "u32 \<Rightarrow> char" where
  "lo8 w = char_of (unat (w AND 0xff))"

text \<open>\<open>(1 << shift) - 1\<close>\<close>

definition low_mask :: "u8 \<Rightarrow> u32" where
  "low_mask shift = push_bit (unat shift) 1 - 1"

definition col_bytes :: "u8 \<Rightarrow> u32 \<Rightarrow> buf" where
  "col_bytes shift addr = lo8 addr # (if shift > 9 then [lo8 (drop_bit 8 (addr AND low_mask shift))] else [])"

definition spare_col_bytes :: "u8 \<Rightarrow> buf" where
  "spare_col_bytes shift = NUL # (if shift > 9 then [lo8 (push_bit (unat shift - 8) 1)] else [])"

text \<open>The address bytes: the columns, and rows until there are \<open>cycles\<close> bytes; \<open>debug\<close> has \<open>size_debug\<close> bytes.\<close>

definition address_bytes :: "nat \<Rightarrow> u8 \<Rightarrow> u8 \<Rightarrow> buf \<Rightarrow> u32 \<Rightarrow> buf option" where
  "address_bytes size_debug cycles shift cols addr =
     (let b = cols @ map (\<lambda>j. lo8 (drop_bit (unat shift + 8 * j) addr)) [0..<unat cycles - length cols]
      in if length b > size_debug then None else Some b)"

text \<open>The whole words that are left in the page.\<close>

definition words_left :: "u8 \<Rightarrow> u32 \<Rightarrow> u32" where
  "words_left shift addr = drop_bit 2 (push_bit (unat shift) 1 - (addr AND low_mask shift))"

definition read_cmd :: "u8 \<Rightarrow> u32 \<Rightarrow> nat" where
  "read_cmd shift addr = (if shift = 9 \<and> addr AND 0x100 \<noteq> 0 then 1 else 0)"

section \<open>Reading and writing\<close>

definition read_program :: "u32 \<Rightarrow> u8 \<Rightarrow> u8 \<Rightarrow> nat \<Rightarrow> buf \<Rightarrow> u32 \<Rightarrow> u32 \<Rightarrow> dma_pkg list" where
  "read_program cen cycles shift cmd debug buffer n =
     [cmd_pkg cen cmd, addr_pkg cen cycles debug] @ (if shift > 9 then [cmd_pkg cen 0x30] else []) @
     [wait_pkg 0x000010e4 cen, read_pkg cen buffer n]"

definition write_program :: "u32 \<Rightarrow> u8 \<Rightarrow> buf \<Rightarrow> u32 \<Rightarrow> u32 \<Rightarrow> dma_pkg list" where
  "write_program cen cycles debug buffer n =
     [cmd_pkg cen 0x80, addr_pkg cen cycles debug, write_pkg cen buffer n, cmd_pkg cen 0x10, wait_pkg 0x000010e0 cen]"

text \<open>A page of 512 bytes is read by halves.\<close>

partial_function (option) Nand_Read_AS3310 ::
  "'c engine \<Rightarrow> u8 \<Rightarrow> u32 \<Rightarrow> u32 \<Rightarrow> u32 \<Rightarrow> ('c, 'a) nand_scheme \<Rightarrow> ('c, 'a) nand_scheme option" where
  "Nand_Read_AS3310 engine shift addr buffer left st =
     do { debug \<leftarrow> address_bytes 8 (nand_cycles st) shift (col_bytes shift addr) addr;
          let n = words_left (if shift = 9 then 8 else shift) addr;
          let endread = left \<le> push_bit 2 n;
          let n = (if endread then drop_bit 2 left else n);
          st \<leftarrow> start_nand_dma_routine engine
            (read_program (nand_current_cen st) (nand_cycles st) shift (read_cmd shift addr) debug buffer n) st;
          if endread then Some st
          else Nand_Read_AS3310 engine shift (addr + push_bit 2 n) (buffer + push_bit 2 n) (left - push_bit 2 n) st }"

partial_function (option) Nand_Write_AS3310 ::
  "'c engine \<Rightarrow> u8 \<Rightarrow> u32 \<Rightarrow> u32 \<Rightarrow> u32 \<Rightarrow> ('c, 'a) nand_scheme \<Rightarrow> ('c, 'a) nand_scheme option" where
  "Nand_Write_AS3310 engine shift addr buffer left st =
     do { debug \<leftarrow> address_bytes 8 (nand_cycles st) shift (col_bytes shift addr) addr;
          let n = words_left shift addr;
          let endwrite = left \<le> push_bit 2 n;
          let n = (if endwrite then drop_bit 2 left else n);
          st \<leftarrow> start_nand_dma_routine engine (write_program (nand_current_cen st) (nand_cycles st) debug buffer n) st;
          if endwrite then Some st
          else Nand_Write_AS3310 engine shift (addr + push_bit 2 n) (buffer + push_bit 2 n) (left - push_bit 2 n) st }"

definition NAND_Erase :: "'c engine \<Rightarrow> u8 \<Rightarrow> u32 \<Rightarrow> ('c, 'a) nand_scheme \<Rightarrow> ('c, 'a) nand_scheme option" where
  "NAND_Erase engine cycles addr st =
     do { let cen = nand_current_cen st;
          debug \<leftarrow> address_bytes 5 cycles (nand_page_shift st) [] addr;
          start_nand_dma_routine engine
            [cmd_pkg cen 0x60, addr_pkg cen cycles debug, cmd_pkg cen 0xd0, wait_pkg 0x000010e0 cen] st }"

definition spare_words :: "u8 \<Rightarrow> u32" where
  "spare_words shift = (if shift \<le> 9 then 4 else 16)"

definition Nand_Read_Spare_AS3310 :: "'c engine \<Rightarrow> u32 \<Rightarrow> u32 \<Rightarrow> ('c, 'a) nand_scheme \<Rightarrow> ('c, 'a) nand_scheme option" where
  "Nand_Read_Spare_AS3310 engine addr buffer st =
     do { let shift = nand_page_shift st;
          debug \<leftarrow> address_bytes 8 (nand_cycles st) shift (spare_col_bytes shift) addr;
          start_nand_dma_routine engine
            (read_program (nand_current_cen st) (nand_cycles st) shift (read_cmd shift addr) debug buffer (spare_words shift)) st }"

definition Nand_Write_AS3310_Spare :: "'c engine \<Rightarrow> u32 \<Rightarrow> u32 \<Rightarrow> ('c, 'a) nand_scheme \<Rightarrow> ('c, 'a) nand_scheme option" where
  "Nand_Write_AS3310_Spare engine addr buffer st =
     do { let shift = nand_page_shift st;
          debug \<leftarrow> address_bytes 8 (nand_cycles st) shift (spare_col_bytes shift) addr;
          start_nand_dma_routine engine
            (write_program (nand_current_cen st) (nand_cycles st) debug buffer (spare_words shift)) st }"

section \<open>Identifying the chip\<close>

definition Nand_Read_ID :: "'c engine \<Rightarrow> u32 \<Rightarrow> nat \<Rightarrow> nat \<Rightarrow> ('c, 'a) nand_scheme \<Rightarrow> ('c, 'a) nand_scheme option" where
  "Nand_Read_ID engine ids n cmd st =
     (let cen = nand_current_cen st
      in start_nand_dma_routine engine
        [cmd_pkg cen cmd,
         \<lparr>CTRL = 0x000110c6, BUFFER = Local [NUL], CMD0 = 0x20840001 + push_bit 20 cen\<rparr>,
         \<lparr>CTRL = 0x000010c1 + push_bit 16 (of_nat n), BUFFER = At ids,
          CMD0 = 0x21800000 + push_bit 20 cen + of_nat n\<rparr>] st)"

definition param :: "nat \<Rightarrow> nat \<Rightarrow> nat \<Rightarrow> nat \<Rightarrow> nand_param" where
  "param t s z e = \<lparr>NfType = of_nat t, ShiftBlockPage = of_nat s, DeviceZone = of_nat z, ExtAddr = of_nat e\<rparr>"

definition rom_nand_table :: nand_chip_table where
  "rom_nand_table =
     \<lparr>max_devid = 13, max_maker = 7, max_mlc = 4,
      ParaTable =
        [param 0 5 1 0, param 0 5 2 0, param 0 5 4 1, param 0 5 8 1, param 0 5 16 1, param 2 6 1 0, param 0xff 6 2 1,
         param 0xff 6 4 1, param 0xff 6 8 1, param 0xff 6 16 1, param 3 2 4 0, param 3 3 8 0, param 0xff 4 16 1] @
        replicate 11 (param 0xff 0xff 0xff 0xff),
      MLCParaTable =
        [param 0xff 5 1 0, param 0 6 1 0, param 0 6 2 1, param 0 6 4 1, param 0 6 8 1, param 0xff 6 1 0, param 0xff 6 8 1,
         param 0xff 6 16 1, param 0xff 6 8 1, param 0xff 6 16 1, param 0xff 4 1 0, param 0xff 4 4 0, param 0xff 4 16 1] @
        replicate 11 (param 0xff 0xff 0xff 0xff),
      DevidTable = [0x73, 0x75, 0x76, 0x79, 0x71, 0xf1, 0xda, 0xdc, 0xd3, 0xd5, 0x08, 0x01, 0x29] @ replicate 11 0,
      LvDevidTable = [0x33, 0x35, 0x36, 0x39, 0x31, 0xa1, 0xaa, 0xac, 0xa3, 0xa5, 0x08, 0x01, 0x29] @ replicate 11 0,
      MakerTable = [0xec, 0x98, 0x45, 0x20, 0xad, 0x2c, 0x07] @ replicate 9 0,
      MLCTable = [0x24, 0x25, 0x64, 0x65] @ replicate 12 0\<rparr>"

text \<open>A search loop: the first position of a value, or the limit.\<close>

definition table_index :: "'v list \<Rightarrow> nat \<Rightarrow> 'v \<Rightarrow> nat" where
  "table_index t limit v = length (takeWhile (\<lambda>x. x \<noteq> v) (take limit t))"

definition u8_at :: "(u32 \<Rightarrow> char) \<Rightarrow> u32 \<Rightarrow> u8" where
  "u8_at m a = of_nat (code (m a))"

text \<open>The search in the table; \<open>b\<close> is the first byte of \<open>dev_id2\<close>.\<close>

definition chip_geometry :: "nand_param \<Rightarrow> nand_info \<Rightarrow> nand_info" where
  "chip_geometry p info =
     (let t = NfType p
      in info\<lparr>page_shift := (if t = 0 then 9 else if t = 2 \<or> t = 3 then 11 else ucast (t AND 0x3f)),
              col_cycles := (if t = 0 then 1 else if t = 2 \<or> t = 3 then 2 else ucast (drop_bit 6 t)),
              row_cycles := ucast (ExtAddr p) + 2\<rparr>)"

definition search_chip :: "u8 \<Rightarrow> nand_info \<Rightarrow> (int \<times> nand_info) option" where
  "search_chip b info =
     (let t = rom_nand_table;
          k = table_index (DevidTable t) (max_devid t) (dev_id info);
          k = (if k = max_devid t then table_index (LvDevidTable t) (max_devid t) (dev_id info) else k)
      in if k = max_devid t then Some (-1, info)
         else
           do { let is_mlc = (table_index (MLCTable t) (max_mlc t) b < max_mlc t);
                p \<leftarrow> load (if is_mlc then MLCParaTable t else ParaTable t) k;
                let info = info\<lparr>block_shift := ucast (ShiftBlockPage p)\<rparr>;
                if NfType p = 0xff then Some (-2, info) else Some (0, chip_geometry p info) })"

text \<open>
  \<open>ids\<close> and \<open>ids2\<close> are the addresses of the local arrays \<open>dev_id\<close> and \<open>dev_id2\<close>; the chip is never asked for the
  second.
\<close>

definition NandSearch :: "'c engine \<Rightarrow> u32 \<Rightarrow> u32 \<Rightarrow> ('c, 'a) nand_scheme \<Rightarrow> (int \<times> ('c, 'a) nand_scheme) option" where
  "NandSearch engine ids ids2 st =
     do { st \<leftarrow> Nand_Read_ID engine ids 4 0x90 st;
          let i0 = u8_at (mem st) ids;
          let i1 = u8_at (mem st) (ids + 1);
          let i2 = u8_at (mem st) (ids + 2);
          let i3 = u8_at (mem st) (ids + 3);
          st \<leftarrow> printf ('' nand dev_id = 0x%x%x%x%x'' @ [CHR 0x0A]) [VWord (ucast i3), VWord (ucast i2), VWord (ucast i1), VWord (ucast i0)] st;
          x3 \<leftarrow> rd_le32 (mem_bytes (mem st) ids2 4);
          (r, info) \<leftarrow> search_chip (u8_at (mem st) ids2)
            ((nand_info_s st)\<lparr>maker_code := i0, dev_id := i1, extra_1 := i2, extra_2 := i3, extra_3 := x3\<rparr>);
          Some (r, st\<lparr>nand_info_s := info\<rparr>) }"

text \<open>The fields of the fourth byte of the identification.\<close>

definition PageSize :: "u8 \<Rightarrow> u32" where "PageSize b = ucast (b AND 3)"
definition BlockSize :: "u8 \<Rightarrow> u32" where "BlockSize b = ucast (drop_bit 4 b AND 3)"
definition Orgniz :: "u8 \<Rightarrow> u8" where "Orgniz b = drop_bit 6 b AND 1"

definition CONFIG_NAND_CEN :: u8 where "CONFIG_NAND_CEN = 0"

definition found_nand :: "('c, 'a) nand_scheme \<Rightarrow> (int \<times> ('c, 'a) nand_scheme) option" where
  "found_nand st =
     do { let i = nand_info_s st;
          let st = st\<lparr>nand_cycles := ucast (row_cycles i + col_cycles i), nand_page_shift := ucast (page_shift i),
            nand_row_cycles := ucast (row_cycles i), nand_col_cycles := ucast (col_cycles i),
            nand_block_shift := ucast (block_shift i)\<rparr>;
          st \<leftarrow> puts (cstr ''Nand inited.'') st;
          st \<leftarrow> printf ([CHR 0x09] @ ''Maker id: 0x%02x'') [VWord (ucast (maker_code i))] st;
          st \<leftarrow> printf ([CHR 0x09] @ ''Dev id: 0x%02x'') [VWord (ucast (dev_id i))] st;
          st \<leftarrow> printf ([CHR 0x0A] @ ''Nand Page shift: %d'') [VWord (page_shift i)] st;
          st \<leftarrow> printf ([CHR 0x09] @ ''Sector shift: %d'') [VWord (block_shift i)] st;
          st \<leftarrow> printf ([CHR 0x0A] @ ''row: %d'') [VWord (row_cycles i)] st;
          st \<leftarrow> printf ([CHR 0x09] @ ''col: %d'' @ [CHR 0x0A]) [VWord (col_cycles i)] st;
          Some (0, st) }"

text \<open>The pins and the registers of the controller are set up before.\<close>

definition NAND_init :: "'c engine \<Rightarrow> u32 \<Rightarrow> u32 \<Rightarrow> ('c, 'a) nand_scheme \<Rightarrow> (int \<times> ('c, 'a) nand_scheme) option" where
  "NAND_init engine ids ids2 st =
     do { (r, st) \<leftarrow> NandSearch engine ids ids2 (select_nand_cen CONFIG_NAND_CEN st);
          if r \<ge> 0 then found_nand st
          else
            do { let info = nand_info_s st;
                 let b = extra_2 info;
                 if table_index (MakerTable rom_nand_table) 7 (maker_code info) < 7 \<and> Orgniz b = 0 then
                   found_nand (st\<lparr>nand_info_s := info\<lparr>row_cycles := 3, col_cycles := 2, page_shift := PageSize b + 10,
                     block_shift := 6 + BlockSize b - PageSize b\<rparr>\<rparr>)
                 else
                   do { st \<leftarrow> puts (cstr (''unknow nand chip'' @ [CHR 0x0A]))
                          (st\<lparr>nand_info_s := info\<lparr>row_cycles := 0, col_cycles := 0\<rparr>\<rparr>);
                        Some (-1, st) } } }"

end
