(* ===== verification/Nand_Cmd.thy ===== *)
theory Nand_Cmd
  imports Nand Ecc Memory
begin

unbundle bit_operations_syntax

text \<open>
  The NAND and NOR commands of the board (\<open>common/cmd_flash.c\<close>) with the NOR writer and eraser of
  \<open>board/as3310/flash.c\<close>.  Most of the handlers have no result in the source.  The NOR chip is a parameter,
  as its answers to the polls and the memory after a cycle; so is the encoder for the error correction.
  Arrays and variables on the stack lie at an address that is an argument.
\<close>

section \<open>The NOR chip\<close>

type_synonym nor_chip = "u32 \<Rightarrow> u16 \<Rightarrow> (u32 \<Rightarrow> char) \<Rightarrow> (nat \<Rightarrow> u8) \<times> (u32 \<Rightarrow> char)"
type_synonym nor_erase = "u32 \<Rightarrow> (u32 \<Rightarrow> char) \<Rightarrow> (nat \<Rightarrow> u8) \<times> (u32 \<Rightarrow> char)"

definition NOR_WRITE_RETRY :: nat where "NOR_WRITE_RETRY = 1000"
definition NOR_M_WRITE_RETRY :: nat where "NOR_M_WRITE_RETRY = 3"

text \<open>Polling after a write; the first argument is the number of retries left, \<open>i\<close> counts the reads.\<close>

fun poll_write :: "nat \<Rightarrow> nat \<Rightarrow> (nat \<Rightarrow> u8) \<Rightarrow> u8 \<Rightarrow> bool" where
  "poll_write 0 i polls d = False"
| "poll_write (Suc k) i polls d =
     (if k = 0 then False
      else if polls i AND 0x80 = d AND 0x80 then True
      else if polls i AND 0x20 = 0 then poll_write k (Suc i) polls d
      else polls (Suc i) AND 0x80 = d AND 0x80)"

definition Nor_Write_AS3310_single :: "nor_chip \<Rightarrow> u32 \<Rightarrow> u16 \<Rightarrow> 'a machine_scheme \<Rightarrow> bool \<times> 'a machine_scheme" where
  "Nor_Write_AS3310_single nor addr data st =
     (case nor (addr AND 0xffffffe) data (mem st) of
        (polls, m) \<Rightarrow> (poll_write NOR_WRITE_RETRY 0 polls (ucast data), st\<lparr>mem := m\<rparr>))"

definition as_inw :: "u32 \<Rightarrow> 'a machine_scheme \<Rightarrow> u16 option" where
  "as_inw addr st = (if addr mod 2 = 0 then rd_le16 (mem_bytes (mem st) addr 2) else None)"

text \<open>Up to three writes of one halfword; the result is the number of writes.\<close>

fun nor_tries :: "nor_chip \<Rightarrow> u32 \<Rightarrow> u32 \<Rightarrow> nat \<Rightarrow> nat \<Rightarrow> 'a machine_scheme \<Rightarrow> (nat \<times> 'a machine_scheme) option" where
  "nor_tries nor addr wptr n 0 st = Some (n, st)"
| "nor_tries nor addr wptr n (Suc k) st =
     do { temp \<leftarrow> as_inw wptr st;
          let (_, st) = Nor_Write_AS3310_single nor addr temp st;
          w \<leftarrow> as_inw addr st;
          if w \<noteq> temp then nor_tries nor addr wptr (Suc n) k st else Some (Suc n, st) }"

fun back_steps :: "nat \<Rightarrow> 'a console_scheme \<Rightarrow> 'a console_scheme option" where
  "back_steps 0 st = Some st"
| "back_steps (Suc k) st =
     do { st \<leftarrow> putc (CHR 0x1B) st; st \<leftarrow> putc (CHR 0x5B) st; st \<leftarrow> putc (CHR 0x44) st; back_steps k st }"

definition nor_progress :: "u32 \<Rightarrow> u32 \<Rightarrow> 'a console_scheme \<Rightarrow> (u32 \<times> 'a console_scheme) option" where
  "nor_progress offset block st =
     (if offset AND 0x3fff = 0 then
        do { st \<leftarrow> back_steps 11 st;
             st \<leftarrow> printf ''%8d KB'' [VWord ((block + 1) * 16)] st;
             Some (block + 1, st) }
      else Some (block, st))"

partial_function (option) nor_loop ::
  "nor_chip \<Rightarrow> u32 \<Rightarrow> u32 \<Rightarrow> u32 \<Rightarrow> u32 \<Rightarrow> u32 \<Rightarrow> u32 \<Rightarrow> 'a machine_scheme \<Rightarrow> (u32 \<times> 'a machine_scheme) option" where
  "nor_loop nor addr end_addr current wptr errors block st =
     (if current < end_addr then
        do { (n, st) \<leftarrow> nor_tries nor current wptr 0 NOR_M_WRITE_RETRY st;
             let errors = (if n = NOR_M_WRITE_RETRY then errors + 1 else errors);
             (block, st) \<leftarrow> nor_progress (current - addr) block st;
             nor_loop nor addr end_addr (current + 2) (wptr + 2) errors block st }
      else Some (errors, st))"

definition Nor_Write_AS3310 :: "nor_chip \<Rightarrow> u32 \<Rightarrow> u32 \<Rightarrow> u32 \<Rightarrow> 'a machine_scheme \<Rightarrow> (u32 \<times> 'a machine_scheme) option" where
  "Nor_Write_AS3310 nor addr buffer len st =
     do { st \<leftarrow> puts (cstr ''Write to Flash...           '') st;
          (errors, st) \<leftarrow> nor_loop nor addr (addr + len) addr buffer 0 0 st;
          st \<leftarrow> putc (CHR 0x0A) st;
          Some (errors, st) }"

text \<open>Polling after an erase ends with control-C, with the data or with the failure bit.\<close>

partial_function (option) poll_erase :: "nat \<Rightarrow> (nat \<Rightarrow> u8) \<Rightarrow> u8 \<Rightarrow> 'a console_scheme \<Rightarrow> (bool \<times> 'a console_scheme) option" where
  "poll_erase i polls d st =
     do { (stop, st) \<leftarrow> ctrlc st;
          if stop then Some (False, st)
          else if polls i AND 0x80 = d AND 0x80 then Some (True, st)
          else if polls i AND 0x20 = 0 then poll_erase (Suc i) polls d st
          else Some (polls (Suc i) AND 0x80 = d AND 0x80, st) }"

definition ERASE_CMD_6_CHIP :: u8 where "ERASE_CMD_6_CHIP = 0x10"
definition ERASE_CMD_6_SECTOR :: u8 where "ERASE_CMD_6_SECTOR = 0x30"

definition NOR_MBM29LV160TE_Erase :: "nor_erase \<Rightarrow> u32 \<Rightarrow> 'a machine_scheme \<Rightarrow> (bool \<times> 'a machine_scheme) option" where
  "NOR_MBM29LV160TE_Erase er addr st =
     (let addr = addr AND 0xffffffe;
          d = (if addr = 0xfffffffe then ERASE_CMD_6_CHIP else ERASE_CMD_6_SECTOR);
          (polls, m) = er addr (mem st)
      in poll_erase 0 polls d (st\<lparr>mem := m\<rparr>))"

section \<open>The NAND commands\<close>

definition usage_error :: "string \<Rightarrow> 'a console_scheme \<Rightarrow> 'a console_scheme option" where
  "usage_error s st = do { st \<leftarrow> puts (cstr s) st; putc (CHR 0x0A) st }"

definition Write_flash_cmd :: "'c engine \<Rightarrow> u32 \<Rightarrow> buf list \<Rightarrow> ('c, 'a) nand_scheme \<Rightarrow> ('c, 'a) nand_scheme option" where
  "Write_flash_cmd engine frame argv st =
     (if length argv \<noteq> 3 then usage_error ''Invalid arg. e.g.#nandwrite ADDR data'' st
      else
        do { addr \<leftarrow> strtoul_arg argv 1;
             data \<leftarrow> strtoul_arg argv 2;
             Nand_Write_AS3310 engine (nand_page_shift st) addr frame 4 (st\<lparr>mem := overlay (mem st) frame (le32 data)\<rparr>) })"

definition erase_shift :: "('c, 'a) nand_scheme \<Rightarrow> nat" where
  "erase_shift st = unat (nand_block_shift st) + unat (nand_page_shift st)"

partial_function (option) erase_blocks :: "'c engine \<Rightarrow> u32 \<Rightarrow> u32 \<Rightarrow> ('c, 'a) nand_scheme \<Rightarrow> ('c, 'a) nand_scheme option" where
  "erase_blocks engine start_block end_block st =
     (if start_block \<le> end_block then
        do { st \<leftarrow> NAND_Erase engine (nand_row_cycles st) (push_bit (erase_shift st) start_block) st;
             st \<leftarrow> printf (''erasing block :0x%08x'' @ [CHR 0x0A]) [VWord start_block] st;
             erase_blocks engine (start_block + 1) end_block st }
      else Some st)"

definition Erase_flash_cmd :: "'c engine \<Rightarrow> buf list \<Rightarrow> ('c, 'a) nand_scheme \<Rightarrow> ('c, 'a) nand_scheme option" where
  "Erase_flash_cmd engine argv st =
     (if length argv < 2 \<or> length argv > 3 then usage_error ''Invalid arg. e.g.#nanderase Address [Length]'' st
      else
        do { addr \<leftarrow> strtoul_arg argv 1;
             len \<leftarrow> (if length argv = 3 then strtoul_arg argv 2 else Some 1);
             erase_blocks engine (drop_bit (erase_shift st) addr) (drop_bit (erase_shift st) (addr + len - 1)) st })"

text \<open>One line of a dump: the words, and the characters.\<close>

fun disp_words :: "nat \<Rightarrow> u32 \<Rightarrow> 'a machine_scheme \<Rightarrow> 'a machine_scheme option" where
  "disp_words 0 addr st = Some st"
| "disp_words (Suc k) addr st =
     do { w \<leftarrow> rd_le32 (mem_bytes (mem st) addr 4);
          st \<leftarrow> printf '' %08x'' [VWord w] st;
          disp_words k (addr + 4) st }"

fun disp_chars :: "buf \<Rightarrow> 'a console_scheme \<Rightarrow> 'a console_scheme option" where
  "disp_chars [] st = Some st"
| "disp_chars (c # cs) st =
     do { st \<leftarrow> putc (if code c < 0x20 \<or> code c > 0x7e then CHR ''.'' else c) st; disp_chars cs st }"

function MemDisp_TRL :: "u32 \<Rightarrow> u32 \<Rightarrow> 'a machine_scheme \<Rightarrow> 'a machine_scheme option" where
  "MemDisp_TRL addr nbytes st =
     (let linebytes = (if nbytes > 16 then 16 else nbytes);
          words = (unat linebytes + 3) div 4
      in do { st \<leftarrow> printf ''0x%08x :'' [VWord addr] st;
              let line = mem_bytes (mem st) addr (unat linebytes);
              st \<leftarrow> disp_words words addr st;
              st \<leftarrow> puts (cstr ''   '') st;
              st \<leftarrow> disp_chars line st;
              st \<leftarrow> printf [CHR 0x0A] [] st;
              if nbytes - linebytes > 0 then MemDisp_TRL (addr + of_nat (4 * words)) (nbytes - linebytes) st else Some st })"
  by pat_completeness auto
termination
proof (relation "measure (\<lambda>(_, n, _). unat n)")
  fix addr nbytes x xa xb and line :: buf and st xc xd xe xf xg :: "'a machine_scheme"
  assume "x = (if (nbytes :: u32) > 16 then 16 else nbytes)" "nbytes - x > 0"
  then have "16 < nbytes" "x = 16" by (auto split: if_splits)
  then have "unat (nbytes - x) = unat nbytes - 16" "16 < unat nbytes"
    using unat_sub [of 16 nbytes] by (simp_all add: word_less_nat_alt word_le_nat_alt)
  then show "((addr + of_nat (4 * xa), nbytes - x, xg), addr, nbytes, st) \<in> measure (\<lambda>(_, n, _). unat n)"
    by simp
qed simp

definition NAND_READ_CMD_L :: nat where "NAND_READ_CMD_L = 256"

text \<open>The local buffer of 256 bytes lies at \<open>frame\<close>; the engine must not be sent behind it.\<close>

definition Read_flash_cmd :: "'c engine \<Rightarrow> u32 \<Rightarrow> buf list \<Rightarrow> ('c, 'a) nand_scheme \<Rightarrow> ('c, 'a) nand_scheme option" where
  "Read_flash_cmd engine frame argv st =
     (if length argv < 3 \<or> length argv > 4 then usage_error ''Invalid arg. e.g.#nandread Src_addr Length [Target_addr]'' st
      else
        do { addr \<leftarrow> strtoul_arg argv 1;
             len \<leftarrow> strtoul_arg argv 2;
             if length argv = 4 then
               do { target \<leftarrow> strtoul_arg argv 3; Nand_Read_AS3310 engine (nand_page_shift st) addr target len st }
             else
               do { let len = (if sint len > int NAND_READ_CMD_L then of_nat NAND_READ_CMD_L else len);
                    if unat len > NAND_READ_CMD_L then None
                    else
                      do { st \<leftarrow> Nand_Read_AS3310 engine (nand_page_shift st) addr frame len st;
                           MemDisp_TRL frame len st } } })"

definition Mem2Nand_command :: "'c engine \<Rightarrow> buf list \<Rightarrow> ('c, 'a) nand_scheme \<Rightarrow> ('c, 'a) nand_scheme option" where
  "Mem2Nand_command engine argv st =
     (if length argv \<noteq> 4 then usage_error ''Invalid arg. e.g.#m2nand srcaddr flashaddr Length'' st
      else
        do { src \<leftarrow> strtoul_arg argv 1;
             addr \<leftarrow> strtoul_arg argv 2;
             len \<leftarrow> strtoul_arg argv 3;
             st \<leftarrow> Nand_Write_AS3310 engine (nand_page_shift st) (addr AND 0xfffffffc) src len st;
             printf (''Flash_Copy_DONE!'' @ [CHR 0x0A]) [] st })"

definition invalid_args :: "cmd_tbl \<Rightarrow> 'a console_scheme \<Rightarrow> 'a console_scheme option" where
  "invalid_args cmdtp st =
     do { st \<leftarrow> puts (cstr ''Invalid args.'') st;
          u \<leftarrow> cmd_usage cmdtp;
          st \<leftarrow> puts (cstr u) st;
          putc (CHR 0x0A) st }"

definition do_nandrspare ::
  "'c engine \<Rightarrow> u32 \<Rightarrow> cmd_tbl \<Rightarrow> buf list \<Rightarrow> ('c, 'a) nand_scheme \<Rightarrow> (int \<times> ('c, 'a) nand_scheme) option" where
  "do_nandrspare engine frame cmdtp argv st =
     (if length argv < 3 \<or> length argv > 4 then do { st \<leftarrow> invalid_args cmdtp st; Some (0, st) }
      else
        do { addr \<leftarrow> strtoul_arg argv 1;
             len \<leftarrow> strtoul_arg argv 2;
             if length argv = 4 then
               do { target \<leftarrow> strtoul_arg argv 3;
                    st \<leftarrow> Nand_Read_Spare_AS3310 engine addr target st;
                    Some (0, st) }
             else
               do { let len = (if unat len > NAND_READ_CMD_L then of_nat NAND_READ_CMD_L else len);
                    st \<leftarrow> Nand_Read_Spare_AS3310 engine addr frame st;
                    st \<leftarrow> MemDisp_TRL frame len st;
                    Some (0, st) } })"

definition do_m2spare :: "'c engine \<Rightarrow> cmd_tbl \<Rightarrow> buf list \<Rightarrow> ('c, 'a) nand_scheme \<Rightarrow> (int \<times> ('c, 'a) nand_scheme) option" where
  "do_m2spare engine cmdtp argv st =
     (if length argv \<noteq> 3 then do { st \<leftarrow> invalid_args cmdtp st; Some (0, st) }
      else
        do { src \<leftarrow> strtoul_arg argv 1;
             addr \<leftarrow> strtoul_arg argv 2;
             st \<leftarrow> Nand_Write_AS3310_Spare engine addr src st;
             st \<leftarrow> puts (cstr (''Copy_DONE!'' @ [CHR 0x0A])) st;
             Some (0, st) })"

section \<open>Error correction\<close>

text \<open>
  The encoder takes the address of 512 bytes of data and that of the parity, and says whether it ended in
  time; the decoder gives its report.
\<close>

type_synonym encoder = "u32 \<Rightarrow> u32 \<Rightarrow> (u32 \<Rightarrow> char) \<Rightarrow> bool \<times> (u32 \<Rightarrow> char)"
type_synonym decoder = "buf \<Rightarrow> buf \<Rightarrow> u32 list"

definition EccEncode :: "encoder \<Rightarrow> u32 \<Rightarrow> u32 \<Rightarrow> 'a machine_scheme \<Rightarrow> 'a machine_scheme option" where
  "EccEncode enc datafrom parityadd st =
     (case enc datafrom parityadd (mem st) of
        (ended, m) \<Rightarrow>
          let st = st\<lparr>mem := m\<rparr>
          in if ended then Some st else printf (''ECC DMA Time OUT'' @ [CHR 0x0A]) [] st)"

fun encode_sectors :: "encoder \<Rightarrow> nat \<Rightarrow> nat \<Rightarrow> u32 \<Rightarrow> u32 \<Rightarrow> 'a machine_scheme \<Rightarrow> 'a machine_scheme option" where
  "encode_sectors enc sector 0 src spare st = Some st"
| "encode_sectors enc sector (Suc k) src spare st =
     do { st \<leftarrow> EccEncode enc (src + of_nat (sector * 512)) (spare + of_nat (sector * 16) + 4) st;
          encode_sectors enc (Suc sector) k src spare st }"

fun m2nand_pages ::
  "'c engine \<Rightarrow> encoder \<Rightarrow> u32 \<Rightarrow> nat \<Rightarrow> u32 \<Rightarrow> u32 \<Rightarrow> ('c, 'a) nand_scheme \<Rightarrow> ('c, 'a) nand_scheme option" where
  "m2nand_pages engine enc spare 0 src addr st = Some st"
| "m2nand_pages engine enc spare (Suc k) src addr st =
     do { let page = push_bit (unat (nand_page_shift st)) 1;
          st \<leftarrow> encode_sectors enc 0 (if nand_page_shift st \<le> 9 then 1 else 4) src spare st;
          st \<leftarrow> Nand_Write_AS3310 engine (nand_page_shift st) addr src page st;
          st \<leftarrow> Nand_Write_AS3310_Spare engine addr spare st;
          st \<leftarrow> putc (CHR ''.'') st;
          m2nand_pages engine enc spare k (src + page) (addr + page) st }"

text \<open>The spare area of 64 bytes lies at \<open>spare\<close>.\<close>

definition do_m2nand_ecc ::
  "'c engine \<Rightarrow> encoder \<Rightarrow> u32 \<Rightarrow> cmd_tbl \<Rightarrow> buf list \<Rightarrow> ('c, 'a) nand_scheme \<Rightarrow> (int \<times> ('c, 'a) nand_scheme) option" where
  "do_m2nand_ecc engine enc spare cmdtp argv st =
     (if length argv \<noteq> 4 then do { st \<leftarrow> invalid_args cmdtp st; Some (0, st) }
      else
        do { src \<leftarrow> strtoul_arg argv 1;
             addr \<leftarrow> strtoul_arg argv 2;
             len \<leftarrow> strtoul_arg argv 3;
             let s = unat (nand_page_shift st);
             if addr \<noteq> push_bit s (drop_bit s addr) then
               do { st \<leftarrow> puts (cstr (''flash addr is not page aligined'' @ [CHR 0x0A])) st; Some (-1, st) }
             else
               do { let pages = sint (drop_bit s (len - 1) + 1);
                    st \<leftarrow> m2nand_pages engine enc spare (nat pages) src addr
                      (st\<lparr>mem := overlay (mem st) spare (replicate 64 (CHR 0xFF))\<rparr>);
                    st \<leftarrow> puts (cstr (''Copy_DONE!'' @ [CHR 0x0A])) st;
                    Some (0, st) } })"

definition do_EccEn :: "encoder \<Rightarrow> cmd_tbl \<Rightarrow> buf list \<Rightarrow> 'a machine_scheme \<Rightarrow> (int \<times> 'a machine_scheme) option" where
  "do_EccEn enc cmdtp argv st =
     (if length argv < 3 then do { st \<leftarrow> invalid_args cmdtp st; Some (0, st) }
      else
        do { src \<leftarrow> strtoul_arg argv 1;
             parity \<leftarrow> strtoul_arg argv 2;
             st \<leftarrow> EccEncode enc src parity st;
             Some (0, st) })"

text \<open>Words in memory: the 512 bytes of data and the 9 bytes of parity, in 3 words.\<close>

fun words_of :: "nat \<Rightarrow> u32 \<Rightarrow> (u32 \<Rightarrow> char) \<Rightarrow> u32 list option" where
  "words_of 0 a m = Some []"
| "words_of (Suc k) a m = do { w \<leftarrow> rd_le32 (mem_bytes m a 4); ws \<leftarrow> words_of k (a + 4) m; Some (w # ws) }"

definition do_EccDeCh :: "decoder \<Rightarrow> cmd_tbl \<Rightarrow> buf list \<Rightarrow> 'a machine_scheme \<Rightarrow> (int \<times> 'a machine_scheme) option" where
  "do_EccDeCh dec cmdtp argv st =
     (if length argv < 3 then do { st \<leftarrow> invalid_args cmdtp st; Some (0, st) }
      else
        do { src \<leftarrow> strtoul_arg argv 1;
             parity \<leftarrow> strtoul_arg argv 2;
             st \<leftarrow> puts (cstr ''ECC Code:0x'') st;
             d \<leftarrow> words_of 128 src (mem st);
             p \<leftarrow> words_of 3 parity (mem st);
             (r, d, p) \<leftarrow> EccDecodeCheck (dec (mem_bytes (mem st) src 512) (mem_bytes (mem st) parity 9)) d p;
             let m = overlay (overlay (mem st) src (concat (map le32 d))) parity (concat (map le32 p));
             st \<leftarrow> printf (''%x'' @ [CHR 0x0A]) [VWord (of_int r)] (st\<lparr>mem := m\<rparr>);
             Some (0, st) })"

section \<open>The NOR commands\<close>

definition Write_Nor_cmd :: "nor_chip \<Rightarrow> buf list \<Rightarrow> 'a machine_scheme \<Rightarrow> 'a machine_scheme option" where
  "Write_Nor_cmd nor argv st =
     (if length argv \<noteq> 3 then usage_error ''Invalid arg. e.g.#norwrite ADDR data'' st
      else
        do { addr \<leftarrow> strtoul_arg argv 1;
             data \<leftarrow> strtoul_arg argv 2;
             let (pass, st) = Nor_Write_AS3310_single nor addr (ucast data) st;
             if pass then printf (''Write success.'' @ [CHR 0x0A]) [] st else printf (''Write error.'' @ [CHR 0x0A]) [] st })"

partial_function (option) nor_erase_loop :: "nor_erase \<Rightarrow> u32 \<Rightarrow> u32 \<Rightarrow> 'a machine_scheme \<Rightarrow> 'a machine_scheme option" where
  "nor_erase_loop er addr endaddr st =
     (if addr < endaddr then
        do { (_, st) \<leftarrow> NOR_MBM29LV160TE_Erase er addr st; nor_erase_loop er (addr + 0x2000) endaddr st }
      else Some st)"

definition Erase_Nor_cmd :: "nor_erase \<Rightarrow> buf list \<Rightarrow> 'a machine_scheme \<Rightarrow> 'a machine_scheme option" where
  "Erase_Nor_cmd er argv st =
     (if length argv > 3 \<or> length argv < 2 then usage_error ''Invalid arg. e.g.#norerase address [length]'' st
      else
        do { addr \<leftarrow> strtoul_arg argv 1;
             len \<leftarrow> (if length argv = 3 then strtoul_arg argv 2 else Some 1);
             nor_erase_loop er addr (addr + len) st })"

definition Mem2Nor_command :: "nor_chip \<Rightarrow> buf list \<Rightarrow> 'a machine_scheme \<Rightarrow> 'a machine_scheme option" where
  "Mem2Nor_command nor argv st =
     (if length argv \<noteq> 4 then usage_error ''Invalid arg. e.g.#m2nor srcaddr flashaddr Length'' st
      else
        do { src \<leftarrow> strtoul_arg argv 1;
             addr \<leftarrow> strtoul_arg argv 2;
             len \<leftarrow> strtoul_arg argv 3;
             (errors, st) \<leftarrow> Nor_Write_AS3310 nor (addr AND 0xfffffffc) (src AND 0xfffffffe) len st;
             printf (''Flash_Copy_DONE! Total error:%d'' @ [CHR 0x0A]) [VWord errors] st })"

end
