(* ===== verification/Nand_Props.thy ===== *)
theory Nand_Props
  imports Nand_Cmd Net_Loop_Props Memory_Props
begin

unbundle bit_operations_syntax

text \<open>
  What the NAND driver (\<open>Nand\<close>, \<open>Nand_Cmd\<close>) promises for an engine and a chip that do what their programs say.
\<close>

section \<open>Addresses as numbers\<close>

lemma char_of_mod: "char_of (n mod 256 :: nat) = char_of n"
  using char_of_take_bit_eq [of 8 n] by (simp add: take_bit_eq_mod)

lemma unat_take_bit: "unat (take_bit n w) = unat w mod 2 ^ n" for w :: u32
  unfolding unsigned_take_bit_eq by (rule take_bit_eq_mod)

lemma lo8_eq: "lo8 w = char_of (unat w)"
proof -
  have "w AND 0xff = take_bit 8 w" by (simp add: take_bit_eq_mask mask_eq_exp_minus_1)
  then have "lo8 w = char_of (unat w mod 256)" unfolding lo8_def by (simp only: unat_take_bit) simp
  then show ?thesis by (simp only: char_of_mod)
qed

lemma low_mask_and: "unat (addr AND low_mask s) = unat addr mod 2 ^ unat s"
proof -
  have "addr AND low_mask s = take_bit (unat s) addr"
    by (simp add: low_mask_def take_bit_eq_mask mask_eq_exp_minus_1)
  then show ?thesis by (simp only: unat_take_bit)
qed

lemma unat_2_exp: "k < 32 \<Longrightarrow> unat (2 ^ k :: u32) = 2 ^ k"
proof -
  assume "k < 32"
  then have "(2 :: nat) ^ k < 2 ^ 32" by (intro power_strict_increasing) simp_all
  then show ?thesis using unat_of_nat_u32 [of "2 ^ k"] by simp
qed

lemma page_size: "unat s < 32 \<Longrightarrow> unat (push_bit (unat s) 1 :: u32) = 2 ^ unat s"
  by (simp add: push_bit_eq_mult unat_2_exp)

lemma drop_bit_unat: "unat (drop_bit k w) = unat w div 2 ^ k" for w :: u32
  using unat_drop_bit_eq [of k w] by (simp only: drop_bit_eq_div)

lemma words_left_eq:
  assumes "unat s < 32"
  shows "unat (words_left s addr) = (2 ^ unat s - unat addr mod 2 ^ unat s) div 4"
proof -
  note p = page_size [OF assms]
  have "unat addr mod 2 ^ unat s < 2 ^ unat s" by simp
  then have "addr AND low_mask s \<le> push_bit (unat s) 1" unfolding word_le_nat_alt p low_mask_and by simp
  then have "unat (push_bit (unat s) 1 - (addr AND low_mask s)) = 2 ^ unat s - unat addr mod 2 ^ unat s"
    by (simp only: unat_sub p low_mask_and)
  then show ?thesis unfolding words_left_def drop_bit_unat by simp
qed

text \<open>The address bytes for a row and a column.\<close>

definition row_bytes :: "nat \<Rightarrow> nat \<Rightarrow> buf" where
  "row_bytes rows row = map (\<lambda>j. char_of (row div 256 ^ j)) [0..<rows]"

lemma row_bytes_eq:
  "map (\<lambda>j. lo8 (drop_bit (s + 8 * j) addr)) [0..<n] = row_bytes n (unat addr div 2 ^ s)"
proof -
  have "(2 :: nat) ^ (s + 8 * j) = 2 ^ s * 256 ^ j" for j by (simp add: power_add power_mult)
  then show ?thesis by (simp add: row_bytes_def lo8_eq drop_bit_unat div_mult2_eq)
qed

text \<open>The chips in use: pages of 512 bytes with one column byte, or larger pages with two.\<close>

definition geometry :: "u8 \<Rightarrow> u8 \<Rightarrow> bool" where
  "geometry shift cycles \<longleftrightarrow>
     shift = 9 \<and> 1 < unat cycles \<and> unat cycles \<le> 8 \<or> 9 < unat shift \<and> unat shift \<le> 16 \<and> 2 < unat cycles \<and> unat cycles \<le> 8"

definition cols :: "u8 \<Rightarrow> nat" where
  "cols shift = (if shift = 9 then 1 else 2)"

definition addr_bytes :: "u8 \<Rightarrow> u8 \<Rightarrow> nat \<Rightarrow> nat \<Rightarrow> buf" where
  "addr_bytes shift cycles row col =
     (if shift = 9 then [char_of col] else [char_of col, char_of (col div 256)]) @ row_bytes (unat cycles - cols shift) row"

lemma geometry_shift: "geometry shift cycles \<Longrightarrow> 9 \<le> unat shift \<and> unat shift \<le> 16" "geometry shift cycles \<Longrightarrow> shift > 9 \<longleftrightarrow> shift \<noteq> 9"
proof -
  assume g: "geometry shift cycles"
  then show "9 \<le> unat shift \<and> unat shift \<le> 16" by (auto simp: geometry_def)
  show "shift > 9 \<longleftrightarrow> shift \<noteq> 9" using g by (auto simp: geometry_def word_less_nat_alt)
qed

lemma char_of_mod_page: "8 \<le> s \<Longrightarrow> char_of (n mod 2 ^ s :: nat) = char_of n"
  using char_of_take_bit_eq [of s n] by (simp add: take_bit_eq_mod)

lemma address_bytes_eq:
  assumes "geometry shift cycles"
  shows "address_bytes 8 cycles shift (col_bytes shift addr) addr =
    Some (addr_bytes shift cycles (unat addr div 2 ^ unat shift) (unat addr mod 2 ^ unat shift))"
proof -
  note s = geometry_shift [OF assms]
  have c: "lo8 addr = char_of (unat addr mod 2 ^ unat shift)" using s(1) by (simp add: lo8_eq char_of_mod_page)
  have d: "lo8 (drop_bit 8 (addr AND low_mask shift)) = char_of (unat addr mod 2 ^ unat shift div 256)"
    unfolding lo8_eq drop_bit_unat low_mask_and by simp
  have cb: "col_bytes shift addr = (if shift = 9 then [char_of (unat addr mod 2 ^ unat shift)]
      else [char_of (unat addr mod 2 ^ unat shift), char_of (unat addr mod 2 ^ unat shift div 256)])"
    unfolding col_bytes_def c d s(2) by simp
  have b: "col_bytes shift addr @ map (\<lambda>j. lo8 (drop_bit (unat shift + 8 * j) addr)) [0..<unat cycles - length (col_bytes shift addr)] =
      addr_bytes shift cycles (unat addr div 2 ^ unat shift) (unat addr mod 2 ^ unat shift)"
    unfolding row_bytes_eq cb by (simp add: addr_bytes_def cols_def numeral_2_eq_2)
  have "length (addr_bytes shift cycles r k) \<le> 8" for r k
    using assms by (auto simp: addr_bytes_def cols_def row_bytes_def geometry_def)
  then have "\<not> 8 < length (addr_bytes shift cycles r k)" for r k by (simp only: not_less)
  then show ?thesis unfolding address_bytes_def Let_def b by (simp only: if_False)
qed


section \<open>Reading\<close>

text \<open>The program that reads \<open>n\<close> words of a page from a column on.\<close>

definition page_read :: "u32 \<Rightarrow> u8 \<Rightarrow> u8 \<Rightarrow> nat \<Rightarrow> nat \<Rightarrow> u32 \<Rightarrow> u32 \<Rightarrow> dma_pkg list" where
  "page_read cen cycles shift row col buffer n =
     read_program cen cycles shift (if shift = 9 then col div 256 else 0) (addr_bytes shift cycles row col) buffer n"

text \<open>How many rows the address bytes can name.\<close>

definition row_limit :: "u8 \<Rightarrow> u8 \<Rightarrow> nat" where
  "row_limit shift cycles = 256 ^ (unat cycles - cols shift)"

text \<open>
  An engine with a chip whose cells are \<open>cell c row col\<close>: a program that reads from a page leaves the words in
  memory and the cells as they are.
\<close>

definition reads_cells :: "'c engine \<Rightarrow> ('c \<Rightarrow> nat \<Rightarrow> nat \<Rightarrow> char) \<Rightarrow> u32 \<Rightarrow> u8 \<Rightarrow> u8 \<Rightarrow> bool" where
  "reads_cells engine cell cen cycles shift \<longleftrightarrow>
     (\<forall>row col buffer n m c. row < row_limit shift cycles \<and> col + 4 * unat n \<le> 2 ^ unat shift \<longrightarrow>
        engine (page_read cen cycles shift row col buffer n) m c =
          (True, overlay m buffer (map (cell c row) [col..<col + 4 * unat n]), c))"

text \<open>The bytes of the chip from an address on.\<close>

definition nand_bytes :: "(nat \<Rightarrow> nat \<Rightarrow> char) \<Rightarrow> u8 \<Rightarrow> nat \<Rightarrow> nat \<Rightarrow> string" where
  "nand_bytes cells shift a n = map (\<lambda>i. cells (i div 2 ^ unat shift) (i mod 2 ^ unat shift)) [a..<a + n]"

lemma nand_bytes_add: "nand_bytes cells shift a (i + j) = nand_bytes cells shift a i @ nand_bytes cells shift (a + i) j"
proof -
  have "[a..<a + (i + j)] = [a..<a + i] @ [a + i..<a + i + j]"
    using upt_add_eq_append [of a "a + i" j] by (simp only: le_add1 add.assoc simp_thms)
  then show ?thesis by (simp only: nand_bytes_def map_append add.assoc)
qed

lemma nand_bytes_page:
  assumes "a mod 2 ^ unat shift + n \<le> 2 ^ unat shift"
  shows "nand_bytes cells shift a n = map (cells (a div 2 ^ unat shift)) [a mod 2 ^ unat shift..<a mod 2 ^ unat shift + n]"
proof (rule nth_equalityI)
  let ?p = "2 ^ unat shift :: nat"
  fix i assume "i < length (nand_bytes cells shift a n)"
  then have i: "i < n" by (simp add: nand_bytes_def)
  have e: "a + i = a div ?p * ?p + (a mod ?p + i)" using div_mult_mod_eq [of a ?p] by linarith
  have l: "a mod ?p + i < ?p" using i assms by simp
  have "(a + i) div ?p = a div ?p" "(a + i) mod ?p = a mod ?p + i"
    unfolding e using l by simp_all
  then show "nand_bytes cells shift a n ! i = map (cells (a div ?p)) [a mod ?p..<a mod ?p + n] ! i"
    using i by (simp add: nand_bytes_def)
qed (simp add: nand_bytes_def)

lemma read_cmd_eq: "shift = 9 \<Longrightarrow> read_cmd shift addr = unat addr mod 2 ^ unat shift div 256"
proof -
  assume s: "shift = 9"
  have "addr AND 0x100 = 0 \<longleftrightarrow> \<not> bit addr 8" using and_exp_eq_0_iff_not_bit [of addr 8] by simp
  also have "bit addr 8 \<longleftrightarrow> odd (unat addr div 256)"
  proof -
    have "bit addr 8 \<longleftrightarrow> bit (unat addr) 8" by (simp add: bit_unsigned_iff)
    then show ?thesis by (simp add: bit_iff_odd)
  qed
  finally have "read_cmd shift addr = unat addr div 256 mod 2" using s by (simp add: read_cmd_def mod_2_eq_odd)
  also have "\<dots> = unat addr mod (256 * 2) div 256" by (simp only: mod_mult2_eq)
  finally show ?thesis using s by simp
qed


text \<open>One round of the reading loop: the words up to the end of the page, or of its first half.\<close>

definition chunk :: "u8 \<Rightarrow> nat \<Rightarrow> nat" where
  "chunk shift a = (let p = 2 ^ (if shift = 9 then 8 else unat shift) in p - a mod p)"

lemma chunk_facts:
  assumes "geometry shift cycles"
  shows "unat (words_left (if shift = 9 then 8 else shift) addr) = chunk shift (unat addr) div 4"
    "a mod 2 ^ unat shift + chunk shift a \<le> 2 ^ unat shift" "0 < chunk shift a" "chunk shift a \<le> 65536"
    "a mod 4 = 0 \<Longrightarrow> chunk shift a mod 4 = 0"
proof -
  note s = geometry_shift(1) [OF assms]
  let ?k = "if shift = 9 then 8 else unat shift"
  have k: "unat (if shift = 9 then 8 else shift) = ?k" by simp
  have k16: "?k \<le> 16" "?k \<le> unat shift" "2 \<le> ?k" using s by auto
  have "unat (if shift = 9 then 8 else shift) < 32" unfolding k using k16(1) by linarith
  from words_left_eq [OF this]
  show "unat (words_left (if shift = 9 then 8 else shift) addr) = chunk shift (unat addr) div 4"
    unfolding k by (simp add: chunk_def Let_def)
  define p where "p = (2 :: nat) ^ ?k"
  have c: "chunk shift a = p - a mod p" by (simp add: chunk_def p_def Let_def)
  have p0: "0 < p" by (simp add: p_def)
  then show "0 < chunk shift a" by (simp add: c)
  have "p \<le> 2 ^ 16" unfolding p_def by (rule power_increasing [OF k16(1)]) simp
  then show "chunk shift a \<le> 65536" by (simp add: c)
  obtain q where q: "(2 :: nat) ^ unat shift = p * q" "0 < q"
  proof (rule that)
    show "(2 :: nat) ^ unat shift = p * 2 ^ (unat shift - ?k)"
      unfolding p_def using k16(2) by (simp only: power_add [symmetric]) simp
  qed simp
  have "a mod (p * q) = p * (a div p mod q) + a mod p" by (rule mod_mult2_eq)
  moreover have "p * (a div p mod q) + p \<le> p * q"
  proof -
    have "Suc (a div p mod q) \<le> q" using q(2) by (simp add: Suc_leI)
    then have "p * Suc (a div p mod q) \<le> p * q" by (rule mult_le_mono2)
    then show ?thesis by simp
  qed
  ultimately show "a mod 2 ^ unat shift + chunk shift a \<le> 2 ^ unat shift" unfolding q(1) c using p0 by simp
  have d: "4 dvd p" unfolding p_def using le_imp_power_dvd [OF k16(3), of "2 :: nat"] by simp
  then show "chunk shift a mod 4 = 0" if "a mod 4 = 0"
    using that unfolding c by (metis dvd_diff_nat dvd_mod_iff mod_0_imp_dvd dvd_imp_mod_0)
qed

lemma unat_small_sum: "unat a + n < 2 ^ 32 \<Longrightarrow> unat (a + of_nat n) = unat a + n" for a :: u32
proof -
  assume a: "unat a + n < 2 ^ 32"
  then have "unat (of_nat n :: u32) = n" by (intro unat_of_nat_u32) linarith
  then show ?thesis using a by (simp add: unat_word_ariths(1))
qed

lemma push_2: "push_bit 2 n = of_nat (4 * unat n)" for n :: u32
  by (simp add: push_bit_eq_mult)

lemma whole_words: "unat (drop_bit 2 n) = unat n div 4" for n :: u32
  by (simp add: drop_bit_unat)

lemma start_ok:
  "engine pkgs (mem st) (chip st) = (True, m, c) \<Longrightarrow> start_nand_dma_routine engine pkgs st = Some (st\<lparr>mem := m, chip := c\<rparr>)"
  by (simp add: start_nand_dma_routine_def)

lemma page_read_eq:
  "read_program cen cycles shift (read_cmd shift addr)
      (addr_bytes shift cycles (unat addr div 2 ^ unat shift) (unat addr mod 2 ^ unat shift)) buffer n =
    page_read cen cycles shift (unat addr div 2 ^ unat shift) (unat addr mod 2 ^ unat shift) buffer n"
proof -
  have "read_cmd shift addr = (if shift = 9 then unat addr mod 2 ^ unat shift div 256 else 0)"
    using read_cmd_eq [of shift addr] by (simp add: read_cmd_def)
  then show ?thesis by (simp only: page_read_def)
qed

lemma Nand_Read_ok:
  fixes st :: "('c, 'a) nand_scheme"
  assumes g: "geometry shift (nand_cycles st)" and r: "reads_cells engine cell (nand_current_cen st) (nand_cycles st) shift"
  shows "\<lbrakk>unat addr mod 4 = 0; 0 < unat left; unat addr + unat left < 2 ^ 32;
     unat addr + unat left \<le> 2 ^ unat shift * row_limit shift (nand_cycles st)\<rbrakk> \<Longrightarrow>
    Nand_Read_AS3310 engine shift addr buffer left (st\<lparr>mem := m\<rparr>) =
      Some (st\<lparr>mem := overlay m buffer (nand_bytes (cell (chip st)) shift (unat addr) (4 * (unat left div 4)))\<rparr>)"
proof (induction "unat left" arbitrary: addr buffer left m rule: less_induct)
  case less
  let ?s = "st\<lparr>mem := m\<rparr>" and ?a = "unat addr" and ?p = "2 ^ unat shift :: nat"
  let ?by = "nand_bytes (cell (chip st)) shift"
  note c = chunk_facts [OF g]
  define k where "k = chunk shift ?a"
  define n where "n = words_left (if shift = 9 then 8 else shift) addr"
  have k4: "k mod 4 = 0" using c(5) [of ?a] less.prems(1) by (simp add: k_def)
  have n: "unat n = k div 4" using c(1) [of addr] by (simp only: n_def k_def)
  then have n4: "4 * unat n = k" using k4 by auto
  have k: "0 < k" "k \<le> 65536" "?a mod ?p + k \<le> ?p" using c(2-4) [of ?a] by (simp_all add: k_def)
  have uk: "unat (push_bit 2 n) = k" unfolding push_2 n4 using k(2) by (intro unat_of_nat_u32) simp
  have "?a < ?p * row_limit shift (nand_cycles st)" using less.prems(2,4) by linarith
  then have row: "?a div ?p < row_limit shift (nand_cycles st)" by (simp add: less_mult_imp_div_less mult.commute)
  have run: "start_nand_dma_routine engine (page_read (nand_current_cen st) (nand_cycles st) shift (?a div ?p) (?a mod ?p) buffer n') ?s =
      Some (st\<lparr>mem := overlay m buffer (?by ?a (4 * unat n'))\<rparr>)" if n': "4 * unat n' \<le> k" for n'
  proof -
    have f: "?a mod ?p + 4 * unat n' \<le> ?p" using n' k(3) by linarith
    have "engine (page_read (nand_current_cen st) (nand_cycles st) shift (?a div ?p) (?a mod ?p) buffer n') m (chip st) =
        (True, overlay m buffer (?by ?a (4 * unat n')), chip st)"
      using r row f unfolding reads_cells_def nand_bytes_page [OF f] by blast
    then show ?thesis using start_ok [of engine _ ?s] by simp
  qed
  define n1 where "n1 = (if left \<le> push_bit 2 n then drop_bit 2 left else n)"
  have n1: "4 * unat n1 \<le> k" unfolding n1_def using uk n4 by (auto simp: whole_words word_le_nat_alt)
  have sel: "nand_cycles ?s = nand_cycles st" "nand_current_cen ?s = nand_current_cen st" by simp_all
  have step: "Nand_Read_AS3310 engine shift addr buffer left ?s =
      (if left \<le> push_bit 2 n then Some (st\<lparr>mem := overlay m buffer (?by ?a (4 * unat n1))\<rparr>)
       else Nand_Read_AS3310 engine shift (addr + push_bit 2 n1) (buffer + push_bit 2 n1) (left - push_bit 2 n1)
         (st\<lparr>mem := overlay m buffer (?by ?a (4 * unat n1))\<rparr>))"
    by (subst Nand_Read_AS3310.simps)
      (simp only: sel n_def [symmetric] Let_def n1_def [symmetric] address_bytes_eq [OF g] bind.bind_lunit page_read_eq run [OF n1])
  show ?case
  proof (cases "left \<le> push_bit 2 n")
    case True
    then have "4 * unat n1 = 4 * (unat left div 4)" by (simp add: n1_def whole_words)
    then show ?thesis unfolding step using True by simp
  next
    case False
    then have n1n: "n1 = n" "k < unat left" using uk by (simp_all add: n1_def word_le_nat_alt not_le)
    have p: "push_bit 2 n = of_nat k" unfolding push_2 n4 ..
    have "of_nat k \<le> left" using False unfolding p by simp
    then have ul: "unat (left - of_nat k) = unat left - k" using uk p by (simp add: unat_sub)
    have ua: "unat (addr + of_nat k) = ?a + k" using less.prems(3) n1n(2) by (intro unat_small_sum) simp
    let ?m = "overlay m buffer (?by ?a k)"
    have "Nand_Read_AS3310 engine shift (addr + of_nat k) (buffer + of_nat k) (left - of_nat k) (st\<lparr>mem := ?m\<rparr>) =
        Some (st\<lparr>mem := overlay ?m (buffer + of_nat k) (?by (unat (addr + of_nat k)) (4 * (unat (left - of_nat k) div 4)))\<rparr>)"
    proof (rule less.hyps; unfold ul ua)
      show "(?a + k) mod 4 = 0" using less.prems(1) k4 by (simp add: mod_add_eq [of ?a 4 k, symmetric])
    qed (use k n1n(2) less.prems(2-4) in linarith)+
    also have "overlay ?m (buffer + of_nat k) (?by (unat (addr + of_nat k)) (4 * (unat (left - of_nat k) div 4))) =
        overlay m buffer (?by ?a (4 * (unat left div 4)))"
    proof -
      obtain r where r: "unat left = 4 * (k div 4) + r" using n1n(2) k4 less_imp_add_positive [of k "unat left"]
        by (metis mult_div_mod_eq add_0_right)
      have e: "4 * (unat left div 4) = k + 4 * ((unat left - k) div 4)" unfolding r using k4 by auto
      have "length (?by ?a k @ ?by (?a + k) (4 * ((unat left - k) div 4))) = 4 * (unat left div 4)"
        by (simp add: nand_bytes_def e)
      also have "\<dots> \<le> unat left" by simp
      also have "\<dots> \<le> 2 ^ 32" using unat_u32_less [of left] by simp
      finally have l: "length (?by ?a k @ ?by (?a + k) (4 * ((unat left - k) div 4))) \<le> 2 ^ 32" .
      have lk: "length (?by ?a k) = k" by (simp add: nand_bytes_def)
      show ?thesis unfolding ua ul e nand_bytes_add overlay_append [OF l] lk ..
    qed
    finally show ?thesis unfolding step n1n(1) p n4 using False unfolding p by simp
  qed
qed


section \<open>Writing\<close>

definition page_write :: "u32 \<Rightarrow> u8 \<Rightarrow> u8 \<Rightarrow> nat \<Rightarrow> nat \<Rightarrow> u32 \<Rightarrow> u32 \<Rightarrow> dma_pkg list" where
  "page_write cen cycles shift row col buffer n = write_program cen cycles (addr_bytes shift cycles row col) buffer n"

text \<open>Bytes in the cells, in a row and at an address.\<close>

definition row_put :: "(nat \<Rightarrow> nat \<Rightarrow> char) \<Rightarrow> nat \<Rightarrow> nat \<Rightarrow> string \<Rightarrow> nat \<Rightarrow> nat \<Rightarrow> char" where
  "row_put f row col d = (\<lambda>r k. if r = row \<and> col \<le> k \<and> k < col + length d then d ! (k - col) else f r k)"

definition nand_put :: "(nat \<Rightarrow> nat \<Rightarrow> char) \<Rightarrow> u8 \<Rightarrow> nat \<Rightarrow> string \<Rightarrow> nat \<Rightarrow> nat \<Rightarrow> char" where
  "nand_put f shift a d =
     (\<lambda>r k. if k < 2 ^ unat shift \<and> a \<le> r * 2 ^ unat shift + k \<and> r * 2 ^ unat shift + k < a + length d
            then d ! (r * 2 ^ unat shift + k - a) else f r k)"

text \<open>
  A program that writes to erased cells of a page puts the words into them.  A page of 512 bytes is written from
  its first half.
\<close>

definition programs_cells :: "'c engine \<Rightarrow> ('c \<Rightarrow> nat \<Rightarrow> nat \<Rightarrow> char) \<Rightarrow> u32 \<Rightarrow> u8 \<Rightarrow> u8 \<Rightarrow> bool" where
  "programs_cells engine cell cen cycles shift \<longleftrightarrow>
     (\<forall>row col buffer n m c.
        row < row_limit shift cycles \<and> col + 4 * unat n \<le> 2 ^ unat shift \<and> (shift = 9 \<longrightarrow> col < 256) \<and>
        map (cell c row) [col..<col + 4 * unat n] = replicate (4 * unat n) (CHR 0xFF) \<longrightarrow>
        (\<exists>c'. engine (page_write cen cycles shift row col buffer n) m c = (True, m, c') \<and>
           cell c' = row_put (cell c) row col (mem_bytes m buffer (4 * unat n))))"

lemma row_put_nand:
  assumes "a mod 2 ^ unat shift + length d \<le> 2 ^ unat shift"
  shows "row_put f (a div 2 ^ unat shift) (a mod 2 ^ unat shift) d = nand_put f shift a d"
proof (intro ext)
  fix r k
  define p where "p = (2 :: nat) ^ unat shift"
  have p: "0 < p" by (simp add: p_def)
  have a: "a div p * p + a mod p = a" by simp
  have lt: "a mod p < p" using p by simp
  have iff: "r = a div p \<and> a mod p \<le> k \<and> k < a mod p + length d \<longleftrightarrow>
      k < p \<and> a \<le> r * p + k \<and> r * p + k < a + length d"
  proof
    assume l: "r = a div p \<and> a mod p \<le> k \<and> k < a mod p + length d"
    then have "r * p + a mod p = a" using a by simp
    then show "k < p \<and> a \<le> r * p + k \<and> r * p + k < a + length d" using assms l unfolding p_def [symmetric] by linarith
  next
    assume x: "k < p \<and> a \<le> r * p + k \<and> r * p + k < a + length d"
    define q where "q = a div p"
    have q: "q * p + a mod p = a" using a by (simp only: q_def)
    have "r = q"
    proof (rule ccontr)
      assume "r \<noteq> q"
      then consider "Suc r \<le> q" | "Suc q \<le> r" by linarith
      then show False
      proof cases
        case 1
        then have "Suc r * p \<le> q * p" by (rule mult_le_mono1)
        then show False using x q lt by simp
      next
        case 2
        then have "Suc q * p \<le> r * p" by (rule mult_le_mono1)
        then show False using x q assms unfolding p_def [symmetric] by simp
      qed
    qed
    moreover from this have "r * p + a mod p = a" using q by simp
    ultimately show "r = a div p \<and> a mod p \<le> k \<and> k < a mod p + length d" using x unfolding q_def by linarith
  qed
  have "r * p + k - a = k - a mod p" if "r = a div p"
  proof -
    have "r * p + a mod p = a" using a that by simp
    then show ?thesis by linarith
  qed
  then show "row_put f (a div 2 ^ unat shift) (a mod 2 ^ unat shift) d r k = nand_put f shift a d r k"
    unfolding row_put_def nand_put_def p_def [symmetric] using iff by auto
qed

lemma nand_put_append: "nand_put (nand_put f shift a d) shift (a + length d) d' = nand_put f shift a (d @ d')"
  by (intro ext) (auto simp: nand_put_def nth_append)

lemma nand_bytes_nth: "i < n \<Longrightarrow> nand_bytes f shift a n ! i = f ((a + i) div 2 ^ unat shift) ((a + i) mod 2 ^ unat shift)"
  by (simp add: nand_bytes_def)

lemma nand_put_at: "nand_put f shift a d (i div 2 ^ unat shift) (i mod 2 ^ unat shift) =
    (if a \<le> i \<and> i < a + length d then d ! (i - a) else f (i div 2 ^ unat shift) (i mod 2 ^ unat shift))"
proof -
  have "i mod 2 ^ unat shift < 2 ^ unat shift" by simp
  then show ?thesis by (simp only: nand_put_def div_mult_mod_eq simp_thms)
qed

lemma nand_bytes_put: "nand_bytes (nand_put f shift a d) shift a (length d) = d"
  by (rule nth_equalityI) (simp_all add: nand_bytes_def nand_put_at)

lemma nand_bytes_put_behind: "nand_bytes (nand_put f shift a d) shift (a + length d) n = nand_bytes f shift (a + length d) n"
  by (rule nth_equalityI) (simp_all add: nand_bytes_def nand_put_at)

lemma Nand_Write_ok:
  fixes st :: "('c, 'a) nand_scheme"
  assumes g: "geometry shift (nand_cycles st)" and w: "programs_cells engine cell (nand_current_cen st) (nand_cycles st) shift"
  shows "\<lbrakk>unat addr mod 4 = 0; 0 < unat left; unat addr + unat left < 2 ^ 32;
     unat addr + unat left \<le> 2 ^ unat shift * row_limit shift (nand_cycles st);
     shift = 9 \<longrightarrow> unat addr mod 512 < 256; m = mem st;
     nand_bytes (cell c) shift (unat addr) (4 * (unat left div 4)) = replicate (4 * (unat left div 4)) (CHR 0xFF)\<rbrakk> \<Longrightarrow>
    \<exists>c'. Nand_Write_AS3310 engine shift addr buffer left (st\<lparr>chip := c\<rparr>) = Some (st\<lparr>chip := c'\<rparr>) \<and>
      cell c' = nand_put (cell c) shift (unat addr) (mem_bytes m buffer (4 * (unat left div 4)))"
proof (induction "unat left" arbitrary: addr buffer left c rule: less_induct)
  case less
  let ?s = "st\<lparr>chip := c\<rparr>" and ?a = "unat addr" and ?p = "2 ^ unat shift :: nat"
  have s16: "9 \<le> unat shift" "unat shift \<le> 16" using geometry_shift(1) [OF g] by simp_all
  define k where "k = ?p - ?a mod ?p"
  define n where "n = words_left shift addr"
  have n: "unat n = k div 4" unfolding n_def k_def using s16 by (intro words_left_eq) simp
  have p16: "?p \<le> 2 ^ 16" by (rule power_increasing [OF s16(2)]) simp
  have lt: "?a mod ?p < ?p" by simp
  have p4: "4 dvd ?p" using le_imp_power_dvd [of 2 "unat shift" "2 :: nat"] s16 by simp
  have k4: "k mod 4 = 0" unfolding k_def using less.prems(1) p4 by (metis dvd_diff_nat dvd_mod_iff mod_0_imp_dvd dvd_imp_mod_0)
  have k: "0 < k" "k \<le> 65536" "?a mod ?p + k = ?p" using lt p16 by (simp_all add: k_def)
  have n4: "4 * unat n = k" using n k4 by auto
  have uk: "unat (push_bit 2 n) = k" unfolding push_2 n4 using k(2) by (intro unat_of_nat_u32) simp
  have "?a < ?p * row_limit shift (nand_cycles st)" using less.prems(2,4) by linarith
  then have row: "?a div ?p < row_limit shift (nand_cycles st)" by (simp add: less_mult_imp_div_less mult.commute)
  have half: "shift = 9 \<longrightarrow> ?a mod ?p < 256" using less.prems(5) by auto
  define n1 where "n1 = (if left \<le> push_bit 2 n then drop_bit 2 left else n)"
  have n1: "4 * unat n1 \<le> k" unfolding n1_def using uk n4 by (auto simp: whole_words word_le_nat_alt)
  have n1l: "4 * unat n1 \<le> 4 * (unat left div 4)" unfolding n1_def using uk n by (auto simp: whole_words word_le_nat_alt)
  have fit: "?a mod ?p + 4 * unat n1 \<le> ?p" using n1 k(3) by linarith
  obtain x where x: "4 * (unat left div 4) = 4 * unat n1 + x" using n1l le_Suc_ex by blast
  have er: "nand_bytes (cell c) shift ?a (4 * unat n1) = replicate (4 * unat n1) (CHR 0xFF)"
    "nand_bytes (cell c) shift (?a + 4 * unat n1) x = replicate x (CHR 0xFF)"
    using less.prems(7) unfolding x nand_bytes_add replicate_add by (simp_all add: nand_bytes_def)
  have "map (cell c (?a div ?p)) [?a mod ?p..<?a mod ?p + 4 * unat n1] = replicate (4 * unat n1) (CHR 0xFF)"
    using er(1) unfolding nand_bytes_page [OF fit] .
  then obtain c1 where e: "engine (page_write (nand_current_cen st) (nand_cycles st) shift (?a div ?p) (?a mod ?p) buffer n1) m c = (True, m, c1)"
    and c1': "cell c1 = row_put (cell c) (?a div ?p) (?a mod ?p) (mem_bytes m buffer (4 * unat n1))"
    using w row fit half unfolding programs_cells_def by meson
  have lm: "length (mem_bytes m a j) = j" for m a j by (simp add: mem_bytes_def)
  have c1: "cell c1 = nand_put (cell c) shift ?a (mem_bytes m buffer (4 * unat n1))"
    unfolding c1' by (rule row_put_nand) (simp only: lm fit)
  have run: "start_nand_dma_routine engine (page_write (nand_current_cen st) (nand_cycles st) shift (?a div ?p) (?a mod ?p) buffer n1) ?s =
      Some (st\<lparr>chip := c1\<rparr>)"
    using start_ok [of engine _ ?s m c1] e less.prems(6) by simp
  have sel: "nand_cycles ?s = nand_cycles st" "nand_current_cen ?s = nand_current_cen st" by simp_all
  have step: "Nand_Write_AS3310 engine shift addr buffer left ?s =
      (if left \<le> push_bit 2 n then Some (st\<lparr>chip := c1\<rparr>)
       else Nand_Write_AS3310 engine shift (addr + push_bit 2 n1) (buffer + push_bit 2 n1) (left - push_bit 2 n1) (st\<lparr>chip := c1\<rparr>))"
    by (subst Nand_Write_AS3310.simps)
      (simp only: sel n_def [symmetric] Let_def n1_def [symmetric] address_bytes_eq [OF g] bind.bind_lunit
        page_write_def [symmetric] run)
  show ?case
  proof (cases "left \<le> push_bit 2 n")
    case True
    then have "4 * unat n1 = 4 * (unat left div 4)" by (simp add: n1_def whole_words)
    then show ?thesis unfolding step using True c1 by (intro exI [of _ c1]) simp
  next
    case False
    then have n1n: "n1 = n" "k < unat left" using uk by (simp_all add: n1_def word_le_nat_alt not_le)
    have p: "push_bit 2 n = of_nat k" unfolding push_2 n4 ..
    have "of_nat k \<le> left" using False unfolding p by simp
    then have ul: "unat (left - of_nat k) = unat left - k" using uk p by (simp add: unat_sub)
    have ua: "unat (addr + of_nat k) = ?a + k" using less.prems(3) n1n(2) by (intro unat_small_sum) simp
    obtain y where y: "unat left = 4 * unat n + y" using n1n(2) n4 le_Suc_ex [of "4 * unat n" "unat left"] by auto
    then have "unat left div 4 = unat n + y div 4" by simp
    then have "x = 4 * (y div 4)" using x n1n(1) by simp
    then have xe: "4 * ((unat left - k) div 4) = x" using y n4 by simp
    have al: "(?a + k) mod ?p = 0"
    proof -
      have "?a + k = ?a div ?p * ?p + ?p" using k(3) div_mult_mod_eq [of ?a ?p] by linarith
      then show ?thesis by simp
    qed
    have "\<exists>c'. Nand_Write_AS3310 engine shift (addr + of_nat k) (buffer + of_nat k) (left - of_nat k) (st\<lparr>chip := c1\<rparr>) = Some (st\<lparr>chip := c'\<rparr>) \<and>
        cell c' = nand_put (cell c1) shift (unat (addr + of_nat k)) (mem_bytes m (buffer + of_nat k) (4 * (unat (left - of_nat k) div 4)))"
    proof (rule less.hyps; (unfold ul ua)?)
      show "(?a + k) mod 4 = 0" using less.prems(1) k4 by (simp add: mod_add_eq [of ?a 4 k, symmetric])
      show "m = mem st" by (rule less.prems(6))
      show "shift = 9 \<longrightarrow> (?a + k) mod 512 < 256" using al by auto
      show "nand_bytes (cell c1) shift (?a + k) (4 * ((unat left - k) div 4)) = replicate (4 * ((unat left - k) div 4)) (CHR 0xFF)"
        unfolding xe c1 using nand_bytes_put_behind [of "cell c" shift ?a "mem_bytes m buffer (4 * unat n1)" x] er(2) n1n(1) n4
        by (simp add: lm)
    qed (use k n1n(2) less.prems(2-4) in linarith)+
    moreover have "nand_put (cell c1) shift (unat (addr + of_nat k)) (mem_bytes m (buffer + of_nat k) (4 * (unat (left - of_nat k) div 4))) =
        nand_put (cell c) shift ?a (mem_bytes m buffer (4 * (unat left div 4)))"
    proof -
      have l: "?a + length (mem_bytes m buffer k) = ?a + k" by (simp add: lm)
      show ?thesis unfolding ua ul xe c1 n1n(1) n4 x mem_bytes_add
        using nand_put_append [of "cell c" shift ?a "mem_bytes m buffer k" "mem_bytes m (buffer + of_nat k) x"] unfolding l .
    qed
    ultimately show ?thesis unfolding step n1n(1) p using False unfolding p by simp
  qed
qed


section \<open>Erasing\<close>

definition block_erase :: "u32 \<Rightarrow> u8 \<Rightarrow> nat \<Rightarrow> dma_pkg list" where
  "block_erase cen cycles row =
     [cmd_pkg cen 0x60, addr_pkg cen cycles (row_bytes (unat cycles) row), cmd_pkg cen 0xd0, wait_pkg 0x000010e0 cen]"

definition blocks_erased :: "(nat \<Rightarrow> nat \<Rightarrow> char) \<Rightarrow> u8 \<Rightarrow> nat \<Rightarrow> nat \<Rightarrow> nat \<Rightarrow> nat \<Rightarrow> char" where
  "blocks_erased f bshift b e = (\<lambda>r k. if b \<le> r div 2 ^ unat bshift \<and> r div 2 ^ unat bshift < e then CHR 0xFF else f r k)"

text \<open>The program with the address of a row erases the block of the row.\<close>

definition erases_cells :: "'c engine \<Rightarrow> ('c \<Rightarrow> nat \<Rightarrow> nat \<Rightarrow> char) \<Rightarrow> u32 \<Rightarrow> u8 \<Rightarrow> u8 \<Rightarrow> bool" where
  "erases_cells engine cell cen cycles bshift \<longleftrightarrow>
     (\<forall>row m c. row < 256 ^ unat cycles \<longrightarrow>
        (\<exists>c'. engine (block_erase cen cycles row) m c = (True, m, c') \<and>
           cell c' = blocks_erased (cell c) bshift (row div 2 ^ unat bshift) (Suc (row div 2 ^ unat bshift))))"

lemma directive_08x:
  "directive (CHR ''0'' # CHR ''8'' # CHR ''x'' # fmt) n (VWord w # args) =
    Some (replicate (8 - length (hex (unat w))) (CHR ''0'') @ hex (unat w), None, fmt, args)"
proof -
  have "number w 16 8 (-1) (no_flags\<lparr>ZEROPAD := True\<rparr>) =
      Some (replicate (8 - length (hex (unat w))) (CHR ''0'') @ hex (unat w))"
    by (auto simp: number_def no_flags_def nat_str_def Let_def unat_eq_zero hex_def nat_diff_distrib')
  then show ?thesis
    by (simp add: directive_def parse_width_def is_digit_def ichar_eq_int no_flags_def
        parse_precision_def parse_qualifier_def convert_def int_base_def int_arg_def)
qed

lemma say_erasing_block:
  assumes "\<not> devinit st"
  shows "\<exists>st'. printf (''erasing block :0x%08x'' @ [CHR 0x0A]) [VWord w] st = Some st' \<and> printed st st'"
proof -
  define g where "g = cstr [CHR 0x0A]"
  let ?d = "replicate (8 - length (hex (unat w))) (CHR ''0'') @ hex (unat w)"
  have f: "cstr (''erasing block :0x%08x'' @ [CHR 0x0A]) = ''erasing block :0x'' @ CHR ''%'' # CHR ''0'' # CHR ''8'' # CHR ''x'' # g"
    by (simp add: cstr_def g_def)
  have e: "vsprintf_loop g [] out [] = Some (out @ [CHR 0x0A], [])" for out by (simp add: g_def cstr_def)
  have "vsprintf_loop (cstr (''erasing block :0x%08x'' @ [CHR 0x0A])) [VWord w] [] [] =
      Some (''erasing block :0x'' @ ?d @ [CHR 0x0A], [])"
    unfolding f by (simp add: directive_08x e)
  then show ?thesis
  proof (rule printf_printed [OF assms])
    show "length (''erasing block :0x'' @ ?d @ [CHR 0x0A]) < CFG_PBSIZE"
      using hex_length(1) [of w] by (simp add: CFG_PBSIZE_def)
    have "nonul (hex (unat w))" by (simp add: hex_nonul)
    then show "nonul (''erasing block :0x'' @ ?d @ [CHR 0x0A])" by (auto simp: nonul_def)
  qed
qed

lemma blocks_erased_step:
  "blocks_erased (blocks_erased f bs b (Suc b)) bs (Suc b) e = blocks_erased f bs b (max (Suc b) e)"
  by (intro ext) (auto simp: blocks_erased_def)

lemma NAND_Erase_ok:
  fixes st :: "('c, 'a) nand_scheme"
  assumes e: "erases_cells engine cell (nand_current_cen st) cycles bshift" and s: "unat cycles \<le> 5"
    and row: "unat addr div 2 ^ unat (nand_page_shift st) < 256 ^ unat cycles"
    and b: "unat addr div 2 ^ unat (nand_page_shift st) div 2 ^ unat bshift = b"
  shows "\<exists>c'. NAND_Erase engine cycles addr st = Some (st\<lparr>chip := c'\<rparr>) \<and>
    cell c' = blocks_erased (cell (chip st)) bshift b (Suc b)"
proof -
  let ?row = "unat addr div 2 ^ unat (nand_page_shift st)"
  have "address_bytes 5 cycles (nand_page_shift st) [] addr = Some (row_bytes (unat cycles) ?row)"
    unfolding address_bytes_def list.size(3) diff_zero append_Nil row_bytes_eq using s by (simp add: row_bytes_def)
  moreover obtain c' where "engine (block_erase (nand_current_cen st) cycles ?row) (mem st) (chip st) = (True, mem st, c')"
    "cell c' = blocks_erased (cell (chip st)) bshift b (Suc b)"
    using e row b unfolding erases_cells_def by blast
  ultimately show ?thesis
    using start_ok [of engine "block_erase (nand_current_cen st) cycles ?row" st]
    by (intro exI [of _ c']) (simp add: NAND_Erase_def Let_def block_erase_def)
qed

lemma erase_blocks_ok:
  fixes st :: "('c, 'a) nand_scheme"
  assumes e: "erases_cells engine cell (nand_current_cen st) (nand_row_cycles st) (nand_block_shift st)"
    and s: "unat (nand_row_cycles st) \<le> 5" "\<not> devinit st"
    and lim: "Suc (unat eb) * 2 ^ erase_shift st \<le> 2 ^ 32"
      "Suc (unat eb) * 2 ^ unat (nand_block_shift st) \<le> 256 ^ unat (nand_row_cycles st)" "unat eb < 2 ^ 32 - 1"
  shows "unat sb \<le> Suc (unat eb) \<Longrightarrow>
    \<exists>c' tx'. erase_blocks engine sb eb (st\<lparr>chip := c, serial_tx := tx\<rparr>) = Some (st\<lparr>chip := c', serial_tx := tx'\<rparr>) \<and>
      cell c' = blocks_erased (cell c) (nand_block_shift st) (unat sb) (Suc (unat eb))"
proof (induction "Suc (unat eb) - unat sb" arbitrary: sb c tx)
  case 0
  then have "\<not> sb \<le> eb" "unat sb = Suc (unat eb)" by (simp_all add: word_le_nat_alt)
  moreover have "blocks_erased f (nand_block_shift st) x x = f" for f x by (intro ext) (auto simp: blocks_erased_def)
  ultimately show ?case by (subst erase_blocks.simps) (auto intro: exI [of _ c])
next
  case (Suc x)
  let ?s = "st\<lparr>chip := c, serial_tx := tx\<rparr>" and ?bs = "unat (nand_block_shift st)" and ?ps = "unat (nand_page_shift st)"
  have le: "unat sb \<le> unat eb" "sb \<le> eb" using Suc.hyps(2) by (simp_all add: word_le_nat_alt)
  have m: "Suc (unat sb) * k \<le> Suc (unat eb) * k" for k using le(1) by (intro mult_le_mono1) simp
  define a where "a = push_bit (erase_shift st) sb"
  have "unat sb * 2 ^ erase_shift st < 2 ^ 32"
  proof -
    have "unat sb * 2 ^ erase_shift st < Suc (unat sb) * 2 ^ erase_shift st" by simp
    then show ?thesis using m [of "2 ^ erase_shift st"] lim(1) by linarith
  qed
  then have ua: "unat a = unat sb * 2 ^ (?bs + ?ps)"
    using unat_of_nat_u32 [of "unat sb * 2 ^ erase_shift st"] by (simp add: a_def push_bit_eq_mult erase_shift_def)
  have row: "unat a div 2 ^ ?ps = unat sb * 2 ^ ?bs" by (simp add: ua power_add)
  have "unat sb * 2 ^ ?bs < Suc (unat sb) * 2 ^ ?bs" by simp
  then have lt: "unat a div 2 ^ ?ps < 256 ^ unat (nand_row_cycles st)"
    unfolding row using m [of "2 ^ ?bs"] lim(2) by linarith
  have sel: "nand_current_cen ?s = nand_current_cen st" "nand_page_shift ?s = nand_page_shift st" "chip ?s = c"
    "nand_row_cycles ?s = nand_row_cycles st" "erase_shift ?s = erase_shift st" by (simp_all add: erase_shift_def)
  obtain c1 where e1: "NAND_Erase engine (nand_row_cycles st) a ?s = Some (?s\<lparr>chip := c1\<rparr>)"
    and c1: "cell c1 = blocks_erased (cell c) (nand_block_shift st) (unat sb) (Suc (unat sb))"
    using NAND_Erase_ok [of engine cell ?s "nand_row_cycles st" "nand_block_shift st" a "unat sb"] e s(1) lt
    unfolding sel row by auto
  have "\<not> devinit (?s\<lparr>chip := c1\<rparr>)" using s(2) by (simp add: devinit_def)
  then obtain tx1 where pr: "printf (''erasing block :0x%08x'' @ [CHR 0x0A]) [VWord sb] (?s\<lparr>chip := c1\<rparr>) =
      Some (st\<lparr>chip := c1, serial_tx := tx1\<rparr>)"
    using say_erasing_block [of "?s\<lparr>chip := c1\<rparr>" sb] unfolding printed_def by auto
  have step: "erase_blocks engine sb eb ?s = erase_blocks engine (sb + 1) eb (st\<lparr>chip := c1, serial_tx := tx1\<rparr>)"
    by (subst erase_blocks.simps) (simp only: le(2) if_True sel a_def [symmetric] e1 bind.bind_lunit pr)
  have us: "unat (sb + 1) = Suc (unat sb)"
    using unat_small_sum [of sb 1] le(1) lim(3) by simp
  have x: "x = Suc (unat eb) - unat (sb + 1)" "unat (sb + 1) \<le> Suc (unat eb)"
    unfolding us using Suc.hyps(2) le(1) by linarith+
  obtain c2 tx2 where r: "erase_blocks engine (sb + 1) eb (st\<lparr>chip := c1, serial_tx := tx1\<rparr>) = Some (st\<lparr>chip := c2, serial_tx := tx2\<rparr>)"
    "cell c2 = blocks_erased (cell c1) (nand_block_shift st) (Suc (unat sb)) (Suc (unat eb))"
    using Suc.hyps(1) [OF x, of tx1 c1] unfolding us by blast
  have "cell c2 = blocks_erased (cell c) (nand_block_shift st) (unat sb) (Suc (unat eb))"
    unfolding r(2) c1 blocks_erased_step using le(1) by (simp add: max_def)
  then show ?case unfolding step using r(1) by auto
qed


section \<open>The commands\<close>

text \<open>The globals after the identification of a chip, and a range that the chip has.\<close>

definition nand_ready :: "('c, 'a) nand_scheme \<Rightarrow> bool" where
  "nand_ready st \<longleftrightarrow> geometry (nand_page_shift st) (nand_cycles st) \<and> unat (nand_row_cycles st) \<le> 5 \<and>
     unat (nand_cycles st) = unat (nand_row_cycles st) + cols (nand_page_shift st) \<and> erase_shift st < 32 \<and> \<not> devinit st"

definition chip_size :: "('c, 'a) nand_scheme \<Rightarrow> nat" where
  "chip_size st = 2 ^ unat (nand_page_shift st) * row_limit (nand_page_shift st) (nand_cycles st)"

definition chip_ok :: "'c engine \<Rightarrow> ('c \<Rightarrow> nat \<Rightarrow> nat \<Rightarrow> char) \<Rightarrow> ('c, 'a) nand_scheme \<Rightarrow> bool" where
  "chip_ok engine cell st \<longleftrightarrow>
     reads_cells engine cell (nand_current_cen st) (nand_cycles st) (nand_page_shift st) \<and>
     programs_cells engine cell (nand_current_cen st) (nand_cycles st) (nand_page_shift st) \<and>
     erases_cells engine cell (nand_current_cen st) (nand_row_cycles st) (nand_block_shift st)"

definition block_size :: "('c, 'a) nand_scheme \<Rightarrow> nat" where
  "block_size st = 2 ^ erase_shift st"

lemma whole_blocks:
  assumes "e < n" "B dvd n"
  shows "Suc (e div B) * B \<le> (n :: nat)"
proof -
  obtain q where q: "n = B * q" using assms(2) by (rule dvdE)
  then have "e div B < q" using assms(1) by (simp add: less_mult_imp_div_less mult.commute)
  then have "Suc (e div B) * B \<le> q * B" by (intro mult_le_mono1) simp
  then show ?thesis by (simp only: q mult.commute)
qed

lemma unat_last: "0 < unat len \<Longrightarrow> unat addr + unat len \<le> 2 ^ 32 \<Longrightarrow> unat (addr + len - 1) = unat addr + unat len - 1" for addr len :: u32
proof -
  assume a: "0 < unat len" "unat addr + unat len \<le> 2 ^ 32"
  have "addr + len - 1 = addr + of_nat (unat len - 1)" using a(1) by (simp add: of_nat_diff)
  then show ?thesis using unat_small_sum [of addr "unat len - 1"] a by (simp only:)
qed

lemma erase_command:
  assumes r: "nand_ready st" and e: "erases_cells engine cell (nand_current_cen st) (nand_row_cycles st) (nand_block_shift st)"
    and args: "length argv = 3" "strtoul_arg argv 1 = Some addr" "strtoul_arg argv 2 = Some len"
    and range: "0 < unat len" "unat addr + unat len \<le> 2 ^ 32" "unat addr + unat len \<le> chip_size st" "block_size st dvd chip_size st"
  shows "\<exists>c' tx'. Erase_flash_cmd engine argv st = Some (st\<lparr>chip := c', serial_tx := tx'\<rparr>) \<and>
    cell c' = blocks_erased (cell (chip st)) (nand_block_shift st) (unat addr div block_size st)
      (Suc ((unat addr + unat len - 1) div block_size st))"
proof -
  let ?e = "unat addr + unat len - 1" and ?B = "block_size st"
  define sb where "sb = drop_bit (erase_shift st) addr"
  define eb where "eb = drop_bit (erase_shift st) (addr + len - 1)"
  have sb: "unat sb = unat addr div ?B" by (simp only: sb_def drop_bit_unat block_size_def)
  have eb: "unat eb = ?e div ?B" by (simp only: eb_def drop_bit_unat block_size_def unat_last [OF range(1,2)])
  have s: "unat (nand_row_cycles st) \<le> 5" "\<not> devinit st" "erase_shift st < 32" "9 \<le> unat (nand_page_shift st)"
    "unat (nand_cycles st) - cols (nand_page_shift st) = unat (nand_row_cycles st)"
    using r geometry_shift(1) by (auto simp: nand_ready_def)
  have "?B dvd 2 ^ 32" unfolding block_size_def using s(3) by (intro le_imp_power_dvd) simp
  then have l1: "Suc (unat eb) * 2 ^ erase_shift st \<le> 2 ^ 32"
    using whole_blocks [of ?e "2 ^ 32" ?B] range(1,2) unfolding eb block_size_def by simp
  have "Suc (?e div ?B) * ?B \<le> chip_size st" using whole_blocks [of ?e "chip_size st" ?B] range(1,3,4) by simp
  then have "Suc (unat eb) * 2 ^ unat (nand_block_shift st) * 2 ^ unat (nand_page_shift st) \<le>
      256 ^ unat (nand_row_cycles st) * 2 ^ unat (nand_page_shift st)"
    unfolding eb by (simp only: chip_size_def row_limit_def s(5) block_size_def erase_shift_def power_add mult.assoc)
      (simp only: mult.commute)
  then have l2: "Suc (unat eb) * 2 ^ unat (nand_block_shift st) \<le> 256 ^ unat (nand_row_cycles st)" by simp
  have "2 ^ 1 \<le> ?B" unfolding block_size_def using s(4) by (intro power_increasing) (simp_all add: erase_shift_def)
  then have "?e div ?B \<le> ?e div 2" by (intro div_le_mono2) simp_all
  then have l3: "unat eb < 2 ^ 32 - 1" unfolding eb using range(2) by simp
  have le: "unat sb \<le> Suc (unat eb)" unfolding sb eb using range(1) by (intro le_SucI div_le_mono) simp
  obtain c' tx' where k: "erase_blocks engine sb eb (st\<lparr>chip := chip st, serial_tx := serial_tx st\<rparr>) = Some (st\<lparr>chip := c', serial_tx := tx'\<rparr>)"
    "cell c' = blocks_erased (cell (chip st)) (nand_block_shift st) (unat sb) (Suc (unat eb))"
    using erase_blocks_ok [OF e s(1,2) l1 l2 l3 le, of "serial_tx st" "chip st"] by blast
  have "Erase_flash_cmd engine argv st = erase_blocks engine sb eb (st\<lparr>chip := chip st, serial_tx := serial_tx st\<rparr>)"
    unfolding Erase_flash_cmd_def using args by (simp add: sb_def eb_def)
  then show ?thesis using k unfolding sb eb by auto
qed

lemma word_aligned: "unat addr mod 4 = 0 \<Longrightarrow> addr AND 0xfffffffc = addr" for addr :: u32
proof -
  assume a: "unat addr mod 4 = 0"
  have "unat (take_bit 2 addr) = 0" unfolding unat_take_bit using a by simp
  then have z: "take_bit 2 addr = 0" by (simp only: unat_eq_zero)
  have "addr AND NOT (mask 2) = addr"
  proof (rule bit_word_eqI)
    fix n assume n: "n < LENGTH(32)"
    have "\<not> bit (take_bit 2 addr) n" unfolding z by simp
    then show "bit (addr AND NOT (mask 2)) n = bit addr n" using n by (auto simp: bit_simps)
  qed
  moreover have "NOT (mask 2) = (0xfffffffc :: u32)" by (simp add: mask_eq_exp_minus_1)
  ultimately show ?thesis by simp
qed

lemma write_command:
  assumes r: "nand_ready st" and w: "programs_cells engine cell (nand_current_cen st) (nand_cycles st) (nand_page_shift st)"
    and args: "length argv = 4" "strtoul_arg argv 1 = Some src" "strtoul_arg argv 2 = Some addr" "strtoul_arg argv 3 = Some len"
    and range: "unat addr mod 4 = 0" "0 < unat len" "unat addr + unat len < 2 ^ 32" "unat addr + unat len \<le> chip_size st"
      "nand_page_shift st = 9 \<longrightarrow> unat addr mod 512 < 256"
    and er: "nand_bytes (cell (chip st)) (nand_page_shift st) (unat addr) (4 * (unat len div 4)) = replicate (4 * (unat len div 4)) (CHR 0xFF)"
  shows "\<exists>c' tx'. Mem2Nand_command engine argv st = Some (st\<lparr>chip := c', serial_tx := tx'\<rparr>) \<and>
    cell c' = nand_put (cell (chip st)) (nand_page_shift st) (unat addr) (mem_bytes (mem st) src (4 * (unat len div 4)))"
proof -
  have g: "geometry (nand_page_shift st) (nand_cycles st)" "\<not> devinit st" using r by (simp_all add: nand_ready_def)
  have lim: "unat addr + unat len \<le> 2 ^ unat (nand_page_shift st) * row_limit (nand_page_shift st) (nand_cycles st)"
    using range(4) by (simp add: chip_size_def)
  obtain c' where k: "Nand_Write_AS3310 engine (nand_page_shift st) addr src len (st\<lparr>chip := chip st\<rparr>) = Some (st\<lparr>chip := c'\<rparr>)"
    "cell c' = nand_put (cell (chip st)) (nand_page_shift st) (unat addr) (mem_bytes (mem st) src (4 * (unat len div 4)))"
    using Nand_Write_ok [OF g(1) w range(1-3) lim range(5) refl er, of src] by blast
  have "\<not> devinit (st\<lparr>chip := c'\<rparr>)" using g(2) by (simp add: devinit_def)
  from printf_printed [OF this, of "''Flash_Copy_DONE!'' @ [CHR 0x0A]" "[]" "''Flash_Copy_DONE!'' @ [CHR 0x0A]" "[]"]
  obtain tx' where "printf (''Flash_Copy_DONE!'' @ [CHR 0x0A]) [] (st\<lparr>chip := c'\<rparr>) = Some (st\<lparr>chip := c', serial_tx := tx'\<rparr>)"
    by (auto simp: printed_def cstr_def CFG_PBSIZE_def)
  then have "Mem2Nand_command engine argv st = Some (st\<lparr>chip := c', serial_tx := tx'\<rparr>)"
    unfolding Mem2Nand_command_def using args k(1) word_aligned [OF range(1)] by simp
  then show ?thesis using k(2) by blast
qed

lemma read_command:
  assumes r: "nand_ready st" and w: "reads_cells engine cell (nand_current_cen st) (nand_cycles st) (nand_page_shift st)"
    and args: "length argv = 4" "strtoul_arg argv 1 = Some addr" "strtoul_arg argv 2 = Some len" "strtoul_arg argv 3 = Some target"
    and range: "unat addr mod 4 = 0" "0 < unat len" "unat addr + unat len < 2 ^ 32" "unat addr + unat len \<le> chip_size st"
  shows "Read_flash_cmd engine frame argv st = Some (st\<lparr>mem := overlay (mem st) target
    (nand_bytes (cell (chip st)) (nand_page_shift st) (unat addr) (4 * (unat len div 4)))\<rparr>)"
proof -
  have g: "geometry (nand_page_shift st) (nand_cycles st)" using r by (simp add: nand_ready_def)
  have lim: "unat addr + unat len \<le> 2 ^ unat (nand_page_shift st) * row_limit (nand_page_shift st) (nand_cycles st)"
    using range(4) by (simp add: chip_size_def)
  show ?thesis
    using Nand_Read_ok [OF g w range(1-3) lim, of target "mem st"] args by (simp add: Read_flash_cmd_def)
qed

lemma erased_range:
  assumes "unat addr div block_size st = b" "(unat addr + l - 1) div block_size st = e" "n \<le> l"
  shows "nand_bytes (blocks_erased f (nand_block_shift st) b (Suc e)) (nand_page_shift st) (unat addr) n = replicate n (CHR 0xFF)"
proof (rule nth_equalityI)
  fix i assume "i < length (nand_bytes (blocks_erased f (nand_block_shift st) b (Suc e)) (nand_page_shift st) (unat addr) n)"
  then have i: "i < n" by (simp add: nand_bytes_def)
  let ?i = "unat addr + i"
  have d: "?i div 2 ^ unat (nand_page_shift st) div 2 ^ unat (nand_block_shift st) = ?i div block_size st"
    by (simp only: block_size_def erase_shift_def add.commute [of "unat (nand_block_shift st)"] power_add div_mult2_eq)
  have "b \<le> ?i div block_size st" unfolding assms(1) [symmetric] by (rule div_le_mono) simp
  moreover have "?i div block_size st \<le> e" unfolding assms(2) [symmetric] by (rule div_le_mono) (use i assms(3) in simp)
  ultimately show "nand_bytes (blocks_erased f (nand_block_shift st) b (Suc e)) (nand_page_shift st) (unat addr) n ! i =
      replicate n (CHR 0xFF) ! i"
    using i unfolding nand_bytes_nth [OF i] blocks_erased_def d by simp
qed (simp add: nand_bytes_def)

lemma erase_write_read_ok:
  assumes r: "nand_ready st" and ok: "chip_ok engine cell st"
    and e: "length argve = 3" "strtoul_arg argve 1 = Some addr" "strtoul_arg argve 2 = Some len"
    and w: "length argvw = 4" "strtoul_arg argvw 1 = Some src" "strtoul_arg argvw 2 = Some addr" "strtoul_arg argvw 3 = Some len"
    and d: "length argvr = 4" "strtoul_arg argvr 1 = Some addr" "strtoul_arg argvr 2 = Some len" "strtoul_arg argvr 3 = Some target"
    and range: "unat addr mod 4 = 0" "0 < unat len" "unat addr + unat len < 2 ^ 32" "unat addr + unat len \<le> chip_size st"
      "nand_page_shift st = 9 \<longrightarrow> unat addr mod 512 < 256" "block_size st dvd chip_size st"
  shows "\<exists>st1 st2 st3. Erase_flash_cmd engine argve st = Some st1 \<and> Mem2Nand_command engine argvw st1 = Some st2 \<and>
    Read_flash_cmd engine frame argvr st2 = Some st3 \<and>
    mem st3 = overlay (mem st) target (mem_bytes (mem st) src (4 * (unat len div 4)))"
proof -
  let ?n = "4 * (unat len div 4)"
  have laws: "reads_cells engine cell (nand_current_cen st) (nand_cycles st) (nand_page_shift st)"
    "programs_cells engine cell (nand_current_cen st) (nand_cycles st) (nand_page_shift st)"
    "erases_cells engine cell (nand_current_cen st) (nand_row_cycles st) (nand_block_shift st)"
    using ok by (simp_all add: chip_ok_def)
  have r32: "unat addr + unat len \<le> 2 ^ 32" using range(3) by simp
  obtain c1 tx1 where 1: "Erase_flash_cmd engine argve st = Some (st\<lparr>chip := c1, serial_tx := tx1\<rparr>)"
    "cell c1 = blocks_erased (cell (chip st)) (nand_block_shift st) (unat addr div block_size st)
      (Suc ((unat addr + unat len - 1) div block_size st))"
    using erase_command [OF r laws(3) e range(2) r32 range(4,6)] by blast
  define st1 where "st1 = st\<lparr>chip := c1, serial_tx := tx1\<rparr>"
  have same: "nand_page_shift st1 = nand_page_shift st" "nand_cycles st1 = nand_cycles st" "nand_current_cen st1 = nand_current_cen st"
    "nand_block_shift st1 = nand_block_shift st" "nand_row_cycles st1 = nand_row_cycles st" "mem st1 = mem st" "chip st1 = c1"
    "devinit st1 = devinit st" by (simp_all add: st1_def devinit_def)
  have k1: "nand_ready st1" "chip_size st1 = chip_size st"
    using r by (simp_all add: nand_ready_def chip_size_def erase_shift_def same)
  have "nand_bytes (cell c1) (nand_page_shift st) (unat addr) ?n = replicate ?n (CHR 0xFF)"
    unfolding 1(2) by (rule erased_range [OF refl refl]) simp
  then obtain c2 tx2 where 2: "Mem2Nand_command engine argvw st1 = Some (st1\<lparr>chip := c2, serial_tx := tx2\<rparr>)"
    "cell c2 = nand_put (cell c1) (nand_page_shift st) (unat addr) (mem_bytes (mem st) src ?n)"
    using write_command [OF k1(1) _ w range(1-3), of engine cell] laws(2) range(4,5) unfolding same k1(2) by blast
  define st2 where "st2 = st1\<lparr>chip := c2, serial_tx := tx2\<rparr>"
  have same2: "nand_page_shift st2 = nand_page_shift st" "nand_cycles st2 = nand_cycles st" "nand_current_cen st2 = nand_current_cen st"
    "nand_block_shift st2 = nand_block_shift st" "nand_row_cycles st2 = nand_row_cycles st" "mem st2 = mem st" "chip st2 = c2"
    "devinit st2 = devinit st" by (simp_all add: st2_def st1_def devinit_def)
  have k2: "nand_ready st2" "chip_size st2 = chip_size st"
    using r by (simp_all add: nand_ready_def chip_size_def erase_shift_def same2)
  have "length (mem_bytes (mem st) src ?n) = ?n" by (simp add: mem_bytes_def)
  then have "nand_bytes (cell c2) (nand_page_shift st) (unat addr) ?n = mem_bytes (mem st) src ?n"
    unfolding 2(2) using nand_bytes_put by metis
  then have "Read_flash_cmd engine frame argvr st2 = Some (st2\<lparr>mem := overlay (mem st) target (mem_bytes (mem st) src ?n)\<rparr>)"
    using read_command [OF k2(1) _ d range(1-3), of engine cell frame] laws(1) range(4) unfolding same2 k2(2) by simp
  then show ?thesis using 1(1) 2(1) unfolding st1_def [symmetric] st2_def [symmetric] by auto
qed


section \<open>Addresses that are not aligned\<close>

text \<open>When less than a word is left in a page, the loops make no progress.\<close>

lemma read_stuck:
  assumes "words_left (if shift = 9 then 8 else shift) addr = 0" "0 < left"
  shows "Nand_Read_AS3310 engine shift addr buffer left st = None"
proof (rule ccontr)
  assume "Nand_Read_AS3310 engine shift addr buffer left st \<noteq> None"
  then obtain r where "Nand_Read_AS3310 engine shift addr buffer left st = Some r" by blast
  then have "words_left (if shift = 9 then 8 else shift) addr = 0 \<longrightarrow> 0 < left \<longrightarrow> False"
  proof (rule Nand_Read_AS3310.raw_induct [rotated])
    fix rec and engine :: "'c engine" and shift addr buffer left and st r :: "('c, 'd) nand_scheme"
    assume ih: "\<And>engine shift addr buffer left st r. rec engine shift addr buffer left st = Some r \<Longrightarrow>
        words_left (if shift = 9 then 8 else shift) addr = 0 \<longrightarrow> 0 < left \<longrightarrow> False"
      and step: "(do { debug \<leftarrow> address_bytes 8 (nand_cycles st) shift (col_bytes shift addr) addr;
          let n = words_left (if shift = 9 then 8 else shift) addr;
          let endread = left \<le> push_bit 2 n;
          let n = (if endread then drop_bit 2 left else n);
          st \<leftarrow> start_nand_dma_routine engine
            (read_program (nand_current_cen st) (nand_cycles st) shift (read_cmd shift addr) debug buffer n) st;
          if endread then Some st
          else rec engine shift (addr + push_bit 2 n) (buffer + push_bit 2 n) (left - push_bit 2 n) st }) = Some r"
    show "words_left (if shift = 9 then 8 else shift) addr = 0 \<longrightarrow> 0 < left \<longrightarrow> False"
    proof (intro impI)
      assume w: "words_left (if shift = 9 then 8 else shift) addr = 0" and l: "0 < left"
      have "\<not> left \<le> 0" using l by simp
      then show False using step ih [of engine shift addr buffer left] w l
        by (auto simp: w Let_def bind_eq_Some_conv)
    qed
  qed
  then show False using assms by blast
qed


lemma write_stuck:
  assumes "words_left shift addr = 0" "0 < left"
  shows "Nand_Write_AS3310 engine shift addr buffer left st = None"
proof (rule ccontr)
  assume "Nand_Write_AS3310 engine shift addr buffer left st \<noteq> None"
  then obtain r where "Nand_Write_AS3310 engine shift addr buffer left st = Some r" by blast
  then have "words_left shift addr = 0 \<longrightarrow> 0 < left \<longrightarrow> False"
  proof (rule Nand_Write_AS3310.raw_induct [rotated])
    fix rec and engine :: "'c engine" and shift addr buffer left and st r :: "('c, 'd) nand_scheme"
    assume ih: "\<And>engine shift addr buffer left st r. rec engine shift addr buffer left st = Some r \<Longrightarrow>
        words_left shift addr = 0 \<longrightarrow> 0 < left \<longrightarrow> False"
      and step: "(do { debug \<leftarrow> address_bytes 8 (nand_cycles st) shift (col_bytes shift addr) addr;
          let n = words_left shift addr;
          let endwrite = left \<le> push_bit 2 n;
          let n = (if endwrite then drop_bit 2 left else n);
          st \<leftarrow> start_nand_dma_routine engine (write_program (nand_current_cen st) (nand_cycles st) debug buffer n) st;
          if endwrite then Some st
          else rec engine shift (addr + push_bit 2 n) (buffer + push_bit 2 n) (left - push_bit 2 n) st }) = Some r"
    show "words_left shift addr = 0 \<longrightarrow> 0 < left \<longrightarrow> False"
    proof (intro impI)
      assume w: "words_left shift addr = 0" and l: "0 < left"
      have "\<not> left \<le> 0" using l by simp
      then show False using step ih [of engine shift addr buffer left] w l
        by (auto simp: w Let_def bind_eq_Some_conv)
    qed
  qed
  then show False using assms by blast
qed

text \<open>From an address that is not a multiple of four, the loops come to such a place.\<close>

lemma unaligned_next:
  assumes "unat s \<le> 16" "2 \<le> unat s" "unat addr mod 4 \<noteq> 0" "2 ^ unat s < unat addr mod 2 ^ unat s + unat left"
  shows "\<not> left \<le> push_bit 2 (words_left s addr)" "words_left s (addr + push_bit 2 (words_left s addr)) = 0"
    "0 < left - push_bit 2 (words_left s addr)"
proof -
  define p where "p = (2 :: nat) ^ unat s"
  define k where "k = p - unat addr mod p"
  have lt: "unat addr mod p < p" by (simp add: p_def)
  have "p \<le> 2 ^ 16" unfolding p_def by (rule power_increasing [OF assms(1)]) simp
  then have k: "k \<le> 65536" "0 < k" "unat addr mod p + k = p" using lt by (simp_all add: k_def)
  have n: "unat (words_left s addr) = k div 4"
    using words_left_eq [of s addr] assms(1) by (simp add: k_def p_def)
  have d4: "4 dvd p" unfolding p_def using le_imp_power_dvd [OF assms(2), of "2 :: nat"] by simp
  then have "unat addr mod p mod 4 = unat addr mod 4" by (simp add: mod_mod_cancel)
  moreover have "(unat addr mod p + k) mod 4 = 0" using k(3) d4 by simp
  moreover have "(unat addr mod p + k) mod 4 = (unat addr mod p mod 4 + k mod 4) mod 4" by (rule mod_add_eq [symmetric])
  ultimately have k4: "k mod 4 \<noteq> 0" using assms(3) by (intro notI) simp
  have m: "4 * (k div 4) < k" "4 * (k div 4) < 2 ^ 32" "k - 4 * (k div 4) < 4"
  proof -
    define a b where "a = k div 4" and "b = k mod 4"
    have "k = 4 * a + b" "b < 4" "b \<noteq> 0" using k4 by (simp_all add: a_def b_def)
    then have "4 * a < k" "4 * a < 2 ^ 32" "k - 4 * a < 4" using k(1) by simp_all
    then show "4 * (k div 4) < k" "4 * (k div 4) < 2 ^ 32" "k - 4 * (k div 4) < 4" by (simp_all only: a_def)
  qed
  have q: "push_bit 2 (words_left s addr) = of_nat (4 * (k div 4))" unfolding push_2 n ..
  have uq: "unat (push_bit 2 (words_left s addr)) = 4 * (k div 4)" unfolding q by (rule unat_of_nat_u32 [OF m(2)])
  have l: "k < unat left" using assms(4) k(3) unfolding p_def [symmetric] by linarith
  then show "\<not> left \<le> push_bit 2 (words_left s addr)" using m(1) by (simp only: word_le_nat_alt uq)
  then have "unat (left - push_bit 2 (words_left s addr)) = unat left - 4 * (k div 4)" by (simp add: unat_sub uq)
  then show "0 < left - push_bit 2 (words_left s addr)" using l m(1) by (simp add: word_less_nat_alt)
  have "p dvd 2 ^ 32" unfolding p_def using assms(1) by (intro le_imp_power_dvd) simp
  then have "unat (addr + push_bit 2 (words_left s addr)) mod p = (unat addr + 4 * (k div 4)) mod p"
    by (simp only: unat_word_ariths(1) uq) (simp add: mod_mod_cancel)
  also have "\<dots> = (unat addr mod p + 4 * (k div 4)) mod p" by (rule mod_add_left_eq [symmetric])
  also have "\<dots> = unat addr mod p + 4 * (k div 4)" using m(1) k(3) by (intro mod_less) linarith
  finally have e: "unat (addr + push_bit 2 (words_left s addr)) mod p = unat addr mod p + 4 * (k div 4)" .
  have "unat (words_left s (addr + push_bit 2 (words_left s addr))) = (p - (unat addr mod p + 4 * (k div 4))) div 4"
    using words_left_eq [of s "addr + push_bit 2 (words_left s addr)"] assms(1) e by (simp only: p_def)
  also have "p - (unat addr mod p + 4 * (k div 4)) = k - 4 * (k div 4)" unfolding k_def by simp
  also have "(k - 4 * (k div 4)) div 4 = 0" using m(3) by simp
  finally show "words_left s (addr + push_bit 2 (words_left s addr)) = 0" by (simp only: unat_eq_zero)
qed

lemma unaligned_hangs:
  assumes "2 \<le> unat shift" "unat shift \<le> 16" "unat addr mod 4 \<noteq> 0" "2 ^ unat shift < unat addr mod 2 ^ unat shift + unat left"
  shows "Nand_Write_AS3310 engine shift addr buffer left st = None"
    "Nand_Read_AS3310 engine shift addr buffer left st = None"
proof -
  note u = unaligned_next [OF assms(2,1,3,4)]
  note stuck = write_stuck [OF u(2,3)]
  show "Nand_Write_AS3310 engine shift addr buffer left st = None"
    by (subst Nand_Write_AS3310.simps) (simp add: u(1) stuck Let_def del: not_le split: bind_splits)
  let ?h = "if shift = 9 then 8 else shift :: u8"
  have h: "unat ?h \<le> 16" "2 \<le> unat ?h" "2 ^ unat ?h < unat addr mod 2 ^ unat ?h + unat left"
  proof -
    have "unat addr mod (256 * 2) = 256 * (unat addr div 256 mod 2) + unat addr mod 256" by (rule mod_mult2_eq)
    then have "unat addr mod 512 \<le> unat addr mod 256 + 256" by simp
    then show "2 ^ unat ?h < unat addr mod 2 ^ unat ?h + unat left" using assms(4) by auto
  qed (use assms(1,2) in auto)
  note v = unaligned_next [OF h(1,2) assms(3) h(3)]
  note stuck = read_stuck [OF v(2,3)]
  show "Nand_Read_AS3310 engine shift addr buffer left st = None"
    by (subst Nand_Read_AS3310.simps) (simp add: v(1) stuck Let_def del: not_le split: bind_splits)
qed

end
