(* ===== verification/Nand_Ident.thy ===== *)
theory Nand_Ident
  imports Nand_Props Cli_Props
begin

unbundle bit_operations_syntax

text \<open>
  What identifying a NAND chip (\<open>NandSearch\<close>, \<open>NAND_init\<close> of \<open>Nand\<close>) leaves behind: a geometry that the driver can
  address, and what it is for the chips of the table.
\<close>

section \<open>Identifying the chip\<close>

text \<open>Before the devices are there, printing changes only what has been sent.\<close>

lemma serial_puts_only: "serial_puts s st = Some st' \<Longrightarrow> printed st st'"
proof (induction s arbitrary: st)
  case (Cons c s)
  show ?case
  proof (cases "c = NUL")
    case True
    then have "st' = st\<lparr>serial_tx := serial_tx st\<rparr>" using Cons.prems by simp
    then show ?thesis unfolding printed_def by blast
  next
    case False
    then show ?thesis using Cons.IH [of "serial_putc c st"] Cons.prems by (auto simp: printed_def serial_putc_def)
  qed
qed simp

lemma puts_only: "puts s st = Some st' \<Longrightarrow> \<not> devinit st \<Longrightarrow> printed st st'"
  by (simp add: puts_def serial_puts_only)

lemma printf_only: "printf fmt args st = Some st' \<Longrightarrow> \<not> devinit st \<Longrightarrow> printed st st'"
  by (auto simp: printf_def bind_eq_Some_conv puts_only)

text \<open>What an identification can leave behind: the geometry of a chip that the driver can address.\<close>

definition info_ok :: "nand_info \<Rightarrow> bool" where
  "info_ok i \<longleftrightarrow> row_cycles i \<in> {2, 3} \<and>
     (page_shift i = 9 \<and> col_cycles i = 1 \<or> page_shift i \<in> {10, 11, 12, 13} \<and> col_cycles i = 2) \<and>
     block_shift i \<in> {2, 3, 4, 5, 6, 7, 8, 9}"

definition globals_ok :: "('c, 'a) nand_scheme \<Rightarrow> bool" where
  "globals_ok st \<longleftrightarrow> (\<exists>i. info_ok i \<and> nand_cycles st = ucast (row_cycles i + col_cycles i) \<and>
     nand_page_shift st = ucast (page_shift i) \<and> nand_row_cycles st = ucast (row_cycles i) \<and>
     nand_block_shift st = ucast (block_shift i))"

lemma globals_ready:
  assumes "globals_ok st" "\<not> devinit st"
  shows "nand_ready st"
proof -
  obtain i where i: "info_ok i" "nand_cycles st = ucast (row_cycles i + col_cycles i)" "nand_page_shift st = ucast (page_shift i)"
    "nand_row_cycles st = ucast (row_cycles i)" "nand_block_shift st = ucast (block_shift i)"
    using assms(1) unfolding globals_ok_def by blast
  have b: "unat (nand_block_shift st) \<le> 9" using i(1) unfolding i(5) info_ok_def by auto
  consider "page_shift i = 9 \<and> col_cycles i = 1" | "page_shift i \<in> {10, 11, 12, 13} \<and> col_cycles i = 2"
    using i(1) unfolding info_ok_def by blast
  moreover have "row_cycles i = 2 \<or> row_cycles i = 3" using i(1) by (simp add: info_ok_def)
  ultimately have "geometry (nand_page_shift st) (nand_cycles st) \<and> unat (nand_row_cycles st) \<le> 5 \<and>
      unat (nand_cycles st) = unat (nand_row_cycles st) + cols (nand_page_shift st) \<and> unat (nand_page_shift st) \<le> 13"
    unfolding i(2-4) by cases (auto simp: geometry_def cols_def)
  then show ?thesis using b assms(2) by (simp add: nand_ready_def erase_shift_def)
qed

lemma printed_keeps: "printed st st' \<Longrightarrow> globals_ok st' = globals_ok st" "printed st st' \<Longrightarrow> nand_info_s st' = nand_info_s st"
  "printed st st' \<Longrightarrow> mem st' = mem st"
  by (auto simp: printed_def globals_ok_def)

lemma found_nand_ok:
  assumes "found_nand st = Some (r, st')" "\<not> devinit st" "info_ok (nand_info_s st)"
  shows "globals_ok st' \<and> \<not> devinit st' \<and> r = 0"
proof -
  define good where "good = (\<lambda>st :: ('a, 'b) nand_scheme. globals_ok st \<and> \<not> devinit st)"
  have p: "good s1" if "printf f a s = Some s1" "good s" for f a s s1
    using that printf_only [of f a s s1] printed_keeps(1) [of s s1] printed_devinit [of s s1] by (simp add: good_def)
  have q: "good s1" if "puts f s = Some s1" "good s" for f s s1
    using that puts_only [of f s s1] printed_keeps(1) [of s s1] printed_devinit [of s s1] by (simp add: good_def)
  let ?i = "nand_info_s st"
  let ?s = "st\<lparr>nand_cycles := ucast (row_cycles ?i + col_cycles ?i), nand_page_shift := ucast (page_shift ?i),
    nand_row_cycles := ucast (row_cycles ?i), nand_col_cycles := ucast (col_cycles ?i), nand_block_shift := ucast (block_shift ?i)\<rparr>"
  have "good ?s" using assms(2,3) by (auto simp: good_def globals_ok_def devinit_def)
  then have "good st' \<and> r = 0"
    using assms(1) unfolding found_nand_def Let_def bind_eq_Some_conv by (blast dest: p q)
  then show ?thesis by (simp add: good_def)
qed

text \<open>The table of chips.\<close>

lemma table_params:
  "list_all (\<lambda>p. NfType p = 0xff \<or>
     NfType p \<in> {0, 2, 3} \<and> ExtAddr p \<in> {0, 1} \<and> ShiftBlockPage p \<in> {2, 3, 4, 5, 6, 7, 8, 9})
    (ParaTable rom_nand_table @ MLCParaTable rom_nand_table)"
  by code_simp

lemma table_param_ok:
  assumes "load t k = Some p" "t = MLCParaTable rom_nand_table \<or> t = ParaTable rom_nand_table" "NfType p \<noteq> 0xff"
  shows "NfType p \<in> {0, 2, 3}" "ExtAddr p \<in> {0, 1}" "ShiftBlockPage p \<in> {2, 3, 4, 5, 6, 7, 8, 9}"
proof -
  have "p \<in> set t" using assms(1) by (auto simp: load_eq_Some_iff)
  then have "p \<in> set (ParaTable rom_nand_table @ MLCParaTable rom_nand_table)" using assms(2) by auto
  then have "NfType p = 0xff \<or> NfType p \<in> {0, 2, 3} \<and> ExtAddr p \<in> {0, 1} \<and> ShiftBlockPage p \<in> {2, 3, 4, 5, 6, 7, 8, 9}"
    using table_params unfolding list_all_iff by blast
  then show "NfType p \<in> {0, 2, 3}" "ExtAddr p \<in> {0, 1}" "ShiftBlockPage p \<in> {2, 3, 4, 5, 6, 7, 8, 9}"
    using assms(3) by blast+
qed

lemma start_keeps: "start_nand_dma_routine engine pkgs st = Some st' \<Longrightarrow> \<not> devinit st \<Longrightarrow> \<not> devinit st'"
proof -
  assume s: "start_nand_dma_routine engine pkgs st = Some st'" "\<not> devinit st"
  obtain d m c where e: "engine pkgs (mem st) (chip st) = (d, m, c)" by (metis prod_cases3)
  have n: "\<not> devinit (st\<lparr>mem := m, chip := c\<rparr>)" using s(2) by (simp add: devinit_def)
  show "\<not> devinit st'"
  proof (cases d)
    case False
    then have "puts (cstr (''DMA No Ready'' @ [CHR 0x0A])) (st\<lparr>mem := m, chip := c\<rparr>) = Some st'"
      using s(1) e by (simp add: start_nand_dma_routine_def)
    then show ?thesis using puts_only n printed_devinit by blast
  qed (use s(1) e n in \<open>simp add: start_nand_dma_routine_def\<close>)
qed

lemma search_chip_ok:
  assumes "search_chip b info = Some (r, info')" "0 \<le> r"
  shows "info_ok info'"
proof -
  obtain k p i t where p: "load t k = Some p" "NfType p \<noteq> 0xff" and t: "t = MLCParaTable rom_nand_table \<or> t = ParaTable rom_nand_table"
    and i: "info' = chip_geometry p (i\<lparr>block_shift := ucast (ShiftBlockPage p)\<rparr>)"
    using assms unfolding search_chip_def Let_def by (auto simp: bind_eq_Some_conv split: if_splits)
  note q = table_param_ok [OF p(1) t p(2)]
  have r: "row_cycles info' = ucast (ExtAddr p) + 2" "block_shift info' = ucast (ShiftBlockPage p)"
    by (simp_all add: i chip_geometry_def Let_def)
  have "row_cycles info' \<in> {2, 3}" "block_shift info' \<in> {2, 3, 4, 5, 6, 7, 8, 9}" unfolding r using q(2,3) by auto
  moreover have "page_shift info' = 9 \<and> col_cycles info' = 1 \<or> page_shift info' \<in> {10, 11, 12, 13} \<and> col_cycles info' = 2"
    using q(1) by (auto simp: i chip_geometry_def)
  ultimately show ?thesis by (simp add: info_ok_def)
qed

lemma NandSearch_steps:
  assumes "NandSearch engine ids ids2 st = Some (r, st')"
  obtains s1 s2 x info where "Nand_Read_ID engine ids 4 0x90 st = Some s1"
    "printf ('' nand dev_id = 0x%x%x%x%x'' @ [CHR 0x0A]) [VWord (ucast (u8_at (mem s1) (ids + 3))),
       VWord (ucast (u8_at (mem s1) (ids + 2))), VWord (ucast (u8_at (mem s1) (ids + 1))), VWord (ucast (u8_at (mem s1) ids))] s1 = Some s2"
    "rd_le32 (mem_bytes (mem s2) ids2 4) = Some x"
    "search_chip (u8_at (mem s2) ids2) ((nand_info_s s2)\<lparr>maker_code := u8_at (mem s1) ids, dev_id := u8_at (mem s1) (ids + 1),
       extra_1 := u8_at (mem s1) (ids + 2), extra_2 := u8_at (mem s1) (ids + 3), extra_3 := x\<rparr>) = Some (r, info)"
    "st' = s2\<lparr>nand_info_s := info\<rparr>"
  using assms unfolding NandSearch_def Let_def bind_eq_Some_conv by (elim exE conjE) (auto split: prod.splits)

lemma NandSearch_ok:
  assumes "NandSearch engine ids ids2 st = Some (r, st')" "\<not> devinit st"
  shows "\<not> devinit st' \<and> (0 \<le> r \<longrightarrow> info_ok (nand_info_s st'))"
proof -
  obtain s1 s2 x info where s: "Nand_Read_ID engine ids 4 0x90 st = Some s1"
    "printf ('' nand dev_id = 0x%x%x%x%x'' @ [CHR 0x0A]) [VWord (ucast (u8_at (mem s1) (ids + 3))),
       VWord (ucast (u8_at (mem s1) (ids + 2))), VWord (ucast (u8_at (mem s1) (ids + 1))), VWord (ucast (u8_at (mem s1) ids))] s1 = Some s2"
    "search_chip (u8_at (mem s2) ids2) ((nand_info_s s2)\<lparr>maker_code := u8_at (mem s1) ids, dev_id := u8_at (mem s1) (ids + 1),
       extra_1 := u8_at (mem s1) (ids + 2), extra_2 := u8_at (mem s1) (ids + 3), extra_3 := x\<rparr>) = Some (r, info)"
    "st' = s2\<lparr>nand_info_s := info\<rparr>"
    by (rule NandSearch_steps [OF assms(1)])
  have "\<not> devinit s1" using s(1) start_keeps assms(2) unfolding Nand_Read_ID_def Let_def by blast
  then have "\<not> devinit s2" using s(2) printf_only printed_devinit by blast
  then show ?thesis using s(4) search_chip_ok [OF s(3)] by (simp add: devinit_def)
qed


lemma general_chip_ok:
  "info_ok (i\<lparr>row_cycles := 3, col_cycles := 2, page_shift := PageSize b + 10, block_shift := 6 + BlockSize b - PageSize b\<rparr>)"
proof -
  have two: "ucast (x AND 3) \<in> {0, 1, 2, 3 :: u32}" for x :: u8
  proof -
    have "x AND 3 = take_bit 2 x" by (simp add: take_bit_eq_mask mask_eq_exp_minus_1)
    then have "unat (x AND 3) < 4" unfolding \<open>x AND 3 = take_bit 2 x\<close> unsigned_take_bit_eq by (simp add: take_bit_eq_mod)
    then have "x AND 3 = 0 \<or> x AND 3 = 1 \<or> x AND 3 = 2 \<or> x AND 3 = 3" unfolding word_unat_eq_iff by simp linarith
    then show ?thesis by auto
  qed
  have "PageSize b \<in> {0, 1, 2, 3}" "BlockSize b \<in> {0, 1, 2, 3}" unfolding PageSize_def BlockSize_def by (rule two)+
  then show ?thesis by (auto simp: info_ok_def)
qed

lemma NAND_init_ok:
  assumes "NAND_init engine ids ids2 st = Some (0, st')" "\<not> devinit st"
  shows "nand_ready st'"
proof -
  let ?s = "select_nand_cen CONFIG_NAND_CEN st"
  have d0: "\<not> devinit ?s" using assms(2) by (simp add: select_nand_cen_def devinit_def)
  obtain r s1 where s1: "NandSearch engine ids ids2 ?s = Some (r, s1)"
    using assms(1) unfolding NAND_init_def by (cases "NandSearch engine ids ids2 ?s") auto
  note k = NandSearch_ok [OF s1 d0]
  have "\<exists>s2. found_nand s2 = Some (0, st') \<and> \<not> devinit s2 \<and> info_ok (nand_info_s s2)"
  proof (cases "0 \<le> r")
    case True
    then have "found_nand s1 = Some (0, st')" using assms(1) s1 by (simp add: NAND_init_def)
    then show ?thesis using k True by blast
  next
    case False
    let ?i = "nand_info_s s1"
    let ?s2 = "s1\<lparr>nand_info_s := ?i\<lparr>row_cycles := 3, col_cycles := 2, page_shift := PageSize (extra_2 ?i) + 10,
      block_shift := 6 + BlockSize (extra_2 ?i) - PageSize (extra_2 ?i)\<rparr>\<rparr>"
    have "found_nand ?s2 = Some (0, st')"
      using assms(1) s1 False by (auto simp: NAND_init_def Let_def bind_eq_Some_conv split: if_splits)
    moreover have "\<not> devinit ?s2" using k by (simp add: devinit_def)
    moreover have "info_ok (nand_info_s ?s2)" using general_chip_ok by simp
    ultimately show ?thesis by blast
  qed
  then show ?thesis using found_nand_ok globals_ready by blast
qed

text \<open>
  The search reads the array \<open>dev_id2\<close> that nothing has written: the same chip has two geometries.
\<close>

lemma table_index_nth:
  "list_all (\<lambda>k. table_index (DevidTable rom_nand_table) (max_devid rom_nand_table) (DevidTable rom_nand_table ! k) = k) [0..<13]"
  by code_simp

lemma search_known:
  assumes "k < 13" "dev_id info = DevidTable rom_nand_table ! k"
    "p = (if b \<in> {0x24, 0x25, 0x64, 0x65} then MLCParaTable rom_nand_table else ParaTable rom_nand_table) ! k" "NfType p \<noteq> 0xff"
  shows "search_chip b info = Some (0, chip_geometry p (info\<lparr>block_shift := ucast (ShiftBlockPage p)\<rparr>))"
proof -
  have k: "table_index (DevidTable rom_nand_table) (max_devid rom_nand_table) (dev_id info) = k"
    using list_all_upt [OF table_index_nth assms(1)] assms(2) by simp
  have mx: "max_devid rom_nand_table = 13" "max_mlc rom_nand_table = 4" by (simp_all add: rom_nand_table_def)
  have mlc: "table_index (MLCTable rom_nand_table) 4 b < 4 \<longleftrightarrow> b \<in> {0x24, 0x25, 0x64, 0x65}"
    by (auto simp: table_index_def rom_nand_table_def)
  have len: "length (ParaTable rom_nand_table) = 24" "length (MLCParaTable rom_nand_table) = 24" by (simp_all add: rom_nand_table_def)
  show ?thesis
    unfolding search_chip_def Let_def k using assms(1,3,4) len unfolding mx mlc by (simp add: load_def)
qed


definition id_read :: "u32 \<Rightarrow> u32 \<Rightarrow> dma_pkg list" where
  "id_read cen ids =
     [cmd_pkg cen 0x90, \<lparr>CTRL = 0x000110c6, BUFFER = Local [NUL], CMD0 = 0x20840001 + push_bit 20 cen\<rparr>,
      \<lparr>CTRL = 0x000410c1, BUFFER = At ids, CMD0 = 0x21800000 + push_bit 20 cen + 4\<rparr>]"

lemma Nand_Read_ID_eq: "Nand_Read_ID engine ids 4 0x90 st = start_nand_dma_routine engine (id_read (nand_current_cen st) ids) st"
  by (simp add: Nand_Read_ID_def id_read_def Let_def push_bit_eq_mult)

lemma directive_x: "directive (CHR ''x'' # fmt) n (VWord w # args) = Some (hex (unat w), None, fmt, args)"
  by (simp add: directive_def no_flags_def [symmetric] parse_width_def is_digit_def ichar_eq_int
      parse_precision_def parse_qualifier_def convert_def int_base_def int_arg_def number_unsigned hex_def)

lemma say_ids:
  assumes "\<not> devinit st"
  shows "\<exists>st'. printf ('' nand dev_id = 0x%x%x%x%x'' @ [CHR 0x0A]) [VWord a, VWord b, VWord c, VWord d] st = Some st' \<and> printed st st'"
proof -
  define g where "g = cstr [CHR 0x0A]"
  let ?h = "\<lambda>w :: u32. hex (unat w)"
  have f: "cstr ('' nand dev_id = 0x%x%x%x%x'' @ [CHR 0x0A]) =
      '' nand dev_id = 0x'' @ CHR ''%'' # CHR ''x'' # CHR ''%'' # CHR ''x'' # CHR ''%'' # CHR ''x'' # CHR ''%'' # CHR ''x'' # g"
    by (simp add: cstr_def g_def)
  have e: "vsprintf_loop g [] out [] = Some (out @ [CHR 0x0A], [])" for out by (simp add: g_def cstr_def)
  let ?out = "'' nand dev_id = 0x'' @ ?h a @ ?h b @ ?h c @ ?h d @ [CHR 0x0A]"
  have "vsprintf_loop (cstr ('' nand dev_id = 0x%x%x%x%x'' @ [CHR 0x0A])) [VWord a, VWord b, VWord c, VWord d] [] [] = Some (?out, [])"
    unfolding f by (simp add: directive_x e)
  then show ?thesis
  proof (rule printf_printed [OF assms])
    show "length ?out < CFG_PBSIZE"
      using hex_length(1) [of a] hex_length(1) [of b] hex_length(1) [of c] hex_length(1) [of d] by (simp add: CFG_PBSIZE_def)
    show "nonul ?out" using hex_nonul(1) by (auto simp: nonul_def)
  qed
qed

lemma search_run:
  assumes id: "engine (id_read (nand_current_cen st) ids) (mem st) (chip st) = (True, overlay (mem st) ids [i0, i1, i2, i3], c)"
    and d: "\<not> devinit st" and apart: "4 \<le> unat (ids2 - ids)"
    and k: "k < 13" "of_nat (code i1) = DevidTable rom_nand_table ! k" "b = u8_at (mem st) ids2"
      "p = (if b \<in> {0x24, 0x25, 0x64, 0x65} then MLCParaTable rom_nand_table else ParaTable rom_nand_table) ! k" "NfType p \<noteq> 0xff"
  shows "\<exists>st' i. NandSearch engine ids ids2 st = Some (0, st') \<and> \<not> devinit st' \<and>
    nand_info_s st' = chip_geometry p (i\<lparr>block_shift := ucast (ShiftBlockPage p)\<rparr>)"
proof -
  define m where "m = overlay (mem st) ids [i0, i1, i2, i3]"
  let ?s1 = "st\<lparr>mem := m, chip := c\<rparr>"
  have r: "Nand_Read_ID engine ids 4 0x90 st = Some ?s1"
    unfolding Nand_Read_ID_eq m_def using start_ok [of engine "id_read (nand_current_cen st) ids" st] id by blast
  have d1: "\<not> devinit ?s1" using d by (simp add: devinit_def)
  have byte: "u8_at m ids = of_nat (code i0)" "u8_at m (ids + 1) = of_nat (code i1)"
    unfolding u8_at_def m_def overlay_def by simp_all
  let ?args = "[VWord (ucast (u8_at m (ids + 3))), VWord (ucast (u8_at m (ids + 2))), VWord (ucast (u8_at m (ids + 1))),
      VWord (ucast (u8_at m ids))]"
  obtain tx where pr: "printf ('' nand dev_id = 0x%x%x%x%x'' @ [CHR 0x0A]) ?args ?s1 = Some (?s1\<lparr>serial_tx := tx\<rparr>)"
    using say_ids [OF d1] unfolding printed_def by blast
  have "\<exists>x. rd_le32 (mem_bytes m ids2 4) = Some x" by (simp add: mem_bytes_4)
  then obtain x where x: "rd_le32 (mem_bytes m ids2 4) = Some x" by blast
  have b: "u8_at m ids2 = b" using apart unfolding k(3) u8_at_def m_def overlay_def by simp
  define i where "i = (nand_info_s st)\<lparr>maker_code := of_nat (code i0), dev_id := of_nat (code i1), extra_1 := u8_at m (ids + 2),
      extra_2 := u8_at m (ids + 3), extra_3 := x\<rparr>"
  define j where "j = chip_geometry p (i\<lparr>block_shift := ucast (ShiftBlockPage p)\<rparr>)"
  have "search_chip b i = Some (0, j)"
    unfolding j_def using search_known [OF k(1) _ k(4,5), of i] k(2) by (simp add: i_def)
  then have "NandSearch engine ids ids2 st = Some (0, (?s1\<lparr>serial_tx := tx\<rparr>)\<lparr>nand_info_s := j\<rparr>)"
    unfolding NandSearch_def r bind.bind_lunit Let_def using pr x b byte by (simp add: i_def)
  moreover have "\<not> devinit ((?s1\<lparr>serial_tx := tx\<rparr>)\<lparr>nand_info_s := j\<rparr>)" using d1 by (simp add: devinit_def)
  moreover have "nand_info_s ((?s1\<lparr>serial_tx := tx\<rparr>)\<lparr>nand_info_s := j\<rparr>) = j" by simp
  ultimately show ?thesis unfolding j_def by blast
qed

text \<open>The messages of an identification.\<close>

lemma directive_02x:
  "directive (CHR ''0'' # CHR ''2'' # CHR ''x'' # fmt) n (VWord w # args) =
    Some (replicate (2 - length (hex (unat w))) (CHR ''0'') @ hex (unat w), None, fmt, args)"
proof -
  have "number w 16 2 (-1) (no_flags\<lparr>ZEROPAD := True\<rparr>) =
      Some (replicate (2 - length (hex (unat w))) (CHR ''0'') @ hex (unat w))"
    by (auto simp: number_def no_flags_def nat_str_def Let_def unat_eq_zero hex_def nat_diff_distrib')
  then show ?thesis
    by (simp add: directive_def parse_width_def is_digit_def ichar_eq_int no_flags_def
        parse_precision_def parse_qualifier_def convert_def int_base_def int_arg_def)
qed

definition plain :: "string \<Rightarrow> bool" where
  "plain s \<longleftrightarrow> list_all (\<lambda>c. c \<noteq> NUL \<and> c \<noteq> CHR ''%'') s"

lemma say_number:
  assumes st: "\<not> devinit st" and s: "plain pre" "plain post" "length pre + length post \<le> 200"
    and d: "\<And>n. directive (spec @ cstr post) n [VWord w] = Some (out, None, cstr post, [])" "nonul out" "length out \<le> 11"
  shows "\<exists>st'. printf (pre @ ''%'' @ spec @ post) [VWord w] st = Some st' \<and> printed st st'"
proof -
  have post: "vsprintf_loop (cstr post) [] o1 [] = Some (o1 @ post, [])" for o1
    using vsprintf_loop_text [of post "[NUL]" "[]" o1 "[]"] s(2) by (simp add: cstr_def plain_def)
  have "vsprintf_loop (cstr (pre @ ''%'' @ spec @ post)) [VWord w] [] [] =
      vsprintf_loop (''%'' @ spec @ cstr post) [VWord w] pre []"
    using vsprintf_loop_text [of pre] s(1) by (simp add: cstr_def plain_def)
  also have "\<dots> = Some (pre @ out @ post, [])" using d(1) post by simp
  finally show ?thesis
  proof (rule printf_printed [OF st])
    show "nonul (pre @ out @ post)" using s d(2) by (auto simp: nonul_def plain_def list_all_iff)
    show "length (pre @ out @ post) < CFG_PBSIZE" using s(3) d(3) by (simp add: CFG_PBSIZE_def)
  qed
qed

lemma sdec_nonul: "nonul (sdec w)"
  using udec_nonul by (simp add: sdec_def nonul_def)

lemma say_decimal:
  assumes "\<not> devinit st" "plain pre" "plain post" "length pre + length post \<le> 200"
  shows "\<exists>st'. printf (pre @ ''%d'' @ post) [VWord w] st = Some st' \<and> printed st st'"
  using say_number [OF assms, of "''d''" w "sdec w"] by (simp add: directive_d sdec_nonul sdec_length)

lemma say_byte:
  assumes "\<not> devinit st" "plain pre" "length pre \<le> 200"
  shows "\<exists>st'. printf (pre @ ''%02x'') [VWord w] st = Some st' \<and> printed st st'"
proof -
  let ?d = "replicate (2 - length (hex (unat w))) (CHR ''0'') @ hex (unat w)"
  have "nonul ?d" "length ?d \<le> 11" using hex_nonul [of "unat w"] hex_length(1) [of w] by (auto simp: nonul_def)
  then show ?thesis
    using say_number [OF assms(1,2), of "[]" "''02x''" w ?d] assms(3) by (simp add: directive_02x plain_def)
qed

text \<open>The globals after a chip has been found.\<close>

definition globals_from :: "nand_info \<Rightarrow> ('c, 'a) nand_scheme \<Rightarrow> bool" where
  "globals_from i st \<longleftrightarrow> nand_page_shift st = ucast (page_shift i) \<and> nand_block_shift st = ucast (block_shift i) \<and>
     nand_row_cycles st = ucast (row_cycles i) \<and> nand_col_cycles st = ucast (col_cycles i) \<and>
     nand_cycles st = ucast (row_cycles i + col_cycles i)"

lemma found_nand_run:
  assumes "\<not> devinit st"
  shows "\<exists>st'. found_nand st = Some (0, st') \<and> globals_from (nand_info_s st) st'"
proof -
  define i where "i = nand_info_s st"
  define good where "good = (\<lambda>st :: ('a, 'b) nand_scheme. globals_from i st \<and> \<not> devinit st)"
  have keep: "good s1" if g: "good s" and pr: "printed s s1" for s s1
  proof -
    obtain tx where "s1 = s\<lparr>serial_tx := tx\<rparr>" using pr unfolding printed_def ..
    then show ?thesis using g by (simp add: good_def globals_from_def devinit_def)
  qed
  have say: "\<exists>st'. printf (pre @ ''%d'' @ post) [VWord w] s = Some st' \<and> good st'"
    if "good s" "plain pre" "plain post" "length pre + length post \<le> 200" for s pre post w
  proof -
    have "\<not> devinit s" using that(1) by (simp add: good_def)
    then show ?thesis using say_decimal [OF _ that(2-4)] that(1) keep by blast
  qed
  have byte: "\<exists>st'. printf (pre @ ''%02x'') [VWord w] s = Some st' \<and> good st'" if "good s" "plain pre" "length pre \<le> 200" for s pre w
  proof -
    have "\<not> devinit s" using that(1) by (simp add: good_def)
    then show ?thesis using say_byte [OF _ that(2,3)] that(1) keep by blast
  qed
  let ?s = "st\<lparr>nand_cycles := ucast (row_cycles i + col_cycles i), nand_page_shift := ucast (page_shift i),
    nand_row_cycles := ucast (row_cycles i), nand_col_cycles := ucast (col_cycles i), nand_block_shift := ucast (block_shift i)\<rparr>"
  have "good ?s" using assms by (simp add: good_def globals_from_def devinit_def)
  then obtain s1 where s1: "puts (cstr ''Nand inited.'') ?s = Some s1" "good s1"
  proof -
    have "\<exists>s1. puts (cstr ''Nand inited.'') ?s = Some s1 \<and> printed ?s s1"
      using \<open>good ?s\<close> by (intro puts_printed) (simp_all add: good_def nonul_def)
    then show ?thesis using \<open>good ?s\<close> keep that by blast
  qed
  obtain s2 where s2: "printf ([CHR 0x09] @ ''Maker id: 0x%02x'') [VWord (ucast (maker_code i))] s1 = Some s2" "good s2"
    using byte [OF s1(2), of "[CHR 0x09] @ ''Maker id: 0x''"] by (fastforce simp: plain_def)
  obtain s3 where s3: "printf ([CHR 0x09] @ ''Dev id: 0x%02x'') [VWord (ucast (dev_id i))] s2 = Some s3" "good s3"
    using byte [OF s2(2), of "[CHR 0x09] @ ''Dev id: 0x''"] by (fastforce simp: plain_def)
  obtain s4 where s4: "printf ([CHR 0x0A] @ ''Nand Page shift: %d'') [VWord (page_shift i)] s3 = Some s4" "good s4"
    using say [OF s3(2), of "[CHR 0x0A] @ ''Nand Page shift: ''" "[]"] by (fastforce simp: plain_def)
  obtain s5 where s5: "printf ([CHR 0x09] @ ''Sector shift: %d'') [VWord (block_shift i)] s4 = Some s5" "good s5"
    using say [OF s4(2), of "[CHR 0x09] @ ''Sector shift: ''" "[]"] by (fastforce simp: plain_def)
  obtain s6 where s6: "printf ([CHR 0x0A] @ ''row: %d'') [VWord (row_cycles i)] s5 = Some s6" "good s6"
    using say [OF s5(2), of "[CHR 0x0A] @ ''row: ''" "[]"] by (fastforce simp: plain_def)
  obtain s7 where s7: "printf ([CHR 0x09] @ ''col: %d'' @ [CHR 0x0A]) [VWord (col_cycles i)] s6 = Some s7" "good s7"
    using say [OF s6(2), of "[CHR 0x09] @ ''col: ''" "[CHR 0x0A]"] by (auto simp: plain_def)
  have "found_nand st = Some (0, s7)"
    unfolding found_nand_def Let_def i_def [symmetric] s1(1) s2(1) s3(1) s4(1) s5(1) s6(1) s7(1) bind.bind_lunit ..
  then show ?thesis using s7(2) unfolding good_def i_def by blast
qed

lemma NAND_init_run:
  assumes id: "engine (id_read 0 ids) (mem st) (chip st) = (True, overlay (mem st) ids [i0, i1, i2, i3], c)"
    and d: "\<not> devinit st" and apart: "4 \<le> unat (ids2 - ids)"
    and k: "k < 13" "of_nat (code i1) = DevidTable rom_nand_table ! k" "b = u8_at (mem st) ids2"
      "p = (if b \<in> {0x24, 0x25, 0x64, 0x65} then MLCParaTable rom_nand_table else ParaTable rom_nand_table) ! k" "NfType p \<noteq> 0xff"
  shows "\<exists>st' i. NAND_init engine ids ids2 st = Some (0, st') \<and>
    globals_from (chip_geometry p (i\<lparr>block_shift := ucast (ShiftBlockPage p)\<rparr>)) st'"
proof -
  let ?s = "select_nand_cen CONFIG_NAND_CEN st"
  have s: "nand_current_cen ?s = 0" "mem ?s = mem st" "chip ?s = chip st" "\<not> devinit ?s"
    using d by (simp_all add: select_nand_cen_def CONFIG_NAND_CEN_def devinit_def)
  obtain s1 i where s1: "NandSearch engine ids ids2 ?s = Some (0, s1)" "\<not> devinit s1"
    "nand_info_s s1 = chip_geometry p (i\<lparr>block_shift := ucast (ShiftBlockPage p)\<rparr>)"
    using search_run [of engine ?s ids i0 i1 i2 i3 c ids2 k b p] s id apart k by auto
  then show ?thesis using found_nand_run [OF s1(2)] by (auto simp: NAND_init_def)
qed

end
