(* ===== verification/Nand_Sim.thy ===== *)
theory Nand_Sim
  imports Nand_Ident
begin

unbundle bit_operations_syntax

text \<open>
  A chip and an engine for the NAND driver that do what the programs say, and the properties of the driver and its commands.
\<close>

section \<open>A chip for examples\<close>

text \<open>A chip with pages of 2048 bytes in blocks of 64, and an engine that does what the programs say.\<close>

fun num :: "buf \<Rightarrow> nat" where
  "num [] = 0"
| "num (c # cs) = code c + 256 * num cs"

definition sim_engine :: "(nat \<Rightarrow> nat \<Rightarrow> char) engine" where
  "sim_engine pkgs m c =
     (case map BUFFER pkgs of
        [Local _, Local ad, Local _, Local _, At b] \<Rightarrow>
          let col = num (take 2 ad); n = unat (CMD0 (pkgs ! 4) - 0x21800000)
          in (True, overlay m b (map (c (num (drop 2 ad))) [col..<col + n]), c)
      | [Local _, Local ad, At b, Local _, Local _] \<Rightarrow>
          (True, m, row_put c (num (drop 2 ad)) (num (take 2 ad)) (mem_bytes m b (unat (CMD0 (pkgs ! 2) - 0x20800000))))
      | [Local _, Local ad, Local _, Local _] \<Rightarrow>
          (True, m, blocks_erased c 6 (num ad div 64) (Suc (num ad div 64)))
      | [Local _, Local _, At b] \<Rightarrow> (True, overlay m b [CHR 0xEC, CHR 0xF1, CHR 0x00, CHR 0x15], c)
      | _ \<Rightarrow> (False, m, c))"

definition sample_nand :: "(nat \<Rightarrow> nat \<Rightarrow> char) nand" where
  "sample_nand = machine.extend ex_machine
     \<lparr>nand_cycles = 4, nand_row_cycles = 2, nand_col_cycles = 2, nand_page_shift = 11, nand_block_shift = 6, nand_current_cen = 0,
      nand_info_s = \<lparr>maker_code = 0, dev_id = 0, extra_1 = 0, extra_2 = 0, extra_3 = 0, page_shift = 0, block_shift = 0,
        row_cycles = 0, col_cycles = 0\<rparr>, chip = (\<lambda>_ _. NUL)\<rparr>"

lemma sample_nand_simps [simp]:
  "nand_cycles sample_nand = 4" "nand_row_cycles sample_nand = 2" "nand_page_shift sample_nand = 11"
  "nand_block_shift sample_nand = 6" "nand_current_cen sample_nand = 0" "\<not> devinit sample_nand" "chip sample_nand = (\<lambda>_ _. NUL)"
  "mem sample_nand = (\<lambda>_. CHR 0xFF)"
  by (simp_all add: sample_nand_def machine.defs ex_machine_def board.defs devinit_def sample_board_def)

lemma num_two: "x < 65536 \<Longrightarrow> num [char_of x, char_of (x div 256)] = x"
proof -
  assume "x < 65536"
  then have "x div 256 < 256" by (simp add: less_mult_imp_div_less)
  then show ?thesis by simp
qed

lemma row_two: "row_bytes 2 row = [char_of row, char_of (row div 256)]"
  by (simp add: row_bytes_def upt_rec)

lemma ad_two: "addr_bytes 11 4 row col = [char_of col, char_of (col div 256), char_of row, char_of (row div 256)]"
  by (simp add: addr_bytes_def cols_def row_two)

lemma page_read_pkgs:
  "page_read 0 4 11 row col buffer n =
     [cmd_pkg 0 0, addr_pkg 0 4 (addr_bytes 11 4 row col), cmd_pkg 0 0x30, wait_pkg 0x000010e4 0, read_pkg 0 buffer n]"
  by (simp add: page_read_def read_program_def)

lemma pkg_buffers:
  "BUFFER (cmd_pkg cen c) = Local [char_of c]" "BUFFER (addr_pkg cen cycles b) = Local (take (unat cycles) b)"
  "BUFFER (wait_pkg ctrl cen) = Local []" "BUFFER (read_pkg cen buffer n) = At buffer" "BUFFER (write_pkg cen buffer n) = At buffer"
  "CMD0 (read_pkg 0 buffer n) - 0x21800000 = push_bit 2 n" "CMD0 (write_pkg 0 buffer n) - 0x20800000 = push_bit 2 n"
  by (simp_all add: cmd_pkg_def addr_pkg_def wait_pkg_def read_pkg_def write_pkg_def)

lemma word_bytes: "4 * unat n \<le> 2048 \<Longrightarrow> unat (push_bit 2 n) = 4 * unat n" for n :: u32
  unfolding push_2 by (rule unat_of_nat_u32) simp

lemma sim_reads: "reads_cells sim_engine (\<lambda>c. c) 0 4 11"
proof -
  have "sim_engine (page_read 0 4 11 row col buffer n) m c = (True, overlay m buffer (map (c row) [col..<col + 4 * unat n]), c)"
    if a: "row < 65536" "col + 4 * unat n \<le> 2048" for row col buffer n m c
  proof -
    have "take (unat (4 :: u8)) (addr_bytes 11 4 row col) = [char_of col, char_of (col div 256), char_of row, char_of (row div 256)]"
      by (simp add: ad_two)
    moreover have "unat (push_bit 2 n) = 4 * unat n" using a(2) by (intro word_bytes) simp
    moreover have "num [char_of col, char_of (col div 256)] = col" using num_two a(2) by simp
    moreover note num_two [OF a(1)]
    ultimately show ?thesis
      by (simp add: sim_engine_def page_read_pkgs pkg_buffers Let_def del: num.simps)
  qed
  then show ?thesis unfolding reads_cells_def by (simp add: row_limit_def cols_def)
qed

lemma sim_programs: "programs_cells sim_engine (\<lambda>c. c) 0 4 11"
proof -
  have "sim_engine (page_write 0 4 11 row col buffer n) m c = (True, m, row_put c row col (mem_bytes m buffer (4 * unat n)))"
    if a: "row < 65536" "col + 4 * unat n \<le> 2048" for row col buffer n m c
  proof -
    have "take (unat (4 :: u8)) (addr_bytes 11 4 row col) = [char_of col, char_of (col div 256), char_of row, char_of (row div 256)]"
      by (simp add: ad_two)
    moreover have "unat (push_bit 2 n) = 4 * unat n" using a(2) by (intro word_bytes) simp
    moreover have "num [char_of col, char_of (col div 256)] = col" using num_two a(2) by simp
    moreover note num_two [OF a(1)]
    ultimately show ?thesis
      by (simp add: sim_engine_def page_write_def write_program_def pkg_buffers Let_def del: num.simps)
  qed
  then show ?thesis unfolding programs_cells_def by (simp add: row_limit_def cols_def)
qed

lemma sim_erases: "erases_cells sim_engine (\<lambda>c. c) 0 2 6"
proof -
  have "sim_engine (block_erase 0 2 row) m c = (True, m, blocks_erased c 6 (row div 64) (Suc (row div 64)))" if "row < 65536" for row m c
  proof -
    have "take (unat (2 :: u8)) (row_bytes 2 row) = [char_of row, char_of (row div 256)]" by (simp add: row_two)
    then show ?thesis using num_two [OF that]
      by (simp add: sim_engine_def block_erase_def pkg_buffers Let_def del: num.simps)
  qed
  then show ?thesis unfolding erases_cells_def by simp
qed

lemma sim_chip: "chip_ok sim_engine (\<lambda>c. c) sample_nand" "nand_ready sample_nand"
  using sim_reads sim_programs sim_erases by (simp_all add: chip_ok_def nand_ready_def geometry_def cols_def erase_shift_def)

section \<open>Properties\<close>

lemma ucast_u8: "ucast (ucast x :: u32) = x" for x :: u8
  by (rule bit_word_eqI) (simp add: bit_simps)

lemma init_geometry:
  assumes p: "NfType p \<noteq> 0xff" "p \<in> set (ParaTable rom_nand_table) \<union> set (MLCParaTable rom_nand_table)"
    and g: "globals_from (chip_geometry p (i\<lparr>block_shift := ucast (ShiftBlockPage p)\<rparr>)) st"
  shows "nand_page_shift st = (if NfType p = 0 then 9 else 11)" "nand_block_shift st = ShiftBlockPage p"
    "nand_row_cycles st = ExtAddr p + 2" "nand_cycles st = nand_row_cycles st + nand_col_cycles st"
    "nand_col_cycles st = (if NfType p = 0 then 1 else 2)"
proof -
  have "NfType p \<in> {0, 2, 3} \<and> ExtAddr p \<in> {0, 1}" using table_params p unfolding list_all_iff by fastforce
  then show "nand_page_shift st = (if NfType p = 0 then 9 else 11)" "nand_block_shift st = ShiftBlockPage p"
    "nand_row_cycles st = ExtAddr p + 2" "nand_cycles st = nand_row_cycles st + nand_col_cycles st"
    "nand_col_cycles st = (if NfType p = 0 then 1 else 2)"
    using g by (auto simp: globals_from_def chip_geometry_def ucast_u8)
qed




definition id_engine :: "u8 \<Rightarrow> (nat \<Rightarrow> nat \<Rightarrow> char) engine" where
  "id_engine d pkgs m c = (case pkgs of [_, _, p] \<Rightarrow> (case BUFFER p of At b \<Rightarrow>
     (True, overlay m b [CHR 0xEC, char_of (unat d), NUL, NUL], c) | _ \<Rightarrow> (False, m, c)) | _ \<Rightarrow> (False, m, c))"


text \<open>C26: After every identification that succeeds, by the tables or by the general rule, the geometry is one that the
  driver can address: pages from 512 bytes to 64 KB, address bytes that fit the arrays of the driver and that are the
  columns and the rows, and block numbers that are a shift below 32.\<close>

theorem nand_init_ready:
  assumes "NAND_init engine ids ids2 st = Some (0, st')" "\<not> devinit st"
  shows "nand_ready st'"
  using assms by (rule NAND_init_ok)

lemma nand_init_ready_witness:
  "\<exists>st'. NAND_init sim_engine 0x100 0x200 sample_nand = Some (0, st') \<and> nand_ready st'"
proof -
  have e: "sim_engine (id_read 0 0x100) m c = (True, overlay m 0x100 [CHR 0xEC, CHR 0xF1, CHR 0x00, CHR 0x15], c)" for m c
    by (simp add: sim_engine_def id_read_def cmd_pkg_def)
  have "\<exists>st' i. NAND_init sim_engine 0x100 0x200 sample_nand = Some (0, st') \<and>
      globals_from (chip_geometry (param 2 6 1 0) (i\<lparr>block_shift := ucast (ShiftBlockPage (param 2 6 1 0))\<rparr>)) st'"
    by (rule NAND_init_run [where engine = sim_engine and st = sample_nand and k = 5 and b = "0xFF", OF e])
      (simp_all add: rom_nand_table_def param_def u8_at_def)
  then obtain st' where "NAND_init sim_engine 0x100 0x200 sample_nand = Some (0, st')" by blast
  then show ?thesis using nand_init_ready [of sim_engine "0x100" "0x200" sample_nand st'] by (intro exI [of _ st'] conjI) simp_all
qed



end
