(* ===== verification/Flash_Init.thy ===== *)
theory Flash_Init
  imports Flash_Cmd
begin

unbundle bit_operations_syntax

text \<open>
  Finding the NOR flash when the board starts, and printing what was found (\<open>board/as3310/flash.c\<close>,
  \<open>flinfo\<close> of \<open>common/cmd_flash.c\<close>).  What the chip answers in the auto-select mode is a parameter: the
  halfwords of the manufacturer and of the device.
\<close>

definition CFG_MAX_FLASH_BANKS :: u32 where "CFG_MAX_FLASH_BANKS = 1"
definition CFG_MAX_FLASH_SECT :: nat where "CFG_MAX_FLASH_SECT = 35"
definition PHYS_FLASH_1 :: u32 where "PHYS_FLASH_1 = 0"
definition CFG_FLASH_BASE :: u32 where "CFG_FLASH_BASE = PHYS_FLASH_1"
definition PHYS_FLASH_SECT_SIZE :: u32 where "PHYS_FLASH_SECT_SIZE = 0x00020000"
definition FLASH_TYPEMASK :: u32 where "FLASH_TYPEMASK = 0x0000FFFF"

text \<open>The identifications, as halfwords, and the types.\<close>

definition INTEL_MANUFACT :: u16 where "INTEL_MANUFACT = 0x0089"
definition MT2_MANUFACT :: u16 where "MT2_MANUFACT = 0x002C"
definition INTEL_ID_28F256L18T :: u16 where "INTEL_ID_28F256L18T = 0x880D"
definition INTEL_ID_28F256K3 :: u16 where "INTEL_ID_28F256K3 = 0x8803"
definition INTEL_ID_28F128J3A :: u16 where "INTEL_ID_28F128J3A = 0x0018"
definition FLASH_28F256L18T :: u32 where "FLASH_28F256L18T = 0x00B0"
definition FLASH_28F256K3 :: u32 where "FLASH_28F256K3 = 0x00A8"
definition FLASH_28F128J3A :: u32 where "FLASH_28F128J3A = 0x007E"

text \<open>A device of 32 MB; an unknown device leaves the size and the sectors as they were.\<close>

definition found_flash :: "u32 \<Rightarrow> flash_info_t \<Rightarrow> flash_info_t" where
  "found_flash type info = info\<lparr>flash_id := FLASH_MAN_INTEL + type, sector_count := 259, fl_size := 0x02000000\<rparr>"

definition flash_device :: "u16 \<Rightarrow> flash_info_t \<Rightarrow> 'a console_scheme \<Rightarrow> (flash_info_t \<times> 'a console_scheme) option" where
  "flash_device dev info st =
     (if dev = INTEL_ID_28F256L18T then Some (found_flash FLASH_28F256L18T info, st)
      else if dev = INTEL_ID_28F256K3 then
        do { st \<leftarrow> printf (''Intel StrataFlash 28F256K3C device initialized'' @ [CHR 0x0A]) [] st;
             Some (found_flash FLASH_28F256K3 info, st) }
      else if dev = INTEL_ID_28F128J3A then
        do { st \<leftarrow> printf (''Micron StrataFlash MT28F128J3 device initialized'' @ [CHR 0x0A]) [] st;
             Some (found_flash FLASH_28F128J3A info, st) }
      else Some (info\<lparr>flash_id := FLASH_UNKNOWN\<rparr>, st))"

definition flash_get_size ::
  "u16 \<Rightarrow> u16 \<Rightarrow> flash_info_t \<Rightarrow> 'a console_scheme \<Rightarrow> (u32 \<times> flash_info_t \<times> 'a console_scheme) option" where
  "flash_get_size man dev info st =
     (if man \<noteq> INTEL_MANUFACT \<and> man \<noteq> MT2_MANUFACT then
        Some (0, info\<lparr>flash_id := FLASH_UNKNOWN, sector_count := 0, fl_size := 0\<rparr>, st)
      else
        do { (info, st) \<leftarrow> flash_device dev (info\<lparr>flash_id := FLASH_MAN_INTEL\<rparr>) st;
             (info, st) \<leftarrow>
               (if sector_count info > CFG_MAX_FLASH_SECT then
                  do { st \<leftarrow> printf (''** ERROR: sector count %d > max (%d) **'' @ [CHR 0x0A])
                         [VWord (of_nat (sector_count info)), VWord (of_nat CFG_MAX_FLASH_SECT)] st;
                       Some (info\<lparr>sector_count := CFG_MAX_FLASH_SECT\<rparr>, st) }
                else Some (info, st));
             Some (fl_size info, info, st) })"

fun set_offsets :: "u32 \<Rightarrow> nat \<Rightarrow> nat \<Rightarrow> flash_info_t \<Rightarrow> flash_info_t option" where
  "set_offsets base i 0 info = Some info"
| "set_offsets base i (Suc k) info =
     do { s \<leftarrow> store (fl_start info) i
            (if i > 255 then base + of_nat i * 0x8000 else base + of_nat i * PHYS_FLASH_SECT_SIZE);
          p \<leftarrow> store (fl_protect info) i 0;
          set_offsets base (Suc i) k (info\<lparr>fl_start := s, fl_protect := p\<rparr>) }"

definition flash_get_offsets :: "u32 \<Rightarrow> flash_info_t \<Rightarrow> flash_info_t option" where
  "flash_get_offsets base info =
     (if flash_id info = FLASH_UNKNOWN then Some info
      else if flash_id info AND FLASH_VENDMASK = FLASH_MAN_INTEL then set_offsets base 0 (sector_count info) info
      else Some info)"

text \<open>
  The one bank of the board; its sectors with the monitor and with the environment, whose size is that of the image
  in the flash, are protected.
\<close>

definition flash_init :: "u16 \<Rightarrow> u16 \<Rightarrow> u32 \<Rightarrow> 'a machine_scheme \<Rightarrow> (u32 \<times> 'a machine_scheme) option" where
  "flash_init man dev monitor_flash_len st =
     do { info \<leftarrow> load (flash_info st) 0;
          (_, info, st) \<leftarrow> flash_get_size man dev info st;
          info \<leftarrow> flash_get_offsets PHYS_FLASH_1 info;
          let size = fl_size info;
          info \<leftarrow> flash_protect FLAG_PROTECT_SET CFG_FLASH_BASE (CFG_FLASH_BASE + monitor_flash_len - 1) info;
          info \<leftarrow> flash_protect FLAG_PROTECT_SET CFG_ENV_ADDR (CFG_ENV_ADDR + of_nat (length (edata (flash_env st)) + 4) - 1) info;
          infos \<leftarrow> store (flash_info st) 0 info;
          Some (size, st\<lparr>flash_info := infos\<rparr>) }"

section \<open>Printing\<close>

fun print_sectors :: "flash_info_t \<Rightarrow> nat \<Rightarrow> nat \<Rightarrow> 'a console_scheme \<Rightarrow> 'a console_scheme option" where
  "print_sectors info i 0 st = Some st"
| "print_sectors info i (Suc k) st =
     do { st \<leftarrow> (if i mod 5 = 0 then printf ([CHR 0x0A] @ ''   '') [] st else Some st);
          s \<leftarrow> load (fl_start info) i;
          p \<leftarrow> load (fl_protect info) i;
          st \<leftarrow> printf '' %08lX%s'' [VWord s, VStr (Some (cstr (if p \<noteq> 0 then '' (RO)'' else ''     '')))] st;
          print_sectors info (Suc i) k st }"

definition flash_print_info :: "flash_info_t \<Rightarrow> 'a console_scheme \<Rightarrow> 'a console_scheme option" where
  "flash_print_info info st =
     (if flash_id info = FLASH_UNKNOWN then printf (''missing or unknown FLASH type'' @ [CHR 0x0A]) [] st
      else
        do { st \<leftarrow> (if flash_id info AND FLASH_VENDMASK = FLASH_MAN_INTEL then printf ''INTEL '' [] st
                   else printf ''Unknown Vendor '' [] st);
             st \<leftarrow> (let t = flash_id info AND FLASH_TYPEMASK
                   in if t = FLASH_28F256L18T then printf (''FLASH 28F256L18T'' @ [CHR 0x0A]) [] st
                      else if t = FLASH_28F128J3A then printf (''FLASH 28F128J3A'' @ [CHR 0x0A]) [] st
                      else printf (''Unknown Chip Type'' @ [CHR 0x0A]) [] st);
             st \<leftarrow> printf (''  Size: %ld MB in %d Sectors'' @ [CHR 0x0A])
               [VWord (drop_bit 20 (fl_size info)), VWord (of_nat (sector_count info))] st;
             st \<leftarrow> printf ''  Sector Start Addresses:'' [] st;
             st \<leftarrow> print_sectors info 0 (sector_count info) st;
             printf [CHR 0x0A] [] st })"

definition print_bank :: "u32 \<Rightarrow> flash_info_t \<Rightarrow> 'a console_scheme \<Rightarrow> 'a console_scheme option" where
  "print_bank bank info st =
     do { st \<leftarrow> printf ([CHR 0x0A] @ ''Bank # %ld: '') [VWord bank] st; flash_print_info info st }"

fun print_banks :: "u32 \<Rightarrow> nat \<Rightarrow> 'a machine_scheme \<Rightarrow> 'a machine_scheme option" where
  "print_banks bank 0 st = Some st"
| "print_banks bank (Suc k) st =
     do { info \<leftarrow> load (flash_info st) (unat bank); st \<leftarrow> print_bank (bank + 1) info st; print_banks (bank + 1) k st }"

definition do_flinfo :: "buf list \<Rightarrow> 'a machine_scheme \<Rightarrow> (int \<times> 'a machine_scheme) option" where
  "do_flinfo argv st =
     (if length argv = 1 then
        do { st \<leftarrow> print_banks 0 (unat CFG_MAX_FLASH_BANKS) st; Some (0, st) }
      else
        do { arg \<leftarrow> load argv 1;
             (bank, _) \<leftarrow> simple_strtoul arg 16;
             if bank < 1 \<or> bank > CFG_MAX_FLASH_BANKS then
               do { st \<leftarrow> printf (''Only FLASH Banks # 1 ... # %d supported'' @ [CHR 0x0A]) [VWord CFG_MAX_FLASH_BANKS] st;
                    Some (1, st) }
             else
               do { info \<leftarrow> load (flash_info st) (unat (bank - 1));
                    st \<leftarrow> print_bank bank info st;
                    Some (0, st) } })"

end
