(* ===== verification/Flash_Init_Props.thy ===== *)
theory Flash_Init_Props
  imports Flash_Init Saveenv Messages
begin

unbundle bit_operations_syntax

text \<open>
  The flash table after the start: what is in it for the chips the board knows, and that it keeps the monitor
  and the environment from being overwritten.
\<close>

definition known_flash :: "u16 \<Rightarrow> u16 \<Rightarrow> bool" where
  "known_flash man dev \<longleftrightarrow> (man = INTEL_MANUFACT \<or> man = MT2_MANUFACT) \<and>
     dev \<in> {INTEL_ID_28F256L18T, INTEL_ID_28F256K3, INTEL_ID_28F128J3A}"

lemma say_plain:
  assumes "\<not> devinit st" "list_all (\<lambda>c. c \<noteq> NUL \<and> c \<noteq> CHR ''%'') s" "length s < CFG_PBSIZE"
  shows "\<exists>tx. printf s [] st = Some (st\<lparr>serial_tx := tx\<rparr>)"
proof -
  have loop: "list_all (\<lambda>c. c \<noteq> NUL \<and> c \<noteq> CHR ''%'') s \<Longrightarrow>
      vsprintf_loop (s @ [NUL]) [] out [] = Some (out @ s, [])" for s out
    by (induction s arbitrary: out) (simp_all add: vsprintf_loop_char vsprintf_loop_end del: vsprintf_loop.simps)
  have "nonul s" using assms(2) by (auto simp: nonul_def list_all_iff)
  then show ?thesis
    using printf_printed [OF assms(1), of s "[]" s "[]"] loop [OF assms(2), of "[]"] assms(3) by (auto simp: cstr_def printed_def)
qed

lemma say_sector_count:
  assumes "\<not> devinit st"
  shows "\<exists>tx. printf (''** ERROR: sector count %d > max (%d) **'' @ [CHR 0x0A]) [VWord a, VWord b] st = Some (st\<lparr>serial_tx := tx\<rparr>)"
proof -
  let ?out = "''** ERROR: sector count '' @ sdec a @ '' > max ('' @ sdec b @ '') **'' @ [CHR 0x0A]"
  have "vsprintf_loop (cstr (''** ERROR: sector count %d > max (%d) **'' @ [CHR 0x0A])) [VWord a, VWord b] [] [] = Some (?out, [])"
    by (simp add: cstr_def vsprintf_loop_steps del: vsprintf_loop.simps)
  moreover have "length ?out < CFG_PBSIZE"
    using sdec_length [of a] sdec_length [of b] by (simp add: CFG_PBSIZE_def)
  moreover have "nonul ?out" using udec_nonul by (auto simp: nonul_def sdec_def)
  ultimately show ?thesis using printf_printed [OF assms] unfolding printed_def by blast
qed

lemma flash_device_known:
  fixes st :: "'a console_scheme"
  assumes "dev \<in> {INTEL_ID_28F256L18T, INTEL_ID_28F256K3, INTEL_ID_28F128J3A}" "\<not> devinit st"
  shows "\<exists>type tx. flash_device dev info st = Some (found_flash type info, st\<lparr>serial_tx := tx\<rparr>) \<and>
    type \<in> {FLASH_28F256L18T, FLASH_28F256K3, FLASH_28F128J3A}"
proof -
  have ids: "INTEL_ID_28F256K3 \<noteq> INTEL_ID_28F256L18T" "INTEL_ID_28F128J3A \<noteq> INTEL_ID_28F256L18T"
    "INTEL_ID_28F128J3A \<noteq> INTEL_ID_28F256K3"
    by (simp_all add: INTEL_ID_28F256L18T_def INTEL_ID_28F256K3_def INTEL_ID_28F128J3A_def)
  obtain tx2 where p2: "printf (''Intel StrataFlash 28F256K3C device initialized'' @ [CHR 0x0A]) [] st = Some (st\<lparr>serial_tx := tx2\<rparr>)"
    using say_plain [OF assms(2), of "''Intel StrataFlash 28F256K3C device initialized'' @ [CHR 0x0A]"]
    unfolding CFG_PBSIZE_def by auto
  obtain tx3 where p3: "printf (''Micron StrataFlash MT28F128J3 device initialized'' @ [CHR 0x0A]) [] st = Some (st\<lparr>serial_tx := tx3\<rparr>)"
    using say_plain [OF assms(2), of "''Micron StrataFlash MT28F128J3 device initialized'' @ [CHR 0x0A]"]
    unfolding CFG_PBSIZE_def by auto
  consider "dev = INTEL_ID_28F256L18T" | "dev = INTEL_ID_28F256K3" | "dev = INTEL_ID_28F128J3A" using assms(1) by blast
  then show ?thesis
  proof cases
    case 1
    have "flash_device dev info st = Some (found_flash FLASH_28F256L18T info, st\<lparr>serial_tx := serial_tx st\<rparr>)"
      unfolding flash_device_def 1 by simp
    then show ?thesis by blast
  next
    case 2
    have "flash_device dev info st = Some (found_flash FLASH_28F256K3 info, st\<lparr>serial_tx := tx2\<rparr>)"
      unfolding flash_device_def 2 p2 bind.bind_lunit using ids by simp
    then show ?thesis by blast
  next
    case 3
    have "flash_device dev info st = Some (found_flash FLASH_28F128J3A info, st\<lparr>serial_tx := tx3\<rparr>)"
      unfolding flash_device_def 3 p3 bind.bind_lunit using ids by simp
    then show ?thesis by blast
  qed
qed

lemma flash_get_size_known:
  fixes st :: "'a console_scheme"
  assumes "known_flash man dev" "\<not> devinit st"
  shows "\<exists>type tx. flash_get_size man dev info st =
      Some (0x02000000, info\<lparr>flash_id := FLASH_MAN_INTEL + type, sector_count := 35, fl_size := 0x02000000\<rparr>, st\<lparr>serial_tx := tx\<rparr>) \<and>
    type \<in> {FLASH_28F256L18T, FLASH_28F256K3, FLASH_28F128J3A}"
proof -
  have m: "\<not> (man \<noteq> INTEL_MANUFACT \<and> man \<noteq> MT2_MANUFACT)"
    and dv: "dev \<in> {INTEL_ID_28F256L18T, INTEL_ID_28F256K3, INTEL_ID_28F128J3A}"
    using assms(1) unfolding known_flash_def by simp_all
  obtain type tx where d: "flash_device dev (info\<lparr>flash_id := FLASH_MAN_INTEL\<rparr>) st =
      Some (found_flash type (info\<lparr>flash_id := FLASH_MAN_INTEL\<rparr>), st\<lparr>serial_tx := tx\<rparr>)"
    "type \<in> {FLASH_28F256L18T, FLASH_28F256K3, FLASH_28F128J3A}"
    using flash_device_known [OF dv assms(2)] by blast
  have n: "\<not> devinit (st\<lparr>serial_tx := tx\<rparr>)" using assms(2) by (simp add: devinit_def)
  obtain tx' where p: "printf (''** ERROR: sector count %d > max (%d) **'' @ [CHR 0x0A]) [VWord 259, VWord 35] (st\<lparr>serial_tx := tx\<rparr>) =
      Some ((st\<lparr>serial_tx := tx\<rparr>)\<lparr>serial_tx := tx'\<rparr>)" using say_sector_count [OF n] by blast
  have "flash_get_size man dev info st =
      Some (0x02000000, info\<lparr>flash_id := FLASH_MAN_INTEL + type, sector_count := 35, fl_size := 0x02000000\<rparr>, st\<lparr>serial_tx := tx'\<rparr>)"
    unfolding flash_get_size_def if_not_P [OF m] d(1) bind.bind_lunit prod.case found_flash_def CFG_MAX_FLASH_SECT_def
    using p by simp
  then show ?thesis using d(2) by blast
qed

lemma set_offsets_eq:
  "\<lbrakk>i + k \<le> 256; i + k \<le> length (fl_start info); length (fl_protect info) = length (fl_start info)\<rbrakk> \<Longrightarrow>
   set_offsets base i k info =
     Some (info\<lparr>fl_start := take i (fl_start info) @ map (\<lambda>j. base + of_nat j * PHYS_FLASH_SECT_SIZE) [i..<i + k] @ drop (i + k) (fl_start info),
       fl_protect := take i (fl_protect info) @ replicate k 0 @ drop (i + k) (fl_protect info)\<rparr>)"
proof (induction k arbitrary: i info)
  case (Suc k)
  let ?s = "(fl_start info)[i := base + of_nat i * PHYS_FLASH_SECT_SIZE]" and ?p = "(fl_protect info)[i := 0]"
  have i: "i < length (fl_start info)" "i < length (fl_protect info)" "\<not> i > 255" using Suc.prems by simp_all
  have step: "set_offsets base i (Suc k) info = set_offsets base (Suc i) k (info\<lparr>fl_start := ?s, fl_protect := ?p\<rparr>)"
    using i by simp
  have t: "take (Suc i) ?s = take i (fl_start info) @ [base + of_nat i * PHYS_FLASH_SECT_SIZE]" "take (Suc i) ?p = take i (fl_protect info) @ [0]"
    using i by (simp_all add: take_Suc_conv_app_nth)
  have u: "[i..<i + Suc k] = i # [Suc i..<Suc i + k]" by (simp add: upt_conv_Cons)
  show ?case unfolding step u
    using Suc.IH [of "Suc i" "info\<lparr>fl_start := ?s, fl_protect := ?p\<rparr>"] Suc.prems i t by simp
qed simp

text \<open>The table after a known chip has been found, before the protection.\<close>

definition start_bank :: "u32 \<Rightarrow> nat list \<Rightarrow> flash_info_t" where
  "start_bank type prot = \<lparr>fl_size = 0x02000000, sector_count = 35, flash_id = FLASH_MAN_INTEL + type,
     fl_start = map (\<lambda>i. of_nat i * PHYS_FLASH_SECT_SIZE) [0..<35], fl_protect = prot\<rparr>"

lemma start_bank_simps [simp]:
  "fl_size (start_bank t p) = 0x02000000" "sector_count (start_bank t p) = 35" "fl_protect (start_bank t p) = p"
  "flash_id (start_bank t p) = FLASH_MAN_INTEL + t" "fl_start (start_bank t p) = map (\<lambda>i. of_nat i * PHYS_FLASH_SECT_SIZE) [0..<35]"
  "(start_bank t p)\<lparr>fl_protect := q\<rparr> = start_bank t q"
  by (simp_all add: start_bank_def)

lemma unat_sector: "i < 35 \<Longrightarrow> unat (of_nat i * PHYS_FLASH_SECT_SIZE) = i * 0x20000"
  by (simp add: PHYS_FLASH_SECT_SIZE_def unat_word_ariths(2) unat_of_nat_u32)

lemma start_bank_wf: "length p = 35 \<Longrightarrow> wf_bank (start_bank t p)"
proof -
  assume p: "length p = 35"
  have last: "fl_start (start_bank t p) ! 34 \<le> bank_last (start_bank t p)"
    by (simp add: bank_last_def PHYS_FLASH_SECT_SIZE_def)
  have "fl_start (start_bank t p) ! i < fl_start (start_bank t p) ! Suc i" if "Suc i < 35" for i
    using that unat_sector [of i] unat_sector [of "Suc i"] by (simp add: word_less_nat_alt del: of_nat_Suc)
  then show ?thesis using p last by (simp add: wf_bank_def)
qed

lemma flash_id_known: "type \<in> {FLASH_28F256L18T, FLASH_28F256K3, FLASH_28F128J3A} \<Longrightarrow>
    FLASH_MAN_INTEL + type \<noteq> FLASH_UNKNOWN \<and> (FLASH_MAN_INTEL + type) AND FLASH_VENDMASK = FLASH_MAN_INTEL"
  by (auto simp: FLASH_28F256L18T_def FLASH_28F256K3_def FLASH_28F128J3A_def FLASH_MAN_INTEL_def FLASH_UNKNOWN_def FLASH_VENDMASK_def)

text \<open>The sectors that the start protects.\<close>

definition start_protect :: "u32 \<Rightarrow> nat list" where
  "start_protect len = map (\<lambda>i. if of_nat i * PHYS_FLASH_SECT_SIZE < len \<or> i = 1 then 1 else 0) [0..<35]"

lemma last_start: "i < 35 \<Longrightarrow> unat (last_addr (start_bank t p) i) = (if i = 34 then 0x02000000 else Suc i * 0x20000) - 1"
proof -
  assume i: "i < 35"
  have d: "unat (of_nat (Suc i) * PHYS_FLASH_SECT_SIZE - 1) = Suc i * 0x20000 - 1" if "Suc i < 35"
    using unat_sector [OF that] by (subst unat_minus_one) (auto simp: unat_eq_zero [symmetric] simp del: of_nat_Suc unat_eq_zero)
  then show ?thesis using i by (auto simp: last_addr_def bank_last_def PHYS_FLASH_SECT_SIZE_def simp del: of_nat_Suc)
qed

lemma touches_start:
  assumes "i < 35" "length p = 35" "from \<le> until"
  shows "touches from until (start_bank t p) i \<longleftrightarrow>
    unat from \<le> (if i = 34 then 0x02000000 else Suc i * 0x20000) - 1 \<and> i * 0x20000 \<le> unat until"
  using touches_iff [OF start_bank_wf [OF assms(2)], of i t "from" until] assms(1,3) last_start [OF assms(1), of t p] unat_sector [OF assms(1)]
  by (simp add: word_le_nat_alt)

lemma flash_init_table:
  fixes st :: "'a machine_scheme"
  assumes chip: "known_flash man dev" and st: "\<not> devinit st" "flash_info st = [info]" "length (edata (flash_env st)) = 0x1fffc"
    and info: "length (fl_start info) = 35" "length (fl_protect info) = 35" and len: "0 < len"
  shows "\<exists>type tx. type \<in> {FLASH_28F256L18T, FLASH_28F256K3, FLASH_28F128J3A} \<and>
    flash_init man dev len st =
      Some (0x02000000, st\<lparr>flash_info := [start_bank type (start_protect len)], serial_tx := tx\<rparr>)"
proof -
  obtain type tx where g: "flash_get_size man dev info st =
      Some (0x02000000, info\<lparr>flash_id := FLASH_MAN_INTEL + type, sector_count := 35, fl_size := 0x02000000\<rparr>, st\<lparr>serial_tx := tx\<rparr>)"
    and t: "type \<in> {FLASH_28F256L18T, FLASH_28F256K3, FLASH_28F128J3A}"
    using flash_get_size_known [OF chip st(1)] by blast
  note id = flash_id_known [OF t]
  have o: "flash_get_offsets PHYS_FLASH_1 (info\<lparr>flash_id := FLASH_MAN_INTEL + type, sector_count := 35, fl_size := 0x02000000\<rparr>) =
      Some (start_bank type (replicate 35 0))"
    using id set_offsets_eq [of 0 35 "info\<lparr>flash_id := FLASH_MAN_INTEL + type, sector_count := 35, fl_size := 0x02000000\<rparr>" PHYS_FLASH_1] info
    by (simp add: flash_get_offsets_def start_bank_def PHYS_FLASH_1_def)
  define b0 where "b0 = start_bank type (replicate 35 0)"
  have wf0: "wf_bank b0" "flash_id b0 \<noteq> FLASH_UNKNOWN" using start_bank_wf id by (simp_all add: b0_def)
  have le: "CFG_FLASH_BASE \<le> CFG_FLASH_BASE + len - 1" by (simp add: CFG_FLASH_BASE_def PHYS_FLASH_1_def)
  define p1 where "p1 = map (\<lambda>i. if touches 0 (len - 1) b0 i then 1 else 0 :: nat) [0..<35]"
  have 1: "flash_protect FLAG_PROTECT_SET CFG_FLASH_BASE (CFG_FLASH_BASE + len - 1) b0 = Some (start_bank type p1)"
    using flash_protect_exact [OF wf0 le, of FLAG_PROTECT_SET 1]
    by (simp add: b0_def p1_def touches_def CFG_FLASH_BASE_def PHYS_FLASH_1_def cong: map_cong)
  define b1 where "b1 = start_bank type p1"
  have wf1: "wf_bank b1" "flash_id b1 \<noteq> FLASH_UNKNOWN" using start_bank_wf id by (simp_all add: b1_def p1_def)
  have le: "CFG_ENV_ADDR \<le> CFG_ENV_ADDR + 0x20000 - 1" by (simp add: CFG_ENV_ADDR_def)
  have 2: "flash_protect FLAG_PROTECT_SET CFG_ENV_ADDR (CFG_ENV_ADDR + 0x20000 - 1) b1 =
      Some (start_bank type (map (\<lambda>i. if touches CFG_ENV_ADDR (CFG_ENV_ADDR + 0x20000 - 1) b1 i then 1 else p1 ! i) [0..<35]))"
    using flash_protect_exact [OF wf1 le, of FLAG_PROTECT_SET 1] by (simp add: b1_def touches_def cong: if_cong)
  have 3: "map (\<lambda>i. if touches CFG_ENV_ADDR (CFG_ENV_ADDR + 0x20000 - 1) b1 i then 1 else p1 ! i) [0..<35] = start_protect len"
  proof (unfold start_protect_def, rule map_cong [OF refl])
    fix i assume "i \<in> set [0..<35]"
    then have i: "i < 35" by simp
    have "touches 0 (len - 1) b0 i \<longleftrightarrow> of_nat i * PHYS_FLASH_SECT_SIZE < len"
    proof -
      have "unat (len - 1) = unat len - 1" "0 < unat len" using len by (simp_all add: unat_minus_one unat_gt_0 word_gt_0)
      then show ?thesis
        using touches_start [OF i, of "replicate 35 0" 0 "len - 1" type] unat_sector [OF i]
        by (auto simp: b0_def word_less_nat_alt)
    qed
    moreover have "touches CFG_ENV_ADDR (CFG_ENV_ADDR + 0x20000 - 1) b1 i \<longleftrightarrow> i = 1"
      using touches_start [OF i, of p1 CFG_ENV_ADDR "CFG_ENV_ADDR + 0x20000 - 1" type]
      by (auto simp: b1_def p1_def CFG_ENV_ADDR_def)
    ultimately show "(if touches CFG_ENV_ADDR (CFG_ENV_ADDR + 0x20000 - 1) b1 i then 1 else p1 ! i) =
        (if of_nat i * PHYS_FLASH_SECT_SIZE < len \<or> i = 1 then 1 else 0)"
      using i by (simp add: p1_def)
  qed
  have "flash_init man dev len st =
      Some (0x02000000, st\<lparr>flash_info := [start_bank type (start_protect len)], serial_tx := tx\<rparr>)"
    unfolding flash_init_def using g o 1 2 3 st(2,3) by (simp add: b0_def b1_def)
  then show ?thesis using t by blast
qed

text \<open>Every address of the monitor and of the environment lies in a protected sector.\<close>

lemma protected_at:
  assumes x: "x < 0x02000000" and c: "x < len \<or> CFG_ENV_ADDR \<le> x \<and> x < CFG_ENV_ADDR + 0x20000"
  shows "\<exists>j < 35. in_sector (start_bank t (start_protect len)) j x \<and> start_protect len ! j \<noteq> 0"
proof -
  define j where "j = min 34 (unat x div 0x20000)"
  have j: "j < 35" by (simp add: j_def)
  have u: "unat x < 0x02000000" using x by (simp add: word_less_nat_alt)
  have "j \<le> unat x div 0x20000" by (simp add: j_def)
  then have lo: "j * 0x20000 \<le> unat x" using div_times_less_eq_dividend [of "unat x" "0x20000"] mult_le_mono1 order_trans by blast
  have hi: "unat x \<le> (if j = 34 then 0x02000000 else Suc j * 0x20000) - 1"
    using u by (auto simp: j_def min_def split: if_splits)
  have "in_sector (start_bank t (start_protect len)) j x"
    using lo hi last_start [OF j, of t "start_protect len"] unat_sector [OF j] j by (simp add: in_sector_def word_le_nat_alt)
  moreover have "of_nat j * PHYS_FLASH_SECT_SIZE < len \<or> j = 1"
  proof (cases "x < len")
    case True
    then show ?thesis using lo unat_sector [OF j] by (simp add: word_less_nat_alt)
  next
    case False
    then have "0x20000 \<le> unat x" "unat x < 0x40000" using c by (simp_all add: CFG_ENV_ADDR_def word_le_nat_alt word_less_nat_alt)
    then have "unat x div 0x20000 = 1" by simp
    then show ?thesis by (simp add: j_def)
  qed
  then have "start_protect len ! j \<noteq> 0" using j by (simp add: start_protect_def)
  ultimately show ?thesis using j by blast
qed

definition start_machine :: machine where
  "start_machine = ex_machine
     \<lparr>flash_env := \<lparr>crc = 0, edata = replicate 0x1fffc NUL\<rparr>,
      flash_info := [\<lparr>fl_size = 0, sector_count = 0, flash_id = 0, fl_start = replicate 35 0, fl_protect = replicate 35 0\<rparr>]\<rparr>"

lemma start_machine_simps:
  "\<not> devinit start_machine" "length (edata (flash_env start_machine)) = 0x1fffc"
  "flash_info start_machine =
     [\<lparr>fl_size = 0, sector_count = 0, flash_id = 0, fl_start = replicate 35 0, fl_protect = replicate 35 0\<rparr>]"
  using ex_machine_simps(1) by (simp_all add: start_machine_def devinit_def)

text \<open>C33: After the start the flash keeps the monitor and the environment.  When the chip is one the board knows,
  \<open>flash_init\<close> finds 32 MB; a later \<open>flash_write\<close> to a range inside the flash that has a byte of the monitor or of the
  environment sector is refused, and nothing changes.\<close>

theorem flash_init_protects:
  fixes st :: machine
  assumes "known_flash man dev" "\<not> devinit st" "flash_info st = [info]" "length (edata (flash_env st)) = 0x1fffc"
    and "length (fl_start info) = 35" "length (fl_protect info) = 35" "0 < len"
  shows "\<exists>st'. flash_init man dev len st = Some (0x02000000, st') \<and>
    (\<forall>prog src addr cnt x. cnt \<noteq> 0 \<and> addr \<le> x \<and> x \<le> addr + cnt - 1 \<and> addr + cnt - 1 < 0x02000000 \<and>
       (x < len \<or> CFG_ENV_ADDR \<le> x \<and> x < CFG_ENV_ADDR + 0x20000) \<longrightarrow>
       flash_write prog src addr cnt st' = Some (ERR_PROTECTED, st'))"
proof -
  obtain type tx where t: "type \<in> {FLASH_28F256L18T, FLASH_28F256K3, FLASH_28F128J3A}"
    and r: "flash_init man dev len st =
      Some (0x02000000, st\<lparr>flash_info := [start_bank type (start_protect len)], serial_tx := tx\<rparr>)"
    using flash_init_table [OF assms] by blast
  let ?b = "start_bank type (start_protect len)"
  let ?s = "st\<lparr>flash_info := [?b], serial_tx := tx\<rparr>"
  have wf: "wf_bank ?b" "flash_id ?b \<noteq> FLASH_UNKNOWN" using start_bank_wf flash_id_known [OF t] by (simp_all add: start_protect_def)
  have "flash_write prog src addr cnt ?s = Some (ERR_PROTECTED, ?s)"
    if w: "cnt \<noteq> 0" "addr \<le> x" "x \<le> addr + cnt - 1" "addr + cnt - 1 < 0x02000000"
      "x < len \<or> CFG_ENV_ADDR \<le> x \<and> x < CFG_ENV_ADDR + 0x20000" for prog src addr cnt x
  proof -
    have i: "flash_info ?s = [?b]" by simp
    have ord: "addr \<le> addr + cnt - 1 \<or> cnt = 0" using order_trans [OF w(2,3)] ..
    have x: "x < 0x02000000" using w(3,4) by simp
    have inside: "\<not> (addr < fl_start ?b ! 0 \<or> bank_last ?b < addr + cnt - 1)"
      using w(4) by (simp add: bank_last_def not_less word_less_nat_alt word_le_nat_alt)
    obtain j where j: "j < 35" "in_sector ?b j x" "start_protect len ! j \<noteq> 0"
      using protected_at [OF x w(5)] by blast
    then have "\<exists>j < sector_count ?b. fl_protect ?b ! j \<noteq> 0 \<and> (\<exists>x. addr \<le> x \<and> x \<le> addr + cnt - 1 \<and> in_sector ?b j x)"
      using w(2,3) by auto
    then show ?thesis
      unfolding flash_write_eq [OF i wf ord] if_not_P [OF w(1)] if_not_P [OF inside] by (simp only: if_True)
  qed
  then show ?thesis using r by blast
qed

lemma flash_init_protects_witness:
  "\<exists>st'. flash_init INTEL_MANUFACT INTEL_ID_28F256K3 0x18000 start_machine = Some (0x02000000, st') \<and>
     flash_write good_chip ''abc'' 0x1ffff 3 st' = Some (ERR_PROTECTED, st') \<and>
     flash_write good_chip ''abc'' 0x17fff 3 st' = Some (ERR_PROTECTED, st')"
proof -
  have "\<exists>st'. flash_init INTEL_MANUFACT INTEL_ID_28F256K3 0x18000 start_machine = Some (0x02000000, st') \<and>
    (\<forall>prog src addr cnt x. cnt \<noteq> 0 \<and> addr \<le> x \<and> x \<le> addr + cnt - 1 \<and> addr + cnt - 1 < 0x02000000 \<and>
       (x < 0x18000 \<or> CFG_ENV_ADDR \<le> x \<and> x < CFG_ENV_ADDR + 0x20000) \<longrightarrow>
       flash_write prog src addr cnt st' = Some (ERR_PROTECTED, st'))"
    by (rule flash_init_protects [OF _ start_machine_simps(1,3,2)]) (simp_all add: known_flash_def)
  then obtain st' where s: "flash_init INTEL_MANUFACT INTEL_ID_28F256K3 0x18000 start_machine = Some (0x02000000, st')"
    and w: "\<And>prog src addr cnt x. cnt \<noteq> 0 \<and> addr \<le> x \<and> x \<le> addr + cnt - 1 \<and> addr + cnt - 1 < 0x02000000 \<and>
       (x < 0x18000 \<or> CFG_ENV_ADDR \<le> x \<and> x < CFG_ENV_ADDR + 0x20000) \<Longrightarrow>
       flash_write prog src addr cnt st' = Some (ERR_PROTECTED, st')" by blast
  have "flash_write good_chip ''abc'' 0x1ffff 3 st' = Some (ERR_PROTECTED, st')"
    by (rule w [of _ _ "0x20000"]) (simp add: CFG_ENV_ADDR_def)
  moreover have "flash_write good_chip ''abc'' 0x17fff 3 st' = Some (ERR_PROTECTED, st')"
    by (rule w [of _ _ "0x17fff"]) simp
  ultimately show ?thesis using s by blast
qed

end
