(* ===== verification/Spec2Isabelle.thy ===== *)
theory Spec2Isabelle
  imports C_Type C_String Vsprintf Crc32 Lists Bytes Devices Console Env_Data Environment
    Environment_Props Command Cli Cli_Props Srecord Flash Flash_Cmd Flash_Props Saveenv Load Load_Props Timer_Props Inet_Props Eth Net Net_Props Tftp_Props Net_Loop_Props
    Ecc Bootm_Props Memory_Props Kermit_Props Nand_Sim Flash_Init_Props
begin

text \<open>
  The boot loader U-Boot 1.2 for the AS3310 / ASM9260T board (ARM926EJ-S): its C library
  routines, the list library, the console, the environment, the command interpreter, flash,
  serial download, the network stack, the NAND error-correcting code, and booting an image.

  \<^bold>\<open>Conventions.\<close>  The target has 32-bit \<open>int\<close> and \<open>long\<close> and an unsigned \<open>char\<close>.  A buffer is
  the list of its characters; a pointer into it is the list from there to the end of the object
  or an index, and every access is checked: the result \<^const>\<open>None\<close> of a function is an access
  outside the object.  A theorem that concludes \<open>Some r\<close> therefore also says that the code stays
  within bounds.  Loops that read a shared object are recursive functions on an index with a
  measure; the loops that wait for the user are \<open>partial_function (option)\<close>, where \<^const>\<open>None\<close>
  also stands for waiting for ever.

  \<^bold>\<open>Theories.\<close>

  \<^item> \<open>Prelude\<close>: machine types, C strings, bounds-checked reads and writes, shared lemmas.
  \<^item> \<open>C_Type\<close>, \<open>C_String\<close>: \<open>lib_generic/ctype.c\<close> with \<open>include/linux/ctype.h\<close>, and
    \<open>lib_generic/string.c\<close>; one definition per C function.
  \<^item> \<open>Vsprintf\<close>: \<open>lib_generic/vsprintf.c\<close>: reading numbers, \<open>number\<close>, and \<open>vsprintf\<close> with every
    conversion; round trips between printing and reading.
  \<^item> \<open>Crc32\<close>: \<open>lib_generic/crc32.c\<close>: the table, the unrolled loops, their equivalence with the
    bit-serial register, and detection of bursts.
  \<^item> \<open>Lists\<close>: \<open>common/lists.c\<close>: a list of items of a fixed size in one block of memory; it refines
    sequences of items, which the locale \<open>item_sequence\<close> states and \<open>lists\<close> interprets.
  \<^item> \<open>Bytes\<close>: integers in memory and on the wire.
  \<^item> \<open>Devices\<close>, \<open>Console\<close>: \<open>cpu/arm926ejs/serial.c\<close>, \<open>common/devices.c\<close>, \<open>common/console.c\<close>,
    \<open>common/cmd_console.c\<close>.  The record \<open>console\<close> holds the serial line (the sequence of the
    answers to polls, and what was sent), the device list, the standard files and the jump table.
  \<^item> \<open>Env_Data\<close>, \<open>Environment\<close>, \<open>Environment_Props\<close>: \<open>common/cmd_nvedit.c\<close>,
    \<open>common/env_common.c\<close>, \<open>common/env_flash.c\<close>: the loops on the data area, the handlers, and
    their properties.  The record \<open>board\<close> extends \<open>console\<close>.  The abstract environment is a list
    of pairs of a name and a value (\<open>env_rep\<close>); the locale \<open>name_store\<close> states the contract
    between an update and a lookup and \<open>env\<close> interprets it.
  \<^item> \<open>Command\<close>: \<open>common/command.c\<close>: the command table, the basic commands, completion.
  \<^item> \<open>Cli\<close>, \<open>Cli_Props\<close>: \<open>common/main.c\<close>: line editing, splitting, macros, \<open>run_command\<close>,
    \<open>run\<close>, the autoboot countdown and the main loop; what they do with a whole line.
  \<^item> \<open>Srecord\<close>: \<open>common/s_record.c\<close>: decoding S-records and what the checksum detects.
  \<^item> \<open>Flash\<close>, \<open>Flash_Cmd\<close>: \<open>common/flash.c\<close>, \<open>board/as3310/flash.c\<close>, \<open>common/cmd_flash.c\<close>: the
    record \<open>machine\<close> extends \<open>board\<close> with the memory and the sector tables; protection, guarded
    writes, the halfword writer, sector ranges, erasing, \<open>saveenv\<close> (\<open>common/env_flash.c\<close>).
  \<^item> \<open>Flash_Props\<close>, \<open>Saveenv\<close>: exactness of writes and of protection, and that a saved
    environment is the one that the next start finds.
  \<^item> \<open>Flash_Init\<close>, \<open>Flash_Init_Props\<close>: \<open>board/as3310/flash.c\<close>: the chip and its sectors at the start, what
    is protected then, and \<open>flinfo\<close>.
  \<^item> \<open>Load\<close>, \<open>Load_Props\<close>: \<open>common/cmd_load.c\<close>: \<open>loads\<close> and \<open>saves\<close>, and their round trip.
  \<^item> \<open>Kermit\<close>, \<open>Kermit_Props\<close>: \<open>loadb\<close> of \<open>common/cmd_load.c\<close>; the record \<open>kermit\<close> extends
    \<open>machine\<close> with the static variables of the receiver.  A session is a list of packets, each with
    the copies of it that arrive: what the receiver makes of damaged and repeated copies, and of a
    damaged header.
  \<^item> \<open>Timer\<close>, \<open>Timer_Props\<close>: the time stamp and the delays of \<open>cpu/arm926ejs/interrupts.c\<close>, where
    the port reads the constant 0 instead of the counter: delays that never end are found.
    \<open>Messages\<close>: what \<open>printf\<close> and \<open>puts\<close> do to the state.
  \<^item> \<open>Inet\<close>, \<open>Inet_Props\<close>: the part of \<open>net/net.c\<close> that has no state: checksums, Ethernet, IP and
    UDP headers, address conversions and their round trips.
  \<^item> \<open>Eth\<close>: \<open>net/eth.c\<close>: the ring of devices and their selection; the record \<open>net\<close> extends \<open>machine\<close>
    with the timer, the devices, the frames and the variables of the network.
  \<^item> \<open>Net\<close>, \<open>Net_Props\<close>: \<open>net/net.c\<close>: ARP, sending, the dispatch of received frames, and PING; what
    a received frame does to the state.
  \<^item> \<open>Tftp\<close>, \<open>Tftp_Props\<close>: \<open>net/tftp.c\<close>; a whole transfer with repeated blocks stores the file.
  \<^item> \<open>Nfs\<close>, \<open>Bootp\<close>: \<open>net/nfs.c\<close>; \<open>net/bootp.c\<close> with DHCP and \<open>net/rarp.c\<close>.  Their records
    extend \<open>net\<close>.
  \<^item> \<open>Net_Loop\<close>: \<open>NetLoop\<close>, its time-outs and the commands of \<open>common/cmd_net.c\<close>: the handlers of
    all the protocols put together.  \<open>Net_Loop_Props\<close>: a TFTP transfer through the loop, from the
    frames to the environment.
  \<^item> \<open>Ecc\<close>: \<open>board/as3310/ecc.c\<close>: the correction of a NAND page from the report of the decoder, and
    that it restores the page.
  \<^item> \<open>Nand\<close>, \<open>Nand_Cmd\<close>: the NAND driver of \<open>board/as3310/flash.c\<close> as programs for the DMA engine, and
    the NAND and NOR commands of \<open>common/cmd_flash.c\<close>; the record \<open>nand\<close> extends \<open>machine\<close> with the
    geometry of the chip and the state of the chip.  \<open>Nand_Props\<close> states what an engine with a chip has to do
    for each program (\<open>reads_cells\<close>, \<open>programs_cells\<close>, \<open>erases_cells\<close>) and proves the loops over pages and
    blocks from it; \<open>Nand_Ident\<close> is about identification; \<open>Nand_Sim\<close> has a chip that meets the laws, and the
    properties of the commands.
  \<^item> \<open>Image_Header\<close>, \<open>Bootm\<close>, \<open>Bootm_Props\<close>: \<open>common/cmd_bootm.c\<close> and \<open>lib_arm/armlinux.c\<close>: the
    image header, \<open>bootm\<close>, and the list of tags a kernel finds.
  \<^item> \<open>Memory\<close>, \<open>Memory_Props\<close>: \<open>common/cmd_mem.c\<close> and \<open>common/cmd_itest.c\<close>; the record \<open>memory\<close> extends
    \<open>machine\<close>.

  \<^bold>\<open>Interaction.\<close>  The main loop reads a line through the console (\<open>readline\<close>), expands variables
  of the environment in it, looks the command up in the table and calls it with the board state;
  \<open>setenv\<close> writes the environment and changes the console, the baud rate and the network settings.
  The devices of the console are items of a list of \<open>common/lists.c\<close>.  The state is one record
  that grows by extension (\<open>console\<close>, \<open>board\<close>, \<open>machine\<close>, \<open>net\<close>, \<open>nfs\<close>, \<open>bootp\<close>, \<open>memory\<close>, \<open>kermit\<close>, \<open>nand\<close>), and a
  function of an inner layer is used on an outer one through \<open>truncate\<close> and \<open>extend\<close>.  A packet
  handler or a time-out handler, a pointer to a function in C, is a constructor of a datatype;
  \<open>Net_Loop\<close> maps the constructors to the functions.

  \<^bold>\<open>Parameters.\<close>  The memory allocator is a predicate on sizes (which requests succeed) or the
  block \<open>malloc\<close> returned; command handlers are a parameter of \<open>run_command\<close>.  The Ethernet
  driver is seen as what it gives and takes: the frames of each poll (\<open>eth_in\<close>), the frames sent
  (\<open>eth_out\<close>) and whether a device starts (\<open>dev_ready\<close>).  The results of the vendored inflate are
  a record, and the report of the error-correction hardware is an argument.  The DMA engine with the NAND
  chip is a function from its packages, the memory and the chip to the memory and the chip afterwards; the
  NOR chip is what it answers to the polls after a cycle.  Arrays on the stack that such hardware writes
  lie at an address that is an argument.

  \<^bold>\<open>Not modelled.\<close>  Boards, processors, drivers and file systems that are not linked into this
  board, the vendored zlib, bzip2, dlmalloc and busybox shell, assembler start-up code, and
  accesses to hardware registers other than the serial port: they have no meaning without the
  hardware.  For the same reason the NOR flash driver of the board is modelled down to the programming
  of one halfword (a parameter) and the erasing of one sector, not to the command cycles of the chip, and the
  NAND driver down to the packages of the DMA engine.
\<close>

end
